(* ===== verification/Iarm_Prelude.thy ===== *)
theory Iarm_Prelude
  imports "HOL-Library.Word" "HOL-Library.Signed_Division"
begin

text \<open>
  Shared vocabulary of the development: the result codes and power states of the IARM
  bus, the remote control key codes of hal/include/comcastIrKeyCodes.h, the few functions of
  the C library the managers call on strings (atoi, strncasecmp, strncpy into a bounded
  buffer), and generic lemmas on traces (a fold of a step function over a list of inputs that
  collects the emitted effects).
\<close>

named_theorems handler_defs "definitions of RPC handlers, unfolded together in case analyses"
named_theorems trace_simps "equations of trace functions"

section \<open>Result codes and power states\<close>

text \<open>The codes of libIARM.h that the managers return (the header belongs to another
  repository; only the names are used here).\<close>

datatype iarm_result =
    IARM_RESULT_SUCCESS
  | IARM_RESULT_IPCCORE_FAIL
  | IARM_RESULT_INVALID_PARAM
  | IARM_RESULT_INVALID_STATE
  | IARM_RESULT_OOM

datatype power_state =
    PWRMGR_OFF
  | PWRMGR_STANDBY
  | PWRMGR_ON
  | PWRMGR_STANDBY_LIGHT_SLEEP
  | PWRMGR_STANDBY_DEEP_SLEEP

text \<open>The system modes of the bus daemon.\<close>

datatype sys_mode = SYS_MODE_NORMAL | SYS_MODE_EAS | SYS_MODE_WAREHOUSE

section \<open>Remote control key codes\<close>

text \<open>The key types and the key codes of hal/include/comcastIrKeyCodes.h that the managers
  treat specially.\<close>

abbreviation (input) "KET_KEYDOWN \<equiv> (0x8000 :: int)"
abbreviation (input) "KET_KEYUP \<equiv> (0x8100 :: int)"
abbreviation (input) "KET_KEYREPEAT \<equiv> (0x8200 :: int)"
abbreviation (input) "KED_DISCRETE_POWER_ON \<equiv> (0x50 :: int)"
abbreviation (input) "KED_DISCRETE_POWER_STANDBY \<equiv> (0x51 :: int)"
abbreviation (input) "KED_PUSH_TO_TALK \<equiv> (0x64 :: int)"
abbreviation (input) "KED_VOLUME_OPTIMIZE \<equiv> (0x66 :: int)"
abbreviation (input) "KED_XR2V3 \<equiv> (0x67 :: int)"
abbreviation (input) "KED_XR5V2 \<equiv> (0x68 :: int)"
abbreviation (input) "KED_XR11V2 \<equiv> (0x6A :: int)"
abbreviation (input) "KED_XR13 \<equiv> (0x6B :: int)"
abbreviation (input) "KED_XR11_NOTIFY \<equiv> (0x6C :: int)"
abbreviation (input) "KED_XR15V1_NOTIFY \<equiv> (0x70 :: int)"
abbreviation (input) "KED_XR15V1_SELECT \<equiv> (0x71 :: int)"
abbreviation (input) "KED_XR15V1_PUSH_TO_TALK \<equiv> (0x72 :: int)"
abbreviation (input) "KED_SCREEN_BIND_NOTIFY \<equiv> (0x73 :: int)"
abbreviation (input) "KED_XR16V1_NOTIFY \<equiv> (0x74 :: int)"
abbreviation (input) "KED_XR16V1_SELECT \<equiv> (0x75 :: int)"
abbreviation (input) "KED_XR16V1_PUSH_TO_TALK \<equiv> (0x76 :: int)"
abbreviation (input) "KED_RF_POWER \<equiv> (0x7F :: int)"
abbreviation (input) "KED_POWER \<equiv> (0x80 :: int)"
abbreviation (input) "KED_ARROWUP \<equiv> (0x81 :: int)"
abbreviation (input) "KED_ARROWDOWN \<equiv> (0x82 :: int)"
abbreviation (input) "KED_ARROWLEFT \<equiv> (0x83 :: int)"
abbreviation (input) "KED_ARROWRIGHT \<equiv> (0x84 :: int)"
abbreviation (input) "KED_SELECT \<equiv> (0x85 :: int)"
abbreviation (input) "KED_OK \<equiv> (0xA9 :: int)"
abbreviation (input) "KED_MENU \<equiv> (0xC0 :: int)"
abbreviation (input) "KED_FACTORY \<equiv> (0xD6 :: int)"
abbreviation (input) "KED_UNDEFINEDKEY \<equiv> (0xFE :: int)"

section \<open>Strings of the C library\<close>

definition c_isspace :: "char \<Rightarrow> bool" where
  "c_isspace c = (let n = (of_char c :: nat) in n = 32 \<or> (9 \<le> n \<and> n \<le> 13))"

definition c_isdigit :: "char \<Rightarrow> bool" where
  "c_isdigit c = (let n = (of_char c :: nat) in 48 \<le> n \<and> n \<le> 57)"

definition c_digit :: "char \<Rightarrow> int" where
  "c_digit c = of_char c - 48"

definition c_tolower :: "char \<Rightarrow> nat" where
  "c_tolower c = (let n = of_char c in if 65 \<le> n \<and> n \<le> 90 then n + 32 else n)"

text \<open>The value of the digits read from the left, and atoi: blanks, an optional sign, digits;
  the text after the digits is ignored and a text without digits is 0.\<close>

definition digits_value :: "string \<Rightarrow> int" where
  "digits_value cs = foldl (\<lambda>acc c. 10 * acc + c_digit c) 0 (takeWhile c_isdigit cs)"

definition atoi :: "string \<Rightarrow> int" where
  "atoi s = (case dropWhile c_isspace s of
       [] \<Rightarrow> 0
     | c # cs \<Rightarrow> if c = CHR ''-'' then - digits_value cs
                 else if c = CHR ''+'' then digits_value cs
                 else digits_value (c # cs))"

text \<open>Whether strncasecmp (a, b, n) is 0, and whether strncmp (a, b, n) is 0: the strings
  agree on their first n characters, the end of the string counting as a character.\<close>

definition strncasecmp_eq :: "string \<Rightarrow> string \<Rightarrow> nat \<Rightarrow> bool" where
  "strncasecmp_eq a b n = (map c_tolower (take n a) = map c_tolower (take n b))"

definition strncmp_eq :: "string \<Rightarrow> string \<Rightarrow> nat \<Rightarrow> bool" where
  "strncmp_eq a b n = (take n a = take n b)"

lemma c_digit_nonneg: "c_isdigit c \<Longrightarrow> 0 \<le> c_digit c"
proof -
  assume "c_isdigit c"
  then have "48 \<le> (of_char c :: nat)" by (simp add: c_isdigit_def Let_def)
  moreover have "(of_char c :: int) = int (of_char c)" by (rule of_nat_of_char [symmetric])
  ultimately show ?thesis unfolding c_digit_def by linarith
qed

lemma digits_value_nonneg: "0 \<le> digits_value cs"
proof -
  have "0 \<le> a \<Longrightarrow> \<forall>c\<in>set ds. c_isdigit c \<Longrightarrow>
        0 \<le> foldl (\<lambda>acc c. 10 * acc + c_digit c) a ds" for a :: int and ds
    by (induction ds arbitrary: a) (auto simp: c_digit_nonneg)
  moreover have "\<forall>c\<in>set (takeWhile c_isdigit cs). c_isdigit c"
    by (auto dest: set_takeWhileD)
  ultimately show ?thesis unfolding digits_value_def by blast
qed

section \<open>Traces\<close>

text \<open>Run a step function over the inputs of a trace: the final state, and the effects of the
  steps in the order of the inputs, one list per input.\<close>

primrec run_trace :: "('i \<Rightarrow> 's \<Rightarrow> 's \<times> 'e list) \<Rightarrow> 'i list \<Rightarrow> 's \<Rightarrow> 's \<times> 'e list" where
  "run_trace f [] s = (s, [])"
| "run_trace f (i # is) s =
     (let (s', es) = f i s; (s'', es') = run_trace f is s' in (s'', es @ es'))"

lemma run_trace_append:
  "run_trace f (is @ js) s =
     (let (s', es) = run_trace f is s; (s'', es') = run_trace f js s' in (s'', es @ es'))"
  by (induction "is" arbitrary: s) (auto simp: Let_def split: prod.splits)

lemma fst_run_trace_append [trace_simps]:
  "fst (run_trace f (is @ js) s) = fst (run_trace f js (fst (run_trace f is s)))"
  by (simp add: run_trace_append Let_def case_prod_beta)

lemma snd_run_trace_append [trace_simps]:
  "snd (run_trace f (is @ js) s) =
     snd (run_trace f is s) @ snd (run_trace f js (fst (run_trace f is s)))"
  by (simp add: run_trace_append Let_def case_prod_beta)

lemma snd_run_trace_Cons [trace_simps]:
  "snd (run_trace f (i # is) s) = snd (f i s) @ snd (run_trace f is (fst (f i s)))"
  by (simp add: Let_def case_prod_beta)

lemma fst_run_trace_snoc [trace_simps]:
  "fst (run_trace f (is @ [i]) s) = fst (f i (fst (run_trace f is s)))"
  by (simp add: run_trace_append Let_def split: prod.splits)

lemma fst_run_trace_Cons [trace_simps]:
  "fst (run_trace f (i # is) s) = fst (run_trace f is (fst (f i s)))"
  by (simp add: Let_def split: prod.splits)

text \<open>A predicate that one step preserves holds after every trace.\<close>

lemma run_trace_invariant:
  assumes "\<And>i s. P s \<Longrightarrow> P (fst (f i s))" and "P s"
  shows "P (fst (run_trace f is s))"
  using assms(2)
proof (induction "is" arbitrary: s)
  case (Cons i "is")
  then show ?case using assms(1) by (simp add: fst_run_trace_Cons del: run_trace.simps)
qed simp

lemma run_trace_effects:
  assumes "\<And>i s. P s \<Longrightarrow> P (fst (f i s)) \<and> (\<forall>e\<in>set (snd (f i s)). Q e)" and "P s"
  shows "\<forall>e\<in>set (snd (run_trace f is s)). Q e"
  using assms(2)
proof (induction "is" arbitrary: s)
  case (Cons i "is")
  from assms(1)[OF Cons.prems, of i] Cons.IH show ?case
    by (auto simp: Let_def split: prod.splits)
qed simp

text \<open>An effect of a trace was emitted by one of its steps.\<close>

lemma run_trace_effect_split:
  assumes "e \<in> set (snd (run_trace f is s))"
  shows "\<exists>xs i ys. is = xs @ i # ys \<and> e \<in> set (snd (f i (fst (run_trace f xs s))))"
  using assms
proof (induction "is" arbitrary: s)
  case (Cons i "is")
  show ?case
  proof (cases "e \<in> set (snd (f i s))")
    case True
    then have "i # is = [] @ i # is \<and> e \<in> set (snd (f i (fst (run_trace f [] s))))" by simp
    then show ?thesis by blast
  next
    case False
    with Cons.prems have "e \<in> set (snd (run_trace f is (fst (f i s))))"
      by (auto simp: Let_def split: prod.splits)
    with Cons.IH obtain xs j ys where
      "is = xs @ j # ys" "e \<in> set (snd (f j (fst (run_trace f xs (fst (f i s))))))" by blast
    then have "i # is = (i # xs) @ j # ys \<and>
        e \<in> set (snd (f j (fst (run_trace f (i # xs) s))))"
      by (simp only: append_Cons fst_run_trace_Cons)
    then show ?thesis by blast
  qed
qed simp

lemma run_trace_effect_in:
  assumes "is = xs @ i # ys" and "e \<in> set (snd (f i (fst (run_trace f xs s))))"
  shows "e \<in> set (snd (run_trace f is s))"
  using assms(2) unfolding assms(1)
  by (simp add: trace_simps del: run_trace.simps)

end
