(* ===== verification/Therm_Mgr.thy ===== *)
theory Therm_Mgr
  imports Iarm_Prelude
begin

text \<open>
  The thermal protection of the power manager: pwrmgr2/therm\_mgr.c (thresholds, the three
  monitors, the polling thread, the RPC handlers and the RFC configuration) and
  pwrmgr2/therm\_mon.c (the platform layer over mfr\_temperature and the cpufreq files).
  Log lines are not modelled; every other effect is a value of type therm\_effect.
  Temperatures pass through C floats from an int and back to an int, which is exact for
  readings below 2 to the 24 in absolute value, so they are ints here.  The two readings of
  the clock that a monitor can make in one poll are two arguments.
\<close>

section \<open>State\<close>

text \<open>The four globals of one monitor, and the two static locals of the functions
  rebootIfNeeded and deepSleepIfNeeded.\<close>

record thresholds =
  critical :: int
  concern :: int
  safe :: int
  grace :: int

record zone_mon =
  monitorTime :: int
  inZone :: bool

datatype thermal_level =
    TEMPERATURE_NORMAL
  | TEMPERATURE_HIGH
  | TEMPERATURE_CRITICAL

record therm_state =
  thermal_reboot :: thresholds
  thermal_deepsleep :: thresholds
  thermal_declock :: thresholds
  thermal_poll_interval :: int
  read_config_param :: bool
  isFeatureEnabled :: bool
  cur_Thermal_Level :: thermal_level
  cur_Thermal_Value :: int
  cur_Cpu_Speed :: "32 word"
  PLAT_CPU_SPEED_NORMAL :: "32 word"
  PLAT_CPU_SPEED_SCALED :: "32 word"
  PLAT_CPU_SPEED_MINIMAL :: "32 word"
  reboot_mon :: zone_mon
  deepsleep_mon :: zone_mon
  declock_time :: int

definition therm_init :: therm_state where
  "therm_init = \<lparr>
     thermal_reboot = \<lparr>critical = 120, concern = 112, safe = 110, grace = 600\<rparr>,
     thermal_deepsleep = \<lparr>critical = 115, concern = 110, safe = 100, grace = 600\<rparr>,
     thermal_declock = \<lparr>critical = 110, concern = 100, safe = 90, grace = 60\<rparr>,
     thermal_poll_interval = 30,
     read_config_param = False,
     isFeatureEnabled = True,
     cur_Thermal_Level = TEMPERATURE_NORMAL,
     cur_Thermal_Value = 0,
     cur_Cpu_Speed = 0,
     PLAT_CPU_SPEED_NORMAL = 0,
     PLAT_CPU_SPEED_SCALED = 0,
     PLAT_CPU_SPEED_MINIMAL = 0,
     reboot_mon = \<lparr>monitorTime = 0, inZone = False\<rparr>,
     deepsleep_mon = \<lparr>monitorTime = 0, inZone = False\<rparr>,
     declock_time = 0\<rparr>"

datatype therm_effect =
    RebootCritical          \<comment> \<open>system("/rebootNow.sh ... greater than thermal_reboot_critical_threshold")\<close>
  | RebootStillHot          \<comment> \<open>system("/rebootNow.sh ... still above critical level after 20 seconds")\<close>
  | LogShutdownReason string
  | AlertSystem string
  | SetPowerStateDeepSleep  \<comment> \<open>system("/SetPowerState DEEPSLEEP")\<close>
  | SetClockSpeed "32 word"
  | ThermalModeChanged thermal_level thermal_level int
  | LogCpuMode string
  | LogTemperature int
  | RegisterCall string
  | SetTempThresholds int int
  | CreatePollThread

section \<open>The platform layer\<close>

definition uint32_compare :: "32 word \<Rightarrow> 32 word \<Rightarrow> int" where
  "uint32_compare l r = (if l = r then 0 else if l < r then - 1 else 1)"

text \<open>qsort with this comparator, as insertion: the list is ordered by the sign of the
  comparator's result.\<close>

primrec qsort_insert :: "('a \<Rightarrow> 'a \<Rightarrow> int) \<Rightarrow> 'a \<Rightarrow> 'a list \<Rightarrow> 'a list" where
  "qsort_insert cmp x [] = [x]"
| "qsort_insert cmp x (y # ys) = (if cmp x y \<le> 0 then x # y # ys else y # qsort_insert cmp x ys)"

definition qsort :: "('a \<Rightarrow> 'a \<Rightarrow> int) \<Rightarrow> 'a list \<Rightarrow> 'a list" where
  "qsort cmp xs = foldr (qsort_insert cmp) xs []"

text \<open>The file of available frequencies is None when it cannot be opened, and otherwise the
  numbers that fscanf reads one after the other; at most 32 are read.  The result is the
  return value and the (normal, scaled, minimal) triple the caller's pointers receive, when the
  function writes them.\<close>

definition PLAT_API_DetemineClockSpeeds ::
  "32 word list option \<Rightarrow> int \<times> (32 word \<times> 32 word \<times> 32 word) option" where
  "PLAT_API_DetemineClockSpeeds fp = (case fp of
       None \<Rightarrow> (0, None)
     | Some ns \<Rightarrow>
         let freqList = take 32 ns; numFreqs = length freqList in
         if numFreqs \<le> 0 then (- 1, None)
         else
           let sorted_list = qsort uint32_compare freqList;
               minimal = sorted_list ! 0;
               scaled = sorted_list ! (numFreqs div 2);
               normal = sorted_list ! (numFreqs - 1)
           in (1, Some (normal, scaled, minimal)))"

text \<open>The file of the current frequency: None when it cannot be opened, Some None when it
  holds no number.  The second component is the caller's variable after the call.\<close>

definition PLAT_API_GetClockSpeed :: "32 word option option \<Rightarrow> 32 word \<Rightarrow> int \<times> 32 word" where
  "PLAT_API_GetClockSpeed fp speed = (case fp of
       None \<Rightarrow> (0, speed)
     | Some None \<Rightarrow> (1, speed)
     | Some (Some v) \<Rightarrow> (1, v))"

datatype sysfs_write = GovernorUserspace | SetSpeed "32 word"

definition PLAT_API_SetClockSpeed ::
  "bool \<Rightarrow> bool \<Rightarrow> 32 word option option \<Rightarrow> 32 word \<Rightarrow> int \<times> sysfs_write list" where
  "PLAT_API_SetClockSpeed governor_opens setspeed_opens cur_freq speed =
     (if \<not> governor_opens then (0, [])
      else if \<not> setspeed_opens then (0, [GovernorUserspace])
      else
        let (ok, cur_speed) = PLAT_API_GetClockSpeed cur_freq 0 in
        if ok \<noteq> 1 then (1, [GovernorUserspace, SetSpeed speed])
        else (if speed = cur_speed then 1 else 0, [GovernorUserspace, SetSpeed speed]))"

text \<open>mfrGetTemperature and its siblings belong to the manufacturer library: None is an
  error, Some carries the values.\<close>

definition PLAT_API_GetTemperature ::
  "(thermal_level \<times> int \<times> int) option \<Rightarrow> (thermal_level \<times> int \<times> int) option" where
  "PLAT_API_GetTemperature mfr = (case mfr of
       None \<Rightarrow> None
     | Some (state, temperatureValue, wifiTempValue) \<Rightarrow>
         Some (state, temperatureValue, wifiTempValue))"

definition PLAT_API_SetTempThresholds :: "(int \<Rightarrow> int \<Rightarrow> bool) \<Rightarrow> int \<Rightarrow> int \<Rightarrow> int" where
  "PLAT_API_SetTempThresholds mfrSet tempHigh tempCritical =
     (if mfrSet tempHigh tempCritical then 1 else 0)"

definition PLAT_API_GetTempThresholds :: "(int \<times> int) option \<Rightarrow> int \<times> (int \<times> int) option" where
  "PLAT_API_GetTempThresholds mfr = (case mfr of
       None \<Rightarrow> (0, None)
     | Some (highTemp, criticalTemp) \<Rightarrow> (1, Some (highTemp, criticalTemp)))"

section \<open>The monitors\<close>

definition logThermalShutdownReason :: "therm_effect list" where
  "logThermalShutdownReason = [LogShutdownReason ''THERMAL_SHUTDOWN'']"

definition rebootIfNeeded ::
  "thresholds \<Rightarrow> int \<Rightarrow> int \<Rightarrow> int \<Rightarrow> zone_mon \<Rightarrow> zone_mon \<times> therm_effect list" where
  "rebootIfNeeded thr temp t0 t1 m =
     (if grace thr = 0 then (m, [])
      else
        let (m1, es) =
              (if temp \<ge> critical thr then (m, [RebootCritical])
               else if \<not> inZone m \<and> temp \<ge> concern thr
                 then (m\<lparr>monitorTime := t0, inZone := True\<rparr>, [])
               else if inZone m \<and> temp < safe thr then (m\<lparr>inZone := False\<rparr>, [])
               else (m, []))
        in if inZone m1
           then (let difftime = t1 - monitorTime m1 in
                 if difftime \<ge> grace thr then (m1, es @ [RebootStillHot]) else (m1, es))
           else (m1, es))"

definition deepSleepIfNeeded ::
  "thresholds \<Rightarrow> int \<Rightarrow> int \<Rightarrow> int \<Rightarrow> zone_mon \<Rightarrow> zone_mon \<times> therm_effect list" where
  "deepSleepIfNeeded thr temp t0 t1 m =
     (if grace thr = 0 then (m, [])
      else
        let (m1, es) =
              (if temp \<ge> critical thr
                 then (m, logThermalShutdownReason @
                          [AlertSystem ''Going to deepsleep due to temperature runaway'',
                           SetPowerStateDeepSleep])
               else if \<not> inZone m \<and> temp \<ge> concern thr
                 then (m\<lparr>monitorTime := t0, inZone := True\<rparr>, [])
               else if inZone m \<and> temp < safe thr then (m\<lparr>inZone := False\<rparr>, [])
               else (m, []))
        in if inZone m1
           then (let difftime = t1 - monitorTime m1 in
                 if difftime \<ge> grace thr
                 then (m1, es @ logThermalShutdownReason @
                           [AlertSystem ''Going to deepsleep due to over temperature'',
                            SetPowerStateDeepSleep])
                 else (m1, es))
           else (m1, es))"

text \<open>The clock speed monitor.  The flag is the build option DISABLE\_DECLOCKING\_LOGIC; the
  return value of PLAT\_API\_SetClockSpeed is ignored by the code, so the effect only records
  the requested speed.\<close>

definition declockIfNeeded :: "bool \<Rightarrow> int \<Rightarrow> therm_state \<Rightarrow> therm_state \<times> therm_effect list" where
  "declockIfNeeded disabled now s =
     (let thr = thermal_declock s; temp = cur_Thermal_Value s in
      if disabled then (s, [])
      else if grace thr = 0 then (s, [])
      else if temp \<ge> critical thr then
        (if cur_Cpu_Speed s \<noteq> PLAT_CPU_SPEED_MINIMAL s
         then (s\<lparr>cur_Cpu_Speed := PLAT_CPU_SPEED_MINIMAL s, declock_time := now\<rparr>,
               [SetClockSpeed (PLAT_CPU_SPEED_MINIMAL s)])
         else (s\<lparr>declock_time := now\<rparr>, []))
      else if temp \<ge> concern thr then
        (if cur_Cpu_Speed s = PLAT_CPU_SPEED_NORMAL s
         then (s\<lparr>cur_Cpu_Speed := PLAT_CPU_SPEED_SCALED s, declock_time := now\<rparr>,
               [SetClockSpeed (PLAT_CPU_SPEED_SCALED s)])
         else (s\<lparr>declock_time := now\<rparr>, []))
      else if temp > safe thr then
        (if cur_Cpu_Speed s = PLAT_CPU_SPEED_MINIMAL s
         then (if now - declock_time s \<ge> grace thr
               then (s\<lparr>cur_Cpu_Speed := PLAT_CPU_SPEED_SCALED s, declock_time := now\<rparr>,
                     [SetClockSpeed (PLAT_CPU_SPEED_SCALED s)])
               else (s, []))
         else (s\<lparr>declock_time := now\<rparr>, []))
      else
        (if cur_Cpu_Speed s \<noteq> PLAT_CPU_SPEED_NORMAL s
         then (if now - declock_time s \<ge> grace thr
               then (s\<lparr>cur_Cpu_Speed := PLAT_CPU_SPEED_NORMAL s\<rparr>,
                     [SetClockSpeed (PLAT_CPU_SPEED_NORMAL s)])
               else (s, []))
         else (s, [])))"

section \<open>The polling thread\<close>

text \<open>What one poll reads: the temperature (None when the manufacturer library fails) and the
  clock at each of the places where a monitor reads it.\<close>

record poll_input =
  reading :: "(thermal_level \<times> int \<times> int) option"
  ds_t0 :: int
  ds_t1 :: int
  rb_t0 :: int
  rb_t1 :: int
  dc_t :: int

text \<open>The log intervals are C ints computed once when the thread starts; a zero poll interval
  is a division by zero, which kills the process (None).\<close>

definition log_interval :: "int \<Rightarrow> int \<Rightarrow> 32 word option" where
  "log_interval period p = (if p = 0 then None else Some (word_of_int (period sdiv p)))"

definition cpu_mode_name :: "therm_state \<Rightarrow> string" where
  "cpu_mode_name s =
     (if cur_Cpu_Speed s = PLAT_CPU_SPEED_NORMAL s then ''Normal''
      else if cur_Cpu_Speed s = PLAT_CPU_SPEED_SCALED s then ''Scaled'' else ''Minimal'')"

text \<open>One turn of the loop of _PollThermalLevels, with the two intervals and the unsigned poll
  counter; None is the division by zero of pollCount % interval.\<close>

definition poll_turn ::
  "bool \<Rightarrow> 32 word \<Rightarrow> 32 word \<Rightarrow> poll_input \<Rightarrow> 32 word \<Rightarrow> therm_state \<Rightarrow>
   (therm_state \<times> therm_effect list) option" where
  "poll_turn no_declock thermalLogInterval fifteenMinInterval i pollCount s =
     (case PLAT_API_GetTemperature (reading i) of
        None \<Rightarrow> Some (s, [])
      | Some (state, current_Temp, current_WifiTemp) \<Rightarrow>
          if fifteenMinInterval = 0 \<or> thermalLogInterval = 0 then None
          else
            let es0 = (if cur_Thermal_Level s \<noteq> state
                       then [ThermalModeChanged (cur_Thermal_Level s) state current_Temp] else []);
                s0 = (if cur_Thermal_Level s \<noteq> state then s\<lparr>cur_Thermal_Level := state\<rparr> else s);
                es1 = (if pollCount mod fifteenMinInterval = 0
                       then [LogCpuMode (cpu_mode_name s0)] else []);
                es2 = (if pollCount mod thermalLogInterval = 0
                       then [LogTemperature current_Temp] else []);
                s1 = s0\<lparr>cur_Thermal_Value := current_Temp\<rparr>;
                (dm, es3) = deepSleepIfNeeded (thermal_deepsleep s1) (cur_Thermal_Value s1)
                              (ds_t0 i) (ds_t1 i) (deepsleep_mon s1);
                s2 = s1\<lparr>deepsleep_mon := dm\<rparr>;
                (rm, es4) = rebootIfNeeded (thermal_reboot s2) (cur_Thermal_Value s2)
                              (rb_t0 i) (rb_t1 i) (reboot_mon s2);
                s3 = s2\<lparr>reboot_mon := rm\<rparr>;
                (s4, es5) = declockIfNeeded no_declock (dc_t i) s3
            in Some (s4, es0 @ es1 @ es2 @ es3 @ es4 @ es5))"

primrec poll_loop ::
  "bool \<Rightarrow> 32 word \<Rightarrow> 32 word \<Rightarrow> poll_input list \<Rightarrow> 32 word \<Rightarrow> therm_state \<Rightarrow>
   (therm_state \<times> therm_effect list) option" where
  "poll_loop no_declock li fi [] pollCount s = Some (s, [])"
| "poll_loop no_declock li fi (i # is) pollCount s =
     (case poll_turn no_declock li fi i pollCount s of
        None \<Rightarrow> None
      | Some (s', es) \<Rightarrow>
          (case poll_loop no_declock li fi is (pollCount + 1) s' of
             None \<Rightarrow> None
           | Some (s'', es') \<Rightarrow> Some (s'', es @ es')))"

definition PollThermalLevels ::
  "bool \<Rightarrow> poll_input list \<Rightarrow> therm_state \<Rightarrow> (therm_state \<times> therm_effect list) option" where
  "PollThermalLevels no_declock is s =
     (case (log_interval 300 (thermal_poll_interval s), log_interval 900 (thermal_poll_interval s)) of
        (Some li, Some fi) \<Rightarrow> poll_loop no_declock li fi is 0 s
      | _ \<Rightarrow> None)"

section \<open>The RPC handlers\<close>

text \<open>An RPC argument is None for a NULL pointer.  A handler returns the state, the argument as
  the caller finds it afterwards (for the getters) and the result code.\<close>

definition GetThermalState ::
  "(thermal_level \<times> int) option \<Rightarrow> therm_state \<Rightarrow> (thermal_level \<times> int) option \<times> iarm_result" where
  "GetThermalState arg s = (case arg of
       None \<Rightarrow> (None, IARM_RESULT_INVALID_PARAM)
     | Some param \<Rightarrow> (Some (cur_Thermal_Level s, cur_Thermal_Value s), IARM_RESULT_SUCCESS))"

definition GetTemperatureThresholds ::
  "(int \<times> int) option \<Rightarrow> (int \<times> int) option \<Rightarrow> (int \<times> int) option \<times> iarm_result" where
  "GetTemperatureThresholds mfr arg = (case arg of
       None \<Rightarrow> (None, IARM_RESULT_INVALID_PARAM)
     | Some param \<Rightarrow>
         (case PLAT_API_GetTempThresholds mfr of
            (r, Some (high, crit)) \<Rightarrow>
               if r \<noteq> 0 then (Some (high, crit), IARM_RESULT_SUCCESS)
               else (Some param, IARM_RESULT_IPCCORE_FAIL)
          | (r, None) \<Rightarrow> (Some param, IARM_RESULT_IPCCORE_FAIL)))"

definition SetTemperatureThresholds ::
  "(int \<Rightarrow> int \<Rightarrow> bool) \<Rightarrow> (int \<times> int) option \<Rightarrow> iarm_result" where
  "SetTemperatureThresholds mfrSet arg = (case arg of
       None \<Rightarrow> IARM_RESULT_INVALID_PARAM
     | Some (tempHigh, tempCritical) \<Rightarrow>
         if PLAT_API_SetTempThresholds mfrSet tempHigh tempCritical \<noteq> 0
         then IARM_RESULT_SUCCESS else IARM_RESULT_IPCCORE_FAIL)"

definition GetOvertempGraceInterval ::
  "int option \<Rightarrow> therm_state \<Rightarrow> int option \<times> iarm_result" where
  "GetOvertempGraceInterval arg s = (case arg of
       None \<Rightarrow> (None, IARM_RESULT_INVALID_PARAM)
     | Some _ \<Rightarrow> (Some (grace (thermal_reboot s)), IARM_RESULT_SUCCESS))"

definition SetOvertempGraceInterval ::
  "int option \<Rightarrow> therm_state \<Rightarrow> therm_state \<times> iarm_result" where
  "SetOvertempGraceInterval arg s = (case arg of
       None \<Rightarrow> (s, IARM_RESULT_INVALID_PARAM)
     | Some graceInterval \<Rightarrow>
         if graceInterval \<ge> 0
         then (s\<lparr>thermal_reboot := (thermal_reboot s)\<lparr>grace := graceInterval\<rparr>,
                 thermal_deepsleep := (thermal_deepsleep s)\<lparr>grace := graceInterval\<rparr>\<rparr>,
               IARM_RESULT_SUCCESS)
         else (s, IARM_RESULT_INVALID_PARAM))"

lemmas [handler_defs] =
  GetThermalState_def GetTemperatureThresholds_def SetTemperatureThresholds_def
  GetOvertempGraceInterval_def SetOvertempGraceInterval_def

section \<open>RFC configuration\<close>

text \<open>The RFC store is a parameter: the value of a key in the thermal group, None when
  getRFCParameter does not succeed.\<close>

type_synonym rfc_store = "string \<Rightarrow> string option"

definition MAX_THERMAL_RFC :: nat where
  "MAX_THERMAL_RFC = 16"

definition updateRFCStatus :: "rfc_store \<Rightarrow> therm_state \<Rightarrow> therm_state \<times> bool" where
  "updateRFCStatus rfc s =
     (let s1 = s\<lparr>isFeatureEnabled := True\<rparr> in
      case rfc ''RFC_ENABLE_ThermalProtection'' of
        None \<Rightarrow> (s1, False)
      | Some value \<Rightarrow>
          if strncasecmp_eq value ''false'' 5 then (s1\<lparr>isFeatureEnabled := False\<rparr>, False)
          else (s1, True))"

text \<open>read\_ConfigProperty: None is the copy of dataLen - 2 = -1 characters that a value of a
  single quote asks of strncpy (an unsigned length, so an overflow of valueBuf); Some None is
  "no value".  A value that begins and ends with a quote loses both, the others are cut to the
  buffer.  The length is cut before the closing quote is looked for.\<close>

definition read_ConfigProperty :: "rfc_store \<Rightarrow> string \<Rightarrow> string option option" where
  "read_ConfigProperty rfc key =
     (case rfc key of
        None \<Rightarrow> Some None
      | Some v \<Rightarrow>
          let dataLen = (if length v > MAX_THERMAL_RFC - 1 then MAX_THERMAL_RFC - 1 else length v) in
          if dataLen = 0 then Some None
          else if v ! 0 = CHR 0x22 \<and> v ! (dataLen - 1) = CHR 0x22
          then (if dataLen = 1 then None
                else (let valueBuf = take (dataLen - 2) (drop 1 v) in
                      Some (if valueBuf = [] then None else Some valueBuf)))
          else (let valueBuf = take (MAX_THERMAL_RFC - 1) v in Some (Some valueBuf)))"

definition override ::
  "rfc_store \<Rightarrow> string \<Rightarrow> (int \<Rightarrow> therm_state \<Rightarrow> therm_state) \<Rightarrow> therm_state option \<Rightarrow>
   therm_state option" where
  "override rfc key setter so = (case so of
       None \<Rightarrow> None
     | Some s \<Rightarrow>
         (case read_ConfigProperty rfc key of
            None \<Rightarrow> None
          | Some None \<Rightarrow> Some s
          | Some (Some value) \<Rightarrow> Some (setter (atoi value) s)))"

text \<open>read\_ConfigProps: the sixteen keys, in the order of the code.\<close>

definition config_keys :: "(string \<times> (int \<Rightarrow> therm_state \<Rightarrow> therm_state)) list" where
  "config_keys =
    [(''RFC_DATA_ThermalProtection_REBOOT_CRITICAL_THRESHOLD'',
        \<lambda>v s. s\<lparr>thermal_reboot := (thermal_reboot s)\<lparr>critical := v\<rparr>\<rparr>),
     (''RFC_DATA_ThermalProtection_REBOOT_CONCERN_THRESHOLD'',
        \<lambda>v s. s\<lparr>thermal_reboot := (thermal_reboot s)\<lparr>concern := v\<rparr>\<rparr>),
     (''RFC_DATA_ThermalProtection_REBOOT_SAFE_THRESHOLD'',
        \<lambda>v s. s\<lparr>thermal_reboot := (thermal_reboot s)\<lparr>safe := v\<rparr>\<rparr>),
     (''RFC_DATA_ThermalProtection_REBOOT_GRACE_INTERVAL'',
        \<lambda>v s. s\<lparr>thermal_reboot := (thermal_reboot s)\<lparr>grace := v\<rparr>\<rparr>),
     (''RFC_DATA_ThermalProtection_DECLOCK_CRITICAL_THRESHOLD'',
        \<lambda>v s. s\<lparr>thermal_declock := (thermal_declock s)\<lparr>critical := v\<rparr>\<rparr>),
     (''RFC_DATA_ThermalProtection_DECLOCK_CONCERN_THRESHOLD'',
        \<lambda>v s. s\<lparr>thermal_declock := (thermal_declock s)\<lparr>concern := v\<rparr>\<rparr>),
     (''RFC_DATA_ThermalProtection_DECLOCK_SAFE_THRESHOLD'',
        \<lambda>v s. s\<lparr>thermal_declock := (thermal_declock s)\<lparr>safe := v\<rparr>\<rparr>),
     (''RFC_DATA_ThermalProtection_DECLOCK_GRACE_INTERVAL'',
        \<lambda>v s. s\<lparr>thermal_declock := (thermal_declock s)\<lparr>grace := v\<rparr>\<rparr>),
     (''RFC_DATA_ThermalProtection_DEEPSLEEP_CRITICAL_THRESHOLD'',
        \<lambda>v s. s\<lparr>thermal_deepsleep := (thermal_deepsleep s)\<lparr>critical := v\<rparr>\<rparr>),
     (''RFC_DATA_ThermalProtection_DEEPSLEEP_CONCERN_THRESHOLD'',
        \<lambda>v s. s\<lparr>thermal_deepsleep := (thermal_deepsleep s)\<lparr>concern := v\<rparr>\<rparr>),
     (''RFC_DATA_ThermalProtection_DEEPSLEEP_SAFE_THRESHOLD'',
        \<lambda>v s. s\<lparr>thermal_deepsleep := (thermal_deepsleep s)\<lparr>safe := v\<rparr>\<rparr>),
     (''RFC_DATA_ThermalProtection_DEEPSLEEP_GRACE_INTERVAL'',
        \<lambda>v s. s\<lparr>thermal_deepsleep := (thermal_deepsleep s)\<lparr>grace := v\<rparr>\<rparr>),
     (''RFC_DATA_ThermalProtection_POLL_INTERVAL'',
        \<lambda>v s. s\<lparr>thermal_poll_interval := v\<rparr>),
     (''RFC_DATA_ThermalProtection_PLAT_CPU_SPEED_NORMAL'',
        \<lambda>v s. s\<lparr>PLAT_CPU_SPEED_NORMAL := word_of_int v\<rparr>),
     (''RFC_DATA_ThermalProtection_PLAT_CPU_SPEED_SCALED'',
        \<lambda>v s. s\<lparr>PLAT_CPU_SPEED_SCALED := word_of_int v\<rparr>),
     (''RFC_DATA_ThermalProtection_PLAT_CPU_SPEED_MINIMAL'',
        \<lambda>v s. s\<lparr>PLAT_CPU_SPEED_MINIMAL := word_of_int v\<rparr>)]"

definition read_ConfigProps :: "rfc_store \<Rightarrow> therm_state \<Rightarrow> therm_state option" where
  "read_ConfigProps rfc s =
     foldl (\<lambda>so (key, setter). override rfc key setter so) (Some s) config_keys"

definition isThermalProtectionEnabled ::
  "rfc_store \<Rightarrow> therm_state \<Rightarrow> (therm_state \<times> bool) option" where
  "isThermalProtectionEnabled rfc s =
     (if \<not> read_config_param s
      then (let (s1, configured) = updateRFCStatus rfc s in
            case (if configured then read_ConfigProps rfc s1 else Some s1) of
              None \<Rightarrow> None
            | Some s2 \<Rightarrow> (let s3 = s2\<lparr>read_config_param := True\<rparr> in Some (s3, isFeatureEnabled s3)))
      else Some (s, isFeatureEnabled s))"

text \<open>The start of the component: the handlers, the clock speeds (only those still 0 are
  discovered; declocking is switched off when one remains 0), the platform thresholds and the
  polling thread.\<close>

definition discover_speeds ::
  "32 word option option \<Rightarrow> 32 word list option \<Rightarrow> therm_state \<Rightarrow> therm_state" where
  "discover_speeds cur_freq freqs s =
     (if grace (thermal_declock s) > 0
      then
        (let s1 = s\<lparr>cur_Cpu_Speed := snd (PLAT_API_GetClockSpeed cur_freq (cur_Cpu_Speed s))\<rparr>;
             s2 = (case PLAT_API_DetemineClockSpeeds freqs of
                     (_, None) \<Rightarrow> s1
                   | (_, Some (n, sc, m)) \<Rightarrow>
                       s1\<lparr>PLAT_CPU_SPEED_NORMAL :=
                             (if PLAT_CPU_SPEED_NORMAL s1 = 0 then n else PLAT_CPU_SPEED_NORMAL s1),
                          PLAT_CPU_SPEED_SCALED :=
                             (if PLAT_CPU_SPEED_SCALED s1 = 0 then sc else PLAT_CPU_SPEED_SCALED s1),
                          PLAT_CPU_SPEED_MINIMAL :=
                             (if PLAT_CPU_SPEED_MINIMAL s1 = 0 then m else PLAT_CPU_SPEED_MINIMAL s1)\<rparr>)
         in if PLAT_CPU_SPEED_NORMAL s2 = 0 \<or> PLAT_CPU_SPEED_SCALED s2 = 0 \<or> PLAT_CPU_SPEED_MINIMAL s2 = 0
            then s2\<lparr>thermal_declock := (thermal_declock s2)\<lparr>grace := 0\<rparr>\<rparr>
            else s2)
      else s)"

definition initializeThermalProtection ::
  "bool \<Rightarrow> rfc_store \<Rightarrow> 32 word option option \<Rightarrow> 32 word list option \<Rightarrow> therm_state \<Rightarrow>
   (therm_state \<times> therm_effect list) option" where
  "initializeThermalProtection no_declock rfc cur_freq freqs s =
     (case isThermalProtectionEnabled rfc s of
        None \<Rightarrow> None
      | Some (s1, enabled) \<Rightarrow>
          if enabled
          then (let s2 = (if no_declock then s1 else discover_speeds cur_freq freqs s1) in
                Some (s2,
                  map RegisterCall [''GetThermalState'', ''SetTemperatureThresholds'',
                    ''GetTemperatureThresholds'', ''SetOvertempGraceInterval'',
                    ''GetOvertempGraceInterval''] @
                  [SetTempThresholds (concern (thermal_declock s2)) (critical (thermal_declock s2)),
                   CreatePollThread]))
          else Some (s1, []))"

section \<open>The hysteresis zone\<close>

text \<open>What the reboot and the deep sleep monitor share: the zone is entered at the concern
  threshold, left below the safe threshold, and frozen above the critical one.\<close>

definition zone_next :: "thresholds \<Rightarrow> int \<Rightarrow> int \<Rightarrow> zone_mon \<Rightarrow> zone_mon" where
  "zone_next thr temp t0 m =
     (if temp \<ge> critical thr then m
      else if \<not> inZone m \<and> temp \<ge> concern thr then \<lparr>monitorTime = t0, inZone = True\<rparr>
      else if inZone m \<and> temp < safe thr then m\<lparr>inZone := False\<rparr>
      else m)"

locale zone_monitor =
  fixes step :: "thresholds \<Rightarrow> int \<Rightarrow> int \<Rightarrow> int \<Rightarrow> zone_mon \<Rightarrow> zone_mon \<times> 'e list"
    and urgent :: 'e
    and late :: 'e
  assumes disabled: "grace thr = 0 \<Longrightarrow> step thr temp t0 t1 m = (m, [])"
    and zone: "grace thr \<noteq> 0 \<Longrightarrow> fst (step thr temp t0 t1 m) = zone_next thr temp t0 m"
    and urgent_iff: "grace thr \<noteq> 0 \<Longrightarrow>
          urgent \<in> set (snd (step thr temp t0 t1 m)) \<longleftrightarrow> temp \<ge> critical thr"
    and late_iff: "grace thr \<noteq> 0 \<Longrightarrow>
          late \<in> set (snd (step thr temp t0 t1 m)) \<longleftrightarrow>
            inZone (zone_next thr temp t0 m) \<and>
            t1 - monitorTime (zone_next thr temp t0 m) \<ge> grace thr"
begin

abbreviation zrun :: "thresholds \<Rightarrow> (int \<times> int \<times> int) list \<Rightarrow> zone_mon \<Rightarrow> zone_mon \<times> 'e list" where
  "zrun thr \<equiv> run_trace (\<lambda>(temp, t0, t1). step thr temp t0 t1)"

lemma zone_since:
  assumes "grace thr \<noteq> 0" and "\<not> inZone m0" and "inZone (fst (zrun thr ps m0))"
  shows "\<exists>pre temp t0 t1 mid. ps = pre @ (temp, t0, t1) # mid \<and>
           concern thr \<le> temp \<and> temp < critical thr \<and>
           (\<forall>(r, _)\<in>set mid. min (safe thr) (critical thr) \<le> r) \<and>
           monitorTime (fst (zrun thr ps m0)) = t0"
  using assms(3)
proof (induction ps rule: rev_induct)
  case Nil
  with assms(2) show ?case by simp
next
  case (snoc p ps)
  obtain temp t0 t1 where p: "p = (temp, t0, t1)" by (cases p)
  let ?m = "fst (zrun thr ps m0)"
  have step: "fst (zrun thr (ps @ [p]) m0) = zone_next thr temp t0 ?m"
    by (simp add: p fst_run_trace_snoc zone assms(1))
  show ?case
  proof (cases "inZone ?m")
    case True
    with snoc.IH obtain pre temp' t0' t1' mid where IH: "ps = pre @ (temp', t0', t1') # mid"
      "concern thr \<le> temp'" "temp' < critical thr"
      "\<forall>(r, _)\<in>set mid. min (safe thr) (critical thr) \<le> r" "monitorTime ?m = t0'" by blast
    from snoc.prems True have "min (safe thr) (critical thr) \<le> temp" and
      eq: "monitorTime (zone_next thr temp t0 ?m) = monitorTime ?m"
      unfolding step by (auto simp: zone_next_def split: if_splits)
    with IH have "ps @ [p] = pre @ (temp', t0', t1') # (mid @ [p]) \<and>
        (\<forall>(r, _)\<in>set (mid @ [p]). min (safe thr) (critical thr) \<le> r)" by (auto simp: p)
    with IH eq show ?thesis unfolding step by metis
  next
    case False
    from snoc.prems False have "concern thr \<le> temp \<and> temp < critical thr \<and>
        monitorTime (zone_next thr temp t0 ?m) = t0"
      unfolding step by (auto simp: zone_next_def split: if_splits)
    moreover have "ps @ [p] = ps @ (temp, t0, t1) # []" by (simp add: p)
    ultimately show ?thesis unfolding step by (metis empty_iff empty_set)
  qed
qed

lemma late_after_grace:
  assumes "\<not> inZone m0" and "late \<in> set (snd (zrun thr ps m0))"
  shows "\<exists>pre seg post. ps = pre @ seg @ post \<and> seg \<noteq> [] \<and>
           concern thr \<le> fst (hd seg) \<and> fst (hd seg) < critical thr \<and>
           (\<forall>(r, _)\<in>set (tl seg). min (safe thr) (critical thr) \<le> r) \<and>
           grace thr \<le> snd (snd (last seg)) - fst (snd (hd seg))"
proof -
  from run_trace_effect_split [OF assms(2)] obtain xs p ys where
    ps: "ps = xs @ p # ys" and e: "late \<in> set (snd ((\<lambda>(temp, t0, t1). step thr temp t0 t1) p (fst (zrun thr xs m0))))"
    by blast
  obtain temp t0 t1 where p: "p = (temp, t0, t1)" by (cases p)
  let ?m = "fst (zrun thr xs m0)"
  have g: "grace thr \<noteq> 0" using e disabled by (auto simp: p)
  from e late_iff [OF g] have l: "inZone (zone_next thr temp t0 ?m)"
    "t1 - monitorTime (zone_next thr temp t0 ?m) \<ge> grace thr" by (auto simp: p)
  have last: "fst (zrun thr (xs @ [p]) m0) = zone_next thr temp t0 ?m"
    by (simp add: p fst_run_trace_snoc zone g)
  from zone_since [OF g assms(1), of "xs @ [p]"] l(1) last obtain pre a b c mid where
    s: "xs @ [p] = pre @ (a, b, c) # mid" "concern thr \<le> a" "a < critical thr"
       "\<forall>(r, _)\<in>set mid. min (safe thr) (critical thr) \<le> r"
       "monitorTime (zone_next thr temp t0 ?m) = b" by auto
  have "last ((a, b, c) # mid) = p" using s(1) by (metis last_appendR last_snoc list.distinct(1))
  moreover have "ps = pre @ ((a, b, c) # mid) @ ys" using ps s(1) by (metis append.assoc append_Cons append_Nil)
  ultimately show ?thesis using s l(2)
    by (intro exI [of _ pre] exI [of _ "(a, b, c) # mid"] exI [of _ ys]) (simp add: p)
qed

lemma stays_in_zone:
  assumes "grace thr \<noteq> 0" and "inZone m" and "\<forall>(r, _)\<in>set ps. safe thr \<le> r"
  shows "fst (zrun thr ps m) = m"
  using assms(3)
proof (induction ps)
  case (Cons p ps)
  obtain temp t0 t1 where p: "p = (temp, t0, t1)" by (cases p)
  have "fst (step thr temp t0 t1 m) = m"
    using assms(2) Cons.prems by (auto simp: zone assms(1) zone_next_def p)
  with Cons show ?case by (simp only: p fst_run_trace_Cons prod.case) simp
qed simp

lemma late_when_due:
  assumes "grace thr \<noteq> 0" and "\<not> inZone (fst (zrun thr pre m0))"
    and "concern thr \<le> temp" and "temp < critical thr"
    and "\<forall>(r, _)\<in>set (mid @ [(r', u0, u1)]). safe thr \<le> r"
    and "grace thr \<le> u1 - t0"
  shows "late \<in> set (snd (zrun thr (pre @ (temp, t0, t1) # mid @ [(r', u0, u1)]) m0))"
proof -
  let ?m = "\<lparr>monitorTime = t0, inZone = True\<rparr>"
  have "fst (zrun thr (pre @ (temp, t0, t1) # []) m0) = ?m"
    using assms by (simp only: fst_run_trace_snoc) (simp add: zone zone_next_def)
  then have m: "fst (zrun thr ((pre @ [(temp, t0, t1)]) @ mid) m0) = ?m"
    using stays_in_zone [OF assms(1), of ?m mid] assms(5)
    by (subst fst_run_trace_append) auto
  have "late \<in> set (snd (step thr r' u0 u1 ?m))"
    using assms by (subst late_iff) (auto simp: zone_next_def)
  with m show ?thesis
    by (intro run_trace_effect_in [where xs = "(pre @ [(temp, t0, t1)]) @ mid" and i = "(r', u0, u1)" and ys = "[]"])
       (simp_all only: prod.case, simp)
qed

end

text \<open>The monitors of the code satisfy the contract.\<close>

lemma fst_rebootIfNeeded:
  "grace thr \<noteq> 0 \<Longrightarrow> fst (rebootIfNeeded thr temp t0 t1 m) = zone_next thr temp t0 m"
  by (cases m) (simp add: rebootIfNeeded_def zone_next_def Let_def)

lemma fst_deepSleepIfNeeded:
  "grace thr \<noteq> 0 \<Longrightarrow> fst (deepSleepIfNeeded thr temp t0 t1 m) = zone_next thr temp t0 m"
  by (cases m) (simp add: deepSleepIfNeeded_def zone_next_def Let_def)

interpretation rb: zone_monitor rebootIfNeeded RebootCritical RebootStillHot
  by unfold_locales
    (simp_all add: fst_rebootIfNeeded, auto simp: rebootIfNeeded_def zone_next_def Let_def)

interpretation ds: zone_monitor deepSleepIfNeeded
    "AlertSystem ''Going to deepsleep due to temperature runaway''"
    "AlertSystem ''Going to deepsleep due to over temperature''"
  by unfold_locales
    (simp_all add: fst_deepSleepIfNeeded,
     auto simp: deepSleepIfNeeded_def zone_next_def logThermalShutdownReason_def Let_def)

text \<open>The readings of a list of polls, as inputs of the two monitors.\<close>

definition rb_inputs :: "poll_input list \<Rightarrow> (int \<times> int \<times> int) list" where
  "rb_inputs is = concat (map (\<lambda>i. case reading i of
       None \<Rightarrow> [] | Some (_, t, _) \<Rightarrow> [(t, rb_t0 i, rb_t1 i)]) is)"

definition ds_inputs :: "poll_input list \<Rightarrow> (int \<times> int \<times> int) list" where
  "ds_inputs is = concat (map (\<lambda>i. case reading i of
       None \<Rightarrow> [] | Some (_, t, _) \<Rightarrow> [(t, ds_t0 i, ds_t1 i)]) is)"

lemma declockIfNeeded_frame:
  assumes "declockIfNeeded nd now s = (s', es)"
  shows "thermal_reboot s' = thermal_reboot s" "thermal_deepsleep s' = thermal_deepsleep s"
    "thermal_declock s' = thermal_declock s" "reboot_mon s' = reboot_mon s"
    "deepsleep_mon s' = deepsleep_mon s" "\<forall>e\<in>set es. \<exists>v. e = SetClockSpeed v"
    "cur_Thermal_Value s' = cur_Thermal_Value s"
    "PLAT_CPU_SPEED_NORMAL s' = PLAT_CPU_SPEED_NORMAL s"
    "PLAT_CPU_SPEED_SCALED s' = PLAT_CPU_SPEED_SCALED s"
    "PLAT_CPU_SPEED_MINIMAL s' = PLAT_CPU_SPEED_MINIMAL s"
  using assms by (auto simp: declockIfNeeded_def Let_def split: if_splits)

lemma rebootIfNeeded_effects:
  "set (snd (rebootIfNeeded thr temp t0 t1 m)) \<subseteq> {RebootCritical, RebootStillHot}"
  by (auto simp: rebootIfNeeded_def Let_def)

lemma deepSleepIfNeeded_effects:
  "set (snd (deepSleepIfNeeded thr temp t0 t1 m)) \<subseteq>
     {LogShutdownReason ''THERMAL_SHUTDOWN'', SetPowerStateDeepSleep,
      AlertSystem ''Going to deepsleep due to temperature runaway'',
      AlertSystem ''Going to deepsleep due to over temperature''}"
  by (auto simp: deepSleepIfNeeded_def logThermalShutdownReason_def Let_def)

definition rb_step :: "therm_state \<Rightarrow> int \<times> int \<times> int \<Rightarrow> zone_mon \<Rightarrow> zone_mon \<times> therm_effect list" where
  "rb_step s = (\<lambda>(temp, t0, t1). rebootIfNeeded (thermal_reboot s) temp t0 t1)"

definition ds_step :: "therm_state \<Rightarrow> int \<times> int \<times> int \<Rightarrow> zone_mon \<Rightarrow> zone_mon \<times> therm_effect list" where
  "ds_step s = (\<lambda>(temp, t0, t1). deepSleepIfNeeded (thermal_deepsleep s) temp t0 t1)"

fun is_report :: "therm_effect \<Rightarrow> bool" where
  "is_report (ThermalModeChanged _ _ _) = True"
| "is_report (LogCpuMode _) = True"
| "is_report (LogTemperature _) = True"
| "is_report (SetClockSpeed _) = True"
| "is_report _ = False"

lemma poll_turn_shape:
  assumes "poll_turn nd li fi i c s = Some (s', es)" and "reading i = Some (l, t, w)"
  shows "\<exists>pre post. es = pre @ snd (ds_step s (t, ds_t0 i, ds_t1 i) (deepsleep_mon s)) @
             snd (rb_step s (t, rb_t0 i, rb_t1 i) (reboot_mon s)) @ post \<and>
           (\<forall>e\<in>set (pre @ post). is_report e)"
    and "reboot_mon s' = fst (rb_step s (t, rb_t0 i, rb_t1 i) (reboot_mon s))"
    and "deepsleep_mon s' = fst (ds_step s (t, ds_t0 i, ds_t1 i) (deepsleep_mon s))"
    and "thermal_reboot s' = thermal_reboot s" and "thermal_deepsleep s' = thermal_deepsleep s"
    and "thermal_declock s' = thermal_declock s" and "cur_Thermal_Level s' = l"
    and "cur_Thermal_Value s' = t"
proof -
  let ?es0 = "if cur_Thermal_Level s \<noteq> l then [ThermalModeChanged (cur_Thermal_Level s) l t] else []"
  let ?s0 = "if cur_Thermal_Level s \<noteq> l then s\<lparr>cur_Thermal_Level := l\<rparr> else s"
  let ?es1 = "if c mod fi = 0 then [LogCpuMode (cpu_mode_name ?s0)] else []"
  let ?es2 = "if c mod li = 0 then [LogTemperature t] else []"
  let ?d = "ds_step s (t, ds_t0 i, ds_t1 i) (deepsleep_mon s)"
  let ?r = "rb_step s (t, rb_t0 i, rb_t1 i) (reboot_mon s)"
  let ?s3 = "?s0\<lparr>cur_Thermal_Value := t, deepsleep_mon := fst ?d, reboot_mon := fst ?r\<rparr>"
  obtain s4 es5 where dc: "declockIfNeeded nd (dc_t i) ?s3 = (s4, es5)" by fastforce
  have eq: "s' = s4 \<and> es = (?es0 @ ?es1 @ ?es2) @ snd ?d @ snd ?r @ es5"
    using assms dc
    by (simp add: poll_turn_def PLAT_API_GetTemperature_def Let_def rb_step_def ds_step_def
          case_prod_beta split: if_split_asm)
  have rep: "\<forall>e\<in>set ((?es0 @ ?es1 @ ?es2) @ es5). is_report e"
    using declockIfNeeded_frame(6) [OF dc] by (auto split: if_splits)
  show "\<exists>pre post. es = pre @ snd ?d @ snd ?r @ post \<and> (\<forall>e\<in>set (pre @ post). is_report e)"
    using eq rep by blast
  show "reboot_mon s' = fst ?r" "deepsleep_mon s' = fst ?d" "thermal_reboot s' = thermal_reboot s"
    "thermal_deepsleep s' = thermal_deepsleep s" "thermal_declock s' = thermal_declock s"
    "cur_Thermal_Value s' = t"
    using eq declockIfNeeded_frame [OF dc] by simp_all
  show "cur_Thermal_Level s' = l"
    using eq dc by (auto simp: declockIfNeeded_def Let_def split: if_splits)
qed

lemma poll_turn_no_reading:
  "reading i = None \<Longrightarrow> poll_turn nd li fi i c s = Some (s, [])"
  by (simp add: poll_turn_def PLAT_API_GetTemperature_def)

text \<open>Over a run of the polling thread the two zones are driven by the readings alone.\<close>

lemma poll_loop_zones:
  assumes "poll_loop nd li fi is c s = Some (s', es)"
  shows "set es \<subseteq> set (snd (run_trace (rb_step s) (rb_inputs is) (reboot_mon s))) \<union>
            set (snd (run_trace (ds_step s) (ds_inputs is) (deepsleep_mon s))) \<union> {e. is_report e}"
    and "set (snd (run_trace (rb_step s) (rb_inputs is) (reboot_mon s))) \<subseteq> set es"
    and "set (snd (run_trace (ds_step s) (ds_inputs is) (deepsleep_mon s))) \<subseteq> set es"
proof -
  have "set es \<subseteq> set (snd (run_trace (rb_step s) (rb_inputs is) (reboot_mon s))) \<union>
            set (snd (run_trace (ds_step s) (ds_inputs is) (deepsleep_mon s))) \<union> {e. is_report e} \<and>
        set (snd (run_trace (rb_step s) (rb_inputs is) (reboot_mon s))) \<subseteq> set es \<and>
        set (snd (run_trace (ds_step s) (ds_inputs is) (deepsleep_mon s))) \<subseteq> set es"
    using assms
  proof (induction "is" arbitrary: c s es)
    case (Cons i "is")
    from Cons.prems obtain s1 es1 es2 where t: "poll_turn nd li fi i c s = Some (s1, es1)"
      and l: "poll_loop nd li fi is (c + 1) s1 = Some (s', es2)" and es: "es = es1 @ es2"
      by (auto split: option.splits)
    show ?case
    proof (cases "reading i")
      case None
      with t have "s1 = s" "es1 = []" by (auto simp: poll_turn_no_reading)
      with Cons.IH [OF l] None es show ?thesis by (simp add: rb_inputs_def ds_inputs_def)
    next
      case (Some r)
      obtain lv tmp w where r: "r = (lv, tmp, w)" by (cases r)
      note sh = poll_turn_shape [OF t Some [unfolded r]]
      have "rb_inputs (i # is) = (tmp, rb_t0 i, rb_t1 i) # rb_inputs is"
        "ds_inputs (i # is) = (tmp, ds_t0 i, ds_t1 i) # ds_inputs is"
        by (simp_all add: rb_inputs_def ds_inputs_def Some r)
      moreover have "rb_step s1 = rb_step s" "ds_step s1 = ds_step s"
        using sh(4,5) by (simp_all add: rb_step_def ds_step_def)
      ultimately show ?thesis
        using Cons.IH [OF l] sh(1-3) es
        by (auto simp: snd_run_trace_Cons simp del: run_trace.simps)
    qed
  qed (simp add: rb_inputs_def ds_inputs_def)
  then show "set es \<subseteq> set (snd (run_trace (rb_step s) (rb_inputs is) (reboot_mon s))) \<union>
            set (snd (run_trace (ds_step s) (ds_inputs is) (deepsleep_mon s))) \<union> {e. is_report e}"
    "set (snd (run_trace (rb_step s) (rb_inputs is) (reboot_mon s))) \<subseteq> set es"
    "set (snd (run_trace (ds_step s) (ds_inputs is) (deepsleep_mon s))) \<subseteq> set es" by simp_all
qed

section \<open>Clock speeds\<close>

lemma qsort_sort: "qsort uint32_compare xs = sort xs"
proof -
  have ins: "qsort_insert uint32_compare x ys = insort x ys" for x ys
    by (induction ys) (auto simp: uint32_compare_def)
  show ?thesis
    by (induction xs) (simp_all add: qsort_def ins)
qed

text \<open>The declocking monitor alone, driven by (temperature, time) pairs.\<close>

definition declock_step :: "int \<times> int \<Rightarrow> therm_state \<Rightarrow> therm_state \<times> therm_effect list" where
  "declock_step = (\<lambda>(temp, now) s. declockIfNeeded False now (s\<lparr>cur_Thermal_Value := temp\<rparr>))"

lemma declock_step_frame:
  "thermal_declock (fst (declock_step p s)) = thermal_declock s"
  "PLAT_CPU_SPEED_NORMAL (fst (declock_step p s)) = PLAT_CPU_SPEED_NORMAL s"
  "PLAT_CPU_SPEED_SCALED (fst (declock_step p s)) = PLAT_CPU_SPEED_SCALED s"
  "PLAT_CPU_SPEED_MINIMAL (fst (declock_step p s)) = PLAT_CPU_SPEED_MINIMAL s"
proof -
  obtain temp now where p: "p = (temp, now)" by (cases p)
  obtain s' es where d: "declock_step p s = (s', es)" by fastforce
  then have "declockIfNeeded False now (s\<lparr>cur_Thermal_Value := temp\<rparr>) = (s', es)"
    by (simp add: declock_step_def p)
  note f = declockIfNeeded_frame [OF this]
  from f d show "thermal_declock (fst (declock_step p s)) = thermal_declock s"
  "PLAT_CPU_SPEED_NORMAL (fst (declock_step p s)) = PLAT_CPU_SPEED_NORMAL s"
  "PLAT_CPU_SPEED_SCALED (fst (declock_step p s)) = PLAT_CPU_SPEED_SCALED s"
  "PLAT_CPU_SPEED_MINIMAL (fst (declock_step p s)) = PLAT_CPU_SPEED_MINIMAL s"
    by simp_all
qed

lemma declock_run_frame:
  "thermal_declock (fst (run_trace declock_step ps s)) = thermal_declock s \<and>
   PLAT_CPU_SPEED_NORMAL (fst (run_trace declock_step ps s)) = PLAT_CPU_SPEED_NORMAL s \<and>
   PLAT_CPU_SPEED_SCALED (fst (run_trace declock_step ps s)) = PLAT_CPU_SPEED_SCALED s \<and>
   PLAT_CPU_SPEED_MINIMAL (fst (run_trace declock_step ps s)) = PLAT_CPU_SPEED_MINIMAL s"
  by (rule run_trace_invariant) (simp_all add: declock_step_frame)

lemma declock_step_time:
  "declock_time (fst (declock_step (temp, now) s)) \<in> {declock_time s, now}"
  "grace (thermal_declock s) \<noteq> 0 \<Longrightarrow> concern (thermal_declock s) \<le> temp \<Longrightarrow>
     declock_time (fst (declock_step (temp, now) s)) = now"
  by (simp_all add: declock_step_def declockIfNeeded_def Let_def)

lemma declock_time_after_hot:
  assumes "grace (thermal_declock s) \<noteq> 0"
    and "sorted (map snd ps)"
  shows "\<forall>(h, t)\<in>set ps. concern (thermal_declock s) \<le> h \<longrightarrow>
           t \<le> declock_time (fst (run_trace declock_step ps s))"
  using assms(2)
proof (induction ps rule: rev_induct)
  case (snoc p ps)
  obtain temp now where p: "p = (temp, now)" by (cases p)
  let ?s = "fst (run_trace declock_step ps s)"
  have fr: "thermal_declock ?s = thermal_declock s" using declock_run_frame by blast
  have time: "declock_time (fst (declock_step p ?s)) = declock_time ?s \<or>
              declock_time (fst (declock_step p ?s)) = now"
    using declock_step_time(1) [of temp now ?s] unfolding p by blast
  have hot: "concern (thermal_declock s) \<le> temp \<longrightarrow> declock_time (fst (declock_step p ?s)) = now"
    using declock_step_time(2) [of ?s temp now] assms(1) unfolding p fr by blast
  have "\<forall>(h, t)\<in>set ps. t \<le> now" using snoc.prems by (auto simp: p sorted_append)
  moreover have "\<forall>(h, t)\<in>set ps. concern (thermal_declock s) \<le> h \<longrightarrow> t \<le> declock_time ?s"
    using snoc by (simp add: sorted_append)
  ultimately show ?case using time hot
    by (auto simp: fst_run_trace_snoc p)
qed simp

section \<open>Properties\<close>

text \<open>C7. The thermal monitor reboots the box for a lasting high temperature only after the
  grace interval: whenever a run of the polling thread that starts outside the reboot zone
  issues the delayed reboot, the readings contain a window that begins with a reading at or
  above the concern threshold, in which no later reading falls below the safe threshold, and
  whose last clock reading is at least the grace interval after the first.\<close>
theorem reboot_only_after_grace:
  assumes "poll_loop nd li fi is c s = Some (s', es)"
    and "\<not> inZone (reboot_mon s)" and "safe (thermal_reboot s) \<le> critical (thermal_reboot s)"
    and "RebootStillHot \<in> set es"
  shows "\<exists>pre window post. rb_inputs is = pre @ window @ post \<and> window \<noteq> [] \<and>
           concern (thermal_reboot s) \<le> fst (hd window) \<and>
           (\<forall>(temp, _)\<in>set (tl window). safe (thermal_reboot s) \<le> temp) \<and>
           grace (thermal_reboot s) \<le> snd (snd (last window)) - fst (snd (hd window))"
proof -
  have "RebootStillHot \<in> set (snd (run_trace (rb_step s) (rb_inputs is) (reboot_mon s)))"
  proof -
    have "RebootStillHot \<notin> set (snd (run_trace (ds_step s) js m))" for js m
      using run_trace_effect_split [of RebootStillHot "ds_step s" js m]
        deepSleepIfNeeded_effects by (fastforce simp: ds_step_def)
    then show ?thesis using poll_loop_zones(1) [OF assms(1)] assms(4) by auto
  qed
  from rb.late_after_grace [OF assms(2) this [unfolded rb_step_def]] show ?thesis
    using assms(3) by (auto simp: min_absorb1)
qed

theorem reboot_only_after_grace_witness:
  "\<exists>pre window post. rb_inputs
      [\<lparr>reading = Some (TEMPERATURE_HIGH, 113, 60), ds_t0 = 0, ds_t1 = 0, rb_t0 = 0, rb_t1 = 0, dc_t = 0\<rparr>,
       \<lparr>reading = Some (TEMPERATURE_HIGH, 111, 60), ds_t0 = 0, ds_t1 = 0, rb_t0 = 600, rb_t1 = 600, dc_t = 600\<rparr>]
      = pre @ window @ post \<and> window \<noteq> [] \<and>
     concern (thermal_reboot therm_init) \<le> fst (hd window) \<and>
     grace (thermal_reboot therm_init) \<le> snd (snd (last window)) - fst (snd (hd window))"
proof -
  let ?is = "[\<lparr>reading = Some (TEMPERATURE_HIGH, 113, 60), ds_t0 = 0, ds_t1 = 0, rb_t0 = 0, rb_t1 = 0, dc_t = 0\<rparr>,
       \<lparr>reading = Some (TEMPERATURE_HIGH, 111, 60), ds_t0 = 0, ds_t1 = 0, rb_t0 = 600, rb_t1 = 600, dc_t = 600\<rparr>]"
  have "poll_loop True 10 30 ?is 0 therm_init \<noteq> None \<and>
        RebootStillHot \<in> set (snd (the (poll_loop True 10 30 ?is 0 therm_init)))"
    by (simp add: poll_turn_def PLAT_API_GetTemperature_def therm_init_def deepSleepIfNeeded_def
          rebootIfNeeded_def declockIfNeeded_def Let_def)
  then obtain s' es where "poll_loop True 10 30 ?is 0 therm_init = Some (s', es)" "RebootStillHot \<in> set es"
    by auto
  moreover have "\<not> inZone (reboot_mon therm_init)"
    "safe (thermal_reboot therm_init) \<le> critical (thermal_reboot therm_init)"
    by (simp_all add: therm_init_def)
  ultimately show ?thesis using reboot_only_after_grace [of True 10 30 ?is 0 therm_init s' es] by blast
qed

text \<open>A box that stays hot is put into deep sleep: when a run of the polling thread that
  starts outside the deep sleep zone sees a reading in [concern, critical), no later reading up
  to the last falls below the safe threshold, and the last poll comes at least the (non-zero)
  grace interval after the first, the thread issues the over-temperature alert and the command
  that sets the power state to deep sleep.\<close>
lemma deepsleep_when_due:
  assumes "poll_loop nd li fi is c s = Some (s', es)"
    and "grace (thermal_deepsleep s) \<noteq> 0"
    and "ds_inputs is = (temp, t0, t1) # mid @ [(temp', u0, u1)]"
    and "\<not> inZone (deepsleep_mon s)"
    and "concern (thermal_deepsleep s) \<le> temp" and "temp < critical (thermal_deepsleep s)"
    and "\<forall>(r, _)\<in>set mid. safe (thermal_deepsleep s) \<le> r" and "safe (thermal_deepsleep s) \<le> temp'"
    and "grace (thermal_deepsleep s) \<le> u1 - t0"
  shows "AlertSystem ''Going to deepsleep due to over temperature'' \<in> set es \<and>
         SetPowerStateDeepSleep \<in> set es"
proof -
  have a: "AlertSystem ''Going to deepsleep due to over temperature'' \<in>
        set (snd (run_trace (ds_step s) (ds_inputs is) (deepsleep_mon s)))"
    using ds.late_when_due [of "thermal_deepsleep s" "[]" "deepsleep_mon s" temp mid temp' u0 u1 t0 t1]
      assms(2,4-9) unfolding assms(3) ds_step_def by simp
  from run_trace_effect_split [OF a] obtain xs i ys where x: "ds_inputs is = xs @ i # ys"
    and e: "AlertSystem ''Going to deepsleep due to over temperature'' \<in>
            set (snd (ds_step s i (fst (run_trace (ds_step s) xs (deepsleep_mon s)))))" by blast
  have "SetPowerStateDeepSleep \<in> set (snd (ds_step s i m))"
    if "AlertSystem ''Going to deepsleep due to over temperature'' \<in> set (snd (ds_step s i m))" for m
    using that by (cases i) (auto simp: ds_step_def deepSleepIfNeeded_def Let_def split: if_splits)
  from run_trace_effect_in [of _ _ _ _ _ "ds_step s", OF x this [OF e]] a
  show ?thesis using poll_loop_zones(3) [OF assms(1)] by blast
qed

text \<open>The frequencies chosen for declocking come from the (at most 32) frequencies read from
  the kernel and are ordered: the minimal one is a lower bound of all, the normal one an upper
  bound, the scaled one lies between them; the call succeeds whenever one frequency is read.\<close>
lemma clock_speeds_ordered:
  assumes "ns \<noteq> []"
  shows "\<exists>n sc m. PLAT_API_DetemineClockSpeeds (Some ns) = (1, Some (n, sc, m)) \<and>
           m \<le> sc \<and> sc \<le> n \<and> {n, sc, m} \<subseteq> set (take 32 ns) \<and>
           (\<forall>f\<in>set (take 32 ns). m \<le> f \<and> f \<le> n)"
proof -
  define fs where "fs = sort (take 32 ns)"
  have len: "length fs = length (take 32 ns)" "0 < length fs" using assms by (auto simp: fs_def)
  have srt: "sorted fs" by (simp add: fs_def)
  have st: "set fs = set (take 32 ns)" by (simp add: fs_def)
  have eq: "PLAT_API_DetemineClockSpeeds (Some ns) =
      (1, Some (fs ! (length fs - 1), fs ! (length fs div 2), fs ! 0))"
    using assms len by (simp add: PLAT_API_DetemineClockSpeeds_def Let_def qsort_sort fs_def)
  have mono: "i \<le> j \<Longrightarrow> j < length fs \<Longrightarrow> fs ! i \<le> fs ! j" for i j
    using srt by (rule sorted_nth_mono)
  have "\<forall>f\<in>set fs. fs ! 0 \<le> f \<and> f \<le> fs ! (length fs - 1)"
    using mono by (auto simp: in_set_conv_nth)
  moreover have "fs ! 0 \<le> fs ! (length fs div 2)" "fs ! (length fs div 2) \<le> fs ! (length fs - 1)"
    using len(2) by (auto intro!: mono)
  moreover have "{fs ! (length fs - 1), fs ! (length fs div 2), fs ! 0} \<subseteq> set fs"
    using len(2) by auto
  ultimately show ?thesis unfolding eq st [symmetric] by blast
qed

text \<open>After declocking, the processor returns to the normal frequency only when it is cool
  and has been so for the grace interval: with three distinct frequencies and a clock that does
  not go back, when a poll of the declocking monitor requests the normal frequency, its reading
  is at most the safe threshold and every earlier reading of the run at or above the concern
  threshold is at least the grace interval old.\<close>
lemma normal_speed_only_after_grace:
  assumes "PLAT_CPU_SPEED_NORMAL s \<noteq> PLAT_CPU_SPEED_SCALED s"
    and "PLAT_CPU_SPEED_NORMAL s \<noteq> PLAT_CPU_SPEED_MINIMAL s"
    and "sorted (map snd (ps @ [(temp, now)]))"
    and "SetClockSpeed (PLAT_CPU_SPEED_NORMAL s) \<in>
           set (snd (declock_step (temp, now) (fst (run_trace declock_step ps s))))"
  shows "temp \<le> safe (thermal_declock s) \<and>
         (\<forall>(h, t)\<in>set ps. concern (thermal_declock s) \<le> h \<longrightarrow> grace (thermal_declock s) \<le> now - t)"
proof -
  let ?s = "fst (run_trace declock_step ps s)"
  have fr: "thermal_declock ?s = thermal_declock s" "PLAT_CPU_SPEED_NORMAL ?s = PLAT_CPU_SPEED_NORMAL s"
    "PLAT_CPU_SPEED_SCALED ?s = PLAT_CPU_SPEED_SCALED s"
    "PLAT_CPU_SPEED_MINIMAL ?s = PLAT_CPU_SPEED_MINIMAL s" using declock_run_frame by blast+
  have one: "grace (thermal_declock u) \<noteq> 0 \<and> temp \<le> safe (thermal_declock u) \<and>
        grace (thermal_declock u) \<le> now - declock_time u"
    if "PLAT_CPU_SPEED_NORMAL u \<noteq> PLAT_CPU_SPEED_SCALED u"
      "PLAT_CPU_SPEED_NORMAL u \<noteq> PLAT_CPU_SPEED_MINIMAL u"
      "SetClockSpeed (PLAT_CPU_SPEED_NORMAL u) \<in> set (snd (declock_step (temp, now) u))" for u
    using that by (auto simp: declock_step_def declockIfNeeded_def Let_def split: if_splits)
  have o: "grace (thermal_declock s) \<noteq> 0" "temp \<le> safe (thermal_declock s)"
    "grace (thermal_declock s) \<le> now - declock_time ?s"
    using one [of ?s] assms unfolding fr by simp_all
  have "sorted (map snd ps)" using assms(3) by (simp add: sorted_append)
  from declock_time_after_hot [OF o(1) this] o show ?thesis by fastforce
qed

lemma sdiv_zero_iff: "0 < n \<Longrightarrow> p \<noteq> 0 \<Longrightarrow> (n sdiv p = 0) = (n < \<bar>p\<bar>)" for n p :: int
  by (auto simp: signed_divide_int_def sgn_if zdiv_eq_0_iff)

lemma div_le_self: "0 \<le> n \<Longrightarrow> 0 < d \<Longrightarrow> n div d \<le> n" for n d :: int
  by (rule order_trans [OF zdiv_mono2 [of n 1 d]]) auto

lemma sdiv_bound: "0 < n \<Longrightarrow> p \<noteq> 0 \<Longrightarrow> \<bar>n sdiv p\<bar> \<le> n" for n p :: int
  using div_le_self [of n "\<bar>p\<bar>"] pos_imp_zdiv_nonneg_iff [of "\<bar>p\<bar>" n]
  by (auto simp: signed_divide_int_def sgn_if abs_mult split: if_splits)

lemma word_of_int_small_zero:
  "\<bar>k\<bar> < 2 ^ 31 \<Longrightarrow> (word_of_int k :: 32 word) = 0 \<longleftrightarrow> k = 0" for k :: int
  by (auto simp: word_of_int_eq_0_iff)

lemma log_interval_word:
  assumes "log_interval period p = Some w" and "0 < period" and "period < 1000"
  shows "w = 0 \<longleftrightarrow> period < \<bar>p\<bar>" and "p \<noteq> 0"
proof -
  from assms have p: "p \<noteq> 0" "w = word_of_int (period sdiv p)"
    by (auto simp: log_interval_def split: if_splits)
  then show "w = 0 \<longleftrightarrow> period < \<bar>p\<bar>" "p \<noteq> 0"
    using sdiv_bound [OF assms(2) p(1)] sdiv_zero_iff [OF assms(2) p(1)] assms(3)
      word_of_int_small_zero [of "period sdiv p"] by auto
qed

lemma poll_turn_None_iff:
  "poll_turn nd li fi i c s = None \<longleftrightarrow> reading i \<noteq> None \<and> (li = 0 \<or> fi = 0)"
  by (auto simp: poll_turn_def PLAT_API_GetTemperature_def Let_def case_prod_beta split: option.splits)

lemma poll_loop_None_iff:
  "poll_loop nd li fi is c s = None \<longleftrightarrow> (\<exists>i\<in>set is. reading i \<noteq> None) \<and> (li = 0 \<or> fi = 0)"
proof (induction "is" arbitrary: c s)
  case (Cons i "is")
  show ?case
  proof (cases "poll_turn nd li fi i c s")
    case None
    then have "reading i \<noteq> None \<and> (li = 0 \<or> fi = 0)"
      using poll_turn_None_iff by blast
    with None show ?thesis by simp
  next
    case (Some r)
    then have "reading i = None \<or> (li \<noteq> 0 \<and> fi \<noteq> 0)"
      using poll_turn_None_iff [of nd li fi i c s] by auto
    with Some Cons.IH [of "c + 1" "fst r"] show ?thesis
      by (cases r) (auto simp del: not_None_eq split: option.split)
  qed
qed simp

text \<open>C38. The polling thread survives exactly the poll intervals that its log arithmetic can
  divide by: once the platform delivers a temperature, the thread runs (it is not killed by a
  division by zero in 300/interval or pollCount % interval) if and only if the configured
  interval is between 1 and 300 seconds in absolute value.  The interval comes unchecked from
  RFC\_DATA\_ThermalProtection\_POLL\_INTERVAL.\<close>
theorem poll_thread_survives_iff:
  assumes "\<exists>i\<in>set is. reading i \<noteq> None"
  shows "PollThermalLevels nd is s \<noteq> None \<longleftrightarrow>
           thermal_poll_interval s \<noteq> 0 \<and> \<bar>thermal_poll_interval s\<bar> \<le> 300"
proof (cases "thermal_poll_interval s = 0")
  case True
  then show ?thesis by (simp add: PollThermalLevels_def log_interval_def)
next
  case False
  then obtain li fi where l: "log_interval 300 (thermal_poll_interval s) = Some li"
    and f: "log_interval 900 (thermal_poll_interval s) = Some fi" by (simp add: log_interval_def)
  have "PollThermalLevels nd is s = poll_loop nd li fi is 0 s"
    by (simp add: PollThermalLevels_def l f)
  then show ?thesis
    using False assms log_interval_word(1) [OF l] log_interval_word(1) [OF f]
    by (auto simp del: not_None_eq simp: poll_loop_None_iff)
qed

theorem poll_thread_survives_iff_witness:
  "PollThermalLevels True
     [\<lparr>reading = Some (TEMPERATURE_NORMAL, 50, 50), ds_t0 = 0, ds_t1 = 0, rb_t0 = 0, rb_t1 = 0, dc_t = 0\<rparr>]
     (therm_init\<lparr>thermal_poll_interval := 600\<rparr>) = None"
  using poll_thread_survives_iff [of
     "[\<lparr>reading = Some (TEMPERATURE_NORMAL, 50, 50), ds_t0 = 0, ds_t1 = 0, rb_t0 = 0, rb_t1 = 0, dc_t = 0\<rparr>]"
     True "therm_init\<lparr>thermal_poll_interval := 600\<rparr>"]
  by (simp del: not_None_eq)

text \<open>Reading an RFC property: a property in quotes of at most 15 characters is delivered
  without them, an unquoted one is cut to 15 characters, what is delivered always fits the
  16 byte buffer with its terminator and is not empty, and the only value whose copy runs out
  of the buffer (a copy of -1 characters) is a lone quote.\<close>
lemma read_ConfigProperty_spec:
  shows "(\<forall>v. read_ConfigProperty rfc key = Some (Some v) \<longrightarrow> 0 < length v \<and> length v < MAX_THERMAL_RFC) \<and>
    (\<forall>w. rfc key = Some (CHR 0x22 # w @ [CHR 0x22]) \<and> w \<noteq> [] \<and> length w \<le> 13 \<longrightarrow>
         read_ConfigProperty rfc key = Some (Some w)) \<and>
    (\<forall>u. rfc key = Some u \<and> u \<noteq> [] \<and> hd u \<noteq> CHR 0x22 \<longrightarrow>
         read_ConfigProperty rfc key = Some (Some (take 15 u))) \<and>
    (read_ConfigProperty rfc key = None \<longleftrightarrow> rfc key = Some [CHR 0x22])"
proof (intro conjI allI impI)
  show "0 < length v" "length v < MAX_THERMAL_RFC" if "read_ConfigProperty rfc key = Some (Some v)" for v
    using that
    by (auto simp: read_ConfigProperty_def MAX_THERMAL_RFC_def Let_def split: option.splits if_splits)
  show "read_ConfigProperty rfc key = Some (Some w)"
    if "rfc key = Some (CHR 0x22 # w @ [CHR 0x22]) \<and> w \<noteq> [] \<and> length w \<le> 13" for w
    using that by (auto simp: read_ConfigProperty_def MAX_THERMAL_RFC_def Let_def nth_append)
  show "read_ConfigProperty rfc key = Some (Some (take 15 u))"
    if "rfc key = Some u \<and> u \<noteq> [] \<and> hd u \<noteq> CHR 0x22" for u
    using that by (cases u) (auto simp: read_ConfigProperty_def MAX_THERMAL_RFC_def Let_def)
  show "read_ConfigProperty rfc key = None \<longleftrightarrow> rfc key = Some [CHR 0x22]"
    by (auto simp: read_ConfigProperty_def MAX_THERMAL_RFC_def Let_def length_Suc_conv
        split: option.splits if_splits)
qed

text \<open>Switching the monitors off and on again forgets nothing: if the reboot zone was entered
  at some time, then after the grace interval is set to 0 (any polls may follow, however cool)
  and back to a positive value through the RPC, the first reading that is not below the safe
  threshold reboots the box as soon as the new interval has passed since the old entry time,
  although no reading since has been of concern.\<close>
lemma reenabled_monitor_keeps_old_zone:
  assumes "inZone (reboot_mon s)" and "g > 0"
    and "SetOvertempGraceInterval (Some 0) s = (s1, r1)"
    and "poll_loop nd li fi is c s1 = Some (s2, es)"
    and "SetOvertempGraceInterval (Some g) s2 = (s3, r2)"
    and "poll_turn nd li fi i c' s3 = Some (s4, es')"
    and "reading i = Some (l, t, w)" and "safe (thermal_reboot s) \<le> t"
    and "g \<le> rb_t1 i - monitorTime (reboot_mon s)"
  shows "RebootStillHot \<in> set es'"
proof -
  have s1: "grace (thermal_reboot s1) = 0" "reboot_mon s1 = reboot_mon s"
    "safe (thermal_reboot s1) = safe (thermal_reboot s)"
    using assms(3) by (auto simp: SetOvertempGraceInterval_def)
  have "reboot_mon s2 = reboot_mon s1 \<and> thermal_reboot s2 = thermal_reboot s1"
    using assms(4) s1(1)
  proof (induction "is" arbitrary: c s1 es)
    case (Cons j "is")
    from Cons.prems obtain u e1 e2 where t: "poll_turn nd li fi j c s1 = Some (u, e1)"
      and l: "poll_loop nd li fi is (c + 1) u = Some (s2, e2)" by (auto split: option.splits)
    have "reboot_mon u = reboot_mon s1 \<and> thermal_reboot u = thermal_reboot s1"
    proof (cases "reading j")
      case None
      with t show ?thesis by (auto simp: poll_turn_no_reading)
    next
      case (Some r)
      obtain lv tmp w where r: "r = (lv, tmp, w)" by (cases r)
      from poll_turn_shape(2,4) [OF t Some [unfolded r]] Cons.prems(2) show ?thesis
        by (simp add: rb_step_def rb.disabled)
    qed
    with Cons.IH [OF l] Cons.prems(2) show ?case by simp
  qed simp
  then have s3: "reboot_mon s3 = reboot_mon s" "grace (thermal_reboot s3) = g"
    "safe (thermal_reboot s3) = safe (thermal_reboot s)"
    using assms(2,5) s1 by (auto simp: SetOvertempGraceInterval_def)
  have "RebootStillHot \<in> set (snd (rb_step s3 (t, rb_t0 i, rb_t1 i) (reboot_mon s3)))"
    using assms s3 by (auto simp: rb_step_def rb.late_iff zone_next_def)
  with poll_turn_shape(1) [OF assms(6,7)] show ?thesis by auto
qed

end
