(* ===== verification/Ir_Mgr.thy ===== *)
theory Ir_Mgr
  imports Iarm_Prelude
begin

text \<open>
  The remote control manager: ir/irMgr.c (the key handler and its broadcasts, the LAST key
  timer, the key repeat thread, the translation of control manager and RF events), ir/uinput.c
  (the keyboard that the keys are injected into, ir/IrInputRemoteKeyCodes.h its table) and
  iarmmgrutil/iarmcec.c (HDMI-CEC messages).  The effects are the events put on the bus and the
  calls of the uinput dispatcher, in order.  XMP tags and owners travel as a pair (the pair of
  undefined values in builds without XMP\_TAG\_OWNER\_SUPPORT).  The RF4CE auto-bind request of
  builds with one of the old RF4CE interfaces, mutexes and log lines are not modelled.
\<close>

section \<open>State\<close>

datatype key_src = KEYSRC_FP | KEYSRC_IR | KEYSRC_RF

type_synonym xmp_meta = "int \<times> int"

record irkey =
  ev_keyType :: int
  ev_keyCode :: int
  ev_meta :: xmp_meta
  ev_isFP :: bool
  ev_keySrc :: key_src
  ev_keySourceId :: nat

record ir_cfg =
  USE_UNIFIED_CONTROL_MGR_API_1 :: bool
  DISABLE_KEY_POWEROFF :: bool

record ir_state =
  gCurrentKeyCode :: int
  gCurrentKeySrcId :: nat
  gRepeatKeyInterval :: nat
  numKeyRepeats :: int
  keyLogStatus :: int
  bLastKeyUpReceived :: bool
  bLastTimerRunning :: bool
  bIgnoreLastKeyup :: bool
  LASTkeySrc :: key_src
  isCecLocalLogicEnabled :: bool
  bNeedRFKeyUp :: bool
  udispatcher_set :: bool
  prevEventData :: irkey
  xr15_or_newer_notify_call :: bool
  prevKeyType :: "int option"

definition UNDEFINED_META :: xmp_meta where
  "UNDEFINED_META = (8, 2)"

definition ir_init :: ir_state where
  "ir_init = \<lparr>gCurrentKeyCode = KED_UNDEFINEDKEY, gCurrentKeySrcId = 0, gRepeatKeyInterval = 50,
     numKeyRepeats = 0, keyLogStatus = 1, bLastKeyUpReceived = False, bLastTimerRunning = False,
     bIgnoreLastKeyup = False, LASTkeySrc = KEYSRC_IR, isCecLocalLogicEnabled = False,
     bNeedRFKeyUp = False, udispatcher_set = False,
     prevEventData = \<lparr>ev_keyType = KET_KEYUP, ev_keyCode = KED_UNDEFINEDKEY, ev_meta = UNDEFINED_META,
       ev_isFP = False, ev_keySrc = KEYSRC_IR, ev_keySourceId = 0\<rparr>,
     xr15_or_newer_notify_call = False, prevKeyType = None\<rparr>"

datatype ir_effect =
    BroadcastKey irkey
  | BroadcastControl int xmp_meta key_src nat
  | Dispatch int int key_src
  | CecActiveSource bool int int
  | StartLastKeyTimer

section \<open>The key handler\<close>

definition dispatch :: "int \<Rightarrow> int \<Rightarrow> key_src \<Rightarrow> ir_state \<Rightarrow> ir_effect list" where
  "dispatch kc kt src s = (if udispatcher_set s then [Dispatch kc kt src] else [])"

text \<open>The codes that are only announced with a control event.\<close>

definition is_control :: "int \<Rightarrow> bool" where
  "is_control kc = (kc \<in> {0x66, 0x6C, 0x70, 0x74, 0x73, 0x8A, 0x8B, 0x8C, 0xC1, 0xD0, 0x64, 0x67, 0x68,
     0x6A, 0x6B})"

text \<open>The last key: on release the pair of events, unless the timer has turned it into EXIT.\<close>

definition send_pair :: "int \<Rightarrow> xmp_meta \<Rightarrow> key_src \<Rightarrow> nat \<Rightarrow> ir_state \<Rightarrow> ir_effect list" where
  "send_pair kc meta src sid s =
     (let dn = \<lparr>ev_keyType = KET_KEYDOWN, ev_keyCode = kc, ev_meta = meta, ev_isFP = False,
               ev_keySrc = src, ev_keySourceId = sid\<rparr>;
          up = dn\<lparr>ev_keyType := KET_KEYUP\<rparr>
      in dispatch kc KET_KEYDOWN src s @ [BroadcastKey dn] @
         dispatch kc KET_KEYUP src s @ [BroadcastKey up])"

definition last_key :: "int \<Rightarrow> xmp_meta \<Rightarrow> key_src \<Rightarrow> nat \<Rightarrow> ir_state \<Rightarrow> ir_state \<times> ir_effect list" where
  "last_key kt meta src sid s =
     (if kt = KET_KEYDOWN
      then (s\<lparr>bLastKeyUpReceived := False, bIgnoreLastKeyup := False, LASTkeySrc := src\<rparr>,
            if \<not> bLastTimerRunning s then [StartLastKeyTimer] else [])
      else if kt = KET_KEYUP
      then (s\<lparr>bLastKeyUpReceived := True\<rparr>,
            if \<not> bIgnoreLastKeyup s then send_pair 0x95 meta src sid s else [])
      else (s, []))"

text \<open>The end of _IrInputKeyEventHandler for an ordinary key: a key still held is released first
  (on the bus; the dispatcher is called with the new key), the event becomes the previous
  event, and, when \_DISABLE\_KEY\_POWEROFF is defined, a front panel power key is cut to one
  press and one release.\<close>

definition front_panel_power :: "int \<Rightarrow> int \<Rightarrow> ir_state \<Rightarrow> int \<times> bool" where
  "front_panel_power kt kc s =
     (let prevKT = (case prevKeyType s of None \<Rightarrow> kt | Some p \<Rightarrow> p) in
      if kc = KED_POWER
      then (if kt = KET_KEYREPEAT
            then (if prevKT = KET_KEYDOWN then (KET_KEYUP, True) else (kt, False))
            else if kt = KET_KEYUP
            then (kt, prevKT = KET_KEYDOWN)
            else (kt, True))
      else (kt, True))"

definition ordinary_key ::
  "ir_cfg \<Rightarrow> int \<Rightarrow> int \<Rightarrow> xmp_meta \<Rightarrow> key_src \<Rightarrow> nat \<Rightarrow> ir_state \<Rightarrow> ir_state \<times> ir_effect list" where
  "ordinary_key cfg kt kc meta src sid s =
     (if kc = KED_UNDEFINEDKEY then (s, [])
      else
        let prev = prevEventData s;
            es0 = (if kc \<noteq> ev_keyCode prev \<and> kt = KET_KEYDOWN \<and> ev_keyType prev \<noteq> KET_KEYUP
                   then dispatch kc kt src s @
                        [BroadcastKey \<lparr>ev_keyType = KET_KEYUP, ev_keyCode = ev_keyCode prev,
                           ev_meta = meta, ev_isFP = ev_isFP prev, ev_keySrc = ev_keySrc prev,
                           ev_keySourceId = sid\<rparr>]
                   else []);
            ev = \<lparr>ev_keyType = kt, ev_keyCode = kc, ev_meta = meta, ev_isFP = (kc = KED_POWER),
                  ev_keySrc = (if kc = KED_POWER then KEYSRC_FP else src), ev_keySourceId = sid\<rparr>;
            s1 = s\<lparr>prevEventData := ev\<rparr>;
            es1 = [CecActiveSource (isCecLocalLogicEnabled s) kt kc]
        in if DISABLE_KEY_POWEROFF cfg
           then (let (kt', go) = front_panel_power kt kc s1;
                     s2 = s1\<lparr>prevKeyType := Some kt'\<rparr>
                 in if \<not> go then (s2, es0 @ es1)
                    else (s2, es0 @ es1 @ dispatch kc kt' src s2 @ [BroadcastKey (ev\<lparr>ev_keyType := kt'\<rparr>)]))
           else (s1, es0 @ es1 @ dispatch kc kt src s1 @ [BroadcastKey ev]))"

text \<open>The handler calls itself for the notification that goes before a voice or select key, and
  for the key that an XR15 or XR16 key stands for; the rank of a code bounds the depth.\<close>

definition key_rank :: "int \<Rightarrow> nat" where
  "key_rank kc = (if kc \<in> {KED_XR15V1_PUSH_TO_TALK, KED_XR15V1_SELECT, KED_XR16V1_PUSH_TO_TALK,
                            KED_XR16V1_SELECT} then 2
                  else if kc \<in> {KED_PUSH_TO_TALK, KED_SELECT} then 1 else 0)"

definition xr_translation :: "int \<Rightarrow> (int \<times> int) option" where
  "xr_translation kc =
     (if kc = KED_XR15V1_PUSH_TO_TALK then Some (KED_XR15V1_NOTIFY, KED_PUSH_TO_TALK)
      else if kc = KED_XR15V1_SELECT then Some (KED_XR15V1_NOTIFY, KED_SELECT)
      else if kc = KED_XR16V1_PUSH_TO_TALK then Some (KED_XR16V1_NOTIFY, KED_PUSH_TO_TALK)
      else if kc = KED_XR16V1_SELECT then Some (KED_XR16V1_NOTIFY, KED_SELECT)
      else None)"

function IrInputKeyEventHandler ::
  "ir_cfg \<Rightarrow> xmp_meta \<Rightarrow> key_src \<Rightarrow> nat \<Rightarrow> int \<Rightarrow> int \<Rightarrow> ir_state \<Rightarrow> ir_state \<times> ir_effect list" where
  "IrInputKeyEventHandler cfg meta src sid kt kc s =
     (if kc = 0xEF \<and> \<not> USE_UNIFIED_CONTROL_MGR_API_1 cfg then (s, [])
      else if kc = 0xEF \<or> is_control kc
      then (if kt = KET_KEYDOWN
            then (let (s1, es1) =
                        (if kc = KED_PUSH_TO_TALK \<and> \<not> xr15_or_newer_notify_call s
                         then IrInputKeyEventHandler cfg meta src sid KET_KEYDOWN KED_XR11_NOTIFY s
                         else (s, []))
                  in (s1, es1 @ [BroadcastControl kc meta src sid]))
            else (s, []))
      else if kc = 0x95 then last_key kt meta src sid s
      else if kc = KED_SELECT
      then (let (s1, es1) =
                  (if kt = KET_KEYDOWN \<and> \<not> xr15_or_newer_notify_call s \<and> src = KEYSRC_IR
                   then IrInputKeyEventHandler cfg meta src sid KET_KEYDOWN KED_XR11_NOTIFY s
                   else (s, []));
                (s2, es2) = ordinary_key cfg kt kc meta src sid s1
            in (s2, es1 @ es2))
      else (case xr_translation kc of
              Some (notify, target) \<Rightarrow>
                (let (s1, es1) =
                       (if kt = KET_KEYDOWN
                        then (let (s', es') = IrInputKeyEventHandler cfg meta src sid KET_KEYDOWN notify
                                                (s\<lparr>xr15_or_newer_notify_call := True\<rparr>)
                              in (s'\<lparr>gCurrentKeyCode := target\<rparr>, es'))
                        else (s\<lparr>xr15_or_newer_notify_call := False,
                                gCurrentKeyCode := KED_UNDEFINEDKEY\<rparr>, []));
                     (s2, es2) = IrInputKeyEventHandler cfg meta src sid kt target s1
                 in (s2, es1 @ es2))
            | None \<Rightarrow> ordinary_key cfg kt kc meta src sid s))"
  by pat_completeness auto
termination
  by (relation "measure (\<lambda>(cfg, meta, src, sid, kt, kc, s). key_rank kc)")
     (auto simp: key_rank_def xr_translation_def split: if_splits)

declare IrInputKeyEventHandler.simps [simp del]

text \<open>_IrKeyCallbackFrom: repeats of the remote are ignored.\<close>

definition IrKeyCallbackFrom ::
  "ir_cfg \<Rightarrow> xmp_meta \<Rightarrow> int \<Rightarrow> int \<Rightarrow> key_src \<Rightarrow> nat \<Rightarrow> ir_state \<Rightarrow> ir_state \<times> ir_effect list" where
  "IrKeyCallbackFrom cfg meta kt kc src sid s =
     (if kt = KET_KEYDOWN
      then IrInputKeyEventHandler cfg meta src sid kt kc (s\<lparr>gCurrentKeyCode := kc, gCurrentKeySrcId := sid\<rparr>)
      else if kt = KET_KEYUP
      then IrInputKeyEventHandler cfg meta src sid kt kc
             (s\<lparr>gCurrentKeyCode := KED_UNDEFINEDKEY, gCurrentKeySrcId := sid\<rparr>)
      else (s, []))"

definition IrKeyCallback :: "ir_cfg \<Rightarrow> int \<Rightarrow> int \<Rightarrow> ir_state \<Rightarrow> ir_state \<times> ir_effect list" where
  "IrKeyCallback cfg kt kc s = IrKeyCallbackFrom cfg UNDEFINED_META kt kc KEYSRC_IR 0 s"

text \<open>The callback of builds with XMP tags: on PLATCO boxes only PLATCO tags are accepted and the
  pairing owner starts a pairing, on the others PLATCO tags and unknown owners are dropped.  The
  codes are those of hal/include/plat\_ir.h.  The pairing asks the control manager (a bus call,
  None when it fails) for its networks and pairs on each Bluetooth LE one.\<close>

datatype xmp_action =
    XmpIgnore
  | XmpKey
  | XmpPair

definition xmp_action :: "bool \<Rightarrow> int \<Rightarrow> int \<Rightarrow> xmp_action" where
  "xmp_action platco tag xowner =
     (if platco
      then (if tag \<noteq> 1 then XmpIgnore
            else if xowner = 0 then XmpKey
            else if xowner = 1 then XmpPair
            else XmpIgnore)
      else (if tag \<noteq> 1 \<and> (xowner = 0 \<or> xowner = 1) then XmpKey else XmpIgnore))"

definition IrKeyPairing :: "int \<Rightarrow> int \<Rightarrow> int \<Rightarrow> (bool \<times> nat) list option \<Rightarrow> (nat \<times> int) list" where
  "IrKeyPairing tag xowner code networks =
     (if tag \<noteq> 1 \<or> xowner \<noteq> 1 then []
      else (case networks of
              None \<Rightarrow> []
            | Some ns \<Rightarrow> map (\<lambda>(ble, nid). (nid, code)) (filter fst ns)))"

definition IrKeyCallback_xmp ::
  "ir_cfg \<Rightarrow> bool \<Rightarrow> int \<Rightarrow> int \<Rightarrow> int \<Rightarrow> int \<Rightarrow> ir_state \<Rightarrow> ir_state \<times> ir_effect list" where
  "IrKeyCallback_xmp cfg platco tag xowner kt kc s =
     (case xmp_action platco tag xowner of
        XmpKey \<Rightarrow> IrKeyCallbackFrom cfg (tag, xowner) kt kc KEYSRC_IR 0 s
      | _ \<Rightarrow> (s, []))"

section \<open>The LAST key timer\<close>

text \<open>The thread started by a LAST press: it marks itself running, polls the release flag (30 polls
  of 50 ms in 1500 ms), and at the end, unless it saw the release, sends EXIT.  The flags that the
  polls read are an argument.\<close>

definition LAST_TIMER_POLLS :: nat where
  "LAST_TIMER_POLLS = 1500 * 1000 div 50000"

definition last_timer_start :: "ir_state \<Rightarrow> ir_state" where
  "last_timer_start s = s\<lparr>bLastTimerRunning := True\<rparr>"

definition last_timer_timed_out :: "bool list \<Rightarrow> bool" where
  "last_timer_timed_out polls = (\<forall>b\<in>set (take LAST_TIMER_POLLS polls). \<not> b)"

definition last_timer_end :: "bool list \<Rightarrow> xmp_meta \<Rightarrow> ir_state \<Rightarrow> ir_state \<times> ir_effect list" where
  "last_timer_end polls meta s =
     (let s1 = s\<lparr>bIgnoreLastKeyup := True\<rparr>;
          es = (if last_timer_timed_out polls
                then send_pair 0x87 meta (LASTkeySrc s1) (gCurrentKeySrcId s1) s1 else [])
      in (s1\<lparr>bLastTimerRunning := False\<rparr>, es))"

section \<open>The key repeat thread\<close>

text \<open>Where the thread is blocked: on the condition variable without time-out, for the initial 500
  ms, for the repeat interval, or nowhere (it spins on a repeat interval of zero).\<close>

datatype repeat_stage = WaitPress | WaitInitial | WaitRepeat | Spinning

text \<open>What wakes it: a signal of the key callback, or the time-out.\<close>

datatype wake = Signalled | TimedOut

definition MAX_KEY_REPEATS :: int where "MAX_KEY_REPEATS = 6"

text \<open>The top of the loop, with the local isTimedout; where the thread blocks next.\<close>

definition loop_top :: "bool \<Rightarrow> ir_state \<Rightarrow> repeat_stage" where
  "loop_top isTimedout s =
     (if \<not> isTimedout then WaitPress
      else if gRepeatKeyInterval s \<noteq> 0 then WaitRepeat else Spinning)"

definition repeat_posted ::
  "ir_cfg \<Rightarrow> xmp_meta \<Rightarrow> ir_state \<Rightarrow> ir_state \<times> ir_effect list" where
  "repeat_posted cfg meta s =
     (if bNeedRFKeyUp s
      then
        (let s1 = s\<lparr>numKeyRepeats := numKeyRepeats s + 1\<rparr> in
         if numKeyRepeats s1 > MAX_KEY_REPEATS
         then (let (s2, es) = IrInputKeyEventHandler cfg meta KEYSRC_IR (gCurrentKeySrcId s1) KET_KEYUP
                                (gCurrentKeyCode s1) s1
               in (s2\<lparr>gCurrentKeyCode := KED_UNDEFINEDKEY, numKeyRepeats := 0, bNeedRFKeyUp := False\<rparr>, es))
         else IrInputKeyEventHandler cfg meta KEYSRC_RF (gCurrentKeySrcId s1) KET_KEYREPEAT
                (gCurrentKeyCode s1) s1)
      else IrInputKeyEventHandler cfg meta KEYSRC_IR (gCurrentKeySrcId s) KET_KEYREPEAT
             (gCurrentKeyCode s) s)"

definition KeyRepeatThread ::
  "ir_cfg \<Rightarrow> xmp_meta \<Rightarrow> wake \<Rightarrow> repeat_stage \<times> ir_state \<Rightarrow> (repeat_stage \<times> ir_state) \<times> ir_effect list" where
  "KeyRepeatThread cfg meta w p = (case p of (stage, s) \<Rightarrow>
     (case stage of
        WaitPress \<Rightarrow> (case w of Signalled \<Rightarrow> ((WaitInitial, s), []) | TimedOut \<Rightarrow> ((WaitPress, s), []))
      | WaitInitial \<Rightarrow>
          (case w of
             Signalled \<Rightarrow> ((WaitPress, s), [])
           | TimedOut \<Rightarrow>
               (let (s1, es) = IrInputKeyEventHandler cfg meta KEYSRC_IR (gCurrentKeySrcId s)
                                 KET_KEYREPEAT (gCurrentKeyCode s) s
                in ((if gRepeatKeyInterval s1 \<noteq> 0 then WaitRepeat else loop_top False s1, s1), es)))
      | WaitRepeat \<Rightarrow>
          (case w of
             Signalled \<Rightarrow> ((loop_top False s, s), [])
           | TimedOut \<Rightarrow>
               (if gCurrentKeyCode s \<noteq> KED_UNDEFINEDKEY
                then (let (s1, es) = repeat_posted cfg meta s in ((loop_top True s1, s1), es))
                else ((loop_top False s, s), [])))
      | Spinning \<Rightarrow> ((loop_top True s, s), [])))"

section \<open>Events of the control manager and of the RF managers\<close>

text \<open>The key codes of the control manager are named by the suffix of their
  CTRLM\_KEY\_CODE\_ constant (ctrlm\_ipc\_rcu.h is not part of the repository).\<close>

definition ctrlm_key_codes :: "(string \<times> int) list" where
  "ctrlm_key_codes =
    [(''OK'', 0x85),
     (''UP_ARROW'', 0x81),
     (''DOWN_ARROW'', 0x82),
     (''LEFT_ARROW'', 0x83),
     (''RIGHT_ARROW'', 0x84),
     (''MENU'', 0xC0),
     (''DVR'', 0xD2),
     (''FAV'', 0x96),
     (''EXIT'', 0x87),
     (''DIGIT_0'', 0x30),
     (''DIGIT_1'', 0x31),
     (''DIGIT_2'', 0x32),
     (''DIGIT_3'', 0x33),
     (''DIGIT_4'', 0x34),
     (''DIGIT_5'', 0x35),
     (''DIGIT_6'', 0x36),
     (''DIGIT_7'', 0x37),
     (''DIGIT_8'', 0x38),
     (''DIGIT_9'', 0x39),
     (''PERIOD'', 0x40),
     (''RETURN'', 0x86),
     (''CH_UP'', 0x88),
     (''CH_DOWN'', 0x89),
     (''LAST'', 0x95),
     (''LANG'', 0x61),
     (''INPUT_SELECT'', 0xD0),
     (''INFO'', 0x8E),
     (''HELP'', 0xA1),
     (''PAGE_UP'', 0x90),
     (''PAGE_DOWN'', 0x91),
     (''SEARCH'', 0xCF),
     (''LIVE'', 0xD1),
     (''TV_POWER'', 0xC1),
     (''VOL_UP'', 0x8A),
     (''VOL_DOWN'', 0x8B),
     (''MUTE'', 0x8C),
     (''PLAY'', 0x99),
     (''STOP'', 0x9A),
     (''PAUSE'', 0x9B),
     (''RECORD'', 0x9C),
     (''REWIND'', 0x97),
     (''FAST_FORWARD'', 0x98),
     (''REPLAY'', 0xA0),
     (''SWAP'', 0x300000FE),
     (''ON_DEMAND'', 0xD3),
     (''GUIDE'', 0x8D),
     (''PUSH_TO_TALK'', 0x64),
     (''PIP_ON_OFF'', 0x500000FE),
     (''PIP_MOVE'', 0x400000FE),
     (''PIP_CH_UP'', 0x700000FE),
     (''PIP_CH_DOWN'', 0x600000FE),
     (''PLAY_PAUSE'', 0x99),
     (''POWER_TOGGLE'', 0x7F),
     (''POWER_OFF'', 0x51),
     (''POWER_ON'', 0x50),
     (''OCAP_B'', 0x93),
     (''OCAP_C'', 0x94),
     (''OCAP_D'', 0x9F),
     (''OCAP_A'', 0x92),
     (''CC'', 0x60),
     (''BACKSPACE'', 0xA4),
     (''POUND'', 0xA6),
     (''ASTERISK'', 0xAB),
     (''INVALID'', 0xFE)]"

definition ctrlm_key_code :: "string \<Rightarrow> int" where
  "ctrlm_key_code n = (case map_of ctrlm_key_codes n of None \<Rightarrow> KED_UNDEFINEDKEY | Some k \<Rightarrow> k)"

datatype ctrlm_status = KEY_STATUS_DOWN | KEY_STATUS_UP | KEY_STATUS_REPEAT | KEY_STATUS_INVALID

fun ctrlm_key_type :: "ctrlm_status \<Rightarrow> int" where
  "ctrlm_key_type KEY_STATUS_DOWN = KET_KEYDOWN"
| "ctrlm_key_type KEY_STATUS_UP = KET_KEYUP"
| "ctrlm_key_type KEY_STATUS_REPEAT = KET_KEYREPEAT"
| "ctrlm_key_type KEY_STATUS_INVALID = 0"

text \<open>An event: its payload is None for a NULL pointer, and begins with whether its API revision
  is the expected one.\<close>

datatype ctrlm_event =
    EVENT_KEY_PRESS "(bool \<times> nat \<times> ctrlm_status \<times> string) option"
  | EVENT_KEY_GHOST "(bool \<times> nat \<times> string) option"
  | EVENT_FUNCTION "bool option"
  | EVENT_OTHER

definition ctrlm_decode :: "ctrlm_event \<Rightarrow> (int \<times> int \<times> nat) option" where
  "ctrlm_decode ev = (case ev of
       EVENT_KEY_PRESS None \<Rightarrow> None
     | EVENT_KEY_PRESS (Some (revision_ok, remoteId, status, code)) \<Rightarrow>
         if \<not> revision_ok then None
         else if status = KEY_STATUS_INVALID then None
         else Some (ctrlm_key_type status, ctrlm_key_code code, remoteId)
     | EVENT_KEY_GHOST None \<Rightarrow> None
     | EVENT_KEY_GHOST (Some (revision_ok, remoteId, ghost)) \<Rightarrow>
         if \<not> revision_ok then None
         else if ghost = ''VOLUME_UNITY_GAIN'' then Some (KET_KEYDOWN, KED_VOLUME_OPTIMIZE, remoteId)
         else None
     | EVENT_FUNCTION _ \<Rightarrow> None
     | EVENT_OTHER \<Rightarrow> None)"

text \<open>What every RF handler does with a key: the front panel power code becomes the RF one, the
  repeat count restarts, and a release will be made up when the remote's manager is lost.\<close>

definition rf_key :: "ir_cfg \<Rightarrow> xmp_meta \<Rightarrow> int \<Rightarrow> int \<Rightarrow> nat \<Rightarrow> ir_state \<Rightarrow> ir_state \<times> ir_effect list" where
  "rf_key cfg meta kt kc0 remoteId s =
     (let kc = (if kc0 = KED_POWER then KED_RF_POWER else kc0);
          s1 = s\<lparr>numKeyRepeats := 0, bNeedRFKeyUp := (kt \<noteq> KET_KEYUP)\<rparr>
      in IrKeyCallbackFrom cfg meta kt kc KEYSRC_RF remoteId s1)"

definition ctrlmEventHandler ::
  "ir_cfg \<Rightarrow> xmp_meta \<Rightarrow> ctrlm_event \<Rightarrow> ir_state \<Rightarrow> ir_state \<times> ir_effect list" where
  "ctrlmEventHandler cfg meta ev s = (case ctrlm_decode ev of
       None \<Rightarrow> (s, [])
     | Some (kt, kc, remoteId) \<Rightarrow> rf_key cfg meta kt kc remoteId s)"

text \<open>The two older interfaces keep the remote's number in an unsigned char.\<close>

definition rfEventHandler ::
  "ir_cfg \<Rightarrow> xmp_meta \<Rightarrow> int \<Rightarrow> int \<Rightarrow> nat \<Rightarrow> ir_state \<Rightarrow> ir_state \<times> ir_effect list" where
  "rfEventHandler cfg meta kt kc remoteId s = rf_key cfg meta kt kc (remoteId mod 256) s"

definition rf4ceEventHandler ::
  "ir_cfg \<Rightarrow> xmp_meta \<Rightarrow> int \<Rightarrow> int \<Rightarrow> nat \<Rightarrow> ir_state \<Rightarrow> ir_state \<times> ir_effect list" where
  "rf4ceEventHandler cfg meta kt kc remoteId s = rf_key cfg meta kt kc remoteId s"

definition gpEventHandler ::
  "ir_cfg \<Rightarrow> xmp_meta \<Rightarrow> int \<Rightarrow> int \<Rightarrow> nat \<Rightarrow> ir_state \<Rightarrow> ir_state \<times> ir_effect list" where
  "gpEventHandler cfg meta kt kc remoteId s = rf_key cfg meta kt kc (remoteId mod 256) s"

section \<open>Configuration\<close>

definition SetRepeatInterval :: "nat \<Rightarrow> ir_state \<Rightarrow> ir_state \<times> iarm_result" where
  "SetRepeatInterval timeout s = (s\<lparr>gRepeatKeyInterval := timeout\<rparr>, IARM_RESULT_SUCCESS)"

definition GetRepeatInterval :: "ir_state \<Rightarrow> nat \<times> iarm_result" where
  "GetRepeatInterval s = (gRepeatKeyInterval s, IARM_RESULT_SUCCESS)"

definition logEventHandler :: "string \<Rightarrow> bool \<Rightarrow> int \<Rightarrow> ir_state \<Rightarrow> ir_state" where
  "logEventHandler sender is_logging_event logStatus s =
     (if sender = ''SYSMgr'' \<and> is_logging_event then s\<lparr>keyLogStatus := logStatus\<rparr> else s)"

definition IRMgr_Register_uinput :: "bool \<Rightarrow> ir_state \<Rightarrow> ir_state \<times> iarm_result" where
  "IRMgr_Register_uinput f s = (s\<lparr>udispatcher_set := f\<rparr>, IARM_RESULT_SUCCESS)"

text \<open>The part of IRMgr_Start that sets the state: the logging preference of the system manager and
  the RFC value of the CEC feature.\<close>

definition IRMgr_Start :: "int \<Rightarrow> string \<Rightarrow> ir_state \<Rightarrow> ir_state" where
  "IRMgr_Start logStatus rfc_value s =
     (let s1 = s\<lparr>keyLogStatus := logStatus\<rparr> in
      if strncasecmp_eq rfc_value ''true'' 4 then s1\<lparr>isCecLocalLogicEnabled := True\<rparr> else s1)"

section \<open>The injected keyboard\<close>

text \<open>The table; Linux key codes are named as in linux/input.h, and KEY\_RESERVED is the code for
  no modifier.\<close>

definition kcodesMap_IARM2Linux :: "(int \<times> string \<times> string) list" where
  "kcodesMap_IARM2Linux =
    [(0xC0, ''KEY_M'', ''KEY_LEFTCTRL''),
     (0x8D, ''KEY_G'', ''KEY_LEFTCTRL''),
     (0x8E, ''KEY_I'', ''KEY_LEFTCTRL''),
     (0x86, ''KEY_ENTER'', ''KEY_RESERVED''),
     (0xA9, ''KEY_OK'', ''KEY_RESERVED''),
     (0x85, ''KEY_ENTER'', ''KEY_RESERVED''),
     (0x87, ''KEY_E'', ''KEY_LEFTCTRL''),
     (0x80, ''KEY_POWER'', ''KEY_RESERVED''),
     (0x88, ''KEY_UP'', ''KEY_LEFTCTRL''),
     (0x89, ''KEY_DOWN'', ''KEY_LEFTCTRL''),
     (0x8A, ''KEY_U'', ''KEY_LEFTCTRL''),
     (0x8B, ''KEY_D'', ''KEY_LEFTCTRL''),
     (0x8C, ''KEY_Y'', ''KEY_LEFTCTRL''),
     (0x31, ''KEY_1'', ''KEY_RESERVED''),
     (0x32, ''KEY_2'', ''KEY_RESERVED''),
     (0x33, ''KEY_3'', ''KEY_RESERVED''),
     (0x34, ''KEY_4'', ''KEY_RESERVED''),
     (0x35, ''KEY_5'', ''KEY_RESERVED''),
     (0x36, ''KEY_6'', ''KEY_RESERVED''),
     (0x37, ''KEY_7'', ''KEY_RESERVED''),
     (0x38, ''KEY_8'', ''KEY_RESERVED''),
     (0x39, ''KEY_9'', ''KEY_RESERVED''),
     (0x30, ''KEY_0'', ''KEY_RESERVED''),
     (0x98, ''KEY_F'', ''KEY_LEFTCTRL''),
     (0x97, ''KEY_W'', ''KEY_LEFTCTRL''),
     (0x9B, ''KEY_P'', ''KEY_LEFTCTRL''),
     (0x99, ''KEY_P'', ''KEY_LEFTCTRL''),
     (0x9A, ''KEY_S'', ''KEY_LEFTCTRL''),
     (0x9C, ''KEY_R'', ''KEY_LEFTCTRL''),
     (0x81, ''KEY_UP'', ''KEY_RESERVED''),
     (0x82, ''KEY_DOWN'', ''KEY_RESERVED''),
     (0x83, ''KEY_LEFT'', ''KEY_RESERVED''),
     (0x84, ''KEY_RIGHT'', ''KEY_RESERVED''),
     (0x90, ''KEY_PAGEUP'', ''KEY_RESERVED''),
     (0x91, ''KEY_PAGEDOWN'', ''KEY_RESERVED''),
     (0x95, ''KEY_L'', ''KEY_LEFTCTRL''),
     (0x96, ''KEY_N'', ''KEY_LEFTCTRL''),
     (0x92, ''KEY_0'', ''KEY_LEFTCTRL''),
     (0x93, ''KEY_1'', ''KEY_LEFTCTRL''),
     (0x94, ''KEY_2'', ''KEY_LEFTCTRL''),
     (0x9F, ''KEY_3'', ''KEY_LEFTCTRL''),
     (0xA1, ''KEY_HELP'', ''KEY_RESERVED''),
     (0x52, ''KEY_SETUP'', ''KEY_RESERVED''),
     (0xC4, ''KEY_NEXT'', ''KEY_RESERVED''),
     (0xC3, ''KEY_PREVIOUS'', ''KEY_RESERVED''),
     (0xD3, ''KEY_O'', ''KEY_LEFTCTRL''),
     (0xA0, ''KEY_B'', ''KEY_LEFTCTRL''),
     (0xCF, ''KEY_C'', ''KEY_LEFTCTRL''),
     (0xAB, ''KEY_KPASTERISK'', ''KEY_RESERVED''),
     (0xFE, ''KEY_UNKNOWN'', ''KEY_RESERVED'')]"

abbreviation (input) "KEY_INVALID \<equiv> ''KEY_RESERVED''"

fun find_key :: "(int \<times> string \<times> string) list \<Rightarrow> int \<Rightarrow> (string \<times> string) option" where
  "find_key [] kc = None"
| "find_key ((i, u, mo) # ks) kc = (if i = kc then Some (u, mo) else find_key ks kc)"

definition getKeyCode :: "int \<Rightarrow> string \<times> string" where
  "getKeyCode kc = (case find_key kcodesMap_IARM2Linux kc of
       None \<Rightarrow> (KEY_INVALID, KEY_INVALID) | Some p \<Rightarrow> p)"

definition getKeyValue :: "int \<Rightarrow> nat" where
  "getKeyValue kt = (if kt = KET_KEYDOWN then 1 else if kt = KET_KEYUP then 0
     else if kt = KET_KEYREPEAT then 2 else 0)"

text \<open>The device: whether its descriptor is open, and the events written to it.  An event that
  cannot be written closes the device.\<close>

datatype uinput_event = EvKey string nat | EvSyn

definition udispatcher_internal :: "bool \<Rightarrow> string \<Rightarrow> nat \<Rightarrow> bool \<Rightarrow> bool \<times> uinput_event list" where
  "udispatcher_internal write_ok code val devOpen =
     (if devOpen \<and> write_ok then (True, [EvKey code val, EvSyn]) else (False, []))"

definition udispatcher :: "bool \<Rightarrow> int \<Rightarrow> int \<Rightarrow> bool \<Rightarrow> bool \<times> uinput_event list" where
  "udispatcher write_ok kc kt devOpen =
     (if \<not> devOpen then (devOpen, [])
      else
        let (uCode, uModi) = getKeyCode kc; val = getKeyValue kt;
            (d1, es1) = (if kt = KET_KEYDOWN \<and> uModi \<noteq> KEY_INVALID
                         then udispatcher_internal write_ok uModi val devOpen else (devOpen, []));
            (d2, es2) = udispatcher_internal write_ok uCode val d1;
            (d3, es3) = (if kt = KET_KEYUP \<and> uModi \<noteq> KEY_INVALID
                         then udispatcher_internal write_ok uModi val d2 else (d2, []))
        in (d3, es1 @ es2 @ es3))"

definition UINPUT_term :: "bool \<Rightarrow> bool" where
  "UINPUT_term devOpen = False"

section \<open>HDMI-CEC\<close>

text \<open>The replies of the CEC manager and of the display are arguments: the logical address (None
  when the call fails), the physical address (None when no display is connected or the device
  library throws), and whether the message could be sent.\<close>

definition IARMCEC_SendCECActiveSource ::
  "bool \<Rightarrow> int \<Rightarrow> int \<Rightarrow> 8 word option \<Rightarrow> (8 word \<times> 8 word \<times> 8 word \<times> 8 word) option \<Rightarrow> bool \<Rightarrow> bool \<Rightarrow>
   bool \<times> 8 word list option" where
  "IARMCEC_SendCECActiveSource bCecLocalLogic kt kc logical physical sent port_active =
     (if bCecLocalLogic \<and> kt = KET_KEYDOWN \<and> kc = KED_MENU
      then (case logical of
              None \<Rightarrow> (False, None)
            | Some la \<Rightarrow>
                (case physical of
                   None \<Rightarrow> (False, None)
                 | Some (p0, p1, p2, p3) \<Rightarrow>
                     (sent \<and> \<not> port_active,
                      Some [or 0x0F (push_bit 4 la), 0x82, or (push_bit 4 p0) p1, or (push_bit 4 p2) p3])))
      else (False, None))"

definition IARMCEC_SendCECImageViewOn ::
  "bool \<Rightarrow> 8 word option \<Rightarrow> bool \<Rightarrow> bool \<times> 8 word list option" where
  "IARMCEC_SendCECImageViewOn bCecLocalLogic logical sent =
     (if bCecLocalLogic
      then (case logical of
              None \<Rightarrow> (False, None)
            | Some la \<Rightarrow> (sent, Some [or 0 (push_bit 4 la), 0x04]))
      else (False, None))"

section \<open>The handler in normal form\<close>

lemma handler_notify:
  assumes "kc \<in> {KED_XR11_NOTIFY, KED_XR15V1_NOTIFY, KED_XR16V1_NOTIFY}"
  shows "IrInputKeyEventHandler cfg meta src sid KET_KEYDOWN kc s = (s, [BroadcastControl kc meta src sid])"
  using assms by (subst IrInputKeyEventHandler.simps) (auto simp: is_control_def)

lemma handler_push_to_talk:
  "IrInputKeyEventHandler cfg meta src sid kt KED_PUSH_TO_TALK s =
     (s, if kt = KET_KEYDOWN
         then (if xr15_or_newer_notify_call s then [] else [BroadcastControl KED_XR11_NOTIFY meta src sid]) @
              [BroadcastControl KED_PUSH_TO_TALK meta src sid]
         else [])"
  by (subst IrInputKeyEventHandler.simps) (simp add: is_control_def handler_notify)

lemma handler_select:
  "IrInputKeyEventHandler cfg meta src sid kt KED_SELECT s =
     (fst (ordinary_key cfg kt KED_SELECT meta src sid s),
      (if kt = KET_KEYDOWN \<and> \<not> xr15_or_newer_notify_call s \<and> src = KEYSRC_IR
       then [BroadcastControl KED_XR11_NOTIFY meta src sid] else []) @
      snd (ordinary_key cfg kt KED_SELECT meta src sid s))"
  by (subst IrInputKeyEventHandler.simps) (simp add: is_control_def handler_notify case_prod_beta)

definition ordinary_code :: "int \<Rightarrow> bool" where
  "ordinary_code kc = (kc \<noteq> 0xEF \<and> kc \<noteq> 0x95 \<and> \<not> is_control kc \<and> kc \<noteq> KED_SELECT \<and>
     xr_translation kc = None)"

lemma handler_ordinary:
  "ordinary_code kc \<Longrightarrow>
     IrInputKeyEventHandler cfg meta src sid kt kc s = ordinary_key cfg kt kc meta src sid s"
  by (subst IrInputKeyEventHandler.simps) (simp add: ordinary_code_def)

lemma handler_last:
  "IrInputKeyEventHandler cfg meta src sid kt 0x95 s = last_key kt meta src sid s"
  by (subst IrInputKeyEventHandler.simps) (simp add: is_control_def)

lemma handler_control:
  assumes "is_control kc \<or> kc = 0xEF"
  shows "IrInputKeyEventHandler cfg meta src sid kt kc s =
    (s, if kc = 0xEF \<and> \<not> USE_UNIFIED_CONTROL_MGR_API_1 cfg \<or> kt \<noteq> KET_KEYDOWN then []
        else (if kc = KED_PUSH_TO_TALK \<and> \<not> xr15_or_newer_notify_call s
              then [BroadcastControl KED_XR11_NOTIFY meta src sid] else []) @
             [BroadcastControl kc meta src sid])"
  using assms by (subst IrInputKeyEventHandler.simps) (auto simp: handler_notify is_control_def)

text \<open>The keys that go to the bus.\<close>

fun bus_keys :: "ir_effect list \<Rightarrow> irkey list" where
  "bus_keys [] = []"
| "bus_keys (BroadcastKey k # es) = k # bus_keys es"
| "bus_keys (_ # es) = bus_keys es"

lemma bus_keys_append [simp]: "bus_keys (es @ fs) = bus_keys es @ bus_keys fs"
  by (induction es rule: bus_keys.induct) simp_all

lemma bus_keys_dispatch [simp]: "bus_keys (dispatch kc kt src s) = []"
  by (simp add: dispatch_def)

text \<open>Apart from the LAST key, what the handler does to the bus and to the previous event is what
  the ordinary part does for one code (the key itself or the one it stands for), or nothing.\<close>

lemma handler_normal_form:
  assumes "kc \<noteq> 0x95"
  shows "(\<exists>kc' u. prevEventData u = prevEventData s \<and> udispatcher_set u = udispatcher_set s \<and>
     kc' \<in> {kc, KED_SELECT} \<and> prevKeyType u = prevKeyType s \<and>
     bus_keys (snd (IrInputKeyEventHandler cfg meta src sid kt kc s)) =
       bus_keys (snd (ordinary_key cfg kt kc' meta src sid u)) \<and>
     prevEventData (fst (IrInputKeyEventHandler cfg meta src sid kt kc s)) =
       prevEventData (fst (ordinary_key cfg kt kc' meta src sid u)))
   \<or> bus_keys (snd (IrInputKeyEventHandler cfg meta src sid kt kc s)) = [] \<and>
     prevEventData (fst (IrInputKeyEventHandler cfg meta src sid kt kc s)) = prevEventData s"
proof (cases "ordinary_code kc")
  case True
  then show ?thesis by (auto simp: handler_ordinary)
next
  case False
  show ?thesis
  proof (cases "is_control kc \<or> kc = 0xEF")
    case True
    then show ?thesis by (intro disjI2) (simp add: handler_control)
  next
    case nc: False
    show ?thesis
    proof (cases "kc = KED_SELECT")
      case True
      then show ?thesis by (intro disjI1 exI [of _ KED_SELECT] exI [of _ s]) (simp add: handler_select)
    next
      case False
      with nc \<open>\<not> ordinary_code kc\<close> assms obtain notify target where
        x: "xr_translation kc = Some (notify, target)" by (auto simp: ordinary_code_def)
      then have nt: "notify \<in> {KED_XR15V1_NOTIFY, KED_XR16V1_NOTIFY}"
        "target \<in> {KED_PUSH_TO_TALK, KED_SELECT}" by (auto simp: xr_translation_def split: if_splits)
      define u where "u = (if kt = KET_KEYDOWN
          then s\<lparr>xr15_or_newer_notify_call := True, gCurrentKeyCode := target\<rparr>
          else s\<lparr>xr15_or_newer_notify_call := False, gCurrentKeyCode := KED_UNDEFINEDKEY\<rparr>)"
      have h: "IrInputKeyEventHandler cfg meta src sid kt kc s =
          (let (s2, es2) = IrInputKeyEventHandler cfg meta src sid kt target u
           in (s2, (if kt = KET_KEYDOWN then [BroadcastControl notify meta src sid] else []) @ es2))"
        using nc False x nt assms
        by (subst IrInputKeyEventHandler.simps) (auto simp: handler_notify u_def)
      have u: "prevEventData u = prevEventData s" "udispatcher_set u = udispatcher_set s"
        "prevKeyType u = prevKeyType s" by (simp_all add: u_def)
      show ?thesis
      proof (cases "target = KED_SELECT")
        case True
        with u show ?thesis
          by (intro disjI1 exI [of _ KED_SELECT] exI [of _ u])
             (simp add: h case_prod_beta handler_select)
      next
        case False
        with nt u show ?thesis by (intro disjI2) (simp add: h case_prod_beta handler_push_to_talk)
      qed
    qed
  qed
qed

section \<open>The keys on the bus\<close>

text \<open>Two consecutive events: a press of another key follows a release.\<close>

definition no_overlap :: "irkey \<Rightarrow> irkey \<Rightarrow> bool" where
  "no_overlap p e = (ev_keyType e = KET_KEYDOWN \<and> ev_keyCode e \<noteq> ev_keyCode p \<longrightarrow> ev_keyType p = KET_KEYUP)"

lemma ordinary_key_chain:
  assumes "\<not> DISABLE_KEY_POWEROFF cfg"
  shows "successively no_overlap (prevEventData s # bus_keys (snd (ordinary_key cfg kt kc meta src sid s))) \<and>
     prevEventData (fst (ordinary_key cfg kt kc meta src sid s)) =
       last (prevEventData s # bus_keys (snd (ordinary_key cfg kt kc meta src sid s)))"
  using assms by (auto simp: ordinary_key_def Let_def no_overlap_def)

lemma handler_chain:
  assumes "\<not> DISABLE_KEY_POWEROFF cfg" and "kc \<noteq> 0x95"
  shows "successively no_overlap (prevEventData s # bus_keys (snd (IrInputKeyEventHandler cfg meta src sid kt kc s))) \<and>
     prevEventData (fst (IrInputKeyEventHandler cfg meta src sid kt kc s)) =
       last (prevEventData s # bus_keys (snd (IrInputKeyEventHandler cfg meta src sid kt kc s)))"
proof -
  let ?r = "IrInputKeyEventHandler cfg meta src sid kt kc s"
  from handler_normal_form [OF assms(2), of s cfg meta src sid kt]
  consider kc' u where "prevEventData u = prevEventData s"
      "bus_keys (snd ?r) = bus_keys (snd (ordinary_key cfg kt kc' meta src sid u))"
      "prevEventData (fst ?r) = prevEventData (fst (ordinary_key cfg kt kc' meta src sid u))"
    | "bus_keys (snd ?r) = []" "prevEventData (fst ?r) = prevEventData s" by blast
  then show ?thesis
  proof cases
    case (1 kc' u)
    show ?thesis using ordinary_key_chain [OF assms(1), of u kt kc' meta src sid] by (simp only: 1)
  qed simp
qed

text \<open>Runs of the manager: keys of the infrared and front panel driver, keys of the RF managers, the
  repeat thread, and a change of the repeat interval.\<close>

datatype ir_input =
    KeyIn xmp_meta int int key_src nat
  | RfKeyIn xmp_meta int int nat
  | RepeatWake xmp_meta wake
  | RepeatInterval nat

definition ir_step ::
  "ir_cfg \<Rightarrow> ir_input \<Rightarrow> repeat_stage \<times> ir_state \<Rightarrow> (repeat_stage \<times> ir_state) \<times> ir_effect list" where
  "ir_step cfg i p = (case i of
       KeyIn meta kt kc src sid \<Rightarrow>
         (let (s, es) = IrKeyCallbackFrom cfg meta kt kc src sid (snd p) in ((fst p, s), es))
     | RfKeyIn meta kt kc sid \<Rightarrow> (let (s, es) = rf_key cfg meta kt kc sid (snd p) in ((fst p, s), es))
     | RepeatWake meta w \<Rightarrow> KeyRepeatThread cfg meta w p
     | RepeatInterval n \<Rightarrow> ((fst p, fst (SetRepeatInterval n (snd p))), []))"

fun not_last_input :: "ir_input \<Rightarrow> bool" where
  "not_last_input (KeyIn _ _ kc _ _) = (kc \<noteq> 0x95)"
| "not_last_input (RfKeyIn _ _ kc _) = (kc \<noteq> 0x95)"
| "not_last_input _ = True"

definition ir_step_ok :: "ir_state \<Rightarrow> ir_state \<Rightarrow> ir_effect list \<Rightarrow> bool" where
  "ir_step_ok s s' es = (gCurrentKeyCode s' \<noteq> 0x95 \<and>
     successively no_overlap (prevEventData s # bus_keys es) \<and>
     prevEventData s' = last (prevEventData s # bus_keys es))"

lemma ordinary_key_current: "gCurrentKeyCode (fst (ordinary_key cfg kt kc meta src sid s)) = gCurrentKeyCode s"
  by (simp add: ordinary_key_def Let_def case_prod_beta)

lemma handler_current:
  assumes "gCurrentKeyCode s \<noteq> 0x95" and "kc \<noteq> 0x95"
  shows "gCurrentKeyCode (fst (IrInputKeyEventHandler cfg meta src sid kt kc s)) \<noteq> 0x95"
proof (cases "is_control kc \<or> kc = 0xEF \<or> kc = KED_SELECT \<or> ordinary_code kc")
  case True
  then show ?thesis using assms
    by (auto simp: handler_control handler_select handler_ordinary ordinary_key_current)
next
  case False
  with assms obtain notify target where
    x: "xr_translation kc = Some (notify, target)" by (auto simp: ordinary_code_def)
  then have nt: "notify \<in> {KED_XR15V1_NOTIFY, KED_XR16V1_NOTIFY}"
    "target \<in> {KED_PUSH_TO_TALK, KED_SELECT}" by (auto simp: xr_translation_def split: if_splits)
  have h: "IrInputKeyEventHandler cfg meta src sid kt kc s =
      (let (s1, es1) = (if kt = KET_KEYDOWN
                       then (s\<lparr>xr15_or_newer_notify_call := True, gCurrentKeyCode := target\<rparr>,
                             [BroadcastControl notify meta src sid])
                       else (s\<lparr>xr15_or_newer_notify_call := False,
                                gCurrentKeyCode := KED_UNDEFINEDKEY\<rparr>, []));
           (s2, es2) = IrInputKeyEventHandler cfg meta src sid kt target s1 in (s2, es1 @ es2))"
    using False x nt assms by (subst IrInputKeyEventHandler.simps) (auto simp: handler_notify)
  show ?thesis using nt(2)
    by (auto simp: h case_prod_beta handler_push_to_talk handler_select ordinary_key_current)
qed

lemma handler_step_ok:
  assumes "\<not> DISABLE_KEY_POWEROFF cfg" and "kc \<noteq> 0x95" and "gCurrentKeyCode s \<noteq> 0x95"
  shows "ir_step_ok s (fst (IrInputKeyEventHandler cfg meta src sid kt kc s))
           (snd (IrInputKeyEventHandler cfg meta src sid kt kc s))"
  using handler_chain [OF assms(1,2), of s meta src sid kt] handler_current [OF assms(3,2)]
  by (simp add: ir_step_ok_def)

lemma ir_step_ok_frame:
  "prevEventData u = prevEventData s \<Longrightarrow> ir_step_ok u s' es = ir_step_ok s s' es"
  by (simp add: ir_step_ok_def)

lemma callback_step_ok:
  assumes "\<not> DISABLE_KEY_POWEROFF cfg" and "kc \<noteq> 0x95" and "gCurrentKeyCode s \<noteq> 0x95"
  shows "ir_step_ok s (fst (IrKeyCallbackFrom cfg meta kt kc src sid s))
           (snd (IrKeyCallbackFrom cfg meta kt kc src sid s))"
proof -
  let ?u = "\<lambda>k. s\<lparr>gCurrentKeyCode := k, gCurrentKeySrcId := sid\<rparr>"
  have "ir_step_ok (?u k) (fst (IrInputKeyEventHandler cfg meta src sid kt kc (?u k)))
           (snd (IrInputKeyEventHandler cfg meta src sid kt kc (?u k)))" if "k \<noteq> 0x95" for k
    by (rule handler_step_ok) (use assms that in simp_all)
  then have "ir_step_ok s (fst (IrInputKeyEventHandler cfg meta src sid kt kc (?u k)))
           (snd (IrInputKeyEventHandler cfg meta src sid kt kc (?u k)))" if "k \<noteq> 0x95" for k
    using that unfolding ir_step_ok_def by simp
  moreover have "ir_step_ok s s []" using assms(3) by (simp add: ir_step_ok_def)
  ultimately show ?thesis using assms(2) by (auto simp: IrKeyCallbackFrom_def)
qed

lemma repeat_posted_step_ok:
  assumes "\<not> DISABLE_KEY_POWEROFF cfg" and "gCurrentKeyCode s \<noteq> 0x95"
  shows "ir_step_ok s (fst (repeat_posted cfg meta s)) (snd (repeat_posted cfg meta s))"
proof -
  let ?u = "s\<lparr>numKeyRepeats := numKeyRepeats s + 1\<rparr>"
  have "ir_step_ok s (fst (IrInputKeyEventHandler cfg meta src sid kt (gCurrentKeyCode s) ?u))
           (snd (IrInputKeyEventHandler cfg meta src sid kt (gCurrentKeyCode s) ?u))" for src sid kt
    using handler_step_ok [of cfg "gCurrentKeyCode s" ?u] assms ir_step_ok_frame [of ?u s] by simp
  moreover have "ir_step_ok s (fst (IrInputKeyEventHandler cfg meta src sid kt (gCurrentKeyCode s) s))
           (snd (IrInputKeyEventHandler cfg meta src sid kt (gCurrentKeyCode s) s))" for src sid kt
    using handler_step_ok assms by simp
  ultimately show ?thesis
    by (auto simp: repeat_posted_def Let_def case_prod_beta) (auto simp: ir_step_ok_def)
qed

lemma ir_step_step_ok:
  assumes "\<not> DISABLE_KEY_POWEROFF cfg" and "not_last_input i" and "gCurrentKeyCode (snd p) \<noteq> 0x95"
  shows "ir_step_ok (snd p) (snd (fst (ir_step cfg i p))) (snd (ir_step cfg i p))"
proof -
  obtain stage s where p: "p = (stage, s)" by (cases p)
  note s = assms(3) [unfolded p snd_conv]
  have quiet: "ir_step_ok s s []" using s by (simp add: ir_step_ok_def)
  show ?thesis
  proof (cases i)
    case (KeyIn meta kt kc src sid)
    then show ?thesis using assms(2) callback_step_ok [OF assms(1) _ s]
      by (simp add: ir_step_def p case_prod_beta)
  next
    case (RfKeyIn meta kt kc sid)
    let ?u = "s\<lparr>numKeyRepeats := 0, bNeedRFKeyUp := (kt \<noteq> KET_KEYUP)\<rparr>"
    have "ir_step_ok ?u (fst (rf_key cfg meta kt kc sid s)) (snd (rf_key cfg meta kt kc sid s))"
      using callback_step_ok [of cfg _ ?u] assms(1,2) s RfKeyIn by (simp add: rf_key_def Let_def)
    then show ?thesis using ir_step_ok_frame [of ?u s] RfKeyIn
      by (simp add: ir_step_def p case_prod_beta)
  next
    case (RepeatWake meta w)
    show ?thesis
      using quiet repeat_posted_step_ok [OF assms(1) s, of meta]
        handler_step_ok [OF assms(1) s s, of meta]
      by (cases stage; cases w)
         (simp_all add: RepeatWake ir_step_def KeyRepeatThread_def p case_prod_beta)
  next
    case (RepeatInterval n)
    then show ?thesis using s by (simp add: ir_step_def p SetRepeatInterval_def ir_step_ok_def)
  qed
qed

lemma successively_join:
  "successively P (x # xs) \<Longrightarrow> successively P (last (x # xs) # ys) \<Longrightarrow> successively P (x # xs @ ys)"
  by (cases ys) (auto simp: successively_append_iff successively_Cons split: if_splits)

lemma ir_run_ok:
  assumes "\<not> DISABLE_KEY_POWEROFF cfg" and "\<forall>i\<in>set is. not_last_input i"
    and "gCurrentKeyCode (snd p) \<noteq> 0x95"
  shows "successively no_overlap (prevEventData (snd p) # bus_keys (snd (run_trace (ir_step cfg) is p)))"
  using assms(2,3)
proof (induction "is" arbitrary: p)
  case (Cons i "is")
  have ok: "ir_step_ok (snd p) (snd (fst (ir_step cfg i p))) (snd (ir_step cfg i p))"
    using ir_step_step_ok [OF assms(1)] Cons.prems by simp
  then have "successively no_overlap (prevEventData (snd p) # bus_keys (snd (ir_step cfg i p)))"
    and l: "prevEventData (snd (fst (ir_step cfg i p))) =
      last (prevEventData (snd p) # bus_keys (snd (ir_step cfg i p)))"
    and "gCurrentKeyCode (snd (fst (ir_step cfg i p))) \<noteq> 0x95"
    unfolding ir_step_ok_def by blast+
  moreover have "\<forall>i\<in>set is. not_last_input i" using Cons.prems(1) by simp
  ultimately show ?case
    using Cons.IH [of "fst (ir_step cfg i p)"]
    unfolding snd_run_trace_Cons bus_keys_append l by (intro successively_join)
qed simp

section \<open>Properties\<close>

text \<open>C8. The key events on the bus do not overlap: in every run of the manager from its initial
  state (keys of any source, any remote, the repeat thread and interval changes, in any order, the
  LAST key apart) and in builds without \_DISABLE\_KEY\_POWEROFF, an event that presses a
  key other than the one of the event before it comes right after a release.\<close>
theorem bus_keys_do_not_overlap:
  assumes "\<not> DISABLE_KEY_POWEROFF cfg" and "\<forall>i\<in>set is. not_last_input i"
  shows "successively no_overlap (bus_keys (snd (run_trace (ir_step cfg) is (WaitPress, ir_init))))"
proof -
  have "gCurrentKeyCode (snd (WaitPress, ir_init)) \<noteq> 0x95" by (simp add: ir_init_def)
  from ir_run_ok [OF assms this] show ?thesis
    by (cases "bus_keys (snd (run_trace (ir_step cfg) is (WaitPress, ir_init)))")
       (simp_all add: successively_Cons)
qed

theorem bus_keys_do_not_overlap_witness:
  "successively no_overlap (bus_keys (snd (run_trace (ir_step
      \<lparr>USE_UNIFIED_CONTROL_MGR_API_1 = True, DISABLE_KEY_POWEROFF = False\<rparr>)
     [KeyIn UNDEFINED_META KET_KEYDOWN KED_ARROWUP KEYSRC_IR 0,
      KeyIn UNDEFINED_META KET_KEYDOWN KED_ARROWDOWN KEYSRC_IR 0] (WaitPress, ir_init))))"
  by (rule bus_keys_do_not_overlap) simp_all

text \<open>The injected keyboard does not get what the bus gets: when an ordinary key is pressed while
  the previous event of another key was not a release, the bus receives the release of the old key
  and then the press of the new one, but the uinput dispatcher is called twice with the press of
  the new key and never with the release of the old one.\<close>
lemma uinput_misses_implicit_release:
  assumes "\<not> DISABLE_KEY_POWEROFF cfg" and "ordinary_code kc" and "kc \<noteq> KED_UNDEFINEDKEY"
    and "kc \<noteq> ev_keyCode (prevEventData s)" and "ev_keyType (prevEventData s) \<noteq> KET_KEYUP"
    and "udispatcher_set s"
  shows "let es = snd (IrInputKeyEventHandler cfg meta src sid KET_KEYDOWN kc s) in
     map (\<lambda>k. (ev_keyCode k, ev_keyType k)) (bus_keys es) =
       [(ev_keyCode (prevEventData s), KET_KEYUP), (kc, KET_KEYDOWN)] \<and>
     filter (\<lambda>e. case e of Dispatch _ _ _ \<Rightarrow> True | _ \<Rightarrow> False) es =
       [Dispatch kc KET_KEYDOWN src, Dispatch kc KET_KEYDOWN src]"
  using assms by (simp add: handler_ordinary ordinary_key_def dispatch_def Let_def)

text \<open>C37. A held RF key whose manager falls silent is released after six repeats: from the state in
  which an ordinary key of an RF remote is held and the repeat thread waits with a non-zero
  interval, each of the first six time-outs posts one repeat with RF source, the seventh posts the
  release, and then the thread waits for the next press and posts nothing more.\<close>
theorem lost_rf_key_is_released:
  assumes "\<not> DISABLE_KEY_POWEROFF cfg" and "ordinary_code (gCurrentKeyCode s)"
    and "gCurrentKeyCode s \<noteq> KED_UNDEFINEDKEY" and "gCurrentKeyCode s \<noteq> KED_POWER"
    and "bNeedRFKeyUp s" and "numKeyRepeats s = 0" and "gRepeatKeyInterval s \<noteq> 0"
  shows "map (\<lambda>k. (ev_keyType k, ev_keyCode k, ev_keySrc k))
      (bus_keys (snd (run_trace (KeyRepeatThread cfg meta) (replicate (8 + n) TimedOut) (WaitRepeat, s)))) =
    replicate 6 (KET_KEYREPEAT, gCurrentKeyCode s, KEYSRC_RF) @ [(KET_KEYUP, gCurrentKeyCode s, KEYSRC_IR)] \<and>
    fst (fst (run_trace (KeyRepeatThread cfg meta) (replicate (8 + n) TimedOut) (WaitRepeat, s))) = WaitPress"
proof -
  let ?k = "gCurrentKeyCode s"
  let ?keys = "\<lambda>es. map (\<lambda>k. (ev_keyType k, ev_keyCode k, ev_keySrc k)) (bus_keys es)"
  let ?T = "KeyRepeatThread cfg meta TimedOut"
  let ?inv = "\<lambda>j u. gCurrentKeyCode u = ?k \<and> bNeedRFKeyUp u \<and> numKeyRepeats u = j \<and> gRepeatKeyInterval u \<noteq> 0"
  have rep: "\<exists>u' es. ?T (WaitRepeat, u) = ((WaitRepeat, u'), es) \<and> ?inv (j + 1) u' \<and>
      ?keys es = [(KET_KEYREPEAT, ?k, KEYSRC_RF)]" if "?inv j u" "j < 6" for j u
    using that assms(1-4)
    by (simp add: KeyRepeatThread_def repeat_posted_def Let_def MAX_KEY_REPEATS_def handler_ordinary
          ordinary_key_def loop_top_def)
  have six: "\<exists>u' es. run_trace (KeyRepeatThread cfg meta) (replicate m TimedOut) (WaitRepeat, s) = ((WaitRepeat, u'), es) \<and>
      ?inv (int m) u' \<and> ?keys es = replicate m (KET_KEYREPEAT, ?k, KEYSRC_RF)" if "m \<le> 6" for m
    using that
  proof (induction m)
    case 0
    then show ?case using assms by simp
  next
    case (Suc m)
    then obtain u es where u: "run_trace (KeyRepeatThread cfg meta) (replicate m TimedOut) (WaitRepeat, s) =
        ((WaitRepeat, u), es)" "?inv (int m) u" "?keys es = replicate m (KET_KEYREPEAT, ?k, KEYSRC_RF)" by auto
    from rep [OF u(2)] Suc.prems obtain u' es' where u': "?T (WaitRepeat, u) = ((WaitRepeat, u'), es')"
      "?inv (int m + 1) u'" "?keys es' = [(KET_KEYREPEAT, ?k, KEYSRC_RF)]" by auto
    have "replicate (Suc m) TimedOut = replicate m TimedOut @ [TimedOut]" by (simp add: replicate_append_same)
    moreover have "replicate (Suc m) x = replicate m x @ [x]" for x :: "int \<times> int \<times> key_src"
      by (simp add: replicate_append_same)
    ultimately show ?case using u u' by (simp add: run_trace_append del: replicate_Suc)
  qed
  from six [of 6] obtain u es where u: "run_trace (KeyRepeatThread cfg meta) (replicate 6 TimedOut) (WaitRepeat, s) =
      ((WaitRepeat, u), es)" "?inv 6 u" "?keys es = replicate 6 (KET_KEYREPEAT, ?k, KEYSRC_RF)" by auto
  obtain v fs where v: "?T (WaitRepeat, u) = ((WaitRepeat, v), fs)" "gCurrentKeyCode v = KED_UNDEFINEDKEY"
    "gRepeatKeyInterval v \<noteq> 0" "?keys fs = [(KET_KEYUP, ?k, KEYSRC_IR)]"
    using u(2) assms(1-4)
    by (simp add: KeyRepeatThread_def repeat_posted_def Let_def MAX_KEY_REPEATS_def handler_ordinary
          ordinary_key_def loop_top_def)
  have w: "?T (WaitRepeat, v) = ((WaitPress, v), [])" using v by (simp add: KeyRepeatThread_def loop_top_def)
  have idle: "run_trace (KeyRepeatThread cfg meta) (replicate n TimedOut) (WaitPress, v) = ((WaitPress, v), [])" for n
    by (induction n) (simp_all add: KeyRepeatThread_def)
  have "replicate (8 + n) TimedOut = replicate 6 TimedOut @ [TimedOut, TimedOut] @ replicate n TimedOut"
    by (simp add: numeral_eq_Suc)
  then show ?thesis using u v w idle [of n] by (simp add: run_trace_append)
qed

theorem lost_rf_key_is_released_witness:
  "fst (fst (run_trace (KeyRepeatThread
      \<lparr>USE_UNIFIED_CONTROL_MGR_API_1 = True, DISABLE_KEY_POWEROFF = False\<rparr> UNDEFINED_META)
     (replicate (8 + 0) TimedOut) (WaitRepeat, ir_init\<lparr>gCurrentKeyCode := KED_ARROWUP, bNeedRFKeyUp := True\<rparr>))) = WaitPress"
  using lost_rf_key_is_released
    [of "\<lparr>USE_UNIFIED_CONTROL_MGR_API_1 = True, DISABLE_KEY_POWEROFF = False\<rparr>"
        "ir_init\<lparr>gCurrentKeyCode := KED_ARROWUP, bNeedRFKeyUp := True\<rparr>" UNDEFINED_META 0]
  by (simp add: ir_init_def ordinary_code_def is_control_def xr_translation_def)

lemma interval_kept:
  "gRepeatKeyInterval (fst (ordinary_key cfg kt kc m src sid v)) = gRepeatKeyInterval v"
  "gRepeatKeyInterval (fst (last_key kt m src sid v)) = gRepeatKeyInterval v"
  by (simp_all add: ordinary_key_def last_key_def Let_def case_prod_beta)

text \<open>A repeat interval of zero, set while a key repeats, hangs the repeat thread: when the
  interval is set to zero and the time-out posts one more repeat, the thread is blocked nowhere and
  stays so whatever is pressed or released, for any number of its own turns, until the interval is
  changed again.\<close>
lemma zero_interval_spins:
  assumes "ordinary_code (gCurrentKeyCode s)" and "gCurrentKeyCode s \<noteq> KED_UNDEFINEDKEY"
    and "\<not> bNeedRFKeyUp s"
    and "\<forall>i\<in>set is. case i of RepeatInterval n \<Rightarrow> False | _ \<Rightarrow> True"
  shows "fst (fst (run_trace (ir_step cfg) (RepeatInterval 0 # RepeatWake meta TimedOut # is) (WaitRepeat, s))) = Spinning"
proof -
  have h: "gRepeatKeyInterval (fst (IrInputKeyEventHandler cfg m src sid kt kc u)) = gRepeatKeyInterval u"
    for m src sid kt kc u
  proof (induction cfg m src sid kt kc u rule: IrInputKeyEventHandler.induct)
    case (1 cfg m src sid kt kc u)
    show ?case
      by (subst IrInputKeyEventHandler.simps)
         (auto simp: interval_kept case_prod_beta handler_notify handler_push_to_talk handler_select xr_translation_def)
  qed
  have stay: "fst (fst (run_trace (ir_step cfg) is p)) = Spinning"
    if "fst p = Spinning" "gRepeatKeyInterval (snd p) = 0" for p
    using that assms(4)
  proof (induction "is" arbitrary: p)
    case (Cons i "is")
    have "fst (fst (ir_step cfg i p)) = Spinning \<and> gRepeatKeyInterval (snd (fst (ir_step cfg i p))) = 0"
      using Cons.prems
      by (cases p; cases i) (auto simp: ir_step_def case_prod_beta IrKeyCallbackFrom_def rf_key_def Let_def h
          KeyRepeatThread_def loop_top_def)
    with Cons show ?case by (simp add: fst_run_trace_Cons del: run_trace.simps)
  qed simp
  let ?u = "s\<lparr>gRepeatKeyInterval := 0\<rparr>"
  have p: "ir_step cfg (RepeatInterval 0) (WaitRepeat, s) = ((WaitRepeat, ?u), [])"
    by (simp add: ir_step_def SetRepeatInterval_def)
  have "fst (fst (ir_step cfg (RepeatWake meta TimedOut) (WaitRepeat, ?u))) = Spinning \<and>
        gRepeatKeyInterval (snd (fst (ir_step cfg (RepeatWake meta TimedOut) (WaitRepeat, ?u)))) = 0"
    using assms(1-3) h by (simp add: ir_step_def KeyRepeatThread_def repeat_posted_def loop_top_def case_prod_beta)
  with stay show ?thesis by (simp add: fst_run_trace_Cons p del: run_trace.simps)
qed

text \<open>With \_DISABLE\_KEY\_POWEROFF a held front panel power key is one press and one release:
  after the press of the key (whatever happened before), any positive number of repeats and then
  the release put exactly one release on the bus, right at the first repeat.\<close>
lemma held_power_key_is_one_press:
  assumes "DISABLE_KEY_POWEROFF cfg"
  shows "map (\<lambda>k. (ev_keyCode k, ev_keyType k)) (bus_keys (snd (run_trace
      (\<lambda>kt. IrInputKeyEventHandler cfg meta src sid kt KED_POWER)
      (replicate (Suc n) KET_KEYREPEAT @ [KET_KEYUP])
      (fst (IrInputKeyEventHandler cfg meta src sid KET_KEYDOWN KED_POWER s))))) = [(KED_POWER, KET_KEYUP)]"
proof -
  let ?H = "\<lambda>kt. IrInputKeyEventHandler cfg meta src sid kt KED_POWER"
  have o: "ordinary_code KED_POWER" by (simp add: ordinary_code_def is_control_def xr_translation_def)
  note h = handler_ordinary [OF o] ordinary_key_def front_panel_power_def Let_def
  have d: "prevKeyType (fst (?H KET_KEYDOWN s)) = Some KET_KEYDOWN" using assms by (simp add: h)
  have r1: "bus_keys (snd (?H KET_KEYREPEAT u)) = [\<lparr>ev_keyType = KET_KEYUP, ev_keyCode = KED_POWER,
      ev_meta = meta, ev_isFP = True, ev_keySrc = KEYSRC_FP, ev_keySourceId = sid\<rparr>] \<and>
      prevKeyType (fst (?H KET_KEYREPEAT u)) = Some KET_KEYUP" if "prevKeyType u = Some KET_KEYDOWN" for u
    using that assms by (simp add: h)
  have rn: "bus_keys (snd (?H kt u)) = [] \<and> prevKeyType (fst (?H kt u)) = Some kt"
    if "prevKeyType u = Some k" "k \<noteq> KET_KEYDOWN" "kt \<in> {KET_KEYREPEAT, KET_KEYUP}" for u k kt
    using that assms by (auto simp: h)
  have rest: "bus_keys (snd (run_trace ?H (replicate n KET_KEYREPEAT @ [KET_KEYUP]) u)) = []"
    if "prevKeyType u = Some k" "k \<noteq> KET_KEYDOWN" for u k n
    using that
  proof (induction n arbitrary: u k)
    case 0
    from rn [OF 0, of KET_KEYUP] show ?case by (simp add: snd_run_trace_Cons del: run_trace.simps(2))
  next
    case (Suc n)
    from rn [OF Suc.prems, of KET_KEYREPEAT] Suc.IH [of "fst (?H KET_KEYREPEAT u)" KET_KEYREPEAT] show ?case
      by (simp add: snd_run_trace_Cons del: run_trace.simps(2))
  qed
  show ?thesis
    using r1 [OF d] rest [of "fst (?H KET_KEYREPEAT (fst (?H KET_KEYDOWN s)))" KET_KEYUP n]
    by (simp add: snd_run_trace_Cons del: run_trace.simps(2))
qed

text \<open>The LAST key is LAST or EXIT: a release before the timer ends sends exactly the press and
  the release of LAST; a timer that sees no release in its 30 polls sends exactly the press and the
  release of EXIT, and the later release of LAST then sends nothing.  (The two sides share the
  flag bIgnoreLastKeyup, which only the end of the timer sets.)\<close>
lemma last_key_or_exit:
  shows "let d = fst (last_key KET_KEYDOWN meta src sid s) in map (\<lambda>k. (ev_keyCode k, ev_keyType k))
           (bus_keys (snd (last_key KET_KEYUP meta' src' sid' (last_timer_start d)))) =
         [(0x95, KET_KEYDOWN), (0x95, KET_KEYUP)] \<and>
       map (\<lambda>k. (ev_keyCode k, ev_keyType k))
           (bus_keys (snd (last_timer_end (replicate LAST_TIMER_POLLS False) meta (last_timer_start d)))) =
         [(0x87, KET_KEYDOWN), (0x87, KET_KEYUP)] \<and>
       snd (last_key KET_KEYUP meta' src' sid'
             (fst (last_timer_end polls meta (last_timer_start d)))) = []"
  by (simp add: last_key_def last_timer_start_def last_timer_end_def last_timer_timed_out_def
      send_pair_def Let_def)

text \<open>The keys that a reader of the keyboard believes to be down.\<close>

fun keys_down :: "uinput_event list \<Rightarrow> string set \<Rightarrow> string set" where
  "keys_down [] P = P"
| "keys_down (EvKey c v # es) P = keys_down es (if v = 0 then P - {c} else insert c P)"
| "keys_down (EvSyn # es) P = keys_down es P"

lemma keys_down_append: "keys_down (es @ fs) P = keys_down fs (keys_down es P)"
  by (induction es P rule: keys_down.induct) simp_all

text \<open>The injected keyboard is left as it was found: on an open device whose writes succeed,
  the press of any key code, any number of repeats and the release leave no key down that was up
  before, neither the key nor its control modifier, and while the key is held exactly these two are down in addition.\<close>
lemma uinput_press_release_balanced:
  "let (d1, es1) = udispatcher True kc KET_KEYDOWN True;
       (d2, es2) = run_trace (\<lambda>kt d. udispatcher True kc kt d) (replicate n KET_KEYREPEAT) d1;
       (d3, es3) = udispatcher True kc KET_KEYUP d2
   in d3 \<and> keys_down (es1 @ es2 @ es3) P = P - {fst (getKeyCode kc)} -
                   (if snd (getKeyCode kc) \<noteq> KEY_INVALID then {snd (getKeyCode kc)} else {}) \<and>
      keys_down (es1 @ es2) P = P \<union> {fst (getKeyCode kc)} \<union>
                   (if snd (getKeyCode kc) \<noteq> KEY_INVALID then {snd (getKeyCode kc)} else {})"
proof -
  obtain u mo where k: "getKeyCode kc = (u, mo)" by fastforce
  have one: "udispatcher True kc KET_KEYREPEAT True = (True, [EvKey u 2, EvSyn])"
    by (simp add: udispatcher_def k getKeyValue_def udispatcher_internal_def)
  have rep: "fst (run_trace (\<lambda>kt d. udispatcher True kc kt d) (replicate n KET_KEYREPEAT) True) \<and>
      keys_down (snd (run_trace (\<lambda>kt d. udispatcher True kc kt d) (replicate n KET_KEYREPEAT) True)) Q = Q"
    if "u \<in> Q" for Q n
    using that by (induction n) (simp_all add: one case_prod_beta Let_def insert_absorb)
  obtain d2 es2 where r: "run_trace (\<lambda>kt d. udispatcher True kc kt d) (replicate n KET_KEYREPEAT) True = (d2, es2)"
    by fastforce
  have r2: "d2" "u \<in> Q \<Longrightarrow> keys_down es2 Q = Q" for Q
    using rep [of _ n] r by auto
  have dn: "udispatcher True kc KET_KEYDOWN True =
      (True, (if mo \<noteq> KEY_INVALID then [EvKey mo 1, EvSyn] else []) @ [EvKey u 1, EvSyn])"
    by (simp add: udispatcher_def k getKeyValue_def udispatcher_internal_def)
  have up: "udispatcher True kc KET_KEYUP True =
      (True, [EvKey u 0, EvSyn] @ (if mo \<noteq> KEY_INVALID then [EvKey mo 0, EvSyn] else []))"
    by (simp add: udispatcher_def k getKeyValue_def udispatcher_internal_def)
  have "d2 = True" using r2(1) by simp
  then show ?thesis
    using r2(2) by (auto simp: dn up k r keys_down_append)
qed

end
