(* ===== verification/Pwr_Settings.thy ===== *)
theory Pwr_Settings
  imports Iarm_Prelude
begin

unbundle bit_operations_syntax

text \<open>
  The persistent settings of the power manager: _InitSettings, _WriteSettings,
  _ConvertUIDevToIARMBusPowerState and setPowerStateBeforeReboot of pwrmgr2/pwrMgr.c.  The code
  reads and writes the bytes of the structure m_settings, so the model keeps the image of that
  structure as a list of bytes (little endian, the layout of PWRMgr_Settings_t) and the file as
  a list of bytes; the fields are read and written at their offsets.  A read returns the bytes
  the file has, a write of n bytes writes all of them or, on a full disk, fails with -1.  The
  platform's answers and the file /tmp/pwrmgr_restarted are inputs.
\<close>

section \<open>Bytes\<close>

type_synonym bytes = "8 word list"

definition le32 :: "32 word \<Rightarrow> bytes" where
  "le32 v = [ucast v, ucast (drop_bit 8 v), ucast (drop_bit 16 v), ucast (drop_bit 24 v)]"

definition un_le32 :: "bytes \<Rightarrow> 32 word" where
  "un_le32 bs = (ucast (bs ! 0) OR push_bit 8 (ucast (bs ! 1)) OR
                 push_bit 16 (ucast (bs ! 2)) OR push_bit 24 (ucast (bs ! 3)))"

definition get32 :: "nat \<Rightarrow> bytes \<Rightarrow> 32 word" where
  "get32 off m = un_le32 (take 4 (drop off m))"

definition put :: "nat \<Rightarrow> bytes \<Rightarrow> bytes \<Rightarrow> bytes" where
  "put off bs m = take off m @ bs @ drop (off + length bs) m"

definition put32 :: "nat \<Rightarrow> 32 word \<Rightarrow> bytes \<Rightarrow> bytes" where
  "put32 off v m = put off (le32 v) m"

lemma length_le32 [simp]: "length (le32 v) = 4"
  by (simp add: le32_def)

lemma un_le32_le32 [simp]: "un_le32 (le32 v) = v"
proof (rule bit_word_eqI)
  fix n assume "n < LENGTH(32)"
  then have "n < 32" by simp
  then consider "n < 8" | "8 \<le> n" "n < 16" | "16 \<le> n" "n < 24" | "24 \<le> n" "n < 32" by linarith
  then show "bit (un_le32 (le32 v)) n = bit v n"
    by cases (auto simp: un_le32_def le32_def bit_simps numeral_2_eq_2 numeral_3_eq_3)
qed

lemma length_put [simp]: "off + length bs \<le> length m \<Longrightarrow> length (put off bs m) = length m"
  by (simp add: put_def)

lemma length_put32 [simp]: "off + 4 \<le> length m \<Longrightarrow> length (put32 off v m) = length m"
  by (simp add: put32_def)

lemma get32_put_same [simp]: "off + 4 \<le> length m \<Longrightarrow> get32 off (put32 off v m) = v"
  by (simp add: get32_def put32_def put_def)

lemma take_drop_put_other:
  assumes "off + length bs \<le> length m" and "i + n \<le> off \<or> off + length bs \<le> i"
  shows "take n (drop i (put off bs m)) = take n (drop i m)"
  using assms(2)
proof
  assume "i + n \<le> off"
  then have "i \<le> off" "n \<le> off - i" by auto
  with assms(1) have "take n (drop i (put off bs m)) = take n (drop i (take off m))"
    by (simp add: put_def)
  also have "\<dots> = take n (drop i m)" using \<open>n \<le> off - i\<close> by (simp add: drop_take min_absorb1)
  finally show ?thesis .
next
  assume "off + length bs \<le> i"
  with assms(1) show ?thesis by (simp add: put_def)
qed

lemma get32_put_other:
  assumes "off + length bs \<le> length m" and "i + 4 \<le> off \<or> off + length bs \<le> i"
  shows "get32 i (put off bs m) = get32 i m"
  using take_drop_put_other [of off bs m i 4] assms by (simp add: get32_def)

lemma get32_put32_other [simp]:
  assumes "off + 4 \<le> length m" and "i + 4 \<le> off \<or> off + 4 \<le> i"
  shows "get32 i (put32 off v m) = get32 i m"
  using get32_put_other [of off "le32 v" m i] assms by (simp add: put32_def)

section \<open>The structure\<close>

text \<open>The build options that change the structure and the defaults, and the layout: five words
  (magic, version, length, power state) and the two words of the LED settings, then the optional
  fields, then 32 bytes of padding.  The length that is saved is the size of the structure
  without the padding; the compiler rounds the one byte of nwStandbyMode up to a word.\<close>

record settings_cfg =
  DEEP_SLEEP :: bool
  SKY_XIONE :: bool
  BOOTTO_STANDBY :: bool

definition PADDING_SIZE :: nat where "PADDING_SIZE = 32"
definition UIMGR_SETTINGS_MAGIC :: "32 word" where "UIMGR_SETTINGS_MAGIC = 0xFEBEEFAC"

abbreviation (input) "magic_off \<equiv> (0 :: nat)"
abbreviation (input) "version_off \<equiv> (4 :: nat)"
abbreviation (input) "length_off \<equiv> (8 :: nat)"
abbreviation (input) "powerState_off \<equiv> (12 :: nat)"
abbreviation (input) "timeout_off \<equiv> (24 :: nat)"

definition nw_off :: "settings_cfg \<Rightarrow> nat" where
  "nw_off c = 24 + (if DEEP_SLEEP c then 4 else 0)"

definition cur_len :: "settings_cfg \<Rightarrow> nat" where
  "cur_len c = 24 + (if DEEP_SLEEP c then 4 else 0) + (if SKY_XIONE c then 4 else 0)"

fun ps_code :: "power_state \<Rightarrow> 32 word" where
  "ps_code PWRMGR_OFF = 0"
| "ps_code PWRMGR_STANDBY = 1"
| "ps_code PWRMGR_ON = 2"
| "ps_code PWRMGR_STANDBY_LIGHT_SLEEP = 3"
| "ps_code PWRMGR_STANDBY_DEEP_SLEEP = 4"

text \<open>The statics: m\_settings, g\_last\_known\_power\_state, deep\_sleep\_wakeup\_timeout\_sec,
  nwStandbyMode\_gs, powerStateBeforeReboot\_gc, and whether dsleep\_bootup\_event\_src is set; and
  their values when the process starts.\<close>

record settings_state =
  m_settings :: bytes
  g_last_known_power_state :: "32 word"
  wakeup_timeout_sec :: "32 word"
  nwStandby_gs :: bool
  powerStateBeforeReboot_gc :: string
  bootup_event_src :: bool

definition settings_boot :: "settings_cfg \<Rightarrow> settings_state" where
  "settings_boot c = \<lparr>m_settings = replicate (cur_len c + PADDING_SIZE) 0,
     g_last_known_power_state = ps_code PWRMGR_ON, wakeup_timeout_sec = 28800,
     nwStandby_gs = False, powerStateBeforeReboot_gc = '''', bootup_event_src = False\<rparr>"

record settings_world =
  write_ok :: bool
  truncate_ok :: bool
  pwrmgr_restarted :: bool
  plat_get :: "nat \<Rightarrow> 32 word option"

datatype settings_effect =
    SyncSetPowerState "32 word"
  | AddBootupTimer nat
  | InitModeChanged "32 word" "32 word"

section \<open>The file\<close>

text \<open>read (fd, p, n) and write (fd, p, n) at offset 0: the bytes read overwrite the start of the
  structure, the result is their number.\<close>

definition file_read :: "nat \<Rightarrow> bytes \<Rightarrow> bytes \<Rightarrow> int \<times> bytes" where
  "file_read n file m = (int (length (take n file)), put 0 (take n file) m)"

definition file_write :: "bool \<Rightarrow> nat \<Rightarrow> bytes \<Rightarrow> bytes \<Rightarrow> int \<times> bytes" where
  "file_write ok n m file = (if ok then (int n, take n m @ drop n file) else (- 1, file))"

section \<open>Operations\<close>

definition ConvertUIDevToIARMBusPowerState :: "32 word \<Rightarrow> 32 word" where
  "ConvertUIDevToIARMBusPowerState p =
     (if p = 0 then ps_code PWRMGR_OFF
      else if p = 1 then ps_code PWRMGR_ON
      else ps_code PWRMGR_ON)"

definition power_state_name :: "32 word \<Rightarrow> string" where
  "power_state_name p =
     (if p = 0 then ''OFF'' else if p = 1 then ''STANDBY'' else if p = 2 then ''ON''
      else if p = 3 then ''LIGHT_SLEEP'' else if p = 4 then ''DEEP_SLEEP'' else ''UNKNOWN'')"

definition setPowerStateBeforeReboot :: "32 word \<Rightarrow> settings_state \<Rightarrow> settings_state" where
  "setPowerStateBeforeReboot p s = s\<lparr>powerStateBeforeReboot_gc := power_state_name p\<rparr>"

text \<open>The fields that a build adds get the values of the statics.\<close>

definition put_new_fields :: "settings_cfg \<Rightarrow> settings_state \<Rightarrow> bytes \<Rightarrow> bytes" where
  "put_new_fields c s m =
     (let m1 = (if DEEP_SLEEP c then put32 timeout_off (wakeup_timeout_sec s) m else m)
      in if SKY_XIONE c then put (nw_off c) [of_bool (nwStandby_gs s)] m1 else m1)"

text \<open>PLATCO\_BOOTTO\_STANDBY: a device that boots starts in standby, a manager that restarts does
  not.\<close>

definition boot_to_standby :: "settings_cfg \<Rightarrow> settings_world \<Rightarrow> bool" where
  "boot_to_standby c w = (BOOTTO_STANDBY c \<and> \<not> pwrmgr_restarted w)"

definition standby_override :: "settings_cfg \<Rightarrow> settings_world \<Rightarrow> bytes \<Rightarrow> bytes" where
  "standby_override c w m =
     (if boot_to_standby c w then put32 powerState_off (ps_code PWRMGR_STANDBY) m else m)"

text \<open>Version 0, the file of the older uimgr: 16 bytes are read into another structure.\<close>

definition load_v0 ::
  "settings_cfg \<Rightarrow> settings_world \<Rightarrow> bytes \<Rightarrow> settings_state \<Rightarrow> int \<times> bytes \<times> settings_state" where
  "load_v0 c w file s =
     (let m0 = put32 length_off 16 (m_settings s);
          (ret, ui) = file_read 16 file (replicate 48 0)
      in if ret = 16
         then
           (let ps = ConvertUIDevToIARMBusPowerState (get32 12 ui);
                m1 = put32 powerState_off ps
                       (put32 length_off (of_nat (cur_len c))
                         (put32 version_off 1 (put32 magic_off UIMGR_SETTINGS_MAGIC m0)));
                m2 = put_new_fields c s m1;
                file' = snd (file_write (write_ok w) (cur_len c) m2 file)
            in (ret, file', s\<lparr>m_settings := m2, g_last_known_power_state := ps\<rparr>))
         else (0, file, s\<lparr>m_settings := m0\<rparr>))"

text \<open>Version 1: the length in the file is the current one, a shorter one (written by a build with
  fewer fields) or a longer one (the file is then truncated).\<close>

definition load_same ::
  "settings_cfg \<Rightarrow> settings_world \<Rightarrow> bytes \<Rightarrow> settings_state \<Rightarrow> int \<times> bytes \<times> settings_state" where
  "load_same c w file s =
     (let n = cur_len c; (ret, m) = file_read n file (m_settings s) in
      if ret \<noteq> int n then (0, file, s\<lparr>m_settings := m\<rparr>)
      else
        (let s1 = s\<lparr>g_last_known_power_state := get32 powerState_off m\<rparr>;
             s2 = (if DEEP_SLEEP c then s1\<lparr>wakeup_timeout_sec := get32 timeout_off m\<rparr> else s1);
             s3 = (if SKY_XIONE c then s2\<lparr>nwStandby_gs := (m ! nw_off c \<noteq> 0)\<rparr> else s2)
         in (ret, file, s3\<lparr>m_settings := standby_override c w m\<rparr>)))"

definition load_shorter ::
  "settings_cfg \<Rightarrow> settings_world \<Rightarrow> nat \<Rightarrow> bytes \<Rightarrow> settings_state \<Rightarrow> int \<times> bytes \<times> settings_state" where
  "load_shorter c w n file s =
     (let (ret, m) = file_read n file (m_settings s) in
      if ret \<noteq> int n then (0, file, s\<lparr>m_settings := m\<rparr>)
      else
        (let s1 = s\<lparr>g_last_known_power_state := get32 powerState_off m\<rparr>;
             m1 = put32 length_off (of_nat (cur_len c)) (standby_override c w (put_new_fields c s m));
             (ret', file') = file_write (write_ok w) (cur_len c) m1 file
         in (if ret' \<noteq> int (cur_len c) then 0 else ret', file', s1\<lparr>m_settings := m1\<rparr>)))"

definition load_longer ::
  "settings_cfg \<Rightarrow> settings_world \<Rightarrow> bytes \<Rightarrow> settings_state \<Rightarrow> int \<times> bytes \<times> settings_state" where
  "load_longer c w file s =
     (let n = cur_len c; (ret, m) = file_read n file (m_settings s) in
      if ret \<noteq> int n then (0, file, s\<lparr>m_settings := m\<rparr>)
      else
        (let s1 = s\<lparr>g_last_known_power_state := get32 powerState_off m\<rparr>;
             m1 = put32 length_off (of_nat n) m;
             (ret', file') = file_write (write_ok w) n m1 file
         in if ret' \<noteq> int n then (0, file', s1\<lparr>m_settings := m1\<rparr>)
            else if truncate_ok w then (ret', take n file', s1\<lparr>m_settings := m1\<rparr>)
            else (0, file', s1\<lparr>m_settings := m1\<rparr>)))"

definition load_v1 ::
  "settings_cfg \<Rightarrow> settings_world \<Rightarrow> bytes \<Rightarrow> settings_state \<Rightarrow> int \<times> bytes \<times> settings_state" where
  "load_v1 c w file s =
     (let n = unat (get32 length_off (m_settings s)) in
      if n = cur_len c then load_same c w file s
      else if n < cur_len c then load_shorter c w n file s
      else load_longer c w file s)"

definition load_settings ::
  "settings_cfg \<Rightarrow> settings_world \<Rightarrow> bytes \<Rightarrow> settings_state \<Rightarrow> int \<times> bytes \<times> settings_state" where
  "load_settings c w file s =
     (let (ret, m) = file_read 12 file (m_settings s); s1 = s\<lparr>m_settings := m\<rparr> in
      if ret = 12
      then
        (if get32 version_off m = 0 then load_v0 c w file s1
         else if get32 version_off m = 1 then load_v1 c w file s1
         else (0, file, s1))
      else (0, file, if boot_to_standby c w then s1\<lparr>powerStateBeforeReboot_gc := ''UNKNOWN''\<rparr> else s1))"

definition create_settings ::
  "settings_cfg \<Rightarrow> settings_world \<Rightarrow> bytes \<Rightarrow> settings_state \<Rightarrow> int \<times> bytes \<times> settings_state" where
  "create_settings c w file s =
     (let m1 = put32 powerState_off (ps_code PWRMGR_ON)
                 (put32 length_off (of_nat (cur_len c))
                   (put32 version_off 1 (put32 magic_off UIMGR_SETTINGS_MAGIC (m_settings s))));
          m2 = standby_override c w (put_new_fields c s m1);
          (ret, file') = file_write (write_ok w) (cur_len c) m2 file
      in (ret, file', s\<lparr>m_settings := m2\<rparr>))"

text \<open>The synchronisation with the platform: set and read back until they agree, ten times at
  most.  The argument counts the rounds left after this one; an answer that fails leaves the
  variable.  The result is the last state read and the number of rounds.\<close>

definition read_plat :: "(nat \<Rightarrow> 32 word option) \<Rightarrow> nat \<Rightarrow> 32 word \<Rightarrow> 32 word" where
  "read_plat g k st = (case g k of Some v \<Rightarrow> v | None \<Rightarrow> st)"

primrec sync_loop ::
  "(nat \<Rightarrow> 32 word option) \<Rightarrow> 32 word \<Rightarrow> nat \<Rightarrow> nat \<Rightarrow> 32 word \<Rightarrow> 32 word \<times> nat" where
  "sync_loop g p 0 k st = (read_plat g k st, 1)"
| "sync_loop g p (Suc left) k st =
     (let st' = read_plat g k st in
      if st' \<noteq> p then (let (r, n) = sync_loop g p left (k + 1) st' in (r, n + 1)) else (st', 1))"

definition sync_platform ::
  "settings_cfg \<Rightarrow> settings_world \<Rightarrow> int \<Rightarrow> bytes \<Rightarrow> settings_state \<Rightarrow>
   int \<times> bytes \<times> settings_state \<times> settings_effect list" where
  "sync_platform c w ret file s =
     (case plat_get w 0 of
        None \<Rightarrow> (- 1, file, s, [])
      | Some st \<Rightarrow>
          (let p = get32 powerState_off (m_settings s);
               (s1, es) =
                 (if p = st then (s, [])
                  else
                    (let (st', n) = sync_loop (plat_get w) p 9 1 st in
                     (if st' \<noteq> p then s\<lparr>m_settings := put32 powerState_off st' (m_settings s)\<rparr> else s,
                      replicate n (SyncSetPowerState p))));
               (ret', file') = file_write (write_ok w) (unat (get32 length_off (m_settings s1)))
                                 (m_settings s1) file
           in (ret', file', s1, es)))"

text \<open>\_InitSettings, from the file it opened (an empty one when it had to create it).\<close>

definition InitSettings ::
  "settings_cfg \<Rightarrow> settings_world \<Rightarrow> bytes \<Rightarrow> settings_state \<Rightarrow>
   int \<times> bytes \<times> settings_state \<times> settings_effect list" where
  "InitSettings c w file s =
     (let (ret1, file1, s1) = load_settings c w file s;
          (ret2, file2, s2) = (if ret1 = 0 then create_settings c w file1 s1 else (ret1, file1, s1));
          boot = (DEEP_SLEEP c \<and> get32 powerState_off (m_settings s2) = ps_code PWRMGR_STANDBY_DEEP_SLEEP);
          s3 = (if boot then s2\<lparr>bootup_event_src := True\<rparr> else s2);
          s4 = setPowerStateBeforeReboot (g_last_known_power_state s3) s3;
          (ret5, file5, s5, es5) = sync_platform c w ret2 file2 s4;
          ev = (if boot_to_standby c w then InitModeChanged (ps_code PWRMGR_OFF) (ps_code PWRMGR_STANDBY)
                else InitModeChanged (g_last_known_power_state s5) (get32 powerState_off (m_settings s5)))
      in (ret5, file5, s5, (if boot then [AddBootupTimer 3600] else []) @ es5 @ [ev]))"

text \<open>\_WriteSettings: the file is opened for writing, None when that fails.\<close>

definition WriteSettings :: "bool \<Rightarrow> bytes option \<Rightarrow> settings_state \<Rightarrow> int \<times> bytes option" where
  "WriteSettings ok file s = (case file of
       None \<Rightarrow> (- 1, None)
     | Some f \<Rightarrow>
         (let (ret, f') = file_write ok (unat (get32 length_off (m_settings s))) (m_settings s) f
          in (ret, Some f')))"

section \<open>Lemmas\<close>

lemma get32_take: "i + 4 \<le> k \<Longrightarrow> get32 i (take k m) = get32 i m"
  by (simp add: get32_def drop_take min_absorb1)

lemma get32_append: "i + 4 \<le> length bs \<Longrightarrow> get32 i (bs @ xs) = get32 i bs"
  by (simp add: get32_def)

lemma get32_cong: "take k m = take k m' \<Longrightarrow> i + 4 \<le> k \<Longrightarrow> get32 i m = get32 i m'"
  by (metis get32_take)

lemma put_0: "put 0 bs m = bs @ drop (length bs) m"
  by (simp add: put_def)

lemma take_put32_other [simp]: "k \<le> off \<Longrightarrow> off \<le> length m \<Longrightarrow> take k (put32 off v m) = take k m"
  by (simp add: put32_def put_def)

lemma take_put_other [simp]: "k \<le> off \<Longrightarrow> off \<le> length m \<Longrightarrow> take k (put off bs m) = take k m"
  by (simp add: put_def)

definition mem_ok :: "settings_cfg \<Rightarrow> bytes \<Rightarrow> bool" where
  "mem_ok c m = (length m = cur_len c + PADDING_SIZE)"

lemma cur_len_bounds: "24 \<le> cur_len c" "cur_len c \<le> 32" "nw_off c + 1 \<le> cur_len c + 1" "24 \<le> nw_off c"
    "SKY_XIONE c \<Longrightarrow> nw_off c + 4 \<le> cur_len c" "DEEP_SLEEP c \<Longrightarrow> 28 \<le> cur_len c"
    "DEEP_SLEEP c \<Longrightarrow> 28 \<le> nw_off c"
  by (auto simp: cur_len_def nw_off_def)

lemma unat_cur_len [simp]: "unat (word_of_nat (cur_len c) :: 32 word) = cur_len c"
  by (auto simp: cur_len_def)

lemma mem_ok_len: "mem_ok c m \<Longrightarrow> 56 \<le> length m" "mem_ok c m \<Longrightarrow> length m = cur_len c + 32"
  using cur_len_bounds(1) [of c] by (auto simp: mem_ok_def PADDING_SIZE_def)

lemma mem_ok_put32 [simp]: "mem_ok c m \<Longrightarrow> off + 4 \<le> 56 \<Longrightarrow> mem_ok c (put32 off v m)"
  using mem_ok_len [of c m] by (simp add: mem_ok_def PADDING_SIZE_def)

lemma mem_ok_new_fields [simp]: "mem_ok c m \<Longrightarrow> mem_ok c (put_new_fields c s m)"
  using mem_ok_len [of c m] cur_len_bounds [of c]
  by (auto simp: put_new_fields_def mem_ok_def PADDING_SIZE_def Let_def)

lemma mem_ok_override [simp]: "mem_ok c m \<Longrightarrow> mem_ok c (standby_override c w m)"
  by (simp add: standby_override_def)

lemma get32_new_fields [simp]:
  assumes "mem_ok c m" and "i + 4 \<le> 24"
  shows "get32 i (put_new_fields c s m) = get32 i m"
proof -
  have "take 24 (put_new_fields c s m) = take 24 m"
    using mem_ok_len [OF assms(1)] cur_len_bounds [of c]
    by (auto simp: put_new_fields_def Let_def)
  then show ?thesis using assms(2) by (rule get32_cong)
qed

lemma get32_override [simp]:
  "mem_ok c m \<Longrightarrow> i + 4 \<le> 12 \<Longrightarrow> get32 i (standby_override c w m) = get32 i m"
  using mem_ok_len [of c m] by (simp add: standby_override_def)

text \<open>What a read leaves in the structure.\<close>

lemma file_read_mem:
  assumes "file_read n file m = (ret, m')" and "mem_ok c m" and "n \<le> cur_len c"
  shows "mem_ok c m'" "ret = int (length (take n file))"
    "ret = int n \<Longrightarrow> m' = take n file @ drop n m"
    "ret = int n \<Longrightarrow> take n m' = take n file"
    "ret = int n \<Longrightarrow> i + 4 \<le> n \<Longrightarrow> get32 i m' = get32 i file"
proof -
  have m': "m' = take n file @ drop (length (take n file)) m" and r: "ret = int (length (take n file))"
    using assms(1) by (auto simp: file_read_def put_0)
  have "length (take n file) \<le> length m" using assms(3) mem_ok_len(2) [OF assms(2)] by simp
  with m' show "mem_ok c m'" using assms(2) by (simp add: mem_ok_def)
  show "ret = int (length (take n file))" by (rule r)
  assume "ret = int n"
  then have l: "length (take n file) = n" using r by linarith
  with m' show e: "m' = take n file @ drop n m" by simp
  show "take n m' = take n file" using e l by simp
  assume "i + 4 \<le> n"
  with e l have "get32 i m' = get32 i (take n file)" by (simp add: get32_append)
  then show "get32 i m' = get32 i file" using \<open>i + 4 \<le> n\<close> by (simp add: get32_take)
qed

text \<open>The head of the structure (magic, version, length) agrees with the file after the first
  read, and further reads keep it.\<close>

lemma file_read_keeps_head:
  assumes "file_read n file m = (ret, m')" and "take 12 m = take 12 file" and "n \<le> length m"
  shows "take 12 m' = take 12 file"
proof -
  have m': "m' = take n file @ drop (length (take n file)) m"
    using assms(1) by (auto simp: file_read_def put_0)
  show ?thesis
  proof (cases "12 \<le> length (take n file)")
    case True
    then have "take 12 (take n file) = take 12 file" by (auto simp: min_def split: if_splits)
    moreover have "take 12 m' = take 12 (take n file)" using True unfolding m' by (subst take_append) simp
    ultimately show ?thesis by simp
  next
    case False
    have "take 12 m' = take n file @ take (12 - length (take n file)) (drop (length (take n file)) m)"
    proof -
      have "take 12 (take n file) = take n file" using False by (intro take_all) linarith
      then show ?thesis by (simp only: m' take_append)
    qed
    also have "\<dots> = take n file @ drop (length (take n file)) (take 12 m)"
      by (simp only: drop_take)
    also have "take n file = take (length (take n file)) (take 12 m)"
      using False by (cases "length file \<le> n") (simp_all add: assms(2))
    then have "take n file @ drop (length (take n file)) (take 12 m) = take 12 m"
      by (metis append_take_drop_id)
    finally show ?thesis using assms(2) by simp
  qed
qed

definition saved :: "settings_cfg \<Rightarrow> bytes \<Rightarrow> bytes \<Rightarrow> bool" where
  "saved c file m = (take (cur_len c) file = take (cur_len c) m)"

definition head_ok :: "settings_cfg \<Rightarrow> bytes \<Rightarrow> bool" where
  "head_ok c m = (get32 version_off m = 1 \<and> get32 length_off m = of_nat (cur_len c))"

definition loaded :: "settings_cfg \<Rightarrow> settings_world \<Rightarrow> int \<Rightarrow> bytes \<Rightarrow> bytes \<Rightarrow> bool" where
  "loaded c w ret file m =
     (mem_ok c m \<and> (if ret = 0 then True
                    else 0 < ret \<and> head_ok c m \<and> (boot_to_standby c w \<or> saved c file m)))"

lemma saved_write:
  assumes "file_write True (cur_len c) m file = (ret, file')" and "mem_ok c m"
  shows "saved c file' m" "ret = int (cur_len c)"
  using assms mem_ok_len(2) [OF assms(2)] by (auto simp: saved_def file_write_def)

lemma load_same_ok:
  assumes "load_same c w file s = (ret, file', s')" and "mem_ok c (m_settings s)"
    and "take 12 (m_settings s) = take 12 file" and "head_ok c (m_settings s)"
  shows "loaded c w ret file' (m_settings s')"
proof -
  obtain r m where rd: "file_read (cur_len c) file (m_settings s) = (r, m)" by fastforce
  note f = file_read_mem [OF rd assms(2) order_refl]
  have n: "cur_len c \<le> length (m_settings s)" using mem_ok_len(2) [OF assms(2)] by simp
  have "take 12 m = take 12 (m_settings s)" using file_read_keeps_head [OF rd assms(3) n] assms(3) by simp
  then have h: "head_ok c m"
    using assms(4) by (auto simp: head_ok_def get32_cong [of 12 m "m_settings s"])
  show ?thesis
  proof (cases "r = int (cur_len c)")
    case True
    have "0 < cur_len c" using cur_len_bounds(1) [of c] by linarith
    moreover have "ret = int (cur_len c)" "file' = file" "m_settings s' = standby_override c w m"
      using True assms(1) by (auto simp: load_same_def rd Let_def split: if_splits)
    moreover have "boot_to_standby c w \<or> saved c file (standby_override c w m)"
      using f(4) True by (auto simp: saved_def standby_override_def)
    moreover have "head_ok c (standby_override c w m)" using f(1) h by (simp add: head_ok_def)
    ultimately show ?thesis using f(1) by (auto simp: loaded_def)
  next
    case False
    then have "load_same c w file s = (0, file, s\<lparr>m_settings := m\<rparr>)" by (simp add: load_same_def rd)
    with assms(1) f(1) show ?thesis by (auto simp: loaded_def)
  qed
qed

lemma load_shorter_ok:
  assumes "load_shorter c w n file s = (ret, file', s')" and "mem_ok c (m_settings s)"
    and "take 12 (m_settings s) = take 12 file" and "get32 version_off (m_settings s) = 1"
    and "n \<le> cur_len c" and "write_ok w"
  shows "loaded c w ret file' (m_settings s')"
proof -
  obtain r m where rd: "file_read n file (m_settings s) = (r, m)" by fastforce
  note f = file_read_mem [OF rd assms(2,5)]
  have n: "n \<le> length (m_settings s)" using mem_ok_len(2) [OF assms(2)] assms(5) by simp
  have "take 12 m = take 12 (m_settings s)" using file_read_keeps_head [OF rd assms(3) n] assms(3) by simp
  then have h: "get32 version_off m = 1"
    using assms(4) by (simp add: get32_cong [of 12 m "m_settings s"])
  show ?thesis
  proof (cases "r = int n")
    case True
    define m1 where "m1 = put32 length_off (of_nat (cur_len c)) (standby_override c w (put_new_fields c s m))"
    obtain r' f1 where wr: "file_write True (cur_len c) m1 file = (r', f1)" by fastforce
    have "mem_ok c m1" using f(1) by (simp add: m1_def)
    note sv = saved_write [OF wr this]
    have "head_ok c m1" using f(1) h mem_ok_len [of c] by (simp add: m1_def head_ok_def)
    moreover have "0 < cur_len c" using cur_len_bounds(1) [of c] by linarith
    ultimately show ?thesis using True assms(1,6) sv \<open>mem_ok c m1\<close>
      by (auto simp: load_shorter_def rd wr loaded_def Let_def m1_def [symmetric])
  next
    case False
    then have "load_shorter c w n file s = (0, file, s\<lparr>m_settings := m\<rparr>)" by (simp add: load_shorter_def rd)
    with assms(1) f(1) show ?thesis by (auto simp: loaded_def)
  qed
qed

lemma load_longer_ok:
  assumes "load_longer c w file s = (ret, file', s')" and "mem_ok c (m_settings s)"
    and "take 12 (m_settings s) = take 12 file" and "get32 version_off (m_settings s) = 1"
    and "write_ok w" and "truncate_ok w"
  shows "loaded c w ret file' (m_settings s')"
proof -
  obtain r m where rd: "file_read (cur_len c) file (m_settings s) = (r, m)" by fastforce
  note f = file_read_mem [OF rd assms(2) order_refl]
  have n: "cur_len c \<le> length (m_settings s)" using mem_ok_len(2) [OF assms(2)] by simp
  have "take 12 m = take 12 (m_settings s)" using file_read_keeps_head [OF rd assms(3) n] assms(3) by simp
  then have h: "get32 version_off m = 1"
    using assms(4) by (simp add: get32_cong [of 12 m "m_settings s"])
  show ?thesis
  proof (cases "r = int (cur_len c)")
    case True
    define m1 where "m1 = put32 length_off (of_nat (cur_len c)) m"
    obtain r' f1 where wr: "file_write True (cur_len c) m1 file = (r', f1)" by fastforce
    have "mem_ok c m1" using f(1) by (simp add: m1_def)
    note sv = saved_write [OF wr this]
    have "head_ok c m1" using f(1) h mem_ok_len [of c] by (simp add: m1_def head_ok_def)
    moreover have "0 < cur_len c" using cur_len_bounds(1) [of c] by linarith
    ultimately show ?thesis using True assms(1,5,6) sv \<open>mem_ok c m1\<close>
      by (auto simp: load_longer_def rd wr loaded_def saved_def Let_def m1_def [symmetric])
  next
    case False
    then have "load_longer c w file s = (0, file, s\<lparr>m_settings := m\<rparr>)" by (simp add: load_longer_def rd)
    with assms(1) f(1) show ?thesis by (auto simp: loaded_def)
  qed
qed

lemma load_v0_ok:
  assumes "load_v0 c w file s = (ret, file', s')" and "mem_ok c (m_settings s)" and "write_ok w"
  shows "loaded c w ret file' (m_settings s')"
proof -
  obtain r ui where rd: "file_read 16 file (replicate 48 0) = (r, ui)" by fastforce
  show ?thesis
  proof (cases "r = 16")
    case True
    define m2 where "m2 = put_new_fields c s (put32 powerState_off
        (ConvertUIDevToIARMBusPowerState (get32 12 ui)) (put32 length_off (of_nat (cur_len c))
         (put32 version_off 1 (put32 magic_off UIMGR_SETTINGS_MAGIC (put32 length_off 16 (m_settings s))))))"
    have m2: "mem_ok c m2" using assms(2) by (simp add: m2_def)
    obtain r' f1 where wr: "file_write True (cur_len c) m2 file = (r', f1)" by fastforce
    note sv = saved_write [OF wr m2]
    have "head_ok c m2" using assms(2) mem_ok_len [of c] by (simp add: m2_def head_ok_def)
    with True assms(1,3) sv m2 show ?thesis
      by (auto simp: load_v0_def rd wr loaded_def Let_def m2_def [symmetric])
  next
    case False
    with assms show ?thesis by (auto simp: load_v0_def rd loaded_def Let_def)
  qed
qed

lemma load_settings_ok:
  assumes "load_settings c w file s = (ret, file', s')" and "mem_ok c (m_settings s)"
    and "write_ok w" and "truncate_ok w"
  shows "loaded c w ret file' (m_settings s')"
proof -
  obtain r m where rd: "file_read 12 file (m_settings s) = (r, m)" by fastforce
  have n: "12 \<le> cur_len c" using cur_len_bounds(1) [of c] by simp
  note f = file_read_mem [OF rd assms(2) n]
  show ?thesis
  proof (cases "r = 12")
    case False
    with assms(1) f(1) show ?thesis
      by (auto simp: load_settings_def rd loaded_def Let_def split: if_splits)
  next
    case True
    then have h: "take 12 m = take 12 file" using f(4) by simp
    consider "get32 version_off m = 0" | "get32 version_off m = 1"
      | "get32 version_off m \<noteq> 0" "get32 version_off m \<noteq> 1" by blast
    then show ?thesis
    proof cases
      case 1
      with True assms(1) have "load_v0 c w file (s\<lparr>m_settings := m\<rparr>) = (ret, file', s')"
        by (simp add: load_settings_def rd)
      from load_v0_ok [OF this] f(1) assms(3) show ?thesis by simp
    next
      case 2
      let ?s = "s\<lparr>m_settings := m\<rparr>" and ?n = "unat (get32 length_off m)"
      from 2 True assms(1) have l: "load_v1 c w file ?s = (ret, file', s')"
        by (simp add: load_settings_def rd)
      consider "?n = cur_len c" | "?n < cur_len c" | "cur_len c < ?n" by linarith
      then show ?thesis
      proof cases
        case a: 1
        then have "head_ok c m" using 2 by (simp add: head_ok_def a [symmetric])
        have "load_same c w file ?s = (ret, file', s')" using l a by (simp add: load_v1_def)
        from load_same_ok [OF this] \<open>head_ok c m\<close> h f(1) show ?thesis by simp
      next
        case b: 2
        then have "load_shorter c w ?n file ?s = (ret, file', s')" using l by (simp add: load_v1_def)
        from load_shorter_ok [OF this] b h f(1) 2 assms(3) show ?thesis by simp
      next
        case c: 3
        then have "load_longer c w file ?s = (ret, file', s')" using l by (simp add: load_v1_def)
        from load_longer_ok [OF this] h f(1) 2 assms(3,4) show ?thesis by simp
      qed
    next
      case 3
      with True assms(1) f(1) show ?thesis
        by (auto simp: load_settings_def rd loaded_def)
    qed
  qed
qed

lemma mem_ok_boot [simp]: "mem_ok c (m_settings (settings_boot c))"
  by (simp add: mem_ok_def settings_boot_def)

lemma create_settings_ok:
  assumes "create_settings c w file s = (ret, file', s')" and "mem_ok c (m_settings s)" and "write_ok w"
  shows "mem_ok c (m_settings s') \<and> head_ok c (m_settings s') \<and> saved c file' (m_settings s') \<and>
         ret = int (cur_len c)"
proof -
  define m2 where "m2 = standby_override c w (put_new_fields c s (put32 powerState_off (ps_code PWRMGR_ON)
      (put32 length_off (of_nat (cur_len c)) (put32 version_off 1 (put32 magic_off UIMGR_SETTINGS_MAGIC
        (m_settings s))))))"
  have m2: "mem_ok c m2" using assms(2) by (simp add: m2_def)
  obtain r f where wr: "file_write True (cur_len c) m2 file = (r, f)" by fastforce
  note sv = saved_write [OF wr m2]
  have "head_ok c m2" using assms(2) mem_ok_len [of c] by (simp add: m2_def head_ok_def)
  moreover have "create_settings c w file s = (r, f, s\<lparr>m_settings := m2\<rparr>)"
    unfolding create_settings_def Let_def m2_def [symmetric] using assms(3) wr by simp
  ultimately show ?thesis using assms(1) sv m2 by simp
qed

text \<open>The synchronisation keeps the structure valid and, where it happens, saves it.\<close>

lemma sync_platform_ok:
  assumes "sync_platform c w ret file s = (ret', file', s', es)" and "mem_ok c (m_settings s)"
    and "head_ok c (m_settings s)" and "write_ok w"
  shows "mem_ok c (m_settings s') \<and> head_ok c (m_settings s') \<and>
         (case plat_get w 0 of None \<Rightarrow> file' = file \<and> s' = s | Some _ \<Rightarrow> saved c file' (m_settings s')) \<and>
         g_last_known_power_state s' = g_last_known_power_state s"
proof (cases "plat_get w 0")
  case None
  with assms show ?thesis by (simp add: sync_platform_def)
next
  case (Some st)
  define p where "p = get32 powerState_off (m_settings s)"
  obtain st' n where lp: "sync_loop (plat_get w) p 9 1 st = (st', n)" by fastforce
  define s1 where "s1 = (if p = st \<or> st' = p then s
      else s\<lparr>m_settings := put32 powerState_off st' (m_settings s)\<rparr>)"
  have ok: "mem_ok c (m_settings s1)" "head_ok c (m_settings s1)"
    "g_last_known_power_state s1 = g_last_known_power_state s"
    using assms(2,3) mem_ok_len [of c "m_settings s"] by (auto simp: s1_def head_ok_def)
  then have l: "unat (get32 length_off (m_settings s1)) = cur_len c" by (simp add: head_ok_def)
  obtain r f where wr: "file_write True (cur_len c) (m_settings s1) file = (r, f)" by fastforce
  have "s' = s1 \<and> file' = f"
    using assms(1) Some wr l lp
    by (cases "p = st"; cases "st' = p")
       (auto simp: sync_platform_def Let_def p_def [symmetric] s1_def assms(4))
  then show ?thesis using saved_write [OF wr ok(1)] ok Some by simp
qed

text \<open>Reading back what was saved.\<close>

lemma saved_length: "saved c file m \<Longrightarrow> mem_ok c m \<Longrightarrow> cur_len c \<le> length file"
proof -
  assume "saved c file m" "mem_ok c m"
  then have "length (take (cur_len c) file) = cur_len c"
    using mem_ok_len(2) [of c m] by (simp add: saved_def)
  then show ?thesis by simp
qed

lemma saved_get32: "saved c file m \<Longrightarrow> i + 4 \<le> cur_len c \<Longrightarrow> get32 i file = get32 i m"
  unfolding saved_def by (rule get32_cong)

lemma first_read:
  assumes "mem_ok c (m_settings s)" and "12 \<le> length file"
  obtains m where "file_read 12 file (m_settings s) = (12, m)" and "mem_ok c m"
    and "take 12 m = take 12 file" and "drop 12 m = drop 12 (m_settings s)"
proof -
  obtain r m where rd: "file_read 12 file (m_settings s) = (r, m)" by fastforce
  have n: "12 \<le> cur_len c" using cur_len_bounds(1) [of c] by simp
  note f = file_read_mem [OF rd assms(1) n]
  have "r = 12" using f(2) assms(2) by simp
  with f(3) assms(2) have "drop 12 m = drop 12 (m_settings s)" by (simp add: min_def)
  with \<open>r = 12\<close> rd f(1,4) show ?thesis by (intro that [of m]) simp_all
qed

lemma load_settings_v1:
  assumes "mem_ok c2 (m_settings s)" and "head_ok c1 m" and "saved c1 file m" and "mem_ok c1 m"
  obtains m' where "mem_ok c2 m'" and "take 12 m' = take 12 file" and "drop 12 m' = drop 12 (m_settings s)"
    and "load_settings c2 w file s =
      (if cur_len c1 = cur_len c2 then load_same c2 w file (s\<lparr>m_settings := m'\<rparr>)
       else if cur_len c1 < cur_len c2 then load_shorter c2 w (cur_len c1) file (s\<lparr>m_settings := m'\<rparr>)
       else load_longer c2 w file (s\<lparr>m_settings := m'\<rparr>))"
proof -
  have l: "12 \<le> length file" using saved_length [OF assms(3,4)] cur_len_bounds(1) [of c1] by simp
  obtain m' where m': "file_read 12 file (m_settings s) = (12, m')" "mem_ok c2 m'"
    "take 12 m' = take 12 file" "drop 12 m' = drop 12 (m_settings s)"
    using first_read [OF assms(1) l] by blast
  have "get32 version_off m' = 1" "get32 length_off m' = of_nat (cur_len c1)"
    using get32_cong [OF m'(3)] saved_get32 [OF assms(3)] assms(2) cur_len_bounds(1) [of c1]
    by (simp_all add: head_ok_def)
  then have "load_settings c2 w file s =
      (if cur_len c1 = cur_len c2 then load_same c2 w file (s\<lparr>m_settings := m'\<rparr>)
       else if cur_len c1 < cur_len c2 then load_shorter c2 w (cur_len c1) file (s\<lparr>m_settings := m'\<rparr>)
       else load_longer c2 w file (s\<lparr>m_settings := m'\<rparr>))"
    by (simp add: load_settings_def m'(1) load_v1_def Let_def)
  with m' show ?thesis by (intro that)
qed

lemma file_read_full:
  "n \<le> length file \<Longrightarrow> file_read n file m = (int n, take n file @ drop n m)"
  by (simp add: file_read_def put_0)

lemma drop_boot:
  assumes "drop 12 m' = drop 12 (m_settings (settings_boot c))"
  shows "drop (cur_len c) m' = replicate 32 0"
proof -
  have "drop (cur_len c) m' = drop (cur_len c - 12) (drop 12 m')"
    using cur_len_bounds(1) [of c] by simp
  also have "\<dots> = drop (cur_len c) (replicate (cur_len c + 32) 0)"
    using assms cur_len_bounds(1) [of c] by (simp add: settings_boot_def PADDING_SIZE_def)
  finally show ?thesis by (simp add: drop_replicate)
qed

lemma load_same_build:
  assumes "head_ok c m" and "saved c file m" and "mem_ok c m"
  shows "load_settings c w file (settings_boot c) =
    (int (cur_len c), file, (settings_boot c)
       \<lparr>m_settings := standby_override c w (take (cur_len c) file @ replicate 32 0),
        g_last_known_power_state := get32 powerState_off m,
        wakeup_timeout_sec := (if DEEP_SLEEP c then get32 timeout_off m else 28800),
        nwStandby_gs := (SKY_XIONE c \<and> m ! nw_off c \<noteq> 0)\<rparr>)"
proof -
  obtain m' where m': "mem_ok c m'" "drop 12 m' = drop 12 (m_settings (settings_boot c))"
    and ld: "load_settings c w file (settings_boot c) =
      load_same c w file (settings_boot c\<lparr>m_settings := m'\<rparr>)"
    using load_settings_v1 [OF mem_ok_boot [of c] assms, where w = w] by metis
  let ?m = "take (cur_len c) file @ replicate 32 0"
  have rd: "file_read (cur_len c) file m' = (int (cur_len c), ?m)"
    using file_read_full [OF saved_length [OF assms(2,3)]] drop_boot [OF m'(2)] by simp
  have l: "cur_len c \<le> length file" by (rule saved_length [OF assms(2,3)])
  have g: "get32 i ?m = get32 i m" if "i + 4 \<le> cur_len c" for i
    using that saved_get32 [OF assms(2)] l by (simp add: get32_append get32_take)
  have "nw_off c < cur_len c" if "SKY_XIONE c" using cur_len_bounds(5) [OF that] by simp
  moreover have "?m ! i = m ! i" if "i < cur_len c" for i
  proof -
    have "?m ! i = take (cur_len c) file ! i" using that l by (simp add: nth_append)
    also have "\<dots> = take (cur_len c) m ! i" using assms(2) by (simp add: saved_def)
    finally show ?thesis using that by simp
  qed
  ultimately have nw: "SKY_XIONE c \<Longrightarrow> ?m ! nw_off c = m ! nw_off c" by blast
  show ?thesis
    using g [of 12] g [of 24] nw cur_len_bounds [of c] unfolding ld
    by (simp add: load_same_def rd Let_def settings_boot_def)
qed

lemma load_other_build:
  assumes "head_ok c1 m" and "saved c1 file m" and "mem_ok c1 m" and "write_ok w" and "truncate_ok w"
    and "load_settings c2 w file (settings_boot c2) = (ret, file', s')" and "\<not> boot_to_standby c2 w"
  shows "get32 powerState_off (m_settings s') = get32 powerState_off m \<and>
         g_last_known_power_state s' = get32 powerState_off m \<and>
         0 < ret \<and> mem_ok c2 (m_settings s') \<and> head_ok c2 (m_settings s') \<and> saved c2 file' (m_settings s')"
proof -
  let ?s = "settings_boot c2"
  have L: "loaded c2 w ret file' (m_settings s')"
    by (rule load_settings_ok [OF assms(6) mem_ok_boot assms(4,5)])
  obtain m' where m': "mem_ok c2 m'"
    and ld: "load_settings c2 w file ?s =
      (if cur_len c1 = cur_len c2 then load_same c2 w file (?s\<lparr>m_settings := m'\<rparr>)
       else if cur_len c1 < cur_len c2 then load_shorter c2 w (cur_len c1) file (?s\<lparr>m_settings := m'\<rparr>)
       else load_longer c2 w file (?s\<lparr>m_settings := m'\<rparr>))"
    using load_settings_v1 [OF mem_ok_boot assms(1-3)] by metis
  let ?n = "min (cur_len c1) (cur_len c2)"
  have n: "24 \<le> ?n" using cur_len_bounds(1) [of c1] cur_len_bounds(1) [of c2] by simp
  have l: "?n \<le> length file" using saved_length [OF assms(2,3)] by simp
  let ?m = "take ?n file @ drop ?n m'"
  have rd: "file_read ?n file m' = (int ?n, ?m)" by (rule file_read_full [OF l])
  have ok: "mem_ok c2 ?m" using file_read_mem(1) [OF rd m'] by simp
  have g: "get32 powerState_off ?m = get32 powerState_off m"
    using n l saved_get32 [OF assms(2), of 12] by (simp add: get32_append get32_take)
  have pw: "get32 powerState_off (put32 length_off v ?m) = get32 powerState_off m" for v
    using mem_ok_len(1) [OF ok] g by (subst get32_put32_other) auto
  have "0 < ret \<and> get32 powerState_off (m_settings s') = get32 powerState_off m \<and>
        g_last_known_power_state s' = get32 powerState_off m"
  proof (cases "cur_len c1" "cur_len c2" rule: linorder_cases)
    case less
    with assms(4,6,7) rd g ok ld show ?thesis using n mem_ok_len [of c2]
      by (auto simp: load_shorter_def file_write_def Let_def standby_override_def min_def)
  next
    case equal
    with assms(6,7) rd g ld n show ?thesis
      by (auto simp: load_same_def Let_def standby_override_def split: if_splits)
  next
    case greater
    with assms(4-7) rd g ok ld pw show ?thesis using n
      by (auto simp: load_longer_def file_write_def Let_def min_def)
  qed
  with L assms(7) show ?thesis by (auto simp: loaded_def)
qed

text \<open>The part of \_InitSettings after a file that could be read.\<close>

definition after_load ::
  "settings_cfg \<Rightarrow> settings_world \<Rightarrow> settings_state \<Rightarrow> settings_state \<times> settings_effect list" where
  "after_load c w s =
     (let boot = (DEEP_SLEEP c \<and> get32 powerState_off (m_settings s) = ps_code PWRMGR_STANDBY_DEEP_SLEEP)
      in (setPowerStateBeforeReboot (g_last_known_power_state s)
            (if boot then s\<lparr>bootup_event_src := True\<rparr> else s),
          if boot then [AddBootupTimer 3600] else []))"

lemma after_load_fields [simp]:
  "m_settings (fst (after_load c w s)) = m_settings s"
  "g_last_known_power_state (fst (after_load c w s)) = g_last_known_power_state s"
  "wakeup_timeout_sec (fst (after_load c w s)) = wakeup_timeout_sec s"
  "nwStandby_gs (fst (after_load c w s)) = nwStandby_gs s"
  "powerStateBeforeReboot_gc (fst (after_load c w s)) = power_state_name (g_last_known_power_state s)"
  "bootup_event_src (fst (after_load c w s)) = (bootup_event_src s \<or>
     DEEP_SLEEP c \<and> get32 powerState_off (m_settings s) = ps_code PWRMGR_STANDBY_DEEP_SLEEP)"
  by (auto simp: after_load_def setPowerStateBeforeReboot_def Let_def)

lemma InitSettings_alt:
  "InitSettings c w file s =
    (let (ret1, file1, s1) = load_settings c w file s;
         (ret2, file2, s2) = (if ret1 = 0 then create_settings c w file1 s1 else (ret1, file1, s1));
         (s4, es4) = after_load c w s2;
         (ret5, file5, s5, es5) = sync_platform c w ret2 file2 s4
     in (ret5, file5, s5, es4 @ es5 @
          [if boot_to_standby c w then InitModeChanged (ps_code PWRMGR_OFF) (ps_code PWRMGR_STANDBY)
           else InitModeChanged (g_last_known_power_state s5) (get32 powerState_off (m_settings s5))]))"
  by (simp add: InitSettings_def after_load_def Let_def setPowerStateBeforeReboot_def split: prod.splits)

lemma WriteSettings_saves:
  assumes "WriteSettings True (Some f) s = (r, Some f')" and "mem_ok c (m_settings s)"
    and "head_ok c (m_settings s)"
  shows "saved c f' (m_settings s)"
  using assms saved_write(1) [of c "m_settings s" f, OF _ assms(2)]
  by (auto simp: WriteSettings_def head_ok_def split: prod.splits)

lemma saved_rewrite:
  assumes "saved c f m" and "mem_ok c m" and "take (cur_len c) m' = take (cur_len c) m"
  shows "file_write True (cur_len c) m' f = (int (cur_len c), f)"
  using assms by (simp add: file_write_def saved_def) (metis append_take_drop_id)

section \<open>A start\<close>

text \<open>A start on what \_WriteSettings left, and on any file.\<close>

lemma restart_loads_saved:
  assumes "mem_ok c (m_settings s)" and "head_ok c (m_settings s)"
    and "WriteSettings True (Some f) s = (r, Some f')"
    and "\<not> boot_to_standby c w" and "write_ok w"
    and "plat_get w 0 \<in> {None, Some (get32 powerState_off (m_settings s))}"
    and "InitSettings c w f' (settings_boot c) = (ret, f'', s', es)"
  shows "f'' = f' \<and> take (cur_len c) (m_settings s') = take (cur_len c) (m_settings s) \<and>
    g_last_known_power_state s' = get32 powerState_off (m_settings s) \<and>
    powerStateBeforeReboot_gc s' = power_state_name (get32 powerState_off (m_settings s)) \<and>
    wakeup_timeout_sec s' = (if DEEP_SLEEP c then get32 timeout_off (m_settings s) else 28800) \<and>
    nwStandby_gs s' = (SKY_XIONE c \<and> m_settings s ! nw_off c \<noteq> 0) \<and>
    bootup_event_src s' = (DEEP_SLEEP c \<and> get32 powerState_off (m_settings s) = ps_code PWRMGR_STANDBY_DEEP_SLEEP) \<and>
    es = (if DEEP_SLEEP c \<and> get32 powerState_off (m_settings s) = ps_code PWRMGR_STANDBY_DEEP_SLEEP
          then [AddBootupTimer 3600] else []) @
         [InitModeChanged (get32 powerState_off (m_settings s)) (get32 powerState_off (m_settings s))]"
proof -
  let ?m = "m_settings s"
  have sv: "saved c f' ?m" by (rule WriteSettings_saves [OF assms(3,1,2)])
  define s1 where "s1 = (settings_boot c)
       \<lparr>m_settings := standby_override c w (take (cur_len c) f' @ replicate 32 0),
        g_last_known_power_state := get32 powerState_off ?m,
        wakeup_timeout_sec := (if DEEP_SLEEP c then get32 timeout_off ?m else 28800),
        nwStandby_gs := (SKY_XIONE c \<and> ?m ! nw_off c \<noteq> 0)\<rparr>"
  have ld: "load_settings c w f' (settings_boot c) = (int (cur_len c), f', s1)"
    unfolding s1_def by (rule load_same_build [OF assms(2) sv assms(1)])
  have l: "cur_len c \<le> length f'" by (rule saved_length [OF sv assms(1)])
  have m1: "take (cur_len c) (m_settings s1) = take (cur_len c) ?m"
    using assms(4) sv l mem_ok_len(2) [OF assms(1)] by (simp add: s1_def standby_override_def saved_def)
  have fields: "get32 powerState_off (m_settings s1) = get32 powerState_off ?m"
    "get32 length_off (m_settings s1) = of_nat (cur_len c)"
    using get32_cong [OF m1] cur_len_bounds(1) [of c] assms(2) by (simp_all add: head_ok_def)
  have pos: "cur_len c \<noteq> 0" using cur_len_bounds(1) [of c] by simp
  obtain s4 es4 where al: "after_load c w s1 = (s4, es4)" by fastforce
  have s4: "m_settings s4 = m_settings s1" "g_last_known_power_state s4 = g_last_known_power_state s1"
    "wakeup_timeout_sec s4 = wakeup_timeout_sec s1" "nwStandby_gs s4 = nwStandby_gs s1"
    "powerStateBeforeReboot_gc s4 = power_state_name (g_last_known_power_state s1)"
    using after_load_fields [of c w s1] al by simp_all
  have b4: "bootup_event_src s4 = (DEEP_SLEEP c \<and> get32 powerState_off ?m = ps_code PWRMGR_STANDBY_DEEP_SLEEP)"
    using after_load_fields(6) [of c w s1] fields(1) by (simp add: al) (simp add: s1_def settings_boot_def)
  have e4: "es4 = (if DEEP_SLEEP c \<and> get32 powerState_off ?m = ps_code PWRMGR_STANDBY_DEEP_SLEEP
      then [AddBootupTimer 3600] else [])"
    using al fields by (auto simp: after_load_def Let_def)
  have sync: "\<exists>k. sync_platform c w (int (cur_len c)) f' s4 = (k, f', s4, [])"
    using assms(5,6) fields saved_rewrite [OF sv assms(1) m1] by (auto simp: sync_platform_def s4 Let_def)
  then obtain k where "sync_platform c w (int (cur_len c)) f' s4 = (k, f', s4, [])" by blast
  with assms(4,7) have "f'' = f'" "s' = s4"
      "es = es4 @ [InitModeChanged (g_last_known_power_state s4) (get32 powerState_off (m_settings s4))]"
    by (auto simp: InitSettings_alt ld al pos)
  then show ?thesis using s4 m1 e4 b4 fields by (simp add: s1_def)
qed

lemma start_makes_valid:
  assumes "write_ok w" and "truncate_ok w"
    and "InitSettings c w file (settings_boot c) = (ret, file', s', es)"
  shows "mem_ok c (m_settings s') \<and> head_ok c (m_settings s') \<and>
    (saved c file' (m_settings s') \<or> boot_to_standby c w \<and> plat_get w 0 = None)"
proof -
  obtain r1 f1 s1 where ld: "load_settings c w file (settings_boot c) = (r1, f1, s1)" by (metis prod_cases3)
  note L = load_settings_ok [OF ld mem_ok_boot assms(1,2)]
  obtain r2 f2 s2 where cr: "(if r1 = 0 then create_settings c w f1 s1 else (r1, f1, s1)) = (r2, f2, s2)"
    by (metis prod_cases3)
  have s2: "mem_ok c (m_settings s2) \<and> head_ok c (m_settings s2) \<and>
      (boot_to_standby c w \<or> saved c f2 (m_settings s2))"
    using cr L create_settings_ok [of c w f1 s1 r2 f2 s2] assms(1)
    by (auto simp: loaded_def split: if_splits)
  obtain s4 es4 where al: "after_load c w s2 = (s4, es4)" by fastforce
  then have s4: "m_settings s4 = m_settings s2" using after_load_fields [of c w s2] by simp
  obtain r5 f5 s5 es5 where sy: "sync_platform c w r2 f2 s4 = (r5, f5, s5, es5)" by (metis prod_cases4)
  have "f5 = file'" "s5 = s'" using assms(3) by (simp_all add: InitSettings_alt ld cr al sy)
  with sync_platform_ok [OF sy] s2 s4 assms(1) show ?thesis
    by (cases "plat_get w 0") auto
qed

section \<open>Properties\<close>


text \<open>C35. Whatever bytes the settings file holds (nothing, a truncated or foreign file, the file of
  any version), a start on a working disk ends with a valid structure: version 1 and the current
  length, in a structure of the right size, and the file begins with the saved part of exactly that
  structure.  The one exception is a device that boots to standby while the platform does not
  report its power state: the standby state is then in the structure only.\<close>
theorem any_file_becomes_valid:
  assumes "write_ok w" and "truncate_ok w"
    and "InitSettings c w file (settings_boot c) = (ret, file', s', es)"
  shows "mem_ok c (m_settings s') \<and> head_ok c (m_settings s') \<and>
    (saved c file' (m_settings s') \<or> boot_to_standby c w \<and> plat_get w 0 = None)"
  by (rule start_makes_valid [OF assms])

text \<open>The power state survives an update and a downgrade of the software: saved by one build,
  loaded by a build with other optional fields (which extends or truncates the file) and loaded
  again by the first build, it is the power state of the structure and the last known power state
  at both starts.\<close>
lemma power_state_survives_other_builds:
  assumes "mem_ok c1 (m_settings s)" and "head_ok c1 (m_settings s)"
    and "WriteSettings True (Some f) s = (r, Some f1)"
    and "InitSettings c2 w2 f1 (settings_boot c2) = (r2, f2, s2, es2)"
    and "InitSettings c1 w1 f2 (settings_boot c1) = (r3, f3, s3, es3)"
    and "write_ok w2" and "truncate_ok w2" and "\<not> boot_to_standby c2 w2" and "plat_get w2 0 = None"
    and "write_ok w1" and "truncate_ok w1" and "\<not> boot_to_standby c1 w1" and "plat_get w1 0 = None"
  shows "get32 powerState_off (m_settings s2) = get32 powerState_off (m_settings s) \<and>
    g_last_known_power_state s2 = get32 powerState_off (m_settings s) \<and>
    get32 powerState_off (m_settings s3) = get32 powerState_off (m_settings s) \<and>
    g_last_known_power_state s3 = get32 powerState_off (m_settings s)"
proof -
  have step: "get32 powerState_off (m_settings s') = get32 powerState_off m \<and>
      g_last_known_power_state s' = get32 powerState_off m \<and>
      mem_ok d (m_settings s') \<and> head_ok d (m_settings s') \<and> saved d f' (m_settings s')"
    if "head_ok b m" "saved b f m" "mem_ok b m" "write_ok w" "truncate_ok w" "\<not> boot_to_standby d w"
      "plat_get w 0 = None" "InitSettings d w f (settings_boot d) = (ret, f', s', es)" for b d m f f' w ret s' es
  proof -
    obtain r1 g1 t1 where ld: "load_settings d w f (settings_boot d) = (r1, g1, t1)" by (metis prod_cases3)
    note L = load_other_build [OF that(1-5) ld that(6)]
    obtain t4 es4 where al: "after_load d w t1 = (t4, es4)" by fastforce
    then have t4: "m_settings t4 = m_settings t1" "g_last_known_power_state t4 = g_last_known_power_state t1"
      using after_load_fields [of d w t1] by simp_all
    have "s' = t4" "f' = g1"
      using that(6-8) L by (auto simp: InitSettings_alt ld al sync_platform_def)
    with L t4 show ?thesis by simp
  qed
  have sv: "saved c1 f1 (m_settings s)" by (rule WriteSettings_saves [OF assms(3,1,2)])
  note a = step [OF assms(2) sv assms(1) assms(6-9) assms(4)]
  then have "head_ok c2 (m_settings s2)" "saved c2 f2 (m_settings s2)" "mem_ok c2 (m_settings s2)" by simp_all
  from step [OF this assms(10-13) assms(5)] a show ?thesis by simp
qed

section \<open>Concrete runs\<close>

definition full_build :: settings_cfg where
  "full_build = \<lparr>DEEP_SLEEP = True, SKY_XIONE = True, BOOTTO_STANDBY = False\<rparr>"

definition small_build :: settings_cfg where
  "small_build = \<lparr>DEEP_SLEEP = True, SKY_XIONE = False, BOOTTO_STANDBY = False\<rparr>"

definition quiet_world :: settings_world where
  "quiet_world = \<lparr>write_ok = True, truncate_ok = True, pwrmgr_restarted = True, plat_get = (\<lambda>_. None)\<rparr>"

definition sleeping :: settings_state where
  "sleeping = (settings_boot full_build)\<lparr>m_settings :=
     put32 timeout_off 600 (put32 powerState_off 4 (put32 length_off 32 (put32 version_off 1 (replicate 64 0))))\<rparr>"

definition saved_sleeping :: bytes where
  "saved_sleeping = take 32 (m_settings sleeping)"

lemma sleeping_ok: "mem_ok full_build (m_settings sleeping)" "head_ok full_build (m_settings sleeping)"
  "WriteSettings True (Some []) sleeping = (32, Some saved_sleeping)"
  "get32 powerState_off (m_settings sleeping) = 4"
  by code_simp+

lemma quiet: "\<not> boot_to_standby full_build quiet_world" "\<not> boot_to_standby small_build quiet_world"
  "plat_get quiet_world 0 = None" "write_ok quiet_world" "truncate_ok quiet_world"
  by (simp_all add: boot_to_standby_def full_build_def small_build_def quiet_world_def)


theorem any_file_becomes_valid_witness:
  "head_ok full_build (m_settings (fst (snd (snd
     (InitSettings full_build quiet_world [1, 2, 3] (settings_boot full_build))))))"
proof -
  obtain ret f'' s' es where
    i: "InitSettings full_build quiet_world [1, 2, 3] (settings_boot full_build) = (ret, f'', s', es)"
    by (metis prod_cases4)
  from any_file_becomes_valid [OF quiet(4,5) i] show ?thesis by (simp add: i)
qed

end
