(* ===== verification/Deep_Sleep.thy ===== *)
theory Deep_Sleep
  imports Iarm_Prelude
begin

text \<open>
  Deep sleep: pwrmgr2/deepSleep.c.  A change of the power mode to deep sleep stops services and
  asks the platform to sleep, at once or after a delay; the wake-up call restarts them.  The
  file of the delay, the presence of the lxc service and the answers of the platform
  (PLAT\_DS\_SetDeepSleep, PLAT\_DS\_GetLastWakeupReason) are inputs; the commands and calls
  made are effects in order.  The two build options of the Llama boxes are the fields of the
  configuration.  Sleeps of the process and log lines are not modelled.
\<close>

section \<open>State\<close>

datatype deep_sleep_status =
    DeepSleepStatus_Failed
  | DeepSleepStatus_NotStarted
  | DeepSleepStatus_InProgress
  | DeepSleepStatus_Completed

record ds_cfg =
  LLAMA_PLATCO :: bool
  LLAMA_PLATCO_SKY_XIONE :: bool
  WAKEUP_TIMER_EVT :: bool
  DISABLE_SCHD_REBOOT_AT_DEEPSLEEP :: bool

record ds_state =
  deep_sleep_delay_timeout :: nat
  deep_sleep_wakeup_timer :: nat
  nwStandbyMode_gs :: bool
  dsleep_delay_event_src :: bool
  IsDeviceInDeepSleep :: deep_sleep_status
  isLxcRestart :: bool

definition ds_init :: ds_state where
  "ds_init = \<lparr>deep_sleep_delay_timeout = 0, deep_sleep_wakeup_timer = 0, nwStandbyMode_gs = False,
     dsleep_delay_event_src = False, IsDeviceInDeepSleep = DeepSleepStatus_NotStarted,
     isLxcRestart = False\<rparr>"

datatype service = Lxc | XreReceiver | WpeFramework | Fog | SdCard | Moca

datatype ds_effect =
    StopService service
  | StartService service
  | PlatSetDeepSleep nat bool
  | PlatDeepSleepWakeup
  | AddDelayTimer nat
  | RemoveDelayTimer
  | WakeupKey int int
  | HandleDeepsleepTimeoutWakeup
  | RebootTimerExpired

text \<open>The payload of a mode change, and the world at that moment: the file /tmp/deepSleepTimer
  (None when it cannot be opened, Some None when the read fails), whether the lxc service is
  installed and not disabled, the answer of each of the attempts to sleep (status, woken by the
  user), and whether the platform's last wake-up reason is its timer.\<close>

record mode_change =
  mc_curState :: power_state
  mc_newState :: power_state
  mc_deep_sleep_timeout :: nat
  mc_nwStandbyMode :: bool

record ds_world =
  timer_file :: "nat option option"
  lxc_active :: bool
  plat_sleep :: "nat \<Rightarrow> int \<times> bool"
  woken_by_timer :: bool

section \<open>Operations\<close>

definition PwrMgrDeepSleepTimeout :: "ds_cfg \<Rightarrow> ds_effect list" where
  "PwrMgrDeepSleepTimeout cfg =
     (if DISABLE_SCHD_REBOOT_AT_DEEPSLEEP cfg then [] else [RebootTimerExpired])"

text \<open>The attempts to sleep, counted down from five: the final status, whether the user woke the
  device in the last attempt, and the number of attempts made.\<close>

fun sleep_attempts :: "(nat \<Rightarrow> int \<times> bool) \<Rightarrow> nat \<Rightarrow> nat \<Rightarrow> deep_sleep_status \<times> bool \<times> nat" where
  "sleep_attempts plat 0 i = (DeepSleepStatus_Failed, False, i)"
| "sleep_attempts plat (Suc left) i =
     (let (status, userWakeup) = plat i in
      if status \<noteq> 0
      then (if left = 0 then (DeepSleepStatus_Failed, userWakeup, i + 1)
            else sleep_attempts plat left (i + 1))
      else (DeepSleepStatus_Completed, userWakeup, i + 1))"

definition stop_services :: "ds_cfg \<Rightarrow> bool \<Rightarrow> ds_state \<Rightarrow> ds_state \<times> ds_effect list" where
  "stop_services cfg lxc s =
     (if lxc then (s\<lparr>isLxcRestart := True\<rparr>, [StopService Lxc])
      else (s, (if LLAMA_PLATCO_SKY_XIONE cfg then [] else [StopService XreReceiver, StopService WpeFramework]) @
               (if LLAMA_PLATCO cfg then [] else [StopService SdCard])))"

definition enter_deep_sleep_now ::
  "ds_cfg \<Rightarrow> ds_world \<Rightarrow> mode_change \<Rightarrow> ds_state \<Rightarrow> ds_state \<times> ds_effect list" where
  "enter_deep_sleep_now cfg w mc s =
     (let (s1, es1) = stop_services cfg (lxc_active w) s;
          es2 = (if LLAMA_PLATCO_SKY_XIONE cfg then [] else [StopService Fog]);
          s2 = (if LLAMA_PLATCO_SKY_XIONE cfg then s1\<lparr>nwStandbyMode_gs := mc_nwStandbyMode mc\<rparr> else s1);
          (st, userWakeup, n) = sleep_attempts (plat_sleep w) 5 0;
          s3 = s2\<lparr>IsDeviceInDeepSleep := st\<rparr>;
          es3 = replicate n (PlatSetDeepSleep (deep_sleep_wakeup_timer s2) (nwStandbyMode_gs s2));
          es4 = (if userWakeup then [WakeupKey KET_KEYDOWN 0xF1, WakeupKey KET_KEYUP 0xF1] else []);
          es5 = (if WAKEUP_TIMER_EVT cfg \<and> woken_by_timer w then [HandleDeepsleepTimeoutWakeup] else [])
      in (s3, es1 @ es2 @ es3 @ es4 @ es5))"

definition SetPwrMgrDeepSleepMode ::
  "ds_cfg \<Rightarrow> ds_world \<Rightarrow> mode_change \<Rightarrow> ds_state \<Rightarrow> ds_state \<times> ds_effect list" where
  "SetPwrMgrDeepSleepMode cfg w mc s =
     (if IsDeviceInDeepSleep s \<noteq> DeepSleepStatus_InProgress
      then
        (if mc_newState mc = PWRMGR_STANDBY_DEEP_SLEEP
         then
           (let s1 = s\<lparr>deep_sleep_wakeup_timer := mc_deep_sleep_timeout mc,
                       IsDeviceInDeepSleep := DeepSleepStatus_InProgress\<rparr>;
                s2 = (case timer_file w of
                        Some (Some t) \<Rightarrow> s1\<lparr>deep_sleep_delay_timeout := t\<rparr>
                      | _ \<Rightarrow> s1)
            in if deep_sleep_delay_timeout s2 \<noteq> 0
               then (s2\<lparr>dsleep_delay_event_src := True\<rparr>, [AddDelayTimer (deep_sleep_delay_timeout s2)])
               else enter_deep_sleep_now cfg w mc s2)
         else (s, []))
      else (s, []))"

text \<open>The delayed entry: one attempt, whose result is only logged.\<close>

definition deep_sleep_delay_timer_fn ::
  "ds_cfg \<Rightarrow> ds_world \<Rightarrow> ds_state \<Rightarrow> ds_state \<times> ds_effect list" where
  "deep_sleep_delay_timer_fn cfg w s =
     (let (s1, es1) =
            (if lxc_active w then (s\<lparr>isLxcRestart := True\<rparr>, [StopService Lxc])
             else (s, if LLAMA_PLATCO_SKY_XIONE cfg then []
                      else [StopService XreReceiver, StopService WpeFramework]));
          es2 = [PlatSetDeepSleep (deep_sleep_wakeup_timer s1) (nwStandbyMode_gs s1)];
          es3 = (if WAKEUP_TIMER_EVT cfg \<and> woken_by_timer w then [HandleDeepsleepTimeoutWakeup] else [])
      in (s1, es1 @ es2 @ es3))"

text \<open>The wake-up, an RPC and a function of the same body.\<close>

definition wakeup_body ::
  "ds_cfg \<Rightarrow> power_state \<Rightarrow> power_state \<Rightarrow> ds_state \<Rightarrow> ds_state \<times> ds_effect list" where
  "wakeup_body cfg cur new s =
     (if cur = PWRMGR_STANDBY_DEEP_SLEEP \<and> new \<noteq> PWRMGR_STANDBY_DEEP_SLEEP
      then
        (let es0 = [PlatDeepSleepWakeup];
             es1 = (if dsleep_delay_event_src s then [RemoveDelayTimer] else []);
             s1 = s\<lparr>dsleep_delay_event_src := False\<rparr>;
             (s2, es2) =
               (if IsDeviceInDeepSleep s1 \<noteq> DeepSleepStatus_NotStarted
                then
                  (let xs = (if LLAMA_PLATCO_SKY_XIONE cfg then [] else [StartService Moca]) @
                            (if LLAMA_PLATCO cfg then [] else [StartService SdCard]) @
                            (if LLAMA_PLATCO_SKY_XIONE cfg then [] else [StartService Fog])
                   in if isLxcRestart s1
                      then (s1\<lparr>isLxcRestart := False\<rparr>, xs @ [StartService Lxc])
                      else (s1, xs @ (if LLAMA_PLATCO_SKY_XIONE cfg then []
                                      else [StartService WpeFramework, StartService XreReceiver])))
                else (s1, []))
         in (s2\<lparr>IsDeviceInDeepSleep := DeepSleepStatus_NotStarted\<rparr>, es0 @ es1 @ es2))
      else (s, []))"

definition DeepSleepWakeup ::
  "ds_cfg \<Rightarrow> power_state \<Rightarrow> power_state \<Rightarrow> ds_state \<Rightarrow> ds_state \<times> ds_effect list \<times> iarm_result" where
  "DeepSleepWakeup cfg cur new s =
     (let (s', es) = wakeup_body cfg cur new s in (s', es, IARM_RESULT_SUCCESS))"

definition PwrMgrDeepSleepWakeup ::
  "ds_cfg \<Rightarrow> power_state \<Rightarrow> power_state \<Rightarrow> ds_state \<Rightarrow> ds_state \<times> ds_effect list \<times> iarm_result" where
  "PwrMgrDeepSleepWakeup cfg cur new s =
     (let (s', es) = wakeup_body cfg cur new s in (s', es, IARM_RESULT_SUCCESS))"

definition GetDeepSleepStatus :: "ds_state \<Rightarrow> deep_sleep_status \<times> iarm_result" where
  "GetDeepSleepStatus s = (IsDeviceInDeepSleep s, IARM_RESULT_SUCCESS)"

definition GetPwrMgrDeepSleepStatus :: "ds_state \<Rightarrow> deep_sleep_status \<times> iarm_result" where
  "GetPwrMgrDeepSleepStatus s = (IsDeviceInDeepSleep s, IARM_RESULT_SUCCESS)"

definition SetDeepSleepTimer :: "nat option \<Rightarrow> ds_state \<Rightarrow> ds_state \<times> iarm_result" where
  "SetDeepSleepTimer arg s = (case arg of
       Some timeout \<Rightarrow> (s\<lparr>deep_sleep_delay_timeout := timeout\<rparr>, IARM_RESULT_SUCCESS)
     | None \<Rightarrow> (s, IARM_RESULT_IPCCORE_FAIL))"

section \<open>Lemmas\<close>

lemma sleep_attempts_numeral:
  "sleep_attempts plat (numeral k) i =
     (let (status, userWakeup) = plat i in
      if status \<noteq> 0
      then (if (pred_numeral k) = 0 then (DeepSleepStatus_Failed, userWakeup, i + 1)
            else sleep_attempts plat (pred_numeral k) (i + 1))
      else (DeepSleepStatus_Completed, userWakeup, i + 1))"
  by (simp add: numeral_eq_Suc)

lemmas deep_sleep_defs = SetPwrMgrDeepSleepMode_def enter_deep_sleep_now_def stop_services_def
  deep_sleep_delay_timer_fn_def wakeup_body_def

lemma sleep_attempts_spec:
  "sleep_attempts plat (Suc left) i = (st, uw, n) \<Longrightarrow>
     i < n \<and> n \<le> i + Suc left \<and>
     (st = DeepSleepStatus_Completed \<and> fst (plat (n - 1)) = 0 \<and> (\<forall>k. i \<le> k \<and> k + 1 < n \<longrightarrow> fst (plat k) \<noteq> 0) \<or>
      st = DeepSleepStatus_Failed \<and> n = i + Suc left \<and> (\<forall>k. i \<le> k \<and> k < n \<longrightarrow> fst (plat k) \<noteq> 0)) \<and>
     uw = snd (plat (n - 1))"
proof (induction left arbitrary: i)
  case 0
  then show ?case by (auto simp: Let_def le_less_Suc_eq split: prod.splits if_splits)
next
  case (Suc left)
  show ?case
  proof (cases "fst (plat i) = 0")
    case True
    with Suc.prems show ?thesis by (auto simp: Let_def split: prod.splits)
  next
    case False
    have "sleep_attempts plat (Suc (Suc left)) i = sleep_attempts plat (Suc left) (i + 1)"
      by (subst sleep_attempts.simps(2))
         (simp add: case_prod_beta False del: sleep_attempts.simps)
    with Suc.prems have "sleep_attempts plat (Suc left) (i + 1) = (st, uw, n)" by simp
    note IH = Suc.IH [OF this]
    have "i \<le> k \<Longrightarrow> k = i \<or> i + 1 \<le> k" for k by arith
    with IH False show ?thesis by fastforce
  qed
qed

definition stopped :: "ds_effect list \<Rightarrow> service set" where
  "stopped es = {v. StopService v \<in> set es}"

definition started :: "ds_effect list \<Rightarrow> service set" where
  "started es = {v. StartService v \<in> set es}"

lemma sleep_attempts_started:
  "fst (sleep_attempts plat (Suc left) i) \<noteq> DeepSleepStatus_NotStarted \<and>
   fst (sleep_attempts plat (Suc left) i) \<noteq> DeepSleepStatus_InProgress"
proof -
  obtain st uw n where "sleep_attempts plat (Suc left) i = (st, uw, n)" by (metis prod_cases3)
  from sleep_attempts_spec [OF this] this show ?thesis by auto
qed

text \<open>The services that may have been stopped, as the lxc marker remembers it.\<close>

definition may_stop :: "ds_cfg \<Rightarrow> bool \<Rightarrow> service set" where
  "may_stop cfg lxc =
     (if lxc then {Lxc} else if LLAMA_PLATCO_SKY_XIONE cfg then {} else {XreReceiver, WpeFramework}) \<union>
     (if LLAMA_PLATCO_SKY_XIONE cfg then {} else {Fog}) \<union> (if LLAMA_PLATCO cfg then {} else {SdCard})"

lemma stopped_append: "stopped (es @ fs) = stopped es \<union> stopped fs"
  by (auto simp: stopped_def)

lemma enter_now_stops:
  assumes "enter_deep_sleep_now cfg w mc s = (s', es)" and "\<not> isLxcRestart s"
  shows "stopped es \<subseteq> may_stop cfg (isLxcRestart s')"
    and "dsleep_delay_event_src s' = dsleep_delay_event_src s"
    and "IsDeviceInDeepSleep s' \<noteq> DeepSleepStatus_NotStarted"
proof -
  obtain st uw n where a: "sleep_attempts (plat_sleep w) 5 0 = (st, uw, n)" by (metis prod_cases3)
  then have st: "st \<noteq> DeepSleepStatus_NotStarted"
    using sleep_attempts_started [of "plat_sleep w" 4 0] by (simp add: numeral_eq_Suc del: sleep_attempts.simps)
  show "stopped es \<subseteq> may_stop cfg (isLxcRestart s')"
    "dsleep_delay_event_src s' = dsleep_delay_event_src s"
    "IsDeviceInDeepSleep s' \<noteq> DeepSleepStatus_NotStarted"
    using assms st
    by (auto simp: enter_deep_sleep_now_def stop_services_def a Let_def stopped_def may_stop_def split: if_splits)
qed

lemma timer_stops:
  assumes "deep_sleep_delay_timer_fn cfg w s = (s', es)" and "\<not> isLxcRestart s"
  shows "stopped es \<subseteq> may_stop cfg (isLxcRestart s')"
    and "IsDeviceInDeepSleep s' = IsDeviceInDeepSleep s"
  using assms by (auto simp: deep_sleep_delay_timer_fn_def Let_def stopped_def may_stop_def split: if_splits)

lemma wakeup_starts:
  assumes "PwrMgrDeepSleepWakeup cfg PWRMGR_STANDBY_DEEP_SLEEP new s = (s', es, r)"
    and "new \<noteq> PWRMGR_STANDBY_DEEP_SLEEP" and "IsDeviceInDeepSleep s \<noteq> DeepSleepStatus_NotStarted"
  shows "may_stop cfg (isLxcRestart s) \<subseteq> started es"
    and "IsDeviceInDeepSleep s' = DeepSleepStatus_NotStarted"
    and "\<not> isLxcRestart s'" and "\<not> dsleep_delay_event_src s'"
  using assms
  by (auto simp: PwrMgrDeepSleepWakeup_def wakeup_body_def started_def may_stop_def Let_def split: if_splits)

section \<open>Properties\<close>

text \<open>C11. Whatever a transition to deep sleep stops, the wake-up starts again: from a state in which
  the device is not in deep sleep, after a mode change to deep sleep (immediate, with any outcome
  of the platform's attempts, or delayed and then run by the timer), a wake-up to any other power
  state restarts every service that was stopped, leaves the status NotStarted, clears the lxc
  marker and leaves no delay timer behind.\<close>
theorem wakeup_restarts_what_was_stopped:
  assumes "IsDeviceInDeepSleep s \<noteq> DeepSleepStatus_InProgress" and "\<not> isLxcRestart s"
    and "mc_newState mc = PWRMGR_STANDBY_DEEP_SLEEP" and "\<not> dsleep_delay_event_src s"
    and "new \<noteq> PWRMGR_STANDBY_DEEP_SLEEP"
    and "SetPwrMgrDeepSleepMode cfg w mc s = (s1, es1)"
    and "(s2, es2) = (if dsleep_delay_event_src s1 then deep_sleep_delay_timer_fn cfg w' s1 else (s1, []))"
    and "PwrMgrDeepSleepWakeup cfg PWRMGR_STANDBY_DEEP_SLEEP new s2 = (s3, es3, r)"
  shows "stopped (es1 @ es2) \<subseteq> started es3 \<and> IsDeviceInDeepSleep s3 = DeepSleepStatus_NotStarted \<and>
         \<not> isLxcRestart s3 \<and> \<not> dsleep_delay_event_src s3"
proof -
  define u where "u = (case timer_file w of
      Some (Some t) \<Rightarrow> (s\<lparr>deep_sleep_wakeup_timer := mc_deep_sleep_timeout mc,
                     IsDeviceInDeepSleep := DeepSleepStatus_InProgress\<rparr>)\<lparr>deep_sleep_delay_timeout := t\<rparr>
    | _ \<Rightarrow> s\<lparr>deep_sleep_wakeup_timer := mc_deep_sleep_timeout mc,
                     IsDeviceInDeepSleep := DeepSleepStatus_InProgress\<rparr>)"
  have u: "\<not> isLxcRestart u" "\<not> dsleep_delay_event_src u" "IsDeviceInDeepSleep u = DeepSleepStatus_InProgress"
    using assms(2,4) by (simp_all add: u_def split: option.split)
  have mode: "(s1, es1) =
      (if deep_sleep_delay_timeout u \<noteq> 0
       then (u\<lparr>dsleep_delay_event_src := True\<rparr>, [AddDelayTimer (deep_sleep_delay_timeout u)])
       else enter_deep_sleep_now cfg w mc u)"
    unfolding assms(6) [symmetric] using assms(1,3)
    by (simp add: SetPwrMgrDeepSleepMode_def u_def Let_def)
  have "stopped (es1 @ es2) \<subseteq> may_stop cfg (isLxcRestart s2) \<and>
        IsDeviceInDeepSleep s2 \<noteq> DeepSleepStatus_NotStarted"
  proof (cases "deep_sleep_delay_timeout u = 0")
    case False
    with mode have m: "s1 = u\<lparr>dsleep_delay_event_src := True\<rparr>" "stopped es1 = {}" by (auto simp: stopped_def)
    with assms(7) have "deep_sleep_delay_timer_fn cfg w' s1 = (s2, es2)" by simp
    from timer_stops [OF this] m u show ?thesis by (simp add: stopped_append)
  next
    case True
    with mode have e: "enter_deep_sleep_now cfg w mc u = (s1, es1)" by simp
    from enter_now_stops [OF e u(1)] u(2) assms(7) show ?thesis
      by (simp add: stopped_def)
  qed
  with wakeup_starts [OF assms(8,5)] show ?thesis by blast
qed

text \<open>An immediate transition to deep sleep makes at most five attempts, ends as Completed at the
  first success and as Failed only if all five attempts fail; it never stays InProgress, and the
  wake-up key is sent exactly when the user woke the device in the last attempt.\<close>
lemma immediate_deep_sleep_outcome:
  assumes "enter_deep_sleep_now cfg w mc s = (s', es)"
  shows "\<exists>n. 1 \<le> n \<and> n \<le> 5 \<and>
      length (filter (\<lambda>e. case e of PlatSetDeepSleep _ _ \<Rightarrow> True | _ \<Rightarrow> False) es) = n \<and>
      (IsDeviceInDeepSleep s' = DeepSleepStatus_Completed \<and> fst (plat_sleep w (n - 1)) = 0 \<or>
       IsDeviceInDeepSleep s' = DeepSleepStatus_Failed \<and> n = 5 \<and> (\<forall>k<5. fst (plat_sleep w k) \<noteq> 0)) \<and>
      (WakeupKey KET_KEYDOWN 0xF1 \<in> set es \<longleftrightarrow> snd (plat_sleep w (n - 1)))"
proof -
  obtain st uw n where a: "sleep_attempts (plat_sleep w) (Suc 4) 0 = (st, uw, n)" by (metis prod_cases3)
  then have five: "sleep_attempts (plat_sleep w) 5 0 = (st, uw, n)" by (simp add: numeral_eq_Suc del: sleep_attempts.simps)
  have len: "length (filter (\<lambda>e. case e of PlatSetDeepSleep _ _ \<Rightarrow> True | _ \<Rightarrow> False)
      (replicate n (PlatSetDeepSleep x y))) = n" for x y by simp
  have "IsDeviceInDeepSleep s' = st \<and>
      length (filter (\<lambda>e. case e of PlatSetDeepSleep _ _ \<Rightarrow> True | _ \<Rightarrow> False) es) = n \<and>
      (WakeupKey KET_KEYDOWN 0xF1 \<in> set es \<longleftrightarrow> uw)"
    using assms
    by (auto simp: enter_deep_sleep_now_def stop_services_def five Let_def len split: if_splits)
  with sleep_attempts_spec [OF a] show ?thesis by (intro exI [of _ n]) auto
qed

text \<open>A delayed transition is stuck: when the delay is not zero the status is InProgress, the
  timer leaves it so whatever the platform answers, and every further change of the power mode is
  then ignored until a wake-up.\<close>
lemma delayed_deep_sleep_stays_in_progress:
  assumes "IsDeviceInDeepSleep s \<noteq> DeepSleepStatus_InProgress"
    and "mc_newState mc = PWRMGR_STANDBY_DEEP_SLEEP" and "timer_file w = Some (Some (Suc t))"
    and "SetPwrMgrDeepSleepMode cfg w mc s = (s1, es1)"
    and "deep_sleep_delay_timer_fn cfg w' s1 = (s2, es2)"
  shows "es1 = [AddDelayTimer (Suc t)] \<and> IsDeviceInDeepSleep s2 = DeepSleepStatus_InProgress \<and>
         (\<forall>w'' mc'. SetPwrMgrDeepSleepMode cfg w'' mc' s2 = (s2, []))"
  using assms
  by (auto simp: SetPwrMgrDeepSleepMode_def deep_sleep_delay_timer_fn_def Let_def split: if_splits)

text \<open>A world for the witnesses: no delay file, no lxc, the platform fails twice.\<close>

definition sample_world :: ds_world where
  "sample_world = \<lparr>timer_file = None, lxc_active = False,
     plat_sleep = (\<lambda>i. (if i < 2 then - 1 else 0, i = 2)), woken_by_timer = False\<rparr>"

definition sample_cfg :: ds_cfg where
  "sample_cfg = \<lparr>LLAMA_PLATCO = False, LLAMA_PLATCO_SKY_XIONE = False, WAKEUP_TIMER_EVT = False,
     DISABLE_SCHD_REBOOT_AT_DEEPSLEEP = False\<rparr>"

definition sample_change :: mode_change where
  "sample_change = \<lparr>mc_curState = PWRMGR_ON, mc_newState = PWRMGR_STANDBY_DEEP_SLEEP,
     mc_deep_sleep_timeout = 28800, mc_nwStandbyMode = False\<rparr>"

theorem wakeup_restarts_what_was_stopped_witness:
  "Fog \<in> started (fst (snd (PwrMgrDeepSleepWakeup sample_cfg PWRMGR_STANDBY_DEEP_SLEEP PWRMGR_ON
      (fst (SetPwrMgrDeepSleepMode sample_cfg sample_world sample_change ds_init)))))"
proof -
  obtain s1 es1 where a: "SetPwrMgrDeepSleepMode sample_cfg sample_world sample_change ds_init = (s1, es1)"
    by fastforce
  then have d: "\<not> dsleep_delay_event_src s1" and f: "StopService Fog \<in> set es1"
    by (auto simp: deep_sleep_defs sample_cfg_def sample_world_def sample_change_def ds_init_def Let_def
        case_prod_beta sleep_attempts_numeral)
  obtain s3 es3 r where b: "PwrMgrDeepSleepWakeup sample_cfg PWRMGR_STANDBY_DEEP_SLEEP PWRMGR_ON s1 = (s3, es3, r)"
    by (metis prod_cases3)
  have "stopped (es1 @ []) \<subseteq> started es3"
    using wakeup_restarts_what_was_stopped [OF _ _ _ _ _ a _ b, of "[]" sample_world] d
    by (simp add: ds_init_def sample_change_def)
  with f b a show ?thesis by (auto simp: stopped_def)
qed

end
