(* ===== verification/Reset_Seq.thy ===== *)
theory Reset_Seq
  imports Iarm_Prelude "HOL-Library.Sublist"
begin

text \<open>
  The reset key sequences of the front panel: pwrmgr2/reset.c (the five key sequence
  machines, the power key hold, the time-outs, performReboot) and the reset scripts of
  pwrmgr2/coldFactoryReset.c, factoryReset.c, wareHouseReset.c, customerReset.c,
  personalityReset.c, userFactoryReset.c and wareHouseClear.c, each as the list of the
  commands it runs.  The pointer into a key table is the index of its machine; reading past the
  end of a table is the value None of the functions below, which reset\_tables\_in\_bounds proves
  unreachable.  Log lines, the mutex of the unused wait state and the blinking of
  LEDs (never called) are not modelled.
\<close>

section \<open>Reset scripts\<close>

definition quoted :: "string \<Rightarrow> string" where
  "quoted s = CHR 0x27 # s @ [CHR 0x27]"

definition processColdFactoryReset :: "int \<times> string list" where
  "processColdFactoryReset = (1,
    [''sh /lib/rdk/deviceReset.sh coldfactory'', ''echo 0 > /opt/.rebootFlag'',
     '' echo `/bin/timestamp` ------------- Rebooting due to Cold Factory Reset process --------------- >> /opt/logs/receiver.log'',
     ''sleep 5; /rebootNow.sh -s PowerMgr_coldFactoryReset -o '' @
       quoted ''Rebooting the box due to Cold Factory Reset process ...''])"

definition processFactoryReset :: "int \<times> string list" where
  "processFactoryReset = (1,
    [''sh /lib/rdk/deviceReset.sh factory'', ''echo 0 > /opt/.rebootFlag'',
     '' echo `/bin/timestamp` -------------Rebooting due to Factory Reset process-------------- >> /opt/logs/receiver.log''])"

definition processWareHouseReset :: "int \<times> string list" where
  "processWareHouseReset = (1,
    [''echo 0 > /opt/.rebootFlag'', ''touch /tmp/.warehouse-reset'',
     ''echo `/bin/timestamp` ------------- Rebooting due to Warehouse Reset process --------------- >> /opt/logs/receiver.log'',
     ''sh /lib/rdk/deviceReset.sh warehouse''])"

definition processCustomerReset :: "int \<times> string list" where
  "processCustomerReset = (1,
    [''sh /lib/rdk/deviceReset.sh customer'', ''echo 0 > /opt/.rebootFlag'',
     '' echo `/bin/timestamp` ------------- Rebooting due to Customer Reset process --------------- >> /opt/logs/receiver.log'',
     ''sleep 5; /rebootNow.sh -s PowerMgr_CustomerReset -o '' @
       quoted ''Rebooting the box due to Customer Reset process ...''])"

text \<open>The argument is None when ENABLE\_PERSONALITY\_SWITCH is not defined, and otherwise the
  result of svcs\_transSetPersonalityFlag (a library).\<close>

definition processPersonalityReset :: "int option \<Rightarrow> int \<times> string list" where
  "processPersonalityReset flag_result = (case flag_result of
       None \<Rightarrow> (0, [])
     | Some result \<Rightarrow>
         (result,
          if result = 0
          then [''sh /lib/rdk/deviceReset.sh personality'', ''echo 0 > /opt/.rebootFlag'',
                '' echo `/bin/timestamp` ------------- Rebooting due to personality reset process --------------- >> /opt/logs/receiver.log'',
                ''sleep 5; /rebootNow.sh -s PowerMgr_PersonalityReset -o '' @
                  quoted ''Rebooting the box due to personality reset process ...'']
          else []))"

text \<open>The scripts that return the status of their last command take that status as an
  argument.\<close>

definition processWHReset :: "int \<Rightarrow> int \<times> string list" where
  "processWHReset status = (status,
    [''echo 0 > /opt/.rebootFlag'', ''touch /tmp/.warehouse-reset'',
     ''echo `/bin/timestamp` ------------- Rebooting due to Warehouse Reset process--------------- >> /opt/logs/receiver.log'',
     ''sh /lib/rdk/deviceReset.sh warehouse''])"

definition processWHResetNoReboot :: "int \<Rightarrow> int \<times> string list" where
  "processWHResetNoReboot status = (status,
    [''touch /tmp/.warehouse-reset'', ''sh /lib/rdk/deviceReset.sh warehouse --suppressReboot &''])"

definition processUserFactoryReset :: "int \<Rightarrow> int \<times> string list" where
  "processUserFactoryReset status = (status,
    [''echo 0 > /opt/.rebootFlag'',
     ''echo `/bin/timestamp` ------------- Rebooting due to User Factory Reset process--------------- >> /opt/logs/receiver.log'',
     ''sh /lib/rdk/deviceReset.sh userfactory''])"

definition processWHClear :: "int \<times> string list" where
  "processWHClear = (1,
    [''echo 0 > /opt/.rebootFlag'', ''touch /tmp/.warehouse-clear'',
     ''echo `/bin/timestamp` ------------- Warehouse Clear  --------------- >> /opt/logs/receiver.log'',
     ''sh /lib/rdk/deviceReset.sh WAREHOUSE_CLEAR''])"

definition processWHClearNoReboot :: "int \<Rightarrow> int \<times> string list" where
  "processWHClearNoReboot status = (status,
    [''touch /tmp/.warehouse-clear'', ''sh /lib/rdk/deviceReset.sh WAREHOUSE_CLEAR --suppressReboot''])"

section \<open>The key tables\<close>

record keyType =
  Key :: int
  keyMode :: int
  waitDuration :: int
  validTime :: int

abbreviation (input) "KEY_NULL \<equiv> (0 :: int)"

definition ktype :: "int \<Rightarrow> int \<Rightarrow> int \<Rightarrow> int \<Rightarrow> keyType" where
  "ktype k m w v = \<lparr>Key = k, keyMode = m, waitDuration = w, validTime = v\<rparr>"

definition coldFactorySeq :: "keyType list" where
  "coldFactorySeq =
    [ktype KED_POWER KET_KEYUP 0 0, ktype KED_OK KET_KEYUP 0 2000,
     ktype KED_ARROWRIGHT KET_KEYUP 0 2000, ktype KED_MENU KET_KEYUP 0 2000,
     ktype KED_ARROWRIGHT KET_KEYUP 0 2000, ktype KED_POWER KET_KEYUP 0 0,
     ktype KEY_NULL 0 0 0]"

definition factorySeq :: "keyType list" where
  "factorySeq =
    [ktype KED_POWER KET_KEYUP 0 0, ktype KED_OK KET_KEYUP 0 2000,
     ktype KED_ARROWRIGHT KET_KEYUP 0 2000, ktype KED_MENU KET_KEYUP 0 2000,
     ktype KED_ARROWLEFT KET_KEYUP 0 2000, ktype KED_POWER KET_KEYUP 0 0,
     ktype KEY_NULL 0 0 0]"

definition wareHouseSeq :: "keyType list" where
  "wareHouseSeq =
    [ktype KED_POWER KET_KEYUP 0 0, ktype KED_OK KET_KEYUP 0 2000,
     ktype KED_ARROWRIGHT KET_KEYUP 0 2000, ktype KED_ARROWDOWN KET_KEYUP 0 2000,
     ktype KED_POWER KET_KEYUP 0 0, ktype KEY_NULL 0 0 0]"

definition customerSeq :: "keyType list" where
  "customerSeq =
    [ktype KED_POWER KET_KEYUP 0 0, ktype KED_OK KET_KEYUP 0 2000,
     ktype KED_UNDEFINEDKEY KET_KEYUP 0 0, ktype KEY_NULL 0 0 0]"

definition personalityResetSeq :: "keyType list" where
  "personalityResetSeq =
    [ktype KED_POWER KET_KEYUP 0 0, ktype KED_OK KET_KEYUP 0 2000,
     ktype KED_ARROWLEFT KET_KEYUP 0 2000, ktype KED_ARROWDOWN KET_KEYUP 0 2000,
     ktype KED_POWER KET_KEYUP 0 0, ktype KEY_NULL 0 0 0]"

text \<open>The variants: a key code and the code it stands for.\<close>

definition keyVariants :: "(int \<times> int) list" where
  "keyVariants = [(KED_POWER, KED_RF_POWER), (KED_OK, KED_SELECT)]"

fun translate_variant :: "(int \<times> int) list \<Rightarrow> int \<Rightarrow> int" where
  "translate_variant [] keyCode = keyCode"
| "translate_variant ((k, v) # vs) keyCode = (if keyCode = v then k else translate_variant vs keyCode)"

datatype resetType = COLD_FACTORY | FACTORY | WARE_HOUSE | CUSTOMER | PERSONALITY

definition reset_modes :: "resetType list" where
  "reset_modes = [COLD_FACTORY, FACTORY, WARE_HOUSE, CUSTOMER, PERSONALITY]"

fun Reset_Rules :: "resetType \<Rightarrow> keyType list" where
  "Reset_Rules COLD_FACTORY = coldFactorySeq"
| "Reset_Rules FACTORY = factorySeq"
| "Reset_Rules WARE_HOUSE = wareHouseSeq"
| "Reset_Rules CUSTOMER = customerSeq"
| "Reset_Rules PERSONALITY = personalityResetSeq"

fun resetString :: "resetType \<Rightarrow> string" where
  "resetString COLD_FACTORY = ''CLDINIT''"
| "resetString FACTORY = ''FR RST''"
| "resetString WARE_HOUSE = ''WH RST''"
| "resetString CUSTOMER = ''CUST''"
| "resetString PERSONALITY = ''PERS''"

section \<open>State\<close>

record reset_cfg =
  ENABLE_FACTORY_RESET_VIA_FP_POWER_BUTTON :: bool
  DISABLE_RESET_SEQUENCE :: bool
  personality_switch :: "int option"

record reset_state =
  gKeyPressedTime :: int
  gKeyReleasedTime :: int
  gCurrentTime :: int
  gTimeOutValue :: int
  inResetMode :: bool
  gResetMonitoredOnIBus :: bool
  gLastResetEvent :: nat
  grabedFocus :: bool
  gWaitState :: bool
  gResetTimer :: bool
  gIsSameKey :: bool
  expectedKeyIndex :: "resetType \<Rightarrow> nat"
  curPwrState :: power_state

definition reset_init :: reset_state where
  "reset_init = \<lparr>gKeyPressedTime = 0, gKeyReleasedTime = 0, gCurrentTime = 0, gTimeOutValue = 0,
     inResetMode = False, gResetMonitoredOnIBus = False, gLastResetEvent = 0, grabedFocus = False,
     gWaitState = False, gResetTimer = True, gIsSameKey = False, expectedKeyIndex = (\<lambda>_. 0),
     curPwrState = PWRMGR_STANDBY\<rparr>"

record reboot_param =
  reboot_reason_custom :: string
  reboot_reason_other :: string
  requestor :: string

datatype reset_effect =
    ResetProgress int
  | RequestFocus
  | ReleaseFocus
  | FrontPanelText string
  | RunReset resetType "string list"
  | PowerKeyFactoryReset "string list"
  | TogglePower
  | Rebooting reboot_param
  | AsyncReboot string string string

text \<open>The monotonic clock in milliseconds, as one key event reads it: on entry (the time-out
  check), for the press or release time, and when the next time-out starts.\<close>

record key_clock =
  ck_entry :: int
  ck_key :: int
  ck_next :: int

section \<open>Reboot\<close>

definition PWRMGR_MAX_REBOOT_REASON_LENGTH :: nat where
  "PWRMGR_MAX_REBOOT_REASON_LENGTH = 100"

definition check_payload :: "string option \<Rightarrow> string \<Rightarrow> string" where
  "check_payload input default_arg = (case input of
       None \<Rightarrow> default_arg
     | Some s \<Rightarrow> if s = [] then default_arg else s)"

definition performReboot ::
  "string option \<Rightarrow> string option \<Rightarrow> string option \<Rightarrow> reset_effect list" where
  "performReboot rq custom other =
     (let rq' = check_payload rq ''unknown'';
          custom' = check_payload custom ''unknown'';
          other' = check_payload other ''unknown'';
          n = PWRMGR_MAX_REBOOT_REASON_LENGTH - 1
      in [Rebooting \<lparr>reboot_reason_custom = take n custom', reboot_reason_other = take n other',
                     requestor = take n rq'\<rparr>,
          AsyncReboot rq' custom' other'])"

definition PwrMgr_Reset :: "power_state \<Rightarrow> bool \<Rightarrow> reset_effect list" where
  "PwrMgr_Reset newState isFPKeyPress =
     (if newState = PWRMGR_ON then [TogglePower] else []) @
     (if \<not> isFPKeyPress
      then performReboot (Some ''PowerMgr_Powerreset'') None
             (Some ''Rebooting the box due to ECM connectivity Loss...'')
      else performReboot (Some ''PowerMgr_Powerreset'') None
             (Some ''Rebooting the box due to Frontpanel power key pressed for 10 sec...''))"

section \<open>The machines\<close>

definition setResetPowerState :: "power_state \<Rightarrow> reset_state \<Rightarrow> reset_state" where
  "setResetPowerState newPwrState s = s\<lparr>curPwrState := newPwrState\<rparr>"

definition releaseFocus :: "reset_state \<Rightarrow> reset_state \<times> reset_effect list" where
  "releaseFocus s = (s\<lparr>grabedFocus := False\<rparr>, [ReleaseFocus])"

definition ResetResetState :: "reset_state \<Rightarrow> reset_state \<times> reset_effect list" where
  "ResetResetState s =
     (let s1 = s\<lparr>expectedKeyIndex := (\<lambda>_. 0), inResetMode := False, gKeyPressedTime := 0,
                 gKeyReleasedTime := 0, gCurrentTime := 0, gTimeOutValue := 0\<rparr>;
          (s2, es) = (if grabedFocus s1 then releaseFocus s1 else (s1, []))
      in if gResetMonitoredOnIBus s2
         then (s2\<lparr>gResetMonitoredOnIBus := False, gLastResetEvent := 0\<rparr>, es @ [ResetProgress (- 1)])
         else (s2, es))"

fun reset_script :: "reset_cfg \<Rightarrow> resetType \<Rightarrow> string list" where
  "reset_script cfg COLD_FACTORY = snd processColdFactoryReset"
| "reset_script cfg FACTORY = snd processFactoryReset"
| "reset_script cfg WARE_HOUSE = snd processWareHouseReset"
| "reset_script cfg CUSTOMER = snd processCustomerReset"
| "reset_script cfg PERSONALITY = snd (processPersonalityReset (personality_switch cfg))"

definition checkResetModeSequence ::
  "reset_cfg \<Rightarrow> int \<Rightarrow> int \<Rightarrow> int \<Rightarrow> resetType \<Rightarrow> reset_state \<Rightarrow>
   (reset_state \<times> reset_effect list) option" where
  "checkResetModeSequence cfg now kt kc resetMode s =
     (let tbl = Reset_Rules resetMode; i = expectedKeyIndex s resetMode in
      if i + 1 \<ge> length tbl then None
      else if gWaitState s \<and> \<not> gIsSameKey s
      then Some (ResetResetState (s\<lparr>gResetTimer := True\<rparr>))
      else
        let cur = tbl ! i in
        if keyMode cur = kt \<and> Key cur = kc
        then
          (let (s1, es1) =
                 (if 0 < i \<and> gLastResetEvent s \<noteq> i
                  then (s\<lparr>gResetMonitoredOnIBus := True, gLastResetEvent := i\<rparr>, [ResetProgress (int i)])
                  else (s, []));
               s2 = s1\<lparr>expectedKeyIndex := (expectedKeyIndex s1)(resetMode := i + 1)\<rparr>;
               (s3, es3) =
                 (if Key (tbl ! (i + 1)) = KEY_NULL
                  then
                    (let s' = s2\<lparr>gResetTimer := True,
                                 expectedKeyIndex := (expectedKeyIndex s2)(resetMode := 0)\<rparr>;
                         (s'', es'') = ResetResetState s'
                     in (s'', [FrontPanelText (resetString resetMode),
                               RunReset resetMode (reset_script cfg resetMode)] @ es''))
                  else (s2, []));
               s4 = (if validTime cur \<noteq> 0
                     then s3\<lparr>gCurrentTime := now, gTimeOutValue := validTime cur\<rparr> else s3)
           in Some (s4, es1 @ es3))
        else Some (s\<lparr>expectedKeyIndex := (expectedKeyIndex s)(resetMode := 0)\<rparr>, []))"

text \<open>The five machines one after the other; the warehouse machine is left out when
  \_DISABLE\_RESET\_SEQUENCE is defined, and gIsSameKey is set after the first.\<close>

definition and_then ::
  "(reset_state \<times> reset_effect list) option \<Rightarrow>
   (reset_state \<Rightarrow> (reset_state \<times> reset_effect list) option) \<Rightarrow>
   (reset_state \<times> reset_effect list) option" where
  "and_then r f = (case r of None \<Rightarrow> None
     | Some (s, es) \<Rightarrow> (case f s of None \<Rightarrow> None | Some (s', es') \<Rightarrow> Some (s', es @ es')))"

definition check_all_machines ::
  "reset_cfg \<Rightarrow> int \<Rightarrow> int \<Rightarrow> int \<Rightarrow> reset_state \<Rightarrow> (reset_state \<times> reset_effect list) option" where
  "check_all_machines cfg now kt kc s =
     and_then (and_then (and_then (and_then (and_then
       (checkResetModeSequence cfg now kt kc COLD_FACTORY s)
       (\<lambda>s. checkResetModeSequence cfg now kt kc FACTORY (s\<lparr>gIsSameKey := True\<rparr>)))
       (\<lambda>s. if DISABLE_RESET_SEQUENCE cfg then Some (s, [])
            else checkResetModeSequence cfg now kt kc WARE_HOUSE s))
       (\<lambda>s. checkResetModeSequence cfg now kt kc CUSTOMER s))
       (\<lambda>s. checkResetModeSequence cfg now kt kc PERSONALITY s))
       (\<lambda>s. Some (s\<lparr>gIsSameKey := False\<rparr>, []))"

definition POWER_KEY_HOLD_TIME_FOR_REBOOT :: int where "POWER_KEY_HOLD_TIME_FOR_REBOOT = 10000"
definition POWER_KEY_HOLD_TIME_FOR_RESET :: int where "POWER_KEY_HOLD_TIME_FOR_RESET = 2000"
definition POWER_KEY_HOLD_TIME_FOR_FACTORY_RESET :: int where
  "POWER_KEY_HOLD_TIME_FOR_FACTORY_RESET = 30000"
definition INITIAL_TIME_OUT_VALUE :: int where "INITIAL_TIME_OUT_VALUE = 10000"

definition is_power_code :: "int \<Rightarrow> bool" where
  "is_power_code kc = (kc = KED_POWER \<or> kc = KED_RF_POWER)"

text \<open>A power key released outside the reset mode: the branches return 1 (the caller then drops
  the key) or fall through to the end of the function.\<close>

definition enter_reset_mode :: "int \<Rightarrow> reset_state \<Rightarrow> reset_state \<times> reset_effect list" where
  "enter_reset_mode now s =
     (let (s1, es1) = ResetResetState s;
          s2 = s1\<lparr>inResetMode := True, gCurrentTime := now, gTimeOutValue := INITIAL_TIME_OUT_VALUE\<rparr>;
          (s3, es3) = (if \<not> grabedFocus s2 then (s2\<lparr>grabedFocus := True\<rparr>, [RequestFocus]) else (s2, []))
      in (s3\<lparr>expectedKeyIndex := (\<lambda>m. expectedKeyIndex s3 m + 1)\<rparr>, es1 @ es3))"

definition power_held ::
  "reset_cfg \<Rightarrow> key_clock \<Rightarrow> int \<Rightarrow> reset_state \<Rightarrow> int \<times> reset_state \<times> reset_effect list" where
  "power_held cfg ck kc s =
     (let held = gKeyReleasedTime s - gKeyPressedTime s in
      if is_power_code kc
      then
        (if ENABLE_FACTORY_RESET_VIA_FP_POWER_BUTTON cfg \<and> held \<ge> POWER_KEY_HOLD_TIME_FOR_FACTORY_RESET
         then (1, s, [PowerKeyFactoryReset (snd processFactoryReset)])
         else if \<not> ENABLE_FACTORY_RESET_VIA_FP_POWER_BUTTON cfg \<and> held > POWER_KEY_HOLD_TIME_FOR_REBOOT
         then (1, s, PwrMgr_Reset (curPwrState s) True)
         else if held \<ge> POWER_KEY_HOLD_TIME_FOR_RESET
         then (1, enter_reset_mode (ck_next ck) s)
         else (0, ResetResetState s))
      else (0, ResetResetState s))"

definition power_released ::
  "reset_cfg \<Rightarrow> key_clock \<Rightarrow> int \<Rightarrow> reset_state \<Rightarrow> int \<times> reset_state \<times> reset_effect list" where
  "power_released cfg ck kc s =
     (let s1 = s\<lparr>gKeyReleasedTime := ck_key ck\<rparr>;
          (s2, es2) = (if gKeyPressedTime s1 = 0 then ResetResetState s1 else (s1, []));
          (ret, s3, es3) = power_held cfg ck kc s2
      in (ret, s3, es2 @ es3))"

text \<open>The test at the end of checkResetSequence.\<close>

definition leave_if_all_initial :: "reset_state \<Rightarrow> reset_state \<times> reset_effect list" where
  "leave_if_all_initial s =
     (if inResetMode s \<and> (\<forall>m\<in>set reset_modes. expectedKeyIndex s m = 0)
      then ResetResetState s else (s, []))"

definition checkResetSequence ::
  "reset_cfg \<Rightarrow> key_clock \<Rightarrow> int \<Rightarrow> int \<Rightarrow> reset_state \<Rightarrow>
   (int \<times> reset_state \<times> reset_effect list) option" where
  "checkResetSequence cfg ck kt kc0 s =
     (let kc = translate_variant keyVariants kc0;
          (s1, es1) =
            (if gCurrentTime s \<noteq> 0
             then (let s' = s\<lparr>gKeyPressedTime := ck_entry ck\<rparr> in
                   if gKeyPressedTime s' - gCurrentTime s' > gTimeOutValue s'
                   then ResetResetState s' else (s', []))
             else (s, []));
          is_hold_key = (is_power_code kc \<or> kc = KED_FACTORY)
      in if kt = KET_KEYDOWN
         then (let s2 = (if \<not> inResetMode s1 \<and> is_hold_key then s1\<lparr>gKeyPressedTime := ck_key ck\<rparr> else s1);
                   (s3, es3) = leave_if_all_initial s2
               in Some (0, s3, es1 @ es3))
         else if kt = KET_KEYUP
         then
           (if \<not> inResetMode s1 \<and> is_hold_key
            then (let (ret, s2, es2) = power_released cfg ck kc s1 in
                  if ret = 1 then Some (1, s2, es1 @ es2)
                  else (let (s3, es3) = leave_if_all_initial s2 in Some (0, s3, es1 @ es2 @ es3)))
            else if inResetMode s1
            then (case check_all_machines cfg (ck_next ck) kt kc s1 of
                    None \<Rightarrow> None
                  | Some (s2, es2) \<Rightarrow>
                      (let (s3, es3) = leave_if_all_initial s2 in Some (0, s3, es1 @ es2 @ es3)))
            else (let (s3, es3) = leave_if_all_initial s1 in Some (0, s3, es1 @ es3)))
         else (let (s3, es3) = leave_if_all_initial s1 in Some (0, s3, es1 @ es3)))"

text \<open>A sequence of key events: (clock, key type, key code).\<close>

primrec reset_run ::
  "reset_cfg \<Rightarrow> (key_clock \<times> int \<times> int) list \<Rightarrow> reset_state \<Rightarrow>
   (reset_state \<times> reset_effect list) option" where
  "reset_run cfg [] s = Some (s, [])"
| "reset_run cfg (e # es) s =
     (case e of (ck, kt, kc) \<Rightarrow>
        (case checkResetSequence cfg ck kt kc s of
           None \<Rightarrow> None
         | Some (ret, s', fs) \<Rightarrow>
             (case reset_run cfg es s' of None \<Rightarrow> None | Some (s'', fs') \<Rightarrow> Some (s'', fs @ fs'))))"

section \<open>Invariants\<close>

lemmas key_tables =
  coldFactorySeq_def factorySeq_def wareHouseSeq_def customerSeq_def personalityResetSeq_def ktype_def

lemma ResetResetState_fields:
  "expectedKeyIndex (fst (ResetResetState s)) = (\<lambda>_. 0)"
  "inResetMode (fst (ResetResetState s)) = False"
  "gWaitState (fst (ResetResetState s)) = gWaitState s"
  "gCurrentTime (fst (ResetResetState s)) = 0"
  "curPwrState (fst (ResetResetState s)) = curPwrState s"
  "RunReset m c \<notin> set (snd (ResetResetState s))"
  by (auto simp: ResetResetState_def releaseFocus_def Let_def)

text \<open>A machine's index designates a key of its table, never the terminator.\<close>

definition indices_ok :: "reset_state \<Rightarrow> bool" where
  "indices_ok s = (\<forall>m. expectedKeyIndex s m + 1 < length (Reset_Rules m))"

definition reset_wf :: "reset_state \<Rightarrow> bool" where
  "reset_wf s = (indices_ok s \<and> \<not> gWaitState s)"

lemma key_table_long: "Suc 0 < length (Reset_Rules m)" "Suc (Suc 0) < length (Reset_Rules m)"
  by (cases m; simp add: key_tables)+

lemma reset_wf_init: "reset_wf reset_init"
  by (auto simp: key_table_long reset_wf_def indices_ok_def reset_init_def)

lemma reset_wf_ResetResetState: "\<not> gWaitState s \<Longrightarrow> reset_wf (fst (ResetResetState s))"
  by (auto simp: key_table_long reset_wf_def indices_ok_def ResetResetState_fields)

text \<open>Only the last entry of a table is KEY_NULL.\<close>

lemma terminator:
  "i + 1 < length (Reset_Rules m) \<Longrightarrow>
     Key (Reset_Rules m ! (i + 1)) = KEY_NULL \<longleftrightarrow> i + 2 = length (Reset_Rules m)"
  by (cases m; simp add: key_tables; auto simp: less_Suc_eq numeral_eq_Suc)

text \<open>One machine and one key: it succeeds, moves its own index by one or back to the start,
  leaves the others or resets all of them, and runs its reset only when the key completes the
  table.\<close>

lemma checkResetModeSequence_step:
  assumes "reset_wf s"
  obtains s' es where "checkResetModeSequence cfg now kt kc m s = Some (s', es)"
    and "reset_wf s'"
    and "expectedKeyIndex s' m \<noteq> 0 \<Longrightarrow>
           expectedKeyIndex s' m = expectedKeyIndex s m + 1 \<and>
           Key (Reset_Rules m ! expectedKeyIndex s m) = kc"
    and "\<And>m'. m' \<noteq> m \<Longrightarrow> expectedKeyIndex s' m' \<in> {0, expectedKeyIndex s m'}"
    and "\<And>m' c. RunReset m' c \<in> set es \<Longrightarrow> m' = m \<and> c = reset_script cfg m \<and>
           Key (Reset_Rules m ! expectedKeyIndex s m) = kc \<and>
           expectedKeyIndex s m + 2 = length (Reset_Rules m)"
proof -
  let ?i = "expectedKeyIndex s m"
  have i: "?i + 1 < length (Reset_Rules m)" and w: "\<not> gWaitState s"
    using assms by (auto simp: reset_wf_def indices_ok_def)
  show ?thesis
  proof (cases "keyMode (Reset_Rules m ! ?i) = kt \<and> Key (Reset_Rules m ! ?i) = kc")
    case False
    have "checkResetModeSequence cfg now kt kc m s =
        Some (s\<lparr>expectedKeyIndex := (expectedKeyIndex s)(m := 0)\<rparr>, [])"
      unfolding checkResetModeSequence_def Let_def if_not_P [OF False] using i w by simp
    moreover have "reset_wf (s\<lparr>expectedKeyIndex := (expectedKeyIndex s)(m := 0)\<rparr>)"
      using assms key_table_long [of m] by (auto simp: reset_wf_def indices_ok_def)
    ultimately show ?thesis by (rule that) auto
  next
    case True
    show ?thesis
    proof (cases "?i + 2 = length (Reset_Rules m)")
      case last: True
      have "checkResetModeSequence cfg now kt kc m s \<noteq> None"
        using i w by (simp add: checkResetModeSequence_def Let_def case_prod_beta)
      then obtain s' es where r: "checkResetModeSequence cfg now kt kc m s = Some (s', es)" by auto
      have t: "Key (Reset_Rules m ! Suc ?i) = KEY_NULL" using terminator [OF i] last by simp
      have "expectedKeyIndex s' = (\<lambda>_. 0)" "\<not> gWaitState s'"
        "\<forall>m' c. RunReset m' c \<in> set es \<longrightarrow> m' = m \<and> c = reset_script cfg m"
        using r i w True t
        by (auto simp: checkResetModeSequence_def Let_def case_prod_beta
              ResetResetState_fields split: if_splits)
      then show ?thesis using key_table_long True last
        by (intro that [OF r]) (auto simp: reset_wf_def indices_ok_def)
    next
      case more: False
      have "checkResetModeSequence cfg now kt kc m s \<noteq> None"
        using i w by (simp add: checkResetModeSequence_def Let_def case_prod_beta)
      then obtain s' es where r: "checkResetModeSequence cfg now kt kc m s = Some (s', es)" by auto
      have t: "Key (Reset_Rules m ! Suc ?i) \<noteq> KEY_NULL" using terminator [OF i] more by simp
      have "expectedKeyIndex s' = (expectedKeyIndex s)(m := ?i + 1)" "\<not> gWaitState s'"
        "\<forall>m' c. RunReset m' c \<notin> set es"
        using r i w True t
        by (auto simp: checkResetModeSequence_def Let_def case_prod_beta split: if_splits)
      moreover have "Suc (Suc ?i) < length (Reset_Rules m)" using i more by simp
      ultimately show ?thesis using assms True
        by (intro that [OF r]) (auto simp: reset_wf_def indices_ok_def)
    qed
  qed
qed

section \<open>What has been typed\<close>

text \<open>The keys of a sequence, without the terminator; the keys that a machine has accepted are
  the last ones of a history of released keys.\<close>

definition reset_sequence :: "resetType \<Rightarrow> int list" where
  "reset_sequence m = map Key (butlast (Reset_Rules m))"

definition typed :: "int list \<Rightarrow> reset_state \<Rightarrow> resetType \<Rightarrow> bool" where
  "typed h s m = suffix (map Key (take (expectedKeyIndex s m) (Reset_Rules m))) h"

definition monitored :: "reset_cfg \<Rightarrow> resetType \<Rightarrow> bool" where
  "monitored cfg m = (m \<noteq> WARE_HOUSE \<or> \<not> DISABLE_RESET_SEQUENCE cfg)"

definition runs_ok :: "reset_cfg \<Rightarrow> int list \<Rightarrow> reset_effect list \<Rightarrow> bool" where
  "runs_ok cfg h es = (\<forall>m c. RunReset m c \<in> set es \<longrightarrow>
     monitored cfg m \<and> c = reset_script cfg m \<and> suffix (reset_sequence m) h)"

lemma runs_ok_append: "runs_ok cfg h (es @ fs) \<longleftrightarrow> runs_ok cfg h es \<and> runs_ok cfg h fs"
  by (auto simp: runs_ok_def)

lemma runs_ok_Nil [simp]: "runs_ok cfg h []"
  by (simp add: runs_ok_def)

lemma runs_ok_Reset: "runs_ok cfg h (snd (ResetResetState s))"
  by (simp add: runs_ok_def ResetResetState_fields)

lemma typed_initial: "expectedKeyIndex s m = 0 \<Longrightarrow> typed h s m"
  by (simp add: typed_def)

definition machines_inv ::
  "reset_cfg \<Rightarrow> int list \<Rightarrow> int \<Rightarrow> resetType set \<Rightarrow> reset_state \<Rightarrow> reset_effect list \<Rightarrow> bool" where
  "machines_inv cfg h kc A s es =
     (reset_wf s \<and> (\<forall>m\<in>A. monitored cfg m \<longrightarrow> typed (h @ [kc]) s m) \<and>
      (\<forall>m. m \<notin> A \<and> monitored cfg m \<longrightarrow> typed h s m) \<and> runs_ok cfg (h @ [kc]) es)"

lemma machines_inv_step:
  assumes inv: "machines_inv cfg h kc A s es" and m: "m \<notin> A" "monitored cfg m"
  shows "\<exists>s' es'. checkResetModeSequence cfg now kt kc m s = Some (s', es') \<and>
           machines_inv cfg h kc (insert m A) s' (es @ es')"
proof -
  have wf: "reset_wf s" and t: "typed h s m" using inv m by (auto simp: machines_inv_def)
  let ?i = "expectedKeyIndex s m"
  have i: "?i < length (Reset_Rules m)" using wf by (auto simp: reset_wf_def indices_ok_def dest: Suc_lessD)
  from checkResetModeSequence_step [OF wf, of cfg now kt kc m] obtain s' es' where
    r: "checkResetModeSequence cfg now kt kc m s = Some (s', es')" "reset_wf s'"
    and own: "expectedKeyIndex s' m \<noteq> 0 \<Longrightarrow> expectedKeyIndex s' m = ?i + 1 \<and> Key (Reset_Rules m ! ?i) = kc"
    and others: "\<And>m'. m' \<noteq> m \<Longrightarrow> expectedKeyIndex s' m' \<in> {0, expectedKeyIndex s m'}"
    and run: "\<And>m' c. RunReset m' c \<in> set es' \<Longrightarrow> m' = m \<and> c = reset_script cfg m \<and>
        Key (Reset_Rules m ! ?i) = kc \<and> ?i + 2 = length (Reset_Rules m)" by blast
  have ext: "suffix (map Key (take (?i + 1) (Reset_Rules m))) (h @ [kc])"
    if "Key (Reset_Rules m ! ?i) = kc"
    using t i that by (simp add: typed_def take_Suc_conv_app_nth)
  have me: "typed (h @ [kc]) s' m"
    using own ext by (cases "expectedKeyIndex s' m = 0") (simp_all add: typed_def)
  have oth: "m' \<noteq> m \<Longrightarrow> typed k s m' \<Longrightarrow> typed k s' m'" for m' k
    using others [of m'] by (auto simp: typed_def)
  have 1: "\<forall>m'\<in>insert m A. monitored cfg m' \<longrightarrow> typed (h @ [kc]) s' m'"
    using me oth inv m(1) unfolding machines_inv_def by (metis insert_iff)
  have 2: "\<forall>m'. m' \<notin> insert m A \<and> monitored cfg m' \<longrightarrow> typed h s' m'"
    using oth inv unfolding machines_inv_def by (metis insert_iff)
  have 3: "runs_ok cfg (h @ [kc]) es'"
  proof -
    have "suffix (reset_sequence m) (h @ [kc])" if "RunReset m' c \<in> set es'" for m' c
    proof -
      from run [OF that] have "length (Reset_Rules m) - 1 = ?i + 1" by arith
      then have "butlast (Reset_Rules m) = take (?i + 1) (Reset_Rules m)"
        by (simp only: butlast_conv_take)
      then show ?thesis using ext run [OF that] by (simp add: reset_sequence_def)
    qed
    then show ?thesis using run m(2) by (fastforce simp: runs_ok_def)
  qed
  show ?thesis using r inv 1 2 3 by (simp add: machines_inv_def runs_ok_append)
qed

lemma and_then_inv:
  assumes "\<exists>s es. r = Some (s, es) \<and> machines_inv cfg h kc A s es"
    and "\<And>s es. machines_inv cfg h kc A s es \<Longrightarrow>
           \<exists>s' es'. f s = Some (s', es') \<and> machines_inv cfg h kc B s' (es @ es')"
  shows "\<exists>s es. and_then r f = Some (s, es) \<and> machines_inv cfg h kc B s es"
  using assms(1) by (auto simp: and_then_def dest!: assms(2))

lemma machines_inv_same_key:
  "machines_inv cfg h kc A (s\<lparr>gIsSameKey := b\<rparr>) es = machines_inv cfg h kc A s es"
  by (simp add: machines_inv_def reset_wf_def indices_ok_def typed_def)

lemma check_all_machines_inv:
  assumes "reset_wf s" and "\<And>m. monitored cfg m \<Longrightarrow> typed h s m"
  shows "\<exists>s' es. check_all_machines cfg now kt kc s = Some (s', es) \<and>
           machines_inv cfg h kc UNIV s' es"
proof -
  have univ: "{PERSONALITY, CUSTOMER, WARE_HOUSE, FACTORY, COLD_FACTORY} = (UNIV :: resetType set)"
    using resetType.exhaust by auto
  have start: "machines_inv cfg h kc {} s []" using assms by (simp add: machines_inv_def runs_ok_def)
  have mon: "monitored cfg m" if "m \<noteq> WARE_HOUSE" for m using that by (simp add: monitored_def)
  have first: "\<exists>s' es'. checkResetModeSequence cfg now kt kc COLD_FACTORY s = Some (s', es') \<and>
      machines_inv cfg h kc {COLD_FACTORY} s' es'"
    using machines_inv_step [OF start, of COLD_FACTORY now kt] by (simp add: mon)
  have skip: "\<exists>s' es'. Some (s, []) = Some (s', es') \<and> machines_inv cfg h kc {WARE_HOUSE, FACTORY, COLD_FACTORY} s' (es @ es')"
    if "machines_inv cfg h kc {FACTORY, COLD_FACTORY} s es" "DISABLE_RESET_SEQUENCE cfg" for s es
    using that by (auto simp: machines_inv_def monitored_def)
  have wh: "\<exists>s' es'. (if DISABLE_RESET_SEQUENCE cfg then Some (s, [])
        else checkResetModeSequence cfg now kt kc WARE_HOUSE s) = Some (s', es') \<and>
        machines_inv cfg h kc {WARE_HOUSE, FACTORY, COLD_FACTORY} s' (es @ es')"
    if "machines_inv cfg h kc {FACTORY, COLD_FACTORY} s es" for s es
    using skip [OF that] machines_inv_step [OF that, of WARE_HOUSE] by (simp add: monitored_def)
  have fa: "\<exists>s' es'. checkResetModeSequence cfg now kt kc FACTORY (s\<lparr>gIsSameKey := True\<rparr>) = Some (s', es') \<and>
      machines_inv cfg h kc {FACTORY, COLD_FACTORY} s' (es @ es')"
    if "machines_inv cfg h kc {COLD_FACTORY} s es" for s es
    using that by (intro machines_inv_step) (simp_all add: machines_inv_same_key mon)
  have cu: "\<exists>s' es'. checkResetModeSequence cfg now kt kc CUSTOMER s = Some (s', es') \<and>
      machines_inv cfg h kc {CUSTOMER, WARE_HOUSE, FACTORY, COLD_FACTORY} s' (es @ es')"
    if "machines_inv cfg h kc {WARE_HOUSE, FACTORY, COLD_FACTORY} s es" for s es
    using that by (intro machines_inv_step) (simp_all add: mon)
  have pe: "\<exists>s' es'. checkResetModeSequence cfg now kt kc PERSONALITY s = Some (s', es') \<and>
      machines_inv cfg h kc {PERSONALITY, CUSTOMER, WARE_HOUSE, FACTORY, COLD_FACTORY} s' (es @ es')"
    if "machines_inv cfg h kc {CUSTOMER, WARE_HOUSE, FACTORY, COLD_FACTORY} s es" for s es
    using that by (intro machines_inv_step) (simp_all add: mon)
  have fin: "\<exists>s' es'. Some (s\<lparr>gIsSameKey := False\<rparr>, []) = Some (s', es') \<and> machines_inv cfg h kc A s' (es @ es')"
    if "machines_inv cfg h kc A s es" for s es A
    using that by (simp add: machines_inv_same_key)
  show ?thesis
    unfolding check_all_machines_def univ [symmetric]
    by (rule and_then_inv [OF and_then_inv [OF and_then_inv [OF and_then_inv [OF and_then_inv
          [OF first fa] wh] cu] pe] fin])
qed

definition reset_inv :: "reset_cfg \<Rightarrow> int list \<Rightarrow> reset_state \<Rightarrow> bool" where
  "reset_inv cfg h s = (reset_wf s \<and>
     (inResetMode s \<longrightarrow> (\<forall>m. monitored cfg m \<longrightarrow> typed h s m)))"

text \<open>The released keys of a list of events, variants translated.\<close>

definition released_key :: "int \<Rightarrow> int \<Rightarrow> int list" where
  "released_key kt kc = (if kt = KET_KEYUP then [translate_variant keyVariants kc] else [])"

definition released :: "(key_clock \<times> int \<times> int) list \<Rightarrow> int list" where
  "released es = concat (map (\<lambda>(ck, kt, kc). released_key kt kc) es)"

lemma reset_inv_Reset: "\<not> gWaitState s \<Longrightarrow> reset_inv cfg h (fst (ResetResetState s))"
  by (simp add: reset_inv_def reset_wf_ResetResetState ResetResetState_fields)

lemma reset_inv_times:
  "reset_inv cfg h (s\<lparr>gKeyPressedTime := t\<rparr>) = reset_inv cfg h s"
  "reset_inv cfg h (s\<lparr>gKeyReleasedTime := t\<rparr>) = reset_inv cfg h s"
  by (simp_all add: reset_inv_def reset_wf_def indices_ok_def typed_def)

lemma reset_inv_no_wait: "reset_inv cfg h s \<Longrightarrow> \<not> gWaitState s"
  by (simp add: reset_inv_def reset_wf_def)

lemma leave_if_all_initial_inv:
  assumes "reset_inv cfg h s"
  shows "reset_inv cfg h (fst (leave_if_all_initial s))" "runs_ok cfg h (snd (leave_if_all_initial s))"
  using assms reset_inv_no_wait [OF assms]
  by (auto simp: leave_if_all_initial_def reset_inv_Reset runs_ok_Reset)

lemma typed_any_history_off: "reset_inv cfg h s \<Longrightarrow> \<not> inResetMode s \<Longrightarrow> reset_inv cfg h' s"
  by (simp add: reset_inv_def)

lemma enter_reset_mode_inv:
  assumes "\<not> gWaitState s"
  shows "reset_inv cfg (h @ [KED_POWER]) (fst (enter_reset_mode now s)) \<and>
         runs_ok cfg h' (snd (enter_reset_mode now s))"
proof -
  have i: "expectedKeyIndex (fst (enter_reset_mode now s)) = (\<lambda>_. 1)"
    by (simp add: enter_reset_mode_def Let_def case_prod_beta ResetResetState_fields)
  have w: "\<not> gWaitState (fst (enter_reset_mode now s))"
    using assms by (simp add: enter_reset_mode_def Let_def case_prod_beta ResetResetState_fields)
  have first: "take 1 (Reset_Rules m) = [ktype KED_POWER KET_KEYUP 0 0]" for m
    by (cases m) (simp_all add: key_tables)
  have "map Key (take 1 (Reset_Rules m)) = [KED_POWER]" for m
    unfolding first by (simp add: ktype_def)
  then have "typed (h @ [KED_POWER]) (fst (enter_reset_mode now s)) m" for m
    unfolding typed_def i by (simp add: suffix_def)
  moreover have "reset_wf (fst (enter_reset_mode now s))"
    using w i key_table_long by (simp add: reset_wf_def indices_ok_def)
  moreover have "runs_ok cfg h' (snd (enter_reset_mode now s))"
    using runs_ok_Reset [of cfg h' s]
    by (simp add: enter_reset_mode_def Let_def case_prod_beta runs_ok_append) (simp add: runs_ok_def)
  ultimately show ?thesis by (simp add: reset_inv_def)
qed

lemma PwrMgr_Reset_runs: "runs_ok cfg h (PwrMgr_Reset p b)"
  by (simp add: PwrMgr_Reset_def performReboot_def Let_def runs_ok_def)

lemma power_held_inv:
  assumes "reset_inv cfg (h @ [kc]) s" and "is_power_code kc \<Longrightarrow> kc = KED_POWER"
  shows "reset_inv cfg (h @ [kc]) (fst (snd (power_held cfg ck kc s))) \<and>
         runs_ok cfg h' (snd (snd (power_held cfg ck kc s)))"
proof -
  note w = reset_inv_no_wait [OF assms(1)]
  note en = enter_reset_mode_inv [OF w, of cfg h "ck_next ck" h']
  have pk: "runs_ok cfg h' [PowerKeyFactoryReset x]" for x by (simp add: runs_ok_def)
  show ?thesis
    using assms en reset_inv_Reset [OF w, of cfg "h @ [kc]"] runs_ok_Reset [of cfg h' s]
      PwrMgr_Reset_runs [of cfg h' "curPwrState s" True] pk
    by (auto simp: power_held_def Let_def)
qed

lemma power_released_inv:
  assumes "reset_inv cfg h s" and "\<not> inResetMode s" and "is_power_code kc \<Longrightarrow> kc = KED_POWER"
  shows "reset_inv cfg (h @ [kc]) (fst (snd (power_released cfg ck kc s))) \<and>
         runs_ok cfg h' (snd (snd (power_released cfg ck kc s)))"
proof -
  let ?s1 = "s\<lparr>gKeyReleasedTime := ck_key ck\<rparr>"
  obtain s2 es2 where s2: "(if gKeyPressedTime ?s1 = 0 then ResetResetState ?s1 else (?s1, [])) = (s2, es2)"
    by fastforce
  have w: "\<not> gWaitState ?s1" using reset_inv_no_wait [OF assms(1)] by simp
  have "reset_inv cfg (h @ [kc]) s2 \<and> runs_ok cfg h' es2"
  proof (cases "gKeyPressedTime ?s1 = 0")
    case True
    with s2 reset_inv_Reset [OF w, of cfg "h @ [kc]"] runs_ok_Reset [of cfg h' ?s1] show ?thesis by simp
  next
    case False
    with s2 typed_any_history_off [OF assms(1,2)] show ?thesis by (auto simp: reset_inv_times)
  qed
  with power_held_inv [of cfg h kc s2 ck h'] assms(3) show ?thesis
    by (simp only: power_released_def Let_def s2) (simp add: case_prod_beta runs_ok_append)
qed

text \<open>One key event.\<close>

lemma checkResetSequence_inv:
  assumes "reset_inv cfg h s"
  shows "\<exists>ret s' es. checkResetSequence cfg ck kt kc0 s = Some (ret, s', es) \<and>
           reset_inv cfg (h @ released_key kt kc0) s' \<and> runs_ok cfg (h @ released_key kt kc0) es"
proof -
  let ?kc = "translate_variant keyVariants kc0"
  let ?h = "h @ released_key kt kc0"
  define r where "r = (if gCurrentTime s \<noteq> 0
             then (let s' = s\<lparr>gKeyPressedTime := ck_entry ck\<rparr> in
                   if gKeyPressedTime s' - gCurrentTime s' > gTimeOutValue s'
                   then ResetResetState s' else (s', []))
             else (s, []))"
  obtain s1 es1 where r1: "r = (s1, es1)" by (cases r)
  have "\<not> gWaitState s" using reset_inv_no_wait [OF assms] .
  then have s1: "reset_inv cfg h s1" "\<And>k. runs_ok cfg k es1"
    using assms r1 reset_inv_Reset [of "s\<lparr>gKeyPressedTime := ck_entry ck\<rparr>" cfg h]
      runs_ok_Reset [of cfg _ "s\<lparr>gKeyPressedTime := ck_entry ck\<rparr>"]
    by (auto simp: r_def Let_def reset_inv_times split: if_splits)
  have code: "is_power_code ?kc \<Longrightarrow> ?kc = KED_POWER"
    by (auto simp: is_power_code_def keyVariants_def)
  note leave = leave_if_all_initial_inv
  note unf = checkResetSequence_def r_def [symmetric] r1
  show ?thesis
  proof (cases "kt = KET_KEYUP")
    case False
    then have h: "?h = h" by (simp add: released_key_def)
    show ?thesis
      using False leave [OF s1(1)] s1(2) leave [of cfg h "s1\<lparr>gKeyPressedTime := ck_key ck\<rparr>"] s1(1)
      unfolding h by (simp add: unf Let_def case_prod_beta runs_ok_append reset_inv_times)
  next
    case up: True
    then have h: "?h = h @ [?kc]" by (simp add: released_key_def)
    show ?thesis
    proof (cases "inResetMode s1")
      case True
      have "reset_wf s1" "\<And>m. monitored cfg m \<Longrightarrow> typed h s1 m"
        using s1(1) True by (auto simp: reset_inv_def)
      from check_all_machines_inv [of s1 cfg h "ck_next ck" kt ?kc, OF this] obtain s2 es2 where
        c: "check_all_machines cfg (ck_next ck) kt ?kc s1 = Some (s2, es2)"
        and "machines_inv cfg h ?kc UNIV s2 es2" by blast
      then have "reset_inv cfg ?h s2" "runs_ok cfg ?h es2"
        by (simp_all add: machines_inv_def reset_inv_def h)
      with leave [OF this(1)] s1(2) c up True show ?thesis
        by (simp add: unf Let_def case_prod_beta runs_ok_append)
    next
      case False
      note pr = power_released_inv [OF s1(1) False code, of ck ?h]
      have off: "reset_inv cfg ?h s1" using typed_any_history_off [OF s1(1) False] .
      show ?thesis
        using up False pr s1(2) leave [OF off] leave [of cfg ?h "fst (snd (power_released cfg ck ?kc s1))"]
        by (auto simp: unf Let_def case_prod_beta runs_ok_append h [symmetric])
    qed
  qed
qed

lemma reset_run_inv:
  assumes "reset_inv cfg h s"
  shows "\<exists>s' fs. reset_run cfg es s = Some (s', fs) \<and> reset_inv cfg (h @ released es) s' \<and>
           (\<forall>m c. RunReset m c \<in> set fs \<longrightarrow> monitored cfg m \<and> c = reset_script cfg m \<and>
              (\<exists>pre post. es = pre @ post \<and> suffix (reset_sequence m) (h @ released pre)))"
  using assms
proof (induction es arbitrary: h s)
  case Nil
  then show ?case by (simp add: released_def)
next
  case (Cons e es)
  obtain ck kt kc where e: "e = (ck, kt, kc)" by (cases e)
  let ?h = "h @ released_key kt kc"
  from checkResetSequence_inv [OF Cons.prems, of ck kt kc] obtain ret s1 es1 where
    c: "checkResetSequence cfg ck kt kc s = Some (ret, s1, es1)" "reset_inv cfg ?h s1"
       "runs_ok cfg ?h es1" by blast
  from Cons.IH [OF c(2)] obtain s' fs where
    r: "reset_run cfg es s1 = Some (s', fs)" "reset_inv cfg (?h @ released es) s'"
       "\<forall>m c. RunReset m c \<in> set fs \<longrightarrow> monitored cfg m \<and> c = reset_script cfg m \<and>
          (\<exists>pre post. es = pre @ post \<and> suffix (reset_sequence m) (?h @ released pre))" by blast
  have rel: "released (e # xs) = released_key kt kc @ released xs" for xs
    by (simp add: released_def e)
  have "monitored cfg m \<and> c = reset_script cfg m \<and>
      (\<exists>pre post. e # es = pre @ post \<and> suffix (reset_sequence m) (h @ released pre))"
    if "RunReset m c \<in> set (es1 @ fs)" for m c
  proof (cases "RunReset m c \<in> set es1")
    case True
    with c(3) have "monitored cfg m" "c = reset_script cfg m" "suffix (reset_sequence m) (h @ released [e])"
      by (auto simp: runs_ok_def rel) (auto simp: released_def)
    moreover have "e # es = [e] @ es" by simp
    ultimately show ?thesis by blast
  next
    case False
    with that have "RunReset m c \<in> set fs" by simp
    with r(3) obtain pre post where p: "monitored cfg m" "c = reset_script cfg m"
      "es = pre @ post" "suffix (reset_sequence m) (?h @ released pre)" by blast
    then have "e # es = (e # pre) @ post" "suffix (reset_sequence m) (h @ released (e # pre))"
      by (simp_all add: rel)
    with p show ?thesis by blast
  qed
  moreover have "reset_run cfg (e # es) s = Some (s', es1 @ fs)" using c(1) r(1) by (simp add: e)
  moreover have "reset_inv cfg (h @ released (e # es)) s'" using r(2) unfolding rel by simp
  ultimately show ?case by blast
qed

lemma reset_inv_init: "reset_inv cfg h reset_init"
  using reset_wf_init by (simp add: reset_inv_def) (simp add: reset_init_def)

section \<open>Properties\<close>

text \<open>C34. Whatever keys are pressed and whenever, the key tables are never read past their
  terminator: every run of the reset machines from the initial state completes, and the expected
  index of every machine designates a key of its table.\<close>
theorem reset_tables_in_bounds:
  "\<exists>s' fs. reset_run cfg es reset_init = Some (s', fs) \<and>
     (\<forall>m. expectedKeyIndex s' m + 1 < length (Reset_Rules m))"
  using reset_run_inv [OF reset_inv_init [of cfg "[]"], of es]
  by (auto simp: reset_inv_def reset_wf_def indices_ok_def)


lemmas reset_eval =
  checkResetSequence_def keyVariants_def Let_def check_all_machines_def and_then_def
  checkResetModeSequence_def ResetResetState_def releaseFocus_def leave_if_all_initial_def
  power_released_def power_held_def enter_reset_mode_def is_power_code_def reset_modes_def key_tables
  POWER_KEY_HOLD_TIME_FOR_REBOOT_def POWER_KEY_HOLD_TIME_FOR_RESET_def
  POWER_KEY_HOLD_TIME_FOR_FACTORY_RESET_def INITIAL_TIME_OUT_VALUE_def

text \<open>A key pressed and released at one time, and the hold of the power key.\<close>

definition key_at :: "int \<Rightarrow> key_clock" where
  "key_at t = \<lparr>ck_entry = t, ck_key = t, ck_next = t\<rparr>"

definition press :: "int \<Rightarrow> int \<Rightarrow> (key_clock \<times> int \<times> int) list" where
  "press k t = [(key_at t, KET_KEYDOWN, k), (key_at t, KET_KEYUP, k)]"

definition hold_power :: "int \<Rightarrow> int \<Rightarrow> (key_clock \<times> int \<times> int) list" where
  "hold_power t0 t1 = [(key_at t0, KET_KEYDOWN, KED_POWER), (key_at t1, KET_KEYUP, KED_POWER)]"


text \<open>The personality reset sequence is recognised: from any idle state, holding the front panel
  power key for 2 to 10 seconds and then pressing OK (within 10 seconds), Left, Down and Power
  (each within 2 seconds of the previous one) runs the personality reset, in every build
  configuration.\<close>
lemma personality_sequence_recognised:
  assumes "grabedFocus s = False" and "gResetMonitoredOnIBus s = False" and "gLastResetEvent s = 0"
    and "inResetMode s = False" and "gWaitState s = False" and "gCurrentTime s = 0"
    and "0 < t0" and "2000 \<le> t1 - t0" and "t1 - t0 \<le> 10000" and "u1 - t1 \<le> 10000" and "t1 \<le> u1"
    and "u2 - u1 \<le> 2000" and "u1 \<le> u2" and "u3 - u2 \<le> 2000" and "u2 \<le> u3"
    and "u4 - u3 \<le> 2000" and "u3 \<le> u4"
  shows "\<exists>s' fs. reset_run cfg (hold_power t0 t1 @ press KED_OK u1 @ press KED_ARROWLEFT u2 @
             press KED_ARROWDOWN u3 @ press KED_POWER u4) s = Some (s', fs) \<and>
           RunReset PERSONALITY (reset_script cfg PERSONALITY) \<in> set fs"
  using assms
  by (cases "DISABLE_RESET_SEQUENCE cfg")
    (simp_all add: reset_eval key_at_def press_def hold_power_def split del: if_split cong: if_cong)

text \<open>A key that comes later than the time-out of the running sequence cannot complete a reset:
  it puts all machines back, leaves the reset mode, releases the focus, tells the listeners
  that the sequence failed if they were told of its progress, and runs no reset.\<close>
lemma late_key_aborts_reset:
  assumes "checkResetSequence cfg ck kt kc s = Some (ret, s', es)"
    and "gCurrentTime s \<noteq> 0" and "ck_entry ck - gCurrentTime s > gTimeOutValue s"
  shows "\<not> inResetMode s' \<and> (\<forall>m. expectedKeyIndex s' m = 0) \<and> \<not> grabedFocus s' \<and>
         (gResetMonitoredOnIBus s \<longrightarrow> ResetProgress (- 1) \<in> set es) \<and>
         (\<forall>m c. RunReset m c \<notin> set es)"
proof -
  let ?s0 = "s\<lparr>gKeyPressedTime := ck_entry ck\<rparr>"
  obtain s1 es1 where r: "ResetResetState ?s0 = (s1, es1)" by fastforce
  have R: "fst (ResetResetState u) = u\<lparr>expectedKeyIndex := (\<lambda>_. 0), inResetMode := False,
      gKeyPressedTime := 0, gKeyReleasedTime := 0, gCurrentTime := 0, gTimeOutValue := 0,
      grabedFocus := False, gResetMonitoredOnIBus := False,
      gLastResetEvent := (if gResetMonitoredOnIBus u then 0 else gLastResetEvent u)\<rparr>" for u
    by (simp add: ResetResetState_def releaseFocus_def Let_def)
  have s1: "s1 = fst (ResetResetState ?s0)" "es1 = snd (ResetResetState ?s0)" using r by simp_all
  have es1: "gResetMonitoredOnIBus s \<longrightarrow> ResetProgress (- 1) \<in> set es1" "\<And>m c. RunReset m c \<notin> set es1"
    unfolding s1 ResetResetState_fields
    by (simp_all add: ResetResetState_def releaseFocus_def Let_def)
  have off: "\<not> inResetMode s1" "\<And>u. \<not> inResetMode u \<Longrightarrow> leave_if_all_initial u = (u, [])"
    by (simp_all add: s1 R leave_if_all_initial_def)
  have k: "is_power_code x \<Longrightarrow> power_held cfg ck x (fst (ResetResetState u)) = (0, ResetResetState (fst (ResetResetState u)))" for x u
    by (simp add: power_held_def R POWER_KEY_HOLD_TIME_FOR_REBOOT_def POWER_KEY_HOLD_TIME_FOR_RESET_def
        POWER_KEY_HOLD_TIME_FOR_FACTORY_RESET_def)
  have p: "power_released cfg ck x s1 =
      (0, fst (ResetResetState (fst (ResetResetState (s1\<lparr>gKeyReleasedTime := ck_key ck\<rparr>)))),
       snd (ResetResetState (s1\<lparr>gKeyReleasedTime := ck_key ck\<rparr>)) @
       snd (ResetResetState (fst (ResetResetState (s1\<lparr>gKeyReleasedTime := ck_key ck\<rparr>)))))" for x
    using k [of x "s1\<lparr>gKeyReleasedTime := ck_key ck\<rparr>"]
    by (cases "is_power_code x")
       (simp_all add: power_released_def Let_def case_prod_beta s1 R power_held_def
          POWER_KEY_HOLD_TIME_FOR_REBOOT_def POWER_KEY_HOLD_TIME_FOR_RESET_def
          POWER_KEY_HOLD_TIME_FOR_FACTORY_RESET_def)
  have "s' = s1 \<or> s' = s1\<lparr>gKeyPressedTime := ck_key ck\<rparr> \<or>
        s' = fst (ResetResetState (fst (ResetResetState (s1\<lparr>gKeyReleasedTime := ck_key ck\<rparr>))))"
    "set es1 \<subseteq> set es" "\<And>m c. RunReset m c \<notin> set es"
    using assms off es1(2)
    by (auto simp: checkResetSequence_def Let_def r p case_prod_beta ResetResetState_fields R split: if_splits)
  with es1 show ?thesis by (auto simp: s1 R)
qed

text \<open>A wrong key ends the reset mode, except in the builds that disable the warehouse reset:
  when, in time and in reset mode, a key is released that no sequence contains, every machine
  that takes part goes back to its start, and the reset mode is left if and only if
  \_DISABLE\_RESET\_SEQUENCE is not defined.  In those builds the warehouse machine, which was
  advanced when the mode was entered, is never looked at again, so the test that all machines are
  initial fails until the time-out.\<close>
lemma wrong_key_leaves_unless_disabled:
  assumes "reset_wf s" and "inResetMode s" and "expectedKeyIndex s WARE_HOUSE = 1"
    and "ck_entry ck - gCurrentTime s \<le> gTimeOutValue s"
    and "\<forall>m. translate_variant keyVariants kc \<notin> Key ` set (Reset_Rules m)"
    and "checkResetSequence cfg ck KET_KEYUP kc s = Some (ret, s', es)"
  shows "(inResetMode s' \<longleftrightarrow> DISABLE_RESET_SEQUENCE cfg) \<and>
         (\<forall>m. m \<noteq> WARE_HOUSE \<longrightarrow> expectedKeyIndex s' m = 0)"
proof -
  let ?kc = "translate_variant keyVariants kc"
  define s1 where "s1 = (if gCurrentTime s \<noteq> 0 then s\<lparr>gKeyPressedTime := ck_entry ck\<rparr> else s)"
  have s1: "reset_wf s1" "inResetMode s1" "expectedKeyIndex s1 WARE_HOUSE = 1"
    using assms(1-3) by (auto simp: s1_def reset_wf_def indices_ok_def)
  have mis: "checkResetModeSequence cfg now kt ?kc m u =
      Some (u\<lparr>expectedKeyIndex := (expectedKeyIndex u)(m := 0)\<rparr>, [])" if "reset_wf u" for now kt m u
  proof -
    have i: "expectedKeyIndex u m + 1 < length (Reset_Rules m)" "\<not> gWaitState u"
      using that by (auto simp: reset_wf_def indices_ok_def)
    then have "Reset_Rules m ! expectedKeyIndex u m \<in> set (Reset_Rules m)" by simp
    with assms(5) have "Key (Reset_Rules m ! expectedKeyIndex u m) \<noteq> ?kc" by force
    then have n: "\<not> (keyMode (Reset_Rules m ! expectedKeyIndex u m) = kt \<and>
        Key (Reset_Rules m ! expectedKeyIndex u m) = ?kc)" by simp
    show ?thesis unfolding checkResetModeSequence_def Let_def if_not_P [OF n] using i by simp
  qed
  have wf: "reset_wf (u\<lparr>expectedKeyIndex := (expectedKeyIndex u)(m := 0)\<rparr>)"
    "reset_wf (u\<lparr>gIsSameKey := b\<rparr>)" "reset_wf (u\<lparr>gIsSameKey := b, expectedKeyIndex := expectedKeyIndex u\<rparr>)"
    if "reset_wf u" for u m b
    using that key_table_long by (auto simp: reset_wf_def indices_ok_def)
  have wf2: "reset_wf (u\<lparr>gIsSameKey := b, expectedKeyIndex := f(m := 0)\<rparr>)"
    if "reset_wf (u\<lparr>gIsSameKey := b, expectedKeyIndex := f\<rparr>)" for u b f m
    using that key_table_long by (auto simp: reset_wf_def indices_ok_def)
  obtain s2 where c: "check_all_machines cfg (ck_next ck) KET_KEYUP ?kc s1 = Some (s2, [])"
    and s2: "inResetMode s2" "\<forall>m. m \<noteq> WARE_HOUSE \<longrightarrow> expectedKeyIndex s2 m = 0"
      "expectedKeyIndex s2 WARE_HOUSE = (if DISABLE_RESET_SEQUENCE cfg then 1 else 0)"
  proof -
    let ?f = "((expectedKeyIndex s1)(COLD_FACTORY := 0))(FACTORY := 0)"
    let ?g = "if DISABLE_RESET_SEQUENCE cfg then ?f else ?f(WARE_HOUSE := 0)"
    let ?h = "(?g(CUSTOMER := 0))(PERSONALITY := 0)"
    have c0: "check_all_machines cfg (ck_next ck) KET_KEYUP ?kc s1 =
        Some (s1\<lparr>expectedKeyIndex := ?h, gIsSameKey := False\<rparr>, [])"
      by (cases "DISABLE_RESET_SEQUENCE cfg")
         (simp_all add: check_all_machines_def and_then_def mis wf wf2 s1(1))
    have h1: "?h m = 0" if "m \<noteq> WARE_HOUSE" for m using that by (cases m) simp_all
    have h2: "?h WARE_HOUSE = (if DISABLE_RESET_SEQUENCE cfg then 1 else 0)" by (simp add: s1)
    let ?s2 = "s1\<lparr>expectedKeyIndex := ?h, gIsSameKey := False\<rparr>"
    have f: "inResetMode ?s2" "expectedKeyIndex ?s2 = ?h" using s1(2) by simp_all
    show ?thesis
      by (rule that [OF c0 f(1)]; unfold f(2); use h1 h2 in blast)
  qed
  define r where "r = (if gCurrentTime s \<noteq> 0
             then (let s' = s\<lparr>gKeyPressedTime := ck_entry ck\<rparr> in
                   if gKeyPressedTime s' - gCurrentTime s' > gTimeOutValue s'
                   then ResetResetState s' else (s', []))
             else (s, []))"
  have r: "r = (s1, [])" using assms(4) by (simp add: r_def s1_def)
  have "checkResetSequence cfg ck KET_KEYUP kc s = Some (0, leave_if_all_initial s2)"
    unfolding checkResetSequence_def r_def [symmetric] r using s1(2) c
    by (simp add: Let_def case_prod_beta)
  with assms(6) have "s' = fst (leave_if_all_initial s2)" by simp
  moreover have "(\<forall>m\<in>set reset_modes. expectedKeyIndex s2 m = 0) \<longleftrightarrow> \<not> DISABLE_RESET_SEQUENCE cfg"
    using s2 by (auto simp: reset_modes_def)
  ultimately show ?thesis using s2 by (auto simp: leave_if_all_initial_def ResetResetState_fields)
qed

end
