(* ===== verification/Pwr_Mgr.thy ===== *)
theory Pwr_Mgr
  imports Deep_Sleep Reset_Seq
begin

text \<open>
  The power manager: pwrmgr2/pwrMgr.c without the settings file, which is theory Pwr\_Settings.
  The statics are one record; the deep sleep module and the reset module keep their own records
  in it and are called as the code calls them.  Each entry point (key events, RPC calls, events of
  other managers, timers, the two threads) is a function from the world of that call (clocks,
  platform and RFC answers) and the state to the state and the effects in order.  The arguments
  that the code passes uninitialised (the key code of a power change that no key caused, the
  front panel flag of a key made up by the voice handler) are inputs.  Waiting, locks and log lines
  are not modelled.
\<close>

section \<open>Configuration, state, effects\<close>

record pwr_cfg =
  FP_KEY_SENSITIVITY :: bool
  POWER_KEY_SENSITIVITY :: int
  WAKEUP_KEY :: bool
  DISABLE_KEY_POWEROFF :: bool
  DEEP_SLEEP_BUILD :: bool
  PLATCO_BOOTTO_STANDBY :: bool
  OFFLINE_MAINT_REBOOT :: bool
  ds_options :: ds_cfg
  reset_options :: reset_cfg

text \<open>The saved part of m\_settings, in memory and in the file.\<close>

record settings =
  powerState :: power_state
  deep_sleep_timeout :: nat
  nwStandbyMode :: bool

record pwr_state =
  m_settings :: settings
  settings_file :: settings
  transitionState :: power_state
  targetState :: power_state
  key_down_time :: "int \<times> int"
  key_up_time :: "int \<times> int"
  async_thread :: bool
  warehouse_thread :: bool
  ecm_connectivity_lost :: bool
  sleep_mode_deep :: bool
  xre_timer :: int
  deepSleepWakeup :: bool
  isCecLocalLogicEnabled :: bool
  isEASInProgress :: bool
  standby_time :: int
  rfcUpdated :: bool
  standby_reboot_threshold :: int
  force_reboot_threshold :: int
  deep_sleep_wakeup_timeout_sec :: nat
  IsWakeupTimerSet :: bool
  wakeup_event_src :: bool
  dsleep_bootup_event_src :: bool
  timeAtDeepSleep :: int
  nwStandby_static :: bool
  last_known_power_state :: power_state
  ds :: ds_state
  rs :: reset_state

datatype warehouse_op = WAREHOUSE_RESET | WAREHOUSE_CLEAR

datatype pwr_effect =
    RemoveBootupTimer
  | DsEffect ds_effect
  | ResetEffect reset_effect
  | PowerPrechange power_state power_state
  | SaveSettings settings
  | StandbyCleanup bool
  | PlatSetPowerState power_state
  | AddWakeupTimer nat
  | RemoveWakeupTimer
  | ModeChanged mode_change
  | StartDeepSleepThread mode_change
  | CecImageViewOn bool
  | CecActiveSource bool int int
  | DeepSleepTimeoutEvent nat
  | NetworkStandbyModeChanged bool
  | StartAsyncThread
  | SignalAsyncThread
  | RunCommand string
  | StartWareHouseThread warehouse_op
  | WareHouseCompleted warehouse_op
  | SetRebootConfig string power_state
  | MaintenanceReboot string

text \<open>The time zone answer of the system manager: the call failed, or the error flag, the state and
  the payload of the slot.\<close>

type_synonym tz_answer = "(bool \<times> int \<times> string) option"

text \<open>The world of the wake-up time: the override file (None when it cannot be opened, Some None
  when it holds no number), the local time of day, the random number and the time zone answer.\<close>

record wakeup_world =
  override_file :: "int option option"
  tm_hour :: nat
  tm_min :: nat
  tm_sec :: nat
  random :: nat
  tz :: tz_answer

record pwr_world =
  now :: int
  uptime :: int
  tod :: "int \<times> int"
  clock :: key_clock
  malloc_ok :: bool
  settings_writable :: bool
  uninit_key :: int
  uninit_fp :: bool
  wk :: wakeup_world

section \<open>Wake-up time\<close>

definition tz_table :: "(string \<times> nat) list" where
  "tz_table =
    [(''HST11'', 11), (''HST11HDT,M3.2.0,M11.1.0'', 10), (''AKST'', 9),
     (''AKST09AKDT,M3.2.0,M11.1.0'', 8), (''PST08'', 8), (''PST08PDT,M3.2.0,M11.1.0'', 8),
     (''MST07'', 7), (''MST07MDT,M3.2.0,M11.1.0'', 6), (''CST06'', 6),
     (''CST06CDT,M3.2.0,M11.1.0'', 5), (''EST05'', 5), (''EST05EDT,M3.2.0,M11.1.0'', 4)]"

text \<open>operator[] of the map adds a missing key with the value 0.\<close>

definition getTZDiffInSec :: "tz_answer \<Rightarrow> nat" where
  "getTZDiffInSec a = (case a of
       None \<Rightarrow> 6 * 3600
     | Some (error, state, payload) \<Rightarrow>
         if error then 6 * 3600
         else if state = 2
         then (if 1 < length payload
               then (case map_of tz_table payload of Some v \<Rightarrow> v | None \<Rightarrow> 0) * 3600
               else 6 * 3600)
         else 6 * 3600)"

text \<open>Seconds until 2 in the morning, one hour of random, the time zone; the additions are those of
  uint32\_t.  The override file holds minutes.\<close>

definition getWakeupTime :: "wakeup_world \<Rightarrow> nat" where
  "getWakeupTime w = (case override_file w of
       Some (Some minutes) \<Rightarrow> nat ((minutes * 60) mod 2 ^ 32)
     | _ \<Rightarrow>
         (let t = tm_hour w * 3600 + tm_min w * 60 + tm_sec w;
              base = (if tm_hour w < 2 then 2 * 3600 - t
                      else (23 * 3600 + 59 * 60 + 60 - t) + 7200)
          in (base + random w mod 3600 + getTZDiffInSec (tz w)) mod 2 ^ 32))"

section \<open>Power state changes\<close>

definition persist :: "pwr_world \<Rightarrow> pwr_state \<Rightarrow> pwr_state \<times> pwr_effect list" where
  "persist w s =
     (if settings_writable w then (s\<lparr>settings_file := m_settings s\<rparr>, [SaveSettings (m_settings s)])
      else (s, []))"

definition set_power :: "power_state \<Rightarrow> pwr_state \<Rightarrow> pwr_state" where
  "set_power p s = s\<lparr>m_settings := (m_settings s)\<lparr>powerState := p\<rparr>\<rparr>"

definition cur_power :: "pwr_state \<Rightarrow> power_state" where
  "cur_power s = powerState (m_settings s)"

text \<open>The last part of \_SetPowerState: the event, the wake-up timer, deep sleep and HDMI CEC.\<close>

definition arm_wakeup_timer ::
  "pwr_cfg \<Rightarrow> pwr_world \<Rightarrow> power_state \<Rightarrow> pwr_state \<Rightarrow> pwr_state \<times> pwr_effect list" where
  "arm_wakeup_timer cfg w new s =
     (if new = PWRMGR_STANDBY_DEEP_SLEEP
      then
        (let s1 = s\<lparr>timeAtDeepSleep := now w\<rparr>; d = ds_options cfg in
         if LLAMA_PLATCO_SKY_XIONE d
         then (if WAKEUP_TIMER_EVT d then (s1, [])
               else (s1\<lparr>wakeup_event_src := True\<rparr>, [AddWakeupTimer 1]))
         else (s1\<lparr>wakeup_event_src := True\<rparr>, [AddWakeupTimer 30]))
      else if wakeup_event_src s
      then (s\<lparr>wakeup_event_src := False, timeAtDeepSleep := 0\<rparr>, [RemoveWakeupTimer])
      else (s, []))"

definition post_mode_change ::
  "pwr_cfg \<Rightarrow> pwr_world \<Rightarrow> power_state \<Rightarrow> power_state \<Rightarrow> pwr_state \<Rightarrow> pwr_state \<times> pwr_effect list" where
  "post_mode_change cfg w cur new s =
     (let s1 = (if DEEP_SLEEP_BUILD cfg \<and> \<not> IsWakeupTimerSet s
                then s\<lparr>deep_sleep_wakeup_timeout_sec := getWakeupTime (wk w)\<rparr> else s);
          mc = \<lparr>mc_curState = cur, mc_newState = new,
                mc_deep_sleep_timeout = (if DEEP_SLEEP_BUILD cfg then deep_sleep_wakeup_timeout_sec s1 else 0),
                mc_nwStandbyMode = (DEEP_SLEEP_BUILD cfg \<and> LLAMA_PLATCO_SKY_XIONE (ds_options cfg) \<and> nwStandby_static s1)\<rparr>;
          (s2, es2) = (if DEEP_SLEEP_BUILD cfg then arm_wakeup_timer cfg w new s1 else (s1, []));
          es3 = [ModeChanged mc];
          es4 = (if DEEP_SLEEP_BUILD cfg \<and> new = PWRMGR_STANDBY_DEEP_SLEEP then [StartDeepSleepThread mc] else []);
          es5 = (if new = PWRMGR_ON
                 then [CecImageViewOn (isCecLocalLogicEnabled s2),
                       CecActiveSource (isCecLocalLogicEnabled s2) KET_KEYDOWN KED_MENU]
                 else [])
      in (s2, es2 @ es3 @ es4 @ es5))"

text \<open>Whether a change is dropped: the device is still on its way to deep sleep.\<close>

definition change_blocked :: "pwr_cfg \<Rightarrow> pwr_state \<Rightarrow> bool" where
  "change_blocked cfg s =
     (DEEP_SLEEP_BUILD cfg \<and> cur_power s = PWRMGR_STANDBY_DEEP_SLEEP \<and>
      GetPwrMgrDeepSleepStatus (ds s) = (DeepSleepStatus_InProgress, IARM_RESULT_SUCCESS))"

definition leave_deep_sleep ::
  "pwr_cfg \<Rightarrow> power_state \<Rightarrow> pwr_state \<Rightarrow> pwr_state \<times> pwr_effect list" where
  "leave_deep_sleep cfg new s =
     (if DEEP_SLEEP_BUILD cfg \<and> cur_power s = PWRMGR_STANDBY_DEEP_SLEEP \<and> new \<noteq> PWRMGR_STANDBY_DEEP_SLEEP
      then (let (d, es, r) = PwrMgrDeepSleepWakeup (ds_options cfg) (cur_power s) new (ds s)
            in (s\<lparr>ds := d\<rparr>, map DsEffect es))
      else (s, []))"

text \<open>The change itself, before the memory for the event is allocated.\<close>

definition change_power ::
  "pwr_cfg \<Rightarrow> pwr_world \<Rightarrow> power_state \<Rightarrow> int \<Rightarrow> pwr_state \<Rightarrow> pwr_state \<times> pwr_effect list" where
  "change_power cfg w new keyCode s =
     (let es1 = [PowerPrechange (cur_power s) new];
          s1 = (if OFFLINE_MAINT_REBOOT cfg \<and> new \<noteq> PWRMGR_ON then s\<lparr>standby_time := uptime w\<rparr> else s);
          (s2, es2) = persist w (set_power new s1);
          s3 = (if FP_KEY_SENSITIVITY cfg then s2\<lparr>transitionState := new, targetState := new\<rparr> else s2);
          (s4, es4) =
            (if \<not> LLAMA_PLATCO (ds_options cfg) \<and> new \<noteq> PWRMGR_ON
             then (s3\<lparr>xre_timer := now w\<rparr>, [StandbyCleanup (keyCode = KED_POWER)])
             else (s3, []))
      in (s4, es1 @ es2 @ es4 @ [PlatSetPowerState new]))"

text \<open>Any change removes the timer that would put the device back to deep sleep after a boot.\<close>

definition drop_bootup :: "pwr_cfg \<Rightarrow> pwr_state \<Rightarrow> pwr_state \<times> pwr_effect list" where
  "drop_bootup cfg s =
     (if DEEP_SLEEP_BUILD cfg \<and> dsleep_bootup_event_src s
      then (s\<lparr>dsleep_bootup_event_src := False\<rparr>, [RemoveBootupTimer]) else (s, []))"

definition SetPowerState ::
  "pwr_cfg \<Rightarrow> pwr_world \<Rightarrow> power_state \<Rightarrow> int \<Rightarrow> pwr_state \<Rightarrow>
   pwr_state \<times> pwr_effect list \<times> iarm_result" where
  "SetPowerState cfg w new keyCode s =
     (if cur_power s \<noteq> new
      then
        (let (s1, es1) = drop_bootup cfg s
         in if change_blocked cfg s1 \<and> new \<noteq> PWRMGR_STANDBY_DEEP_SLEEP
            then (s1, es1, IARM_RESULT_SUCCESS)
            else
              (let (s2, es2) = leave_deep_sleep cfg new s1;
                   (s3, es3) = change_power cfg w new keyCode s2
               in if \<not> malloc_ok w then (s3, es1 @ es2 @ es3, IARM_RESULT_OOM)
                  else (let (s4, es4) = post_mode_change cfg w (cur_power s) new s3
                        in (s4, es1 @ es2 @ es3 @ es4, IARM_RESULT_SUCCESS))))
      else (s, [], IARM_RESULT_SUCCESS))"

text \<open>\_GetPowerState: the current and the last known power state.\<close>

definition GetPowerState :: "pwr_state \<Rightarrow> power_state \<times> power_state \<times> iarm_result" where
  "GetPowerState s = (cur_power s, last_known_power_state s, IARM_RESULT_SUCCESS)"

section \<open>The asynchronous transition\<close>

text \<open>\_SetPowerStateAsync, called by the key handler, and one turn of the loop of
  \_AsyncPowerTransition: the last component tells whether the thread waits for the
  condition.\<close>

definition SetPowerStateAsync ::
  "power_state \<Rightarrow> power_state \<Rightarrow> pwr_state \<Rightarrow> pwr_state \<times> pwr_effect list" where
  "SetPowerStateAsync curState newState s =
     (let (s1, es1) = (if \<not> async_thread s then (s\<lparr>async_thread := True\<rparr>, [StartAsyncThread]) else (s, []))
      in if curState \<noteq> newState
         then
           (let s2 = s1\<lparr>transitionState := newState\<rparr>
            in if targetState s2 \<noteq> newState
               then (s2\<lparr>targetState := newState\<rparr>, es1 @ [SignalAsyncThread])
               else (s2, es1))
         else (s1, es1))"

definition AsyncPowerTransition ::
  "pwr_cfg \<Rightarrow> pwr_world \<Rightarrow> pwr_state \<Rightarrow> pwr_state \<times> pwr_effect list \<times> bool" where
  "AsyncPowerTransition cfg w s =
     (if cur_power s \<noteq> targetState s
      then (let (s', es, r) = SetPowerState cfg w (targetState s) (uninit_key w) s in (s', es, False))
      else (s, [], True))"

section \<open>Key events\<close>

abbreviation (input) "KED_VOLUMEUP \<equiv> (0x8A :: int)"
abbreviation (input) "KED_VOLUMEDOWN \<equiv> (0x8B :: int)"
abbreviation (input) "KED_MUTE \<equiv> (0x8C :: int)"
abbreviation (input) "KED_TVPOWER \<equiv> (0xC1 :: int)"
abbreviation (input) "KED_INPUTKEY \<equiv> (0xD0 :: int)"
abbreviation (input) "KED_DEEPSLEEP_WAKEUP \<equiv> (0xF1 :: int)"

definition skipWakeupKeys :: "int list" where
  "skipWakeupKeys =
    [KED_MUTE, KED_VOLUMEDOWN, KED_VOLUMEUP, KED_DISCRETE_POWER_ON, KED_DISCRETE_POWER_STANDBY,
     KED_XR2V3, KED_XR5V2, KED_XR11V2, KED_XR13, KED_XR11_NOTIFY, KED_XR15V1_NOTIFY,
     KED_INPUTKEY, KED_UNDEFINEDKEY]"

definition skipControlKeys :: "int list" where
  "skipControlKeys = [KED_XR2V3, KED_XR5V2, KED_XR11V2, KED_XR13]"

definition is_wakeup_key :: "pwr_cfg \<Rightarrow> int \<Rightarrow> bool" where
  "is_wakeup_key cfg keyCode = (WAKEUP_KEY cfg \<and> keyCode \<notin> set skipWakeupKeys)"

text \<open>The times of the front panel power key, and TIMEVAL\_DIFF in milliseconds.\<close>

definition set_keydown_time :: "pwr_cfg \<Rightarrow> pwr_world \<Rightarrow> pwr_state \<Rightarrow> pwr_state" where
  "set_keydown_time cfg w s =
     (if POWER_KEY_SENSITIVITY cfg \<noteq> 0 then s\<lparr>key_down_time := tod w, key_up_time := (0, 0)\<rparr> else s)"

definition set_keyup_time :: "pwr_cfg \<Rightarrow> pwr_world \<Rightarrow> pwr_state \<Rightarrow> pwr_state" where
  "set_keyup_time cfg w s =
     (if POWER_KEY_SENSITIVITY cfg \<noteq> 0 \<and> fst (key_down_time s) \<noteq> 0 then s\<lparr>key_up_time := tod w\<rparr> else s)"

definition timeval_diff :: "int \<times> int \<Rightarrow> int \<times> int \<Rightarrow> int" where
  "timeval_diff t2 t1 = (fst t2 - fst t1 - 1) * 1000 + (1000 * 1000 + snd t2 - snd t1) div 1000"

definition power_key_interval :: "pwr_cfg \<Rightarrow> pwr_state \<Rightarrow> int" where
  "power_key_interval cfg s =
     (if fst (key_up_time s) \<noteq> 0 \<and> fst (key_up_time s) \<ge> fst (key_down_time s)
      then timeval_diff (key_up_time s) (key_down_time s)
      else POWER_KEY_SENSITIVITY cfg)"

definition toggled :: "power_state \<Rightarrow> power_state" where
  "toggled cur = (if cur = PWRMGR_ON then PWRMGR_STANDBY else PWRMGR_ON)"

text \<open>The state a power or wake-up key asks for.\<close>

definition wanted_state :: "pwr_cfg \<Rightarrow> int \<Rightarrow> int \<Rightarrow> power_state \<Rightarrow> pwr_state \<Rightarrow> power_state" where
  "wanted_state cfg keyCode keyType cur s =
     (if keyCode = KED_DEEPSLEEP_WAKEUP \<and> keyType = KET_KEYUP \<and> cur = PWRMGR_STANDBY_DEEP_SLEEP
      then (if PLATCO_BOOTTO_STANDBY cfg then PWRMGR_STANDBY else PWRMGR_ON)
      else if sleep_mode_deep s
      then (if cur = PWRMGR_ON then PWRMGR_STANDBY_DEEP_SLEEP else PWRMGR_ON)
      else toggled cur)"

text \<open>Whether the key may change the power state; SELECT wakes the device only three seconds after
  it went to standby.\<close>

definition wakes :: "pwr_cfg \<Rightarrow> pwr_world \<Rightarrow> int \<Rightarrow> power_state \<Rightarrow> pwr_state \<Rightarrow> bool" where
  "wakes cfg w keyCode cur s =
     (cur \<noteq> PWRMGR_ON \<and> (if keyCode = KED_SELECT then now w - xre_timer s \<ge> 3 else True))"

definition key_acts :: "pwr_cfg \<Rightarrow> pwr_world \<Rightarrow> int \<Rightarrow> power_state \<Rightarrow> pwr_state \<Rightarrow> bool" where
  "key_acts cfg w keyCode cur s =
     (if WAKEUP_KEY cfg
      then (keyCode = KED_RF_POWER \<or> is_wakeup_key cfg keyCode) \<and> wakes cfg w keyCode cur s \<or> keyCode = KED_POWER
      else keyCode = KED_RF_POWER \<or> is_wakeup_key cfg keyCode \<and> wakes cfg w keyCode cur s \<or> keyCode = KED_POWER)"

definition doNothandlePowerKey :: "pwr_cfg \<Rightarrow> power_state \<Rightarrow> power_state \<Rightarrow> pwr_state \<Rightarrow> bool" where
  "doNothandlePowerKey cfg cur new s =
     (DISABLE_KEY_POWEROFF cfg \<and> cur = PWRMGR_ON \<and> new \<noteq> PWRMGR_ON \<or>
      deepSleepWakeup s \<and> cur \<noteq> PWRMGR_STANDBY_DEEP_SLEEP)"

definition change_by_key ::
  "pwr_cfg \<Rightarrow> pwr_world \<Rightarrow> int \<Rightarrow> power_state \<Rightarrow> power_state \<Rightarrow> pwr_state \<Rightarrow> pwr_state \<times> pwr_effect list" where
  "change_by_key cfg w keyCode cur new s =
     (if doNothandlePowerKey cfg cur new s then (s, [])
      else
        (let (s1, es1) =
               (if FP_KEY_SENSITIVITY cfg
                then (let s' = set_keyup_time cfg w s in
                      if power_key_interval cfg s' \<ge> POWER_KEY_SENSITIVITY cfg
                      then SetPowerStateAsync cur new s' else (s', []))
                else (let (s', es, r) = SetPowerState cfg w new keyCode s in (s', es)))
         in (s1\<lparr>rs := setResetPowerState new (rs s1)\<rparr>, es1)))"

text \<open>The reset sequence check of a key event: its result, which suppresses the power change, the
  new state and the effects; None when a key table would be left.\<close>

definition reset_check ::
  "pwr_cfg \<Rightarrow> pwr_world \<Rightarrow> int \<Rightarrow> int \<Rightarrow> bool \<Rightarrow> pwr_state \<Rightarrow> (int \<times> pwr_state \<times> pwr_effect list) option" where
  "reset_check cfg w keyCode keyType isFP s =
     (if DISABLE_KEY_POWEROFF cfg \<and> keyCode = KED_POWER \<and> isFP then Some (0, s, [])
      else if keyCode \<in> set skipControlKeys then Some (0, s, [])
      else (case checkResetSequence (reset_options cfg) (clock w) keyType keyCode (rs s) of
              None \<Rightarrow> None
            | Some (ret, rs', es) \<Rightarrow> Some (ret, s\<lparr>rs := rs'\<rparr>, map ResetEffect es)))"

definition power_or_wakeup_key ::
  "pwr_cfg \<Rightarrow> pwr_world \<Rightarrow> int \<Rightarrow> int \<Rightarrow> bool \<Rightarrow> pwr_state \<Rightarrow> (pwr_state \<times> pwr_effect list) option" where
  "power_or_wakeup_key cfg w keyCode keyType isFP s =
     (case reset_check cfg w keyCode keyType isFP s of
        None \<Rightarrow> None
      | Some (resetState, s1, es1) \<Rightarrow>
          (if keyCode = KED_POWER \<or> keyCode = KED_RF_POWER \<or> is_wakeup_key cfg keyCode
           then
             (let cur = (if FP_KEY_SENSITIVITY cfg \<and> POWER_KEY_SENSITIVITY cfg \<noteq> 0
                         then transitionState s1 else cur_power s1);
                  new = wanted_state cfg keyCode keyType cur s1
              in if key_acts cfg w keyCode cur s1 \<and> keyType = KET_KEYUP \<and> cur \<noteq> new \<and> resetState = 0
                 then (let (s2, es2) = change_by_key cfg w keyCode cur new s1 in Some (s2, es1 @ es2))
                 else Some (s1, es1))
           else Some (s1, es1)))"

definition irEventHandler ::
  "pwr_cfg \<Rightarrow> pwr_world \<Rightarrow> int \<Rightarrow> int \<Rightarrow> bool \<Rightarrow> pwr_state \<Rightarrow> (pwr_state \<times> pwr_effect list) option" where
  "irEventHandler cfg w keyCode keyType isFP s =
     (if keyType \<noteq> KET_KEYUP \<and> keyType \<noteq> KET_KEYDOWN \<and> keyType \<noteq> KET_KEYREPEAT then Some (s, [])
      else
        (let s0 = (if FP_KEY_SENSITIVITY cfg \<and> keyType = KET_KEYDOWN \<and> keyCode = KED_POWER
                   then set_keydown_time cfg w s else s)
         in if keyType = KET_KEYUP \<and> keyCode = KED_POWER \<and> isFP \<and> ecm_connectivity_lost s0
            then (let (s1, es) = persist w (set_power PWRMGR_ON s0)
                  in Some (s1, es @ map ResetEffect (PwrMgr_Reset PWRMGR_ON False)))
            else
              (let cur = cur_power s0; new = toggled cur
               in if LLAMA_PLATCO (ds_options cfg) \<and> cur = PWRMGR_STANDBY_DEEP_SLEEP \<and>
                     keyCode \<noteq> KED_DEEPSLEEP_WAKEUP
                  then Some (s0, [])
                  else if keyType = KET_KEYUP \<and> keyCode = KED_DISCRETE_POWER_ON \<and> new = PWRMGR_ON \<or>
                          keyType = KET_KEYUP \<and> keyCode = KED_DISCRETE_POWER_STANDBY \<and> new = PWRMGR_STANDBY
                  then (let (s1, es, r) = SetPowerState cfg w new keyCode s0 in Some (s1, es))
                  else if keyCode = KED_UNDEFINEDKEY then Some (s0, [])
                  else power_or_wakeup_key cfg w keyCode keyType isFP s0)))"

datatype key_src = KEYSRC_FP | KEYSRC_IR | KEYSRC_RF

definition controlEventHandler ::
  "pwr_cfg \<Rightarrow> pwr_world \<Rightarrow> int \<Rightarrow> key_src \<Rightarrow> bool \<Rightarrow> pwr_state \<Rightarrow> (pwr_state \<times> pwr_effect list) option" where
  "controlEventHandler cfg w keyCode keySrc isFP s =
     (if fst (GetPowerState s) \<noteq> PWRMGR_ON
      then
        (let powerUp =
               (if keyCode \<in> {KED_VOLUMEUP, KED_VOLUMEDOWN, KED_MUTE, KED_INPUTKEY, KED_TVPOWER}
                then keySrc = KEYSRC_RF \<or> keySrc = KEYSRC_IR
                else if keyCode \<in> {KED_PUSH_TO_TALK, KED_VOLUME_OPTIMIZE} then keySrc = KEYSRC_IR
                else False)
         in if powerUp then irEventHandler cfg w KED_POWER KET_KEYUP isFP s else Some (s, []))
      else Some (s, []))"

text \<open>The voice handler (the flag tells whether the event is one of those it handles), and the
  ghost code handler (the event data may be absent, of another revision, or carry a code of the
  power keys).\<close>

definition speechEventHandler ::
  "pwr_cfg \<Rightarrow> pwr_world \<Rightarrow> bool \<Rightarrow> pwr_state \<Rightarrow> (pwr_state \<times> pwr_effect list) option" where
  "speechEventHandler cfg w begins s =
     (if fst (GetPowerState s) \<noteq> PWRMGR_ON \<and> begins
      then irEventHandler cfg w KED_POWER KET_KEYUP (uninit_fp w) s else Some (s, []))"

definition ctrlmMessageHandler ::
  "pwr_cfg \<Rightarrow> pwr_world \<Rightarrow> (bool \<times> bool) option \<Rightarrow> pwr_state \<Rightarrow> pwr_state \<times> pwr_effect list" where
  "ctrlmMessageHandler cfg w ev s = (case ev of
       None \<Rightarrow> (s, [])
     | Some (same_revision, power_code) \<Rightarrow>
         if same_revision \<and> power_code
         then (let (s', es, r) = SetPowerState cfg w PWRMGR_ON (uninit_key w) s in (s', es))
         else (s, []))"

text \<open>A message of the older RF interfaces: its length field, whether it is a ghost command, and the
  command code.  header is sizeof the packet without its message, a size of the interface; len is
  the length the bus delivers.  The handlers of the three interfaces have the same code.\<close>

record rf_packet =
  pk_length :: nat
  pk_ghost :: bool
  pk_commandCode :: int

definition rf4ceMessageHandler ::
  "pwr_cfg \<Rightarrow> pwr_world \<Rightarrow> nat \<Rightarrow> nat \<Rightarrow> rf_packet \<Rightarrow> pwr_state \<Rightarrow> pwr_state \<times> pwr_effect list" where
  "rf4ceMessageHandler cfg w header len busMsg s =
     (if len \<noteq> pk_length busMsg + header then (s, [])
      else if pk_ghost busMsg
      then (if pk_commandCode busMsg = 1 \<or> pk_commandCode busMsg = 2
            then (let (s', es, r) = SetPowerState cfg w PWRMGR_ON (uninit_key w) s in (s', es))
            else (s, []))
      else (s, []))"

definition rfMessageHandler where "rfMessageHandler = rf4ceMessageHandler"
definition gpMessageHandler where "gpMessageHandler = rf4ceMessageHandler"

text \<open>A message of the right length acts like the ghost event of the unified control manager.\<close>

lemma rf_message_is_ghost_event:
  "rf4ceMessageHandler cfg w header len m s =
     ctrlmMessageHandler cfg w (Some (len = pk_length m + header, pk_ghost m \<and> pk_commandCode m \<in> {1, 2})) s"
  by (simp add: rf4ceMessageHandler_def ctrlmMessageHandler_def)

section \<open>Events of other managers\<close>

text \<open>ECM connectivity.  The two slots that matter, and the uptime: None when /proc/uptime cannot be
  opened, Some None when it cannot be read.\<close>

datatype sys_state_id = SYSSTATE_DSG_CA_TUNNEL | SYSSTATE_ECM_IP | SYSSTATE_OTHER

definition systemStateChangeHandler ::
  "int option option \<Rightarrow> sys_state_id \<Rightarrow> int \<Rightarrow> int \<Rightarrow> pwr_state \<Rightarrow> pwr_state" where
  "systemStateChangeHandler up stateId state error s =
     (if stateId = SYSSTATE_OTHER then s
      else if error = 1
      then
        (let (s1, secs) =
               (case up of
                  Some (Some t) \<Rightarrow> (s, t)
                | Some None \<Rightarrow> (s\<lparr>ecm_connectivity_lost := True\<rparr>, 0)
                | None \<Rightarrow> (s\<lparr>ecm_connectivity_lost := True\<rparr>, 0))
         in if secs > 300 \<and> \<not> ecm_connectivity_lost s1
            then (if stateId = SYSSTATE_ECM_IP then s1\<lparr>ecm_connectivity_lost := True\<rparr>
                  else if stateId = SYSSTATE_DSG_CA_TUNNEL \<and> state = 0
                  then s1\<lparr>ecm_connectivity_lost := True\<rparr> else s1)
            else s1)
      else if error = 0
      then (if ecm_connectivity_lost s
            then (if stateId = SYSSTATE_ECM_IP then s\<lparr>ecm_connectivity_lost := False\<rparr>
                  else if stateId = SYSSTATE_DSG_CA_TUNNEL \<and> state = 2
                  then s\<lparr>ecm_connectivity_lost := False\<rparr> else s)
            else s)
      else s)"

definition sleepModeChangeHandler :: "bool \<Rightarrow> pwr_state \<Rightarrow> pwr_state" where
  "sleepModeChangeHandler deep s = s\<lparr>sleep_mode_deep := deep\<rparr>"

definition SysModeChange :: "sys_mode \<Rightarrow> pwr_state \<Rightarrow> pwr_state \<times> iarm_result" where
  "SysModeChange newMode s =
     (if newMode = SYS_MODE_EAS then s\<lparr>isEASInProgress := True\<rparr>
      else if newMode = SYS_MODE_NORMAL then s\<lparr>isEASInProgress := False\<rparr> else s,
      IARM_RESULT_SUCCESS)"

section \<open>RPC calls\<close>

text \<open>\_HandleReboot.  The three members are arrays of 100 bytes, one after the other; a member
  without a terminator is read on into the next one.  The code terminates the first twice and
  the second never.\<close>

definition HandleReboot ::
  "string \<Rightarrow> string \<Rightarrow> string \<Rightarrow> pwr_state \<Rightarrow> pwr_effect list \<times> iarm_result" where
  "HandleReboot custom other rq s =
     (let n = PWRMGR_MAX_REBOOT_REASON_LENGTH;
          custom' = take (n - 1) custom; rq' = take (n - 1) rq;
          other' = (if length other < n then other else take n other @ rq')
      in ([SetRebootConfig custom' (cur_power s)] @
          map ResetEffect (performReboot (Some rq') (Some custom') (Some other')),
          IARM_RESULT_SUCCESS))"

definition rpc_result :: "int \<Rightarrow> iarm_result" where
  "rpc_result ret = (if ret = 0 then IARM_RESULT_SUCCESS else IARM_RESULT_IPCCORE_FAIL)"

definition ColdFactoryReset :: "pwr_effect list \<times> iarm_result" where
  "ColdFactoryReset = (case processColdFactoryReset of (ret, cs) \<Rightarrow> (map RunCommand cs, rpc_result ret))"

definition FactoryReset :: "pwr_effect list \<times> iarm_result" where
  "FactoryReset = (case processFactoryReset of (ret, cs) \<Rightarrow> (map RunCommand cs, rpc_result ret))"

definition UserFactoryReset :: "int \<Rightarrow> pwr_effect list \<times> iarm_result" where
  "UserFactoryReset status =
     (case processUserFactoryReset status of (ret, cs) \<Rightarrow> (map RunCommand cs, rpc_result ret))"

text \<open>The warehouse operations: a thread at a time, refused while one runs (the result is then
  IARM\_RESULT\_INVALID\_STATE, a non-zero code).\<close>

definition SetPowerWareHouseOperation ::
  "warehouse_op \<Rightarrow> pwr_state \<Rightarrow> pwr_state \<times> pwr_effect list \<times> iarm_result" where
  "SetPowerWareHouseOperation opn s =
     (if \<not> warehouse_thread s
      then (s\<lparr>warehouse_thread := True\<rparr>, [StartWareHouseThread opn], IARM_RESULT_SUCCESS)
      else (s, [], IARM_RESULT_INVALID_STATE))"

definition AsyncPowerWareHouseOperation ::
  "warehouse_op \<Rightarrow> int \<Rightarrow> pwr_state \<Rightarrow> pwr_state \<times> pwr_effect list" where
  "AsyncPowerWareHouseOperation opn status s =
     (let cs = snd (case opn of WAREHOUSE_RESET \<Rightarrow> processWHResetNoReboot status
                     | WAREHOUSE_CLEAR \<Rightarrow> processWHClearNoReboot status)
      in (s\<lparr>warehouse_thread := False\<rparr>, map RunCommand cs @ [WareHouseCompleted opn]))"

definition warehouse_rpc ::
  "warehouse_op \<Rightarrow> int \<times> string list \<Rightarrow> bool \<Rightarrow> pwr_state \<Rightarrow> pwr_state \<times> pwr_effect list \<times> iarm_result" where
  "warehouse_rpc opn script suppressReboot s =
     (if suppressReboot
      then (let (s', es, r) = SetPowerWareHouseOperation opn s
            in (s', es, if r = IARM_RESULT_SUCCESS then IARM_RESULT_SUCCESS else IARM_RESULT_IPCCORE_FAIL))
      else (s, map RunCommand (snd script), rpc_result (fst script)))"

definition WareHouseReset :: "int \<Rightarrow> bool \<Rightarrow> pwr_state \<Rightarrow> pwr_state \<times> pwr_effect list \<times> iarm_result" where
  "WareHouseReset status = warehouse_rpc WAREHOUSE_RESET (processWHReset status)"

definition WareHouseClear :: "bool \<Rightarrow> pwr_state \<Rightarrow> pwr_state \<times> pwr_effect list \<times> iarm_result" where
  "WareHouseClear = warehouse_rpc WAREHOUSE_CLEAR processWHClear"

definition SetDeepSleepTimeOut ::
  "pwr_world \<Rightarrow> nat option \<Rightarrow> pwr_state \<Rightarrow> pwr_state \<times> pwr_effect list \<times> iarm_result" where
  "SetDeepSleepTimeOut w arg s = (case arg of
       None \<Rightarrow> (s, [], IARM_RESULT_IPCCORE_FAIL)
     | Some t \<Rightarrow>
         (let (s', es) = persist w
                (s\<lparr>deep_sleep_wakeup_timeout_sec := t, IsWakeupTimerSet := True,
                   m_settings := (m_settings s)\<lparr>deep_sleep_timeout := t\<rparr>\<rparr>)
          in (s', es, IARM_RESULT_SUCCESS)))"

definition SetNetworkStandbyMode ::
  "pwr_cfg \<Rightarrow> pwr_world \<Rightarrow> bool option \<Rightarrow> pwr_state \<Rightarrow> pwr_state \<times> pwr_effect list \<times> iarm_result" where
  "SetNetworkStandbyMode cfg w arg s = (case arg of
       None \<Rightarrow> (s, [], IARM_RESULT_IPCCORE_FAIL)
     | Some b \<Rightarrow>
         if LLAMA_PLATCO_SKY_XIONE (ds_options cfg)
         then (let (s', es) = persist w
                     (s\<lparr>nwStandby_static := b, m_settings := (m_settings s)\<lparr>nwStandbyMode := b\<rparr>\<rparr>)
               in (s', es @ [NetworkStandbyModeChanged b], IARM_RESULT_SUCCESS))
         else (s, [], IARM_RESULT_SUCCESS))"

text \<open>The answer is None where the code leaves the caller's parameter alone.\<close>

definition GetNetworkStandbyMode :: "pwr_cfg \<Rightarrow> bool \<Rightarrow> pwr_state \<Rightarrow> bool option \<times> iarm_result" where
  "GetNetworkStandbyMode cfg has_arg s =
     (if has_arg
      then (if LLAMA_PLATCO_SKY_XIONE (ds_options cfg) then Some (nwStandbyMode (m_settings s)) else None,
            IARM_RESULT_SUCCESS)
      else (None, IARM_RESULT_IPCCORE_FAIL))"

section \<open>Timers\<close>

definition handleDeepsleepTimeoutWakeup ::
  "pwr_cfg \<Rightarrow> pwr_world \<Rightarrow> pwr_state \<Rightarrow> pwr_state \<times> pwr_effect list" where
  "handleDeepsleepTimeoutWakeup cfg w s =
     (let es1 = [DeepSleepTimeoutEvent (deep_sleep_wakeup_timeout_sec s)] @
                map DsEffect (PwrMgrDeepSleepTimeout (ds_options cfg))
      in if DISABLE_SCHD_REBOOT_AT_DEEPSLEEP (ds_options cfg)
         then (let (s', es, r) = SetPowerState cfg w PWRMGR_STANDBY_LIGHT_SLEEP (uninit_key w)
                                   (set_power PWRMGR_STANDBY_DEEP_SLEEP s)
               in (s', es1 @ es))
         else (s, es1))"

text \<open>The wake-up timer: the last component tells whether the timer stays.\<close>

definition deep_sleep_wakeup_fn ::
  "pwr_cfg \<Rightarrow> pwr_world \<Rightarrow> pwr_state \<Rightarrow> pwr_state \<times> pwr_effect list \<times> bool" where
  "deep_sleep_wakeup_fn cfg w s =
     (let timeout = nat ((now w - timeAtDeepSleep s) mod 2 ^ 32) in
      if fst (GetPwrMgrDeepSleepStatus (ds s)) \<noteq> DeepSleepStatus_InProgress \<and>
         deep_sleep_wakeup_timeout_sec s \<le> timeout
      then (let (s', es) = handleDeepsleepTimeoutWakeup cfg w s in (s', es, False))
      else (s, [], True))"

definition invoke_deep_sleep_on_bootup_timeout ::
  "pwr_cfg \<Rightarrow> pwr_world \<Rightarrow> pwr_state \<Rightarrow> pwr_state \<times> pwr_effect list" where
  "invoke_deep_sleep_on_bootup_timeout cfg w s =
     (let (s', es, r) = SetPowerState cfg w PWRMGR_STANDBY_DEEP_SLEEP (uninit_key w)
                          (set_power PWRMGR_STANDBY s)
      in (s', es))"

text \<open>\_SetWakeupSrcConfig forwards to the platform (its answer, 0 for success, is an argument); None is
  a null argument.\<close>

definition SetWakeupSrcConfig :: "(int \<Rightarrow> int \<Rightarrow> int) \<Rightarrow> (int \<times> int) option \<Rightarrow> iarm_result" where
  "SetWakeupSrcConfig plat arg = (case arg of
       None \<Rightarrow> IARM_RESULT_INVALID_PARAM
     | Some (srcType, config) \<Rightarrow>
         (if plat srcType config \<noteq> 0 then IARM_RESULT_IPCCORE_FAIL else IARM_RESULT_SUCCESS))"

text \<open>The thread that a change to deep sleep starts: it runs after the change, on the state of that
  moment.\<close>

definition DeepsleepStateChangeThread ::
  "pwr_cfg \<Rightarrow> ds_world \<Rightarrow> mode_change \<Rightarrow> pwr_state \<Rightarrow> pwr_state \<times> pwr_effect list" where
  "DeepsleepStateChangeThread cfg dw mc s =
     (let (d, es) = SetPwrMgrDeepSleepMode (ds_options cfg) dw mc (ds s) in (s\<lparr>ds := d\<rparr>, map DsEffect es))"

section \<open>Maintenance reboot\<close>

text \<open>The RFC parameters: None when the call fails.\<close>

definition isStandbyRebootEnabled :: "string option \<Rightarrow> bool" where
  "isStandbyRebootEnabled v = (case v of None \<Rightarrow> False | Some x \<Rightarrow> strncasecmp_eq x ''true'' 4)"

definition MAX_RFC_LEN :: nat where "MAX_RFC_LEN = 15"

text \<open>param.value[len]: the terminator when the text is not longer than MAX\_RFC\_LEN.\<close>

definition getStandbyRebootValue :: "string option \<Rightarrow> int" where
  "getStandbyRebootValue v = (case v of
       None \<Rightarrow> - 1
     | Some x \<Rightarrow>
         (let len = min (length x) MAX_RFC_LEN in
          if x \<noteq> [] \<and> x ! 0 = CHR 0x22 \<and> len < length x \<and> x ! len = CHR 0x22
          then atoi (take len (take (len - 1) (drop 1 x)))
          else atoi (take len (take (MAX_RFC_LEN - 1) x))))"

text \<open>An interface of getifaddrs: its name, the address family if it has an address, and whether it is
  running.\<close>

datatype addr_family = AF_INET | AF_INET6 | AF_OTHER

definition isOfflineMode :: "(string \<times> addr_family option \<times> bool) list \<Rightarrow> bool" where
  "isOfflineMode ifs =
     (\<not> list_ex (\<lambda>(ifa_name, family, running).
        family \<in> {Some AF_INET, Some AF_INET6} \<and> ifa_name \<in> {''eth0:0'', ''wlan0:0''} \<and> running) ifs)"

definition isInStandby :: "pwr_state \<Rightarrow> bool" where
  "isInStandby s = (cur_power s = PWRMGR_STANDBY \<or> cur_power s = PWRMGR_STANDBY_LIGHT_SLEEP)"

record rfc_answers =
  rfc_enable :: "string option"
  rfc_standby :: "string option"
  rfc_force :: "string option"

definition read_thresholds :: "rfc_answers \<Rightarrow> pwr_state \<Rightarrow> pwr_state" where
  "read_thresholds r s =
     (if rfcUpdated s then s
      else
        (let a = getStandbyRebootValue (rfc_standby r); b = getStandbyRebootValue (rfc_force r)
         in s\<lparr>standby_reboot_threshold := (if a = - 1 then 86400 * 3 else a),
              force_reboot_threshold := (if b = - 1 then 172800 * 3 else b), rfcUpdated := True\<rparr>))"

definition heartbeatMsg ::
  "pwr_cfg \<Rightarrow> pwr_world \<Rightarrow> rfc_answers \<Rightarrow> pwr_state \<Rightarrow> pwr_state \<times> pwr_effect list" where
  "heartbeatMsg cfg w r s =
     (if OFFLINE_MAINT_REBOOT cfg
      then
        (let s1 = read_thresholds r s in
         (s1, if isStandbyRebootEnabled (rfc_enable r) \<and> uptime w \<ge> standby_reboot_threshold s1
              then (if uptime w - standby_time s1 \<ge> 900 \<and> isInStandby s1
                    then [MaintenanceReboot ''Standby Maintenance reboot''] else []) @
                   (if uptime w \<ge> force_reboot_threshold s1
                    then [MaintenanceReboot ''Forced Maintenance reboot''] else [])
              else []))
      else (s, []))"

section \<open>Lemmas\<close>

lemma arm_wakeup_timer_fields [simp]:
  "m_settings (fst (arm_wakeup_timer cfg w new s)) = m_settings s"
  "settings_file (fst (arm_wakeup_timer cfg w new s)) = settings_file s"
  "targetState (fst (arm_wakeup_timer cfg w new s)) = targetState s"
  "transitionState (fst (arm_wakeup_timer cfg w new s)) = transitionState s"
  "ds (fst (arm_wakeup_timer cfg w new s)) = ds s"
  "rs (fst (arm_wakeup_timer cfg w new s)) = rs s"
  "isCecLocalLogicEnabled (fst (arm_wakeup_timer cfg w new s)) = isCecLocalLogicEnabled s"
  by (simp_all add: arm_wakeup_timer_def Let_def)

lemma post_mode_change_fields [simp]:
  "m_settings (fst (post_mode_change cfg w cur new s)) = m_settings s"
  "settings_file (fst (post_mode_change cfg w cur new s)) = settings_file s"
  "targetState (fst (post_mode_change cfg w cur new s)) = targetState s"
  "transitionState (fst (post_mode_change cfg w cur new s)) = transitionState s"
  "ds (fst (post_mode_change cfg w cur new s)) = ds s"
  "rs (fst (post_mode_change cfg w cur new s)) = rs s"
  by (simp_all add: post_mode_change_def Let_def case_prod_beta)

lemma leave_deep_sleep_fields [simp]:
  "m_settings (fst (leave_deep_sleep cfg new s)) = m_settings s"
  "settings_file (fst (leave_deep_sleep cfg new s)) = settings_file s"
  "targetState (fst (leave_deep_sleep cfg new s)) = targetState s"
  "transitionState (fst (leave_deep_sleep cfg new s)) = transitionState s"
  "rs (fst (leave_deep_sleep cfg new s)) = rs s"
  by (simp_all add: leave_deep_sleep_def case_prod_beta)

lemma change_power_fields [simp]:
  "m_settings (fst (change_power cfg w new k s)) = (m_settings s)\<lparr>powerState := new\<rparr>"
  "settings_file (fst (change_power cfg w new k s)) =
     (if settings_writable w then (m_settings s)\<lparr>powerState := new\<rparr> else settings_file s)"
  "targetState (fst (change_power cfg w new k s)) = (if FP_KEY_SENSITIVITY cfg then new else targetState s)"
  "transitionState (fst (change_power cfg w new k s)) = (if FP_KEY_SENSITIVITY cfg then new else transitionState s)"
  "ds (fst (change_power cfg w new k s)) = ds s"
  "rs (fst (change_power cfg w new k s)) = rs s"
  by (simp_all add: change_power_def Let_def persist_def set_power_def)

lemma drop_bootup_fields [simp]:
  "m_settings (fst (drop_bootup cfg s)) = m_settings s"
  "settings_file (fst (drop_bootup cfg s)) = settings_file s"
  "targetState (fst (drop_bootup cfg s)) = targetState s"
  "transitionState (fst (drop_bootup cfg s)) = transitionState s"
  "ds (fst (drop_bootup cfg s)) = ds s"
  "rs (fst (drop_bootup cfg s)) = rs s"
  by (simp_all add: drop_bootup_def)

lemma cur_power_cong: "m_settings s = m_settings t \<Longrightarrow> cur_power s = cur_power t"
  by (simp add: cur_power_def)

lemma cur_power_fields [simp]:
  "cur_power (fst (drop_bootup cfg s)) = cur_power s"
  "cur_power (fst (leave_deep_sleep cfg new s)) = cur_power s"
  "cur_power (fst (change_power cfg w new k s)) = new"
  "cur_power (fst (post_mode_change cfg w cur new s)) = cur_power s"
  by (simp_all add: cur_power_def)

lemma change_blocked_drop [simp]: "change_blocked cfg (fst (drop_bootup cfg s)) = change_blocked cfg s"
  by (simp add: change_blocked_def)

text \<open>The three outcomes of \_SetPowerState.\<close>

lemma SetPowerState_same: "cur_power s = new \<Longrightarrow> SetPowerState cfg w new k s = (s, [], IARM_RESULT_SUCCESS)"
  by (simp add: SetPowerState_def)

lemma SetPowerState_blocked:
  "cur_power s \<noteq> new \<Longrightarrow> change_blocked cfg s \<Longrightarrow>
     SetPowerState cfg w new k s = (fst (drop_bootup cfg s), snd (drop_bootup cfg s), IARM_RESULT_SUCCESS)"
  by (auto simp: SetPowerState_def case_prod_beta) (simp_all add: change_blocked_def)

definition changed :: "pwr_cfg \<Rightarrow> pwr_world \<Rightarrow> power_state \<Rightarrow> int \<Rightarrow> pwr_state \<Rightarrow> pwr_state" where
  "changed cfg w new k s =
     fst (change_power cfg w new k (fst (leave_deep_sleep cfg new (fst (drop_bootup cfg s)))))"

lemma SetPowerState_changes:
  assumes "cur_power s \<noteq> new" and "\<not> change_blocked cfg s"
  shows "SetPowerState cfg w new k s =
    (let s1 = fst (drop_bootup cfg s);
         es = snd (drop_bootup cfg s) @ snd (leave_deep_sleep cfg new s1) @
              snd (change_power cfg w new k (fst (leave_deep_sleep cfg new s1)))
     in if malloc_ok w
        then (fst (post_mode_change cfg w (cur_power s) new (changed cfg w new k s)),
              es @ snd (post_mode_change cfg w (cur_power s) new (changed cfg w new k s)),
              IARM_RESULT_SUCCESS)
        else (changed cfg w new k s, es, IARM_RESULT_OOM))"
  using assms by (simp add: SetPowerState_def case_prod_beta changed_def Let_def)

lemma SetPowerState_fields:
  assumes "SetPowerState cfg w new k s = (s', es, r)"
  shows "rs s' = rs s"
    and "cur_power s' = (if change_blocked cfg s then cur_power s else new)"
    and "m_settings s' = (if cur_power s = new \<or> change_blocked cfg s then m_settings s
                          else (m_settings s)\<lparr>powerState := new\<rparr>)"
    and "settings_writable w \<Longrightarrow>
         settings_file s' = (if cur_power s = new \<or> change_blocked cfg s then settings_file s
                             else m_settings s')"
    and "targetState s' = (if FP_KEY_SENSITIVITY cfg \<and> cur_power s \<noteq> new \<and> \<not> change_blocked cfg s
                           then new else targetState s)"
  using assms
  by (cases "cur_power s = new"; cases "change_blocked cfg s"; cases "malloc_ok w";
      auto simp: SetPowerState_same SetPowerState_blocked SetPowerState_changes changed_def
        change_blocked_def Let_def)+

definition same_settings :: "pwr_state \<Rightarrow> pwr_state \<Rightarrow> bool" where
  "same_settings s s' = (m_settings s' = m_settings s \<and> settings_file s' = settings_file s)"

text \<open>A completed change: in memory, and in the file when it can be written.\<close>

definition changed_to :: "pwr_world \<Rightarrow> power_state \<Rightarrow> pwr_state \<Rightarrow> pwr_state \<Rightarrow> bool" where
  "changed_to w new s s' =
     (m_settings s' = (m_settings s)\<lparr>powerState := new\<rparr> \<and>
      (settings_writable w \<longrightarrow> settings_file s' = m_settings s'))"

definition reset_ok :: "pwr_cfg \<Rightarrow> pwr_state \<Rightarrow> bool" where
  "reset_ok cfg s = (\<exists>h. reset_inv (reset_options cfg) h (rs s))"

lemma reset_ok_cong: "rs s' = rs s \<Longrightarrow> reset_ok cfg s' = reset_ok cfg s"
  by (simp add: reset_ok_def)

lemma reset_inv_setPower [simp]:
  "reset_inv c h (setResetPowerState p r) = reset_inv c h r"
  by (simp add: reset_inv_def reset_wf_def indices_ok_def typed_def setResetPowerState_def)

lemma same_settings_refl [simp]: "same_settings s s"
  by (simp add: same_settings_def)

lemma same_settings_cur: "same_settings s s' \<Longrightarrow> cur_power s' = cur_power s"
  by (simp add: same_settings_def cur_power_def)

lemma SetPowerState_settings:
  assumes "SetPowerState cfg w new k s = (s', es, r)"
  shows "if cur_power s = new \<or> change_blocked cfg s then same_settings s s' else changed_to w new s s'"
proof (cases "cur_power s = new")
  case True
  then show ?thesis using assms by (simp add: SetPowerState_same)
next
  case False
  show ?thesis
  proof (cases "change_blocked cfg s")
    case True
    then have "s' = fst (drop_bootup cfg s)" using assms False by (simp add: SetPowerState_blocked)
    then show ?thesis using True by (simp add: same_settings_def)
  next
    case nb: False
    with False SetPowerState_fields(3,4) [OF assms] show ?thesis by (simp add: changed_to_def)
  qed
qed

lemma SetPowerStateAsync_fields:
  assumes "SetPowerStateAsync cur new s = (s', es)"
  shows "same_settings s s'" "rs s' = rs s" "ds s' = ds s"
  using assms by (auto simp: SetPowerStateAsync_def same_settings_def Let_def split: if_splits)

lemma change_by_key_outcome:
  assumes "change_by_key cfg w keyCode cur new s = (s', es)"
  shows "same_settings s s' \<or> changed_to w new s s'" "reset_ok cfg s \<Longrightarrow> reset_ok cfg s'"
proof -
  obtain t ft rt where sp: "SetPowerState cfg w new keyCode s = (t, ft, rt)" by (metis prod_cases3)
  obtain u fu where au: "SetPowerStateAsync cur new (set_keyup_time cfg w s) = (u, fu)" by fastforce
  have ku: "same_settings s (set_keyup_time cfg w s)" "rs (set_keyup_time cfg w s) = rs s"
    by (simp_all add: set_keyup_time_def same_settings_def)
  have "(same_settings s s' \<or> changed_to w new s s') \<and> rs s' \<in> {rs s, setResetPowerState new (rs s)}"
  proof (cases "doNothandlePowerKey cfg cur new s")
    case True
    then have "s' = s" using assms by (auto simp: change_by_key_def Let_def)
    then show ?thesis by simp
  next
    case False
    show ?thesis
    proof (cases "FP_KEY_SENSITIVITY cfg")
      case True
      define v where "v = (if power_key_interval cfg (set_keyup_time cfg w s) \<ge> POWER_KEY_SENSITIVITY cfg
                           then u else set_keyup_time cfg w s)"
      have "s' = fst (change_by_key cfg w keyCode cur new s)" using assms by simp
      also have "\<dots> = v\<lparr>rs := setResetPowerState new (rs v)\<rparr>"
        by (simp add: change_by_key_def False True Let_def au v_def)
      finally have s': "s' = v\<lparr>rs := setResetPowerState new (rs v)\<rparr>" .
      have v: "v = u \<or> v = set_keyup_time cfg w s" by (simp add: v_def)
      have "same_settings s v \<and> rs v = rs s"
        using v ku SetPowerStateAsync_fields [OF au] by (auto simp: same_settings_def)
      then show ?thesis by (simp add: s' same_settings_def)
    next
      case fp: False
      have "s' = fst (change_by_key cfg w keyCode cur new s)" using assms by simp
      also have "\<dots> = t\<lparr>rs := setResetPowerState new (rs t)\<rparr>"
        by (simp add: change_by_key_def False fp Let_def sp)
      finally have s': "s' = t\<lparr>rs := setResetPowerState new (rs t)\<rparr>" .
      from SetPowerState_settings [OF sp] SetPowerState_fields(1) [OF sp] show ?thesis
        by (auto simp: s' same_settings_def changed_to_def split: if_splits)
    qed
  qed
  then show "same_settings s s' \<or> changed_to w new s s'" "reset_ok cfg s \<Longrightarrow> reset_ok cfg s'"
    by (auto simp: reset_ok_def)
qed

lemma reset_check_ok:
  assumes "reset_ok cfg s"
  obtains ret s1 es where "reset_check cfg w keyCode keyType isFP s = Some (ret, s1, es)"
    and "same_settings s s1" and "reset_ok cfg s1" and "s1 = s\<lparr>rs := rs s1\<rparr>"
proof -
  obtain h where "reset_inv (reset_options cfg) h (rs s)" using assms by (auto simp: reset_ok_def)
  from checkResetSequence_inv [OF this, of "clock w" keyType keyCode] obtain ret r es where
    c: "checkResetSequence (reset_options cfg) (clock w) keyType keyCode (rs s) = Some (ret, r, es)"
    and i: "\<exists>h. reset_inv (reset_options cfg) h r" by blast
  show ?thesis
  proof (cases "DISABLE_KEY_POWEROFF cfg \<and> keyCode = KED_POWER \<and> isFP \<or> keyCode \<in> set skipControlKeys")
    case True
    then have "reset_check cfg w keyCode keyType isFP s = Some (0, s, [])"
      by (auto simp: reset_check_def)
    then show ?thesis using assms by (intro that [of 0 s "[]"]) simp_all
  next
    case False
    then have "reset_check cfg w keyCode keyType isFP s = Some (ret, s\<lparr>rs := r\<rparr>, map ResetEffect es)"
      by (auto simp: reset_check_def c)
    then show ?thesis using i
      by (intro that [of ret "s\<lparr>rs := r\<rparr>" "map ResetEffect es"])
         (simp_all add: same_settings_def reset_ok_def)
  qed
qed

text \<open>A key event: it succeeds and changes nothing in the settings, or it changes the power state
  for one of the reasons listed.\<close>

definition key_reason ::
  "pwr_cfg \<Rightarrow> pwr_world \<Rightarrow> int \<Rightarrow> bool \<Rightarrow> power_state \<Rightarrow> pwr_state \<Rightarrow> bool" where
  "key_reason cfg w keyCode isFP new s =
     (keyCode = KED_POWER \<and> isFP \<and> ecm_connectivity_lost s \<and> new = PWRMGR_ON \<or>
      keyCode = KED_DISCRETE_POWER_ON \<and> new = PWRMGR_ON \<or>
      keyCode = KED_DISCRETE_POWER_STANDBY \<and> cur_power s = PWRMGR_ON \<and> new = PWRMGR_STANDBY \<or>
      keyCode = KED_POWER \<or> keyCode = KED_RF_POWER \<or>
      is_wakeup_key cfg keyCode \<and> cur_power s \<noteq> PWRMGR_ON)"

lemma power_or_wakeup_key_outcome:
  assumes "reset_ok cfg s"
  obtains s' es where "power_or_wakeup_key cfg w keyCode keyType isFP s = Some (s', es)"
    and "reset_ok cfg s'"
    and "same_settings s s' \<or>
      (\<exists>new. changed_to w new s s' \<and> keyType = KET_KEYUP \<and> key_reason cfg w keyCode isFP new s)"
proof -
  obtain ret s1 es1 where c: "reset_check cfg w keyCode keyType isFP s = Some (ret, s1, es1)"
    and s1: "same_settings s s1" "reset_ok cfg s1" "s1 = s\<lparr>rs := rs s1\<rparr>"
    by (rule reset_check_ok [OF assms])
  define cur where "cur = (if FP_KEY_SENSITIVITY cfg \<and> POWER_KEY_SENSITIVITY cfg \<noteq> 0
                         then transitionState s1 else cur_power s1)"
  define new where "new = wanted_state cfg keyCode keyType cur s1"
  obtain s2 es2 where k: "change_by_key cfg w keyCode cur new s1 = (s2, es2)" by fastforce
  note ko = change_by_key_outcome [OF k]
  define acts where "acts = ((keyCode = KED_POWER \<or> keyCode = KED_RF_POWER \<or> is_wakeup_key cfg keyCode) \<and>
      key_acts cfg w keyCode cur s1 \<and> keyType = KET_KEYUP \<and> cur \<noteq> new \<and> ret = 0)"
  have nest: "(if a then if b then x else y else y) = (if a \<and> b then x else y)"
    for a b and x y :: "(pwr_state \<times> pwr_effect list) option" by simp
  have r: "power_or_wakeup_key cfg w keyCode keyType isFP s =
      (if acts then Some (s2, es1 @ es2) else Some (s1, es1))"
    unfolding power_or_wakeup_key_def c option.case prod.case Let_def
    unfolding cur_def [symmetric] unfolding new_def [symmetric] unfolding k prod.case nest acts_def ..
  show ?thesis
  proof (cases acts)
    case False
    with r s1 show ?thesis by (intro that [of s1 es1]) simp_all
  next
    case True
    have st: "same_settings s s2 \<or> changed_to w new s s2"
      using ko(1) s1(1) by (auto simp: same_settings_def changed_to_def)
    have "same_settings s s2 \<or> key_reason cfg w keyCode isFP new s"
    proof (cases "FP_KEY_SENSITIVITY cfg")
      case fp: True
      have "same_settings s1 s2"
        using k SetPowerStateAsync_fields(1)
        by (auto simp: change_by_key_def fp Let_def set_keyup_time_def same_settings_def
              split: if_splits prod.splits)
      with s1(1) show ?thesis by (simp add: same_settings_def)
    next
      case nfp: False
      then have "cur = cur_power s" using same_settings_cur [OF s1(1)] by (simp add: cur_def)
      then show ?thesis using True
        by (auto simp: acts_def key_reason_def key_acts_def wakes_def split: if_splits)
    qed
    with st True r ko(2) [OF s1(2)] show ?thesis
      by (intro that [of s2 "es1 @ es2"]) (auto simp: acts_def)
  qed
qed

lemma irEventHandler_outcome:
  assumes "reset_ok cfg s"
  obtains s' es where "irEventHandler cfg w keyCode keyType isFP s = Some (s', es)" and "reset_ok cfg s'"
    and "same_settings s s' \<or>
      (\<exists>new. changed_to w new s s' \<and> keyType = KET_KEYUP \<and> key_reason cfg w keyCode isFP new s)"
proof -
  define s0 where "s0 = (if FP_KEY_SENSITIVITY cfg \<and> keyType = KET_KEYDOWN \<and> keyCode = KED_POWER
                   then set_keydown_time cfg w s else s)"
  have s0: "m_settings s0 = m_settings s" "settings_file s0 = settings_file s" "rs s0 = rs s"
    "ecm_connectivity_lost s0 = ecm_connectivity_lost s" "cur_power s0 = cur_power s"
    by (simp_all add: s0_def set_keydown_time_def cur_power_def)
  have same: "same_settings s0 t \<Longrightarrow> same_settings s t" and ch: "changed_to w new s0 t \<Longrightarrow> changed_to w new s t"
    and reason: "key_reason cfg w keyCode isFP new s0 = key_reason cfg w keyCode isFP new s" for t new
    using s0 by (simp_all add: same_settings_def changed_to_def key_reason_def)
  have ok0: "reset_ok cfg s0" using assms reset_ok_cong [OF s0(3)] by simp
  let ?type = "keyType \<noteq> KET_KEYUP \<and> keyType \<noteq> KET_KEYDOWN \<and> keyType \<noteq> KET_KEYREPEAT"
  let ?ecm = "keyType = KET_KEYUP \<and> keyCode = KED_POWER \<and> isFP \<and> ecm_connectivity_lost s0"
  let ?ign = "LLAMA_PLATCO (ds_options cfg) \<and> cur_power s0 = PWRMGR_STANDBY_DEEP_SLEEP \<and> keyCode \<noteq> KED_DEEPSLEEP_WAKEUP"
  let ?disc = "keyType = KET_KEYUP \<and> keyCode = KED_DISCRETE_POWER_ON \<and> toggled (cur_power s0) = PWRMGR_ON \<or>
      keyType = KET_KEYUP \<and> keyCode = KED_DISCRETE_POWER_STANDBY \<and> toggled (cur_power s0) = PWRMGR_STANDBY"
  have eq: "irEventHandler cfg w keyCode keyType isFP s =
     (if ?type then Some (s, [])
      else if ?ecm then (let (s1, es) = persist w (set_power PWRMGR_ON s0)
                  in Some (s1, es @ map ResetEffect (PwrMgr_Reset PWRMGR_ON False)))
      else if ?ign then Some (s0, [])
      else if ?disc then (let (s1, es, r) = SetPowerState cfg w (toggled (cur_power s0)) keyCode s0 in Some (s1, es))
      else if keyCode = KED_UNDEFINEDKEY then Some (s0, [])
      else power_or_wakeup_key cfg w keyCode keyType isFP s0)"
    unfolding irEventHandler_def Let_def s0_def [symmetric] ..
  obtain t es r where sp: "SetPowerState cfg w (toggled (cur_power s0)) keyCode s0 = (t, es, r)"
    by (metis prod_cases3)
  obtain p fs where pw: "power_or_wakeup_key cfg w keyCode keyType isFP s0 = Some (p, fs)" "reset_ok cfg p"
    "same_settings s0 p \<or> (\<exists>new. changed_to w new s0 p \<and> keyType = KET_KEYUP \<and> key_reason cfg w keyCode isFP new s0)"
    by (rule power_or_wakeup_key_outcome [OF ok0])
  consider "?type" | "\<not> ?type" "?ecm" | "\<not> ?type" "\<not> ?ecm" "?ign"
    | "\<not> ?type" "\<not> ?ecm" "\<not> ?ign" "?disc"
    | "\<not> ?type" "\<not> ?ecm" "\<not> ?ign" "\<not> ?disc" "keyCode = KED_UNDEFINEDKEY"
    | "\<not> ?type" "\<not> ?ecm" "\<not> ?ign" "\<not> ?disc" "keyCode \<noteq> KED_UNDEFINEDKEY" by blast
  then show ?thesis
  proof cases
    case 1
    then show ?thesis using assms that [of s "[]"] unfolding eq by simp
  next
    case 2
    obtain u us where u: "persist w (set_power PWRMGR_ON s0) = (u, us)" by fastforce
    then have "changed_to w PWRMGR_ON s0 u" "rs u = rs s0"
      by (auto simp: persist_def set_power_def changed_to_def split: if_splits)
    moreover have "key_reason cfg w keyCode isFP PWRMGR_ON s"
      using 2(2) s0(4) by (simp add: key_reason_def)
    ultimately show ?thesis
      using 2(2) that [of u "us @ map ResetEffect (PwrMgr_Reset PWRMGR_ON False)"] ch ok0 reset_ok_cong [of u s0]
      unfolding eq if_not_P [OF 2(1)] if_P [OF 2(2)] u by auto
  next
    case 3
    then show ?thesis using ok0 same [OF same_settings_refl] that [of s0 "[]"]
      unfolding eq if_not_P [OF 3(1)] if_not_P [OF 3(2)] if_P [OF 3(3)] by simp
  next
    case 4
    have "same_settings s t \<or> changed_to w (toggled (cur_power s0)) s t"
      using SetPowerState_settings [OF sp] same ch by (auto split: if_splits)
    moreover have "reset_ok cfg t" using SetPowerState_fields(1) [OF sp] ok0 reset_ok_cong [of t s0 cfg] by simp
    moreover have "keyType = KET_KEYUP \<and> key_reason cfg w keyCode isFP (toggled (cur_power s0)) s"
      using 4(4) s0(5) by (auto simp: key_reason_def toggled_def)
    ultimately show ?thesis using that [of t es]
      unfolding eq if_not_P [OF 4(1)] if_not_P [OF 4(2)] if_not_P [OF 4(3)] if_P [OF 4(4)] sp by auto
  next
    case 5
    then show ?thesis using ok0 same [OF same_settings_refl] that [of s0 "[]"]
      unfolding eq if_not_P [OF 5(1)] if_not_P [OF 5(2)] if_not_P [OF 5(3)] if_not_P [OF 5(4)] by simp
  next
    case 6
    have "same_settings s p \<or>
        (\<exists>new. changed_to w new s p \<and> keyType = KET_KEYUP \<and> key_reason cfg w keyCode isFP new s)"
      using pw(3) same ch reason by blast
    then show ?thesis using pw(1,2) that [of p fs]
      unfolding eq if_not_P [OF 6(1)] if_not_P [OF 6(2)] if_not_P [OF 6(3)] if_not_P [OF 6(4)] if_not_P [OF 6(5)]
      by blast
  qed
qed

section \<open>Event sequences\<close>

text \<open>Everything that can happen to the manager: a key, a control key, a voice event, a ghost code,
  the RPC calls that change the state, the events of the system and display managers, the timers
  (which fire only while they are armed), the threads, the heartbeat.\<close>

datatype pwr_event =
    IrKey int int bool
  | ControlKey int key_src bool
  | Voice bool
  | Ghost "(bool \<times> bool) option"
  | RfMessage nat nat rf_packet
  | CallSetPowerState power_state int
  | CallSetDeepSleepTimeOut "nat option"
  | CallSetNetworkStandbyMode "bool option"
  | CallWareHouse warehouse_op "int \<times> string list" bool
  | WareHouseThread warehouse_op int
  | SystemState "int option option" sys_state_id int int
  | SleepModeChanged bool
  | SysMode sys_mode
  | WakeupTimer
  | BootupTimer
  | TimeoutThread
  | SleepThread ds_world mode_change
  | AsyncThreadTurn
  | Heartbeat rfc_answers

fun pwr_step :: "pwr_cfg \<Rightarrow> pwr_world \<Rightarrow> pwr_event \<Rightarrow> pwr_state \<Rightarrow> (pwr_state \<times> pwr_effect list) option" where
  "pwr_step cfg w (IrKey kc kt fp) s = irEventHandler cfg w kc kt fp s"
| "pwr_step cfg w (ControlKey kc src fp) s = controlEventHandler cfg w kc src fp s"
| "pwr_step cfg w (Voice b) s = speechEventHandler cfg w b s"
| "pwr_step cfg w (Ghost g) s = Some (ctrlmMessageHandler cfg w g s)"
| "pwr_step cfg w (RfMessage header len m) s = Some (rf4ceMessageHandler cfg w header len m s)"
| "pwr_step cfg w (CallSetPowerState p k) s =
     (let (s', es, r) = SetPowerState cfg w p k s in Some (s', es))"
| "pwr_step cfg w (CallSetDeepSleepTimeOut a) s =
     (let (s', es, r) = SetDeepSleepTimeOut w a s in Some (s', es))"
| "pwr_step cfg w (CallSetNetworkStandbyMode a) s =
     (let (s', es, r) = SetNetworkStandbyMode cfg w a s in Some (s', es))"
| "pwr_step cfg w (CallWareHouse opn script b) s =
     (let (s', es, r) = warehouse_rpc opn script b s in Some (s', es))"
| "pwr_step cfg w (WareHouseThread opn status) s = Some (AsyncPowerWareHouseOperation opn status s)"
| "pwr_step cfg w (SystemState up i st err) s = Some (systemStateChangeHandler up i st err s, [])"
| "pwr_step cfg w (SleepModeChanged b) s = Some (sleepModeChangeHandler b s, [])"
| "pwr_step cfg w (SysMode m) s = Some (fst (SysModeChange m s), [])"
| "pwr_step cfg w WakeupTimer s =
     (if wakeup_event_src s
      then (let (s', es, stays) = deep_sleep_wakeup_fn cfg w s in Some (s', es)) else Some (s, []))"
| "pwr_step cfg w BootupTimer s =
     Some (if dsleep_bootup_event_src s then invoke_deep_sleep_on_bootup_timeout cfg w s else (s, []))"
| "pwr_step cfg w TimeoutThread s =
     Some (if WAKEUP_TIMER_EVT (ds_options cfg) then handleDeepsleepTimeoutWakeup cfg w s else (s, []))"
| "pwr_step cfg w (SleepThread dw mc) s = Some (DeepsleepStateChangeThread cfg dw mc s)"
| "pwr_step cfg w AsyncThreadTurn s =
     (if async_thread s
      then (let (s', es, waits) = AsyncPowerTransition cfg w s in Some (s', es)) else Some (s, []))"
| "pwr_step cfg w (Heartbeat r) s = Some (heartbeatMsg cfg w r s)"

primrec pwr_run ::
  "pwr_cfg \<Rightarrow> (pwr_world \<times> pwr_event) list \<Rightarrow> pwr_state \<Rightarrow> (pwr_state \<times> pwr_effect list) option" where
  "pwr_run cfg [] s = Some (s, [])"
| "pwr_run cfg (e # evs) s =
     (case pwr_step cfg (fst e) (snd e) s of
        None \<Rightarrow> None
      | Some (s', es) \<Rightarrow>
          (case pwr_run cfg evs s' of None \<Rightarrow> None | Some (s'', es') \<Rightarrow> Some (s'', es @ es')))"

definition settings_current :: "pwr_state \<Rightarrow> bool" where
  "settings_current s = (settings_file s = m_settings s)"

lemma current_same: "same_settings s s' \<Longrightarrow> settings_current s \<Longrightarrow> settings_current s'"
  by (simp add: same_settings_def settings_current_def)

lemma current_changed: "changed_to w new s s' \<Longrightarrow> settings_writable w \<Longrightarrow> settings_current s'"
  by (simp add: changed_to_def settings_current_def)

lemma SetPowerState_current:
  "SetPowerState cfg w new k s = (s', es, r) \<Longrightarrow> settings_writable w \<Longrightarrow> settings_current s \<Longrightarrow>
     settings_current s' \<and> (reset_ok cfg s \<longrightarrow> reset_ok cfg s')"
  using SetPowerState_settings [of cfg w new k s s' es r] SetPowerState_fields(1) [of cfg w new k s s' es r]
  by (auto simp: reset_ok_def dest: current_same current_changed split: if_splits)

text \<open>The handlers that first set the power state by hand and then change it.\<close>

lemma forced_change_current:
  assumes "SetPowerState cfg w new k (set_power p s) = (s', es, r)" and "p \<noteq> new"
    and "\<not> change_blocked cfg (set_power p s)" and "settings_writable w"
  shows "settings_current s'" and "reset_ok cfg s \<Longrightarrow> reset_ok cfg s'"
  using SetPowerState_settings [OF assms(1)] SetPowerState_fields(1) [OF assms(1)] assms(2-4)
  by (auto simp: cur_power_def set_power_def reset_ok_def dest: current_changed split: if_splits)

lemma pwr_step_current:
  assumes "settings_current s" and "reset_ok cfg s" and "settings_writable w"
    and "\<not> (WAKEUP_TIMER_EVT (ds_options cfg) \<and> DISABLE_SCHD_REBOOT_AT_DEEPSLEEP (ds_options cfg))"
  shows "\<exists>s' es. pwr_step cfg w e s = Some (s', es) \<and> settings_current s' \<and> reset_ok cfg s'"
proof -
  have ir: "\<exists>s' es. irEventHandler cfg w kc kt fp s = Some (s', es) \<and> settings_current s' \<and> reset_ok cfg s'"
    for kc kt fp
    by (rule irEventHandler_outcome [OF assms(2), of w kc kt fp])
       (use assms(1,3) current_same current_changed in blast)
  have sp: "settings_current (fst (SetPowerState cfg w new k s)) \<and> reset_ok cfg (fst (SetPowerState cfg w new k s))"
    for new k
    using SetPowerState_current [of cfg w new k s] assms(1-3) by (metis prod.collapse)
  show ?thesis
  proof (cases e)
    case WakeupTimer
    obtain t ts r where f: "SetPowerState cfg w PWRMGR_STANDBY_LIGHT_SLEEP (uninit_key w)
        (set_power PWRMGR_STANDBY_DEEP_SLEEP s) = (t, ts, r)" by (metis prod_cases3)
    have "settings_current t \<and> reset_ok cfg t"
      if "IsDeviceInDeepSleep (ds s) \<noteq> DeepSleepStatus_InProgress"
      using forced_change_current [OF f _ _ assms(3)] that assms(2)
      by (simp add: change_blocked_def GetPwrMgrDeepSleepStatus_def set_power_def)
    then show ?thesis using WakeupTimer assms(1,2)
      by (auto simp: deep_sleep_wakeup_fn_def handleDeepsleepTimeoutWakeup_def f Let_def
            GetPwrMgrDeepSleepStatus_def)
  next
    case BootupTimer
    obtain t ts r where f: "SetPowerState cfg w PWRMGR_STANDBY_DEEP_SLEEP (uninit_key w)
        (set_power PWRMGR_STANDBY s) = (t, ts, r)" by (metis prod_cases3)
    have "settings_current t \<and> reset_ok cfg t"
      using forced_change_current [OF f _ _ assms(3)] assms(2)
      by (simp add: change_blocked_def cur_power_def set_power_def)
    then show ?thesis using BootupTimer assms(1,2)
      by (simp add: invoke_deep_sleep_on_bootup_timeout_def f)
  next
    case TimeoutThread
    then show ?thesis using assms by (auto simp: handleDeepsleepTimeoutWakeup_def Let_def)
  next
    case (IrKey a b c)
    then show ?thesis using ir by simp
  next
    case (ControlKey a b c)
    then show ?thesis using ir assms(1,2) by (simp add: controlEventHandler_def Let_def)
  next
    case (Voice a)
    then show ?thesis using ir assms(1,2) by (simp add: speechEventHandler_def)
  next
    case (Ghost g)
    then show ?thesis using sp assms(1,2)
      by (auto simp: ctrlmMessageHandler_def case_prod_beta split: option.splits)
  next
    case (RfMessage a b c)
    then show ?thesis using sp assms(1,2)
      by (auto simp: rf4ceMessageHandler_def case_prod_beta)
  next
    case (CallSetPowerState p k)
    then show ?thesis using sp by (simp add: case_prod_beta)
  next
    case AsyncThreadTurn
    then show ?thesis using sp assms(1,2) by (simp add: AsyncPowerTransition_def case_prod_beta)
  qed (use assms(1-3) in \<open>auto simp: SetDeepSleepTimeOut_def SetNetworkStandbyMode_def warehouse_rpc_def
        SetPowerWareHouseOperation_def AsyncPowerWareHouseOperation_def systemStateChangeHandler_def
        sleepModeChangeHandler_def SysModeChange_def DeepsleepStateChangeThread_def heartbeatMsg_def
        read_thresholds_def persist_def settings_current_def reset_ok_def Let_def case_prod_beta
        split: option.splits\<close>)
qed

lemma pwr_run_current:
  assumes "\<And>w e. (w, e) \<in> set evs \<Longrightarrow> settings_writable w"
    and "\<not> (WAKEUP_TIMER_EVT (ds_options cfg) \<and> DISABLE_SCHD_REBOOT_AT_DEEPSLEEP (ds_options cfg))"
    and "settings_current s" and "reset_ok cfg s"
  shows "\<exists>s' es. pwr_run cfg evs s = Some (s', es) \<and> settings_current s' \<and> reset_ok cfg s'"
  using assms(1,3,4)
proof (induction evs arbitrary: s)
  case (Cons e evs)
  obtain w ev where e: "e = (w, ev)" by fastforce
  have w: "settings_writable w" using Cons.prems(1) e by auto
  obtain t es where t: "pwr_step cfg w ev s = Some (t, es)" "settings_current t" "reset_ok cfg t"
    using pwr_step_current [OF Cons.prems(2,3) w assms(2)] by blast
  have "\<exists>s' es. pwr_run cfg evs t = Some (s', es) \<and> settings_current s' \<and> reset_ok cfg s'"
    using Cons.prems(1) t(2,3) by (intro Cons.IH) auto
  then show ?case using t(1) by (auto simp: e)
qed simp

text \<open>The statics at the end of PWRMgr\_Start, with the settings that \_InitSettings loaded.\<close>

definition pwr_init :: "settings \<Rightarrow> power_state \<Rightarrow> bool \<Rightarrow> bool \<Rightarrow> int \<Rightarrow> pwr_state" where
  "pwr_init st lastp cec wake t0 =
     \<lparr>m_settings = st, settings_file = st, transitionState = powerState st, targetState = powerState st,
      key_down_time = (0, 0), key_up_time = (0, 0), async_thread = False, warehouse_thread = False,
      ecm_connectivity_lost = False, sleep_mode_deep = False, xre_timer = t0, deepSleepWakeup = wake,
      isCecLocalLogicEnabled = cec, isEASInProgress = False, standby_time = 0, rfcUpdated = False,
      standby_reboot_threshold = 86400 * 3, force_reboot_threshold = 172800 * 3,
      deep_sleep_wakeup_timeout_sec = deep_sleep_timeout st, IsWakeupTimerSet = False,
      wakeup_event_src = False,
      dsleep_bootup_event_src = (powerState st = PWRMGR_STANDBY_DEEP_SLEEP),
      timeAtDeepSleep = 0, nwStandby_static = nwStandbyMode st, last_known_power_state = lastp,
      ds = ds_init, rs = reset_init\<rparr>"

section \<open>Helpers of the properties\<close>

text \<open>The effects that other processes and the next start see of a mode change.\<close>

fun protocol_effect :: "pwr_effect \<Rightarrow> bool" where
  "protocol_effect (PowerPrechange _ _) = True"
| "protocol_effect (SaveSettings _) = True"
| "protocol_effect (PlatSetPowerState _) = True"
| "protocol_effect (ModeChanged _) = True"
| "protocol_effect _ = False"

lemma protocol_Ds [simp]: "filter protocol_effect (map DsEffect es) = []"
  by (induction es) simp_all

lemma leave_deep_sleep_effects:
  "\<exists>es. snd (leave_deep_sleep cfg new s) = map DsEffect es \<and>
     (PlatDeepSleepWakeup \<in> set es) =
       (DEEP_SLEEP_BUILD cfg \<and> cur_power s = PWRMGR_STANDBY_DEEP_SLEEP \<and> new \<noteq> PWRMGR_STANDBY_DEEP_SLEEP)"
proof -
  have wk: "PlatDeepSleepWakeup \<in> set (snd (wakeup_body c PWRMGR_STANDBY_DEEP_SLEEP new d))"
    if "new \<noteq> PWRMGR_STANDBY_DEEP_SLEEP" for c d
    using that by (simp add: wakeup_body_def Let_def case_prod_beta)
  show ?thesis
    using wk by (auto simp: leave_deep_sleep_def PwrMgrDeepSleepWakeup_def case_prod_beta)
qed

lemma drop_bootup_effects: "snd (drop_bootup cfg s) \<in> {[], [RemoveBootupTimer]}"
  by (simp add: drop_bootup_def)

text \<open>ECM connectivity: the events that decide, and what they decide.\<close>

type_synonym ecm_event = "int option option \<times> sys_state_id \<times> int \<times> int"

fun ecm_loss :: "ecm_event \<Rightarrow> bool" where
  "ecm_loss (up, i, state, error) =
     (i \<noteq> SYSSTATE_OTHER \<and> error = 1 \<and>
      (case up of Some (Some t) \<Rightarrow> t > 300 \<and> (i = SYSSTATE_ECM_IP \<or> state = 0) | _ \<Rightarrow> True))"

fun ecm_recovery :: "ecm_event \<Rightarrow> bool" where
  "ecm_recovery (up, i, state, error) =
     (i \<noteq> SYSSTATE_OTHER \<and> error = 0 \<and> (i = SYSSTATE_ECM_IP \<or> state = 2))"

definition ecm_run :: "ecm_event list \<Rightarrow> pwr_state \<Rightarrow> pwr_state" where
  "ecm_run evs s = foldl (\<lambda>s (up, i, state, error). systemStateChangeHandler up i state error s) s evs"

lemma ecm_step:
  "ecm_connectivity_lost (systemStateChangeHandler up i state error s) =
     (if ecm_loss (up, i, state, error) then True
      else if ecm_recovery (up, i, state, error) then False else ecm_connectivity_lost s)"
  by (cases i) (auto simp: systemStateChangeHandler_def Let_def split: option.splits)

lemma ecm_run_flag:
  "ecm_connectivity_lost (ecm_run evs s) =
     (let d = filter (\<lambda>e. ecm_loss e \<or> ecm_recovery e) evs
      in if d = [] then ecm_connectivity_lost s else ecm_loss (last d))"
proof (induction evs rule: rev_induct)
  case (snoc e evs)
  obtain up i state error where e: "e = (up, i, state, error)" by (metis prod_cases4)
  have "ecm_run (evs @ [e]) s = systemStateChangeHandler up i state error (ecm_run evs s)"
    by (simp add: ecm_run_def e)
  then show ?case using snoc.IH by (auto simp: ecm_step e Let_def)
qed (simp add: ecm_run_def)

text \<open>Turns of the transition thread, one world each: the state, the effects, and whether it waited
  in any turn.\<close>

primrec async_turns ::
  "pwr_cfg \<Rightarrow> pwr_world list \<Rightarrow> pwr_state \<Rightarrow> pwr_state \<times> pwr_effect list \<times> bool" where
  "async_turns cfg [] s = (s, [], False)"
| "async_turns cfg (w # ws) s =
     (let (s1, es1, b1) = AsyncPowerTransition cfg w s; (s2, es2, b2) = async_turns cfg ws s1
      in (s2, es1 @ es2, b1 \<or> b2))"

definition async_requests :: "(power_state \<times> power_state) list \<Rightarrow> pwr_state \<Rightarrow> pwr_state" where
  "async_requests rqs s = foldl (\<lambda>s (cur, new). fst (SetPowerStateAsync cur new s)) s rqs"

lemma async_requests_fields:
  assumes "\<forall>r\<in>set rqs. fst r \<noteq> snd r"
  shows "same_settings s (async_requests rqs s) \<and> ds (async_requests rqs s) = ds s \<and>
    targetState (async_requests rqs s) = (if rqs = [] then targetState s else snd (last rqs))"
  using assms
proof (induction rqs rule: rev_induct)
  case (snoc r rqs)
  obtain cur new where r: "r = (cur, new)" by fastforce
  obtain t es where t: "SetPowerStateAsync cur new (async_requests rqs s) = (t, es)" by fastforce
  have "targetState t = new"
    using t snoc.prems r by (auto simp: SetPowerStateAsync_def Let_def split: if_splits)
  moreover have "async_requests (rqs @ [r]) s = t" using t by (simp add: async_requests_def r)
  ultimately show ?case using snoc.IH snoc.prems SetPowerStateAsync_fields [OF t] r
    by (auto simp: same_settings_def)
qed (simp add: async_requests_def)

lemma same_settings_blocked:
  "same_settings s s' \<Longrightarrow> ds s' = ds s \<Longrightarrow> change_blocked cfg s' = change_blocked cfg s"
  by (simp add: change_blocked_def same_settings_cur)

fun is_mode_change :: "pwr_effect \<Rightarrow> bool" where
  "is_mode_change (ModeChanged _) = True"
| "is_mode_change _ = False"

lemma mode_changes_Ds [simp]: "filter is_mode_change (map DsEffect es) = []"
  by (induction es) simp_all

lemma mode_changes_of_change:
  assumes "cur_power s \<noteq> new" and "\<not> change_blocked cfg s" and "malloc_ok w"
  shows "length (filter is_mode_change (fst (snd (SetPowerState cfg w new k s)))) = 1"
proof -
  have "filter is_mode_change (snd (leave_deep_sleep cfg new t)) = []" for t
    using leave_deep_sleep_effects [of cfg new t] by auto
  moreover have "filter is_mode_change (snd (drop_bootup cfg s)) = []"
    using drop_bootup_effects [of cfg s] by auto
  moreover have "filter is_mode_change (snd (change_power cfg w new k t)) = []" for t
    by (simp add: change_power_def Let_def persist_def)
  moreover have "length (filter is_mode_change (snd (post_mode_change cfg w c new t))) = 1" for c t
    by (simp add: post_mode_change_def arm_wakeup_timer_def Let_def case_prod_beta)
  ultimately show ?thesis using assms by (simp add: SetPowerState_changes Let_def)
qed

section \<open>Properties\<close>

text \<open>C3. The settings file follows the settings.  Starting from any loaded settings, after any
  sequence of key events, RPC calls, events of other managers, timers and threads in any order,
  every handler has returned (no key table was left) and the file holds the settings that are in
  memory, provided the file can be written and the build does not combine the wake-up timer
  event with the disabled maintenance reboot (there a thread sets the power state without
  saving it).\<close>
theorem settings_file_follows_memory:
  assumes "\<And>w e. (w, e) \<in> set evs \<Longrightarrow> settings_writable w"
    and "\<not> (WAKEUP_TIMER_EVT (ds_options cfg) \<and> DISABLE_SCHD_REBOOT_AT_DEEPSLEEP (ds_options cfg))"
  shows "\<exists>s' es. pwr_run cfg evs (pwr_init st lastp cec wake t0) = Some (s', es) \<and>
           settings_file s' = m_settings s'"
proof -
  let ?s = "pwr_init st lastp cec wake t0"
  have "settings_current ?s" by (simp add: settings_current_def pwr_init_def)
  moreover have "reset_ok cfg ?s"
    using reset_inv_init [of "reset_options cfg" "[]"] by (auto simp: reset_ok_def pwr_init_def)
  ultimately have "\<exists>s' es. pwr_run cfg evs ?s = Some (s', es) \<and> settings_current s' \<and> reset_ok cfg s'"
    using assms by (intro pwr_run_current) auto
  then show ?thesis unfolding settings_current_def by blast
qed

lemma SetPowerState_parts:
  assumes "cur_power s \<noteq> new" and "\<not> change_blocked cfg s" and "malloc_ok w"
    and "SetPowerState cfg w new k s = (s', es, r)"
  obtains ls s2 s3 where "s3 = fst (change_power cfg w new k s2)"
    and "es = snd (drop_bootup cfg s) @ map DsEffect ls @ snd (change_power cfg w new k s2) @
         snd (post_mode_change cfg w (cur_power s) new s3)"
    and "s' = fst (post_mode_change cfg w (cur_power s) new s3)" and "r = IARM_RESULT_SUCCESS"
    and "(PlatDeepSleepWakeup \<in> set ls) = (DEEP_SLEEP_BUILD cfg \<and> cur_power s = PWRMGR_STANDBY_DEEP_SLEEP \<and>
       new \<noteq> PWRMGR_STANDBY_DEEP_SLEEP)" and "cur_power s2 = cur_power s"
proof -
  define s1 where "s1 = fst (drop_bootup cfg s)"
  define s2 where "s2 = fst (leave_deep_sleep cfg new s1)"
  obtain ls where ls: "snd (leave_deep_sleep cfg new s1) = map DsEffect ls"
    "(PlatDeepSleepWakeup \<in> set ls) = (DEEP_SLEEP_BUILD cfg \<and> cur_power s1 = PWRMGR_STANDBY_DEEP_SLEEP \<and>
       new \<noteq> PWRMGR_STANDBY_DEEP_SLEEP)"
    using leave_deep_sleep_effects [of cfg new s1] by blast
  have c: "cur_power s1 = cur_power s" "cur_power s2 = cur_power s" by (simp_all add: s1_def s2_def)
  have ch: "changed cfg w new k s = fst (change_power cfg w new k s2)" by (simp add: changed_def s1_def s2_def)
  have "(s', es, r) =
      (fst (post_mode_change cfg w (cur_power s) new (fst (change_power cfg w new k s2))),
       snd (drop_bootup cfg s) @ map DsEffect ls @ snd (change_power cfg w new k s2) @
         snd (post_mode_change cfg w (cur_power s) new (fst (change_power cfg w new k s2))), IARM_RESULT_SUCCESS)"
    using SetPowerState_changes [OF assms(1,2), of w k] assms(3,4) ls(1)
    by (simp add: Let_def ch s1_def [symmetric] s2_def [symmetric])
  then show ?thesis using that [OF refl] ls(2) c by simp
qed

text \<open>C2. The protocol of a power state change.  A change that is not dropped announces the new
  state, saves it, sets it in the platform and broadcasts it, each exactly once and in that order,
  with the old and the new state; the deep sleep module is woken before the announcement exactly
  when the device leaves deep sleep, the thread that enters deep sleep is started exactly for that
  state, and afterwards the wake-up timer is armed only in deep sleep.\<close>
theorem mode_change_protocol:
  assumes "cur_power s \<noteq> new" and "\<not> change_blocked cfg s" and "malloc_ok w" and "settings_writable w"
    and "SetPowerState cfg w new k s = (s', es, r)"
  shows "r = IARM_RESULT_SUCCESS \<and> cur_power s' = new \<and>
    (\<exists>mc. filter protocol_effect es =
        [PowerPrechange (cur_power s) new, SaveSettings (m_settings s'), PlatSetPowerState new, ModeChanged mc] \<and>
      mc_curState mc = cur_power s \<and> mc_newState mc = new \<and>
      (StartDeepSleepThread mc \<in> set es) = (DEEP_SLEEP_BUILD cfg \<and> new = PWRMGR_STANDBY_DEEP_SLEEP)) \<and>
    (DsEffect PlatDeepSleepWakeup \<in> set (takeWhile (\<lambda>e. e \<noteq> PowerPrechange (cur_power s) new) es)) =
      (DEEP_SLEEP_BUILD cfg \<and> cur_power s = PWRMGR_STANDBY_DEEP_SLEEP) \<and>
    (if DEEP_SLEEP_BUILD cfg \<and> new \<noteq> PWRMGR_STANDBY_DEEP_SLEEP then \<not> wakeup_event_src s' else True)"
proof -
  obtain ls s2 s3 where s3: "s3 = fst (change_power cfg w new k s2)"
    and es: "es = snd (drop_bootup cfg s) @ map DsEffect ls @ snd (change_power cfg w new k s2) @
         snd (post_mode_change cfg w (cur_power s) new s3)"
    and s': "s' = fst (post_mode_change cfg w (cur_power s) new s3)" and r: "r = IARM_RESULT_SUCCESS"
    and ls: "(PlatDeepSleepWakeup \<in> set ls) = (DEEP_SLEEP_BUILD cfg \<and> cur_power s = PWRMGR_STANDBY_DEEP_SLEEP \<and>
       new \<noteq> PWRMGR_STANDBY_DEEP_SLEEP)" and c2: "cur_power s2 = cur_power s"
    by (rule SetPowerState_parts [OF assms(1,2,3,5)])
  have m3: "m_settings s3 = m_settings s'" and new3: "cur_power s3 = new" by (simp_all add: s' s3)
  have cp: "filter protocol_effect (snd (change_power cfg w new k s2)) =
      [PowerPrechange (cur_power s) new, SaveSettings (m_settings s3), PlatSetPowerState new]"
    "hd (snd (change_power cfg w new k s2)) = PowerPrechange (cur_power s) new"
    "snd (change_power cfg w new k s2) \<noteq> []"
    "\<And>mc. StartDeepSleepThread mc \<notin> set (snd (change_power cfg w new k s2))"
    using assms(4) c2 by (simp_all add: change_power_def s3 Let_def persist_def set_power_def)
  obtain mc where mc: "filter protocol_effect (snd (post_mode_change cfg w (cur_power s) new s3)) = [ModeChanged mc]"
    "mc_curState mc = cur_power s" "mc_newState mc = new"
    "(StartDeepSleepThread mc \<in> set (snd (post_mode_change cfg w (cur_power s) new s3))) =
       (DEEP_SLEEP_BUILD cfg \<and> new = PWRMGR_STANDBY_DEEP_SLEEP)"
    by (simp add: post_mode_change_def arm_wakeup_timer_def Let_def case_prod_beta)
  have db: "filter protocol_effect (snd (drop_bootup cfg s)) = []"
    "\<And>m. StartDeepSleepThread m \<notin> set (snd (drop_bootup cfg s))"
    "\<forall>e\<in>set (snd (drop_bootup cfg s)). e \<noteq> PowerPrechange (cur_power s) new \<and> e \<noteq> DsEffect PlatDeepSleepWakeup"
    using drop_bootup_effects [of cfg s] by auto
  have "takeWhile (\<lambda>e. e \<noteq> PowerPrechange (cur_power s) new) es = snd (drop_bootup cfg s) @ map DsEffect ls"
  proof -
    have "es = (snd (drop_bootup cfg s) @ map DsEffect ls) @ PowerPrechange (cur_power s) new #
        (tl (snd (change_power cfg w new k s2)) @ snd (post_mode_change cfg w (cur_power s) new s3))"
      using cp(2,3) by (simp add: es) (metis append_Cons list.collapse)
    then show ?thesis
      by (simp only: takeWhile_append takeWhile.simps) (use db(3) in auto)
  qed
  then have woken: "(DsEffect PlatDeepSleepWakeup \<in> set (takeWhile (\<lambda>e. e \<noteq> PowerPrechange (cur_power s) new) es)) =
      (DEEP_SLEEP_BUILD cfg \<and> cur_power s = PWRMGR_STANDBY_DEEP_SLEEP)"
    using ls db(3) assms(1) by auto
  have "DEEP_SLEEP_BUILD cfg \<and> new \<noteq> PWRMGR_STANDBY_DEEP_SLEEP \<Longrightarrow> \<not> wakeup_event_src s'"
    by (simp add: s' post_mode_change_def arm_wakeup_timer_def Let_def case_prod_beta)
  moreover have "filter protocol_effect es =
      [PowerPrechange (cur_power s) new, SaveSettings (m_settings s'), PlatSetPowerState new, ModeChanged mc]"
    using cp(1) mc(1) db(1) m3 by (simp add: es)
  moreover have "(StartDeepSleepThread mc \<in> set es) = (DEEP_SLEEP_BUILD cfg \<and> new = PWRMGR_STANDBY_DEEP_SLEEP)"
    using cp(4) mc(4) db(2) by (auto simp: es)
  moreover have "cur_power s' = new" using new3 m3 by (simp add: cur_power_def)
  ultimately show ?thesis using r mc(2,3) woken by auto
qed

text \<open>C39. What a key event may do to the power state.  Only the release of a key changes it, and only
  of these keys: a power key, the discrete power-on key (to ON), the discrete standby key (from ON
  to STANDBY), or a wake-up key while the device is not ON; so the volume, mute and notification
  keys never change it, and a key that is pressed or repeated never does.\<close>
theorem only_key_release_changes_power:
  assumes "reset_ok cfg s" and "irEventHandler cfg w keyCode keyType isFP s = Some (s', es)"
    and "cur_power s' \<noteq> cur_power s"
  shows "keyType = KET_KEYUP \<and>
    (keyCode = KED_POWER \<or> keyCode = KED_RF_POWER \<or>
     keyCode = KED_DISCRETE_POWER_ON \<and> cur_power s' = PWRMGR_ON \<or>
     keyCode = KED_DISCRETE_POWER_STANDBY \<and> cur_power s = PWRMGR_ON \<and> cur_power s' = PWRMGR_STANDBY \<or>
     WAKEUP_KEY cfg \<and> keyCode \<notin> set skipWakeupKeys \<and> cur_power s \<noteq> PWRMGR_ON)"
proof -
  obtain t fs where t: "irEventHandler cfg w keyCode keyType isFP s = Some (t, fs)"
    and o: "same_settings s t \<or>
      (\<exists>new. changed_to w new s t \<and> keyType = KET_KEYUP \<and> key_reason cfg w keyCode isFP new s)"
    by (rule irEventHandler_outcome [OF assms(1)])
  have "t = s'" using t assms(2) by simp
  moreover have "\<not> same_settings s s'" using assms(3) same_settings_cur by blast
  ultimately obtain new where n: "changed_to w new s s'" "keyType = KET_KEYUP"
    "key_reason cfg w keyCode isFP new s" using o by blast
  have "cur_power s' = new" using n(1) by (simp add: changed_to_def cur_power_def)
  with n(2,3) show ?thesis by (auto simp: key_reason_def is_wakeup_key_def)
qed

text \<open>Loss of ECM connectivity.  After any sequence of system events the manager considers the
  connection lost exactly when the last event that decides is a loss (an ECM or CA tunnel error
  when the device is up for more than 300 seconds, the tunnel only in state 0, or an error while
  the uptime cannot be read) and not a recovery; when it is lost, the release of the front panel
  power key saves ON as the power state and reboots.\<close>
lemma ecm_loss_reboots_to_on:
  assumes "filter (\<lambda>e. ecm_loss e \<or> ecm_recovery e) evs = decisive @ [e]"
    and "settings_writable w"
  shows "ecm_connectivity_lost (ecm_run evs s) = ecm_loss e \<and>
    (if ecm_loss e
     then (\<exists>s' es p. irEventHandler cfg w KED_POWER KET_KEYUP True (ecm_run evs s) = Some (s', es) \<and>
             cur_power s' = PWRMGR_ON \<and> settings_file s' = m_settings s' \<and>
             ResetEffect (Rebooting p) \<in> set es)
     else True)"
proof -
  have f: "ecm_connectivity_lost (ecm_run evs s) = ecm_loss e"
    by (simp add: ecm_run_flag assms(1))
  moreover have "\<exists>s' es p. irEventHandler cfg w KED_POWER KET_KEYUP True (ecm_run evs s) = Some (s', es) \<and>
             cur_power s' = PWRMGR_ON \<and> settings_file s' = m_settings s' \<and> ResetEffect (Rebooting p) \<in> set es"
    if "ecm_loss e"
    using f that assms(2)
    by (auto simp: irEventHandler_def Let_def persist_def set_power_def cur_power_def
          PwrMgr_Reset_def performReboot_def)
  ultimately show ?thesis by simp
qed


text \<open>The transition thread spins while deep sleep is on its way: if a key asked for another state
  while the change is dropped, no number of turns of the thread waits, changes the power state or
  does anything else than dropping the boot timer; since a delayed entry to deep sleep stays in
  progress (delayed\_deep\_sleep\_stays\_in\_progress), this lasts for ever.\<close>
lemma transition_thread_spins:
  assumes "change_blocked cfg s" and "targetState s \<noteq> cur_power s"
    and "async_turns cfg ws s = (s', es, waited)"
  shows "\<not> waited \<and> cur_power s' = PWRMGR_STANDBY_DEEP_SLEEP \<and> targetState s' = targetState s \<and>
    ds s' = ds s \<and> set es \<subseteq> {RemoveBootupTimer}"
  using assms
proof (induction ws arbitrary: s s' es waited)
  case Nil
  then show ?case by (simp add: change_blocked_def)
next
  case (Cons w ws)
  let ?s1 = "fst (drop_bootup cfg s)"
  have t: "AsyncPowerTransition cfg w s = (?s1, snd (drop_bootup cfg s), False)"
    using Cons.prems(1,2) SetPowerState_blocked [of s "targetState s" cfg w "uninit_key w"]
    by (auto simp: AsyncPowerTransition_def)
  obtain s2 es2 b2 where r: "async_turns cfg ws ?s1 = (s2, es2, b2)" by (metis prod_cases3)
  have "\<not> b2 \<and> cur_power s2 = PWRMGR_STANDBY_DEEP_SLEEP \<and> targetState s2 = targetState ?s1 \<and>
      ds s2 = ds ?s1 \<and> set es2 \<subseteq> {RemoveBootupTimer}"
    using r Cons.prems(1,2) Cons.IH [of ?s1 s2 es2 b2] by simp
  moreover have "s' = s2" "es = snd (drop_bootup cfg s) @ es2" "waited = b2"
    using Cons.prems(3) by (simp_all add: t r)
  ultimately show ?case using drop_bootup_effects [of cfg s] by auto
qed

text \<open>The wake-up time.  Without the override file the device is woken within a day and fifteen
  hours, and the local time of the wake-up, less the time zone offset that is added, lies between
  2 and 3 in the morning.\<close>
lemma wakeup_between_two_and_three:
  assumes "tm_hour w < 24" and "tm_min w < 60" and "tm_sec w < 60"
    and "override_file w = None \<or> override_file w = Some None"
  shows "getTZDiffInSec (tz w) \<le> getWakeupTime w \<and> getWakeupTime w < 39 * 3600 \<and>
    (let t = (tm_hour w * 3600 + tm_min w * 60 + tm_sec w + (getWakeupTime w - getTZDiffInSec (tz w))) mod 86400
     in 2 * 3600 \<le> t \<and> t < 3 * 3600)"
proof -
  define T where "T = tm_hour w * 3600 + tm_min w * 60 + tm_sec w"
  define R where "R = random w mod 3600"
  define Z where "Z = getTZDiffInSec (tz w)"
  have Z: "Z \<le> 39600"
    by (auto simp: Z_def getTZDiffInSec_def tz_table_def split: option.splits prod.splits)
  have R: "R < 3600" by (simp add: R_def)
  have T: "T < 86400" using assms(1-3) unfolding T_def by linarith
  have e: "getWakeupTime w = ((if tm_hour w < 2 then 7200 - T else (86400 - T) + 7200) + R + Z) mod 2 ^ 32"
    using assms(4) by (auto simp: getWakeupTime_def T_def R_def Z_def)
  have "\<exists>d \<in> {0, 86400}. getWakeupTime w + T = d + 7200 + R + Z \<and> getWakeupTime w < 39 * 3600 \<and> Z \<le> getWakeupTime w"
  proof (cases "tm_hour w < 2")
    case True
    then have t: "T < 7200" using assms(2,3) unfolding T_def by linarith
    then have "getWakeupTime w = 7200 - T + R + Z" using e Z R True by simp
    then have "getWakeupTime w + T = 0 + 7200 + R + Z \<and> getWakeupTime w < 39 * 3600 \<and> Z \<le> getWakeupTime w"
      using t R Z by linarith
    then show ?thesis by blast
  next
    case False
    then have t: "7200 \<le> T" unfolding T_def by linarith
    then have "getWakeupTime w = 86400 - T + 7200 + R + Z" using e Z R T False by simp
    then have "getWakeupTime w + T = 86400 + 7200 + R + Z \<and> getWakeupTime w < 39 * 3600 \<and> Z \<le> getWakeupTime w"
      using t R Z T by linarith
    then show ?thesis by blast
  qed
  then obtain d where d: "d = 0 \<or> d = 86400" "getWakeupTime w + T = d + 7200 + R + Z"
    "getWakeupTime w < 39 * 3600" "Z \<le> getWakeupTime w" by auto
  have "T + (getWakeupTime w - Z) = d + (7200 + R)" using d(2,4) by linarith
  moreover have "(d + (7200 + R)) mod 86400 = (7200 + R) mod 86400" using d(1) by (elim disjE) (simp_all only: mod_add_self1 add_0)
  moreover have "(7200 + R) mod 86400 = 7200 + R" using R by (intro mod_less) linarith
  ultimately have m: "(T + (getWakeupTime w - Z)) mod 86400 = 7200 + R" by simp
  show ?thesis
    unfolding T_def [symmetric] Z_def [symmetric] Let_def m using d(3,4) R by simp
qed

text \<open>A quoted reboot threshold is read as zero.  The code expects RFC values in double quotes and
  looks for the closing quote one position too far, so a quoted value of at most 15 characters,
  whatever it is, gives the threshold 0; with the feature enabled and both values quoted, the
  first heartbeat orders the forced maintenance reboot whatever the uptime.\<close>
lemma quoted_threshold_reboots_at_once:
  assumes "OFFLINE_MAINT_REBOOT cfg" and "\<not> rfcUpdated s" and "0 \<le> uptime w"
    and "rfc_enable r = Some ''true''"
    and "rfc_standby r = Some (CHR 0x22 # a @ [CHR 0x22])" and "length a \<le> 13"
    and "rfc_force r = Some (CHR 0x22 # b @ [CHR 0x22])" and "length b \<le> 13"
    and "heartbeatMsg cfg w r s = (s', es)"
  shows "standby_reboot_threshold s' = 0 \<and> force_reboot_threshold s' = 0 \<and>
    MaintenanceReboot ''Forced Maintenance reboot'' \<in> set es"
proof -
  have z: "getStandbyRebootValue (Some (CHR 0x22 # x @ [CHR 0x22])) = 0" if "length x \<le> 13" for x
  proof -
    let ?v = "CHR 0x22 # x @ [CHR 0x22]"
    have len: "min (length ?v) MAX_RFC_LEN = length ?v" using that by (simp add: MAX_RFC_LEN_def)
    have "getStandbyRebootValue (Some ?v) = atoi (take (length ?v) (take (MAX_RFC_LEN - 1) ?v))"
      unfolding getStandbyRebootValue_def option.case Let_def len by simp
    also have "\<dots> = 0"
      by (simp add: MAX_RFC_LEN_def take_Cons' atoi_def c_isspace_def digits_value_def c_isdigit_def)
    finally show ?thesis .
  qed
  then have t: "read_thresholds r s =
      s\<lparr>standby_reboot_threshold := 0, force_reboot_threshold := 0, rfcUpdated := True\<rparr>"
    using assms(2,5-8) by (simp add: read_thresholds_def)
  have "isStandbyRebootEnabled (rfc_enable r)"
    by (simp add: assms(4) isStandbyRebootEnabled_def strncasecmp_eq_def)
  then have "s' = read_thresholds r s" "MaintenanceReboot ''Forced Maintenance reboot'' \<in> set es"
    using assms(1,3,9) by (auto simp: heartbeatMsg_def Let_def t)
  then show ?thesis by (simp add: t)
qed

text \<open>A late sleep thread puts an awake device to sleep.  The change to deep sleep only starts a
  thread; if the power state is changed back before that thread runs, the thread still asks the
  platform to sleep, and the device sleeps while its power state, in memory and in the file, is
  the new one.\<close>
lemma late_sleep_thread_ignores_power_state:
  assumes "DEEP_SLEEP_BUILD cfg" and "cur_power s \<noteq> PWRMGR_STANDBY_DEEP_SLEEP"
    and "IsDeviceInDeepSleep (ds s) = DeepSleepStatus_NotStarted" and "deep_sleep_delay_timeout (ds s) = 0"
    and "SetPowerState cfg w PWRMGR_STANDBY_DEEP_SLEEP k s = (s1, es1, r1)"
    and "StartDeepSleepThread mc \<in> set es1"
    and "new \<noteq> PWRMGR_STANDBY_DEEP_SLEEP" and "settings_writable w'"
    and "SetPowerState cfg w' new k' s1 = (s2, es2, r2)"
    and "timer_file dw = None" and "DeepsleepStateChangeThread cfg dw mc s2 = (s3, es3)"
  shows "(\<exists>t b. DsEffect (PlatSetDeepSleep t b) \<in> set es3) \<and> cur_power s3 = new \<and>
    settings_file s3 = m_settings s3"
proof -
  have nb: "\<not> change_blocked cfg s" using assms(2) by (simp add: change_blocked_def)
  have c1: "cur_power s1 = PWRMGR_STANDBY_DEEP_SLEEP" using SetPowerState_fields(2) [OF assms(5)] nb by simp
  have l1: "leave_deep_sleep cfg PWRMGR_STANDBY_DEEP_SLEEP t = (t, [])" for t
    by (simp add: leave_deep_sleep_def)
  have d1: "ds s1 = ds s"
    using assms(2,5) nb by (cases "malloc_ok w") (auto simp: SetPowerState_changes changed_def l1 Let_def)
  have mc: "mc_newState mc = PWRMGR_STANDBY_DEEP_SLEEP"
  proof -
    have db: "StartDeepSleepThread mc \<notin> set (snd (drop_bootup cfg s))"
      using drop_bootup_effects [of cfg s] by auto
    have "StartDeepSleepThread mc \<notin> set (snd (change_power cfg w p k t))" for p t
      by (simp add: change_power_def Let_def persist_def)
    then have "StartDeepSleepThread mc \<in> set (snd (post_mode_change cfg w (cur_power s)
        PWRMGR_STANDBY_DEEP_SLEEP (changed cfg w PWRMGR_STANDBY_DEEP_SLEEP k s)))"
      using assms(2,5,6) nb db
      by (cases "malloc_ok w") (auto simp: SetPowerState_changes l1 Let_def)
    then show ?thesis
      by (auto simp: post_mode_change_def arm_wakeup_timer_def Let_def split: if_splits)
  qed
  have nb1: "\<not> change_blocked cfg s1"
    using d1 assms(3) by (simp add: change_blocked_def GetPwrMgrDeepSleepStatus_def)
  note f2 = SetPowerState_fields [OF assms(9)]
  have c2: "cur_power s2 = new" "settings_file s2 = m_settings s2"
    using f2(2,4) nb1 c1 assms(7,8) by simp_all
  have d2: "IsDeviceInDeepSleep (ds s2) = DeepSleepStatus_NotStarted \<and> deep_sleep_delay_timeout (ds s2) = 0"
  proof -
    have wb: "IsDeviceInDeepSleep (fst (wakeup_body c p q d)) = DeepSleepStatus_NotStarted \<and>
        deep_sleep_delay_timeout (fst (wakeup_body c p q d)) = 0"
      if "IsDeviceInDeepSleep d = DeepSleepStatus_NotStarted" "deep_sleep_delay_timeout d = 0" for c p q d
      using that by (simp add: wakeup_body_def Let_def case_prod_beta)
    have "ds s2 = ds (fst (leave_deep_sleep cfg new (fst (drop_bootup cfg s1))))"
      using assms(7,9) nb1 c1
      by (cases "malloc_ok w'") (auto simp: SetPowerState_changes changed_def Let_def)
    then show ?thesis using wb [of "ds s1"] d1 assms(3,4)
      by (simp add: leave_deep_sleep_def PwrMgrDeepSleepWakeup_def case_prod_beta)
  qed
  obtain st uw n where a: "sleep_attempts (plat_sleep dw) 5 0 = (st, uw, n)" by (metis prod_cases3)
  have n: "0 < n"
    using sleep_attempts_spec [of "plat_sleep dw" 4 0 st uw n] a by (simp add: numeral_eq_Suc del: sleep_attempts.simps)
  have "s3 = s2\<lparr>ds := fst (SetPwrMgrDeepSleepMode (ds_options cfg) dw mc (ds s2))\<rparr>"
    "es3 = map DsEffect (snd (SetPwrMgrDeepSleepMode (ds_options cfg) dw mc (ds s2)))"
    using assms(11) by (auto simp: DeepsleepStateChangeThread_def case_prod_beta)
  moreover have "\<exists>t b. PlatSetDeepSleep t b \<in> set (snd (SetPwrMgrDeepSleepMode (ds_options cfg) dw mc (ds s2)))"
    using d2 mc assms(10) a n
    by (auto simp: SetPwrMgrDeepSleepMode_def enter_deep_sleep_now_def Let_def case_prod_beta)
  ultimately show ?thesis using c2 by (auto simp: cur_power_def)
qed

section \<open>Concrete runs\<close>

definition box_cfg :: "bool \<Rightarrow> pwr_cfg" where
  "box_cfg fp = \<lparr>FP_KEY_SENSITIVITY = fp, POWER_KEY_SENSITIVITY = 500, WAKEUP_KEY = True,
     DISABLE_KEY_POWEROFF = False, DEEP_SLEEP_BUILD = True, PLATCO_BOOTTO_STANDBY = False,
     OFFLINE_MAINT_REBOOT = True,
     ds_options = \<lparr>LLAMA_PLATCO = False, LLAMA_PLATCO_SKY_XIONE = False, WAKEUP_TIMER_EVT = False,
                   DISABLE_SCHD_REBOOT_AT_DEEPSLEEP = False\<rparr>,
     reset_options = \<lparr>ENABLE_FACTORY_RESET_VIA_FP_POWER_BUTTON = False, DISABLE_RESET_SEQUENCE = False,
                      personality_switch = None\<rparr>\<rparr>"

definition night :: wakeup_world where
  "night = \<lparr>override_file = None, tm_hour = 23, tm_min = 15, tm_sec = 0, random = 4000,
     tz = Some (False, 2, ''EST05'')\<rparr>"

definition box_world :: pwr_world where
  "box_world = \<lparr>now = 5000, uptime = 900, tod = (5000, 0), clock = \<lparr>ck_entry = 1, ck_key = 1, ck_next = 1\<rparr>,
     malloc_ok = True, settings_writable = True, uninit_key = 0, uninit_fp = False, wk = night\<rparr>"

definition box :: "power_state \<Rightarrow> pwr_state" where
  "box p = pwr_init \<lparr>powerState = p, deep_sleep_timeout = 600, nwStandbyMode = False\<rparr> p False False 0"

lemmas box_defs = box_cfg_def box_world_def box_def pwr_init_def ds_init_def

lemma box_facts:
  "cur_power (box p) = p" "malloc_ok box_world" "settings_writable box_world"
  "ds (box p) = ds_init" "change_blocked cfg (box p) = False"
  by (simp_all add: box_defs cur_power_def change_blocked_def GetPwrMgrDeepSleepStatus_def)

lemma reset_ok_box: "reset_ok cfg (box p)"
  using reset_inv_init [of "reset_options cfg" "[]"] by (auto simp: reset_ok_def box_def pwr_init_def)

theorem settings_file_follows_memory_witness:
  "\<exists>s' es. pwr_run (box_cfg False)
       [(box_world, IrKey KED_POWER KET_KEYUP False), (box_world, CallSetPowerState PWRMGR_STANDBY_DEEP_SLEEP 0),
        (box_world, WakeupTimer)]
       (pwr_init \<lparr>powerState = PWRMGR_ON, deep_sleep_timeout = 600, nwStandbyMode = False\<rparr> PWRMGR_ON False False 0) =
       Some (s', es) \<and> settings_file s' = m_settings s'"
proof -
  have "settings_writable w" if "(w, e) \<in> set [(box_world, IrKey KED_POWER KET_KEYUP False),
      (box_world, CallSetPowerState PWRMGR_STANDBY_DEEP_SLEEP 0), (box_world, WakeupTimer)]" for w e
    using that box_facts(3) by auto
  moreover have "\<not> (WAKEUP_TIMER_EVT (ds_options (box_cfg False)) \<and>
      DISABLE_SCHD_REBOOT_AT_DEEPSLEEP (ds_options (box_cfg False)))" by (simp add: box_cfg_def)
  ultimately show ?thesis by (rule settings_file_follows_memory)
qed

theorem mode_change_protocol_witness:
  "cur_power (fst (SetPowerState (box_cfg False) box_world PWRMGR_STANDBY 0 (box PWRMGR_ON))) = PWRMGR_STANDBY \<and>
   snd (snd (SetPowerState (box_cfg False) box_world PWRMGR_STANDBY 0 (box PWRMGR_ON))) = IARM_RESULT_SUCCESS"
proof -
  obtain s' es r where c: "SetPowerState (box_cfg False) box_world PWRMGR_STANDBY 0 (box PWRMGR_ON) = (s', es, r)"
    by (metis prod_cases3)
  have "cur_power (box PWRMGR_ON) \<noteq> PWRMGR_STANDBY" "\<not> change_blocked (box_cfg False) (box PWRMGR_ON)"
    by (simp_all add: box_facts)
  from mode_change_protocol [OF this box_facts(2,3) c] show ?thesis by (simp add: c)
qed

theorem only_key_release_changes_power_witness:
  "\<exists>s' es. irEventHandler (box_cfg False) box_world KED_DISCRETE_POWER_ON KET_KEYUP False (box PWRMGR_STANDBY) =
       Some (s', es) \<and> cur_power s' = PWRMGR_ON \<and> KET_KEYUP = KET_KEYUP"
proof -
  let ?s = "box PWRMGR_STANDBY"
  obtain s' es r where c: "SetPowerState (box_cfg False) box_world PWRMGR_ON KED_DISCRETE_POWER_ON ?s = (s', es, r)"
    by (metis prod_cases3)
  have h: "irEventHandler (box_cfg False) box_world KED_DISCRETE_POWER_ON KET_KEYUP False ?s = Some (s', es)"
    using c by (simp add: irEventHandler_def Let_def box_facts toggled_def)
  have on: "cur_power s' = PWRMGR_ON" using SetPowerState_fields(2) [OF c] by (simp add: box_facts)
  then have "cur_power s' \<noteq> cur_power ?s" by (simp add: box_facts)
  from only_key_release_changes_power [OF reset_ok_box h this] h on show ?thesis by auto
qed


definition going_to_sleep :: pwr_state where
  "going_to_sleep = (box PWRMGR_STANDBY_DEEP_SLEEP)
     \<lparr>ds := ds_init\<lparr>IsDeviceInDeepSleep := DeepSleepStatus_InProgress\<rparr>, targetState := PWRMGR_ON\<rparr>"

end
