(* ===== verification/Av_Ports.thy ===== *)
theory Av_Ports
  imports Iarm_Prelude
begin

text \<open>
  The AV ports of the device settings manager, from dsmgr/dsMgrPwrEventListener.c: the table of
  the video ports that stay enabled in standby, and what a power state does to the video ports,
  the audio ports and the power LED.  The device settings library (video output ports, audio
  ports, front panel) belongs to another repository: its calls are the emitted calls, and what it
  answers (which ports exist, which calls throw, the persisted audio settings, the length of a
  port name) is the platform, an argument of every definition.
\<close>

section \<open>Platform and calls\<close>

record platform =
  supported_ports :: "string list"
  list_throws :: bool
  port_throws :: "string \<Rightarrow> bool"
  known_port :: "string \<Rightarrow> bool"
  name_length :: nat
  audio_ports :: nat
  audio_persist :: "nat \<Rightarrow> bool"
  eas_mode :: bool
  led_on_in_low_power :: bool

datatype bl_pattern = BL_PATTERN_NORMAL | BL_PATTERN_SILENT | BL_PATTERN_SILENT_LED_ON

datatype ds_call =
    Video_enable string
  | Video_disable string
  | Audio_enable nat bool
  | EAS_audio_mode
  | Power_led bool
  | BL_pattern bl_pattern bool

section \<open>The table of standby settings\<close>

type_synonym standby_table = "(string \<times> bool) list"

definition MAX_NUM_VIDEO_PORTS :: nat where "MAX_NUM_VIDEO_PORTS = 5"

definition standby_boot :: standby_table where
  "standby_boot = replicate MAX_NUM_VIDEO_PORTS ('''', False)"

fun get_video_port_standby_setting :: "nat \<Rightarrow> standby_table \<Rightarrow> string \<Rightarrow> bool" where
  "get_video_port_standby_setting len [] port = False"
| "get_video_port_standby_setting len ((name, on) # tbl) port =
     (if strncasecmp_eq port name len then on else get_video_port_standby_setting len tbl port)"

text \<open>The two loops of \_SetStandbyVideoState: update the first matching entry, or else write the
  first entry without a name; None when the loop ends without a break.\<close>

fun update_setting :: "nat \<Rightarrow> string \<Rightarrow> bool \<Rightarrow> standby_table \<Rightarrow> standby_table option" where
  "update_setting len port on [] = None"
| "update_setting len port on ((name, old) # tbl) =
     (if strncasecmp_eq port name len then Some ((name, on) # tbl)
      else map_option ((#) (name, old)) (update_setting len port on tbl))"

fun add_setting :: "nat \<Rightarrow> string \<Rightarrow> bool \<Rightarrow> standby_table \<Rightarrow> standby_table option" where
  "add_setting len port on [] = None"
| "add_setting len port on ((name, old) # tbl) =
     (if name = '''' then Some ((take (len - 1) port, on) # tbl)
      else map_option ((#) (name, old)) (add_setting len port on tbl))"

definition store_setting :: "nat \<Rightarrow> string \<Rightarrow> bool \<Rightarrow> standby_table \<Rightarrow> standby_table" where
  "store_setting len port on tbl =
     (case update_setting len port on tbl of
        Some tbl' \<Rightarrow> tbl'
      | None \<Rightarrow> (case add_setting len port on tbl of Some tbl' \<Rightarrow> tbl' | None \<Rightarrow> tbl))"

section \<open>Ports and LED by power state\<close>

text \<open>A loop over the ports, with the call each port gets; the flag says that a call threw, which
  leaves the loop.\<close>

fun port_loop :: "('p \<Rightarrow> bool) \<Rightarrow> ('p \<Rightarrow> 'c option) \<Rightarrow> 'p list \<Rightarrow> 'c list \<times> bool" where
  "port_loop throws act [] = ([], False)"
| "port_loop throws act (n # ns) =
     (case act n of
        None \<Rightarrow> port_loop throws act ns
      | Some c \<Rightarrow> if throws n then ([], True)
                  else (let (cs, threw) = port_loop throws act ns in (c # cs, threw)))"

definition video_ports :: "platform \<Rightarrow> (string \<Rightarrow> ds_call option) \<Rightarrow> ds_call list \<times> bool" where
  "video_ports p act =
     (if list_throws p then ([], True) else port_loop (port_throws p) act (supported_ports p))"

definition SetAVPortsPowerState :: "platform \<Rightarrow> standby_table \<Rightarrow> power_state \<Rightarrow> ds_call list" where
  "SetAVPortsPowerState p tbl st =
     (if st \<noteq> PWRMGR_ON
      then (if st \<noteq> PWRMGR_OFF
            then fst (video_ports p (\<lambda>n. if get_video_port_standby_setting (name_length p) tbl n
                                        then None else Some (Video_disable n)))
            else fst (video_ports p (\<lambda>n. Some (Video_disable n))))
           @ map (\<lambda>i. Audio_enable i False) [0..<audio_ports p]
      else (let (cs, threw) = video_ports p (\<lambda>n. Some (Video_enable n))
            in if threw then cs
               else cs @ map (\<lambda>i. Audio_enable i True) (filter (audio_persist p) [0..<audio_ports p])
                      @ (if eas_mode p then [EAS_audio_mode] else [])))"

definition SetLEDStatus :: "platform \<Rightarrow> power_state \<Rightarrow> ds_call list" where
  "SetLEDStatus p st =
     [Power_led (if st \<noteq> PWRMGR_ON then led_on_in_low_power p else True)]"

section \<open>Lemmas: the table\<close>

text \<open>Port names are compared without regard to case.\<close>

definition same_port :: "string \<Rightarrow> string \<Rightarrow> bool" where
  "same_port a b = (map c_tolower a = map c_tolower b)"

lemma strncasecmp_same:
  assumes "length a < len" and "length b < len"
  shows "strncasecmp_eq a b len = same_port a b"
  using assms by (simp add: strncasecmp_eq_def same_port_def)

definition names_fit :: "nat \<Rightarrow> standby_table \<Rightarrow> bool" where
  "names_fit len tbl = list_all (\<lambda>(n, on). length n < len) tbl"

definition has_room :: "nat \<Rightarrow> string \<Rightarrow> standby_table \<Rightarrow> bool" where
  "has_room len port tbl = list_ex (\<lambda>(n, on). n = '''' \<or> strncasecmp_eq port n len) tbl"

lemma update_setting_length: "update_setting len port on tbl = Some tbl' \<Longrightarrow> length tbl' = length tbl"
  by (induction len port on tbl arbitrary: tbl' rule: update_setting.induct) (auto split: if_splits)

lemma add_setting_length: "add_setting len port on tbl = Some tbl' \<Longrightarrow> length tbl' = length tbl"
  by (induction len port on tbl arbitrary: tbl' rule: add_setting.induct) (auto split: if_splits)

lemma store_setting_length [simp]: "length (store_setting len port on tbl) = length tbl"
  by (auto simp: store_setting_def update_setting_length add_setting_length split: option.splits)

lemma update_setting_fits:
  "update_setting len port on tbl = Some tbl' \<Longrightarrow> names_fit len tbl \<Longrightarrow> names_fit len tbl'"
  by (induction len port on tbl arbitrary: tbl' rule: update_setting.induct)
     (auto simp: names_fit_def split: if_splits)

lemma add_setting_fits:
  "add_setting len port on tbl = Some tbl' \<Longrightarrow> names_fit len tbl \<Longrightarrow> 0 < len \<Longrightarrow> names_fit len tbl'"
  by (induction len port on tbl arbitrary: tbl' rule: add_setting.induct)
     (auto simp: names_fit_def split: if_splits)

lemma store_setting_fits: "names_fit len tbl \<Longrightarrow> 0 < len \<Longrightarrow> names_fit len (store_setting len port on tbl)"
  by (auto simp: store_setting_def split: option.splits
      intro: update_setting_fits add_setting_fits)

lemma get_after_update:
  "update_setting len port on tbl = Some tbl' \<Longrightarrow> get_video_port_standby_setting len tbl' port = on"
  by (induction len port on tbl arbitrary: tbl' rule: update_setting.induct) (auto split: if_splits)

lemma get_after_update_other:
  assumes "update_setting len port on tbl = Some tbl'" and "\<not> strncasecmp_eq q port len"
  shows "get_video_port_standby_setting len tbl' q = get_video_port_standby_setting len tbl q"
  using assms
  by (induction len port on tbl arbitrary: tbl' rule: update_setting.induct)
     (auto simp: strncasecmp_eq_def split: if_splits)

lemma update_none: "update_setting len port on tbl = None \<Longrightarrow> \<not> get_video_port_standby_setting len tbl port"
  by (induction len port on tbl rule: update_setting.induct) (auto split: if_splits)

lemma get_after_add:
  assumes "update_setting len port on tbl = None" and "add_setting len port on tbl = Some tbl'"
    and "length port < len"
  shows "get_video_port_standby_setting len tbl' port = on"
  using assms
  by (induction len port on tbl arbitrary: tbl' rule: add_setting.induct)
     (auto simp: strncasecmp_eq_def split: if_splits)

lemma get_after_add_other:
  assumes "add_setting len port on tbl = Some tbl'" and "length port < len" and "q \<noteq> ''''"
    and "\<not> strncasecmp_eq q port len" and "0 < len"
  shows "get_video_port_standby_setting len tbl' q = get_video_port_standby_setting len tbl q"
  using assms
  by (induction len port on tbl arbitrary: tbl' rule: add_setting.induct)
     (auto simp: strncasecmp_eq_def split: if_splits)

lemma add_none: "add_setting len port on tbl = None \<Longrightarrow> \<not> list_ex (\<lambda>(n, on). n = '''') tbl"
  by (induction len port on tbl rule: add_setting.induct) (auto split: if_splits)

lemma update_none_names:
  "update_setting len port on tbl = None \<Longrightarrow> \<not> list_ex (\<lambda>(n, on). strncasecmp_eq port n len) tbl"
  by (induction len port on tbl rule: update_setting.induct) (auto split: if_splits)

lemma store_setting_get:
  assumes "length port < len" and "has_room len port tbl"
  shows "get_video_port_standby_setting len (store_setting len port on tbl) port = on"
  using assms
  by (auto simp: store_setting_def has_room_def list_ex_iff get_after_update get_after_add
      split: option.splits dest!: add_none update_none_names)

lemma store_setting_get_other:
  assumes "length port < len" and "\<not> strncasecmp_eq q port len" and "q \<noteq> ''''"
  shows "get_video_port_standby_setting len (store_setting len port on tbl) q
       = get_video_port_standby_setting len tbl q"
  using assms
  by (auto simp: store_setting_def get_after_update_other get_after_add_other split: option.splits)

section \<open>Lemmas: the video ports\<close>

text \<open>The calls that reach a video port, and the port's state after a list of calls.\<close>

fun is_video :: "ds_call \<Rightarrow> bool" where
  "is_video (Video_enable n) = True"
| "is_video (Video_disable n) = True"
| "is_video _ = False"

fun apply_call :: "ds_call \<Rightarrow> (string \<Rightarrow> bool) \<Rightarrow> (string \<Rightarrow> bool)" where
  "apply_call (Video_enable n) v = v(n := True)"
| "apply_call (Video_disable n) v = v(n := False)"
| "apply_call _ v = v"

definition video_after :: "ds_call list \<Rightarrow> (string \<Rightarrow> bool) \<Rightarrow> (string \<Rightarrow> bool)" where
  "video_after cs v = fold apply_call cs v"

lemma video_after_append [simp]: "video_after (cs @ ds) v = video_after ds (video_after cs v)"
  by (simp add: video_after_def)

lemma video_after_Nil [simp]: "video_after [] v = v"
  by (simp add: video_after_def)

lemma not_video_apply: "\<not> is_video c \<Longrightarrow> apply_call c v = v"
  by (cases c) auto

lemma video_after_filter: "video_after cs v = video_after (filter is_video cs) v"
  by (induction cs arbitrary: v) (auto simp: video_after_def not_video_apply)

lemma port_loop_calm:
  assumes "\<forall>n\<in>set ns. \<not> throws n"
  shows "port_loop throws act ns = (List.map_filter act ns, False)"
  using assms by (induction ns) (auto simp: List.map_filter_def split: option.splits)

definition calm :: "platform \<Rightarrow> bool" where
  "calm p = (\<not> list_throws p \<and> list_all (\<lambda>n. \<not> port_throws p n) (supported_ports p))"

lemma video_ports_calm:
  "calm p \<Longrightarrow> video_ports p act = (List.map_filter act (supported_ports p), False)"
  by (simp add: video_ports_def calm_def list_all_iff port_loop_calm)

text \<open>What a power state promises for a port: on in ON; off in OFF; in a standby state off unless
  the table keeps it, and then as it was.\<close>

definition wanted_video :: "platform \<Rightarrow> standby_table \<Rightarrow> power_state \<Rightarrow> (string \<Rightarrow> bool) \<Rightarrow> string \<Rightarrow> bool" where
  "wanted_video p tbl st v n =
     (if n \<notin> set (supported_ports p) then v n
      else if st = PWRMGR_ON then True
      else st \<noteq> PWRMGR_OFF \<and> get_video_port_standby_setting (name_length p) tbl n \<and> v n)"

lemma video_after_enable_all:
  "video_after (List.map_filter (\<lambda>n. Some (Video_enable n)) ns) v n = (n \<in> set ns \<or> v n)"
  by (induction ns arbitrary: v) (auto simp: video_after_def List.map_filter_def)

lemma video_after_disable:
  "video_after (List.map_filter (\<lambda>n. if keep n then None else Some (Video_disable n)) ns) v n =
     (if n \<in> set ns \<and> \<not> keep n then False else v n)"
  by (induction ns arbitrary: v) (auto simp: video_after_def List.map_filter_def)

lemma video_after_disable_all:
  "video_after (List.map_filter (\<lambda>n. Some (Video_disable n)) ns) v n = (if n \<in> set ns then False else v n)"
  by (induction ns arbitrary: v) (auto simp: video_after_def List.map_filter_def)

lemma video_after_audio [simp]: "video_after (map (\<lambda>i. Audio_enable i b) is) v = v"
  by (induction "is") (auto simp: video_after_def)

lemma video_after_EAS [simp]: "video_after [EAS_audio_mode] v = v"
  by (simp add: video_after_def)

lemma SetAVPorts_video:
  assumes "calm p"
  shows "video_after (SetAVPortsPowerState p tbl st) v n = wanted_video p tbl st v n"
  by (cases "st = PWRMGR_ON"; cases "st = PWRMGR_OFF")
     (auto simp: SetAVPortsPowerState_def video_ports_calm [OF assms] wanted_video_def
       video_after_enable_all video_after_disable video_after_disable_all)

fun is_pattern :: "ds_call \<Rightarrow> bool" where
  "is_pattern (BL_pattern q ok) = True"
| "is_pattern _ = False"

lemma video_ports_no_pattern:
  assumes "\<And>n c. act n = Some c \<Longrightarrow> \<not> is_pattern c"
  shows "filter is_pattern (fst (video_ports p act)) = []"
proof -
  have "filter is_pattern (fst (port_loop t act ns)) = []" for t ns
    using assms by (induction ns) (auto simp: Let_def case_prod_beta split: option.splits)
  then show ?thesis by (simp add: video_ports_def)
qed

lemma SetAVPorts_no_pattern: "filter is_pattern (SetAVPortsPowerState p tbl st) = []"
proof -
  have "filter is_pattern (fst (video_ports p (\<lambda>n. Some (Video_enable n)))) = []"
    and "filter is_pattern (fst (video_ports p (\<lambda>n. Some (Video_disable n)))) = []"
    and "filter is_pattern (fst (video_ports p (\<lambda>n. if f n then None else Some (Video_disable n)))) = []" for f
    by (rule video_ports_no_pattern, auto split: if_splits)+
  moreover have "filter is_pattern (map (\<lambda>i. Audio_enable i b) is) = []" for b "is"
    by (induction "is") auto
  ultimately show ?thesis
    by (simp add: SetAVPortsPowerState_def case_prod_beta Let_def)
qed

section \<open>Lemmas: the table as a map\<close>

text \<open>A name longer than the bound matches no entry, so names that fit are compared as a whole.\<close>

lemma strncasecmp_fits:
  assumes "length n < len"
  shows "strncasecmp_eq q n len = same_port q n"
proof (cases "length q < len")
  case True
  then show ?thesis using assms by (rule strncasecmp_same)
next
  case False
  then have "length (map c_tolower (take len q)) \<noteq> length (map c_tolower (take len n))"
    using assms by simp
  then have "\<not> strncasecmp_eq q n len" unfolding strncasecmp_eq_def by (metis (no_types))
  moreover have "length q \<noteq> length n" using False assms by simp
  then have "\<not> same_port q n" unfolding same_port_def by (metis length_map)
  ultimately show ?thesis by simp
qed

definition port_key :: "string \<Rightarrow> nat list" where
  "port_key n = map c_tolower n"

lemma same_port_key: "same_port a b = (port_key a = port_key b)"
  by (simp add: same_port_def port_key_def)

definition table_keys :: "standby_table \<Rightarrow> nat list set" where
  "table_keys tbl = port_key ` {n \<in> fst ` set tbl. n \<noteq> ''''}"

definition free_entries :: "standby_table \<Rightarrow> nat" where
  "free_entries tbl = length (filter (\<lambda>(n, on). n = '''') tbl)"

lemma table_keys_Nil [simp]: "table_keys [] = {}"
  by (simp add: table_keys_def)

lemma table_keys_Cons [simp]:
  "table_keys ((n, on) # tbl) = (if n = '''' then table_keys tbl else insert (port_key n) (table_keys tbl))"
  by (auto simp: table_keys_def)

lemma finite_table_keys [simp]: "finite (table_keys tbl)"
  by (simp add: table_keys_def)

lemma free_entries_Cons [simp]:
  "free_entries ((n, on) # tbl) = (if n = '''' then Suc (free_entries tbl) else free_entries tbl)"
  by (simp add: free_entries_def)

lemma free_entries_Nil [simp]: "free_entries [] = 0"
  by (simp add: free_entries_def)

text \<open>Every entry is free or counts for a key of its own.\<close>

definition table_spare :: "standby_table \<Rightarrow> nat" where
  "table_spare tbl = free_entries tbl + card (table_keys tbl)"

lemma update_setting_keys:
  "update_setting len port on tbl = Some tbl' \<Longrightarrow>
     table_keys tbl' = table_keys tbl \<and> free_entries tbl' = free_entries tbl"
  by (induction len port on tbl arbitrary: tbl' rule: update_setting.induct) (auto split: if_splits)

lemma add_setting_keys:
  assumes "add_setting len port on tbl = Some tbl'" and "length port < len" and "port \<noteq> ''''"
  shows "table_keys tbl' = insert (port_key port) (table_keys tbl)
       \<and> Suc (free_entries tbl') = free_entries tbl"
  using assms
  by (induction len port on tbl arbitrary: tbl' rule: add_setting.induct) (auto split: if_splits)

lemma update_setting_no_key:
  assumes "update_setting len port on tbl = None" and "names_fit len tbl"
  shows "port_key port \<notin> table_keys tbl"
  using assms
  by (induction len port on tbl rule: update_setting.induct)
     (auto simp: names_fit_def strncasecmp_fits same_port_key split: if_splits)

lemma add_setting_None: "add_setting len port on tbl = None \<Longrightarrow> free_entries tbl = 0"
  by (induction len port on tbl rule: add_setting.induct) (auto split: if_splits)

lemma store_setting_spare:
  assumes "names_fit len tbl" and "length port < len" and "port \<noteq> ''''"
  shows "table_spare (store_setting len port on tbl) = table_spare tbl"
    and "table_keys (store_setting len port on tbl) \<subseteq> insert (port_key port) (table_keys tbl)"
  using assms update_setting_keys [of len port on tbl] add_setting_keys [of len port on tbl]
    update_setting_no_key [of len port on tbl]
  by (auto simp: store_setting_def table_spare_def split: option.splits)

lemma has_room_by_count:
  assumes "names_fit len tbl" and "length port < len" and "port \<noteq> ''''"
    and "MAX_NUM_VIDEO_PORTS \<le> table_spare tbl"
    and "card (insert (port_key port) (table_keys tbl)) \<le> MAX_NUM_VIDEO_PORTS"
  shows "get_video_port_standby_setting len (store_setting len port on tbl) port = on"
proof (cases "update_setting len port on tbl")
  case None
  then have "port_key port \<notin> table_keys tbl" using assms(1) by (rule update_setting_no_key)
  with assms(5) have "card (table_keys tbl) < MAX_NUM_VIDEO_PORTS" by simp
  with assms(4) have "free_entries tbl \<noteq> 0" by (simp add: table_spare_def)
  then obtain tbl' where "add_setting len port on tbl = Some tbl'"
      using add_setting_None by (cases "add_setting len port on tbl") auto
  with None assms(2) show ?thesis by (simp add: store_setting_def get_after_add)
qed (simp add: store_setting_def get_after_update)

text \<open>The table as a map from port names: after any list of settings over at most five names, a port
  has its last setting, and a port that was not set stays disabled.\<close>

definition last_setting :: "(string \<times> bool) list \<Rightarrow> string \<Rightarrow> bool" where
  "last_setting cs q =
     (let fs = filter (\<lambda>(n, on). same_port q n) cs in fs \<noteq> [] \<and> snd (last fs))"

definition store_all :: "nat \<Rightarrow> (string \<times> bool) list \<Rightarrow> standby_table" where
  "store_all len cs = foldl (\<lambda>tbl (n, on). store_setting len n on tbl) standby_boot cs"

lemma store_all_snoc: "store_all len (cs @ [(n, on)]) = store_setting len n on (store_all len cs)"
  by (simp add: store_all_def)

lemma last_setting_snoc:
  "last_setting (cs @ [(n, on)]) q = (if same_port q n then on else last_setting cs q)"
  by (simp add: last_setting_def Let_def)

definition settings_fit :: "nat \<Rightarrow> (string \<times> bool) list \<Rightarrow> bool" where
  "settings_fit len cs = (list_all (\<lambda>(n, on). n \<noteq> '''' \<and> length n < len) cs
     \<and> card (port_key ` fst ` set cs) \<le> MAX_NUM_VIDEO_PORTS)"

lemma settings_fit_prefix:
  assumes "settings_fit len (cs @ ds)"
  shows "settings_fit len cs"
proof -
  have "card (port_key ` fst ` set cs) \<le> card (port_key ` fst ` set (cs @ ds))"
    by (rule card_mono) auto
  with assms show ?thesis by (simp add: settings_fit_def)
qed

lemma store_all_map:
  assumes "settings_fit len cs" and "0 < len"
  shows "names_fit len (store_all len cs) \<and> MAX_NUM_VIDEO_PORTS \<le> table_spare (store_all len cs)
       \<and> table_keys (store_all len cs) \<subseteq> port_key ` fst ` set cs
       \<and> (\<forall>q. q \<noteq> '''' \<longrightarrow> get_video_port_standby_setting len (store_all len cs) q = last_setting cs q)"
  using assms(1)
proof (induction cs rule: rev_induct)
  case Nil
  have "get_video_port_standby_setting len (replicate n ('''', False)) q = False" for n q
    by (induction n) auto
  moreover have "free_entries (replicate n ('''', False)) = n" "table_keys (replicate n ('''', False)) = {}" for n
    by (induction n) auto
  ultimately show ?case using assms(2)
    by (simp add: store_all_def standby_boot_def names_fit_def list_all_iff table_spare_def last_setting_def)
next
  case (snoc c cs)
  obtain n on where c: "c = (n, on)" by fastforce
  define tbl where "tbl = store_all len cs"
  from snoc.IH [OF settings_fit_prefix [OF snoc.prems]]
  have fit: "names_fit len tbl" and spare: "MAX_NUM_VIDEO_PORTS \<le> table_spare tbl"
    and keys: "table_keys tbl \<subseteq> port_key ` fst ` set cs"
    and get: "\<And>q. q \<noteq> '''' \<Longrightarrow> get_video_port_standby_setting len tbl q = last_setting cs q"
    by (simp_all add: tbl_def)
  from snoc.prems have n: "length n < len" "n \<noteq> ''''"
    and card: "card (insert (port_key n) (port_key ` fst ` set cs)) \<le> MAX_NUM_VIDEO_PORTS"
    by (simp_all add: settings_fit_def c)
  have "card (insert (port_key n) (table_keys tbl)) \<le> MAX_NUM_VIDEO_PORTS"
    using keys card by (intro le_trans [OF card_mono card]) auto
  note this_port = has_room_by_count [OF fit n spare this, of on]
  have "get_video_port_standby_setting len (store_setting len n on tbl) q = last_setting (cs @ [c]) q"
    if "q \<noteq> ''''" for q
  proof (cases "same_port q n")
    case True
    have "strncasecmp_eq q n len" using True n by (simp add: strncasecmp_fits)
    then have "get_video_port_standby_setting len t q = get_video_port_standby_setting len t n" for t
      by (induction t) (auto simp: strncasecmp_eq_def split: if_splits)
    then show ?thesis using this_port True by (simp add: c last_setting_snoc)
  next
    case False
    then show ?thesis
      using that n get by (simp add: c last_setting_snoc store_setting_get_other strncasecmp_fits)
  qed
  moreover have "names_fit len (store_setting len n on tbl)" using fit assms(2) by (rule store_setting_fits)
  moreover note store_setting_spare [OF fit n, of on]
  ultimately show ?case
    using spare keys by (auto simp: c store_all_snoc tbl_def [symmetric])
qed

end
