(* ===== verification/Ux_Controller.thy ===== *)
theory Ux_Controller
  imports Av_Ports
begin

text \<open>
  The user experience controllers of the device settings manager:
  dsmgr/dsMgrProductTraitsHandler.cpp.  The class ux\_controller is a record with the fields that
  decide behaviour, its four subclasses are the product profiles, and a virtual method is a case
  over the profile.  The thread that retries a failed boot loader pattern and the timer that polls
  for the reboot reason are fields, and one step of each is an operation; the poll is two steps,
  since it gives up the mutex between its check and its action.  The argument mfr\_ok of an
  operation says whether the manufacturer library accepts its pattern call.
\<close>

section \<open>State\<close>

datatype profile = DEFAULT_STB_PROFILE | DEFAULT_TV_PROFILE | DEFAULT_STB_PROFILE_EUROPE
  | DEFAULT_TV_PROFILE_EUROPE

datatype power_mode = POWER_MODE_LIGHT_SLEEP | POWER_MODE_LAST_KNOWN

datatype reboot_type = HARD | SOFT | UNAVAILABLE

record ux_controller =
  ux_profile :: profile
  ledEnabledInStandby :: bool
  ledEnabledInOnState :: bool
  enableSilentRebootSupport :: bool
  preferedPowerModeOnReboot :: power_mode
  invalidateAsyncBootloaderPattern :: bool
  firstPowerTransitionComplete :: bool
  retry_thread :: "(bl_pattern \<times> nat) option"
  poll_count :: "nat option"
  poll_display :: "power_state option"

definition is_tv :: "profile \<Rightarrow> bool" where
  "is_tv pr = (pr \<in> {DEFAULT_TV_PROFILE, DEFAULT_TV_PROFILE_EUROPE})"

definition initialize_safe_defaults :: "profile \<Rightarrow> ux_controller" where
  "initialize_safe_defaults pr =
     \<lparr>ux_profile = pr, ledEnabledInStandby = is_tv pr, ledEnabledInOnState = True,
      enableSilentRebootSupport = True, preferedPowerModeOnReboot = POWER_MODE_LAST_KNOWN,
      invalidateAsyncBootloaderPattern = False, firstPowerTransitionComplete = False,
      retry_thread = None, poll_count = None, poll_display = None\<rparr>"

fun new_ux_controller :: "profile \<Rightarrow> ux_controller" where
  "new_ux_controller DEFAULT_TV_PROFILE_EUROPE =
     (initialize_safe_defaults DEFAULT_TV_PROFILE_EUROPE)
       \<lparr>preferedPowerModeOnReboot := POWER_MODE_LIGHT_SLEEP\<rparr>"
| "new_ux_controller DEFAULT_STB_PROFILE_EUROPE =
     (initialize_safe_defaults DEFAULT_STB_PROFILE_EUROPE)
       \<lparr>preferedPowerModeOnReboot := POWER_MODE_LIGHT_SLEEP\<rparr>"
| "new_ux_controller DEFAULT_TV_PROFILE =
     (initialize_safe_defaults DEFAULT_TV_PROFILE)
       \<lparr>preferedPowerModeOnReboot := POWER_MODE_LIGHT_SLEEP\<rparr>"
| "new_ux_controller DEFAULT_STB_PROFILE =
     (initialize_safe_defaults DEFAULT_STB_PROFILE)
       \<lparr>preferedPowerModeOnReboot := POWER_MODE_LAST_KNOWN, enableSilentRebootSupport := False\<rparr>"

definition initialize_ux_controller :: "nat \<Rightarrow> ux_controller option" where
  "initialize_ux_controller profile_id =
     (if profile_id = 0 then Some (new_ux_controller DEFAULT_STB_PROFILE)
      else if profile_id = 1 then Some (new_ux_controller DEFAULT_TV_PROFILE)
      else if profile_id = 2 then Some (new_ux_controller DEFAULT_STB_PROFILE_EUROPE)
      else if profile_id = 3 then Some (new_ux_controller DEFAULT_TV_PROFILE_EUROPE)
      else None)"

section \<open>Boot loader pattern\<close>

text \<open>The first component of a result is what the method returns.\<close>

definition call_bootloader_pattern :: "bl_pattern \<Rightarrow> bool \<Rightarrow> ux_controller \<Rightarrow> bool \<times> ds_call list" where
  "call_bootloader_pattern pattern mfr_ok u =
     (if \<not> enableSilentRebootSupport u then (True, []) else (mfr_ok, [BL_pattern pattern mfr_ok]))"

definition set_bootloader_pattern ::
    "bl_pattern \<Rightarrow> bool \<Rightarrow> ux_controller \<Rightarrow> bool \<times> ux_controller \<times> ds_call list" where
  "set_bootloader_pattern pattern mfr_ok u =
     (let u = u\<lparr>invalidateAsyncBootloaderPattern := True\<rparr>;
          (ret, calls) = call_bootloader_pattern pattern mfr_ok u
      in (ret, u, calls))"

definition RETRIES :: nat where "RETRIES = 12"

definition set_bootloader_pattern_fault_tolerant ::
    "bl_pattern \<Rightarrow> bool \<Rightarrow> ux_controller \<Rightarrow> bool \<times> ux_controller \<times> ds_call list" where
  "set_bootloader_pattern_fault_tolerant pattern mfr_ok u =
     (let (ret, calls) = call_bootloader_pattern pattern mfr_ok u
      in (ret, if ret then u
               else u\<lparr>invalidateAsyncBootloaderPattern := False, retry_thread := Some (pattern, RETRIES)\<rparr>,
          calls))"

text \<open>One turn of the loop of the retry thread, with the retries that remain.\<close>

definition set_bootloader_pattern_async :: "bool \<Rightarrow> ux_controller \<Rightarrow> ux_controller \<times> ds_call list" where
  "set_bootloader_pattern_async mfr_ok u =
     (case retry_thread u of
        None \<Rightarrow> (u, [])
      | Some (pattern, remaining_retries) \<Rightarrow>
          if \<not> invalidateAsyncBootloaderPattern u
          then (let (ret, calls) = call_bootloader_pattern pattern mfr_ok u
                in (u\<lparr>retry_thread := if \<not> ret \<and> 0 < remaining_retries - 1
                                     then Some (pattern, remaining_retries - 1) else None\<rparr>, calls))
          else (u\<lparr>retry_thread := None\<rparr>, []))"

section \<open>LED and display\<close>

definition sync_power_led_with_power_state :: "ux_controller \<Rightarrow> power_state \<Rightarrow> ds_call list" where
  "sync_power_led_with_power_state u st =
     [Power_led (if st = PWRMGR_ON then ledEnabledInOnState u else ledEnabledInStandby u)]"

definition sync_display_ports_with_power_state ::
    "platform \<Rightarrow> standby_table \<Rightarrow> power_state \<Rightarrow> ds_call list" where
  "sync_display_ports_with_power_state p tbl st = SetAVPortsPowerState p tbl st"

section \<open>Reboot reason\<close>

definition contains_text :: "string \<Rightarrow> string \<Rightarrow> bool" where
  "contains_text t s = list_ex (\<lambda>i. take (length t) (drop i s) = t) [0..<Suc (length s)]"

definition hard_reboot_match_string :: string where
  "hard_reboot_match_string =
     [CHR 0x22] @ ''reason'' @ [CHR 0x22] @ '':'' @ [CHR 0x22] @ ''POWER_ON_RESET'' @ [CHR 0x22]"

text \<open>Arguments: whether the flag file exists, and the lines of the information file, None when it
  cannot be opened.\<close>

definition getRebootType :: "bool \<Rightarrow> string list option \<Rightarrow> reboot_type" where
  "getRebootType updated info =
     (if \<not> updated then UNAVAILABLE
      else (case info of
              None \<Rightarrow> SOFT
            | Some ls \<Rightarrow> if list_ex (contains_text hard_reboot_match_string) ls then HARD else SOFT))"

definition MAX_POLLS :: nat where "MAX_POLLS = 60"

text \<open>reboot\_reason\_cb up to the check under the mutex; the display call that follows the unlock is
  left in poll\_display.\<close>

definition sync_display_ports_with_reboot_reason :: "reboot_type \<Rightarrow> ux_controller \<Rightarrow> ux_controller" where
  "sync_display_ports_with_reboot_reason rt u =
     (if ux_profile u = DEFAULT_TV_PROFILE
      then if \<not> firstPowerTransitionComplete u
           then u\<lparr>poll_display := Some (if rt = HARD then PWRMGR_STANDBY else PWRMGR_ON)\<rparr>
           else u
      else u)"

definition reboot_reason_cb :: "reboot_type \<Rightarrow> ux_controller \<Rightarrow> ux_controller" where
  "reboot_reason_cb rt u =
     (case poll_count u of
        None \<Rightarrow> u
      | Some count \<Rightarrow>
          if rt = UNAVAILABLE
          then (if count \<le> MAX_POLLS then u\<lparr>poll_count := Some (count + 1)\<rparr>
                else u\<lparr>poll_count := None\<rparr>)
          else sync_display_ports_with_reboot_reason rt (u\<lparr>poll_count := None\<rparr>))"

definition reboot_reason_display ::
    "platform \<Rightarrow> standby_table \<Rightarrow> ux_controller \<Rightarrow> ux_controller \<times> ds_call list" where
  "reboot_reason_display p tbl u =
     (case poll_display u of
        None \<Rightarrow> (u, [])
      | Some st \<Rightarrow> (u\<lparr>poll_display := None\<rparr>, sync_display_ports_with_power_state p tbl st))"

section \<open>Power state changes\<close>

fun tv_pattern :: "power_state \<Rightarrow> bl_pattern" where
  "tv_pattern PWRMGR_ON = BL_PATTERN_NORMAL"
| "tv_pattern _ = BL_PATTERN_SILENT_LED_ON"

text \<open>Argument order of the methods: platform, standby table, new state, mfr\_ok.\<close>

definition tv_eu_applyPowerStateChangeConfig ::
    "platform \<Rightarrow> standby_table \<Rightarrow> power_state \<Rightarrow> bool \<Rightarrow> ux_controller \<Rightarrow> bool \<times> ux_controller \<times> ds_call list" where
  "tv_eu_applyPowerStateChangeConfig p tbl new_state mfr_ok u =
     (let display = sync_display_ports_with_power_state p tbl new_state;
          (ret, u, calls) = set_bootloader_pattern (tv_pattern new_state) mfr_ok u
      in (ret, u, display @ calls))"

definition stb_eu_applyPowerStateChangeConfig ::
    "platform \<Rightarrow> standby_table \<Rightarrow> power_state \<Rightarrow> bool \<Rightarrow> ux_controller \<Rightarrow> bool \<times> ux_controller \<times> ds_call list" where
  "stb_eu_applyPowerStateChangeConfig p tbl new_state mfr_ok u =
     (True, u, sync_display_ports_with_power_state p tbl new_state
               @ sync_power_led_with_power_state u new_state)"

definition tv_applyPowerStateChangeConfig ::
    "platform \<Rightarrow> standby_table \<Rightarrow> power_state \<Rightarrow> bool \<Rightarrow> ux_controller \<Rightarrow> bool \<times> ux_controller \<times> ds_call list" where
  "tv_applyPowerStateChangeConfig p tbl new_state mfr_ok u =
     (let u = u\<lparr>firstPowerTransitionComplete := True\<rparr>;
          display = sync_display_ports_with_power_state p tbl new_state;
          (ret, u, calls) = set_bootloader_pattern (tv_pattern new_state) mfr_ok u
      in (ret, u, display @ calls))"

definition stb_applyPowerStateChangeConfig ::
    "platform \<Rightarrow> standby_table \<Rightarrow> power_state \<Rightarrow> bool \<Rightarrow> ux_controller \<Rightarrow> bool \<times> ux_controller \<times> ds_call list" where
  "stb_applyPowerStateChangeConfig p tbl new_state mfr_ok u =
     (True, u, sync_display_ports_with_power_state p tbl new_state
               @ sync_power_led_with_power_state u new_state)"

definition applyPowerStateChangeConfig ::
    "platform \<Rightarrow> standby_table \<Rightarrow> power_state \<Rightarrow> bool \<Rightarrow> ux_controller \<Rightarrow> bool \<times> ux_controller \<times> ds_call list" where
  "applyPowerStateChangeConfig p tbl new_state mfr_ok u =
     (case ux_profile u of
        DEFAULT_STB_PROFILE \<Rightarrow> stb_applyPowerStateChangeConfig p tbl new_state mfr_ok u
      | DEFAULT_TV_PROFILE \<Rightarrow> tv_applyPowerStateChangeConfig p tbl new_state mfr_ok u
      | DEFAULT_STB_PROFILE_EUROPE \<Rightarrow> stb_eu_applyPowerStateChangeConfig p tbl new_state mfr_ok u
      | DEFAULT_TV_PROFILE_EUROPE \<Rightarrow> tv_eu_applyPowerStateChangeConfig p tbl new_state mfr_ok u)"

section \<open>Before a reboot\<close>

text \<open>applyPreRebootConfig returns true for every profile and does nothing else.\<close>

definition applyPreRebootConfig :: "power_state \<Rightarrow> ux_controller \<Rightarrow> bool" where
  "applyPreRebootConfig st u = True"

definition tv_eu_applyPreMaintenanceRebootConfig ::
    "power_state \<Rightarrow> bool \<Rightarrow> ux_controller \<Rightarrow> bool \<times> ux_controller \<times> ds_call list" where
  "tv_eu_applyPreMaintenanceRebootConfig current_state mfr_ok u =
     (if current_state \<noteq> PWRMGR_ON then set_bootloader_pattern BL_PATTERN_SILENT mfr_ok u
      else (True, u, []))"

definition stb_eu_applyPreMaintenanceRebootConfig ::
    "power_state \<Rightarrow> bool \<Rightarrow> ux_controller \<Rightarrow> bool \<times> ux_controller \<times> ds_call list" where
  "stb_eu_applyPreMaintenanceRebootConfig current_state mfr_ok u =
     (if current_state \<noteq> PWRMGR_ON then set_bootloader_pattern BL_PATTERN_SILENT mfr_ok u
      else (True, u, []))"

definition tv_applyPreMaintenanceRebootConfig ::
    "power_state \<Rightarrow> bool \<Rightarrow> ux_controller \<Rightarrow> bool \<times> ux_controller \<times> ds_call list" where
  "tv_applyPreMaintenanceRebootConfig current_state mfr_ok u =
     (if current_state \<noteq> PWRMGR_ON then set_bootloader_pattern BL_PATTERN_SILENT_LED_ON mfr_ok u
      else (True, u, []))"

definition stb_applyPreMaintenanceRebootConfig ::
    "power_state \<Rightarrow> bool \<Rightarrow> ux_controller \<Rightarrow> bool \<times> ux_controller \<times> ds_call list" where
  "stb_applyPreMaintenanceRebootConfig current_state mfr_ok u =
     (True, u, [])"

definition applyPreMaintenanceRebootConfig ::
    "power_state \<Rightarrow> bool \<Rightarrow> ux_controller \<Rightarrow> bool \<times> ux_controller \<times> ds_call list" where
  "applyPreMaintenanceRebootConfig current_state mfr_ok u =
     (case ux_profile u of
        DEFAULT_STB_PROFILE \<Rightarrow> stb_applyPreMaintenanceRebootConfig current_state mfr_ok u
      | DEFAULT_TV_PROFILE \<Rightarrow> tv_applyPreMaintenanceRebootConfig current_state mfr_ok u
      | DEFAULT_STB_PROFILE_EUROPE \<Rightarrow> stb_eu_applyPreMaintenanceRebootConfig current_state mfr_ok u
      | DEFAULT_TV_PROFILE_EUROPE \<Rightarrow> tv_eu_applyPreMaintenanceRebootConfig current_state mfr_ok u)"

lemmas ux_maintenance_defs = applyPreMaintenanceRebootConfig_def
  stb_applyPreMaintenanceRebootConfig_def tv_applyPreMaintenanceRebootConfig_def
  stb_eu_applyPreMaintenanceRebootConfig_def tv_eu_applyPreMaintenanceRebootConfig_def

section \<open>After a reboot\<close>

text \<open>What applyPostRebootConfig reads: the flag file, the factory test and the reboot type.\<close>

record boot_env =
  force_display :: bool
  tv_in_factory :: bool
  reboot_reason :: reboot_type

fun post_reboot_pattern :: "power_state \<Rightarrow> bl_pattern" where
  "post_reboot_pattern PWRMGR_STANDBY = BL_PATTERN_SILENT_LED_ON"
| "post_reboot_pattern PWRMGR_STANDBY_LIGHT_SLEEP = BL_PATTERN_SILENT_LED_ON"
| "post_reboot_pattern PWRMGR_STANDBY_DEEP_SLEEP = BL_PATTERN_SILENT_LED_ON"
| "post_reboot_pattern _ = BL_PATTERN_NORMAL"

definition tv_eu_applyPostRebootConfig ::
    "platform \<Rightarrow> standby_table \<Rightarrow> power_state \<Rightarrow> power_state \<Rightarrow> bool \<Rightarrow> ux_controller
       \<Rightarrow> bool \<times> ux_controller \<times> ds_call list" where
  "tv_eu_applyPostRebootConfig p tbl target_state last_known_state mfr_ok u =
     (let display = (if last_known_state = PWRMGR_ON \<and> target_state = PWRMGR_STANDBY
                     then sync_display_ports_with_power_state p tbl PWRMGR_ON
                     else sync_display_ports_with_power_state p tbl target_state);
          (ret, u, calls) = set_bootloader_pattern_fault_tolerant (post_reboot_pattern target_state) mfr_ok u
      in (ret, u, display @ calls))"

definition stb_eu_applyPostRebootConfig ::
    "platform \<Rightarrow> standby_table \<Rightarrow> power_state \<Rightarrow> power_state \<Rightarrow> bool \<Rightarrow> ux_controller
       \<Rightarrow> bool \<times> ux_controller \<times> ds_call list" where
  "stb_eu_applyPostRebootConfig p tbl target_state last_known_state mfr_ok u =
     (let st = (if last_known_state = PWRMGR_ON \<and> target_state = PWRMGR_STANDBY
                then PWRMGR_ON else target_state);
          led_display = sync_power_led_with_power_state u st @ sync_display_ports_with_power_state p tbl st;
          (ret, u, calls) = set_bootloader_pattern_fault_tolerant BL_PATTERN_NORMAL mfr_ok u
      in (ret, u, led_display @ calls))"

definition tv_applyPostRebootConfig ::
    "platform \<Rightarrow> standby_table \<Rightarrow> boot_env \<Rightarrow> power_state \<Rightarrow> power_state \<Rightarrow> bool \<Rightarrow> ux_controller
       \<Rightarrow> bool \<times> ux_controller \<times> ds_call list" where
  "tv_applyPostRebootConfig p tbl env target_state last_known_state mfr_ok u =
     (let led = sync_power_led_with_power_state u target_state;
          (u, display) =
            (if last_known_state = PWRMGR_ON \<and> target_state = PWRMGR_STANDBY
             then if force_display env \<or> tv_in_factory env
                  then (u, sync_display_ports_with_power_state p tbl PWRMGR_ON)
                  else (case reboot_reason env of
                          HARD \<Rightarrow> (u, sync_display_ports_with_power_state p tbl PWRMGR_STANDBY)
                        | SOFT \<Rightarrow> (u, sync_display_ports_with_power_state p tbl PWRMGR_ON)
                        | UNAVAILABLE \<Rightarrow> (u\<lparr>poll_count := Some 0\<rparr>, []))
             else (u, sync_display_ports_with_power_state p tbl target_state));
          (ret, u, calls) = set_bootloader_pattern_fault_tolerant (post_reboot_pattern target_state) mfr_ok u
      in (ret, u, led @ display @ calls))"

definition stb_applyPostRebootConfig ::
    "platform \<Rightarrow> standby_table \<Rightarrow> power_state \<Rightarrow> power_state \<Rightarrow> bool \<Rightarrow> ux_controller
       \<Rightarrow> bool \<times> ux_controller \<times> ds_call list" where
  "stb_applyPostRebootConfig p tbl target_state last_known_state mfr_ok u =
     (True, u, sync_power_led_with_power_state u target_state
               @ sync_display_ports_with_power_state p tbl target_state)"

definition applyPostRebootConfig ::
    "platform \<Rightarrow> standby_table \<Rightarrow> boot_env \<Rightarrow> power_state \<Rightarrow> power_state \<Rightarrow> bool \<Rightarrow> ux_controller
       \<Rightarrow> bool \<times> ux_controller \<times> ds_call list" where
  "applyPostRebootConfig p tbl env target_state last_known_state mfr_ok u =
     (case ux_profile u of
        DEFAULT_STB_PROFILE \<Rightarrow> stb_applyPostRebootConfig p tbl target_state last_known_state mfr_ok u
      | DEFAULT_TV_PROFILE \<Rightarrow> tv_applyPostRebootConfig p tbl env target_state last_known_state mfr_ok u
      | DEFAULT_STB_PROFILE_EUROPE \<Rightarrow>
          stb_eu_applyPostRebootConfig p tbl target_state last_known_state mfr_ok u
      | DEFAULT_TV_PROFILE_EUROPE \<Rightarrow>
          tv_eu_applyPostRebootConfig p tbl target_state last_known_state mfr_ok u)"

fun getPreferredPostRebootPowerState :: "profile \<Rightarrow> power_state \<Rightarrow> power_state" where
  "getPreferredPostRebootPowerState DEFAULT_STB_PROFILE prev_state = prev_state"
| "getPreferredPostRebootPowerState _ prev_state = PWRMGR_STANDBY"

section \<open>What runs beside the events\<close>

datatype background = Retry_turn bool | Poll_turn reboot_type | Poll_display

fun background_step ::
    "platform \<Rightarrow> standby_table \<Rightarrow> background \<Rightarrow> ux_controller \<Rightarrow> ux_controller \<times> ds_call list" where
  "background_step p tbl (Retry_turn mfr_ok) u = set_bootloader_pattern_async mfr_ok u"
| "background_step p tbl (Poll_turn rt) u = (reboot_reason_cb rt u, [])"
| "background_step p tbl Poll_display u = reboot_reason_display p tbl u"

text \<open>The display is settled when no poll can reach it any more, the pattern when the retry thread
  gives up at its next turn.\<close>

definition display_settled :: "ux_controller \<Rightarrow> bool" where
  "display_settled u = (poll_display u = None \<and>
     (firstPowerTransitionComplete u \<or> ux_profile u \<noteq> DEFAULT_TV_PROFILE))"

definition pattern_settled :: "ux_controller \<Rightarrow> bool" where
  "pattern_settled u = (invalidateAsyncBootloaderPattern u \<or> retry_thread u = None)"

lemmas ux_pattern_defs = call_bootloader_pattern_def set_bootloader_pattern_def
  set_bootloader_pattern_fault_tolerant_def set_bootloader_pattern_async_def

lemmas ux_poll_defs = reboot_reason_cb_def sync_display_ports_with_reboot_reason_def
  reboot_reason_display_def

lemma background_display:
  assumes "display_settled u"
  shows "display_settled (fst (background_step p tbl b u))"
    and "filter is_video (snd (background_step p tbl b u)) = []"
  using assms by (cases b; auto simp: display_settled_def ux_pattern_defs ux_poll_defs Let_def
      split: option.splits)+

lemma background_pattern:
  assumes "pattern_settled u"
  shows "pattern_settled (fst (background_step p tbl b u))"
    and "filter is_pattern (snd (background_step p tbl b u)) = []"
  using assms by (cases b; auto simp: pattern_settled_def ux_pattern_defs ux_poll_defs Let_def
      sync_display_ports_with_power_state_def SetAVPorts_no_pattern split: option.splits)+

section \<open>The contract of the class\<close>

text \<open>What the event listener relies on: a power state change drives the video ports to the new
  state, and afterwards nothing that still runs touches them.  A class with silent reboot support
  also sets the boot loader pattern of the new state, and stops the retry thread.\<close>

locale ux_class =
  fixes pr :: profile
    and change :: "platform \<Rightarrow> standby_table \<Rightarrow> power_state \<Rightarrow> bool \<Rightarrow> ux_controller
                     \<Rightarrow> bool \<times> ux_controller \<times> ds_call list"
  assumes change_display: "ux_profile u = pr \<Longrightarrow> change p tbl st ok u = (ret, u', cs) \<Longrightarrow>
      video_after cs v = video_after (SetAVPortsPowerState p tbl st) v"
    and change_settles: "ux_profile u = pr \<Longrightarrow> change p tbl st ok u = (ret, u', cs) \<Longrightarrow>
      poll_display u = None \<Longrightarrow> display_settled u'"
begin

lemma display_after_change:
  assumes "ux_profile u = pr" and "change p tbl st ok u = (ret, u', cs)" and "poll_display u = None"
    and "filter is_video ds = []"
  shows "video_after (cs @ ds) v = video_after (SetAVPortsPowerState p tbl st) v"
proof -
  have "video_after ds w = w" for w by (subst video_after_filter) (simp add: assms(4))
  then show ?thesis by (simp add: change_display [OF assms(1,2)])
qed

end

locale ux_silent_class = ux_class +
  assumes change_pattern: "ux_profile u = pr \<Longrightarrow> change p tbl st ok u = (ret, u', cs) \<Longrightarrow>
      enableSilentRebootSupport u \<Longrightarrow> filter is_pattern cs = [BL_pattern (tv_pattern st) ok]"
    and change_invalidates: "ux_profile u = pr \<Longrightarrow> change p tbl st ok u = (ret, u', cs) \<Longrightarrow>
      pattern_settled u'"
begin

lemma pattern_after_change:
  assumes "ux_profile u = pr" and "change p tbl st ok u = (ret, u', cs)"
    and "enableSilentRebootSupport u" and "filter is_pattern ds = []"
  shows "filter is_pattern (cs @ ds) = [BL_pattern (tv_pattern st) ok]"
  using change_pattern [OF assms(1-3)] assms(4) by simp

end

lemma video_after_other [simp]:
  "video_after [Power_led b] v = v" "video_after [BL_pattern q ok] v = v"
  by (simp_all add: video_after_def)

lemmas ux_change_defs = stb_applyPowerStateChangeConfig_def tv_applyPowerStateChangeConfig_def
  stb_eu_applyPowerStateChangeConfig_def tv_eu_applyPowerStateChangeConfig_def
  sync_display_ports_with_power_state_def sync_power_led_with_power_state_def
  set_bootloader_pattern_def call_bootloader_pattern_def

interpretation stb: ux_class DEFAULT_STB_PROFILE stb_applyPowerStateChangeConfig
  by unfold_locales (auto simp: ux_change_defs display_settled_def)

interpretation stb_eu: ux_class DEFAULT_STB_PROFILE_EUROPE stb_eu_applyPowerStateChangeConfig
  by unfold_locales (auto simp: ux_change_defs display_settled_def)

interpretation tv: ux_silent_class DEFAULT_TV_PROFILE tv_applyPowerStateChangeConfig
  by unfold_locales (auto simp: ux_change_defs display_settled_def pattern_settled_def Let_def
      SetAVPorts_no_pattern split: if_splits)

interpretation tv_eu: ux_silent_class DEFAULT_TV_PROFILE_EUROPE tv_eu_applyPowerStateChangeConfig
  by unfold_locales (auto simp: ux_change_defs display_settled_def pattern_settled_def Let_def
      SetAVPorts_no_pattern split: if_splits)

text \<open>The virtual method, as the listener calls it.\<close>

lemma settled_after_event:
  assumes "applyPowerStateChangeConfig p tbl st ok u = (ret, u', cs)" and "poll_display u = None"
  shows "display_settled u'"
proof (cases "ux_profile u")
  case DEFAULT_STB_PROFILE
  then have "stb_applyPowerStateChangeConfig p tbl st ok u = (ret, u', cs)"
    using assms(1) by (simp add: applyPowerStateChangeConfig_def)
  from stb.change_settles [OF DEFAULT_STB_PROFILE this assms(2)] show ?thesis .
next
  case DEFAULT_TV_PROFILE
  then have "tv_applyPowerStateChangeConfig p tbl st ok u = (ret, u', cs)"
    using assms(1) by (simp add: applyPowerStateChangeConfig_def)
  from tv.change_settles [OF DEFAULT_TV_PROFILE this assms(2)] show ?thesis .
next
  case DEFAULT_STB_PROFILE_EUROPE
  then have "stb_eu_applyPowerStateChangeConfig p tbl st ok u = (ret, u', cs)"
    using assms(1) by (simp add: applyPowerStateChangeConfig_def)
  from stb_eu.change_settles [OF DEFAULT_STB_PROFILE_EUROPE this assms(2)] show ?thesis .
next
  case DEFAULT_TV_PROFILE_EUROPE
  then have "tv_eu_applyPowerStateChangeConfig p tbl st ok u = (ret, u', cs)"
    using assms(1) by (simp add: applyPowerStateChangeConfig_def)
  from tv_eu.change_settles [OF DEFAULT_TV_PROFILE_EUROPE this assms(2)] show ?thesis .
qed

lemma display_after_event:
  assumes "applyPowerStateChangeConfig p tbl st ok u = (ret, u', cs)" and "poll_display u = None"
    and "filter is_video ds = []"
  shows "video_after (cs @ ds) v = video_after (SetAVPortsPowerState p tbl st) v"
proof (cases "ux_profile u")
  case DEFAULT_STB_PROFILE
  then have "stb_applyPowerStateChangeConfig p tbl st ok u = (ret, u', cs)"
    using assms(1) by (simp add: applyPowerStateChangeConfig_def)
  from stb.display_after_change [OF DEFAULT_STB_PROFILE this assms(2,3)] show ?thesis .
next
  case DEFAULT_TV_PROFILE
  then have "tv_applyPowerStateChangeConfig p tbl st ok u = (ret, u', cs)"
    using assms(1) by (simp add: applyPowerStateChangeConfig_def)
  from tv.display_after_change [OF DEFAULT_TV_PROFILE this assms(2,3)] show ?thesis .
next
  case DEFAULT_STB_PROFILE_EUROPE
  then have "stb_eu_applyPowerStateChangeConfig p tbl st ok u = (ret, u', cs)"
    using assms(1) by (simp add: applyPowerStateChangeConfig_def)
  from stb_eu.display_after_change [OF DEFAULT_STB_PROFILE_EUROPE this assms(2,3)] show ?thesis .
next
  case DEFAULT_TV_PROFILE_EUROPE
  then have "tv_eu_applyPowerStateChangeConfig p tbl st ok u = (ret, u', cs)"
    using assms(1) by (simp add: applyPowerStateChangeConfig_def)
  from tv_eu.display_after_change [OF DEFAULT_TV_PROFILE_EUROPE this assms(2,3)] show ?thesis .
qed

lemma pattern_after_event:
  assumes "applyPowerStateChangeConfig p tbl st ok u = (ret, u', cs)" and "is_tv (ux_profile u)"
    and "enableSilentRebootSupport u" and "filter is_pattern ds = []"
  shows "filter is_pattern (cs @ ds) = [BL_pattern (tv_pattern st) ok]"
proof (cases "ux_profile u = DEFAULT_TV_PROFILE")
  case True
  then have "tv_applyPowerStateChangeConfig p tbl st ok u = (ret, u', cs)"
    using assms(1) by (simp add: applyPowerStateChangeConfig_def)
  from tv.pattern_after_change [OF True this assms(3,4)] show ?thesis .
next
  case False
  with assms(2) have eu: "ux_profile u = DEFAULT_TV_PROFILE_EUROPE" by (simp add: is_tv_def)
  then have "tv_eu_applyPowerStateChangeConfig p tbl st ok u = (ret, u', cs)"
    using assms(1) by (simp add: applyPowerStateChangeConfig_def)
  from tv_eu.pattern_after_change [OF eu this assms(3,4)] show ?thesis .
qed

lemma pattern_settled_after_event:
  assumes "applyPowerStateChangeConfig p tbl st ok u = (ret, u', cs)" and "is_tv (ux_profile u)"
  shows "pattern_settled u'"
proof (cases "ux_profile u = DEFAULT_TV_PROFILE")
  case True
  then have "tv_applyPowerStateChangeConfig p tbl st ok u = (ret, u', cs)"
    using assms(1) by (simp add: applyPowerStateChangeConfig_def)
  from tv.change_invalidates [OF True this] show ?thesis .
next
  case False
  with assms(2) have eu: "ux_profile u = DEFAULT_TV_PROFILE_EUROPE" by (simp add: is_tv_def)
  then have "tv_eu_applyPowerStateChangeConfig p tbl st ok u = (ret, u', cs)"
    using assms(1) by (simp add: applyPowerStateChangeConfig_def)
  from tv_eu.change_invalidates [OF eu this] show ?thesis .
qed

text \<open>No method changes the profile of a controller or its support of silent reboots.\<close>

definition ux_static :: "ux_controller \<Rightarrow> profile \<times> bool" where
  "ux_static u = (ux_profile u, enableSilentRebootSupport u)"

lemma ux_static_change:
  "ux_static (fst (snd (applyPowerStateChangeConfig p tbl st ok u))) = ux_static u"
  by (cases "ux_profile u") (auto simp: applyPowerStateChangeConfig_def ux_change_defs ux_static_def Let_def)

lemma ux_static_maintenance:
  "ux_static (fst (snd (applyPreMaintenanceRebootConfig st ok u))) = ux_static u"
  by (cases "ux_profile u") (auto simp: ux_maintenance_defs ux_pattern_defs ux_static_def Let_def)

lemma ux_static_background: "ux_static (fst (background_step p tbl b u)) = ux_static u"
  by (cases b) (auto simp: ux_static_def ux_pattern_defs ux_poll_defs Let_def split: option.splits)

lemmas ux_post_defs = stb_applyPostRebootConfig_def tv_applyPostRebootConfig_def
  stb_eu_applyPostRebootConfig_def tv_eu_applyPostRebootConfig_def
  sync_display_ports_with_power_state_def sync_power_led_with_power_state_def
  set_bootloader_pattern_fault_tolerant_def call_bootloader_pattern_def

lemma ux_static_post:
  "ux_static (fst (snd (applyPostRebootConfig p tbl env st lk ok u))) = ux_static u"
  by (cases "ux_profile u"; cases "reboot_reason env")
     (auto simp: applyPostRebootConfig_def ux_post_defs ux_static_def Let_def)

end
