(* ===== verification/Ds_Pwr_Listener.thy ===== *)
theory Ds_Pwr_Listener
  imports Ux_Controller
begin

text \<open>
  The power event listener of the device settings manager: dsmgr/dsMgrPwrEventListener.c.  It
  applies every mode change of the power manager to the LED and the AV ports, through a user
  experience controller where the build has one, and serves the RPCs that set and read the ports
  that stay on in standby.  The state is the table of standby settings, the two static power
  states and the controller.  A NULL argument or port name is None.
\<close>

section \<open>State and handlers\<close>

record listener =
  table :: standby_table
  boot_state :: power_state
  boot_prev_state :: power_state
  ux :: "ux_controller option"

text \<open>What initPwrEventListner reads: the profile of the build, the answer of the power manager to
  GetPowerState (current and previous state), the boot environment.\<close>

definition initPwrEventListner ::
    "platform \<Rightarrow> nat option \<Rightarrow> (power_state \<times> power_state) option \<Rightarrow> boot_env \<Rightarrow> bool
       \<Rightarrow> listener \<times> ds_call list" where
  "initPwrEventListner p profile_id reply env mfr_ok =
     (let u = (case profile_id of None \<Rightarrow> None | Some i \<Rightarrow> initialize_ux_controller i);
          (cur, prev) = (case reply of None \<Rightarrow> (PWRMGR_STANDBY, PWRMGR_OFF) | Some (c, pr) \<Rightarrow> (c, pr));
          s = \<lparr>table = standby_boot, boot_state = cur, boot_prev_state = prev, ux = u\<rparr>
      in case u of
           None \<Rightarrow> (s, SetLEDStatus p cur @ SetAVPortsPowerState p standby_boot cur)
         | Some u \<Rightarrow>
             (let (ret, u', calls) = applyPostRebootConfig p standby_boot env cur prev mfr_ok u
              in (s\<lparr>ux := Some u'\<rparr>, calls)))"

text \<open>Arguments: whether the owner is the power manager and the event MODECHANGED; the current and
  the new state of the event.  The handler has its own curState: the static one is not written.\<close>

definition PwrEventHandler ::
    "platform \<Rightarrow> bool \<Rightarrow> bool \<Rightarrow> power_state \<Rightarrow> power_state \<Rightarrow> bool \<Rightarrow> listener \<Rightarrow> listener \<times> ds_call list" where
  "PwrEventHandler p from_pwrmgr is_modechanged cur new mfr_ok s =
     (if from_pwrmgr \<and> is_modechanged
      then (case ux s of
              Some u \<Rightarrow> (let (ret, u', calls) = applyPowerStateChangeConfig p (table s) new mfr_ok u
                         in (s\<lparr>ux := Some u'\<rparr>, calls))
            | None \<Rightarrow> (s, SetLEDStatus p new @ SetAVPortsPowerState p (table s) new))
      else (s, []))"

definition SetStandbyVideoState ::
    "platform \<Rightarrow> string option \<Rightarrow> int \<Rightarrow> listener \<Rightarrow> listener \<times> int \<times> ds_call list" where
  "SetStandbyVideoState p port isEnabled s =
     (case port of
        None \<Rightarrow> (s, -1, [])
      | Some port \<Rightarrow>
          (let s = s\<lparr>table := store_setting (name_length p) port (isEnabled \<noteq> 0) (table s)\<rparr>
           in if \<not> known_port p port then (s, -1, [])
              else if boot_state s \<noteq> PWRMGR_ON \<and> boot_state s \<noteq> PWRMGR_OFF
              then if port_throws p port then (s, -1, [])
                   else (s, 0, [if isEnabled = 1 then Video_enable port else Video_disable port])
              else (s, 0, [])))"

text \<open>The answer: the result and, where the handler writes it, the setting.\<close>

definition GetStandbyVideoState :: "platform \<Rightarrow> string option \<Rightarrow> listener \<Rightarrow> (int \<times> int option) option" where
  "GetStandbyVideoState p port s =
     (case port of
        None \<Rightarrow> None
      | Some port \<Rightarrow>
          if \<not> known_port p port then Some (-1, None)
          else Some (0, Some (if get_video_port_standby_setting (name_length p) (table s) port
                              then 1 else 0)))"

definition SetAvPortState :: "platform \<Rightarrow> power_state option \<Rightarrow> listener \<Rightarrow> ds_call list" where
  "SetAvPortState p st s =
     (case st of None \<Rightarrow> [] | Some st \<Rightarrow> SetAVPortsPowerState p (table s) st)"

definition SetLEDState :: "platform \<Rightarrow> power_state option \<Rightarrow> ds_call list" where
  "SetLEDState p st = (case st of None \<Rightarrow> [] | Some st \<Rightarrow> SetLEDStatus p st)"

definition REBOOT_REASON_MAINTENANCE :: string where
  "REBOOT_REASON_MAINTENANCE = ''MAINTENANCE_REBOOT''"

definition SetRebootConfig :: "string \<Rightarrow> power_state \<Rightarrow> bool \<Rightarrow> listener \<Rightarrow> listener \<times> ds_call list" where
  "SetRebootConfig reason st mfr_ok s =
     (case ux s of
        None \<Rightarrow> (s, [])
      | Some u \<Rightarrow>
          if reason = REBOOT_REASON_MAINTENANCE
          then (let (ret, u', calls) = applyPreMaintenanceRebootConfig st mfr_ok u
                in (s\<lparr>ux := Some u'\<rparr>, calls))
          else (s, []))"

section \<open>The listener as a machine\<close>

datatype ds_input =
    Pwr_event bool bool power_state power_state bool
  | Set_standby_video "string option" int
  | Set_av_port_state "power_state option"
  | Set_led_state "power_state option"
  | Set_reboot_config string power_state bool
  | Background background

definition background_turn :: "platform \<Rightarrow> background \<Rightarrow> listener \<Rightarrow> listener \<times> ds_call list" where
  "background_turn p b s =
     (case ux s of
        None \<Rightarrow> (s, [])
      | Some u \<Rightarrow> (let (u', calls) = background_step p (table s) b u in (s\<lparr>ux := Some u'\<rparr>, calls)))"

fun ds_step :: "platform \<Rightarrow> ds_input \<Rightarrow> listener \<Rightarrow> listener \<times> ds_call list" where
  "ds_step p (Pwr_event own mode cur new ok) s = PwrEventHandler p own mode cur new ok s"
| "ds_step p (Set_standby_video port on) s =
     (let (s', result, calls) = SetStandbyVideoState p port on s in (s', calls))"
| "ds_step p (Set_av_port_state st) s = (s, SetAvPortState p st s)"
| "ds_step p (Set_led_state st) s = (s, SetLEDState p st)"
| "ds_step p (Set_reboot_config reason st ok) s = SetRebootConfig reason st ok s"
| "ds_step p (Background b) s = background_turn p b s"

section \<open>Lemmas\<close>

lemma ds_step_boot_state: "boot_state (fst (ds_step p i s)) = boot_state s"
  by (cases i) (auto simp: PwrEventHandler_def SetStandbyVideoState_def SetRebootConfig_def
      background_turn_def Let_def case_prod_beta split: option.splits)

lemma ds_run_boot_state: "boot_state (fst (run_trace (ds_step p) is s)) = boot_state s"
  by (induction "is" arbitrary: s)
     (simp_all add: fst_run_trace_Cons ds_step_boot_state del: run_trace.simps(2) ds_step.simps)

lemma init_boot_state:
  "boot_state (fst (initPwrEventListner p profile_id reply env ok))
     = (case reply of None \<Rightarrow> PWRMGR_STANDBY | Some (c, pr) \<Rightarrow> c)"
  by (auto simp: initPwrEventListner_def Let_def case_prod_beta split: option.splits)

text \<open>Well-formed tables: five entries, every name shorter than the bound.\<close>

definition table_ok :: "platform \<Rightarrow> listener \<Rightarrow> bool" where
  "table_ok p s = (length (table s) = MAX_NUM_VIDEO_PORTS \<and> names_fit (name_length p) (table s))"

lemma ds_step_table_ok:
  assumes "0 < name_length p" and "table_ok p s"
  shows "table_ok p (fst (ds_step p i s))"
  using assms by (cases i) (auto simp: table_ok_def PwrEventHandler_def SetStandbyVideoState_def
      SetRebootConfig_def background_turn_def Let_def case_prod_beta store_setting_fits
      split: option.splits)

lemma init_table: "table (fst (initPwrEventListner p profile_id reply env ok)) = standby_boot"
  by (auto simp: initPwrEventListner_def Let_def case_prod_beta split: option.splits)

lemma reachable_table_ok:
  assumes "0 < name_length p"
  shows "table_ok p (fst (run_trace (ds_step p) is (fst (initPwrEventListner p profile_id reply env ok))))"
proof (rule run_trace_invariant)
  fix i s
  assume "table_ok p s"
  with assms show "table_ok p (fst (ds_step p i s))" by (rule ds_step_table_ok)
next
  from assms show "table_ok p (fst (initPwrEventListner p profile_id reply env ok))"
    by (simp add: table_ok_def init_table standby_boot_def names_fit_def list_all_iff)
qed

lemma led_video [simp]: "video_after (SetLEDStatus p st) v = v"
  by (simp add: SetLEDStatus_def)

text \<open>Inputs that leave the display alone once it is settled, and inputs that leave the boot loader
  pattern alone once the retry thread is invalidated.\<close>

fun display_quiet :: "ds_input \<Rightarrow> bool" where
  "display_quiet (Pwr_event own mode cur new ok) = (\<not> (own \<and> mode))"
| "display_quiet (Set_standby_video port on) = False"
| "display_quiet (Set_av_port_state st) = False"
| "display_quiet (Set_led_state st) = True"
| "display_quiet (Set_reboot_config reason st ok) = True"
| "display_quiet (Background b) = True"

fun pattern_quiet :: "ds_input \<Rightarrow> bool" where
  "pattern_quiet (Pwr_event own mode cur new ok) = (\<not> (own \<and> mode))"
| "pattern_quiet (Set_reboot_config reason st ok) = (reason \<noteq> REBOOT_REASON_MAINTENANCE)"
| "pattern_quiet _ = True"

definition ux_all :: "(ux_controller \<Rightarrow> bool) \<Rightarrow> listener \<Rightarrow> bool" where
  "ux_all P s = (case ux s of None \<Rightarrow> True | Some u \<Rightarrow> P u)"

lemma maintenance_settled:
  assumes "display_settled u" and "applyPreMaintenanceRebootConfig st ok u = (ret, u', cs)"
  shows "display_settled u'" and "filter is_video cs = []"
  using assms by (auto simp: ux_maintenance_defs ux_pattern_defs display_settled_def Let_def
      split: profile.splits if_splits)

lemma display_quiet_step:
  assumes "display_quiet i" and "ux_all display_settled s"
  shows "ux_all display_settled (fst (ds_step p i s))" and "filter is_video (snd (ds_step p i s)) = []"
proof -
  have "ux_all display_settled (fst (ds_step p i s)) \<and> filter is_video (snd (ds_step p i s)) = []"
  proof (cases i)
    case (Background b)
    then show ?thesis
      using assms background_display [of _ p "table s" b]
      by (auto simp: ux_all_def background_turn_def Let_def case_prod_beta simp del: background_step.simps
          split: option.splits)
  next
    case (Set_reboot_config reason st ok)
    then show ?thesis
      using assms maintenance_settled [of _ st ok]
      by (cases "ux s") (auto simp: ux_all_def SetRebootConfig_def Let_def split: prod.splits)
  qed (use assms in \<open>auto simp: PwrEventHandler_def SetLEDState_def SetLEDStatus_def split: option.splits\<close>)
  then show "ux_all display_settled (fst (ds_step p i s))" and "filter is_video (snd (ds_step p i s)) = []"
    by simp_all
qed

lemma display_quiet_run:
  assumes "list_all display_quiet is" and "ux_all display_settled s"
  shows "filter is_video (snd (run_trace (ds_step p) is s)) = []"
  using assms
  by (induction "is" arbitrary: s)
     (simp_all add: snd_run_trace_Cons display_quiet_step del: run_trace.simps(2) ds_step.simps)

lemma led_no_pattern [simp]: "filter is_pattern (SetLEDStatus p st) = []"
  by (simp add: SetLEDStatus_def)

lemma standby_no_pattern [simp]: "filter is_pattern (snd (snd (SetStandbyVideoState p port on s))) = []"
  by (auto simp: SetStandbyVideoState_def Let_def split: option.splits)

lemma standby_ux [simp]: "ux (fst (SetStandbyVideoState p port on s)) = ux s"
  by (auto simp: SetStandbyVideoState_def Let_def split: option.splits)

lemma pattern_quiet_other:
  assumes "pattern_quiet i" and "\<nexists>b. i = Background b"
  shows "ux (fst (ds_step p i s)) = ux s" and "filter is_pattern (snd (ds_step p i s)) = []"
  using assms by (cases i; auto simp: PwrEventHandler_def SetLEDState_def SetAvPortState_def
      SetAVPorts_no_pattern SetRebootConfig_def case_prod_beta split: option.splits)+

lemma pattern_quiet_step:
  assumes "pattern_quiet i" and "ux_all pattern_settled s"
  shows "ux_all pattern_settled (fst (ds_step p i s))" and "filter is_pattern (snd (ds_step p i s)) = []"
proof -
  have "ux_all pattern_settled (fst (ds_step p i s)) \<and> filter is_pattern (snd (ds_step p i s)) = []"
  proof (cases "\<exists>b. i = Background b")
    case True
    then obtain b where "i = Background b" ..
    then show ?thesis
      using assms background_pattern [of _ p "table s" b]
      by (auto simp: ux_all_def background_turn_def Let_def case_prod_beta simp del: background_step.simps
          split: option.splits)
  next
    case False
    then show ?thesis using pattern_quiet_other [OF assms(1)] assms(2) by (auto simp: ux_all_def)
  qed
  then show "ux_all pattern_settled (fst (ds_step p i s))" and "filter is_pattern (snd (ds_step p i s)) = []"
    by simp_all
qed

lemma pattern_quiet_run:
  assumes "list_all pattern_quiet is" and "ux_all pattern_settled s"
  shows "filter is_pattern (snd (run_trace (ds_step p) is s)) = []"
  using assms
  by (induction "is" arbitrary: s)
     (simp_all add: snd_run_trace_Cons pattern_quiet_step del: run_trace.simps(2) ds_step.simps)

lemma ds_step_static:
  "map_option ux_static (ux (fst (ds_step p i s))) = map_option ux_static (ux s)"
  by (cases i) (auto simp: PwrEventHandler_def SetRebootConfig_def background_turn_def Let_def case_prod_beta
      ux_static_change ux_static_maintenance ux_static_background split: option.splits
      simp del: background_step.simps)

lemma ds_run_static:
  "map_option ux_static (ux (fst (run_trace (ds_step p) is s))) = map_option ux_static (ux s)"
  by (induction "is" arbitrary: s)
     (simp_all add: fst_run_trace_Cons ds_step_static del: run_trace.simps(2) ds_step.simps)

section \<open>Lemmas: the retry thread\<close>

text \<open>The attempts of the retry thread: failures, then possibly one success, and no more than the
  retries that were left.\<close>

definition attempts :: "bl_pattern \<Rightarrow> nat \<Rightarrow> ds_call list \<Rightarrow> bool" where
  "attempts q n cs = (\<exists>k r. cs = replicate k (BL_pattern q False) @ (if r then [BL_pattern q True] else [])
                          \<and> k + (if r then 1 else 0) \<le> n)"

lemma attempts_Nil [simp]: "attempts q n []"
  unfolding attempts_def by (rule exI [of _ 0], rule exI [of _ False]) simp

lemma attempts_True: "0 < n \<Longrightarrow> attempts q n [BL_pattern q True]"
  unfolding attempts_def by (rule exI [of _ 0], rule exI [of _ True]) simp

lemma attempts_False:
  assumes "attempts q m cs" and "m < n"
  shows "attempts q n (BL_pattern q False # cs)"
proof -
  from assms(1) obtain k r where
    "cs = replicate k (BL_pattern q False) @ (if r then [BL_pattern q True] else [])"
    "k + (if r then 1 else 0) \<le> m" by (auto simp: attempts_def)
  with assms(2) show ?thesis
    unfolding attempts_def by (intro exI [of _ "Suc k"] exI [of _ r]) auto
qed

definition retrying :: "bl_pattern \<Rightarrow> nat \<Rightarrow> ux_controller \<Rightarrow> bool" where
  "retrying q n u = (retry_thread u = Some (q, n) \<and> \<not> invalidateAsyncBootloaderPattern u)"

lemma retrying_background:
  assumes "retrying q n u" and "0 < n"
  shows "(\<exists>ok. b = Retry_turn ok) \<or>
         retrying q n (fst (background_step p tbl b u)) \<and> filter is_pattern (snd (background_step p tbl b u)) = []"
  using assms by (cases b) (auto simp: retrying_def ux_poll_defs sync_display_ports_with_power_state_def
      SetAVPorts_no_pattern split: option.splits)

lemma retrying_turn:
  assumes "retrying q n u" and "background_step p tbl (Retry_turn ok) u = (u', cs)"
  shows "pattern_settled u' \<and> (filter is_pattern cs = [] \<or> filter is_pattern cs = [BL_pattern q ok])
       \<or> 1 < n \<and> retrying q (n - 1) u' \<and> filter is_pattern cs = [BL_pattern q False]"
  using assms by (auto simp: retrying_def pattern_settled_def set_bootloader_pattern_async_def
      call_bootloader_pattern_def Let_def split: if_splits)

lemma retrying_run:
  assumes "list_all pattern_quiet is" and "ux s = Some u" and "retrying q n u" and "0 < n"
  shows "attempts q n (filter is_pattern (snd (run_trace (ds_step p) is s)))"
  using assms
proof (induction "is" arbitrary: s u n)
  case (Cons i "is")
  then have i: "pattern_quiet i" and quiet: "list_all pattern_quiet is" by simp_all
  define s' where "s' = fst (ds_step p i s)"
  have run: "filter is_pattern (snd (run_trace (ds_step p) (i # is) s))
      = filter is_pattern (snd (ds_step p i s)) @ filter is_pattern (snd (run_trace (ds_step p) is s'))"
    by (simp add: snd_run_trace_Cons s'_def del: run_trace.simps)
  show ?case
  proof (cases "\<exists>ok. i = Background (Retry_turn ok)")
    case True
    then obtain ok where ok: "i = Background (Retry_turn ok)" ..
    obtain u' cs where turn: "background_step p (table s) (Retry_turn ok) u = (u', cs)" by fastforce
    then have s': "ux s' = Some u'" and cs: "snd (ds_step p i s) = cs"
      using Cons.prems(2) by (simp_all add: ok s'_def background_turn_def del: background_step.simps)
    from retrying_turn [OF Cons.prems(3) turn] show ?thesis
    proof (elim disjE conjE)
      assume "pattern_settled u'" and c: "filter is_pattern cs = []"
      then show ?thesis using pattern_quiet_run [OF quiet, of s'] s' cs by (simp add: run ux_all_def del: run_trace.simps)
    next
      assume "pattern_settled u'" and c: "filter is_pattern cs = [BL_pattern q ok]"
      then have "filter is_pattern (snd (run_trace (ds_step p) is s')) = []"
        using pattern_quiet_run [OF quiet, of s'] s' by (simp add: ux_all_def)
      then show ?thesis
        using c Cons.prems(4) attempts_True attempts_False [of q 0 "[]" n] by (cases ok) (simp_all add: run cs del: run_trace.simps)
    next
      assume n: "1 < n" and r: "retrying q (n - 1) u'" and c: "filter is_pattern cs = [BL_pattern q False]"
      have "attempts q (n - 1) (filter is_pattern (snd (run_trace (ds_step p) is s')))"
        using Cons.IH [OF quiet s' r] n by simp
      with n show ?thesis by (simp add: run cs c attempts_False del: run_trace.simps)
    qed
  next
    case False
    have "\<exists>u'. ux s' = Some u' \<and> retrying q n u' \<and> filter is_pattern (snd (ds_step p i s)) = []"
    proof (cases "\<exists>b. i = Background b")
      case True
      then obtain b where b: "i = Background b" ..
      then have "\<nexists>ok. b = Retry_turn ok" using False by simp
      with retrying_background [OF Cons.prems(3,4), of b p "table s"] show ?thesis
        using Cons.prems(2)
        by (auto simp: b s'_def background_turn_def Let_def case_prod_beta simp del: background_step.simps)
    next
      case False
      from pattern_quiet_other [OF i False] Cons.prems(2,3) show ?thesis by (simp add: s'_def)
    qed
    then show ?thesis using Cons.IH [OF quiet] Cons.prems(4) by (auto simp: run simp del: run_trace.simps)
  qed
qed simp

definition boot_pattern :: "profile \<Rightarrow> power_state \<Rightarrow> bl_pattern" where
  "boot_pattern pr st = (if is_tv pr then post_reboot_pattern st else BL_PATTERN_NORMAL)"

lemma post_reboot_attempt:
  assumes "applyPostRebootConfig p tbl env st lk ok u = (ret, u', cs)"
    and "ux_static u = (pr, pr \<noteq> DEFAULT_STB_PROFILE)" and "retry_thread u = None"
  shows "pattern_settled u' \<and> attempts (boot_pattern pr st) 1 (filter is_pattern cs)
       \<or> retrying (boot_pattern pr st) RETRIES u' \<and> filter is_pattern cs = [BL_pattern (boot_pattern pr st) False]"
proof -
  have None: "filter is_pattern (SetAVPortsPowerState p tbl x) = []" for x by (rule SetAVPorts_no_pattern)
  from assms show ?thesis
    by (cases "ux_profile u"; cases "reboot_reason env"; cases ok)
       (auto simp: applyPostRebootConfig_def ux_post_defs ux_static_def boot_pattern_def is_tv_def
         retrying_def pattern_settled_def Let_def None attempts_True split: if_splits)
qed

text \<open>A mode change, then inputs that leave the display alone.\<close>

lemma ports_after_change:
  assumes "calm p" and "ux_all (\<lambda>u. poll_display u = None) s" and "list_all display_quiet is"
  shows "video_after (snd (run_trace (ds_step p) (Pwr_event True True cur new ok # is) s)) v n
       = wanted_video p (table s) new v n"
proof -
  define s' cs where "s' = fst (ds_step p (Pwr_event True True cur new ok) s)"
    and "cs = snd (ds_step p (Pwr_event True True cur new ok) s)"
  have "ux_all display_settled s' \<and>
      (\<forall>ds. filter is_video ds = [] \<longrightarrow>
        video_after (cs @ ds) v = video_after (SetAVPortsPowerState p (table s) new) v)"
  proof (cases "ux s")
    case None
    have "video_after ds w = w" if "filter is_video ds = []" for ds w
      by (subst video_after_filter) (simp add: that)
    with None show ?thesis by (simp add: s'_def cs_def PwrEventHandler_def ux_all_def)
  next
    case (Some u)
    obtain ret u' c where ev: "applyPowerStateChangeConfig p (table s) new ok u = (ret, u', c)"
      using prod_cases3 by blast
    have "poll_display u = None" using assms(2) Some by (simp add: ux_all_def)
    note settled_after_event [OF ev this] display_after_event [OF ev this]
    then show ?thesis using Some ev by (simp add: s'_def cs_def PwrEventHandler_def ux_all_def)
  qed
  moreover from this have "filter is_video (snd (run_trace (ds_step p) is s')) = []"
    using display_quiet_run [OF assms(3)] by blast
  ultimately have "video_after (cs @ snd (run_trace (ds_step p) is s')) v
      = video_after (SetAVPortsPowerState p (table s) new) v" by blast
  then show ?thesis
    using SetAVPorts_video [OF assms(1)]
    by (simp add: snd_run_trace_Cons s'_def cs_def del: run_trace.simps ds_step.simps)
qed

section \<open>Properties\<close>

text \<open>The settings of a list of SetStandbyVideoState calls, applied to a listener.\<close>

lemma standby_run_table:
  "table (fst (run_trace (ds_step p) (map (\<lambda>(n, on). Set_standby_video (Some n) on) cs) s))
     = foldl (\<lambda>tbl (n, on). store_setting (name_length p) n on tbl) (table s)
         (map (\<lambda>(n, on). (n, on \<noteq> 0)) cs)"
proof (induction cs arbitrary: s)
  case (Cons c cs)
  obtain n on where c: "c = (n, on)" by fastforce
  have "table (fst (SetStandbyVideoState p (Some n) on s)) = store_setting (name_length p) n (on \<noteq> 0) (table s)"
    by (simp add: SetStandbyVideoState_def Let_def)
  then show ?case
    using Cons.IH [of "fst (SetStandbyVideoState p (Some n) on s)"]
    by (simp add: c fst_run_trace_Cons case_prod_beta del: run_trace.simps)
qed simp

text \<open>The ports follow the last mode change.  On a platform whose video ports do not throw, after
  a mode change to the state new, whatever then happens besides a new mode change or an explicit
  port call (LED calls, reboot configuration, events of others, turns of the retry thread and of the
  reboot reason poll, in any order), every video port is as new wants it: on in ON; off in OFF; in a
  standby state off unless the standby table keeps it, and then as it was before.  This holds for
  builds with each of the four controllers and for builds without one, unless a poll of the reboot
  reason is between its check and its action when the event arrives.\<close>

lemma ports_follow_last_mode_change:
  assumes "calm p" and "ux_all (\<lambda>u. poll_display u = None) s" and "list_all display_quiet is"
  shows "video_after (snd (run_trace (ds_step p) (Pwr_event True True cur new ok # is) s)) v n
       = wanted_video p (table s) new v n"
  using assms by (rule ports_after_change)

text \<open>C9. The newest boot loader pattern wins.  On a television profile, from any state the listener
  can reach after its initialisation (in particular while a thread still retries the pattern of the
  boot), a mode change sets the pattern of the new state once, and no later turn of a thread, and no
  other call but a maintenance reboot or the next mode change, sets a pattern after it.\<close>

theorem newest_pattern_wins:
  assumes "profile_id = 1 \<or> profile_id = 3"
    and "s = fst (run_trace (ds_step p) js (fst (initPwrEventListner p (Some profile_id) reply env ok0)))"
    and "list_all pattern_quiet is"
  shows "filter is_pattern (snd (run_trace (ds_step p) (Pwr_event True True cur new ok # is) s))
       = [BL_pattern (tv_pattern new) ok]"
proof -
  define pr where "pr = (if profile_id = 1 then DEFAULT_TV_PROFILE else DEFAULT_TV_PROFILE_EUROPE)"
  have "initialize_ux_controller profile_id = Some (new_ux_controller pr)"
    using assms(1) by (auto simp: initialize_ux_controller_def pr_def)
  moreover have "ux_static (new_ux_controller pr) = (pr, True)"
    by (simp add: pr_def ux_static_def initialize_safe_defaults_def)
  ultimately have "map_option ux_static (ux (fst (initPwrEventListner p (Some profile_id) reply env ok0)))
      = Some (pr, True)"
    by (simp add: initPwrEventListner_def Let_def case_prod_beta ux_static_post)
  then have "map_option ux_static (ux s) = Some (pr, True)"
    by (simp add: assms(2) ds_run_static)
  then obtain u where u: "ux s = Some u" "ux_profile u = pr" "enableSilentRebootSupport u"
    by (auto simp: ux_static_def)
  have tv: "is_tv (ux_profile u)" by (simp add: u(2) pr_def is_tv_def)
  obtain ret u' c where ev: "applyPowerStateChangeConfig p (table s) new ok u = (ret, u', c)"
    using prod_cases3 by blast
  have step: "ds_step p (Pwr_event True True cur new ok) s = (s\<lparr>ux := Some u'\<rparr>, c)"
    by (simp add: PwrEventHandler_def u(1) ev)
  have "filter is_pattern (snd (run_trace (ds_step p) is (s\<lparr>ux := Some u'\<rparr>))) = []"
    using pattern_settled_after_event [OF ev tv]
    by (intro pattern_quiet_run [OF assms(3)]) (simp add: ux_all_def)
  from pattern_after_event [OF ev tv u(3) this] show ?thesis
    by (simp add: snd_run_trace_Cons step del: run_trace.simps ds_step.simps)
qed

text \<open>The boot pattern is tried at most 13 times.  After a boot with a controller, as long as there
  is no mode change and no maintenance reboot, the pattern calls are failures followed by at most one
  success, all with the pattern of the boot state, the first one and twelve retries together; on the
  plain set-top box profile there is none.\<close>

lemma boot_pattern_tried_at_most_13_times:
  assumes "initialize_ux_controller profile_id = Some u0"
    and "initPwrEventListner p (Some profile_id) (Some (cur, prev)) env ok = (s, cs)"
    and "list_all pattern_quiet is"
  shows "\<exists>k r. filter is_pattern (cs @ snd (run_trace (ds_step p) is s))
       = replicate k (BL_pattern (boot_pattern (ux_profile u0) cur) False)
         @ (if r then [BL_pattern (boot_pattern (ux_profile u0) cur) True] else [])
     \<and> k + (if r then 1 else 0) \<le> 13"
proof -
  define q where "q = boot_pattern (ux_profile u0) cur"
  have u0: "ux_static u0 = (ux_profile u0, ux_profile u0 \<noteq> DEFAULT_STB_PROFILE)" "retry_thread u0 = None"
    using assms(1) by (auto simp: initialize_ux_controller_def ux_static_def initialize_safe_defaults_def
        split: if_splits)
  obtain ret u c where ev: "applyPostRebootConfig p standby_boot env cur prev ok u0 = (ret, u, c)"
    using prod_cases3 by blast
  from assms(2) have s: "ux s = Some u" and cs: "cs = c"
    by (auto simp: initPwrEventListner_def assms(1) ev)
  have "attempts q 13 (filter is_pattern (cs @ snd (run_trace (ds_step p) is s)))"
    using post_reboot_attempt [OF ev u0]
  proof (elim disjE conjE)
    assume "pattern_settled u" and a: "attempts (boot_pattern (ux_profile u0) cur) 1 (filter is_pattern c)"
    then have "filter is_pattern (snd (run_trace (ds_step p) is s)) = []"
      using pattern_quiet_run [OF assms(3), of s p] s by (simp add: ux_all_def)
    moreover have "attempts q 13 (filter is_pattern c)"
      using a unfolding attempts_def q_def by (elim exE conjE) (intro exI conjI, assumption, simp)
    ultimately show ?thesis by (simp add: cs)
  next
    assume "retrying (boot_pattern (ux_profile u0) cur) RETRIES u"
      and c: "filter is_pattern c = [BL_pattern (boot_pattern (ux_profile u0) cur) False]"
    from retrying_run [OF assms(3) s this(1), of p]
    have "attempts q 12 (filter is_pattern (snd (run_trace (ds_step p) is s)))"
      by (simp add: RETRIES_def q_def)
    then show ?thesis by (simp add: cs c q_def [symmetric] attempts_False)
  qed
  then show ?thesis by (simp add: attempts_def q_def)
qed

text \<open>The table of standby settings is a map.  After the initialisation and any list of
  SetStandbyVideoState calls with at most five different port names, all shorter than the bound,
  GetStandbyVideoState answers for a port that exists the setting of the last call that named it,
  in any letter case, and 0 if there was none.\<close>

lemma standby_table_is_a_map:
  assumes "settings_fit (name_length p) (map (\<lambda>(n, on). (n, on \<noteq> 0)) cs)" and "0 < name_length p"
    and "q \<noteq> ''''" and "known_port p q"
  shows "GetStandbyVideoState p (Some q)
           (fst (run_trace (ds_step p) (map (\<lambda>(n, on). Set_standby_video (Some n) on) cs)
             (fst (initPwrEventListner p profile_id reply env ok))))
       = Some (0, Some (if last_setting (map (\<lambda>(n, on). (n, on \<noteq> 0)) cs) q then 1 else 0))"
  using store_all_map [OF assms(1,2)] assms(3,4)
  by (simp add: GetStandbyVideoState_def standby_run_table init_table store_all_def)

text \<open>A standby setting takes effect by the power state of the boot.  Whatever happened since the
  initialisation (mode changes included), SetStandbyVideoState for an existing port that does not
  throw touches the port if and only if the box booted into a standby state, and then enables it
  exactly for the value 1.  In a box that booted into standby and is now on, it switches the port
  off under the viewer; in a box that booted on and is now in standby, it does nothing.\<close>

lemma standby_setting_goes_by_boot_state:
  assumes "s = fst (run_trace (ds_step p) js (fst (initPwrEventListner p profile_id reply env ok)))"
    and "known_port p port" and "\<not> port_throws p port"
  shows "snd (SetStandbyVideoState p (Some port) on s) =
     (0, (let boot = (case reply of None \<Rightarrow> PWRMGR_STANDBY | Some (cur, prev) \<Rightarrow> cur)
          in if boot = PWRMGR_ON \<or> boot = PWRMGR_OFF then []
             else [if on = 1 then Video_enable port else Video_disable port]))"
proof -
  have "boot_state s = (case reply of None \<Rightarrow> PWRMGR_STANDBY | Some (cur, prev) \<Rightarrow> cur)"
    by (simp add: assms(1) ds_run_boot_state init_boot_state)
  with assms(2,3) show ?thesis by (simp add: SetStandbyVideoState_def Let_def)
qed

section \<open>Witnesses\<close>

definition ds_example :: platform where
  "ds_example = \<lparr>supported_ports = [''HDMI0'', ''SCART''], list_throws = False, port_throws = (\<lambda>_. False),
     known_port = (\<lambda>n. n \<in> {''HDMI0'', ''SCART''}), name_length = 16, audio_ports = 1,
     audio_persist = (\<lambda>_. True), eas_mode = False, led_on_in_low_power = False\<rparr>"

definition boot_example :: boot_env where
  "boot_example = \<lparr>force_display = False, tv_in_factory = False, reboot_reason = UNAVAILABLE\<rparr>"

text \<open>A television that booted from ON into standby with an unknown reboot reason and a boot pattern
  that failed: the poll and the retry thread are both under way.\<close>

definition tv_example :: listener where
  "tv_example = fst (initPwrEventListner ds_example (Some 1) (Some (PWRMGR_STANDBY, PWRMGR_ON))
     boot_example False)"

definition stb_example :: listener where
  "stb_example = fst (initPwrEventListner ds_example None (Some (PWRMGR_STANDBY, PWRMGR_OFF))
     boot_example True)"

lemmas ds_examples = tv_example_def stb_example_def ds_example_def boot_example_def
  initPwrEventListner_def initialize_ux_controller_def applyPostRebootConfig_def ux_post_defs
  initialize_safe_defaults_def Let_def

lemma tv_example_ux:
  "ux tv_example = Some \<lparr>ux_profile = DEFAULT_TV_PROFILE, ledEnabledInStandby = True,
     ledEnabledInOnState = True, enableSilentRebootSupport = True,
     preferedPowerModeOnReboot = POWER_MODE_LIGHT_SLEEP, invalidateAsyncBootloaderPattern = False,
     firstPowerTransitionComplete = False, retry_thread = Some (BL_PATTERN_SILENT_LED_ON, 12),
     poll_count = Some 0, poll_display = None\<rparr>"
  by (simp add: ds_examples RETRIES_def is_tv_def)

text \<open>The television goes ON; the poll then learns of a hard reboot, which would have switched the
  display off.\<close>

theorem newest_pattern_wins_witness:
  "filter is_pattern (snd (run_trace (ds_step ds_example)
      [Pwr_event True True PWRMGR_STANDBY PWRMGR_ON True, Background (Retry_turn True),
       Background (Retry_turn True)]
      (fst (run_trace (ds_step ds_example) [Background (Retry_turn False)] tv_example))))
     = [BL_pattern BL_PATTERN_NORMAL True]"
  using newest_pattern_wins [of 1 "fst (run_trace (ds_step ds_example) [Background (Retry_turn False)] tv_example)"
      ds_example "[Background (Retry_turn False)]" "Some (PWRMGR_STANDBY, PWRMGR_ON)" boot_example False
      "[Background (Retry_turn True), Background (Retry_turn True)]" PWRMGR_STANDBY PWRMGR_ON True]
  unfolding tv_example_def by (simp del: run_trace.simps ds_step.simps)

text \<open>A concrete run: the first call and one retry fail, the second retry succeeds.\<close>

text \<open>A set-top box that booted into standby and was switched on: setting the standby state of the
  port in use to 0 switches it off.\<close>

text \<open>Why the first property needs its hypothesis on the poll: it checks, the television goes to sleep,
  and the display call of the poll then switches the port on again.\<close>

lemma poll_race_overrides_event:
  "video_after (snd (run_trace (ds_step ds_example)
      [Background (Poll_turn SOFT), Pwr_event True True PWRMGR_STANDBY PWRMGR_STANDBY_DEEP_SLEEP True,
       Background Poll_display] tv_example)) (\<lambda>_. False) ''HDMI0''"
proof -
  define u where "u = \<lparr>ux_profile = DEFAULT_TV_PROFILE, ledEnabledInStandby = True,
     ledEnabledInOnState = True, enableSilentRebootSupport = True,
     preferedPowerModeOnReboot = POWER_MODE_LIGHT_SLEEP, invalidateAsyncBootloaderPattern = True,
     firstPowerTransitionComplete = True, retry_thread = Some (BL_PATTERN_SILENT_LED_ON, 12),
     poll_count = None, poll_display = Some PWRMGR_ON\<rparr>"
  define xs where "xs = [Background (Poll_turn SOFT),
      Pwr_event True True PWRMGR_STANDBY PWRMGR_STANDBY_DEEP_SLEEP True]"
  have s: "ux (fst (run_trace (ds_step ds_example) xs tv_example)) = Some u"
    by (simp add: xs_def background_turn_def tv_example_ux reboot_reason_cb_def PwrEventHandler_def u_def
        sync_display_ports_with_reboot_reason_def applyPowerStateChangeConfig_def ux_change_defs)
  have last: "snd (run_trace (ds_step ds_example) [Background Poll_display] t)
      = SetAVPortsPowerState ds_example (table t) PWRMGR_ON" if "ux t = Some u" for t
    using that by (simp add: background_turn_def reboot_reason_display_def u_def
        sync_display_ports_with_power_state_def case_prod_beta)
  have calm: "calm ds_example" by (simp add: calm_def ds_example_def)
  have "wanted_video ds_example tbl PWRMGR_ON w ''HDMI0''" for tbl w
    by (simp add: wanted_video_def ds_example_def)
  then have "video_after (snd (run_trace (ds_step ds_example) (xs @ [Background Poll_display]) tv_example))
      (\<lambda>_. False) ''HDMI0''"
    by (simp only: snd_run_trace_append video_after_append last [OF s] SetAVPorts_video [OF calm])
  then show ?thesis by (simp only: xs_def append_Cons append_Nil)
qed

end
