(* ===== verification/Power_Display.thy ===== *)
theory Power_Display
  imports Pwr_Mgr Ds_Pwr_Listener
begin

text \<open>
  The power manager and the display: the lemmas for the property of the root theory that composes
  Pwr\_Mgr with Ds\_Pwr\_Listener.  The power manager tells its power state to the rest of the box
  only by the events MODECHANGED; here is what a listener that follows them knows.
\<close>

section \<open>What the events tell\<close>

fun mode_of :: "pwr_effect \<Rightarrow> mode_change option" where
  "mode_of (ModeChanged mc) = Some mc"
| "mode_of _ = None"

definition modes :: "pwr_effect list \<Rightarrow> mode_change list" where
  "modes es = List.map_filter mode_of es"

text \<open>The power state a listener knows after the effects es, if it knew d before.\<close>

definition tells :: "power_state \<Rightarrow> pwr_effect list \<Rightarrow> power_state" where
  "tells d es = (if modes es = [] then d else mc_newState (last (modes es)))"

lemma modes_append [simp]: "modes (es @ fs) = modes es @ modes fs"
  by (simp add: modes_def map_filter_def)

lemma modes_Nil [simp]: "modes [] = []"
  by (simp add: modes_def map_filter_def)

lemma modes_Cons [simp]: "modes (e # es) = (case mode_of e of None \<Rightarrow> modes es | Some mc \<Rightarrow> mc # modes es)"
  by (simp add: modes_def map_filter_def split: option.split)

lemma tells_append [simp]: "tells d (es @ fs) = tells (tells d es) fs"
  by (simp add: tells_def)

lemma tells_Nil [simp]: "tells d [] = d"
  by (simp add: tells_def)

lemma tells_silent: "modes es = [] \<Longrightarrow> tells d es = d"
  by (simp add: tells_def)

lemma modes_Ds [simp]: "modes (map DsEffect es) = []"
  by (induction es) simp_all

lemma modes_Reset [simp]: "modes (map ResetEffect es) = []"
  by (induction es) simp_all

lemma modes_Run [simp]: "modes (map RunCommand es) = []"
  by (induction es) simp_all

lemma tells_Cons [simp]:
  "tells d (e # es) = tells (case mode_of e of None \<Rightarrow> d | Some mc \<Rightarrow> mc_newState mc) es"
  by (simp add: tells_def split: option.split)

lemma tells_Ds [simp]: "tells d (map DsEffect es) = d"
  by (simp add: tells_silent)

text \<open>A box that reboots: what it last told does not matter.\<close>

definition rebooting :: "pwr_effect list \<Rightarrow> bool" where
  "rebooting es = (\<exists>p. ResetEffect (Rebooting p) \<in> set es)"

lemma rebooting_append [simp]: "rebooting (es @ fs) = (rebooting es \<or> rebooting fs)"
  by (auto simp: rebooting_def)

section \<open>Every change is told\<close>

lemma modes_drop [simp]: "modes (snd (drop_bootup cfg s)) = []"
  by (simp add: drop_bootup_def)

lemma modes_leave [simp]: "modes (snd (leave_deep_sleep cfg new s)) = []"
  by (simp add: leave_deep_sleep_def case_prod_beta)

lemma modes_change [simp]: "modes (snd (change_power cfg w new k s)) = []"
  by (simp add: change_power_def Let_def persist_def)

lemma tells_post: "tells d (snd (post_mode_change cfg w cur new s)) = new"
  by (simp add: post_mode_change_def arm_wakeup_timer_def Let_def case_prod_beta tells_def)

lemma SetPowerState_tells:
  assumes "SetPowerState cfg w new k s = (s', es, r)" and "malloc_ok w"
  shows "tells d es = (if cur_power s = new \<or> change_blocked cfg s then d else new)"
  using assms
  by (cases "cur_power s = new"; cases "change_blocked cfg s")
     (auto simp: SetPowerState_same SetPowerState_blocked SetPowerState_changes tells_silent tells_post Let_def)

lemma SetPowerState_told:
  assumes "SetPowerState cfg w new k s = (s', es, r)" and "malloc_ok w"
  shows "tells (cur_power s) es = cur_power s'"
  using SetPowerState_tells [OF assms] SetPowerState_fields(2) [OF assms(1)] by auto

lemma SetPowerStateAsync_silent: "modes (snd (SetPowerStateAsync cur new s)) = []"
  by (simp add: SetPowerStateAsync_def Let_def)

lemma change_by_key_told:
  assumes "change_by_key cfg w keyCode cur new s = (s', es)" and "malloc_ok w"
  shows "tells (cur_power s) es = cur_power s'"
proof (cases "doNothandlePowerKey cfg cur new s")
  case True
  with assms(1) show ?thesis by (simp add: change_by_key_def)
next
  case False
  obtain t ft rt where sp: "SetPowerState cfg w new keyCode s = (t, ft, rt)" by (metis prod_cases3)
  define u where "u = set_keyup_time cfg w s"
  obtain v fv where au: "SetPowerStateAsync cur new u = (v, fv)" by fastforce
  have u: "cur_power u = cur_power s" by (simp add: u_def set_keyup_time_def cur_power_def)
  have v: "cur_power v = cur_power u" "modes fv = []"
    using SetPowerStateAsync_fields(1) [OF au] same_settings_cur SetPowerStateAsync_silent [of cur new u] au
    by auto
  have rs: "cur_power (x\<lparr>rs := y\<rparr>) = cur_power x" for x y by (simp add: cur_power_def)
  show ?thesis
  proof (cases "FP_KEY_SENSITIVITY cfg")
    case True
    with assms(1) False have "(s', es) =
        (if power_key_interval cfg u \<ge> POWER_KEY_SENSITIVITY cfg
         then (v\<lparr>rs := setResetPowerState new (rs v)\<rparr>, fv) else (u\<lparr>rs := setResetPowerState new (rs u)\<rparr>, []))"
      by (simp add: change_by_key_def u_def [symmetric] au split: if_splits)
    then show ?thesis using u v by (auto simp: rs tells_silent split: if_splits)
  next
    case fp: False
    with assms(1) False sp have "s' = t\<lparr>rs := setResetPowerState new (rs t)\<rparr>" "es = ft"
      by (simp_all add: change_by_key_def)
    then show ?thesis using SetPowerState_told [OF sp assms(2)] by (simp add: rs)
  qed
qed

lemma reset_check_silent:
  "reset_check cfg w keyCode keyType isFP s = Some (ret, t, es) \<Longrightarrow> modes es = [] \<and> cur_power t = cur_power s"
  by (auto simp: reset_check_def cur_power_def split: if_splits option.splits)

lemma power_or_wakeup_key_told:
  assumes "power_or_wakeup_key cfg w keyCode keyType isFP s = Some (s', es)" and "malloc_ok w"
  shows "tells (cur_power s) es = cur_power s'"
proof -
  obtain ret t fs where rc: "reset_check cfg w keyCode keyType isFP s = Some (ret, t, fs)"
    using assms(1) by (auto simp: power_or_wakeup_key_def split: option.splits)
  note silent = reset_check_silent [OF rc]
  have "s' = t \<and> es = fs \<or> (\<exists>cur new. s' = fst (change_by_key cfg w keyCode cur new t) \<and>
      es = fs @ snd (change_by_key cfg w keyCode cur new t))"
    using assms(1) by (auto simp: power_or_wakeup_key_def rc Let_def case_prod_beta split: if_splits)
  moreover have "tells (cur_power t) (snd (change_by_key cfg w keyCode cur new t))
      = cur_power (fst (change_by_key cfg w keyCode cur new t))" for cur new
    using change_by_key_told [of cfg w keyCode cur new t, OF prod.collapse [symmetric] assms(2)] .
  ultimately show ?thesis using silent by (auto simp: tells_silent)
qed

lemma ecm_reset_reboots: "\<exists>p. Rebooting p \<in> set (PwrMgr_Reset PWRMGR_ON False)"
  by (auto simp: PwrMgr_Reset_def performReboot_def Let_def)

lemma irEventHandler_told:
  assumes "irEventHandler cfg w keyCode keyType isFP s = Some (s', es)" and "malloc_ok w"
    and "\<not> rebooting es"
  shows "tells (cur_power s) es = cur_power s'"
proof -
  define s0 where "s0 = (if FP_KEY_SENSITIVITY cfg \<and> keyType = KET_KEYDOWN \<and> keyCode = KED_POWER
                   then set_keydown_time cfg w s else s)"
  have s0: "cur_power s0 = cur_power s" by (simp add: s0_def set_keydown_time_def cur_power_def)
  obtain t ts r where sp: "SetPowerState cfg w (toggled (cur_power s0)) keyCode s0 = (t, ts, r)"
    by (metis prod_cases3)
  obtain p ps where pe: "persist w (set_power PWRMGR_ON s0) = (p, ps)" by fastforce
  have "(s', es) = (s, []) \<or> (s', es) = (s0, []) \<or> rebooting es \<or> (s', es) = (t, ts)
      \<or> power_or_wakeup_key cfg w keyCode keyType isFP s0 = Some (s', es)"
    using assms(1) ecm_reset_reboots
    unfolding irEventHandler_def Let_def s0_def [symmetric] sp pe
    by (fastforce simp: rebooting_def split: if_splits)
  then show ?thesis
    using assms(3) s0 SetPowerState_told [OF sp assms(2)] power_or_wakeup_key_told [OF _ assms(2), of cfg keyCode keyType isFP s0]
    by auto
qed

text \<open>The handlers that set the power state by hand before they change it.\<close>

lemma forced_change_told:
  assumes "SetPowerState cfg w new k (set_power p s) = (s', es, r)" and "malloc_ok w" and "p \<noteq> new"
    and "\<not> change_blocked cfg (set_power p s)"
  shows "tells d es = cur_power s'"
  using SetPowerState_tells [OF assms(1,2)] SetPowerState_fields(2) [OF assms(1)] assms(3,4)
  by (simp add: cur_power_def set_power_def)

lemma pwr_step_told:
  assumes "pwr_step cfg w e s = Some (s', es)" and "malloc_ok w" and "\<not> rebooting es"
    and "\<not> (WAKEUP_TIMER_EVT (ds_options cfg) \<and> DISABLE_SCHD_REBOOT_AT_DEEPSLEEP (ds_options cfg))"
  shows "tells (cur_power s) es = cur_power s'"
proof -
  note ir = irEventHandler_told [OF _ assms(2,3)]
  have sp: "tells (cur_power s) (fst (snd (SetPowerState cfg w new k s))) = cur_power (fst (SetPowerState cfg w new k s))"
    for new k using SetPowerState_told [of cfg w new k s] assms(2) by (metis prod.collapse)
  show ?thesis
  proof (cases e)
    case WakeupTimer
    obtain t ts r where f: "SetPowerState cfg w PWRMGR_STANDBY_LIGHT_SLEEP (uninit_key w)
        (set_power PWRMGR_STANDBY_DEEP_SLEEP s) = (t, ts, r)" by (metis prod_cases3)
    have "tells d ts = cur_power t" if "IsDeviceInDeepSleep (ds s) \<noteq> DeepSleepStatus_InProgress" for d
      using forced_change_told [OF f assms(2)] that
      by (simp add: change_blocked_def GetPwrMgrDeepSleepStatus_def set_power_def)
    then show ?thesis using WakeupTimer assms(1)
      by (auto simp: deep_sleep_wakeup_fn_def handleDeepsleepTimeoutWakeup_def f Let_def
            GetPwrMgrDeepSleepStatus_def tells_silent split: if_splits)
  next
    case BootupTimer
    obtain t ts r where f: "SetPowerState cfg w PWRMGR_STANDBY_DEEP_SLEEP (uninit_key w)
        (set_power PWRMGR_STANDBY s) = (t, ts, r)" by (metis prod_cases3)
    have "tells d ts = cur_power t" for d
      using forced_change_told [OF f assms(2)] by (simp add: change_blocked_def cur_power_def set_power_def)
    then show ?thesis using BootupTimer assms(1)
      by (auto simp: invoke_deep_sleep_on_bootup_timeout_def f split: if_splits)
  next
    case TimeoutThread
    then show ?thesis using assms(1,4)
      by (auto simp: handleDeepsleepTimeoutWakeup_def Let_def tells_silent split: if_splits)
  next
    case (IrKey a b c)
    then show ?thesis using ir assms(1) by simp
  next
    case (ControlKey a b c)
    then show ?thesis using ir assms(1)
      by (auto simp: controlEventHandler_def Let_def split: if_splits)
  next
    case (Voice a)
    then show ?thesis using ir assms(1) by (auto simp: speechEventHandler_def split: if_splits)
  next
    case (Ghost g)
    then show ?thesis using sp assms(1)
      by (auto simp: ctrlmMessageHandler_def case_prod_beta split: option.splits if_splits)
  next
    case (RfMessage a b c)
    then show ?thesis using sp assms(1)
      by (auto simp: rf4ceMessageHandler_def case_prod_beta split: if_splits)
  next
    case (CallSetPowerState p k)
    then show ?thesis using sp assms(1) by (auto simp: case_prod_beta)
  next
    case AsyncThreadTurn
    then show ?thesis using sp assms(1)
      by (auto simp: AsyncPowerTransition_def case_prod_beta split: if_splits)
  qed (use assms(1) in \<open>auto simp: SetDeepSleepTimeOut_def SetNetworkStandbyMode_def warehouse_rpc_def
        SetPowerWareHouseOperation_def AsyncPowerWareHouseOperation_def systemStateChangeHandler_def
        sleepModeChangeHandler_def SysModeChange_def DeepsleepStateChangeThread_def heartbeatMsg_def
        read_thresholds_def persist_def cur_power_def Let_def case_prod_beta tells_silent
        split: option.splits if_splits\<close>)
qed

lemma pwr_run_told:
  assumes "pwr_run cfg evs s = Some (s', es)" and "\<forall>e\<in>set evs. malloc_ok (fst e)" and "\<not> rebooting es"
    and "\<not> (WAKEUP_TIMER_EVT (ds_options cfg) \<and> DISABLE_SCHD_REBOOT_AT_DEEPSLEEP (ds_options cfg))"
  shows "tells (cur_power s) es = cur_power s'"
  using assms(1-3)
proof (induction evs arbitrary: s es)
  case (Cons e evs)
  then obtain t fs gs where t: "pwr_step cfg (fst e) (snd e) s = Some (t, fs)"
    and r: "pwr_run cfg evs t = Some (s', gs)" and es: "es = fs @ gs"
    by (auto split: option.splits)
  have "\<not> rebooting fs" "\<not> rebooting gs" using Cons.prems(3) es by simp_all
  then show ?case
    using pwr_step_told [OF t _ _ assms(4)] Cons.IH [OF r] Cons.prems(2) es by simp
qed simp

section \<open>The listener behind it\<close>

text \<open>The mode changes that reach the listener, and the other inputs it may get in between.\<close>

fun heard :: "ds_input \<Rightarrow> power_state option" where
  "heard (Pwr_event own mode cur new ok) = (if own \<and> mode then Some new else None)"
| "heard _ = None"

fun between :: "ds_input \<Rightarrow> bool" where
  "between (Background (Poll_turn rt)) = False"
| "between i = (heard i \<noteq> None \<or> display_quiet i)"

lemma between_no_poll:
  assumes "between i" and "ux_all (\<lambda>u. poll_display u = None) s"
  shows "ux_all (\<lambda>u. poll_display u = None) (fst (ds_step p i s))"
proof -
  have change: "poll_display (fst (snd (applyPowerStateChangeConfig p tbl st ok u))) = poll_display u" for tbl st ok u
    by (cases "ux_profile u") (simp_all add: applyPowerStateChangeConfig_def ux_change_defs Let_def)
  have maint: "poll_display (fst (snd (applyPreMaintenanceRebootConfig st ok u))) = poll_display u" for st ok u
    by (cases "ux_profile u") (simp_all add: ux_maintenance_defs ux_pattern_defs Let_def)
  show ?thesis
  proof (cases i)
    case (Background b)
    with assms show ?thesis
      by (cases b) (auto simp: ux_all_def background_turn_def ux_pattern_defs reboot_reason_display_def Let_def
          split: option.splits)
  qed (use assms change maint in \<open>auto simp: ux_all_def PwrEventHandler_def SetRebootConfig_def Let_def
      case_prod_beta split: option.splits if_splits\<close>)
qed

lemma between_table: "between i \<Longrightarrow> table (fst (ds_step p i s)) = table s"
  by (cases i) (auto simp: PwrEventHandler_def SetRebootConfig_def background_turn_def Let_def
      case_prod_beta split: option.splits)

lemma between_run:
  assumes "list_all between is" and "ux_all (\<lambda>u. poll_display u = None) s"
  shows "ux_all (\<lambda>u. poll_display u = None) (fst (run_trace (ds_step p) is s))
       \<and> table (fst (run_trace (ds_step p) is s)) = table s"
  using assms
proof (induction "is" arbitrary: s)
  case (Cons i "is")
  then show ?case using between_no_poll [of i s p] between_table [of i p s]
    by (simp add: fst_run_trace_Cons del: run_trace.simps ds_step.simps)
qed simp

text \<open>The last mode change of a list of inputs splits it.\<close>

lemma last_heard_split:
  assumes "List.map_filter heard is \<noteq> []"
  shows "\<exists>xs cur new ok ys. is = xs @ Pwr_event True True cur new ok # ys
      \<and> new = last (List.map_filter heard is) \<and> List.map_filter heard ys = []"
  using assms
proof (induction "is" rule: rev_induct)
  case (snoc i "is")
  show ?case
  proof (cases "heard i")
    case None
    with snoc.prems have "List.map_filter heard is \<noteq> []" by (simp add: map_filter_def)
    from snoc.IH [OF this] obtain xs cur new ok ys where
      "is = xs @ Pwr_event True True cur new ok # ys" "new = last (List.map_filter heard is)"
      "List.map_filter heard ys = []" by blast
    with None show ?thesis
      by (intro exI [of _ xs] exI [of _ cur] exI [of _ new] exI [of _ ok] exI [of _ "ys @ [i]"])
         (simp add: map_filter_def)
  next
    case (Some new)
    then obtain cur ok where "i = Pwr_event True True cur new ok" by (cases i) (auto split: if_splits)
    with Some show ?thesis
      by (intro exI [of _ "is"] exI [of _ cur] exI [of _ new] exI [of _ ok] exI [of _ "[]"])
         (simp add: map_filter_def)
  qed
qed (simp add: map_filter_def)

lemma unheard_quiet:
  "list_all between is \<Longrightarrow> List.map_filter heard is = [] \<Longrightarrow> list_all display_quiet is"
proof (induction "is")
  case (Cons i "is")
  then show ?case
    by (cases i rule: between.cases) (auto simp: map_filter_def split: option.splits if_splits)
qed simp

text \<open>The ports after inputs that carry at least one mode change are as the last one wants them, from
  some earlier state of the ports.\<close>

lemma ports_after_inputs:
  assumes "calm p" and "list_all between is" and "ux_all (\<lambda>u. poll_display u = None) s"
    and "List.map_filter heard is \<noteq> []"
  shows "\<exists>v0. \<forall>n. video_after (snd (run_trace (ds_step p) is s)) v n
       = wanted_video p (table s) (last (List.map_filter heard is)) v0 n"
proof -
  obtain xs cur new ok ys where "is": "is = xs @ Pwr_event True True cur new ok # ys"
    and new: "new = last (List.map_filter heard is)" and ys: "List.map_filter heard ys = []"
    using last_heard_split [OF assms(4)] by blast
  have b: "list_all between xs" "list_all between ys" using assms(2) "is" by simp_all
  define t where "t = fst (run_trace (ds_step p) xs s)"
  have t: "ux_all (\<lambda>u. poll_display u = None) t" "table t = table s"
    using between_run [OF b(1) assms(3)] by (simp_all add: t_def)
  define v0 where "v0 = video_after (snd (run_trace (ds_step p) xs s)) v"
  have "video_after (snd (run_trace (ds_step p) is s)) v n = wanted_video p (table s) new v0 n" for n
  proof -
    have "display_quiet i" if "i \<in> set ys" for i
      using unheard_quiet [OF b(2) ys] that by (simp add: list_all_iff)
    then have q: "list_all display_quiet ys" by (simp add: list_all_iff)
    have "video_after (snd (run_trace (ds_step p) (Pwr_event True True cur new ok # ys) t)) v0 n
        = wanted_video p (table t) new v0 n"
      by (rule ports_after_change [OF assms(1) t(1) q])
    then show ?thesis
      by (simp add: "is" v0_def t_def snd_run_trace_append t(2) [unfolded t_def] del: run_trace.simps)
  qed
  then show ?thesis unfolding new by blast
qed

lemma init_no_poll: "ux_all (\<lambda>u. poll_display u = None) (fst (initPwrEventListner p i reply env ok))"
proof -
  have new: "poll_display u = None" if "initialize_ux_controller k = Some u" for k u
    using that by (auto simp: initialize_ux_controller_def initialize_safe_defaults_def split: if_splits)
  have post: "poll_display (fst (snd (applyPostRebootConfig p tbl env st lk ok u))) = poll_display u" for tbl st lk u
    by (cases "ux_profile u"; cases "reboot_reason env")
       (auto simp: applyPostRebootConfig_def ux_post_defs Let_def)
  show ?thesis
    by (auto simp: initPwrEventListner_def ux_all_def Let_def case_prod_beta post new split: option.splits)
qed

lemma standby_boot_off: "\<not> get_video_port_standby_setting len standby_boot n"
proof -
  have "\<not> get_video_port_standby_setting len (replicate k ('''', False)) n" for k
    by (induction k) auto
  then show ?thesis by (simp add: standby_boot_def)
qed

text \<open>The effects of one accepted change.\<close>

lemma SetPowerState_modes:
  assumes "SetPowerState cfg w new k s = (s', es, r)" and "malloc_ok w"
  shows "map mc_newState (modes es) = (if cur_power s = new \<or> change_blocked cfg s then [] else [new])"
proof -
  have "map mc_newState (modes (snd (post_mode_change cfg w cur new t))) = [new]" for cur t
    by (simp add: post_mode_change_def arm_wakeup_timer_def Let_def case_prod_beta)
  then show ?thesis using assms
    by (cases "cur_power s = new"; cases "change_blocked cfg s")
       (auto simp: SetPowerState_same SetPowerState_blocked SetPowerState_changes Let_def)
qed

lemma SetPowerState_no_reboot:
  assumes "SetPowerState cfg w new k s = (s', es, r)"
  shows "\<not> rebooting es"
proof -
  have "\<not> rebooting (snd (drop_bootup cfg t))" for t by (simp add: drop_bootup_def rebooting_def)
  moreover have "\<not> rebooting (snd (leave_deep_sleep cfg new t))" for t
    by (auto simp: leave_deep_sleep_def rebooting_def case_prod_beta)
  moreover have "\<not> rebooting (snd (change_power cfg w new k t))" for t
    by (auto simp: change_power_def rebooting_def Let_def persist_def)
  moreover have "\<not> rebooting (snd (post_mode_change cfg w cur new t))" for cur t
    by (auto simp: post_mode_change_def arm_wakeup_timer_def rebooting_def Let_def case_prod_beta)
  moreover have "\<not> rebooting []" by (simp add: rebooting_def)
  ultimately show ?thesis using assms
    by (cases "cur_power s = new"; cases "change_blocked cfg s")
       (auto simp: SetPowerState_same SetPowerState_blocked SetPowerState_changes Let_def split: if_splits)
qed

end
