(* ===== verification/Ds_Resolution.thy ===== *)
theory Ds_Resolution
  imports Iarm_Prelude
begin

text \<open>
  How the device settings manager picks the resolution of a video port: \_SetResolution and
  \_SetVideoPortResolution of dsmgr/dsMgr.c.  The tables kResolutions and kDefaultResIndex come
  from a header of another repository and are the platform, an argument; what the device settings
  library answers (which ports have a handle, whether the HDMI is connected, the EDID of the TV,
  the persisted resolutions, whether 4K is disabled) is the sink, another argument.
\<close>

section \<open>Platform, sink and calls\<close>

text \<open>A resolution is its name and the fields the manager only copies.\<close>

record resolution =
  resn_name :: string
  resn_fields :: nat

datatype vport = VP_HDMI | VP_COMPONENT | VP_BB | VP_RF

record resn_table =
  kResolutions :: "resolution list"
  kDefaultResIndex :: nat
  INIT_RESN_SETTINGS :: bool

record sink =
  port_handle :: "vport \<Rightarrow> bool"
  hdmi_connected :: bool
  ddc_ready :: "nat \<Rightarrow> bool"
  display_handle :: bool
  hdmi_device :: bool
  edid_list :: "resolution list"
  persisted_name :: "vport \<Rightarrow> string"
  disable_4k :: bool

datatype resn_call =
    SetResolution_call vport resolution bool
  | InitResolution_call vport resolution bool
  | Wait_100ms
  | Wait_1s

definition default_resolution :: "resn_table \<Rightarrow> resolution" where
  "default_resolution t = kResolutions t ! kDefaultResIndex t"

section \<open>The loops of the choice\<close>

text \<open>Every loop assigns setResn on each turn; setResn is NULL at first.  The answer is setResn and
  IsValidResolution.\<close>

type_synonym choice = "resolution option \<times> bool"

fun scan :: "(resolution \<Rightarrow> bool) \<Rightarrow> resolution list \<Rightarrow> resolution option \<Rightarrow> choice" where
  "scan good [] cur = (cur, False)"
| "scan good (r # rs) cur = (if good r then (Some r, True) else scan good rs (Some r))"

definition platform_has :: "resn_table \<Rightarrow> resolution \<Rightarrow> bool" where
  "platform_has t r = list_ex (\<lambda>pf. resn_name pf = resn_name r) (kResolutions t)"

text \<open>The last stage: its break leaves the inner loop only.\<close>

fun boot_with_supported :: "(resolution \<Rightarrow> bool) \<Rightarrow> resolution list \<Rightarrow> choice \<Rightarrow> choice" where
  "boot_with_supported good [] ch = ch"
| "boot_with_supported good (r # rs) (cur, valid) = boot_with_supported good rs (Some r, valid \<or> good r)"

text \<open>One stage after another, each under if (false == IsValidResolution).\<close>

definition or_else :: "choice \<Rightarrow> (resolution option \<Rightarrow> choice) \<Rightarrow> choice" where
  "or_else ch stage = (if snd ch then ch else stage (fst ch))"

definition hdmi_choice :: "resn_table \<Rightarrow> resolution list \<Rightarrow> string \<Rightarrow> choice \<times> bool" where
  "hdmi_choice t edid pname =
     (let c1 = scan (\<lambda>r. pname = resn_name r) edid None;
          c2 = or_else c1 (scan (platform_has t) (rev edid));
          c3 = or_else c2 (scan (\<lambda>r. resn_name (default_resolution t) = resn_name r) edid);
          c4 = or_else c3 (scan (\<lambda>r. ''480p'' = resn_name r) edid);
          c5 = or_else c4 (\<lambda>cur. boot_with_supported (platform_has t) edid (cur, False))
      in (c5, snd c1))"

section \<open>Setting the resolution\<close>

text \<open>Arguments: whether iInitResnFlag is set, the port, whether its handle is not NULL.\<close>

definition SetResolution :: "resn_table \<Rightarrow> sink \<Rightarrow> bool \<Rightarrow> vport \<Rightarrow> bool \<Rightarrow> resn_call list" where
  "SetResolution t k init_flag port handle =
     (if \<not> handle then []
      else
        (let pname = persisted_name k port;
             choice =
               (if port = VP_HDMI
                then if display_handle k
                     then if edid_list k = [] \<or> \<not> hdmi_device k then None
                          else Some (hdmi_choice t (edid_list k) pname)
                     else Some ((None, False), False)
                else Some (scan (\<lambda>r. pname = resn_name r) (kResolutions t) None, False))
         in case choice of
              None \<Rightarrow> []
            | Some ((cur, valid), compatible) \<Rightarrow>
                (let r = (if valid then the cur else default_resolution t);
                     r = (if disable_4k k \<and> strncmp_eq pname ''2160'' 4 then default_resolution t else r)
                 in if INIT_RESN_SETTINGS t \<and> \<not> init_flag then [InitResolution_call port r compatible]
                    else [SetResolution_call port r compatible])))"

text \<open>The wait for the DDC line: the answers of the polls from the i-th on, the turns left.\<close>

fun ddc_wait :: "(nat \<Rightarrow> bool) \<Rightarrow> nat \<Rightarrow> nat \<Rightarrow> resn_call list" where
  "ddc_wait ready i 0 = []"
| "ddc_wait ready i (Suc n) = Wait_1s # (if ready i then [] else ddc_wait ready (Suc i) n)"

definition SetVideoPortResolution :: "resn_table \<Rightarrow> sink \<Rightarrow> bool \<Rightarrow> int \<Rightarrow> resn_call list" where
  "SetVideoPortResolution t k init_flag iResnCount =
     (if port_handle k VP_HDMI
      then [Wait_100ms]
           @ (if init_flag \<and> hdmi_connected k \<and> INIT_RESN_SETTINGS t
              then ddc_wait (ddc_ready k) 0 (nat iResnCount) else [])
           @ (if hdmi_connected k then SetResolution t k init_flag VP_HDMI True
              else if port_handle k VP_COMPONENT then SetResolution t k init_flag VP_COMPONENT True
              else if port_handle k VP_BB then SetResolution t k init_flag VP_BB True
              else if port_handle k VP_RF then SetResolution t k init_flag VP_RF True
              else [])
      else [])"

section \<open>Lemmas\<close>

lemma scan_find:
  "scan good rs cur = (case find good rs of
      Some r \<Rightarrow> (Some r, True) | None \<Rightarrow> (if rs = [] then cur else Some (List.last rs), False))"
  by (induction good rs cur rule: scan.induct) (auto split: option.splits)

lemma scan_valid: "snd (scan good rs cur) = list_ex good rs"
  by (induction good rs cur rule: scan.induct) auto

lemma boot_valid: "snd (boot_with_supported good rs ch) = (snd ch \<or> list_ex good rs)"
  by (induction good rs ch rule: boot_with_supported.induct) auto

lemma find_list_ex: "find good rs = None \<longleftrightarrow> \<not> list_ex good rs"
  by (induction rs) auto

lemma or_else_simps [simp]:
  "snd ch \<Longrightarrow> or_else ch f = ch" "\<not> snd ch \<Longrightarrow> or_else ch f = f (fst ch)"
  by (simp_all add: or_else_def)

lemma default_in_platform:
  assumes "kDefaultResIndex t < length (kResolutions t)"
    and "resn_name (default_resolution t) = resn_name r"
  shows "platform_has t r"
  using assms nth_mem [OF assms(1)] by (auto simp: platform_has_def list_ex_iff default_resolution_def)

text \<open>What the five stages amount to.\<close>

definition best_resolution :: "resn_table \<Rightarrow> resolution list \<Rightarrow> string \<Rightarrow> resolution option" where
  "best_resolution t edid pname =
     (case find (\<lambda>r. pname = resn_name r) edid of
        Some r \<Rightarrow> Some r
      | None \<Rightarrow> (case find (platform_has t) (rev edid) of
                  Some r \<Rightarrow> Some r
                | None \<Rightarrow> find (\<lambda>r. ''480p'' = resn_name r) edid))"

lemma hdmi_choice_best:
  assumes "kDefaultResIndex t < length (kResolutions t)"
  shows "(case best_resolution t edid pname of
            Some r \<Rightarrow> fst (hdmi_choice t edid pname) = (Some r, True)
          | None \<Rightarrow> \<not> snd (fst (hdmi_choice t edid pname)))
       \<and> snd (hdmi_choice t edid pname) = list_ex (\<lambda>r. pname = resn_name r) edid"
proof (cases "find (\<lambda>r. pname = resn_name r) edid")
  case (Some r)
  moreover from Some have "list_ex (\<lambda>r. pname = resn_name r) edid" by (metis find_list_ex option.distinct(1))
  ultimately show ?thesis by (simp add: hdmi_choice_def best_resolution_def scan_find)
next
  case no_persisted: None
  then have np: "\<not> list_ex (\<lambda>r. pname = resn_name r) edid" by (simp add: find_list_ex)
  show ?thesis
  proof (cases "find (platform_has t) (rev edid)")
    case (Some r)
    with no_persisted np show ?thesis by (simp add: hdmi_choice_def best_resolution_def scan_find)
  next
    case None
    then have none: "\<not> list_ex (platform_has t) edid" by (simp add: find_list_ex list_ex_iff)
    then have no_default: "\<not> list_ex (\<lambda>r. resn_name (default_resolution t) = resn_name r) edid"
      using default_in_platform [OF assms] by (auto simp: list_ex_iff)
    have "snd (fst (hdmi_choice t edid pname)) = list_ex (\<lambda>r. ''480p'' = resn_name r) edid"
      using np none no_default None
      by (simp add: hdmi_choice_def Let_def or_else_def scan_valid boot_valid list_ex_iff)
    moreover have "find (\<lambda>r. ''480p'' = resn_name r) edid = Some r \<Longrightarrow>
        fst (hdmi_choice t edid pname) = (Some r, True)" for r
      using no_persisted no_default None
      by (simp add: find_list_ex [symmetric] hdmi_choice_def Let_def or_else_def scan_find)
    moreover have "snd (hdmi_choice t edid pname) = list_ex (\<lambda>r. pname = resn_name r) edid"
      by (simp add: hdmi_choice_def Let_def scan_valid)
    moreover have "best_resolution t edid pname = find (\<lambda>r. ''480p'' = resn_name r) edid"
      using no_persisted None by (simp add: best_resolution_def)
    ultimately show ?thesis
      by (cases "find (\<lambda>r. ''480p'' = resn_name r) edid") (simp_all only: find_list_ex option.case, simp_all)
  qed
qed

text \<open>The best resolution is one the TV offers; when it is not the persisted one and the platform has
  any resolution of the TV, it is the last such entry of the EDID.\<close>

lemma find_Some_in: "find good rs = Some r \<Longrightarrow> r \<in> set rs \<and> good r"
  by (auto simp: find_Some_iff)

lemma best_resolution_offered: "best_resolution t edid pname = Some r \<Longrightarrow> r \<in> set edid"
  by (auto simp: best_resolution_def split: option.splits dest!: find_Some_in)

lemma best_resolution_last:
  assumes "find (\<lambda>r. pname = resn_name r) edid = None" and "list_ex (platform_has t) edid"
  shows "\<exists>xs r ys. edid = xs @ r # ys \<and> best_resolution t edid pname = Some r
           \<and> platform_has t r \<and> \<not> list_ex (platform_has t) ys"
proof -
  from assms(2) have "find (platform_has t) (rev edid) \<noteq> None" by (simp add: find_list_ex list_ex_iff)
  then obtain r where r: "find (platform_has t) (rev edid) = Some r" by blast
  then obtain i where i: "i < length edid" "platform_has t (rev edid ! i)" "r = rev edid ! i"
      "\<forall>j<i. \<not> platform_has t (rev edid ! j)" by (auto simp: find_Some_iff)
  have "edid = rev (drop (Suc i) (rev edid)) @ r # rev (take i (rev edid))"
    using i(1,3) by (metis id_take_nth_drop length_rev rev_append rev_rev_ident rev.simps(2)
        append.assoc append_Cons append_Nil)
  moreover have "\<not> list_ex (platform_has t) (rev (take i (rev edid)))"
    using i(1,4) by (auto simp: list_ex_iff in_set_conv_nth)
  moreover have "best_resolution t edid pname = Some r" using r assms(1) by (simp add: best_resolution_def)
  ultimately show ?thesis using i(2,3) by blast
qed

section \<open>Properties\<close>

text \<open>C32. The five stages of the HDMI choice (persisted, best of the TV, default, 480p, any) come to
  three: the persisted resolution if the TV offers it (then forced compatible), else the last entry
  of the EDID that the platform has, else 480p if the TV offers it, else the platform's default.
  The default and the last stage never decide.  A persisted 4K resolution gives way to the default
  when 4K is disabled.  Assumed: the default index is in its table, the TV has sent an EDID and is
  not a DVI device.\<close>

theorem hdmi_resolution_is_best:
  assumes "kDefaultResIndex t < length (kResolutions t)" and "display_handle k"
    and "edid_list k \<noteq> []" and "hdmi_device k"
  shows "SetResolution t k True VP_HDMI True =
    [SetResolution_call VP_HDMI
       (if disable_4k k \<and> take 4 (persisted_name k VP_HDMI) = ''2160'' then default_resolution t
        else case best_resolution t (edid_list k) (persisted_name k VP_HDMI) of
               Some r \<Rightarrow> r | None \<Rightarrow> default_resolution t)
       (list_ex (\<lambda>r. persisted_name k VP_HDMI = resn_name r) (edid_list k))]"
proof -
  let ?p = "persisted_name k VP_HDMI"
  obtain cur valid c where h: "hdmi_choice t (edid_list k) ?p = ((cur, valid), c)"
    by (metis prod_cases3 prod.collapse)
  with hdmi_choice_best [OF assms(1), of "edid_list k" ?p]
  have "c = list_ex (\<lambda>r. ?p = resn_name r) (edid_list k)"
    and "(if valid then the cur else default_resolution t)
       = (case best_resolution t (edid_list k) ?p of Some r \<Rightarrow> r | None \<Rightarrow> default_resolution t)"
    by (auto split: option.splits)
  with h assms(2-4) show ?thesis
    by (auto simp: SetResolution_def Let_def strncmp_eq_def)
qed

text \<open>A box and a TV of 1080p without 2160p: the persisted 2160p60 gives way to 1080p60.\<close>

definition resn_table_example :: resn_table where
  "resn_table_example = \<lparr>kResolutions =
     [\<lparr>resn_name = ''480i'', resn_fields = 0\<rparr>, \<lparr>resn_name = ''720p'', resn_fields = 1\<rparr>,
      \<lparr>resn_name = ''1080i'', resn_fields = 2\<rparr>, \<lparr>resn_name = ''1080p60'', resn_fields = 3\<rparr>,
      \<lparr>resn_name = ''2160p60'', resn_fields = 4\<rparr>],
     kDefaultResIndex = 1, INIT_RESN_SETTINGS = False\<rparr>"

definition sink_example :: sink where
  "sink_example = \<lparr>port_handle = (\<lambda>_. True), hdmi_connected = True, ddc_ready = (\<lambda>_. True),
     display_handle = True, hdmi_device = True,
     edid_list = [\<lparr>resn_name = ''480p'', resn_fields = 10\<rparr>, \<lparr>resn_name = ''720p'', resn_fields = 11\<rparr>,
       \<lparr>resn_name = ''1080p60'', resn_fields = 12\<rparr>, \<lparr>resn_name = ''1080p120'', resn_fields = 13\<rparr>],
     persisted_name = (\<lambda>_. ''2160p60''), disable_4k = False\<rparr>"

theorem hdmi_resolution_is_best_witness:
  "SetResolution resn_table_example sink_example True VP_HDMI True
     = [SetResolution_call VP_HDMI \<lparr>resn_name = ''1080p60'', resn_fields = 12\<rparr> False]"
  by (subst hdmi_resolution_is_best)
     (simp_all add: resn_table_example_def sink_example_def best_resolution_def platform_has_def)

end
