(* ===== verification/Ds_Mgr.thy ===== *)
theory Ds_Mgr
  imports Ds_Resolution
begin

text \<open>
  The device settings manager: dsmgr/dsMgr.c.  It sets the video resolution and the audio modes
  when the TV is plugged, when HDCP is authenticated or fails, when the box is tuned and when an
  emergency alert (EAS) begins or ends.  The state is its static variables, the timers it has put
  into the GLib main loop, the phase of its resolution thread and the audio modes it has set.  An
  input is a bus event, a mode change, a turn of the resolution thread or a second of the main
  loop; what the device settings library answers during it is the world.  A handler, a turn of the
  thread and a callback each run without another in between.
\<close>

section \<open>Data\<close>

datatype audio_port = AUDIO_HDMI | AUDIO_SPDIF | AUDIO_OTHER nat

datatype stereo_mode = STEREO_STEREO | STEREO_SURROUND | STEREO_PASSTHRU | STEREO_OTHER nat

datatype bg_color = BGCOLOR_NONE | BGCOLOR_BLUE

datatype display_event = DISPLAY_CONNECTED | DISPLAY_DISCONNECTED | DISPLAY_EVENT_MAX

datatype hdcp_status = HDCP_AUTHENTICATED | HDCP_AUTHENTICATIONFAILURE | HDCP_OTHER nat

record ds_world =
  tv :: sink
  component_present :: bool
  persisted_stereo :: "audio_port \<Rightarrow> stereo_mode"
  stereo_auto :: bool
  edid_bytes :: "8 word list"

record ds_box =
  resns :: resn_table
  supported_audio :: "audio_port list"

datatype ds_effect =
    Resn resn_call
  | Set_stereo audio_port stereo_mode
  | Background_color bg_color
  | Hdcp_broadcast int
  | Edid_dump
  | Listener_started

text \<open>The callbacks of the main loop, each with its source id and the seconds left.\<close>

datatype callback = SetResolutionHandler | DumpEdidOnChecksumDiff

type_synonym source = "nat \<times> nat \<times> callback"

text \<open>The resolution thread is on its way to the condition variable, waits there, or was signalled.
  A signal reaches only a thread that waits.\<close>

datatype thread_phase = Running | Waiting | Signalled

record ds_main =
  iTuneReady :: bool
  edisplayEventStatus :: display_event
  bHDCPAuthenticated :: bool
  hotplug_event_src :: nat
  isEAS :: sys_mode
  IsIgnoreEdid_gs :: bool
  iInitResnFlag :: bool
  iResnCount :: int
  bPwrMgeRFCEnabled :: bool
  cached_EDID_checksum :: int
  sources :: "source list"
  next_source :: nat
  resn_thread :: thread_phase
  stereo :: "audio_port \<Rightarrow> stereo_mode"

section \<open>Main loop sources and signals\<close>

definition g_timeout_add_seconds :: "nat \<Rightarrow> callback \<Rightarrow> ds_main \<Rightarrow> nat \<times> ds_main" where
  "g_timeout_add_seconds secs cb s =
     (next_source s,
      s\<lparr>sources := sources s @ [(next_source s, secs, cb)], next_source := next_source s + 1\<rparr>)"

definition g_source_remove :: "nat \<Rightarrow> ds_main \<Rightarrow> ds_main" where
  "g_source_remove i s = s\<lparr>sources := filter (\<lambda>(j, left, cb). j \<noteq> i) (sources s)\<rparr>"

definition remove_hotplug_source :: "ds_main \<Rightarrow> ds_main" where
  "remove_hotplug_source s =
     (if hotplug_event_src s \<noteq> 0
      then (g_source_remove (hotplug_event_src s) s)\<lparr>hotplug_event_src := 0\<rparr> else s)"

definition cond_signal :: "ds_main \<Rightarrow> ds_main" where
  "cond_signal s = (if resn_thread s = Waiting then s\<lparr>resn_thread := Signalled\<rparr> else s)"

section \<open>Resolution and background\<close>

definition set_port_resolution :: "ds_box \<Rightarrow> ds_world \<Rightarrow> ds_main \<Rightarrow> ds_effect list" where
  "set_port_resolution b w s =
     map Resn (SetVideoPortResolution (resns b) (tv w) (iInitResnFlag s) (iResnCount s))"

definition setBGColor :: "ds_world \<Rightarrow> bg_color \<Rightarrow> ds_effect list" where
  "setBGColor w c = (if port_handle (tv w) VP_HDMI then [Background_color c] else [])"

section \<open>Audio modes\<close>

text \<open>The audio loops: the mode a port gets, None for continue.\<close>

fun audio_loop :: "(audio_port \<Rightarrow> (audio_port \<Rightarrow> stereo_mode) \<Rightarrow> stereo_mode option) \<Rightarrow> audio_port list
    \<Rightarrow> (audio_port \<Rightarrow> stereo_mode) \<Rightarrow> (audio_port \<Rightarrow> stereo_mode) \<times> ds_effect list" where
  "audio_loop mode [] st = (st, [])"
| "audio_loop mode (p # ps) st =
     (case mode p st of
        None \<Rightarrow> audio_loop mode ps st
      | Some m \<Rightarrow> (let (st', es) = audio_loop mode ps (st(p := m)) in (st', Set_stereo p m # es)))"

definition eas_mode_of :: "audio_port \<Rightarrow> (audio_port \<Rightarrow> stereo_mode) \<Rightarrow> stereo_mode option" where
  "eas_mode_of p st = Some (if st p = STEREO_PASSTHRU then STEREO_STEREO else st p)"

definition normal_mode_of :: "ds_world \<Rightarrow> audio_port \<Rightarrow> (audio_port \<Rightarrow> stereo_mode) \<Rightarrow> stereo_mode option" where
  "normal_mode_of w p st =
     (if p = AUDIO_HDMI
      then if \<not> hdmi_connected (tv w) then None
           else Some (if stereo_auto w then STEREO_SURROUND else persisted_stereo w p)
      else Some (persisted_stereo w p))"

definition setEASAudioMode :: "ds_box \<Rightarrow> ds_main \<Rightarrow> ds_main \<times> ds_effect list" where
  "setEASAudioMode b s =
     (if isEAS s \<noteq> SYS_MODE_EAS then (s, [])
      else (let (st, es) = audio_loop eas_mode_of (supported_audio b) (stereo s)
            in (s\<lparr>stereo := st\<rparr>, es)))"

definition setAudioMode :: "ds_box \<Rightarrow> ds_world \<Rightarrow> ds_main \<Rightarrow> ds_main \<times> ds_effect list" where
  "setAudioMode b w s =
     (if isEAS s = SYS_MODE_EAS then (s, [])
      else (let (st, es) = audio_loop (normal_mode_of w) (supported_audio b) (stereo s)
            in (s\<lparr>stereo := st\<rparr>, es)))"

definition DsSysModeChange :: "ds_box \<Rightarrow> ds_world \<Rightarrow> sys_mode \<Rightarrow> ds_main \<Rightarrow> ds_main \<times> ds_effect list" where
  "DsSysModeChange b w newMode s =
     (if newMode = SYS_MODE_EAS \<or> newMode = SYS_MODE_NORMAL
      then if isEAS s = SYS_MODE_EAS \<and> newMode = SYS_MODE_NORMAL
           then setAudioMode b w (s\<lparr>isEAS := SYS_MODE_NORMAL\<rparr>)
           else if isEAS s = SYS_MODE_NORMAL \<and> newMode = SYS_MODE_EAS
           then setEASAudioMode b (s\<lparr>isEAS := SYS_MODE_EAS\<rparr>)
           else (s, [])
      else (s, []))"

section \<open>Bus events\<close>

text \<open>The events of the system manager (whether it is SYSTEMSTATE and its state TUNEREADY, the value
  of the state) and of the device settings manager itself.\<close>

datatype ds_event =
    Sysmgr_event bool bool int
  | Hdmi_hotplug display_event
  | Hdcp_event hdcp_status
  | Other_ds_event

definition tune_ready_event :: "ds_box \<Rightarrow> ds_world \<Rightarrow> ds_main \<Rightarrow> ds_main \<times> ds_effect list" where
  "tune_ready_event b w s =
     (if \<not> iTuneReady s
      then (let (s, es) = setAudioMode b w (s\<lparr>iTuneReady := True\<rparr>) in (cond_signal s, es))
      else (s, []))"

definition hotplug_event :: "ds_world \<Rightarrow> display_event \<Rightarrow> ds_main \<Rightarrow> ds_main \<times> ds_effect list" where
  "hotplug_event w e s =
     (cond_signal (s\<lparr>edisplayEventStatus :=
        (if e = DISPLAY_CONNECTED then DISPLAY_CONNECTED else DISPLAY_DISCONNECTED)\<rparr>),
      setBGColor w BGCOLOR_NONE)"

definition hdcp_event :: "ds_box \<Rightarrow> ds_world \<Rightarrow> hdcp_status \<Rightarrow> ds_main \<Rightarrow> ds_main \<times> ds_effect list" where
  "hdcp_event b w status s =
     (case status of
        HDCP_AUTHENTICATED \<Rightarrow>
          (let s = remove_hotplug_source (s\<lparr>bHDCPAuthenticated := True\<rparr>)
           in (snd (g_timeout_add_seconds 1 DumpEdidOnChecksumDiff s),
               setBGColor w BGCOLOR_NONE
               @ (if \<not> IsIgnoreEdid_gs s then set_port_resolution b w s else []) @ [Hdcp_broadcast 1]))
      | HDCP_AUTHENTICATIONFAILURE \<Rightarrow>
          (let s = s\<lparr>bHDCPAuthenticated := False\<rparr>
           in (snd (g_timeout_add_seconds 1 DumpEdidOnChecksumDiff s),
               setBGColor w BGCOLOR_BLUE
               @ (if \<not> IsIgnoreEdid_gs s then set_port_resolution b w s else []) @ [Hdcp_broadcast 0]))
      | HDCP_OTHER n \<Rightarrow> (s, [Hdcp_broadcast 1]))"

fun DsEventHandler :: "ds_box \<Rightarrow> ds_world \<Rightarrow> ds_event \<Rightarrow> ds_main \<Rightarrow> ds_main \<times> ds_effect list" where
  "DsEventHandler b w (Sysmgr_event is_systemstate is_tuneready state) s =
     (if is_systemstate \<and> is_tuneready then tune_ready_event b w s else (s, []))"
| "DsEventHandler b w (Hdmi_hotplug e) s = hotplug_event w e s"
| "DsEventHandler b w (Hdcp_event st) s = hdcp_event b w st s"
| "DsEventHandler b w Other_ds_event s = (s, [])"

section \<open>The resolution thread\<close>

text \<open>One turn of \_DSMgrResnThreadFunc after its wait.\<close>

definition resn_thread_turn :: "ds_box \<Rightarrow> ds_world \<Rightarrow> ds_main \<Rightarrow> ds_main \<times> ds_effect list" where
  "resn_thread_turn b w s =
     (let s = remove_hotplug_source s
      in if iTuneReady s \<and> edisplayEventStatus s = DISPLAY_CONNECTED
         then (let es = (if bHDCPAuthenticated s then set_port_resolution b w s else []);
                   (s, es') = setAudioMode b w s
               in (s, es @ es'))
         else if iTuneReady s \<and> edisplayEventStatus s = DISPLAY_DISCONNECTED
         then (let s = s\<lparr>bHDCPAuthenticated := False\<rparr>
               in if component_present w
                  then (let (i, s) = g_timeout_add_seconds 5 SetResolutionHandler s
                        in (s\<lparr>hotplug_event_src := i\<rparr>, []))
                  else (s, []))
         else (s, []))"

section \<open>Callbacks of the main loop\<close>

definition edid_checksum :: "8 word list \<Rightarrow> int" where
  "edid_checksum bytes =
     sum_list (map (\<lambda>i. uint (bytes ! ((i + 1) * 128 - 1))) [0..<length bytes div 128])"

definition dumpEdidOnChecksumDiff :: "ds_world \<Rightarrow> ds_main \<Rightarrow> ds_main \<times> ds_effect list" where
  "dumpEdidOnChecksumDiff w s =
     (if display_handle (tv w) \<and> 0 < length (edid_bytes w) \<and> length (edid_bytes w) \<le> 512
      then (let sum = edid_checksum (edid_bytes w)
            in if cached_EDID_checksum s = 0 \<or> sum \<noteq> cached_EDID_checksum s
               then (s\<lparr>cached_EDID_checksum := sum\<rparr>, [Edid_dump]) else (s, []))
      else (s, []))"

fun run_callback :: "ds_box \<Rightarrow> ds_world \<Rightarrow> callback \<Rightarrow> ds_main \<Rightarrow> ds_main \<times> ds_effect list" where
  "run_callback b w SetResolutionHandler s = (s\<lparr>hotplug_event_src := 0\<rparr>, set_port_resolution b w s)"
| "run_callback b w DumpEdidOnChecksumDiff s = dumpEdidOnChecksumDiff w s"

text \<open>A second: the sources whose time is up are dispatched and removed, for both callbacks return
  FALSE.\<close>

definition main_loop_second :: "ds_box \<Rightarrow> ds_world \<Rightarrow> ds_main \<Rightarrow> ds_main \<times> ds_effect list" where
  "main_loop_second b w s =
     (let due = filter (\<lambda>(i, left, cb). left \<le> 1) (sources s);
          rest = map (\<lambda>(i, left, cb). (i, left - 1, cb)) (filter (\<lambda>(i, left, cb). 1 < left) (sources s))
      in run_trace (run_callback b w) (map (snd \<circ> snd) due) (s\<lparr>sources := rest\<rparr>))"

section \<open>Start\<close>

record ds_start =
  start_ignore_edid :: bool
  start_rfc_value :: string
  start_ddc_delay :: "int option"
  start_tune_ready :: int
  start_stereo :: "audio_port \<Rightarrow> stereo_mode"

text \<open>The statics before DSMgr\_Start, then DSMgr\_Start.  start\_ddc\_delay is what fscanf reads from
  /opt/ddcDelay, None when there is no such file or no number in it; start\_rfc\_value and
  start\_tune\_ready are what the answer buffers hold.\<close>

definition ds_statics :: "(audio_port \<Rightarrow> stereo_mode) \<Rightarrow> ds_main" where
  "ds_statics st = \<lparr>iTuneReady = False, edisplayEventStatus = DISPLAY_EVENT_MAX,
     bHDCPAuthenticated = False, hotplug_event_src = 0, isEAS = SYS_MODE_NORMAL,
     IsIgnoreEdid_gs = False, iInitResnFlag = False, iResnCount = 5, bPwrMgeRFCEnabled = False,
     cached_EDID_checksum = 0, sources = [], next_source = 1, resn_thread = Running, stereo = st\<rparr>"

definition DSMgr_Start :: "ds_box \<Rightarrow> ds_world \<Rightarrow> ds_start \<Rightarrow> ds_main \<times> ds_effect list" where
  "DSMgr_Start b w a =
     (let rfc = strncmp_eq (start_rfc_value a) ''true'' 4;
          s = (ds_statics (start_stereo a))\<lparr>iInitResnFlag := True, IsIgnoreEdid_gs := start_ignore_edid a,
             bPwrMgeRFCEnabled := rfc,
             iResnCount := (case start_ddc_delay a of Some n \<Rightarrow> n | None \<Rightarrow> 5),
             iTuneReady := (start_tune_ready a = 1)\<rparr>
      in (s, (if rfc then [Listener_started] else [])
             @ (if \<not> hdmi_connected (tv w) then set_port_resolution b w s else [])))"

section \<open>The manager as a machine\<close>

text \<open>POSIX allows a condition wait to return without a signal, and the code does not check: a turn
  may come from Waiting too.\<close>

datatype dsm_input =
    Ds_bus ds_event
  | Ds_mode sys_mode
  | Thread_waits
  | Thread_turn
  | Second

fun dsm_step :: "ds_box \<Rightarrow> ds_world \<times> dsm_input \<Rightarrow> ds_main \<Rightarrow> ds_main \<times> ds_effect list" where
  "dsm_step b (w, Ds_bus e) s = DsEventHandler b w e s"
| "dsm_step b (w, Ds_mode m) s = DsSysModeChange b w m s"
| "dsm_step b (w, Thread_waits) s =
     (if resn_thread s = Running then (s\<lparr>resn_thread := Waiting\<rparr>, []) else (s, []))"
| "dsm_step b (w, Thread_turn) s =
     (if resn_thread s = Running then (s, [])
      else resn_thread_turn b w (s\<lparr>resn_thread := Running\<rparr>))"
| "dsm_step b (w, Second) s = main_loop_second b w s"

section \<open>Lemmas: audio\<close>

text \<open>A loop whose mode for a port does not depend on what it has set for the others.\<close>

lemma audio_loop_other: "p \<notin> set ps \<Longrightarrow> fst (audio_loop mode ps st) p = st p"
  by (induction mode ps st rule: audio_loop.induct) (auto simp: Let_def case_prod_beta split: option.splits)

lemma audio_loop_at:
  assumes "\<And>st st'. st p = st' p \<Longrightarrow> mode p st = mode p st'"
    and "\<And>st m. mode p st = Some m \<Longrightarrow> mode p (st(p := m)) = Some m"
  shows "fst (audio_loop mode ps st) p
     = (if p \<in> set ps then (case mode p st of None \<Rightarrow> st p | Some m \<Rightarrow> m) else st p)"
proof (induction ps arbitrary: st)
  case (Cons q ps)
  have rest: "fst (audio_loop mode (q # ps) st)
      = fst (audio_loop mode ps (case mode q st of None \<Rightarrow> st | Some m \<Rightarrow> st(q := m)))"
    by (simp add: Let_def case_prod_beta split: option.split)
  let ?st = "case mode q st of None \<Rightarrow> st | Some m \<Rightarrow> st(q := m)"
  show ?case
  proof (cases "q = p")
    case True
    then have "(case mode p ?st of None \<Rightarrow> ?st p | Some m \<Rightarrow> m) = (case mode p st of None \<Rightarrow> st p | Some m \<Rightarrow> m)"
      and "?st p = (case mode p st of None \<Rightarrow> st p | Some m \<Rightarrow> m)"
      using assms(2) by (cases "mode p st"; simp)+
    then show ?thesis unfolding rest Cons.IH [of ?st] using True by (simp only: list.set_intros if_True if_cancel)
  next
    case False
    then have p: "?st p = st p" by (simp split: option.split)
    then have "mode p ?st = mode p st" by (rule assms(1))
    then show ?thesis unfolding rest Cons.IH [of ?st] p using False by simp
  qed
qed simp

lemma eas_loop_at:
  "p \<in> set ps \<Longrightarrow> fst (audio_loop eas_mode_of ps st) p
     = (if st p = STEREO_PASSTHRU then STEREO_STEREO else st p)"
  by (subst audio_loop_at) (auto simp: eas_mode_of_def split: if_splits)

lemma normal_loop_at:
  "p \<in> set ps \<Longrightarrow> fst (audio_loop (normal_mode_of w) ps st) p
     = (case normal_mode_of w p st of None \<Rightarrow> st p | Some m \<Rightarrow> m)"
  by (subst audio_loop_at) (auto simp: normal_mode_of_def split: if_splits)

lemma callbacks_keep:
  "stereo (fst (run_trace (run_callback b w) cs s)) = stereo s"
  "isEAS (fst (run_trace (run_callback b w) cs s)) = isEAS s"
  "bHDCPAuthenticated (fst (run_trace (run_callback b w) cs s)) = bHDCPAuthenticated s"
  "sources (fst (run_trace (run_callback b w) cs s)) = sources s"
  "next_source (fst (run_trace (run_callback b w) cs s)) = next_source s"
proof -
  have "stereo (fst (run_callback b w c s)) = stereo s \<and> isEAS (fst (run_callback b w c s)) = isEAS s
      \<and> bHDCPAuthenticated (fst (run_callback b w c s)) = bHDCPAuthenticated s
      \<and> sources (fst (run_callback b w c s)) = sources s
      \<and> next_source (fst (run_callback b w c s)) = next_source s" for c s
    by (cases c) (auto simp: dumpEdidOnChecksumDiff_def Let_def)
  then show "stereo (fst (run_trace (run_callback b w) cs s)) = stereo s"
    "isEAS (fst (run_trace (run_callback b w) cs s)) = isEAS s"
    "bHDCPAuthenticated (fst (run_trace (run_callback b w) cs s)) = bHDCPAuthenticated s"
    "sources (fst (run_trace (run_callback b w) cs s)) = sources s"
    "next_source (fst (run_trace (run_callback b w) cs s)) = next_source s"
    by (induction cs arbitrary: s) (simp_all add: fst_run_trace_Cons del: run_trace.simps(2))
qed

text \<open>The fields a helper leaves alone.\<close>

lemma remove_hotplug_source_fields [simp]:
  "stereo (remove_hotplug_source s) = stereo s" "isEAS (remove_hotplug_source s) = isEAS s"
  "iTuneReady (remove_hotplug_source s) = iTuneReady s"
  "edisplayEventStatus (remove_hotplug_source s) = edisplayEventStatus s"
  "bHDCPAuthenticated (remove_hotplug_source s) = bHDCPAuthenticated s"
  "next_source (remove_hotplug_source s) = next_source s"
  "IsIgnoreEdid_gs (remove_hotplug_source s) = IsIgnoreEdid_gs s"
  "hotplug_event_src (remove_hotplug_source s) = 0"
  by (simp_all add: remove_hotplug_source_def g_source_remove_def)

lemma cond_signal_fields [simp]:
  "stereo (cond_signal s) = stereo s" "isEAS (cond_signal s) = isEAS s"
  "sources (cond_signal s) = sources s" "next_source (cond_signal s) = next_source s"
  "bHDCPAuthenticated (cond_signal s) = bHDCPAuthenticated s"
  "hotplug_event_src (cond_signal s) = hotplug_event_src s"
  by (simp_all add: cond_signal_def)

lemma setAudioMode_fields [simp]:
  "isEAS (fst (setAudioMode b w s)) = isEAS s" "sources (fst (setAudioMode b w s)) = sources s"
  "next_source (fst (setAudioMode b w s)) = next_source s"
  "bHDCPAuthenticated (fst (setAudioMode b w s)) = bHDCPAuthenticated s"
  "hotplug_event_src (fst (setAudioMode b w s)) = hotplug_event_src s"
  by (simp_all add: setAudioMode_def Let_def case_prod_beta)

lemma setEASAudioMode_fields [simp]:
  "isEAS (fst (setEASAudioMode b s)) = isEAS s" "sources (fst (setEASAudioMode b s)) = sources s"
  "next_source (fst (setEASAudioMode b s)) = next_source s"
  "bHDCPAuthenticated (fst (setEASAudioMode b s)) = bHDCPAuthenticated s"
  "hotplug_event_src (fst (setEASAudioMode b s)) = hotplug_event_src s"
  by (simp_all add: setEASAudioMode_def Let_def case_prod_beta)

lemma g_timeout_fields [simp]:
  "stereo (snd (g_timeout_add_seconds n cb s)) = stereo s"
  "isEAS (snd (g_timeout_add_seconds n cb s)) = isEAS s"
  "bHDCPAuthenticated (snd (g_timeout_add_seconds n cb s)) = bHDCPAuthenticated s"
  "hotplug_event_src (snd (g_timeout_add_seconds n cb s)) = hotplug_event_src s"
  "sources (snd (g_timeout_add_seconds n cb s)) = sources s @ [(next_source s, n, cb)]"
  "next_source (snd (g_timeout_add_seconds n cb s)) = next_source s + 1"
  "fst (g_timeout_add_seconds n cb s) = next_source s"
  by (simp_all add: g_timeout_add_seconds_def)

lemmas dsm_steps = tune_ready_event_def hotplug_event_def hdcp_event_def resn_thread_turn_def
  DsSysModeChange_def main_loop_second_def

text \<open>An alert in progress: only the mode change to NORMAL ends it, and nothing else touches the
  audio.\<close>

lemma alert_step:
  assumes "isEAS s = SYS_MODE_EAS" and "snd x \<noteq> Ds_mode SYS_MODE_NORMAL"
  shows "isEAS (fst (dsm_step b x s)) = SYS_MODE_EAS" and "stereo (fst (dsm_step b x s)) = stereo s"
proof -
  obtain w i where x: "x = (w, i)" by fastforce
  have quiet: "isEAS s' = SYS_MODE_EAS \<Longrightarrow> setAudioMode b w s' = (s', [])" for s'
    by (simp add: setAudioMode_def)
  have "isEAS (fst (dsm_step b (w, i) s)) = SYS_MODE_EAS \<and> stereo (fst (dsm_step b (w, i) s)) = stereo s"
  proof (cases i)
    case (Ds_bus e)
    then show ?thesis
      using assms(1) quiet by (cases e) (auto simp: dsm_steps Let_def split: hdcp_status.split)
  next
    case Thread_turn
    then show ?thesis using assms(1) quiet by (auto simp: dsm_steps Let_def case_prod_beta)
  next
    case Second
    then show ?thesis using assms(1) by (simp add: main_loop_second_def callbacks_keep)
  qed (use assms x in \<open>auto simp: DsSysModeChange_def\<close>)
  then show "isEAS (fst (dsm_step b x s)) = SYS_MODE_EAS" "stereo (fst (dsm_step b x s)) = stereo s"
    by (simp_all add: x)
qed

lemma alert_run:
  assumes "isEAS s = SYS_MODE_EAS" and "list_all (\<lambda>x. snd x \<noteq> Ds_mode SYS_MODE_NORMAL) is"
  shows "isEAS (fst (run_trace (dsm_step b) is s)) = SYS_MODE_EAS
       \<and> stereo (fst (run_trace (dsm_step b) is s)) = stereo s"
  using assms
  by (induction "is" arbitrary: s) (simp_all add: fst_run_trace_Cons alert_step del: run_trace.simps(2))

section \<open>Lemmas: the hot plug timer\<close>

fun is_resn :: "ds_effect \<Rightarrow> bool" where
  "is_resn (Resn c) = True"
| "is_resn _ = False"

fun is_timer :: "source \<Rightarrow> bool" where
  "is_timer (i, left, cb) = (cb = SetResolutionHandler)"

text \<open>hotplug\_event\_src is the id of the one resolution timer, 0 when there is none.\<close>

definition timer_ok :: "ds_main \<Rightarrow> bool" where
  "timer_ok s = (map fst (filter is_timer (sources s))
                   = (if hotplug_event_src s = 0 then [] else [hotplug_event_src s])
               \<and> 0 < next_source s)"

lemma set_port_resolution_resn [simp]: "filter is_resn (set_port_resolution b w s) = set_port_resolution b w s"
  by (simp add: set_port_resolution_def filter_map comp_def)

lemma no_resn_effects [simp]:
  "filter is_resn (setBGColor w c) = []"
  "filter is_resn (snd (setAudioMode b w s)) = []"
  "filter is_resn (snd (setEASAudioMode b s)) = []"
proof -
  have "filter is_resn (snd (audio_loop mode ps st)) = []" for mode ps st
    by (induction ps arbitrary: st) (simp_all add: Let_def case_prod_beta split: option.split)
  then show "filter is_resn (snd (setAudioMode b w s)) = []" "filter is_resn (snd (setEASAudioMode b s)) = []"
    by (simp_all add: setAudioMode_def setEASAudioMode_def Let_def case_prod_beta)
qed (simp add: setBGColor_def)

lemma removed_no_timer:
  assumes "timer_ok s"
  shows "filter is_timer (sources (remove_hotplug_source s)) = []"
proof (cases "hotplug_event_src s = 0")
  case True
  with assms show ?thesis by (simp add: timer_ok_def remove_hotplug_source_def)
next
  case False
  with assms have "fst ` set (filter is_timer (sources s)) = {hotplug_event_src s}"
    by (metis list.set(1,2) list.set_map timer_ok_def)
  then have "\<forall>x\<in>set (sources s). is_timer x \<longrightarrow> fst x = hotplug_event_src s" by auto
  with False show ?thesis
    by (auto simp: remove_hotplug_source_def g_source_remove_def filter_empty_conv simp del: is_timer.simps)
qed

lemma removed_subset: "set (sources (remove_hotplug_source s)) \<subseteq> set (sources s)"
  by (auto simp: remove_hotplug_source_def g_source_remove_def)

lemma removed_timer_ok: "timer_ok s \<Longrightarrow> timer_ok (remove_hotplug_source s)"
  using removed_no_timer [of s] by (simp add: timer_ok_def)

lemma timer_ok_cong:
  "sources s' = sources s \<Longrightarrow> next_source s' = next_source s \<Longrightarrow> hotplug_event_src s' = hotplug_event_src s
   \<Longrightarrow> timer_ok s' = timer_ok s"
  by (simp add: timer_ok_def)

lemma callbacks_src:
  "hotplug_event_src (fst (run_trace (run_callback b w) cs s))
     = (if SetResolutionHandler \<in> set cs then 0 else hotplug_event_src s)"
proof (induction cs arbitrary: s)
  case (Cons c cs)
  then show ?case
    by (cases c) (auto simp: fst_run_trace_Cons dumpEdidOnChecksumDiff_def Let_def simp del: run_trace.simps)
qed simp

lemma due_timer:
  "SetResolutionHandler \<in> set (map (snd \<circ> snd) (filter (\<lambda>(i, left, cb). left \<le> 1) xs))
     \<longleftrightarrow> list_ex (\<lambda>x. fst (snd x) \<le> 1) (filter is_timer xs)"
  by (induction xs) auto

lemma map_fst_rest:
  "map fst (filter is_timer (map (\<lambda>(i, left, cb). (i, left - 1, cb)) (filter (\<lambda>(i, left, cb). 1 < left) xs)))
     = map fst (filter (\<lambda>x. 1 < fst (snd x)) (filter is_timer xs))"
  by (induction xs) auto

lemma second_timer_ok:
  assumes "timer_ok s"
  shows "timer_ok (fst (main_loop_second b w s))"
proof -
  let ?s = "fst (main_loop_second b w s)" and ?ts = "filter is_timer (sources s)"
  have ids: "map fst (filter is_timer (sources ?s)) = map fst (filter (\<lambda>x. 1 < fst (snd x)) ?ts)"
    unfolding main_loop_second_def Let_def callbacks_keep map_fst_rest [symmetric] by simp
  have src: "hotplug_event_src ?s = (if list_ex (\<lambda>x. fst (snd x) \<le> 1) ?ts then 0 else hotplug_event_src s)"
    unfolding main_loop_second_def Let_def callbacks_src due_timer by simp
  have nxt: "next_source ?s = next_source s" by (simp add: main_loop_second_def Let_def callbacks_keep)
  show ?thesis
    using assms by (cases ?ts) (auto simp: timer_ok_def ids src nxt split: if_splits)
qed

lemma dsm_step_timer_ok:
  assumes "timer_ok s"
  shows "timer_ok (fst (dsm_step b x s))"
proof -
  obtain w i where x: "x = (w, i)" by fastforce
  show ?thesis
  proof (cases i)
    case (Ds_bus e)
    then show ?thesis
      using assms removed_no_timer [of "s\<lparr>bHDCPAuthenticated := True\<rparr>"]
      by (cases e) (auto simp: x timer_ok_def dsm_steps Let_def case_prod_beta split: hdcp_status.split)
  next
    case (Ds_mode m)
    then show ?thesis using assms by (auto simp: x timer_ok_def DsSysModeChange_def)
  next
    case Thread_waits
    have "timer_ok (s\<lparr>resn_thread := Waiting\<rparr>) = timer_ok s" by (rule timer_ok_cong) simp_all
    with Thread_waits assms show ?thesis by (simp add: x)
  next
    case Thread_turn
    then show ?thesis
      using assms removed_no_timer [of "s\<lparr>resn_thread := Running\<rparr>"]
      by (auto simp: x timer_ok_def dsm_steps Let_def case_prod_beta)
  next
    case Second
    then show ?thesis using assms by (simp add: x second_timer_ok)
  qed
qed

lemma start_timer_ok: "timer_ok (fst (DSMgr_Start b w a))"
  by (simp add: timer_ok_def DSMgr_Start_def ds_statics_def Let_def)

text \<open>Armed: HDCP is not authenticated, and the resolution timer, if any, has more than n seconds
  left.\<close>

definition armed :: "nat \<Rightarrow> ds_main \<Rightarrow> bool" where
  "armed n s = (\<not> bHDCPAuthenticated s \<and> (\<forall>x\<in>set (sources s). is_timer x \<longrightarrow> n < fst (snd x)))"

fun hdcp_verdict :: "dsm_input \<Rightarrow> bool" where
  "hdcp_verdict (Ds_bus (Hdcp_event HDCP_AUTHENTICATED)) = True"
| "hdcp_verdict (Ds_bus (Hdcp_event HDCP_AUTHENTICATIONFAILURE)) = True"
| "hdcp_verdict _ = False"

definition seconds :: "(ds_world \<times> dsm_input) list \<Rightarrow> nat" where
  "seconds is = length (filter (\<lambda>x. snd x = Second) is)"

lemma callbacks_no_resn:
  "SetResolutionHandler \<notin> set cs \<Longrightarrow> filter is_resn (snd (run_trace (run_callback b w) cs s)) = []"
proof (induction cs arbitrary: s)
  case (Cons c cs)
  then show ?case
    by (cases c) (auto simp: snd_run_trace_Cons dumpEdidOnChecksumDiff_def Let_def simp del: run_trace.simps)
qed simp

lemma armed_second:
  assumes "armed (Suc n) s"
  shows "armed n (fst (main_loop_second b w s)) \<and> filter is_resn (snd (main_loop_second b w s)) = []"
proof -
  from assms have "SetResolutionHandler \<notin> set (map (snd \<circ> snd) (filter (\<lambda>(i, left, cb). left \<le> 1) (sources s)))"
    unfolding due_timer by (auto simp: armed_def list_ex_iff)
  then show ?thesis
    using assms by (auto simp: armed_def main_loop_second_def Let_def callbacks_keep callbacks_no_resn)
qed

lemma armed_step:
  assumes "armed n s" and "timer_ok s" and "n \<le> 4" and "\<not> hdcp_verdict i" and "i \<noteq> Second"
  shows "armed n (fst (dsm_step b (w, i) s)) \<and> filter is_resn (snd (dsm_step b (w, i) s)) = []"
proof (cases i)
  case (Ds_bus e)
  then show ?thesis
    using assms by (cases e) (auto simp: armed_def dsm_steps Let_def case_prod_beta split: hdcp_status.split)
next
  case Thread_turn
  then show ?thesis
    using assms removed_no_timer [of "s\<lparr>resn_thread := Running\<rparr>"] removed_subset [of "s\<lparr>resn_thread := Running\<rparr>"]
    by (auto simp: armed_def dsm_steps Let_def case_prod_beta)
qed (use assms in \<open>auto simp: armed_def DsSysModeChange_def\<close>)

lemma armed_run:
  assumes "armed (seconds is + n) s" and "timer_ok s" and "seconds is + n \<le> 4"
    and "list_all (\<lambda>x. \<not> hdcp_verdict (snd x)) is"
  shows "armed n (fst (run_trace (dsm_step b) is s))
       \<and> filter is_resn (snd (run_trace (dsm_step b) is s)) = []"
  using assms
proof (induction "is" arbitrary: s)
  case (Cons x "is")
  obtain w i where x: "x = (w, i)" by fastforce
  have ok: "timer_ok (fst (dsm_step b x s))" using Cons.prems(2) by (rule dsm_step_timer_ok)
  have "armed (seconds is + n) (fst (dsm_step b x s)) \<and> filter is_resn (snd (dsm_step b x s)) = []"
  proof (cases "i = Second")
    case True
    then show ?thesis using Cons.prems(1) armed_second by (simp add: x seconds_def)
  next
    case False
    then show ?thesis using Cons.prems armed_step [of _ s i b w] by (simp add: x seconds_def)
  qed
  moreover from Cons.prems(3) have "seconds is + n \<le> 4" by (auto simp: seconds_def split: if_splits)
  ultimately show ?case
    using Cons.IH [OF _ ok] Cons.prems(4)
    by (simp add: fst_run_trace_Cons snd_run_trace_Cons del: run_trace.simps)
qed (simp add: seconds_def)

text \<open>The timer with l seconds left, and what the second in which it is due does.\<close>

definition timer_at :: "nat \<Rightarrow> ds_main \<Rightarrow> bool" where
  "timer_at l s = (\<exists>i. (i, l, SetResolutionHandler) \<in> set (sources s))"

lemma timer_second:
  assumes "timer_at (Suc l) s" and "0 < l"
  shows "timer_at l (fst (main_loop_second b w s))"
  using assms by (force simp: timer_at_def main_loop_second_def Let_def callbacks_keep)

lemma timer_step:
  assumes "timer_at l s" and "\<not> hdcp_verdict i" and "i \<noteq> Second" and "i \<noteq> Thread_turn"
  shows "timer_at l (fst (dsm_step b (w, i) s))"
proof (cases i)
  case (Ds_bus e)
  then show ?thesis
    using assms by (cases e) (auto simp: timer_at_def dsm_steps Let_def case_prod_beta split: hdcp_status.split)
qed (use assms in \<open>auto simp: timer_at_def DsSysModeChange_def\<close>)

lemma timer_run:
  assumes "timer_at (seconds is + l) s" and "0 < l"
    and "list_all (\<lambda>x. \<not> hdcp_verdict (snd x) \<and> snd x \<noteq> Thread_turn) is"
  shows "timer_at l (fst (run_trace (dsm_step b) is s))"
  using assms
proof (induction "is" arbitrary: s)
  case (Cons x "is")
  obtain w i where x: "x = (w, i)" by fastforce
  have "timer_at (seconds is + l) (fst (dsm_step b x s))"
    using Cons.prems timer_step [of _ s i b w] timer_second [of "seconds is + l" s b w]
    by (cases "i = Second") (simp_all add: x seconds_def)
  with Cons show ?case by (simp add: fst_run_trace_Cons del: run_trace.simps)
qed (simp add: seconds_def)

lemma callbacks_resn:
  "filter is_resn (snd (run_trace (run_callback b w) cs s))
     = concat (replicate (count_list cs SetResolutionHandler) (set_port_resolution b w s))"
proof (induction cs arbitrary: s)
  case (Cons c cs)
  have "set_port_resolution b w (fst (run_callback b w c s)) = set_port_resolution b w s"
    by (cases c) (simp_all add: set_port_resolution_def dumpEdidOnChecksumDiff_def Let_def)
  then show ?case
    using Cons.IH [of "fst (run_callback b w c s)"]
    by (cases c) (auto simp: snd_run_trace_Cons dumpEdidOnChecksumDiff_def Let_def simp del: run_trace.simps)
qed simp

lemma count_due:
  "count_list (map (snd \<circ> snd) (filter (\<lambda>(i, left, cb). left \<le> 1) xs)) SetResolutionHandler
     = length (filter (\<lambda>x. fst (snd x) \<le> 1) (filter is_timer xs))"
  by (induction xs) auto

lemma timer_due:
  assumes "timer_ok s" and "timer_at 1 s"
  shows "filter is_resn (snd (main_loop_second b w s)) = set_port_resolution b w s"
proof -
  let ?ts = "filter is_timer (sources s)"
  from assms(2) obtain i where i: "(i, 1, SetResolutionHandler) \<in> set ?ts" by (auto simp: timer_at_def)
  have "length ?ts \<le> 1"
    using assms(1) by (metis (no_types, lifting) One_nat_def le_SucI length_0_conv length_Cons length_map
        list.size(3) order_refl timer_ok_def)
  with i have "?ts = [(i, 1, SetResolutionHandler)]" by (cases ?ts) auto
  then have "length (filter (\<lambda>x. fst (snd x) \<le> 1) ?ts) = 1" by simp
  then have "snd (main_loop_second b w s) = snd (run_trace (run_callback b w)
       (map (snd \<circ> snd) (filter (\<lambda>(i, left, cb). left \<le> 1) (sources s)))
       (s\<lparr>sources := map (\<lambda>(i, left, cb). (i, left - 1, cb)) (filter (\<lambda>(i, left, cb). 1 < left) (sources s))\<rparr>))"
    and "count_list (map (snd \<circ> snd) (filter (\<lambda>(i, left, cb). left \<le> 1) (sources s))) SetResolutionHandler = 1"
    by (simp_all only: count_due) (simp_all add: main_loop_second_def)
  then show ?thesis by (simp only: callbacks_resn) (simp add: set_port_resolution_def)
qed

text \<open>A turn of the thread after an unplug.\<close>

lemma unplug_turn:
  assumes "timer_ok s" and "resn_thread s \<noteq> Running" and "iTuneReady s"
    and "edisplayEventStatus s = DISPLAY_DISCONNECTED"
  shows "armed 4 (fst (dsm_step b (w, Thread_turn) s))"
    and "if component_present w then timer_at 5 (fst (dsm_step b (w, Thread_turn) s))
         else filter is_timer (sources (fst (dsm_step b (w, Thread_turn) s))) = []"
    and "snd (dsm_step b (w, Thread_turn) s) = []"
proof -
  have "timer_ok (s\<lparr>resn_thread := Running\<rparr>) = timer_ok s" by (rule timer_ok_cong) simp_all
  from this [symmetric] removed_no_timer assms(1)
  have none: "filter is_timer (sources (remove_hotplug_source (s\<lparr>resn_thread := Running\<rparr>))) = []" by blast
  then have "\<forall>x\<in>set (sources (remove_hotplug_source (s\<lparr>resn_thread := Running\<rparr>))). \<not> is_timer x"
    by (simp add: filter_empty_conv)
  then show "armed 4 (fst (dsm_step b (w, Thread_turn) s))"
    and "if component_present w then timer_at 5 (fst (dsm_step b (w, Thread_turn) s))
         else filter is_timer (sources (fst (dsm_step b (w, Thread_turn) s))) = []"
    and "snd (dsm_step b (w, Thread_turn) s) = []"
    using assms none by (auto simp: resn_thread_turn_def armed_def timer_at_def Let_def case_prod_beta)
qed

text \<open>Only a turn of the thread adds a timer.\<close>

lemma no_timer_second:
  "filter is_timer (sources s) = [] \<Longrightarrow> filter is_timer (sources (fst (main_loop_second b w s))) = []
     \<and> filter is_resn (snd (main_loop_second b w s)) = []"
proof -
  assume none: "filter is_timer (sources s) = []"
  then have "SetResolutionHandler \<notin> set (map (snd \<circ> snd) (filter (\<lambda>(i, left, cb). left \<le> 1) (sources s)))"
    unfolding due_timer by (auto simp: list_ex_iff filter_empty_conv)
  then show ?thesis
    using none by (auto simp: main_loop_second_def Let_def callbacks_keep callbacks_no_resn filter_empty_conv)
qed

lemma no_timer_run:
  assumes "filter is_timer (sources s) = []"
    and "list_all (\<lambda>x. \<not> hdcp_verdict (snd x) \<and> snd x \<noteq> Thread_turn) is"
  shows "filter is_timer (sources (fst (run_trace (dsm_step b) is s))) = []"
  using assms
proof (induction "is" arbitrary: s)
  case (Cons x "is")
  obtain w i where x: "x = (w, i)" by fastforce
  have "filter is_timer (sources (fst (dsm_step b x s))) = []"
  proof (cases i)
    case (Ds_bus e)
    with Cons.prems show ?thesis
      by (cases e) (auto simp: x dsm_steps Let_def case_prod_beta split: hdcp_status.split)
  next
    case Second
    with Cons.prems(1) show ?thesis by (simp add: x no_timer_second)
  qed (use Cons.prems x in \<open>auto simp: DsSysModeChange_def\<close>)
  with Cons show ?case by (simp add: fst_run_trace_Cons del: run_trace.simps)
qed simp

lemma run_timer_ok: "timer_ok s \<Longrightarrow> timer_ok (fst (run_trace (dsm_step b) is s))"
  by (rule run_trace_invariant [of timer_ok]) (rule dsm_step_timer_ok)

lemma reachable_timer_ok: "timer_ok (fst (run_trace (dsm_step b) is (fst (DSMgr_Start b w a))))"
  by (rule run_timer_ok [OF start_timer_ok])

text \<open>A hot plug that comes while the thread is not at the condition variable is lost: the thread
  then waits as if nothing had happened, and after an unplug HDCP still counts as authenticated and
  no timer is set, so the other ports never get their resolution.\<close>

lemma lost_hotplug:
  assumes "resn_thread s = Running"
    and "s' = fst (run_trace (dsm_step b) [(w, Ds_bus (Hdmi_hotplug e)), (w', Thread_waits)] s)"
  shows "resn_thread s' = Waiting" and "sources s' = sources s"
    and "bHDCPAuthenticated s' = bHDCPAuthenticated s"
  using assms by (simp_all add: hotplug_event_def cond_signal_def)

section \<open>Properties\<close>

text \<open>C24. A TV that is switched off and on does not disturb the other ports.  Take any state the
  manager can reach where the box is tuned and the last hot plug is an unplug, and let the thread
  take its turn.  Whatever happens next (plugs, tune ready, mode changes, spurious wake-ups, EDID
  dumps), as long as HDCP says neither authenticated nor failed and at most four seconds pass, the
  resolution of no port is touched.  If exactly four pass and the thread has no further turn, the
  fifth second sets the resolution, once, if the box had a component port when the thread took its
  turn; without one the thread adds no timer and the fifth second sets nothing.\<close>

theorem unplug_waits_five_seconds:
  assumes "s = fst (run_trace (dsm_step b) before (fst (DSMgr_Start b w0 a)))"
    and "resn_thread s \<noteq> Running" and "iTuneReady s"
    and "edisplayEventStatus s = DISPLAY_DISCONNECTED"
    and "list_all (\<lambda>x. \<not> hdcp_verdict (snd x)) is" and "seconds is \<le> 4"
  shows "filter is_resn (snd (run_trace (dsm_step b) ((w, Thread_turn) # is) s)) = []
    \<and> (list_all (\<lambda>x. snd x \<noteq> Thread_turn) is \<and> seconds is = 4 \<longrightarrow>
         (let s' = fst (run_trace (dsm_step b) ((w, Thread_turn) # is) s)
          in filter is_resn (snd (dsm_step b (w', Second) s'))
               = (if component_present w then set_port_resolution b w' s' else [])))"
proof -
  have ok: "timer_ok s" using assms(1) by (simp add: reachable_timer_ok)
  note turn = unplug_turn [where b = b, OF ok assms(2-4)]
  let ?s = "fst (dsm_step b (w, Thread_turn) s)"
  from ok have ok': "timer_ok ?s" by (rule dsm_step_timer_ok)
  have "armed (seconds is + (4 - seconds is)) ?s" using turn(1) assms(6) by simp
  from armed_run [OF this ok' _ assms(5), of b] assms(6)
  have quiet: "filter is_resn (snd (run_trace (dsm_step b) is ?s)) = []" by simp
  have "filter is_resn (snd (dsm_step b (w', Second) (fst (run_trace (dsm_step b) is ?s))))
      = (if component_present w then set_port_resolution b w' (fst (run_trace (dsm_step b) is ?s)) else [])"
    if later: "list_all (\<lambda>x. snd x \<noteq> Thread_turn) is" "seconds is = 4"
  proof (cases "component_present w")
    case True
    with turn(2) [of w] have "timer_at 5 ?s" by simp
    with later assms(5) have "timer_at 1 (fst (run_trace (dsm_step b) is ?s))"
      using timer_run [of "is" 1 ?s b] by (simp add: list_all_iff)
    with True timer_due [OF run_timer_ok [OF ok']] show ?thesis by simp
  next
    case False
    with turn(2) [of w] have "filter is_timer (sources ?s) = []" by simp
    with later(1) assms(5) have "filter is_timer (sources (fst (run_trace (dsm_step b) is ?s))) = []"
      by (intro no_timer_run) (simp_all add: list_all_iff)
    with False no_timer_second show ?thesis by simp
  qed
  with quiet turn(3) show ?thesis
    by (simp add: fst_run_trace_Cons snd_run_trace_Cons Let_def del: run_trace.simps)
qed

text \<open>A tuned box whose TV is unplugged: the thread waits, the event comes, four seconds pass.\<close>

definition ds_box_example :: ds_box where
  "ds_box_example = \<lparr>resns = resn_table_example, supported_audio = [AUDIO_HDMI, AUDIO_SPDIF]\<rparr>"

definition ds_world_example :: ds_world where
  "ds_world_example = \<lparr>tv = sink_example\<lparr>hdmi_connected := False\<rparr>, component_present = True,
     persisted_stereo = (\<lambda>_. STEREO_PASSTHRU), stereo_auto = False, edid_bytes = []\<rparr>"

definition ds_start_example :: ds_start where
  "ds_start_example = \<lparr>start_ignore_edid = False, start_rfc_value = ''true'', start_ddc_delay = None,
     start_tune_ready = 1, start_stereo = (\<lambda>_. STEREO_PASSTHRU)\<rparr>"

theorem unplug_waits_five_seconds_witness:
  "\<exists>s. s = fst (run_trace (dsm_step ds_box_example)
         [(ds_world_example, Thread_waits), (ds_world_example, Ds_bus (Hdmi_hotplug DISPLAY_DISCONNECTED))]
         (fst (DSMgr_Start ds_box_example ds_world_example ds_start_example)))
    \<and> resn_thread s = Signalled
    \<and> filter is_resn (snd (run_trace (dsm_step ds_box_example)
         ((ds_world_example, Thread_turn) # replicate 4 (ds_world_example, Second)) s)) = []"
proof -
  define s where "s = fst (run_trace (dsm_step ds_box_example)
         [(ds_world_example, Thread_waits), (ds_world_example, Ds_bus (Hdmi_hotplug DISPLAY_DISCONNECTED))]
         (fst (DSMgr_Start ds_box_example ds_world_example ds_start_example)))"
  have f: "resn_thread s = Signalled" "iTuneReady s" "edisplayEventStatus s = DISPLAY_DISCONNECTED"
    by (simp_all add: s_def DSMgr_Start_def ds_statics_def ds_start_example_def hotplug_event_def
        cond_signal_def Let_def)
  have "filter is_resn (snd (run_trace (dsm_step ds_box_example)
      ((ds_world_example, Thread_turn) # replicate 4 (ds_world_example, Second)) s)) = []"
    by (rule unplug_waits_five_seconds [OF s_def, THEN conjunct1])
       (simp_all add: f ds_world_example_def seconds_def list_all_iff)
  then show ?thesis using f s_def by blast
qed

text \<open>An emergency alert is heard and leaves no trace.  From any state in normal mode, after the
  mode change to EAS and whatever follows short of the change back to NORMAL (plugs, HDCP, turns of
  the thread, timers, further EAS changes), no supported audio port is in passthrough (one that was
  is in stereo, the others are as before), and the change back to NORMAL gives every port its
  persisted mode, but for the HDMI port: surround if it is in auto mode, and left as it is if the
  TV is not connected.\<close>

lemma alert_audio_is_restored:
  assumes "isEAS s = SYS_MODE_NORMAL" and "p \<in> set (supported_audio b)"
    and "list_all (\<lambda>x. snd x \<noteq> Ds_mode SYS_MODE_NORMAL) is"
    and "s' = fst (run_trace (dsm_step b) ((w, Ds_mode SYS_MODE_EAS) # is) s)"
  shows "stereo s' p = (if stereo s p = STEREO_PASSTHRU then STEREO_STEREO else stereo s p)
    \<and> stereo (fst (dsm_step b (w', Ds_mode SYS_MODE_NORMAL) s')) p =
        (if p \<noteq> AUDIO_HDMI then persisted_stereo w' p
         else if \<not> hdmi_connected (tv w') then stereo s' p
         else if stereo_auto w' then STEREO_SURROUND else persisted_stereo w' p)"
proof -
  let ?s = "fst (dsm_step b (w, Ds_mode SYS_MODE_EAS) s)"
  have eas: "isEAS ?s = SYS_MODE_EAS" and "stereo ?s = fst (audio_loop eas_mode_of (supported_audio b) (stereo s))"
    using assms(1) by (simp_all add: DsSysModeChange_def setEASAudioMode_def Let_def case_prod_beta)
  with alert_run [OF eas assms(3)] assms(4)
  have s': "isEAS s' = SYS_MODE_EAS" "stereo s' = fst (audio_loop eas_mode_of (supported_audio b) (stereo s))"
    by (simp_all add: fst_run_trace_Cons del: run_trace.simps)
  then have "stereo (fst (dsm_step b (w', Ds_mode SYS_MODE_NORMAL) s'))
      = fst (audio_loop (normal_mode_of w') (supported_audio b) (stereo s'))"
    by (simp add: DsSysModeChange_def setAudioMode_def Let_def case_prod_beta)
  then show ?thesis
    using eas_loop_at [OF assms(2), of "stereo s"] normal_loop_at [OF assms(2), of w' "stereo s'"] s'(2)
    by (simp add: normal_mode_of_def)
qed

end
