(* ===== verification/Slot_Store.thy ===== *)
theory Slot_Store
  imports Iarm_Prelude
begin

text \<open>
  Stores of status slots: a manager keeps a record of slots, every event overwrites the slots it
  concerns, and a client reads a slot.  The locale states that contract for a handler that may
  fail, and proves once what a client sees after a sequence of events: the last event that
  concerns the slot.  The system manager and the sessions of the update manager are instances.
\<close>

text \<open>Run a partial handler over a list of events.\<close>

primrec run_opt :: "('e \<Rightarrow> 's \<Rightarrow> 's option) \<Rightarrow> 'e list \<Rightarrow> 's \<Rightarrow> 's option" where
  "run_opt f [] s = Some s"
| "run_opt f (e # es) s = (case f e s of None \<Rightarrow> None | Some s' \<Rightarrow> run_opt f es s')"

lemma run_opt_append:
  "run_opt f (es @ fs) s = (case run_opt f es s of None \<Rightarrow> None | Some s' \<Rightarrow> run_opt f fs s')"
  by (induction es arbitrary: s) (auto split: option.splits)

lemma run_opt_total:
  assumes "\<And>e s. e \<in> set es \<Longrightarrow> f e s \<noteq> None"
  shows "run_opt f es s \<noteq> None"
  using assms by (induction es arbitrary: s) (auto split: option.splits)

lemma run_opt_invariant:
  assumes "run_opt f es s = Some s'" and "P s" and "\<And>e s s'. f e s = Some s' \<Longrightarrow> P s \<Longrightarrow> P s'"
  shows "P s'"
  using assms(1,2)
proof (induction es arbitrary: s)
  case (Cons e es)
  then show ?case using assms(3) by (auto split: option.splits)
qed simp

locale slot_store =
  fixes step :: "'e \<Rightarrow> 's \<Rightarrow> 's option"
    and view :: "'s \<Rightarrow> 'slot \<Rightarrow> 'v"
    and concerns :: "'e \<Rightarrow> 'slot \<Rightarrow> bool"
    and overwrite :: "'slot \<Rightarrow> 'e \<Rightarrow> 'v \<Rightarrow> 'v"
  assumes step_view: "step e s = Some s' \<Longrightarrow>
      view s' sl = (if concerns e sl then overwrite sl e (view s sl) else view s sl)"
    and overwrites: "overwrite sl e (overwrite sl e' v) = overwrite sl e v"
begin

lemma run_view:
  assumes "run_opt step es s = Some s'"
  shows "view s' sl =
    (let fs = filter (\<lambda>e. concerns e sl) es
     in if fs = [] then view s sl else overwrite sl (last fs) (view s sl))"
  using assms
proof (induction es arbitrary: s' rule: rev_induct)
  case (snoc e es)
  from snoc.prems obtain t where t: "run_opt step es s = Some t" "step e t = Some s'"
    by (auto simp: run_opt_append split: option.splits)
  from snoc.IH [OF t(1)] step_view [OF t(2), of sl] show ?case
    by (auto simp: Let_def overwrites)
qed simp

text \<open>Events that do not concern a slot may be dropped, added or moved.\<close>

lemma run_view_only_concerning:
  assumes "run_opt step es s = Some s'" and "run_opt step fs s = Some t'"
    and "filter (\<lambda>e. concerns e sl) es = filter (\<lambda>e. concerns e sl) fs"
  shows "view s' sl = view t' sl"
  using run_view [OF assms(1)] run_view [OF assms(2)] assms(3) by simp

end

end
