(* ===== verification/Sys_Mgr.thy ===== *)
theory Sys_Mgr
  imports Slot_Store
begin

text \<open>
  The system manager: sysmgr/sysMgr.c.  It keeps one slot (state, error, payload) per system
  property, overwrites a slot on each system state event and copies all slots out on
  GetSystemStates; it also keeps the HDCP profile (a file that exists or not) and the key code
  logging preference.  The structure of forty members of the same type is a function from the
  member's name.  Payloads are arrays of 128 bytes: a string of 128 characters or more is an
  array without terminator.  What the C library does with such an array (strlen and strncpy run
  past it), and a failing assert, are error values.  Locks and log lines are not modelled.
\<close>

section \<open>State\<close>

datatype state_id =
    SS_CHANNELMAP | SS_DISCONNECTMGR | SS_TUNEREADY | SS_EXIT_OK | SS_CMAC | SS_MOTO_ENTITLEMENT
  | SS_MOTO_HRV_RX | SS_CARD_CISCO_STATUS | SS_VIDEO_PRESENTING | SS_HDMI_OUT | SS_HDCP_ENABLED
  | SS_HDMI_EDID_READ | SS_FIRMWARE_DWNLD | SS_TIME_SOURCE | SS_TIME_ZONE | SS_CA_SYSTEM
  | SS_ESTB_IP | SS_ECM_IP | SS_LAN_IP | SS_MOCA | SS_DOCSIS | SS_DSG_BROADCAST_CHANNEL
  | SS_DSG_CA_TUNNEL | SS_CABLE_CARD | SS_CABLE_CARD_DWNLD | SS_CVR_SUBSYSTEM | SS_DOWNLOAD
  | SS_VOD_AD | SS_DAC_INIT_TIMESTAMP | SS_CABLE_CARD_SERIAL_NO | SS_ECM_MAC | SS_DAC_ID
  | SS_PLANT_ID | SS_STB_SERIAL_NO | SS_BOOTUP | SS_GATEWAY_CONNECTION | SS_DST_OFFSET
  | SS_RF_CONNECTED | SS_PARTNERID_CHANGE | SS_IP_MODE | SS_LP_CONNECTION_RESET
  | SS_RWS_CONNECTION_RESET | SS_QAM_READY | SS_FIRMWARE_UPDATE_STATE | SS_USB_DETECTED

datatype slot =
    Channel_map | Disconnect_mgr_state | TuneReadyStatus | Exit_ok_key_sequence | Cmac
  | Card_moto_entitlements | Card_moto_hrv_rx | Dac_init_timestamp | Card_cisco_status
  | Video_presenting | Hdmi_out | Hdcp_enabled | Hdmi_edid_read | Firmware_download
  | Time_source | Time_zone_available | Ca_system | Estb_ip | Ecm_ip | Lan_ip | Moca_slot | Docsis
  | Dsg_broadcast_tunnel | Dsg_ca_tunnel | Cable_card | Cable_card_download | Cvr_subsystem
  | Download | Vod_ad | Card_serial_no | Ecm_mac | Dac_id | Plant_id | Stb_serial_no | Bootup
  | Dst_offset | Rf_connected | Ip_mode | Qam_ready_status | Firmware_update_state

record state_property =
  prop_state :: int
  prop_error :: int
  prop_payload :: string

definition no_property :: state_property where
  "no_property = \<lparr>prop_state = 0, prop_error = 0, prop_payload = ''''\<rparr>"

definition PAYLOAD_SIZE :: nat where "PAYLOAD_SIZE = 128"

type_synonym system_states = "slot \<Rightarrow> state_property"

record sys_state =
  initialized :: bool
  systemStates :: system_states
  keyLogStatus :: int
  hdcp_profile_file :: bool

text \<open>SYSMgr\_Start, from any earlier contents of the statics (a manager may be stopped and started
  again): it resets all slots but rf\_connected, and enables HDCP.\<close>

definition SYSMgr_Start :: "sys_state \<Rightarrow> sys_state \<times> iarm_result" where
  "SYSMgr_Start s =
     (if \<not> initialized s
      then (s\<lparr>initialized := True, keyLogStatus := 1,
              systemStates := (\<lambda>sl. if sl = Rf_connected then systemStates s sl
                                 else if sl = Hdcp_enabled then no_property\<lparr>prop_state := 1\<rparr>
                                 else no_property)\<rparr>, IARM_RESULT_SUCCESS)
      else (s, IARM_RESULT_INVALID_STATE))"

definition SYSMgr_Stop :: "sys_state \<Rightarrow> sys_state \<times> iarm_result" where
  "SYSMgr_Stop s =
     (if initialized s then (s\<lparr>initialized := False\<rparr>, IARM_RESULT_SUCCESS)
      else (s, IARM_RESULT_INVALID_STATE))"

section \<open>System state events\<close>

text \<open>The statements of the cases: assign state and error, error only, copy the whole array, copy
  with strncpy and strlen, assert and strcpy\_s.  None is an abort or an overrun.\<close>

definition set_both :: "slot \<Rightarrow> int \<Rightarrow> int \<Rightarrow> system_states \<Rightarrow> system_states" where
  "set_both sl st er S = S(sl := (S sl)\<lparr>prop_state := st, prop_error := er\<rparr>)"

definition set_error :: "slot \<Rightarrow> int \<Rightarrow> system_states \<Rightarrow> system_states" where
  "set_error sl er S = S(sl := (S sl)\<lparr>prop_error := er\<rparr>)"

definition put_payload :: "slot \<Rightarrow> string \<Rightarrow> system_states \<Rightarrow> system_states" where
  "put_payload sl p S = S(sl := (S sl)\<lparr>prop_payload := p\<rparr>)"

definition copy_array :: "slot \<Rightarrow> string \<Rightarrow> system_states \<Rightarrow> system_states" where
  "copy_array sl p S = put_payload sl (take (PAYLOAD_SIZE - 1) p) S"

definition copy_string :: "slot \<Rightarrow> string \<Rightarrow> system_states \<Rightarrow> system_states option" where
  "copy_string sl p S = (if length p < PAYLOAD_SIZE then Some (put_payload sl p S) else None)"

definition copy_asserted :: "slot \<Rightarrow> string \<Rightarrow> system_states \<Rightarrow> system_states option" where
  "copy_asserted sl p S = (if PAYLOAD_SIZE - 1 > length p then Some (put_payload sl p S) else None)"

fun sysEvent :: "state_id \<Rightarrow> int \<Rightarrow> int \<Rightarrow> string \<Rightarrow> system_states \<Rightarrow> system_states option" where
  "sysEvent SS_CHANNELMAP st er p S = Some (copy_array Channel_map p (set_both Channel_map st er S))"
| "sysEvent SS_DISCONNECTMGR st er p S = Some (set_both Disconnect_mgr_state st er S)"
| "sysEvent SS_TUNEREADY st er p S = Some (set_both TuneReadyStatus st er S)"
| "sysEvent SS_EXIT_OK st er p S = Some (set_both Exit_ok_key_sequence st er S)"
| "sysEvent SS_CMAC st er p S = Some (set_both Cmac st er S)"
| "sysEvent SS_MOTO_ENTITLEMENT st er p S = Some (set_both Card_moto_entitlements st er S)"
| "sysEvent SS_MOTO_HRV_RX st er p S =
     copy_string Dac_init_timestamp p
       (set_both Dac_init_timestamp st er (set_both Card_moto_hrv_rx st er S))"
| "sysEvent SS_DAC_INIT_TIMESTAMP st er p S =
     copy_string Dac_init_timestamp p (set_both Dac_init_timestamp st er S)"
| "sysEvent SS_CARD_CISCO_STATUS st er p S = Some (set_both Card_cisco_status st er S)"
| "sysEvent SS_VIDEO_PRESENTING st er p S = Some (set_both Video_presenting st er S)"
| "sysEvent SS_HDMI_OUT st er p S = Some (set_both Hdmi_out st er S)"
| "sysEvent SS_HDCP_ENABLED st er p S = Some (set_both Hdcp_enabled st er S)"
| "sysEvent SS_HDMI_EDID_READ st er p S = Some (set_both Hdmi_edid_read st er S)"
| "sysEvent SS_FIRMWARE_DWNLD st er p S = Some (set_both Firmware_download st er S)"
| "sysEvent SS_FIRMWARE_UPDATE_STATE st er p S = Some (set_both Firmware_update_state st er S)"
| "sysEvent SS_TIME_SOURCE st er p S = Some (set_both Time_source st er S)"
| "sysEvent SS_TIME_ZONE st er p S =
     Some (copy_array Time_zone_available p (set_both Time_zone_available st er S))"
| "sysEvent SS_CA_SYSTEM st er p S = Some (set_both Ca_system st er S)"
| "sysEvent SS_ESTB_IP st er p S = Some (set_both Estb_ip st er S)"
| "sysEvent SS_ECM_IP st er p S = Some (set_both Ecm_ip st er S)"
| "sysEvent SS_LAN_IP st er p S = Some (set_both Lan_ip st er S)"
| "sysEvent SS_MOCA st er p S = Some (set_both Moca_slot st er S)"
| "sysEvent SS_DOCSIS st er p S = Some (set_both Docsis st er S)"
| "sysEvent SS_DSG_BROADCAST_CHANNEL st er p S = Some (set_both Dsg_broadcast_tunnel st er S)"
| "sysEvent SS_DSG_CA_TUNNEL st er p S = Some (set_both Dsg_ca_tunnel st er S)"
| "sysEvent SS_CABLE_CARD st er p S = Some (set_both Cable_card st er S)"
| "sysEvent SS_CABLE_CARD_DWNLD st er p S = Some (set_both Cable_card_download st er S)"
| "sysEvent SS_CVR_SUBSYSTEM st er p S = Some (set_both Cvr_subsystem st er S)"
| "sysEvent SS_DOWNLOAD st er p S = Some (set_both Download st er S)"
| "sysEvent SS_VOD_AD st er p S = Some (copy_array Vod_ad p (set_both Vod_ad st er S))"
| "sysEvent SS_CABLE_CARD_SERIAL_NO st er p S = copy_string Card_serial_no p (set_error Card_serial_no er S)"
| "sysEvent SS_ECM_MAC st er p S = copy_string Ecm_mac p (set_error Ecm_mac er S)"
| "sysEvent SS_DAC_ID st er p S = copy_asserted Dac_id p (set_both Dac_id st er S)"
| "sysEvent SS_PLANT_ID st er p S = copy_asserted Plant_id p (set_both Plant_id st er S)"
| "sysEvent SS_STB_SERIAL_NO st er p S = copy_string Stb_serial_no p (set_error Stb_serial_no er S)"
| "sysEvent SS_BOOTUP st er p S = Some (set_both Bootup st er S)"
| "sysEvent SS_DST_OFFSET st er p S = copy_string Dst_offset p (set_both Dst_offset st er S)"
| "sysEvent SS_RF_CONNECTED st er p S = Some (set_both Rf_connected st er S)"
| "sysEvent SS_IP_MODE st er p S = copy_string Ip_mode p (set_both Ip_mode st er S)"
| "sysEvent SS_QAM_READY st er p S = Some (set_both Qam_ready_status st er S)"
| "sysEvent SS_GATEWAY_CONNECTION st er p S = Some S"
| "sysEvent SS_PARTNERID_CHANGE st er p S = Some S"
| "sysEvent SS_LP_CONNECTION_RESET st er p S = Some S"
| "sysEvent SS_RWS_CONNECTION_RESET st er p S = Some S"
| "sysEvent SS_USB_DETECTED st er p S = Some S"

record sys_event =
  from_sysmgr :: bool
  is_systemstate :: bool
  ev_id :: state_id
  ev_state :: int
  ev_error :: int
  ev_payload :: string

definition sysEventHandler :: "sys_event \<Rightarrow> sys_state \<Rightarrow> sys_state option" where
  "sysEventHandler e s =
     (if \<not> is_systemstate e then Some s
      else if from_sysmgr e
      then map_option (\<lambda>S. s\<lparr>systemStates := S\<rparr>)
             (sysEvent (ev_id e) (ev_state e) (ev_error e) (ev_payload e) (systemStates s))
      else Some s)"

section \<open>GetSystemStates\<close>

text \<open>The two build options of the file, and the answer of the manufacturer library to
  GetSerializedData: whether the call succeeded, the characters of the buffer up to a first NUL,
  and the length.\<close>

record sys_build =
  use_mfr_for_serial :: bool
  media_client :: bool

record mfr_reply =
  mfr_ok :: bool
  mfr_buffer :: string
  mfr_bufLen :: int

definition MAX_SERIALIZED_BUF :: int where "MAX_SERIALIZED_BUF = 1280"

text \<open>GetSerialNumber asks only while the slot is empty.  The terminator is written at the length
  the library returned before the result is looked at: an index outside of the buffer is None.\<close>

definition GetSerialNumber :: "mfr_reply \<Rightarrow> system_states \<Rightarrow> system_states option" where
  "GetSerialNumber r S =
     (if prop_payload (S Stb_serial_no) \<noteq> '''' then Some S
      else if mfr_bufLen r < 0 \<or> MAX_SERIALIZED_BUF \<le> mfr_bufLen r then None
      else if mfr_ok r
      then Some (set_error Stb_serial_no 0
             (put_payload Stb_serial_no
                (take (PAYLOAD_SIZE - 1) (take (nat (mfr_bufLen r)) (mfr_buffer r))) S))
      else Some (set_error Stb_serial_no 1 S))"

definition set_state :: "slot \<Rightarrow> int \<Rightarrow> system_states \<Rightarrow> system_states" where
  "set_state sl st S = S(sl := (S sl)\<lparr>prop_state := st\<rparr>)"

definition media_client_states :: "bool \<Rightarrow> system_states \<Rightarrow> system_states" where
  "media_client_states ntp_file S =
     (let S = set_state TuneReadyStatus 1 (set_state Channel_map 2 S)
      in if prop_state (S Time_source) = 0 \<and> ntp_file then set_state Time_source 1 S else S)"

definition GetSystemStates ::
    "sys_build \<Rightarrow> mfr_reply \<Rightarrow> bool \<Rightarrow> sys_state \<Rightarrow> (sys_state \<times> system_states) option" where
  "GetSystemStates b r ntp_file s =
     (case (if use_mfr_for_serial b then GetSerialNumber r (systemStates s)
            else Some (systemStates s)) of
        None \<Rightarrow> None
      | Some S \<Rightarrow>
          let S = (if media_client b then media_client_states ntp_file S else S)
          in Some (s\<lparr>systemStates := S\<rparr>, S))"

section \<open>HDCP profile and key code logging\<close>

datatype sys_broadcast =
    HDCP_PROFILE_UPDATE int
  | KEYCODE_LOGGING_CHANGED int

definition CheckHdcpProfile :: "sys_state \<Rightarrow> int" where
  "CheckHdcpProfile s = (if hdcp_profile_file s then 1 else 0)"

text \<open>The second argument: whether the file can be created or removed.\<close>

definition SetHDCPProfile :: "int \<Rightarrow> bool \<Rightarrow> sys_state \<Rightarrow> sys_state \<times> sys_broadcast list" where
  "SetHDCPProfile new_profile file_ok s =
     (if CheckHdcpProfile s \<noteq> new_profile \<and> (new_profile = 0 \<or> new_profile = 1)
      then (if new_profile = 0
            then s\<lparr>hdcp_profile_file := (if file_ok then False else hdcp_profile_file s)\<rparr>
            else s\<lparr>hdcp_profile_file := (if file_ok then True else hdcp_profile_file s)\<rparr>,
            [HDCP_PROFILE_UPDATE new_profile])
      else (s, []))"

definition GetHDCPProfile :: "sys_state \<Rightarrow> int" where
  "GetHDCPProfile s = CheckHdcpProfile s"

definition getKeyCodeLoggingPref :: "sys_state \<Rightarrow> int" where
  "getKeyCodeLoggingPref s = keyLogStatus s"

definition setKeyCodeLoggingPref :: "int \<Rightarrow> sys_state \<Rightarrow> sys_state \<times> sys_broadcast list" where
  "setKeyCodeLoggingPref logStatus s =
     (let prevKeyLogStatus = keyLogStatus s;
          s' = (if logStatus = 0 then s\<lparr>keyLogStatus := 0\<rparr>
                else if logStatus = 1 then s\<lparr>keyLogStatus := 1\<rparr> else s)
      in (s', if prevKeyLogStatus \<noteq> keyLogStatus s'
              then [KEYCODE_LOGGING_CHANGED (keyLogStatus s')] else []))"

datatype pref_call = Set_hdcp int bool | Set_key_log int

fun pref_step :: "pref_call \<Rightarrow> sys_state \<Rightarrow> sys_state \<times> sys_broadcast list" where
  "pref_step (Set_hdcp p file_ok) s = SetHDCPProfile p file_ok s"
| "pref_step (Set_key_log l) s = setKeyCodeLoggingPref l s"

section \<open>The slots as a store\<close>

text \<open>Which slots an event feeds, and what it overwrites there.  The harvest case has no break and
  runs into the timestamp case; three cases leave the state member alone.\<close>

fun fed_by :: "state_id \<Rightarrow> slot list" where
  "fed_by SS_CHANNELMAP = [Channel_map]"
| "fed_by SS_DISCONNECTMGR = [Disconnect_mgr_state]"
| "fed_by SS_TUNEREADY = [TuneReadyStatus]"
| "fed_by SS_EXIT_OK = [Exit_ok_key_sequence]"
| "fed_by SS_CMAC = [Cmac]"
| "fed_by SS_MOTO_ENTITLEMENT = [Card_moto_entitlements]"
| "fed_by SS_MOTO_HRV_RX = [Card_moto_hrv_rx, Dac_init_timestamp]"
| "fed_by SS_DAC_INIT_TIMESTAMP = [Dac_init_timestamp]"
| "fed_by SS_CARD_CISCO_STATUS = [Card_cisco_status]"
| "fed_by SS_VIDEO_PRESENTING = [Video_presenting]"
| "fed_by SS_HDMI_OUT = [Hdmi_out]"
| "fed_by SS_HDCP_ENABLED = [Hdcp_enabled]"
| "fed_by SS_HDMI_EDID_READ = [Hdmi_edid_read]"
| "fed_by SS_FIRMWARE_DWNLD = [Firmware_download]"
| "fed_by SS_FIRMWARE_UPDATE_STATE = [Firmware_update_state]"
| "fed_by SS_TIME_SOURCE = [Time_source]"
| "fed_by SS_TIME_ZONE = [Time_zone_available]"
| "fed_by SS_CA_SYSTEM = [Ca_system]"
| "fed_by SS_ESTB_IP = [Estb_ip]"
| "fed_by SS_ECM_IP = [Ecm_ip]"
| "fed_by SS_LAN_IP = [Lan_ip]"
| "fed_by SS_MOCA = [Moca_slot]"
| "fed_by SS_DOCSIS = [Docsis]"
| "fed_by SS_DSG_BROADCAST_CHANNEL = [Dsg_broadcast_tunnel]"
| "fed_by SS_DSG_CA_TUNNEL = [Dsg_ca_tunnel]"
| "fed_by SS_CABLE_CARD = [Cable_card]"
| "fed_by SS_CABLE_CARD_DWNLD = [Cable_card_download]"
| "fed_by SS_CVR_SUBSYSTEM = [Cvr_subsystem]"
| "fed_by SS_DOWNLOAD = [Download]"
| "fed_by SS_VOD_AD = [Vod_ad]"
| "fed_by SS_CABLE_CARD_SERIAL_NO = [Card_serial_no]"
| "fed_by SS_ECM_MAC = [Ecm_mac]"
| "fed_by SS_DAC_ID = [Dac_id]"
| "fed_by SS_PLANT_ID = [Plant_id]"
| "fed_by SS_STB_SERIAL_NO = [Stb_serial_no]"
| "fed_by SS_BOOTUP = [Bootup]"
| "fed_by SS_DST_OFFSET = [Dst_offset]"
| "fed_by SS_RF_CONNECTED = [Rf_connected]"
| "fed_by SS_IP_MODE = [Ip_mode]"
| "fed_by SS_QAM_READY = [Qam_ready_status]"
| "fed_by _ = []"

definition keeps_state :: "slot \<Rightarrow> bool" where
  "keeps_state sl = (sl \<in> {Card_serial_no, Ecm_mac, Stb_serial_no})"

definition has_payload :: "slot \<Rightarrow> bool" where
  "has_payload sl = (sl \<in> {Channel_map, Time_zone_available, Vod_ad, Dac_init_timestamp,
     Card_serial_no, Ecm_mac, Stb_serial_no, Dst_offset, Ip_mode, Dac_id, Plant_id})"

definition slot_concerned :: "sys_event \<Rightarrow> slot \<Rightarrow> bool" where
  "slot_concerned e sl = (is_systemstate e \<and> from_sysmgr e \<and> sl \<in> set (fed_by (ev_id e)))"

definition slot_overwrite :: "slot \<Rightarrow> sys_event \<Rightarrow> state_property \<Rightarrow> state_property" where
  "slot_overwrite sl e p =
     \<lparr>prop_state = (if keeps_state sl then prop_state p else ev_state e),
      prop_error = ev_error e,
      prop_payload = (if has_payload sl then take (PAYLOAD_SIZE - 1) (ev_payload e)
                      else prop_payload p)\<rparr>"

lemmas slot_updates = set_both_def set_error_def put_payload_def copy_array_def copy_string_def
  copy_asserted_def

lemma sysEvent_view:
  assumes "sysEvent i st er p S = Some S'"
  shows "S' sl = (if sl \<in> set (fed_by i)
           then \<lparr>prop_state = (if keeps_state sl then prop_state (S sl) else st), prop_error = er,
                 prop_payload = (if has_payload sl then take (PAYLOAD_SIZE - 1) p
                                 else prop_payload (S sl))\<rparr>
           else S sl)"
  using assms
  by (cases i) (auto simp: slot_updates keeps_state_def has_payload_def PAYLOAD_SIZE_def
      split: if_splits)

lemma sysEvent_short: "length p < PAYLOAD_SIZE - 1 \<Longrightarrow> sysEvent i st er p S \<noteq> None"
  by (cases i) (auto simp: copy_string_def copy_asserted_def)

interpretation sys_slots: slot_store sysEventHandler systemStates slot_concerned slot_overwrite
proof unfold_locales
  fix e s s' sl
  assume "sysEventHandler e s = Some s'"
  then show "systemStates s' sl = (if slot_concerned e sl then slot_overwrite sl e (systemStates s sl)
      else systemStates s sl)"
    by (auto simp: sysEventHandler_def slot_concerned_def slot_overwrite_def sysEvent_view
        split: if_splits)
next
  fix sl e e' v
  show "slot_overwrite sl e (slot_overwrite sl e' v) = slot_overwrite sl e v"
    by (simp add: slot_overwrite_def)
qed

lemma sysEventHandler_short:
  "length (ev_payload e) < PAYLOAD_SIZE - 1 \<Longrightarrow> sysEventHandler e s \<noteq> None"
  using sysEvent_short [of "ev_payload e" "ev_id e" "ev_state e" "ev_error e" "systemStates s"]
  by (auto simp: sysEventHandler_def)

section \<open>What a subscriber of the broadcasts knows\<close>

text \<open>A client that read the HDCP profile and the key code logging status once and then follows
  the broadcasts; a broadcast is news when it changes what the client knows.\<close>

fun see :: "sys_broadcast \<Rightarrow> int \<times> int \<Rightarrow> int \<times> int" where
  "see (HDCP_PROFILE_UPDATE p) (h, k) = (p, k)"
| "see (KEYCODE_LOGGING_CHANGED l) (h, k) = (h, l)"

primrec all_news :: "sys_broadcast list \<Rightarrow> int \<times> int \<Rightarrow> bool" where
  "all_news [] v = True"
| "all_news (b # bs) v = (see b v \<noteq> v \<and> all_news bs (see b v))"

definition client_view :: "sys_state \<Rightarrow> int \<times> int" where
  "client_view s = (GetHDCPProfile s, getKeyCodeLoggingPref s)"

fun file_works :: "pref_call \<Rightarrow> bool" where
  "file_works (Set_hdcp p file_ok) = file_ok"
| "file_works (Set_key_log l) = True"

lemma all_news_append:
  "all_news (bs @ cs) v = (all_news bs v \<and> all_news cs (fold see bs v))"
  by (induction bs arbitrary: v) auto

lemma pref_step_seen:
  assumes "file_works c"
  shows "fold see (snd (pref_step c s)) (client_view s) = client_view (fst (pref_step c s))"
    and "all_news (snd (pref_step c s)) (client_view s)"
  using assms by (cases c; auto simp: client_view_def SetHDCPProfile_def GetHDCPProfile_def
      CheckHdcpProfile_def setKeyCodeLoggingPref_def getKeyCodeLoggingPref_def Let_def)+

lemma pref_trace_seen:
  assumes "list_all file_works cs"
  shows "fold see (snd (run_trace pref_step cs s)) (client_view s)
           = client_view (fst (run_trace pref_step cs s))
       \<and> all_news (snd (run_trace pref_step cs s)) (client_view s)"
  using assms
proof (induction cs arbitrary: s)
  case (Cons c cs)
  then have c: "file_works c" and cs: "list_all file_works cs" by simp_all
  from Cons.IH [OF cs, of "fst (pref_step c s)"] show ?case
    by (simp add: fst_run_trace_Cons snd_run_trace_Cons all_news_append pref_step_seen [OF c]
        del: run_trace.simps pref_step.simps)
qed simp

section \<open>Properties\<close>

text \<open>What the last event left in a slot, and what the manager has there after its start; and what the
  build makes of it in an answer, slot by slot.\<close>

definition stored_slot :: "sys_state \<Rightarrow> sys_event list \<Rightarrow> slot \<Rightarrow> state_property" where
  "stored_slot s0 es sl =
     (let boot = (if sl = Rf_connected then systemStates s0 sl
                  else if sl = Hdcp_enabled then no_property\<lparr>prop_state := 1\<rparr>
                  else no_property);
          fed = filter (\<lambda>e. slot_concerned e sl) es
      in if fed = [] then boot else slot_overwrite sl (last fed) boot)"

definition answered_slot :: "sys_build \<Rightarrow> mfr_reply \<Rightarrow> bool \<Rightarrow> slot \<Rightarrow> state_property \<Rightarrow> state_property" where
  "answered_slot b r ntp_file sl p =
     (if sl = Stb_serial_no \<and> use_mfr_for_serial b \<and> prop_payload p = ''''
      then (if mfr_ok r
            then p\<lparr>prop_error := 0, prop_payload := take (min 127 (nat (mfr_bufLen r))) (mfr_buffer r)\<rparr>
            else p\<lparr>prop_error := 1\<rparr>)
      else if \<not> media_client b then p
      else if sl = Channel_map then p\<lparr>prop_state := 2\<rparr>
      else if sl = TuneReadyStatus then p\<lparr>prop_state := 1\<rparr>
      else if sl = Time_source \<and> prop_state p = 0 \<and> ntp_file then p\<lparr>prop_state := 1\<rparr>
      else p)"

lemma GetSystemStates_answer:
  "GetSystemStates b r ntp_file s =
     (if use_mfr_for_serial b \<and> prop_payload (systemStates s Stb_serial_no) = ''''
         \<and> (mfr_bufLen r < 0 \<or> MAX_SERIALIZED_BUF \<le> mfr_bufLen r)
      then None
      else let S = (\<lambda>sl. answered_slot b r ntp_file sl (systemStates s sl))
           in Some (s\<lparr>systemStates := S\<rparr>, S))"
proof -
  have media: "(if media_client b then media_client_states ntp_file S else S)
      = (\<lambda>sl. answered_slot (b\<lparr>use_mfr_for_serial := False\<rparr>) r ntp_file sl (S sl))" for S
    by (rule ext) (simp add: media_client_states_def set_state_def answered_slot_def Let_def)
  have serial: "GetSerialNumber r S =
     (if prop_payload (S Stb_serial_no) = '''' \<and> (mfr_bufLen r < 0 \<or> MAX_SERIALIZED_BUF \<le> mfr_bufLen r)
      then None
      else Some (\<lambda>sl. answered_slot \<lparr>use_mfr_for_serial = True, media_client = False\<rparr> r ntp_file sl (S sl)))" for S
    by (auto simp: GetSerialNumber_def answered_slot_def set_error_def put_payload_def PAYLOAD_SIZE_def
        fun_eq_iff)
  have both: "answered_slot (b\<lparr>use_mfr_for_serial := False\<rparr>) r ntp_file sl
        (if use_mfr_for_serial b
         then answered_slot \<lparr>use_mfr_for_serial = True, media_client = False\<rparr> r ntp_file sl p else p)
      = answered_slot b r ntp_file sl p" for sl p
    by (cases "sl = Stb_serial_no") (simp_all add: answered_slot_def)
  show ?thesis
    using both by (cases "use_mfr_for_serial b") (simp_all add: GetSystemStates_def media serial Let_def)
qed

text \<open>C10. A client of GetSystemStates sees the last event of every slot.  Start the manager (for the
  first time or again after a stop), feed it any sequence of system state events, of its own or
  foreign, each with a payload of at most 126 characters, and ask: no event aborts or overruns, and
  each slot of the answer is what the last event that concerns it left there (stored\_slot); a slot
  that no event concerns has its default, HDCP enabled for Hdcp\_enabled, and for Rf\_connected the
  value from before the start, since SYSMgr\_Start does not reset it.  In a build without
  USE\_MFR\_FOR\_SERIAL and MEDIA\_CLIENT that is all (answered\_slot is then the identity).  With
  USE\_MFR\_FOR\_SERIAL, a serial number whose payload is still empty is first asked of the
  manufacturer library: error 0 and at most 127 characters of its answer, or error 1 if the call
  fails; and a length outside of the answer's buffer makes the code write out of bounds (None).
  With MEDIA\_CLIENT, the channel map is answered with state 2, the tune ready status with state 1,
  and the time source with state 1 if it was 0 and the NTP file exists.\<close>

theorem client_reads_last_event:
  assumes "\<not> initialized s0" and "\<forall>e\<in>set es. length (ev_payload e) < PAYLOAD_SIZE - 1"
  shows "\<exists>s'. run_opt sysEventHandler es (fst (SYSMgr_Start s0)) = Some s'
      \<and> (if use_mfr_for_serial b \<and> prop_payload (stored_slot s0 es Stb_serial_no) = ''''
            \<and> (mfr_bufLen r < 0 \<or> MAX_SERIALIZED_BUF \<le> mfr_bufLen r)
         then GetSystemStates b r ntp_file s' = None
         else \<exists>s'' S. GetSystemStates b r ntp_file s' = Some (s'', S)
                \<and> (\<forall>sl. S sl = answered_slot b r ntp_file sl (stored_slot s0 es sl)))"
proof -
  obtain s' where s': "run_opt sysEventHandler es (fst (SYSMgr_Start s0)) = Some s'"
    using run_opt_total [of es sysEventHandler] sysEventHandler_short assms(2) by blast
  have "systemStates s' sl = stored_slot s0 es sl" for sl
    using sys_slots.run_view [OF s', of sl] assms(1)
    by (simp add: stored_slot_def SYSMgr_Start_def Let_def)
  with s' show ?thesis by (simp add: GetSystemStates_answer Let_def)
qed

text \<open>A client that follows the broadcasts needs no getter: over any sequence of calls of
  SetHDCPProfile and SetKeyCodeLoggingPref, with arbitrary values, as long as the profile file can
  be created and removed, the last broadcasts agree with GetHDCPProfile and
  GetKeyCodeLoggingPref, and no broadcast repeats what was known.\<close>

lemma broadcasts_agree_with_getters:
  assumes "list_all file_works cs"
  shows "fold see (snd (run_trace pref_step cs s)) (GetHDCPProfile s, getKeyCodeLoggingPref s)
           = (GetHDCPProfile (fst (run_trace pref_step cs s)),
              getKeyCodeLoggingPref (fst (run_trace pref_step cs s)))
       \<and> all_news (snd (run_trace pref_step cs s)) (GetHDCPProfile s, getKeyCodeLoggingPref s)"
  using pref_trace_seen [OF assms, of s] by (simp add: client_view_def)

section \<open>Witnesses\<close>

definition sys_example :: sys_state where
  "sys_example = \<lparr>initialized = False,
     systemStates = (\<lambda>_. no_property)(Rf_connected := no_property\<lparr>prop_state := 1\<rparr>,
       Moca_slot := no_property\<lparr>prop_state := 7\<rparr>),
     keyLogStatus = 1, hdcp_profile_file = False\<rparr>"

definition sys_example_events :: "sys_event list" where
  "sys_example_events =
    [\<lparr>from_sysmgr = True, is_systemstate = True, ev_id = SS_DAC_INIT_TIMESTAMP, ev_state = 1,
      ev_error = 0, ev_payload = ''Jan 1 12:00''\<rparr>,
     \<lparr>from_sysmgr = True, is_systemstate = True, ev_id = SS_MOTO_HRV_RX, ev_state = 2,
      ev_error = 3, ev_payload = ''''\<rparr>,
     \<lparr>from_sysmgr = False, is_systemstate = True, ev_id = SS_MOCA, ev_state = 9,
      ev_error = 0, ev_payload = ''''\<rparr>]"

text \<open>The harvest event overwrites the timestamp that the event before it had stored; a media client
  that asks the library gets its serial number.\<close>

definition sys_example_build :: sys_build where
  "sys_example_build = \<lparr>use_mfr_for_serial = True, media_client = True\<rparr>"

definition sys_example_reply :: mfr_reply where
  "sys_example_reply = \<lparr>mfr_ok = True, mfr_buffer = ''M123'', mfr_bufLen = 4\<rparr>"

theorem client_reads_last_event_witness:
  "\<exists>s' s'' S. run_opt sysEventHandler sys_example_events (fst (SYSMgr_Start sys_example)) = Some s'
     \<and> GetSystemStates sys_example_build sys_example_reply False s' = Some (s'', S)
     \<and> S Dac_init_timestamp = \<lparr>prop_state = 2, prop_error = 3, prop_payload = ''''\<rparr>
     \<and> S Moca_slot = no_property
     \<and> S Rf_connected = \<lparr>prop_state = 1, prop_error = 0, prop_payload = ''''\<rparr>
     \<and> S Stb_serial_no = no_property\<lparr>prop_payload := ''M123''\<rparr>
     \<and> S TuneReadyStatus = no_property\<lparr>prop_state := 1\<rparr>"
proof -
  note defs = sys_example_def sys_example_events_def sys_example_build_def sys_example_reply_def
  obtain s' s'' S where *: "run_opt sysEventHandler sys_example_events (fst (SYSMgr_Start sys_example)) = Some s'"
      "GetSystemStates sys_example_build sys_example_reply False s' = Some (s'', S)"
      "\<forall>sl. S sl = answered_slot sys_example_build sys_example_reply False sl
         (stored_slot sys_example sys_example_events sl)"
    using client_reads_last_event [of sys_example sys_example_events sys_example_build sys_example_reply False]
    by (auto simp: defs PAYLOAD_SIZE_def MAX_SERIALIZED_BUF_def split: if_splits)
  from *(3) have "S Dac_init_timestamp = \<lparr>prop_state = 2, prop_error = 3, prop_payload = ''''\<rparr>"
      "S Moca_slot = no_property"
      "S Rf_connected = \<lparr>prop_state = 1, prop_error = 0, prop_payload = ''''\<rparr>"
      "S Stb_serial_no = no_property\<lparr>prop_payload := ''M123''\<rparr>"
      "S TuneReadyStatus = no_property\<lparr>prop_state := 1\<rparr>"
    by (simp_all add: defs answered_slot_def stored_slot_def slot_concerned_def slot_overwrite_def
        keeps_state_def has_payload_def no_property_def)
  with *(1,2) show ?thesis by blast
qed

end
