(* ===== verification/Hdcp_State.thy ===== *)
theory Hdcp_State
  imports Ds_Mgr Sys_Mgr
begin

text \<open>
  The device settings manager and the system manager together: dsmgr/dsMgr.c broadcasts the HDCP
  status of the TV as a system state event, and sysmgr/sysMgr.c keeps it in the slot that clients
  read with GetSystemStates.
\<close>

fun hdcp_in :: "ds_world \<times> dsm_input \<Rightarrow> hdcp_status option" where
  "hdcp_in (w, Ds_bus (Hdcp_event st)) = Some st"
| "hdcp_in _ = None"

fun hdcp_out :: "ds_effect \<Rightarrow> int option" where
  "hdcp_out (Hdcp_broadcast v) = Some v"
| "hdcp_out _ = None"

definition hdcp_enabled_by :: "hdcp_status \<Rightarrow> int" where
  "hdcp_enabled_by st = (if st = HDCP_AUTHENTICATIONFAILURE then 0 else 1)"

lemma map_filter_append: "List.map_filter f (xs @ ys) = List.map_filter f xs @ List.map_filter f ys"
  by (simp add: List.map_filter_def)

lemma hdcp_out_silent [simp]:
  "List.map_filter hdcp_out (set_port_resolution b w s) = []"
  "List.map_filter hdcp_out (setBGColor w c) = []"
  "List.map_filter hdcp_out (snd (setAudioMode b w s)) = []"
  "List.map_filter hdcp_out (snd (setEASAudioMode b s)) = []"
  "List.map_filter hdcp_out (snd (run_trace (run_callback b w) cs s)) = []"
proof -
  have "List.map_filter hdcp_out (map Resn cs) = []" for cs
    by (induction cs) (simp_all add: List.map_filter_def)
  then show resn: "List.map_filter hdcp_out (set_port_resolution b w s) = []" for b w s
    by (simp add: set_port_resolution_def)
  have loop: "List.map_filter hdcp_out (snd (audio_loop mode ps st)) = []" for mode ps st
    by (induction ps arbitrary: st)
       (simp_all add: Let_def case_prod_beta List.map_filter_def split: option.split)
  then show "List.map_filter hdcp_out (snd (setAudioMode b w s)) = []"
    "List.map_filter hdcp_out (snd (setEASAudioMode b s)) = []"
    by (simp_all add: setAudioMode_def setEASAudioMode_def Let_def case_prod_beta List.map_filter_def)
  show "List.map_filter hdcp_out (setBGColor w c) = []"
    by (simp add: setBGColor_def List.map_filter_def)
  have "List.map_filter hdcp_out (snd (run_callback b w c s)) = []" for c s
    using resn by (cases c) (simp_all add: dumpEdidOnChecksumDiff_def Let_def List.map_filter_def)
  then show "List.map_filter hdcp_out (snd (run_trace (run_callback b w) cs s)) = []"
    by (induction cs arbitrary: s)
       (simp_all add: snd_run_trace_Cons map_filter_append List.map_filter_def del: run_trace.simps(2))
qed

lemma hdcp_out_step:
  "List.map_filter hdcp_out (snd (dsm_step b x s)) = map hdcp_enabled_by (List.map_filter hdcp_in [x])"
proof -
  obtain w i where x: "x = (w, i)" by fastforce
  have one: "List.map_filter hdcp_out [Hdcp_broadcast v] = [v]" for v by (simp add: List.map_filter_def)
  have nil: "List.map_filter hdcp_out [] = []" by (simp add: List.map_filter_def)
  show ?thesis
  proof (cases i)
    case (Ds_bus e)
    then show ?thesis
      by (cases e) (auto simp: x dsm_steps Let_def case_prod_beta map_filter_append one nil
          hdcp_enabled_by_def List.map_filter_def [of hdcp_in] split: hdcp_status.split)
  next
    case (Ds_mode m)
    then show ?thesis by (simp add: x DsSysModeChange_def nil List.map_filter_def [of hdcp_in])
  next
    case Thread_turn
    then show ?thesis
      by (simp add: x resn_thread_turn_def Let_def case_prod_beta map_filter_append nil
          List.map_filter_def [of hdcp_in])
  next
    case Second
    then show ?thesis by (simp add: x main_loop_second_def Let_def List.map_filter_def [of hdcp_in])
  qed (simp add: x nil List.map_filter_def [of hdcp_in])
qed

lemma hdcp_out_run:
  "List.map_filter hdcp_out (snd (run_trace (dsm_step b) is s))
     = map hdcp_enabled_by (List.map_filter hdcp_in is)"
proof (induction "is" arbitrary: s)
  case (Cons x "is")
  have "List.map_filter hdcp_in (x # is) = List.map_filter hdcp_in [x] @ List.map_filter hdcp_in is"
    by (simp add: List.map_filter_def)
  then show ?case
    by (simp add: snd_run_trace_Cons map_filter_append hdcp_out_step Cons.IH del: run_trace.simps)
qed (simp add: List.map_filter_def)

text \<open>C31. What clients are told of HDCP.  Let the device settings manager handle any inputs, and the
  system manager, freshly started, any events with payloads that fit, among which those for the
  HDCP slot are the broadcasts of the device settings manager in their order.  Then the slot holds
  0 exactly if the last HDCP status was an authentication failure.  Every other status, also one
  that says HDCP is off or under way, and no status at all, leave it at 1.\<close>

theorem clients_see_last_hdcp_status:
  assumes "\<not> initialized s0" and "\<forall>e\<in>set es. length (ev_payload e) < PAYLOAD_SIZE - 1"
    and "map ev_state (filter (\<lambda>e. slot_concerned e Hdcp_enabled) es)
       = List.map_filter hdcp_out (snd (run_trace (dsm_step b) is s))"
  shows "\<exists>s'. run_opt sysEventHandler es (fst (SYSMgr_Start s0)) = Some s'
     \<and> prop_state (systemStates s' Hdcp_enabled)
       = (let hs = List.map_filter hdcp_in is
          in if hs \<noteq> [] \<and> last hs = HDCP_AUTHENTICATIONFAILURE then 0 else 1)"
proof -
  let ?fed = "filter (\<lambda>e. slot_concerned e Hdcp_enabled) es" and ?hs = "List.map_filter hdcp_in is"
  obtain s' where s': "run_opt sysEventHandler es (fst (SYSMgr_Start s0)) = Some s'"
    using run_opt_total [of es sysEventHandler] sysEventHandler_short assms(2) by blast
  have fed: "map ev_state ?fed = map hdcp_enabled_by ?hs" using assms(3) by (simp add: hdcp_out_run)
  then have "?fed = [] \<longleftrightarrow> ?hs = []" by (metis map_is_Nil_conv)
  moreover have "?fed \<noteq> [] \<Longrightarrow> ev_state (last ?fed) = hdcp_enabled_by (last ?hs)"
    using fed calculation by (metis last_map)
  moreover have "prop_state (systemStates (fst (SYSMgr_Start s0)) Hdcp_enabled) = 1"
    using assms(1) by (simp add: SYSMgr_Start_def)
  ultimately have "prop_state (systemStates s' Hdcp_enabled)
      = (if ?hs = [] then 1 else hdcp_enabled_by (last ?hs))"
    using sys_slots.run_view [OF s', of Hdcp_enabled]
    by (simp add: Let_def slot_overwrite_def keeps_state_def)
  then show ?thesis using s' by (auto simp: Let_def hdcp_enabled_by_def)
qed

text \<open>The TV fails to authenticate; another event comes first.\<close>

definition hdcp_sys_event :: "int \<Rightarrow> sys_event" where
  "hdcp_sys_event v = \<lparr>from_sysmgr = True, is_systemstate = True, ev_id = SS_HDCP_ENABLED,
     ev_state = v, ev_error = 0, ev_payload = ''''\<rparr>"

theorem clients_see_last_hdcp_status_witness:
  "\<exists>s'. run_opt sysEventHandler [(hdcp_sys_event 2)\<lparr>ev_id := SS_MOCA\<rparr>, hdcp_sys_event 1, hdcp_sys_event 0]
       (fst (SYSMgr_Start sys_example)) = Some s'
     \<and> prop_state (systemStates s' Hdcp_enabled) = 0"
proof -
  let ?is = "[(ds_world_example, Ds_bus (Hdcp_event HDCP_AUTHENTICATED)),
              (ds_world_example, Ds_bus (Hdcp_event HDCP_AUTHENTICATIONFAILURE))]"
  let ?es = "[(hdcp_sys_event 2)\<lparr>ev_id := SS_MOCA\<rparr>, hdcp_sys_event 1, hdcp_sys_event 0]"
  have hs: "List.map_filter hdcp_in ?is = [HDCP_AUTHENTICATED, HDCP_AUTHENTICATIONFAILURE]"
    by (simp add: List.map_filter_def)
  have "map ev_state (filter (\<lambda>e. slot_concerned e Hdcp_enabled) ?es) = [1, 0]"
    by (simp add: hdcp_sys_event_def slot_concerned_def)
  also have "\<dots> = List.map_filter hdcp_out
      (snd (run_trace (dsm_step ds_box_example) ?is (ds_statics (\<lambda>_. STEREO_STEREO))))"
    unfolding hdcp_out_run hs by (simp add: hdcp_enabled_by_def)
  finally have fed: "map ev_state (filter (\<lambda>e. slot_concerned e Hdcp_enabled) ?es) = \<dots>" .
  show ?thesis
    using clients_see_last_hdcp_status [OF _ _ fed, of sys_example] hs
    by (simp add: hdcp_sys_event_def PAYLOAD_SIZE_def sys_example_def Let_def)
qed

end
