(* ===== verification/Deep_Sleep_Daemon.thy ===== *)
theory Deep_Sleep_Daemon
  imports Deep_Sleep
begin

text \<open>
  The stand-alone deep sleep daemon: deepsleepmgr/deepSleepMgr.c, the predecessor of
  pwrmgr2/deepSleep.c.  It has the same variables and the same calls of the platform, and reacts
  to the events of the power manager in one handler.  It differs in three places: it does not
  ignore a mode change while a transition is in progress, it returns at once when all attempts to
  sleep fail, and it can switch the front panel off and on.  The last part of the theory relates
  the two: with the front panel calls hidden they are the same machine, step by step, away from the
  first two differences.
\<close>

section \<open>Operations\<close>

record dsd_cfg = ds_cfg +
  DEEPSLEEP_FPLED_HANDLING :: bool

datatype dsd_effect = Call ds_effect | FrontPanelTerm | FrontPanelInit

text \<open>The loop of the attempts from retryCount on: the state, the calls, the last userWakeup, and
  whether the handler returned from inside the loop.  The fuel is the number of turns left.\<close>

fun sleep_loop :: "dsd_cfg \<Rightarrow> ds_world \<Rightarrow> mode_change \<Rightarrow> nat \<Rightarrow> nat \<Rightarrow> bool \<Rightarrow> ds_state
    \<Rightarrow> ds_state \<times> ds_effect list \<times> bool \<times> bool" where
  "sleep_loop cfg w mc 0 retryCount userWakeup s = (s, [], userWakeup, False)"
| "sleep_loop cfg w mc (Suc turns) retryCount userWakeup s =
     (let s = (if LLAMA_PLATCO_SKY_XIONE cfg then s\<lparr>nwStandbyMode_gs := mc_nwStandbyMode mc\<rparr> else s);
          (status, userWakeup) = plat_sleep w retryCount;
          call = PlatSetDeepSleep (deep_sleep_wakeup_timer s) (nwStandbyMode_gs s)
      in if status \<noteq> 0
         then (if retryCount + 1 \<ge> 5
               then (s\<lparr>IsDeviceInDeepSleep := DeepSleepStatus_Failed\<rparr>, [call], userWakeup, True)
               else (let (s', es, u, ret) = sleep_loop cfg w mc turns (retryCount + 1) userWakeup s
                     in (s', call # es, u, ret)))
         else (s\<lparr>IsDeviceInDeepSleep := DeepSleepStatus_Completed\<rparr>, [call], userWakeup, False))"

definition dsd_stop_services :: "dsd_cfg \<Rightarrow> ds_world \<Rightarrow> ds_state \<Rightarrow> ds_state \<times> ds_effect list" where
  "dsd_stop_services cfg w s =
     (if lxc_active w then (s\<lparr>isLxcRestart := True\<rparr>, [StopService Lxc])
      else (s, (if LLAMA_PLATCO_SKY_XIONE cfg then []
                else [StopService XreReceiver, StopService WpeFramework])
             @ (if LLAMA_PLATCO cfg then [] else [StopService SdCard])))"

definition dsd_enter_now ::
    "dsd_cfg \<Rightarrow> ds_world \<Rightarrow> mode_change \<Rightarrow> ds_state \<Rightarrow> ds_state \<times> dsd_effect list" where
  "dsd_enter_now cfg w mc s =
     (let (s, stops) = dsd_stop_services cfg w s;
          panel = (if DEEPSLEEP_FPLED_HANDLING cfg then [FrontPanelTerm] else []);
          fog = (if LLAMA_PLATCO_SKY_XIONE cfg then [] else [StopService Fog]);
          (s, calls, userWakeup, returned) = sleep_loop cfg w mc 5 0 False s;
          key = (if userWakeup then [WakeupKey KET_KEYDOWN 0xF1, WakeupKey KET_KEYUP 0xF1] else []);
          timer = (if WAKEUP_TIMER_EVT cfg \<and> woken_by_timer w then [HandleDeepsleepTimeoutWakeup] else [])
      in (s, map Call stops @ panel @ map Call fog @ map Call calls
             @ (if returned then [] else map Call key @ map Call timer)))"

datatype dsd_event = DEEPSLEEP_TIMEOUT | MODECHANGED mode_change | OTHER_EVENT

text \<open>The first argument: whether the owner of the event is the power manager.\<close>

definition dsd_eventHandler ::
    "dsd_cfg \<Rightarrow> ds_world \<Rightarrow> bool \<Rightarrow> dsd_event \<Rightarrow> ds_state \<Rightarrow> ds_state \<times> dsd_effect list" where
  "dsd_eventHandler cfg w from_pwrmgr e s =
     (if \<not> from_pwrmgr then (s, [])
      else (case e of
        DEEPSLEEP_TIMEOUT \<Rightarrow>
          (s, if DISABLE_SCHD_REBOOT_AT_DEEPSLEEP cfg then [] else [Call RebootTimerExpired])
      | MODECHANGED mc \<Rightarrow>
          if mc_newState mc = PWRMGR_STANDBY_DEEP_SLEEP
          then (let s = s\<lparr>deep_sleep_wakeup_timer := mc_deep_sleep_timeout mc,
                          IsDeviceInDeepSleep := DeepSleepStatus_InProgress\<rparr>;
                    s = (case timer_file w of
                           None \<Rightarrow> s
                         | Some None \<Rightarrow> s
                         | Some (Some t) \<Rightarrow> s\<lparr>deep_sleep_delay_timeout := t\<rparr>)
                in if deep_sleep_delay_timeout s \<noteq> 0
                   then (s\<lparr>dsleep_delay_event_src := True\<rparr>, [Call (AddDelayTimer (deep_sleep_delay_timeout s))])
                   else dsd_enter_now cfg w mc s)
          else (s, [])
      | OTHER_EVENT \<Rightarrow> (s, [])))"

definition dsd_DeepSleepWakeup ::
    "dsd_cfg \<Rightarrow> power_state \<Rightarrow> power_state \<Rightarrow> ds_state \<Rightarrow> ds_state \<times> dsd_effect list \<times> iarm_result" where
  "dsd_DeepSleepWakeup cfg cur new s =
     (if cur = PWRMGR_STANDBY_DEEP_SLEEP \<and> new \<noteq> PWRMGR_STANDBY_DEEP_SLEEP
      then
        (let panel = (if DEEPSLEEP_FPLED_HANDLING cfg then [FrontPanelInit] else []);
             (s, timer) = (if dsleep_delay_event_src s
                           then (s\<lparr>dsleep_delay_event_src := False\<rparr>, [RemoveDelayTimer]) else (s, []));
             (s, services) =
               (if IsDeviceInDeepSleep s \<noteq> DeepSleepStatus_NotStarted
                then (let moca = (if LLAMA_PLATCO_SKY_XIONE cfg then [] else [StartService Moca]);
                          sd = (if LLAMA_PLATCO cfg then [] else [StartService SdCard]);
                          fog = (if LLAMA_PLATCO_SKY_XIONE cfg then [] else [StartService Fog]);
                          (s, rest) = (if isLxcRestart s
                                       then (s\<lparr>isLxcRestart := False\<rparr>, [StartService Lxc])
                                       else (s, if LLAMA_PLATCO_SKY_XIONE cfg then []
                                                else [StartService WpeFramework, StartService XreReceiver]))
                      in (s, moca @ sd @ fog @ rest))
                else (s, []))
         in (s\<lparr>IsDeviceInDeepSleep := DeepSleepStatus_NotStarted\<rparr>,
             panel @ map Call (PlatDeepSleepWakeup # timer @ services), IARM_RESULT_SUCCESS))
      else (s, [], IARM_RESULT_SUCCESS))"

definition dsd_deep_sleep_delay_timer_fn ::
    "dsd_cfg \<Rightarrow> ds_world \<Rightarrow> ds_state \<Rightarrow> ds_state \<times> dsd_effect list" where
  "dsd_deep_sleep_delay_timer_fn cfg w s =
     (let (s, stops) = (if lxc_active w then (s\<lparr>isLxcRestart := True\<rparr>, [StopService Lxc])
                        else (s, if LLAMA_PLATCO_SKY_XIONE cfg then []
                                 else [StopService XreReceiver, StopService WpeFramework]));
          timer = (if WAKEUP_TIMER_EVT cfg \<and> woken_by_timer w then [HandleDeepsleepTimeoutWakeup] else [])
      in (s, map Call (stops @ PlatSetDeepSleep (deep_sleep_wakeup_timer s) (nwStandbyMode_gs s) # timer)))"

definition dsd_SetDeepSleepTimer :: "nat option \<Rightarrow> ds_state \<Rightarrow> ds_state \<times> iarm_result" where
  "dsd_SetDeepSleepTimer param s =
     (case param of
        None \<Rightarrow> (s, IARM_RESULT_IPCCORE_FAIL)
      | Some timeout \<Rightarrow> (s\<lparr>deep_sleep_delay_timeout := timeout\<rparr>, IARM_RESULT_SUCCESS))"

definition dsd_GetDeepSleepStatus :: "ds_state \<Rightarrow> deep_sleep_status \<times> iarm_result" where
  "dsd_GetDeepSleepStatus s = (IsDeviceInDeepSleep s, IARM_RESULT_SUCCESS)"

section \<open>The two machines\<close>

text \<open>The same inputs for the daemon and for the module inside the power manager, which calls its
  functions directly where the daemon gets events and RPCs.\<close>

datatype sleep_input =
    Mode_change ds_world mode_change
  | Reboot_timeout ds_world
  | Wakeup power_state power_state
  | Delay_timer ds_world
  | Set_timer "nat option"

fun daemon_step :: "dsd_cfg \<Rightarrow> sleep_input \<Rightarrow> ds_state \<Rightarrow> ds_state \<times> dsd_effect list" where
  "daemon_step cfg (Mode_change w mc) s = dsd_eventHandler cfg w True (MODECHANGED mc) s"
| "daemon_step cfg (Reboot_timeout w) s = dsd_eventHandler cfg w True DEEPSLEEP_TIMEOUT s"
| "daemon_step cfg (Wakeup cur new) s =
     (let (s', es, r) = dsd_DeepSleepWakeup cfg cur new s in (s', es))"
| "daemon_step cfg (Delay_timer w) s = dsd_deep_sleep_delay_timer_fn cfg w s"
| "daemon_step cfg (Set_timer t) s = (let (s', r) = dsd_SetDeepSleepTimer t s in (s', []))"

fun module_step :: "ds_cfg \<Rightarrow> sleep_input \<Rightarrow> ds_state \<Rightarrow> ds_state \<times> ds_effect list" where
  "module_step cfg (Mode_change w mc) s = SetPwrMgrDeepSleepMode cfg w mc s"
| "module_step cfg (Reboot_timeout w) s = (s, PwrMgrDeepSleepTimeout cfg)"
| "module_step cfg (Wakeup cur new) s =
     (let (s', es, r) = DeepSleepWakeup cfg cur new s in (s', es))"
| "module_step cfg (Delay_timer w) s = deep_sleep_delay_timer_fn cfg w s"
| "module_step cfg (Set_timer t) s = (let (s', r) = SetDeepSleepTimer t s in (s', []))"

text \<open>What they have in common: the calls without those of the front panel.\<close>

fun common :: "dsd_effect list \<Rightarrow> ds_effect list" where
  "common [] = []"
| "common (Call e # es) = e # common es"
| "common (FrontPanelTerm # es) = common es"
| "common (FrontPanelInit # es) = common es"

text \<open>Away from the differences: no deep sleep request while a transition is in progress, and one of
  the five attempts succeeds.\<close>

fun ordinary :: "sleep_input \<Rightarrow> ds_state \<Rightarrow> bool" where
  "ordinary (Mode_change w mc) s =
     (mc_newState mc = PWRMGR_STANDBY_DEEP_SLEEP \<longrightarrow>
        IsDeviceInDeepSleep s \<noteq> DeepSleepStatus_InProgress \<and> (\<exists>k<5. fst (plat_sleep w k) = 0))"
| "ordinary _ s = True"

primrec ordinary_run :: "ds_cfg \<Rightarrow> sleep_input list \<Rightarrow> ds_state \<Rightarrow> bool" where
  "ordinary_run cfg [] s = True"
| "ordinary_run cfg (i # is) s = (ordinary i s \<and> ordinary_run cfg is (fst (module_step cfg i s)))"

section \<open>Lemmas\<close>

lemma common_append [simp]: "common (es @ fs) = common es @ common fs"
  by (induction es rule: common.induct) auto

lemma common_Call [simp]: "common (map Call es) = es"
  by (induction es) auto

lemma common_replicate [simp]: "common (replicate n (Call e)) = replicate n e"
  by (induction n) auto

text \<open>The loop of the daemon does what the attempts of the module say, and returns early exactly when
  they fail.\<close>

lemma sleep_loop_attempts:
  assumes "sleep_attempts (plat_sleep w) (Suc turns) i = (st, u, n)" and "i + Suc turns = 5"
  shows "sleep_loop cfg w mc (Suc turns) i u0 s =
    (let s = (if LLAMA_PLATCO_SKY_XIONE cfg then s\<lparr>nwStandbyMode_gs := mc_nwStandbyMode mc\<rparr> else s)
     in (s\<lparr>IsDeviceInDeepSleep := st\<rparr>,
         replicate (n - i) (PlatSetDeepSleep (deep_sleep_wakeup_timer s) (nwStandbyMode_gs s)),
         u, st = DeepSleepStatus_Failed))"
  using assms
proof (induction turns arbitrary: i u0 s)
  case 0
  then show ?case by (auto simp: Let_def split: prod.splits if_splits)
next
  case (Suc turns)
  obtain status v where p: "plat_sleep w i = (status, v)" by fastforce
  show ?case
  proof (cases "status = 0")
    case True
    with Suc.prems(1) p show ?thesis by (auto simp: Let_def)
  next
    case False
    with Suc.prems(1) p have rest: "sleep_attempts (plat_sleep w) (Suc turns) (i + 1) = (st, u, n)"
      by (simp del: sleep_attempts.simps(2)) (subst (asm) sleep_attempts.simps(2), simp)
    from sleep_attempts_spec [OF this] have "i + 1 < n" by blast
    then have n: "n - i = Suc (n - (i + 1))" by simp
    have "\<not> i + 1 \<ge> 5" using Suc.prems(2) by simp
    then show ?thesis
      using False Suc.IH [OF rest] Suc.prems(2) p
      by (subst sleep_loop.simps(2)) (simp add: n Let_def del: sleep_loop.simps)
  qed
qed

lemma sleep_attempts_succeed:
  assumes "\<exists>k<5. fst (plat k) = 0" and "sleep_attempts plat (Suc 4) 0 = (st, u, n)"
  shows "st = DeepSleepStatus_Completed"
  using sleep_attempts_spec [OF assms(2)] assms(1) by auto

lemma stop_services_same: "dsd_stop_services cfg w s = stop_services (ds_cfg.truncate cfg) (lxc_active w) s"
  by (simp add: dsd_stop_services_def stop_services_def ds_cfg.truncate_def)

lemma enter_now_same:
  assumes "\<exists>k<5. fst (plat_sleep w k) = 0"
    and "enter_deep_sleep_now (ds_cfg.truncate cfg) w mc s = (s', es)"
  shows "fst (dsd_enter_now cfg w mc s) = s' \<and> common (snd (dsd_enter_now cfg w mc s)) = es"
proof -
  obtain st u n where a: "sleep_attempts (plat_sleep w) (Suc 4) 0 = (st, u, n)" by (metis prod_cases3)
  then have five: "sleep_attempts (plat_sleep w) 5 0 = (st, u, n)"
    by (simp add: numeral_eq_Suc del: sleep_attempts.simps)
  have "st = DeepSleepStatus_Completed" using sleep_attempts_succeed [OF assms(1) a] .
  with sleep_loop_attempts [OF a, of cfg mc False]
  have loop: "sleep_loop cfg w mc 5 0 False t =
    (let s = (if LLAMA_PLATCO_SKY_XIONE cfg then t\<lparr>nwStandbyMode_gs := mc_nwStandbyMode mc\<rparr> else t)
     in (s\<lparr>IsDeviceInDeepSleep := st\<rparr>,
         replicate n (PlatSetDeepSleep (deep_sleep_wakeup_timer s) (nwStandbyMode_gs s)), u, False))" for t
    by (simp add: numeral_eq_Suc del: sleep_loop.simps)
  from assms(2) show ?thesis
    by (auto simp: enter_deep_sleep_now_def dsd_enter_now_def five loop Let_def
        stop_services_def dsd_stop_services_def ds_cfg.truncate_def split: if_splits)
qed

lemma step_same:
  assumes "ordinary i s"
  shows "fst (daemon_step cfg i s) = fst (module_step (ds_cfg.truncate cfg) i s)
       \<and> common (snd (daemon_step cfg i s)) = snd (module_step (ds_cfg.truncate cfg) i s)"
proof (cases i)
  case (Mode_change w mc)
  show ?thesis
  proof (cases "mc_newState mc = PWRMGR_STANDBY_DEEP_SLEEP")
    case True
    with assms Mode_change have idle: "IsDeviceInDeepSleep s \<noteq> DeepSleepStatus_InProgress"
      and ok: "\<exists>k<5. fst (plat_sleep w k) = 0" by auto
    define t where "t = (case timer_file w of
        Some (Some d) \<Rightarrow> s\<lparr>deep_sleep_wakeup_timer := mc_deep_sleep_timeout mc,
                          IsDeviceInDeepSleep := DeepSleepStatus_InProgress, deep_sleep_delay_timeout := d\<rparr>
      | _ \<Rightarrow> s\<lparr>deep_sleep_wakeup_timer := mc_deep_sleep_timeout mc,
               IsDeviceInDeepSleep := DeepSleepStatus_InProgress\<rparr>)"
    have d: "daemon_step cfg i s =
        (if deep_sleep_delay_timeout t \<noteq> 0
         then (t\<lparr>dsleep_delay_event_src := True\<rparr>, [Call (AddDelayTimer (deep_sleep_delay_timeout t))])
         else dsd_enter_now cfg w mc t)"
      using True Mode_change by (auto simp: dsd_eventHandler_def t_def Let_def split: option.splits)
    have m: "module_step (ds_cfg.truncate cfg) i s =
        (if deep_sleep_delay_timeout t \<noteq> 0
         then (t\<lparr>dsleep_delay_event_src := True\<rparr>, [AddDelayTimer (deep_sleep_delay_timeout t)])
         else enter_deep_sleep_now (ds_cfg.truncate cfg) w mc t)"
      using True idle Mode_change by (auto simp: SetPwrMgrDeepSleepMode_def t_def Let_def split: option.splits)
    obtain s' es where e: "enter_deep_sleep_now (ds_cfg.truncate cfg) w mc t = (s', es)" by fastforce
    from enter_now_same [OF ok e] e show ?thesis by (simp add: d m)
  next
    case False
    with Mode_change show ?thesis by (simp add: dsd_eventHandler_def SetPwrMgrDeepSleepMode_def)
  qed
next
  case (Wakeup cur new)
  then show ?thesis
    by (simp add: dsd_DeepSleepWakeup_def DeepSleepWakeup_def wakeup_body_def Let_def
        case_prod_beta ds_cfg.truncate_def)
qed (simp_all add: dsd_eventHandler_def PwrMgrDeepSleepTimeout_def dsd_SetDeepSleepTimer_def
    SetDeepSleepTimer_def dsd_deep_sleep_delay_timer_fn_def deep_sleep_delay_timer_fn_def Let_def
    case_prod_beta ds_cfg.truncate_def split: option.splits)

section \<open>Properties\<close>

text \<open>C14. The daemon and the module of the power manager are the same machine.  From any common state,
  on any sequence of mode changes, reboot timeouts, wake-ups, delay timer expiries and timer
  settings, as long as no deep sleep is requested while a transition is in progress and each
  request that sleeps at once succeeds within five attempts, they go through the same states and
  make the same calls in the same order, but for the front panel calls of the daemon.\<close>

theorem daemon_equals_module:
  assumes "ordinary_run (ds_cfg.truncate cfg) is s"
  shows "fst (run_trace (daemon_step cfg) is s) = fst (run_trace (module_step (ds_cfg.truncate cfg)) is s)
       \<and> common (snd (run_trace (daemon_step cfg) is s))
           = snd (run_trace (module_step (ds_cfg.truncate cfg)) is s)"
  using assms
proof (induction "is" arbitrary: s)
  case (Cons i "is")
  then show ?case
    using step_same [of i s cfg]
    by (simp add: fst_run_trace_Cons snd_run_trace_Cons del: run_trace.simps daemon_step.simps
        module_step.simps ordinary.simps)
qed simp

text \<open>Where they differ: when all five attempts fail and the user's action ended the last one, the
  module still sends the wake-up key, the daemon does not.\<close>

lemma failed_sleep_differs:
  assumes "plat_sleep w = (\<lambda>i. (- 1, True))" and "\<not> lxc_active w" and "LLAMA_PLATCO_SKY_XIONE cfg"
    and "\<not> WAKEUP_TIMER_EVT cfg"
  shows "WakeupKey KET_KEYDOWN 0xF1 \<in> set (snd (enter_deep_sleep_now (ds_cfg.truncate cfg) w mc s))"
    and "WakeupKey KET_KEYDOWN 0xF1 \<notin> set (common (snd (dsd_enter_now cfg w mc s)))"
proof -
  obtain st u n where a: "sleep_attempts (plat_sleep w) (Suc 4) 0 = (st, u, n)" by (metis prod_cases3)
  then have five: "sleep_attempts (plat_sleep w) 5 0 = (st, u, n)"
    by (simp add: numeral_eq_Suc del: sleep_attempts.simps)
  from sleep_attempts_spec [OF a] assms(1) have st: "st = DeepSleepStatus_Failed" "u" by auto
  show "WakeupKey KET_KEYDOWN 0xF1 \<in> set (snd (enter_deep_sleep_now (ds_cfg.truncate cfg) w mc s))"
    using st by (simp add: enter_deep_sleep_now_def five Let_def case_prod_beta)
  have loop: "sleep_loop cfg w mc 5 0 False t =
    (let s = (if LLAMA_PLATCO_SKY_XIONE cfg then t\<lparr>nwStandbyMode_gs := mc_nwStandbyMode mc\<rparr> else t)
     in (s\<lparr>IsDeviceInDeepSleep := st\<rparr>,
         replicate n (PlatSetDeepSleep (deep_sleep_wakeup_timer s) (nwStandbyMode_gs s)), u, True))" for t
    using sleep_loop_attempts [OF a, of cfg mc False] st by (simp add: numeral_eq_Suc del: sleep_loop.simps)
  show "WakeupKey KET_KEYDOWN 0xF1 \<notin> set (common (snd (dsd_enter_now cfg w mc s)))"
    using assms(2,3) by (simp add: dsd_enter_now_def dsd_stop_services_def loop Let_def)
qed

section \<open>Witness\<close>

definition dsd_sample_cfg :: dsd_cfg where
  "dsd_sample_cfg = ds_cfg.extend sample_cfg \<lparr>DEEPSLEEP_FPLED_HANDLING = True\<rparr>"

text \<open>Sleep at the third attempt, then wake up: the daemon also switches the front panel off and on.\<close>

theorem daemon_equals_module_witness:
  "common (snd (run_trace (daemon_step dsd_sample_cfg)
       [Mode_change sample_world sample_change, Wakeup PWRMGR_STANDBY_DEEP_SLEEP PWRMGR_ON] ds_init))
     = snd (run_trace (module_step sample_cfg)
       [Mode_change sample_world sample_change, Wakeup PWRMGR_STANDBY_DEEP_SLEEP PWRMGR_ON] ds_init)
   \<and> snd (run_trace (daemon_step dsd_sample_cfg) [Wakeup PWRMGR_STANDBY_DEEP_SLEEP PWRMGR_ON] ds_init)
     = [FrontPanelInit, Call PlatDeepSleepWakeup]"
proof -
  have cfg: "ds_cfg.truncate dsd_sample_cfg = sample_cfg"
    by (simp add: dsd_sample_cfg_def sample_cfg_def ds_cfg.truncate_def ds_cfg.extend_def)
  have "ordinary_run (ds_cfg.truncate dsd_sample_cfg)
      [Mode_change sample_world sample_change, Wakeup PWRMGR_STANDBY_DEEP_SLEEP PWRMGR_ON] ds_init"
    by (simp add: ds_init_def sample_world_def del: module_step.simps) (intro impI exI [of _ 2], simp)
  from daemon_equals_module [OF this, unfolded cfg]
  have "common (snd (run_trace (daemon_step dsd_sample_cfg)
       [Mode_change sample_world sample_change, Wakeup PWRMGR_STANDBY_DEEP_SLEEP PWRMGR_ON] ds_init))
     = snd (run_trace (module_step sample_cfg)
       [Mode_change sample_world sample_change, Wakeup PWRMGR_STANDBY_DEEP_SLEEP PWRMGR_ON] ds_init)" ..
  moreover have "snd (run_trace (daemon_step dsd_sample_cfg) [Wakeup PWRMGR_STANDBY_DEEP_SLEEP PWRMGR_ON] ds_init)
     = [FrontPanelInit, Call PlatDeepSleepWakeup]"
    by (simp add: dsd_DeepSleepWakeup_def ds_init_def dsd_sample_cfg_def ds_cfg.extend_def)
  ultimately show ?thesis ..
qed

end
