(* ===== verification/Mfr_Server.thy ===== *)
theory Mfr_Server
  imports Slot_Store
begin

text \<open>
  The server of the manufacturer library: mfr/common/rpc/srv/mfrSrv.c, built with
  RDK\_MFRLIB\_NAME.  Every handler takes one mutex, resolves the function of the platform library
  once, calls it and answers.  The model keeps the mutex explicitly: taking it while it is held
  blocks for ever (None; the mutex is not recursive, and nobody else releases it), and releasing it
  while it is free, which is undefined for a mutex, is counted.  The library (which functions it
  exports, how its calls end, which progress it reports) is the world, an argument of the handlers;
  the calls that reach it are recorded.  Handlers run one after the other.
\<close>

section \<open>State\<close>

datatype mfr_fn = F_init | F_GetSerializedData | F_SetSerializedData | F_WriteImage
  | F_SetImageWriteProgress | F_GetImageWriteProgress | F_DeletePDRI | F_ScrubAllBanks | F_shutdown
  | F_Reboot | F_SetCableCardType | F_SetHostFirmwareInfo | F_GetBootImageName
  | F_GetPathConfiguration | F_GetDFAST2Data

datatype progress = NOT_STARTED | STARTED | ABORTED | COMPLETED

record mfr_state =
  locked :: bool
  bad_unlocks :: nat
  resolved :: "mfr_fn list"
  encrypt_func :: "string option"
  decrypt_func :: "string option"
  m_initialized :: bool
  lib_calls :: "(mfr_fn \<times> string option) list"

definition mfr_boot :: mfr_state where
  "mfr_boot = \<lparr>locked = False, bad_unlocks = 0, resolved = [], encrypt_func = None,
     decrypt_func = None, m_initialized = False, lib_calls = []\<rparr>"

text \<open>The world of one call: the exported functions, the crypto functions, whether the library call
  ends with mfrERR\_NONE, whether the bounded copy succeeds, the length of the data, the progress at
  the successive looks of the polling loops, and whether the bus could be initialised.\<close>

record mfr_world =
  exported :: "mfr_fn \<Rightarrow> bool"
  crypto_exported :: "string \<Rightarrow> bool"
  err_none :: bool
  copy_ok :: bool
  data_len :: int
  progress_seen :: "progress list"
  bus_init_ok :: bool

definition IARM_Bus_Lock :: "mfr_state \<Rightarrow> mfr_state option" where
  "IARM_Bus_Lock s = (if locked s then None else Some (s\<lparr>locked := True\<rparr>))"

definition IARM_Bus_Unlock :: "mfr_state \<Rightarrow> mfr_state" where
  "IARM_Bus_Unlock s =
     (if locked s then s\<lparr>locked := False\<rparr> else s\<lparr>bad_unlocks := Suc (bad_unlocks s)\<rparr>)"

text \<open>The static function pointer of a handler: looked up while it is null.\<close>

definition find_func :: "mfr_world \<Rightarrow> mfr_fn \<Rightarrow> mfr_state \<Rightarrow> bool \<times> mfr_state" where
  "find_func w f s =
     (if f \<in> set (resolved s) then (True, s)
      else if exported w f then (True, s\<lparr>resolved := f # resolved s\<rparr>) else (False, s))"

definition lib_call :: "mfr_fn \<Rightarrow> string option \<Rightarrow> mfr_state \<Rightarrow> mfr_state" where
  "lib_call f crypto s = s\<lparr>lib_calls := lib_calls s @ [(f, crypto)]\<rparr>"

section \<open>Handlers of the common shape\<close>

text \<open>Lock, resolve, call; unlock inside the success branch and again at the end.  copies says that
  the handler copies its argument first and may give up there.\<close>

definition plain_handler ::
    "mfr_fn \<Rightarrow> bool \<Rightarrow> mfr_world \<Rightarrow> mfr_state \<Rightarrow> (iarm_result \<times> mfr_state) option" where
  "plain_handler f copies w s =
     Option.bind (IARM_Bus_Lock s) (\<lambda>s.
       let (found, s) = find_func w f s
       in if \<not> found then Some (IARM_RESULT_INVALID_STATE, IARM_Bus_Unlock s)
          else if copies \<and> \<not> copy_ok w then Some (IARM_RESULT_INVALID_PARAM, IARM_Bus_Unlock s)
          else (let s = lib_call f None s
                in if err_none w
                   then (let s = IARM_Bus_Unlock s in Some (IARM_RESULT_SUCCESS, IARM_Bus_Unlock s))
                   else Some (IARM_RESULT_INVALID_STATE, IARM_Bus_Unlock s)))"

definition mfrDeletePDRI where "mfrDeletePDRI = plain_handler F_DeletePDRI False"
definition mfrScrubAllBanks where "mfrScrubAllBanks = plain_handler F_ScrubAllBanks False"
definition mfrReboot where "mfrReboot = plain_handler F_Reboot False"
definition mfrSetCableCardType where "mfrSetCableCardType = plain_handler F_SetCableCardType False"
definition mfrSetHostFirmwareInfo where "mfrSetHostFirmwareInfo = plain_handler F_SetHostFirmwareInfo True"
definition mfrGetBootImageName where "mfrGetBootImageName = plain_handler F_GetBootImageName False"
definition mfrGetPathConfiguration where "mfrGetPathConfiguration = plain_handler F_GetPathConfiguration False"
definition mfrGetDFAST2Data where "mfrGetDFAST2Data = plain_handler F_GetDFAST2Data True"

section \<open>Serialized data\<close>

definition SERIALIZED_BUF :: int where "SERIALIZED_BUF = 1280"

text \<open>The crypto function of a request: an empty name means none; a name is looked up while no
  function has been found before, and otherwise the one found before is used.  The second argument
  and the second component are the static pointer, by the name it was resolved from.\<close>

definition crypto_func ::
    "mfr_world \<Rightarrow> string \<Rightarrow> string option \<Rightarrow> (string option \<times> string option) option" where
  "crypto_func w crypto cached =
     (if crypto = '''' then Some (None, cached)
      else (case cached of
              Some f \<Rightarrow> Some (Some f, cached)
            | None \<Rightarrow> if crypto_exported w crypto then Some (Some crypto, Some crypto) else None))"

text \<open>The answer of \_mfrGetSerializedData carries the length it reports.\<close>

definition mfrGetSerializedData ::
    "string \<Rightarrow> mfr_world \<Rightarrow> mfr_state \<Rightarrow> (iarm_result \<times> int option \<times> mfr_state) option" where
  "mfrGetSerializedData crypto w s =
     Option.bind (IARM_Bus_Lock s) (\<lambda>s.
       let (found, s) = find_func w F_GetSerializedData s
       in if \<not> found then Some (IARM_RESULT_INVALID_STATE, None, IARM_Bus_Unlock s)
          else (case crypto_func w crypto (encrypt_func s) of
                  None \<Rightarrow> Some (IARM_RESULT_INVALID_STATE, None, IARM_Bus_Unlock s)
                | Some (func, cached) \<Rightarrow>
                    (let s = lib_call F_GetSerializedData func (s\<lparr>encrypt_func := cached\<rparr>);
                         max_len = (if SERIALIZED_BUF < data_len w then SERIALIZED_BUF else data_len w)
                     in if \<not> err_none w then Some (IARM_RESULT_INVALID_STATE, None, IARM_Bus_Unlock s)
                        else if \<not> copy_ok w then Some (IARM_RESULT_INVALID_PARAM, None, IARM_Bus_Unlock s)
                        else Some (IARM_RESULT_SUCCESS, Some max_len, IARM_Bus_Unlock s))))"

definition mfrSetSerializedData ::
    "string \<Rightarrow> mfr_world \<Rightarrow> mfr_state \<Rightarrow> (iarm_result \<times> mfr_state) option" where
  "mfrSetSerializedData crypto w s =
     Option.bind (IARM_Bus_Lock s) (\<lambda>s.
       let (found, s) = find_func w F_SetSerializedData s
       in if \<not> found then Some (IARM_RESULT_INVALID_STATE, IARM_Bus_Unlock s)
          else (case crypto_func w crypto (decrypt_func s) of
                  None \<Rightarrow> Some (IARM_RESULT_INVALID_STATE, IARM_Bus_Unlock s)
                | Some (func, cached) \<Rightarrow>
                    (let s = s\<lparr>decrypt_func := cached\<rparr>
                     in if \<not> copy_ok w then Some (IARM_RESULT_INVALID_PARAM, IARM_Bus_Unlock s)
                        else (let s = lib_call F_SetSerializedData func s
                              in Some (if err_none w then IARM_RESULT_SUCCESS else IARM_RESULT_INVALID_STATE,
                                       IARM_Bus_Unlock s)))))"

section \<open>Image handlers\<close>

text \<open>A polling loop: wait while the progress is st.  The list is what lastStatus.progress shows at
  the successive looks; None when it never changes.\<close>

fun wait_while :: "progress \<Rightarrow> progress list \<Rightarrow> progress list option" where
  "wait_while st [] = None"
| "wait_while st (p # ps) = (if p = st then wait_while st ps else Some (p # ps))"

definition mfrWriteImage :: "mfr_world \<Rightarrow> mfr_state \<Rightarrow> (iarm_result \<times> mfr_state) option" where
  "mfrWriteImage w s =
     Option.bind (IARM_Bus_Lock s) (\<lambda>s.
       let (found, s) = find_func w F_WriteImage s
       in if \<not> found then Some (IARM_RESULT_INVALID_STATE, s)
          else (let s = lib_call F_WriteImage None s
                in if err_none w
                   then Option.bind (wait_while NOT_STARTED (progress_seen w)) (\<lambda>ps.
                        Option.bind (wait_while STARTED ps) (\<lambda>ps.
                          Some (if hd ps \<noteq> COMPLETED then IARM_RESULT_IPCCORE_FAIL else IARM_RESULT_SUCCESS, s)))
                   else Some (IARM_RESULT_INVALID_STATE, s)))"

definition mfrGetImageWriteProgress :: "mfr_world \<Rightarrow> mfr_state \<Rightarrow> (iarm_result \<times> mfr_state) option" where
  "mfrGetImageWriteProgress w s =
     Option.bind (IARM_Bus_Lock s) (\<lambda>s.
       let (found, s) = find_func w F_GetImageWriteProgress s
       in if \<not> found then Some (IARM_RESULT_INVALID_STATE, s)
          else (let s = lib_call F_GetImageWriteProgress None s
                in Some (if err_none w then IARM_RESULT_SUCCESS else IARM_RESULT_INVALID_STATE, s)))"

definition mfrSetImageWriteProgress :: "mfr_world \<Rightarrow> mfr_state \<Rightarrow> (iarm_result \<times> mfr_state) option" where
  "mfrSetImageWriteProgress w s =
     Option.bind (IARM_Bus_Lock s) (\<lambda>s.
       let (found, s) = find_func w F_SetImageWriteProgress s
       in if \<not> found then Some (IARM_RESULT_INVALID_STATE, s)
          else (let s = lib_call F_SetImageWriteProgress None s
                in Some (if err_none w then IARM_RESULT_SUCCESS else IARM_RESULT_INVALID_STATE, s)))"

section \<open>Start, initialisation and shutdown\<close>

text \<open>The crypto part of \_mfr\_init is guarded by a result that is never SUCCESS there.\<close>

definition mfr_init :: "mfr_state \<Rightarrow> (iarm_result \<times> mfr_state) option" where
  "mfr_init s = Option.bind (IARM_Bus_Lock s) (\<lambda>s.
     Some (IARM_RESULT_SUCCESS, IARM_Bus_Unlock (s\<lparr>m_initialized := True\<rparr>)))"

text \<open>\_mfr\_shutdown takes the mutex twice.\<close>

definition mfr_shutdown :: "mfr_world \<Rightarrow> mfr_state \<Rightarrow> (iarm_result \<times> mfr_state) option" where
  "mfr_shutdown w s =
     Option.bind (IARM_Bus_Lock s) (\<lambda>s. plain_handler F_shutdown False w s)"

definition mfrMgr_start :: "mfr_world \<Rightarrow> mfr_state \<Rightarrow> (iarm_result \<times> mfr_state) option" where
  "mfrMgr_start w s =
     Option.bind (IARM_Bus_Lock s) (\<lambda>s.
       let (found, s) = find_func w F_init s
       in if \<not> found then Some (IARM_RESULT_INVALID_STATE, IARM_Bus_Unlock s)
          else (let s = lib_call F_init None s
                in if \<not> err_none w then Some (IARM_RESULT_IPCCORE_FAIL, IARM_Bus_Unlock s)
                   else if \<not> bus_init_ok w
                   then map_option (\<lambda>(r, s). (IARM_RESULT_IPCCORE_FAIL, s)) (mfr_shutdown w (IARM_Bus_Unlock s))
                   else Some (IARM_RESULT_SUCCESS, IARM_Bus_Unlock s)))"

section \<open>The server\<close>

datatype mfr_request =
    Init | DeletePDRI | ScrubAllBanks | Reboot | SetCableCardType | SetHostFirmwareInfo
  | GetBootImageName | GetPathConfiguration | GetDFAST2Data | GetSerialized string
  | SetSerialized string | WriteImage | SetProgress | GetProgress | Shutdown

fun serve :: "mfr_request \<times> mfr_world \<Rightarrow> mfr_state \<Rightarrow> mfr_state option" where
  "serve (Init, w) s = map_option snd (mfr_init s)"
| "serve (DeletePDRI, w) s = map_option snd (mfrDeletePDRI w s)"
| "serve (ScrubAllBanks, w) s = map_option snd (mfrScrubAllBanks w s)"
| "serve (Reboot, w) s = map_option snd (mfrReboot w s)"
| "serve (SetCableCardType, w) s = map_option snd (mfrSetCableCardType w s)"
| "serve (SetHostFirmwareInfo, w) s = map_option snd (mfrSetHostFirmwareInfo w s)"
| "serve (GetBootImageName, w) s = map_option snd (mfrGetBootImageName w s)"
| "serve (GetPathConfiguration, w) s = map_option snd (mfrGetPathConfiguration w s)"
| "serve (GetDFAST2Data, w) s = map_option snd (mfrGetDFAST2Data w s)"
| "serve (GetSerialized c, w) s = map_option (\<lambda>(r, n, s). s) (mfrGetSerializedData c w s)"
| "serve (SetSerialized c, w) s = map_option snd (mfrSetSerializedData c w s)"
| "serve (WriteImage, w) s = map_option snd (mfrWriteImage w s)"
| "serve (SetProgress, w) s = map_option snd (mfrSetImageWriteProgress w s)"
| "serve (GetProgress, w) s = map_option snd (mfrGetImageWriteProgress w s)"
| "serve (Shutdown, w) s = map_option snd (mfr_shutdown w s)"

text \<open>Requests whose handler never releases the mutex.\<close>

definition loses_lock :: "mfr_request \<Rightarrow> bool" where
  "loses_lock r = (r \<in> {WriteImage, SetProgress, GetProgress, Shutdown})"

lemmas mfr_plain_defs = mfrDeletePDRI_def mfrScrubAllBanks_def mfrReboot_def mfrSetCableCardType_def
  mfrSetHostFirmwareInfo_def mfrGetBootImageName_def mfrGetPathConfiguration_def mfrGetDFAST2Data_def

lemmas mfr_lock_defs = IARM_Bus_Lock_def IARM_Bus_Unlock_def find_func_def lib_call_def

section \<open>Lemmas\<close>

lemma plain_handler_free:
  "\<not> locked s \<Longrightarrow> \<exists>r s'. plain_handler f c w s = Some (r, s') \<and> \<not> locked s'"
  by (auto simp: plain_handler_def mfr_lock_defs Let_def)

lemma plain_handler_held: "locked s \<Longrightarrow> plain_handler f c w s = None"
  by (simp add: plain_handler_def mfr_lock_defs)

lemma serve_free:
  assumes "\<not> locked s" and "\<not> loses_lock r"
  shows "\<exists>s'. serve (r, w) s = Some s' \<and> \<not> locked s'"
proof -
  have plain: "\<exists>s'. map_option snd (plain_handler f c w s) = Some s' \<and> \<not> locked s'" for f c
    using plain_handler_free [OF assms(1), of f c w] by auto
  show ?thesis
    by (cases r) (use assms plain in \<open>auto simp: loses_lock_def mfr_plain_defs mfr_init_def
      mfrGetSerializedData_def mfrSetSerializedData_def mfr_lock_defs Let_def
      split: option.splits if_splits\<close>)
qed

lemma serve_held: "locked s \<Longrightarrow> serve (r, w) s = None"
  by (cases r) (simp_all add: mfr_plain_defs plain_handler_held mfr_init_def mfrGetSerializedData_def
      mfrSetSerializedData_def mfrWriteImage_def mfrSetImageWriteProgress_def
      mfrGetImageWriteProgress_def mfr_shutdown_def IARM_Bus_Lock_def)

lemma serve_loses_lock:
  assumes "loses_lock r" and "serve (r, w) s = Some s'"
  shows "locked s'"
  using assms
  by (cases r) (auto simp: loses_lock_def mfrWriteImage_def mfrSetImageWriteProgress_def
      mfrGetImageWriteProgress_def mfr_shutdown_def plain_handler_def mfr_lock_defs Let_def
      split: Option.bind_splits if_splits)

lemma run_held: "locked s \<Longrightarrow> rs \<noteq> [] \<Longrightarrow> run_opt serve rs s = None"
  by (cases rs) (auto simp: serve_held)

lemma run_serves:
  assumes "\<not> locked s" and "\<not> loses_lock q"
  shows "(run_opt serve (rs @ [(q, w)]) s \<noteq> None) = list_all (\<lambda>(r, w). \<not> loses_lock r) rs"
  using assms(1)
proof (induction rs arbitrary: s)
  case Nil
  from serve_free [OF Nil assms(2), of w] show ?case by (auto split: option.splits)
next
  case (Cons x rs)
  obtain r v where x: "x = (r, v)" by fastforce
  show ?case
  proof (cases "loses_lock r")
    case True
    have "run_opt serve (rs @ [(q, w)]) s' = None" if "serve (r, v) s = Some s'" for s'
      using serve_loses_lock [OF True that] by (rule run_held) simp
    with True show ?thesis by (simp add: x split: option.splits)
  next
    case False
    from serve_free [OF Cons.prems False, of v] obtain s' where
      s': "serve (r, v) s = Some s'" "\<not> locked s'" by blast
    from Cons.IH [OF s'(2)] False show ?thesis by (simp add: x s'(1))
  qed
qed

text \<open>A crypto function that was found once serves every later name.\<close>

lemma crypto_func_sticks:
  "crypto_func w c cached = Some (f, cached') \<Longrightarrow> cached \<noteq> None \<Longrightarrow>
     cached' = cached \<and> (c \<noteq> '''' \<longrightarrow> f = cached)"
  by (auto simp: crypto_func_def split: if_splits)

section \<open>Properties\<close>

text \<open>C16. The server answers exactly as long as nobody asked about an image.  After a successful start,
  with any library (functions missing, calls failing, copies failing), a request other than image
  writing, image progress or shutdown gets an answer after the requests rs if and only if none of
  rs was one of those four: they keep the mutex on every path, the error paths included, so that
  one of them blocks the server for ever.\<close>

theorem served_iff_no_image_request_before:
  assumes "mfrMgr_start w0 mfr_boot = Some (IARM_RESULT_SUCCESS, s)" and "\<not> loses_lock q"
  shows "(run_opt serve (rs @ [(q, w)]) s \<noteq> None) = list_all (\<lambda>(r, w). \<not> loses_lock r) rs"
proof -
  have "\<not> locked s"
    using assms(1) by (auto simp: mfrMgr_start_def mfr_boot_def mfr_lock_defs Let_def split: if_splits)
  then show ?thesis using assms(2) by (rule run_serves)
qed

definition mfr_world_example :: mfr_world where
  "mfr_world_example = \<lparr>exported = (\<lambda>f. f \<noteq> F_GetImageWriteProgress), crypto_exported = (\<lambda>_. True),
     err_none = True, copy_ok = True, data_len = 12, progress_seen = [STARTED, COMPLETED],
     bus_init_ok = True\<rparr>"

text \<open>Asking for the progress where the library does not even export the function is enough.\<close>

theorem served_iff_no_image_request_before_witness:
  "\<exists>s. mfrMgr_start mfr_world_example mfr_boot = Some (IARM_RESULT_SUCCESS, s)
     \<and> run_opt serve [(Reboot, mfr_world_example), (DeletePDRI, mfr_world_example)] s \<noteq> None
     \<and> run_opt serve [(GetProgress, mfr_world_example), (DeletePDRI, mfr_world_example)] s = None"
proof -
  obtain s where s: "mfrMgr_start mfr_world_example mfr_boot = Some (IARM_RESULT_SUCCESS, s)"
    by (simp add: mfrMgr_start_def mfr_boot_def mfr_lock_defs mfr_world_example_def)
  have "\<not> loses_lock DeletePDRI" by (simp add: loses_lock_def)
  note served = served_iff_no_image_request_before [OF s this, of _ mfr_world_example]
  from served [of "[(Reboot, mfr_world_example)]"] served [of "[(GetProgress, mfr_world_example)]"] s
  show ?thesis by (auto simp: loses_lock_def simp del: run_opt.simps serve.simps)
qed

end
