(* ===== verification/Text_Search.thy ===== *)
theory Text_Search
  imports Iarm_Prelude
begin

text \<open>
  The functions of std::string and the numeric conversions that the C++ managers use: find, rfind,
  substr, std::stoi, the decimal numerals they read, and the loop that reads a configuration file.
  A position is a number, None is npos.
\<close>

section \<open>Searching\<close>

definition starts_with :: "string \<Rightarrow> string \<Rightarrow> bool" where
  "starts_with pat s = (take (length pat) s = pat)"

fun str_find :: "string \<Rightarrow> string \<Rightarrow> nat option" where
  "str_find pat [] = (if pat = [] then Some 0 else None)"
| "str_find pat (c # cs) =
     (if starts_with pat (c # cs) then Some 0 else map_option Suc (str_find pat cs))"

text \<open>find (pat, pos): from pos on.\<close>

definition str_find_from :: "string \<Rightarrow> nat \<Rightarrow> string \<Rightarrow> nat option" where
  "str_find_from pat pos s =
     (if pos \<le> length s then map_option ((+) pos) (str_find pat (drop pos s)) else None)"

text \<open>rfind (c, pos): the last c at a position up to and including pos.\<close>

fun last_index :: "char \<Rightarrow> string \<Rightarrow> nat option" where
  "last_index c [] = None"
| "last_index c (d # ds) =
     (case last_index c ds of
        Some i \<Rightarrow> Some (Suc i)
      | None \<Rightarrow> if d = c then Some 0 else None)"

definition str_rfind :: "char \<Rightarrow> nat \<Rightarrow> string \<Rightarrow> nat option" where
  "str_rfind c pos s = last_index c (take (Suc pos) s)"

definition str_rfind_all :: "char \<Rightarrow> string \<Rightarrow> nat option" where
  "str_rfind_all c s = last_index c s"

section \<open>Numbers\<close>

text \<open>std::stoi: blanks, an optional sign, at least one digit; a number that is no int throws.\<close>

definition int_or_throw :: "int \<Rightarrow> int option" where
  "int_or_throw n = (if - (2 ^ 31) \<le> n \<and> n < 2 ^ 31 then Some n else None)"

definition stoi :: "string \<Rightarrow> int option" where
  "stoi s = (case dropWhile c_isspace s of
       [] \<Rightarrow> None
     | c # cs \<Rightarrow>
         let (sign, ds) = (if c = CHR ''-'' then (-1, cs) else if c = CHR ''+'' then (1, cs) else (1, c # cs))
         in if takeWhile c_isdigit ds = [] then None else int_or_throw (sign * digits_value ds))"

definition digit_char :: "nat \<Rightarrow> char" where
  "digit_char d = char_of (48 + d)"

fun decimal :: "nat \<Rightarrow> string" where
  "decimal n = (if n < 10 then [digit_char n] else decimal (n div 10) @ [digit_char (n mod 10)])"

declare decimal.simps [simp del]

section \<open>Reading a file in blocks\<close>

text \<open>The read loop: blocks of 2047 bytes, each appended up to its first NUL, until a short block
  (end of file) or 65535 characters.\<close>

definition c_string :: "string \<Rightarrow> string" where
  "c_string s = takeWhile (\<lambda>c. c \<noteq> CHR 0x00) s"

function read_conf :: "string \<Rightarrow> string \<Rightarrow> string" where
  "read_conf acc rest =
     (if 65535 \<le> length acc then acc
      else if length rest < 2047 then acc @ c_string rest
      else read_conf (acc @ c_string (take 2047 rest)) (drop 2047 rest))"
  by pat_completeness auto
termination by (relation "measure (length \<circ> snd)") auto

declare read_conf.simps [simp del]

section \<open>Lemmas: searching\<close>

lemma starts_with_append [simp]: "starts_with pat (pat @ s)"
  by (simp add: starts_with_def)

lemma str_find_split:
  assumes "str_find pat s = Some i"
  shows "s = take i s @ pat @ drop (i + length pat) s" and "i + length pat \<le> length s"
proof -
  have "starts_with pat (drop i s) \<and> i + length pat \<le> length s"
    using assms
  proof (induction pat s arbitrary: i rule: str_find.induct)
    case (2 pat c cs)
    then show ?case
      by (cases "starts_with pat (c # cs)")
         (auto simp: starts_with_def dest: arg_cong [where f = length] split: if_splits)
  qed (simp add: starts_with_def split: if_splits)
  then have "take (length pat) (drop i s) = pat" and len: "i + length pat \<le> length s"
    by (simp_all add: starts_with_def)
  then show "s = take i s @ pat @ drop (i + length pat) s"
    by (metis add.commute append_take_drop_id drop_drop)
  show "i + length pat \<le> length s" by (rule len)
qed

lemma str_find_char:
  assumes "c \<notin> set xs"
  shows "str_find [c] (xs @ c # ys) = Some (length xs)"
  using assms by (induction xs) (auto simp: starts_with_def)

lemma str_find_None_char: "c \<notin> set xs \<Longrightarrow> str_find [c] xs = None"
  by (induction xs) (auto simp: starts_with_def)

lemma last_index_append:
  "last_index c (xs @ ys) =
     (case last_index c ys of Some i \<Rightarrow> Some (length xs + i) | None \<Rightarrow> last_index c xs)"
  by (induction xs) (auto split: option.splits)

lemma last_index_None: "last_index c xs = None \<longleftrightarrow> c \<notin> set xs"
  by (induction xs) (auto split: option.splits)

lemma last_index_Some:
  assumes "last_index c xs = Some i"
  shows "i < length xs \<and> xs ! i = c \<and> c \<notin> set (drop (Suc i) xs)"
  using assms
proof (induction xs arbitrary: i)
  case (Cons d ds)
  then show ?case by (cases "last_index c ds") (auto simp: last_index_None split: if_splits)
qed simp

text \<open>Searching back from a position where the character stands finds that position again.\<close>

lemma str_rfind_same:
  assumes "i < length s" and "s ! i = c"
  shows "str_rfind c i s = Some i"
proof -
  have "take (Suc i) s = take i s @ [c]" using assms by (simp add: take_Suc_conv_app_nth)
  then show ?thesis using assms(1) by (simp add: str_rfind_def last_index_append)
qed

section \<open>Lemmas: numbers\<close>

lemma digit_char_props:
  assumes "d < 10"
  shows "c_isdigit (digit_char d)" and "c_digit (digit_char d) = int d" and "\<not> c_isspace (digit_char d)"
    and "digit_char d \<noteq> CHR ''-''" and "digit_char d \<noteq> CHR ''+''" and "digit_char d \<noteq> CHR '',''"
proof -
  have n: "(of_char (digit_char d) :: nat) = 48 + d"
    using assms by (simp add: digit_char_def of_char_of)
  then show "c_isdigit (digit_char d)" and "\<not> c_isspace (digit_char d)"
    using assms by (simp_all add: c_isdigit_def c_isspace_def)
  have "(of_char (digit_char d) :: int) = int (of_char (digit_char d))" by (rule of_nat_of_char [symmetric])
  with n show "c_digit (digit_char d) = int d" by (simp add: c_digit_def)
  show "digit_char d \<noteq> CHR ''-''" "digit_char d \<noteq> CHR ''+''" "digit_char d \<noteq> CHR '',''"
    using n by auto
qed

lemma decimal_digits: "c \<in> set (decimal n) \<Longrightarrow> \<exists>d<10. c = digit_char d"
proof (induction n rule: decimal.induct)
  case (1 n)
  have c: "c \<in> set (if n < 10 then [digit_char n] else decimal (n div 10) @ [digit_char (n mod 10)])"
    using 1(2) by (subst (asm) decimal.simps) simp
  have "n mod 10 < 10" by simp
  with c 1(1) show ?case by (cases "n < 10") (auto simp del: mod_less_divisor)
qed

lemma decimal_nonempty: "decimal n \<noteq> []"
  by (subst decimal.simps) simp

lemma foldl_decimal:
  "foldl (\<lambda>acc c. 10 * acc + c_digit c) 0 (decimal n) = int n"
proof (induction n rule: decimal.induct)
  case (1 n)
  show ?case
  proof (cases "n < 10")
    case True
    then show ?thesis by (subst decimal.simps) (simp add: digit_char_props)
  next
    case False
    with 1 show ?thesis
      by (subst decimal.simps) (simp add: digit_char_props zdiv_int zmod_int)
  qed
qed

lemma digits_value_decimal:
  assumes "rest = [] \<or> \<not> c_isdigit (hd rest)"
  shows "digits_value (decimal n @ rest) = int n" and "takeWhile c_isdigit (decimal n @ rest) = decimal n"
proof -
  have "\<forall>c\<in>set (decimal n). c_isdigit c" by (metis decimal_digits digit_char_props(1))
  then have "takeWhile c_isdigit (decimal n @ rest) = decimal n @ takeWhile c_isdigit rest"
    by (simp add: takeWhile_append2)
  also have "takeWhile c_isdigit rest = []" using assms by (cases rest) auto
  finally show tw: "takeWhile c_isdigit (decimal n @ rest) = decimal n" by simp
  show "digits_value (decimal n @ rest) = int n" by (simp add: digits_value_def tw foldl_decimal)
qed

lemma stoi_decimal:
  assumes "n < 2 ^ 31" and "rest = [] \<or> \<not> c_isdigit (hd rest)"
  shows "stoi (decimal n @ rest) = Some (int n)"
proof -
  obtain c cs where d: "decimal n = c # cs" using decimal_nonempty [of n] by (cases "decimal n") auto
  then obtain k where k: "k < 10" "c = digit_char k" using decimal_digits [of c n] by auto
  note c = digit_char_props [OF k(1), folded k(2)]
  have "dropWhile c_isspace (decimal n @ rest) = c # cs @ rest" using d c(3) by simp
  moreover have "takeWhile c_isdigit (c # cs @ rest) \<noteq> []" using c(1) by simp
  moreover have "digits_value (c # cs @ rest) = int n" using digits_value_decimal(1) [OF assms(2), of n] d by simp
  moreover have "int_or_throw (int n) = Some (int n)" using assms(1) by (simp add: int_or_throw_def)
  ultimately show ?thesis using c(4,5) by (simp add: stoi_def)
qed

end
