(* ===== verification/Ftue_Check.thy ===== *)
theory Ftue_Check
  imports Text_Search
begin

text \<open>
  Whether a TV is still in the factory: dsmgr/dsMgrHelper.cpp (built with FTUE\_CHECK\_ENABLED; the
  same code is in pwrmgr2/pwrMgrHelper.cpp and power/pwrMgrHelper.cpp).  The first time user
  experience (FTUE) is over when a flag file exists; a job of the main loop creates it once the
  store of the resident application, a JSON text in UTF-16, says that its last station is 14.  The
  rows that sqlite returns, the contents of a fresh malloc buffer and the success of opening the
  flag file are inputs.
\<close>

section \<open>UTF-16 to ASCII\<close>

definition MAX_BUFFER_SIZE :: nat where "MAX_BUFFER_SIZE = 1024"

text \<open>The loop over the pairs of bytes: printable ASCII is kept, the rest is skipped.\<close>

fun ascii_of_pairs :: "8 word list \<Rightarrow> string" where
  "ascii_of_pairs (lo # hi # bs) =
     (if hi = 0 \<and> 0x20 \<le> lo \<and> lo \<le> 0x7E then char_of (unat lo) # ascii_of_pairs bs
      else ascii_of_pairs bs)"
| "ascii_of_pairs _ = []"

text \<open>heap: what the malloc buffer holds before the loop; None is NULL.  The terminator is written
  only behind the whole buffer, so after the kept characters the string goes on with what was in
  the buffer, up to the first NUL.\<close>

definition NUL :: char where "NUL = CHR 0x00"

definition convert_text_encoding2 :: "8 word list \<Rightarrow> string option \<Rightarrow> string option" where
  "convert_text_encoding2 input heap =
     (if length input mod 2 \<noteq> 0 then None
      else (let output_length = min (length input div 2) MAX_BUFFER_SIZE;
                kept = ascii_of_pairs (take (2 * output_length) input)
            in case heap of
                 None \<Rightarrow> None
               | Some junk \<Rightarrow>
                   Some (takeWhile (\<lambda>c. c \<noteq> NUL) (kept @ drop (length kept) (take output_length junk)))))"

section \<open>The last station\<close>

definition search_pattern :: string where
  "search_pattern = ''lastStation'' @ [CHR 0x22] @ '':''"

definition get_last_station :: "string \<Rightarrow> int" where
  "get_last_station input =
     (case str_find search_pattern input of
        None \<Rightarrow> -1
      | Some start \<Rightarrow>
          (let start = start + length search_pattern
           in case str_find_from '','' start input of
                None \<Rightarrow> -1
              | Some stop \<Rightarrow>
                  (case stoi (take (stop - start) (drop start input)) of
                     Some n \<Rightarrow> n
                   | None \<Rightarrow> -1)))"

section \<open>The store and the flag\<close>

definition FTUE_DONE_STATION_NUMBER :: int where "FTUE_DONE_STATION_NUMBER = 14"

text \<open>What sqlite3\_step returns: a row, with the bytes of its second column and the malloc buffer of
  the conversion; the end; an error.\<close>

datatype sql_step = SQL_ROW "8 word list" "string option" | SQL_DONE | SQL_ERROR

text \<open>The do loop: the return status; a flag file is opened exactly when it is True.  A row that
  cannot be converted leaves the status of the step and the loop goes on.\<close>

fun step_rows :: "sql_step list \<Rightarrow> bool" where
  "step_rows (SQL_ROW blob heap # steps) =
     (case convert_text_encoding2 blob heap of
        Some text \<Rightarrow> get_last_station text = FTUE_DONE_STATION_NUMBER
      | None \<Rightarrow> step_rows steps)"
| "step_rows _ = False"

record ftue =
  ftue_flag_file :: bool
  deferred_jobs :: nat

text \<open>The arguments: whether the database opens, whether the query prepares, the rows, whether the
  flag file can be created.\<close>

definition set_ftue_status_from_ra_store ::
    "bool \<Rightarrow> bool \<Rightarrow> sql_step list \<Rightarrow> bool \<Rightarrow> ftue \<Rightarrow> ftue \<times> bool" where
  "set_ftue_status_from_ra_store opens prepares steps creates s =
     (if \<not> opens then (s, False)
      else if \<not> prepares then (s, False)
      else if step_rows steps
      then (s\<lparr>ftue_flag_file := ftue_flag_file s \<or> creates\<rparr>, True)
      else (s, False))"

definition isTVOperatingInFactory :: "ftue \<Rightarrow> ftue \<times> bool" where
  "isTVOperatingInFactory s =
     (if ftue_flag_file s then (s, False) else (s\<lparr>deferred_jobs := deferred_jobs s + 1\<rparr>, True))"

text \<open>One run of the deferred callback: it is removed when it has seen the end of the FTUE.\<close>

definition deferred_callback :: "bool \<Rightarrow> bool \<Rightarrow> sql_step list \<Rightarrow> bool \<Rightarrow> ftue \<Rightarrow> ftue" where
  "deferred_callback opens prepares steps creates s =
     (if deferred_jobs s = 0 then s
      else (let (s, done) = set_ftue_status_from_ra_store opens prepares steps creates s
            in if done then s\<lparr>deferred_jobs := deferred_jobs s - 1\<rparr> else s))"

datatype ftue_input = Ask_factory | Run_job bool bool "sql_step list" bool

fun ftue_step :: "ftue_input \<Rightarrow> ftue \<Rightarrow> ftue \<times> bool list" where
  "ftue_step Ask_factory s = (let (s, r) = isTVOperatingInFactory s in (s, [r]))"
| "ftue_step (Run_job opens prepares steps creates) s =
     (deferred_callback opens prepares steps creates s, [])"

section \<open>Lemmas\<close>

definition printable :: "string \<Rightarrow> bool" where
  "printable s = list_all (\<lambda>c. 0x20 \<le> (of_char c :: nat) \<and> (of_char c :: nat) \<le> 0x7E) s"

fun utf16le :: "string \<Rightarrow> 8 word list" where
  "utf16le [] = []"
| "utf16le (c # cs) = of_nat (of_char c) # 0 # utf16le cs"

lemma utf16le_length [simp]: "length (utf16le s) = 2 * length s"
  by (induction s) simp_all

lemma byte_of_char: "unat (of_nat (of_char c) :: 8 word) = of_char c"
proof -
  have "(of_char c :: nat) < 256" by simp
  then show ?thesis by (simp add: unat_of_nat take_bit_eq_mod)
qed

lemma ascii_of_utf16le: "printable s \<Longrightarrow> ascii_of_pairs (utf16le s) = s"
proof (induction s)
  case (Cons c cs)
  let ?b = "of_nat (of_char c) :: 8 word"
  from Cons.prems have "0x20 \<le> unat ?b" "unat ?b \<le> 0x7E" and cs: "printable cs"
    by (simp_all add: printable_def byte_of_char)
  then have "0x20 \<le> ?b" "?b \<le> 0x7E" by (simp_all add: word_le_nat_alt)
  with Cons.IH [OF cs] show ?case by (simp add: byte_of_char)
qed simp

lemma printable_no_NUL: "printable s \<Longrightarrow> takeWhile (\<lambda>c. c \<noteq> NUL) s = s"
proof -
  have "(of_char NUL :: nat) = 0" by (simp add: NUL_def)
  then have "0x20 \<le> (of_char c :: nat) \<Longrightarrow> c \<noteq> NUL" for c by auto
  then show "printable s \<Longrightarrow> takeWhile (\<lambda>c. c \<noteq> NUL) s = s"
    by (simp add: printable_def list_all_iff takeWhile_eq_all_conv)
qed

lemma convert_utf16le:
  assumes "printable s" and "length s \<le> MAX_BUFFER_SIZE"
  shows "convert_text_encoding2 (utf16le s) (Some junk) = Some s"
proof -
  have "min (length (utf16le s) div 2) MAX_BUFFER_SIZE = length s" using assms(2) by simp
  then show ?thesis
    by (simp add: convert_text_encoding2_def ascii_of_utf16le [OF assms(1)] printable_no_NUL [OF assms(1)]
        del: ascii_of_pairs.simps takeWhile_eq_all_conv)
qed

text \<open>The number is found by the comma behind it, which need not be next to it: stoi stops at the
  first character that is no digit.\<close>

lemma get_last_station_reads:
  assumes "str_find search_pattern (pre @ search_pattern @ decimal n @ post) = Some (length pre)"
    and "n < 2 ^ 31" and "post = [] \<or> \<not> c_isdigit (hd post)"
  shows "get_last_station (pre @ search_pattern @ decimal n @ post)
       = (if CHR '','' \<in> set post then int n else -1)"
proof -
  let ?t = "pre @ search_pattern @ decimal n @ post" and ?i = "length pre + length search_pattern"
  have no: "CHR '','' \<notin> set (decimal n)" using decimal_digits digit_char_props(6) by metis
  have drop: "drop ?i ?t = decimal n @ post" by simp
  show ?thesis
  proof (cases "CHR '','' \<in> set post")
    case True
    then obtain xs ys where post: "post = xs @ CHR '','' # ys" and xs: "CHR '','' \<notin> set xs"
      by (meson split_list_first)
    have "CHR '','' \<notin> set (decimal n @ xs)" using no xs by simp
    from str_find_char [OF this, of ys] have "str_find_from '','' ?i ?t = Some (?i + length (decimal n @ xs))"
      using drop by (simp add: str_find_from_def post)
    moreover have "take (length (decimal n @ xs)) (drop ?i ?t) = decimal n @ xs" by (simp add: post)
    moreover have "xs = [] \<or> \<not> c_isdigit (hd xs)" using assms(3) by (cases xs) (simp_all add: post)
    then have "stoi (decimal n @ xs) = Some (int n)" by (rule stoi_decimal [OF assms(2)])
    ultimately show ?thesis using assms(1) True by (simp add: get_last_station_def)
  next
    case False
    with no have "str_find_from '','' ?i ?t = None"
      using drop by (simp add: str_find_from_def str_find_None_char)
    with False assms(1) show ?thesis by (simp add: get_last_station_def)
  qed
qed

text \<open>The flag is never removed.\<close>

lemma ftue_step_flag: "ftue_flag_file s \<Longrightarrow> ftue_flag_file (fst (ftue_step i s))"
  by (cases i) (auto simp: isTVOperatingInFactory_def deferred_callback_def
      set_ftue_status_from_ra_store_def Let_def)

lemma ftue_run_done:
  "ftue_flag_file s \<Longrightarrow> list_all Not (snd (run_trace ftue_step is s))"
proof (induction "is" arbitrary: s)
  case (Cons i "is")
  have "list_all Not (snd (ftue_step i s))"
    using Cons.prems by (cases i) (simp_all add: isTVOperatingInFactory_def)
  with Cons.IH [OF ftue_step_flag [OF Cons.prems]] show ?case
    by (simp add: snd_run_trace_Cons del: run_trace.simps)
qed simp

text \<open>What an earlier conversion left in the heap decides the answer for a text of characters that are
  not ASCII.\<close>

lemma heap_decides:
  fixes content :: string
  assumes "content = search_pattern @ ''14,''"
  shows "step_rows [SQL_ROW (concat (replicate (length content) [0, 1])) (Some content)]
     \<noteq> step_rows [SQL_ROW (concat (replicate (length content) [0, 1])) (Some (replicate (length content) NUL))]"
proof -
  have skip: "ascii_of_pairs (concat (replicate n [0, 1])) = []" for n by (induction n) simp_all
  have len: "length (concat (replicate n [0, 1 :: 8 word])) = 2 * n" for n by (induction n) simp_all
  have "printable content" by (simp add: assms search_pattern_def printable_def)
  then have "convert_text_encoding2 (concat (replicate (length content) [0, 1])) (Some content) = Some content"
    by (simp add: convert_text_encoding2_def len skip assms search_pattern_def MAX_BUFFER_SIZE_def
        NUL_def)
  moreover have "convert_text_encoding2 (concat (replicate (length content) [0, 1]))
      (Some (replicate (length content) NUL)) = Some []"
    by (simp add: convert_text_encoding2_def len skip assms search_pattern_def MAX_BUFFER_SIZE_def
        takeWhile_replicate)
  moreover have "get_last_station content = 14" and "get_last_station [] = -1"
    by (simp_all add: assms get_last_station_def search_pattern_def str_find_from_def starts_with_def
        stoi_def c_isspace_def c_isdigit_def digits_value_def c_digit_def int_or_throw_def)
  ultimately show ?thesis by (simp add: FTUE_DONE_STATION_NUMBER_def)
qed

section \<open>Properties\<close>

text \<open>C33. The factory answer follows the store.  The resident application stores, as the first row of
  the query, a printable text of at most 1024 characters, in UTF-16, whose first lastStation entry
  is the number n (below 2 to the 31, and not directly followed by a further digit).  When the
  deferred job reads it (a job is pending, the database opens, the conversion gets its buffer, the
  flag can be created), the flag file exists afterwards if and only if it did before, or n is 14
  and some comma follows the number in the text; in that case the TV is not in the factory for any
  later question, whatever later jobs read.  The comma matters: the code looks for it to find the
  end of the number, so of a text whose last entry is lastStation it reads -1 and the TV stays in
  the factory even if the number is 14.\<close>

theorem factory_answer_follows_store:
  assumes "content = pre @ search_pattern @ decimal n @ post"
    and "str_find search_pattern content = Some (length pre)"
    and "post = [] \<or> \<not> c_isdigit (hd post)"
    and "printable content" and "length content \<le> MAX_BUFFER_SIZE" and "n < 2 ^ 31"
    and "0 < deferred_jobs s"
    and "s' = fst (ftue_step (Run_job True True (SQL_ROW (utf16le content) (Some junk) # steps) True) s)"
  shows "(ftue_flag_file s' \<longleftrightarrow> ftue_flag_file s \<or> n = 14 \<and> CHR '','' \<in> set post)
       \<and> (n = 14 \<and> CHR '','' \<in> set post \<longrightarrow> list_all Not (snd (run_trace ftue_step is s')))"
proof -
  have "get_last_station content = (if CHR '','' \<in> set post then int n else -1)"
    using get_last_station_reads [OF _ assms(6,3)] assms(1,2) by simp
  then have "step_rows (SQL_ROW (utf16le content) (Some junk) # steps) = (n = 14 \<and> CHR '','' \<in> set post)"
    by (simp add: convert_utf16le assms(4,5) FTUE_DONE_STATION_NUMBER_def)
  then have "ftue_flag_file s' \<longleftrightarrow> ftue_flag_file s \<or> n = 14 \<and> CHR '','' \<in> set post"
    using assms(7,8) by (auto simp: deferred_callback_def set_ftue_status_from_ra_store_def)
  then show ?thesis using ftue_run_done [of s' "is"] by simp
qed

text \<open>The job of a TV whose user has finished.\<close>

definition ftue_text :: string where
  "ftue_text = ''x'' @ search_pattern @ ''14,y''"

theorem factory_answer_follows_store_witness:
  "snd (run_trace ftue_step
     [Ask_factory, Run_job True True [SQL_ROW (utf16le ftue_text) (Some [])] True, Ask_factory]
     \<lparr>ftue_flag_file = False, deferred_jobs = 0\<rparr>) = [True, False]"
proof -
  let ?s = "\<lparr>ftue_flag_file = False, deferred_jobs = 1\<rparr>"
  let ?s' = "fst (ftue_step (Run_job True True [SQL_ROW (utf16le ftue_text) (Some [])] True) ?s)"
  have dec: "decimal 14 = ''14''" by code_simp
  have content: "ftue_text = ''x'' @ search_pattern @ decimal 14 @ '',y''"
    by (simp add: ftue_text_def dec)
  have find: "str_find search_pattern ftue_text = Some (length ''x'')"
    by (simp add: ftue_text_def search_pattern_def starts_with_def)
  have "list_all Not (snd (run_trace ftue_step [Ask_factory] ?s'))"
    by (rule factory_answer_follows_store [OF content find, THEN conjunct2, THEN mp])
       (simp_all add: ftue_text_def search_pattern_def printable_def MAX_BUFFER_SIZE_def c_isdigit_def)
  then have "snd (run_trace ftue_step [Ask_factory] ?s') = [False]"
    by (simp add: isTVOperatingInFactory_def split: if_splits)
  then show ?thesis by (simp add: isTVOperatingInFactory_def snd_run_trace_Cons Let_def del: run_trace.simps(2))
qed

end
