(* ===== verification/Json_Parser.thy ===== *)
theory Json_Parser
  imports Iarm_Prelude
begin

text \<open>
  The JSON reader of the device update manager: deviceUpdateMgr/jsonParser.cpp and jsonParser.h
  (vrexmgr has the same class).  The scanner is the library yajl: the callbacks it makes are a list
  of events, the input of the model.  The parser builds a flat dictionary of variant values; the
  elements of an array are appended through a pointer that the dictionary, the enclosing array and
  the parser share, so arrays live in an explicit store from addresses to lists.
\<close>

section \<open>The parser\<close>

record varVal =
  vv_str :: string
  vv_array :: "nat option"
  vv_boolean :: bool

definition new_varVal :: varVal where
  "new_varVal = \<lparr>vv_str = '''', vv_array = None, vv_boolean = False\<rparr>"

record json_parser =
  m_curKey :: string
  m_dict :: "string \<rightharpoonup> varVal"
  m_arrays :: "nat list"
  m_array :: "nat option"
  array_store :: "nat \<Rightarrow> varVal list"
  next_array :: nat

definition JSONParser :: json_parser where
  "JSONParser = \<lparr>m_curKey = '''', m_dict = Map.empty, m_arrays = [], m_array = None,
     array_store = (\<lambda>_. []), next_array = 0\<rparr>"

definition push_back :: "nat \<Rightarrow> varVal \<Rightarrow> json_parser \<Rightarrow> json_parser" where
  "push_back a vv p = p\<lparr>array_store := (array_store p)(a := array_store p a @ [vv])\<rparr>"

definition put_value :: "varVal \<Rightarrow> json_parser \<Rightarrow> json_parser" where
  "put_value vv p =
     (case m_array p of
        Some a \<Rightarrow> push_back a vv p
      | None \<Rightarrow> p\<lparr>m_dict := (m_dict p)(m_curKey p \<mapsto> vv)\<rparr>)"

definition newKey :: "string \<Rightarrow> json_parser \<Rightarrow> json_parser" where
  "newKey k p = p\<lparr>m_curKey := k\<rparr>"

definition newString :: "string \<Rightarrow> json_parser \<Rightarrow> json_parser" where
  "newString s p = put_value (new_varVal\<lparr>vv_str := s\<rparr>) p"

definition newBool :: "bool \<Rightarrow> json_parser \<Rightarrow> json_parser" where
  "newBool b p = put_value (new_varVal\<lparr>vv_boolean := b\<rparr>) p"

text \<open>A null goes into the dictionary, in an array too.\<close>

definition newNull :: "json_parser \<Rightarrow> json_parser" where
  "newNull p = p\<lparr>m_dict := (m_dict p)(m_curKey p \<mapsto> new_varVal)\<rparr>"

definition newArray :: "json_parser \<Rightarrow> json_parser" where
  "newArray p =
     (let a = next_array p;
          vv = new_varVal\<lparr>vv_array := Some a\<rparr>;
          p = p\<lparr>next_array := a + 1, array_store := (array_store p)(a := [])\<rparr>
      in case m_array p of
           Some outer \<Rightarrow> (push_back outer vv p)\<lparr>m_arrays := outer # m_arrays p, m_array := Some a\<rparr>
         | None \<Rightarrow> p\<lparr>m_dict := (m_dict p)(m_curKey p \<mapsto> vv), m_array := Some a\<rparr>)"

definition endArray :: "json_parser \<Rightarrow> json_parser" where
  "endArray p =
     (case m_arrays p of
        a # as \<Rightarrow> p\<lparr>m_array := Some a, m_arrays := as\<rparr>
      | [] \<Rightarrow> p\<lparr>m_array := None\<rparr>)"

datatype yajl_event =
    Y_null | Y_boolean bool | Y_number string | Y_string string
  | Y_start_map | Y_map_key string | Y_end_map | Y_start_array | Y_end_array

definition parse_string :: "string \<Rightarrow> json_parser \<Rightarrow> json_parser" where
  "parse_string s p =
     (if s = ''true'' \<or> s = ''false'' then newBool (s = ''true'') p else newString s p)"

fun yajl_callback :: "yajl_event \<Rightarrow> json_parser \<Rightarrow> json_parser" where
  "yajl_callback Y_null p = newNull p"
| "yajl_callback (Y_boolean b) p = newBool b p"
| "yajl_callback (Y_number s) p = newString s p"
| "yajl_callback (Y_string s) p = parse_string s p"
| "yajl_callback (Y_map_key k) p = newKey k p"
| "yajl_callback Y_start_array p = newArray p"
| "yajl_callback Y_end_array p = endArray p"
| "yajl_callback _ p = p"

definition parse :: "yajl_event list \<Rightarrow> json_parser" where
  "parse es = fold yajl_callback es JSONParser"

section \<open>JSON texts and what they denote\<close>

datatype json = J_str string | J_bool bool | J_num string | J_arr "json list"

fun events_of :: "json \<Rightarrow> yajl_event list" where
  "events_of (J_str s) = [Y_string s]"
| "events_of (J_bool b) = [Y_boolean b]"
| "events_of (J_num s) = [Y_number s]"
| "events_of (J_arr js) = Y_start_array # concat (map events_of js) @ [Y_end_array]"

definition events_of_object :: "(string \<times> json) list \<Rightarrow> yajl_event list" where
  "events_of_object kvs =
     Y_start_map # concat (map (\<lambda>(k, v). Y_map_key k # events_of v) kvs) @ [Y_end_map]"

text \<open>A value in the store denotes a JSON value, with its arrays at addresses from lo up to hi.\<close>

fun denotes :: "nat \<Rightarrow> nat \<Rightarrow> (nat \<Rightarrow> varVal list) \<Rightarrow> varVal \<Rightarrow> json \<Rightarrow> bool" where
  "denotes lo hi st vv (J_str s) =
     (vv = (if s = ''true'' \<or> s = ''false'' then new_varVal\<lparr>vv_boolean := (s = ''true'')\<rparr>
            else new_varVal\<lparr>vv_str := s\<rparr>))"
| "denotes lo hi st vv (J_bool b) = (vv = new_varVal\<lparr>vv_boolean := b\<rparr>)"
| "denotes lo hi st vv (J_num s) = (vv = new_varVal\<lparr>vv_str := s\<rparr>)"
| "denotes lo hi st vv (J_arr js) =
     (\<exists>a. vv = new_varVal\<lparr>vv_array := Some a\<rparr> \<and> lo \<le> a \<and> a < hi \<and> list_all2 (denotes lo hi st) (st a) js)"

section \<open>Lemmas\<close>

lemma denotes_frame:
  assumes "denotes lo hi st vv j" and "lo' \<le> lo" and "hi \<le> hi'"
    and "\<And>a. lo \<le> a \<Longrightarrow> a < hi \<Longrightarrow> st' a = st a"
  shows "denotes lo' hi' st' vv j"
  using assms(1)
proof (induction j arbitrary: vv)
  case (J_arr js)
  then obtain a where a: "vv = new_varVal\<lparr>vv_array := Some a\<rparr>" "lo \<le> a" "a < hi"
    "list_all2 (denotes lo hi st) (st a) js" by auto
  have "list_all2 (denotes lo' hi' st') (st a) js"
    using a(4) J_arr.IH by (auto simp: list_all2_conv_all_nth)
  with a assms(2-4) show ?case by auto
qed simp_all

text \<open>The parser between two values: the current array and the enclosing ones are allocated, and
  without a current array there is none enclosing.\<close>

definition parser_ok :: "json_parser \<Rightarrow> bool" where
  "parser_ok p = ((m_array p = None \<longrightarrow> m_arrays p = []) \<and> (\<forall>a. m_array p = Some a \<longrightarrow> a < next_array p)
     \<and> (\<forall>a\<in>set (m_arrays p). a < next_array p))"

text \<open>What one value does: p' is p with the value put, in newly allocated addresses.\<close>

definition puts :: "json_parser \<Rightarrow> json_parser \<Rightarrow> varVal \<Rightarrow> json \<Rightarrow> bool" where
  "puts p p' vv j =
     (m_curKey p' = m_curKey p \<and> m_array p' = m_array p \<and> m_arrays p' = m_arrays p
    \<and> next_array p \<le> next_array p'
    \<and> m_dict p' = (if m_array p = None then (m_dict p)(m_curKey p \<mapsto> vv) else m_dict p)
    \<and> (\<forall>a < next_array p. array_store p' a =
          (if m_array p = Some a then array_store p a @ [vv] else array_store p a))
    \<and> denotes (next_array p) (next_array p') (array_store p') vv j)"

lemma puts_parser_ok: "parser_ok p \<Longrightarrow> puts p p' vv j \<Longrightarrow> parser_ok p'"
  by (fastforce simp: parser_ok_def puts_def)

lemma puts_scalar:
  assumes "denotes (next_array p) (next_array p) (array_store (put_value vv p)) vv j"
  shows "puts p (put_value vv p) vv j"
  using assms by (auto simp: puts_def put_value_def push_back_def split: option.splits)

text \<open>The elements of an array, appended one after another to the current array.\<close>

lemma puts_elements:
  assumes "\<And>j p. j \<in> set js \<Longrightarrow> parser_ok p \<Longrightarrow> \<exists>vv. puts p (fold yajl_callback (events_of j) p) vv j"
    and "parser_ok p" and "m_array p = Some a"
  shows "\<exists>vvs. let p' = fold yajl_callback (concat (map events_of js)) p in
      m_curKey p' = m_curKey p \<and> m_array p' = m_array p \<and> m_arrays p' = m_arrays p
    \<and> m_dict p' = m_dict p \<and> next_array p \<le> next_array p'
    \<and> (\<forall>b < next_array p. array_store p' b = (if b = a then array_store p a @ vvs else array_store p b))
    \<and> list_all2 (denotes (next_array p) (next_array p') (array_store p')) vvs js"
  using assms
proof (induction js arbitrary: p)
  case Nil
  then show ?case by (intro exI [of _ "[]"]) simp
next
  case (Cons j js)
  define q where "q = fold yajl_callback (events_of j) p"
  obtain vv where vv: "puts p q vv j" using Cons.prems(1) [of j p] Cons.prems(2) by (auto simp: q_def)
  have ok: "parser_ok q" using puts_parser_ok [OF Cons.prems(2) vv] .
  have qa: "m_array q = Some a" and a: "a < next_array p"
    using vv Cons.prems(2,3) by (auto simp: puts_def parser_ok_def)
  define p' where "p' = fold yajl_callback (concat (map events_of js)) q"
  obtain vvs where vvs: "m_curKey p' = m_curKey q" "m_array p' = m_array q" "m_arrays p' = m_arrays q"
      "m_dict p' = m_dict q" "next_array q \<le> next_array p'"
      "\<And>b. b < next_array q \<Longrightarrow> array_store p' b = (if b = a then array_store q a @ vvs else array_store q b)"
      "list_all2 (denotes (next_array q) (next_array p') (array_store p')) vvs js"
    using Cons.IH [OF Cons.prems(1) ok qa] by (auto simp: Let_def p'_def)
  have "denotes (next_array p) (next_array p') (array_store p') vv j"
    by (rule denotes_frame [of "next_array p" "next_array q" "array_store q"])
       (use vv vvs(5,6) a in \<open>auto simp: puts_def\<close>)
  moreover have "list_all2 (denotes (next_array p) (next_array p') (array_store p')) vvs js"
    using vvs(7) by (rule list_all2_mono) (use vv in \<open>auto simp: puts_def intro: denotes_frame\<close>)
  moreover have "array_store p' b = (if b = a then array_store p a @ vv # vvs else array_store p b)"
    if "b < next_array p" for b
    using that vv vvs(6) [of b] a Cons.prems(3) by (auto simp: puts_def)
  ultimately show ?case
    using vv vvs(1-5) Cons.prems(3)
    by (intro exI [of _ "vv # vvs"]) (simp add: Let_def q_def [symmetric] p'_def [symmetric] puts_def)
qed

lemma events_put:
  assumes "parser_ok p"
  shows "\<exists>vv. puts p (fold yajl_callback (events_of j) p) vv j"
  using assms
proof (induction j arbitrary: p)
  case (J_str s)
  let ?vv = "if s = ''true'' \<or> s = ''false'' then new_varVal\<lparr>vv_boolean := (s = ''true'')\<rparr>
             else new_varVal\<lparr>vv_str := s\<rparr>"
  have "fold yajl_callback (events_of (J_str s)) p = put_value ?vv p"
    by (simp add: parse_string_def newBool_def newString_def)
  moreover have "puts p (put_value ?vv p) ?vv (J_str s)" by (rule puts_scalar) simp
  ultimately show ?case by metis
next
  case (J_bool b)
  show ?case by (auto simp: newBool_def intro!: exI puts_scalar)
next
  case (J_num s)
  show ?case by (auto simp: newString_def intro!: exI puts_scalar)
next
  case (J_arr js)
  let ?a = "next_array p"
  let ?vv = "new_varVal\<lparr>vv_array := Some ?a\<rparr>"
  define q where "q = newArray p"
  have q: "m_array q = Some ?a" "next_array q = ?a + 1" "array_store q ?a = []" "m_curKey q = m_curKey p"
      "m_arrays q = (case m_array p of None \<Rightarrow> m_arrays p | Some o' \<Rightarrow> o' # m_arrays p)"
      "m_dict q = (if m_array p = None then (m_dict p)(m_curKey p \<mapsto> ?vv) else m_dict p)"
      "\<And>b. b < ?a \<Longrightarrow> array_store q b =
         (if m_array p = Some b then array_store p b @ [?vv] else array_store p b)"
    using J_arr.prems by (auto simp: q_def newArray_def Let_def push_back_def parser_ok_def split: option.splits)
  have ok: "parser_ok q"
    using J_arr.prems q(1,2,5) by (auto simp: parser_ok_def split: option.splits)
  define r where "r = fold yajl_callback (concat (map events_of js)) q"
  obtain vvs where r: "m_curKey r = m_curKey q" "m_array r = m_array q" "m_arrays r = m_arrays q"
      "m_dict r = m_dict q" "next_array q \<le> next_array r"
      "\<And>b. b < next_array q \<Longrightarrow> array_store r b = (if b = ?a then array_store q ?a @ vvs else array_store q b)"
      "list_all2 (denotes (next_array q) (next_array r) (array_store r)) vvs js"
    using puts_elements [OF J_arr.IH ok q(1)] by (auto simp: Let_def r_def)
  define e where "e = endArray r"
  have e: "m_array e = m_array p" "m_arrays e = m_arrays p" "m_curKey e = m_curKey p" "m_dict e = m_dict q"
      "next_array e = next_array r" "array_store e = array_store r"
    using J_arr.prems r(1-4) q(1,4,5) by (auto simp: e_def endArray_def parser_ok_def split: option.splits list.splits)
  have "list_all2 (denotes ?a (next_array r) (array_store r)) vvs js"
    using r(7) by (rule list_all2_mono) (use q(2) in \<open>auto intro: denotes_frame\<close>)
  then have "puts p e ?vv (J_arr js)"
    using q r(5,6) e by (auto simp: puts_def)
  moreover have "fold yajl_callback (events_of (J_arr js)) p = e"
    by (simp add: e_def r_def q_def)
  ultimately show ?case by auto
qed

section \<open>Properties\<close>

text \<open>The value of a key in the text is the last one.\<close>

definition json_lookup :: "(string \<times> json) list \<Rightarrow> string \<Rightarrow> json option" where
  "json_lookup kvs k = map_of (rev kvs) k"

lemma parse_entries:
  assumes "parser_ok p" and "m_array p = None" and "array_store p = st"
  shows "let p' = fold yajl_callback (concat (map (\<lambda>(k, v). Y_map_key k # events_of v) kvs)) p in
      parser_ok p' \<and> m_array p' = None \<and> next_array p \<le> next_array p'
    \<and> (\<forall>a < next_array p. array_store p' a = st a)
    \<and> (\<forall>k. case json_lookup kvs k of
          None \<Rightarrow> m_dict p' k = m_dict p k
        | Some v \<Rightarrow> \<exists>vv. m_dict p' k = Some vv \<and> denotes (next_array p) (next_array p') (array_store p') vv v)"
  using assms
proof (induction kvs arbitrary: p st rule: rev_induct)
  case Nil
  then show ?case by (simp add: json_lookup_def)
next
  case (snoc kv kvs)
  obtain k v where kv: "kv = (k, v)" by fastforce
  define q where "q = fold yajl_callback (concat (map (\<lambda>(k, v). Y_map_key k # events_of v) kvs)) p"
  note IH = snoc.IH [OF snoc.prems, folded q_def, unfolded Let_def]
  define q' where "q' = newKey k q"
  have q': "parser_ok q'" "m_array q' = None" "next_array q' = next_array q" "m_dict q' = m_dict q"
      "array_store q' = array_store q" "m_curKey q' = k"
    using IH by (auto simp: q'_def newKey_def parser_ok_def)
  define r where "r = fold yajl_callback (events_of v) q'"
  obtain vv where vv: "puts q' r vv v" using events_put [OF q'(1)] by (auto simp: r_def)
  have fold: "fold yajl_callback (concat (map (\<lambda>(k, v). Y_map_key k # events_of v) (kvs @ [kv]))) p = r"
    by (simp add: kv r_def q'_def q_def)
  have lookup: "json_lookup (kvs @ [kv]) k' = (if k' = k then Some v else json_lookup kvs k')" for k'
    by (simp add: json_lookup_def kv)
  have stable: "array_store r a = array_store q a" if "a < next_array q" for a
    using that vv q' by (auto simp: puts_def)
  have old: "denotes (next_array p) (next_array r) (array_store r) w u"
    if "denotes (next_array p) (next_array q) (array_store q) w u" for w u
    by (rule denotes_frame [OF that]) (use vv q'(3) stable in \<open>auto simp: puts_def\<close>)
  have new: "denotes (next_array p) (next_array r) (array_store r) vv v"
    by (rule denotes_frame [of "next_array q'" "next_array r" "array_store r"])
       (use vv q'(3) IH in \<open>auto simp: puts_def\<close>)
  have dict: "m_dict r = (m_dict q)(k \<mapsto> vv)" using vv q' by (simp add: puts_def)
  have "case json_lookup (kvs @ [kv]) k' of
          None \<Rightarrow> m_dict r k' = m_dict p k'
        | Some u \<Rightarrow> \<exists>w. m_dict r k' = Some w \<and> denotes (next_array p) (next_array r) (array_store r) w u" for k'
  proof -
    from IH have "case json_lookup kvs k' of
          None \<Rightarrow> m_dict q k' = m_dict p k'
        | Some u \<Rightarrow> \<exists>w. m_dict q k' = Some w
            \<and> denotes (next_array p) (next_array q) (array_store q) w u" by blast
    with new old show ?thesis unfolding lookup dict by (cases "k' = k") (auto split: option.splits)
  qed
  moreover have "parser_ok r" using puts_parser_ok [OF q'(1) vv] .
  moreover have "m_array r = None" and "next_array p \<le> next_array r"
    and "\<forall>a < next_array p. array_store r a = st a"
    using IH vv q' stable by (auto simp: puts_def)
  ultimately show ?case unfolding fold Let_def by blast
qed

text \<open>C25. Reading back a configuration.  For every object whose values are strings, numbers, booleans
  and arrays of such to any depth, the dictionary the parser builds has exactly the keys of the
  object, and each value denotes the last one given for its key: the strings true and false as
  booleans, numbers as their text, arrays element by element through the store.\<close>

theorem json_object_reads_back:
  "case json_lookup kvs k of
     None \<Rightarrow> m_dict (parse (events_of_object kvs)) k = None
   | Some v \<Rightarrow> \<exists>vv. m_dict (parse (events_of_object kvs)) k = Some vv
       \<and> denotes 0 (next_array (parse (events_of_object kvs))) (array_store (parse (events_of_object kvs))) vv v"
proof -
  have init: "parser_ok JSONParser" "m_array JSONParser = None"
    by (simp_all add: parser_ok_def JSONParser_def)
  have parse: "parse (events_of_object kvs)
      = fold yajl_callback (concat (map (\<lambda>(k, v). Y_map_key k # events_of v) kvs)) JSONParser"
    by (simp add: parse_def events_of_object_def)
  from parse_entries [OF init refl, of kvs, unfolded Let_def, folded parse]
  have "case json_lookup kvs k of
      None \<Rightarrow> m_dict (parse (events_of_object kvs)) k = m_dict JSONParser k
    | Some v \<Rightarrow> \<exists>vv. m_dict (parse (events_of_object kvs)) k = Some vv
        \<and> denotes (next_array JSONParser) (next_array (parse (events_of_object kvs)))
            (array_store (parse (events_of_object kvs))) vv v" by blast
  then show ?thesis by (simp add: JSONParser_def split: option.splits)
qed

text \<open>A null in an array replaces the array in the dictionary.\<close>

lemma null_replaces_array:
  "m_dict (parse [Y_start_map, Y_map_key k, Y_start_array, Y_string s, Y_null, Y_end_array, Y_end_map]) k
     = Some new_varVal"
  by (simp add: parse_def JSONParser_def newKey_def newArray_def newNull_def endArray_def Let_def
      parse_string_def newBool_def newString_def put_value_def push_back_def)

end
