(* ===== verification/Device_Update.thy ===== *)
theory Device_Update
  imports Json_Parser Text_Search Slot_Store
begin

text \<open>
  The device update manager: deviceUpdateMgr/deviceUpdateMgrMain.cpp and utils.cpp.  It reads its
  configuration, announces once per run the images it finds in the folders to watch, hands out
  update sessions and answers the events of the device update proxies.  The file system (which
  files exist, the mode that stat returns, directory entries, what tar unpacks), the tokens yajl
  finds in a text, the day and the hour are inputs.  An uncaught exception, a division by zero or a
  dereference of end () ends the process: the answer is None, or the flag alive is False.
\<close>

section \<open>Configuration\<close>

record du_config =
  serverUpdatePath :: string
  tempFilePath :: string
  forceUpdate :: bool
  interactiveDownload :: bool
  interactiveLoad :: bool
  loadDelayType :: int
  loadTimeAfterInactive :: int
  timeToLoad :: int
  backgroundDownload :: bool
  loadImageImmediately :: bool
  loadBeforeHour :: int
  requestedPercentIncrement :: int
  recheckForUpdatesMin :: int
  delayTillAnnounceTimeMin :: int
  oneAnnouncePerRun :: bool

definition du_defaults :: du_config where
  "du_defaults = \<lparr>serverUpdatePath = ''/srv/device_update/'', tempFilePath = ''/tmp/devUpdate/'',
     forceUpdate = False, interactiveDownload = False, interactiveLoad = False, loadDelayType = 0,
     loadTimeAfterInactive = 0, timeToLoad = 0, backgroundDownload = True,
     loadImageImmediately = False, loadBeforeHour = 4, requestedPercentIncrement = 10,
     recheckForUpdatesMin = 0, delayTillAnnounceTimeMin = 10, oneAnnouncePerRun = False\<rparr>"

definition conf_name :: string where
  "conf_name = ''deviceUpdateConfig.json''"

definition conf_path :: "(string \<Rightarrow> bool) \<Rightarrow> string option" where
  "conf_path file_exists =
     find file_exists [''/opt/'' @ conf_name, ''/mnt/nfs/env/'' @ conf_name, ''/etc/'' @ conf_name, conf_name]"

definition when_set :: "(string \<rightharpoonup> varVal) \<Rightarrow> string \<Rightarrow> (varVal \<Rightarrow> du_config \<Rightarrow> du_config) \<Rightarrow> du_config \<Rightarrow> du_config" where
  "when_set d k f c = (case d k of Some vv \<Rightarrow> f vv c | None \<Rightarrow> c)"

definition apply_config :: "(string \<rightharpoonup> varVal) \<Rightarrow> du_config \<Rightarrow> du_config" where
  "apply_config d c =
     (let c = when_set d ''serverUpdatePath'' (\<lambda>v c. c\<lparr>serverUpdatePath := vv_str v\<rparr>) c;
          c = when_set d ''tempFilePath'' (\<lambda>v c. c\<lparr>tempFilePath := vv_str v\<rparr>) c;
          c = when_set d ''forceUpdate'' (\<lambda>v c. c\<lparr>forceUpdate := vv_boolean v\<rparr>) c;
          c = when_set d ''interactiveDownload'' (\<lambda>v c. c\<lparr>interactiveDownload := vv_boolean v\<rparr>) c;
          c = when_set d ''interactiveLoad'' (\<lambda>v c. c\<lparr>interactiveLoad := vv_boolean v\<rparr>) c;
          c = when_set d ''loadDelayType'' (\<lambda>v c. c\<lparr>loadDelayType := atoi (vv_str v)\<rparr>) c;
          c = when_set d ''loadTimeAfterInactive'' (\<lambda>v c. c\<lparr>loadTimeAfterInactive := atoi (vv_str v)\<rparr>) c;
          c = when_set d ''timeToLoad'' (\<lambda>v c. c\<lparr>timeToLoad := atoi (vv_str v)\<rparr>) c;
          c = when_set d ''backgroundDownload'' (\<lambda>v c. c\<lparr>backgroundDownload := vv_boolean v\<rparr>) c;
          c = when_set d ''loadImageImmediately'' (\<lambda>v c. c\<lparr>loadImageImmediately := vv_boolean v\<rparr>) c;
          c = when_set d ''loadBeforeHour'' (\<lambda>v c. c\<lparr>loadBeforeHour := atoi (vv_str v)\<rparr>) c;
          c = when_set d ''requestedPercentIncrement'' (\<lambda>v c. c\<lparr>requestedPercentIncrement := atoi (vv_str v)\<rparr>) c;
          c = when_set d ''recheckForUpdatesMin'' (\<lambda>v c. c\<lparr>recheckForUpdatesMin := atoi (vv_str v)\<rparr>) c;
          c = when_set d ''delayTillAnnounceTimeMin'' (\<lambda>v c. c\<lparr>delayTillAnnounceTimeMin := atoi (vv_str v)\<rparr>) c
      in when_set d ''oneAnnouncePerRun'' (\<lambda>v c. c\<lparr>oneAnnouncePerRun := vv_boolean v\<rparr>) c)"

text \<open>read\_file: what fopen gives, None for NULL (then the dictionary stays empty).  The answer: the
  result, the configuration and the parser with its dictionary.\<close>

definition loadConfig ::
    "(string \<Rightarrow> bool) \<Rightarrow> (string \<Rightarrow> string option) \<Rightarrow> (string \<Rightarrow> yajl_event list)
       \<Rightarrow> bool \<times> du_config \<times> json_parser" where
  "loadConfig file_exists read_file yajl =
     (case conf_path file_exists of
        None \<Rightarrow> (False, du_defaults, JSONParser)
      | Some path \<Rightarrow>
          (let p = (case read_file path of
                      Some content \<Rightarrow> parse (yajl (read_conf '''' content))
                    | None \<Rightarrow> JSONParser)
           in (True, apply_config (m_dict p) du_defaults, p)))"

text \<open>The folders main passes to deviceUpdateRun: None when the run is skipped, Some None for a NULL
  list.\<close>

definition watched_folders :: "json_parser \<Rightarrow> string list option option" where
  "watched_folders p =
     (case m_dict p ''deviceFoldersToWatch'' of
        None \<Rightarrow> None
      | Some vv \<Rightarrow> Some (map_option (\<lambda>a. map vv_str (array_store p a)) (vv_array vv)))"

section \<open>Effects and the world\<close>

record announce =
  an_name :: string
  an_version :: string
  an_type :: "32 word"
  an_path :: string
  an_force :: bool

datatype du_effect =
    Stat string
  | Shell string
  | Announce announce
  | Download_initiate int bool "8 word" bool
  | Load_initiate int int "32 word" int

record du_world =
  stat_mode :: "string \<Rightarrow> nat option"
  dir_entries :: "string \<Rightarrow> (string \<times> bool) list option"
  unpacked :: "string \<Rightarrow> (string \<times> string option) list"
  heap_junk :: string
  wide_size_t :: bool
  day_of_month :: int

section \<open>Announcing images\<close>

text \<open>st\_mode \& \_\_S\_IFDIR != 0 is st\_mode \& 1: the bit says that others may execute.\<close>

definition folderExists :: "du_world \<Rightarrow> string \<Rightarrow> bool" where
  "folderExists w path = (case stat_mode w path of Some m \<Rightarrow> odd m | None \<Rightarrow> False)"

text \<open>Which directory entries are taken for archives.  The positions are unsigned int: where size\_t
  is wider, npos is not recognised, and its successor wraps to 0.\<close>

definition ext_at :: "string \<Rightarrow> nat option \<Rightarrow> string" where
  "ext_at name idx = (case idx of Some i \<Rightarrow> drop (i + 1) name | None \<Rightarrow> name)"

definition takes_file :: "bool \<Rightarrow> string \<Rightarrow> bool" where
  "takes_file wide name =
     (let idx = str_rfind_all CHR ''.'' name
      in if idx = None \<and> \<not> wide then False
         else (let ext = ext_at name idx;
                   idx2 = (case idx of Some i \<Rightarrow> str_rfind CHR ''.'' i name | None \<Rightarrow> idx)
               in if ext = ''gz''
                  then \<not> (idx2 = None \<and> \<not> wide) \<and> ext_at name idx2 = ''tar.gz''
                  else ext = ''tgz''))"

text \<open>The text between the first opening and the first closing tag; None is the exception of
  substr.\<close>

definition getXMLTagText :: "string \<Rightarrow> string \<Rightarrow> string option" where
  "getXMLTagText xml tag =
     (case str_find (''<'' @ tag) xml of
        None \<Rightarrow> Some ''''
      | Some i \<Rightarrow>
          (let idx = i + length tag + 2
           in if length xml < idx then None
              else Some (case str_find (''</'' @ tag) xml of
                           Some idx2 \<Rightarrow> (if idx \<le> idx2 then take (idx2 - idx) (drop idx xml) else drop idx xml)
                         | None \<Rightarrow> drop idx xml)))"

definition strcpy_s :: "nat \<Rightarrow> string \<Rightarrow> string" where
  "strcpy_s bound text = (if length text < bound then text else '''')"

text \<open>content: the file, None when it cannot be opened.  The buffer is not terminated, so the string
  goes on with what the heap holds behind it.  The answer: None for an exception, Some None for
  false.\<close>

definition getEventData ::
    "du_config \<Rightarrow> string \<Rightarrow> string option \<Rightarrow> string \<Rightarrow> announce option option" where
  "getEventData c junk content path =
     (let xml = (case content of Some s \<Rightarrow> c_string (s @ junk) | None \<Rightarrow> '''')
      in case getXMLTagText xml ''image:softwareVersion'' of
           None \<Rightarrow> None
         | Some version \<Rightarrow>
             if version = '''' then Some None
             else (case getXMLTagText xml ''image:type'' of
                     None \<Rightarrow> None
                   | Some type \<Rightarrow>
                       (case getXMLTagText xml ''image:productName'' of
                          None \<Rightarrow> None
                        | Some name \<Rightarrow>
                            Some (Some \<lparr>an_name = strcpy_s 64 name, an_version = strcpy_s 32 version,
                              an_type = word_of_int (atoi type), an_path = path, an_force = forceUpdate c\<rparr>))))"

text \<open>A loop whose body may end the process.\<close>

fun each :: "('a \<Rightarrow> du_effect list \<times> bool) \<Rightarrow> 'a list \<Rightarrow> du_effect list \<times> bool" where
  "each f [] = ([], True)"
| "each f (x # xs) =
     (case f x of
        (es, False) \<Rightarrow> (es, False)
      | (es, True) \<Rightarrow> (let (es', alive) = each f xs in (es @ es', alive)))"

definition announce_file ::
    "du_config \<Rightarrow> du_world \<Rightarrow> string \<Rightarrow> string \<times> string option \<Rightarrow> du_effect list \<times> bool" where
  "announce_file c w path f =
     (case str_rfind_all CHR ''.'' (fst f) of
        None \<Rightarrow> ([], True)
      | Some i \<Rightarrow>
          if drop (i + 1) (fst f) = ''xml''
          then (case getEventData c (heap_junk w) (snd f) (take 511 path) of
                  None \<Rightarrow> ([], False)
                | Some None \<Rightarrow> ([], True)
                | Some (Some a) \<Rightarrow> ([Announce a], True))
          else ([], True))"

definition processDeviceFile :: "du_config \<Rightarrow> du_world \<Rightarrow> string \<Rightarrow> du_effect list \<times> bool" where
  "processDeviceFile c w path =
     (let cmds = [Shell (''rm -rf '' @ tempFilePath c), Shell (''mkdir '' @ tempFilePath c),
                  Shell (''tar -xzpf  '' @ path @ '' -C '' @ tempFilePath c)];
          (es, alive) = each (announce_file c w path) (unpacked w path)
      in (cmds @ es, alive))"

definition processDeviceFolder :: "du_config \<Rightarrow> du_world \<Rightarrow> string \<Rightarrow> du_effect list \<times> bool" where
  "processDeviceFolder c w path =
     (case dir_entries w path of
        None \<Rightarrow> ([], True)
      | Some ds \<Rightarrow>
          each (\<lambda>d. processDeviceFile c w (path @ ''/'' @ fst d))
            (filter (\<lambda>(name, is_dir). \<not> is_dir \<and> takes_file (wide_size_t w) name) ds))"

definition check_folder :: "du_config \<Rightarrow> du_world \<Rightarrow> string \<Rightarrow> du_effect list \<times> bool" where
  "check_folder c w folder =
     (let path = serverUpdatePath c @ folder
      in if path = '''' then ([], True)
         else if folderExists w path
         then (let (es, alive) = processDeviceFolder c w path in (Stat path # es, alive))
         else ([Stat path], True))"

text \<open>One folder per run: skip until selectedUpdate is 0, check and break.\<close>

fun check_selected :: "du_config \<Rightarrow> du_world \<Rightarrow> int \<Rightarrow> string list \<Rightarrow> du_effect list \<times> bool" where
  "check_selected c w selected [] = ([], True)"
| "check_selected c w selected (f # fs) =
     (if selected \<le> 0 then check_folder c w f else check_selected c w (selected - 1) fs)"

definition check_folders :: "du_config \<Rightarrow> du_world \<Rightarrow> string list option \<Rightarrow> du_effect list \<times> bool" where
  "check_folders c w folders =
     (case folders of
        None \<Rightarrow> ([], True)
      | Some fs \<Rightarrow>
          if oneAnnouncePerRun c
          then (if fs = [] then ([], False)
                else check_selected c w (day_of_month w mod int (length fs)) fs)
          else each (check_folder c w) fs)"

section \<open>Sessions\<close>

record update =
  up_path :: string
  up_device :: int
  downloadPercent :: int
  loadComplete :: bool
  errorCode :: int
  errorMsg :: string

record du_state =
  config :: du_config
  nextID :: int
  updatesInProgress :: "int \<rightharpoonup> update"
  announceCounter :: int

definition du_start :: "du_config \<Rightarrow> du_state" where
  "du_start c = \<lparr>config = c, nextID = 1, updatesInProgress = Map.empty, announceCounter = 10\<rparr>"

text \<open>One turn of the loop of deviceUpdateRun.\<close>

definition update_turn :: "string list option \<Rightarrow> du_world \<Rightarrow> du_state \<Rightarrow> du_state \<times> du_effect list \<times> bool" where
  "update_turn folders w s =
     (let (es, alive) = (if announceCounter s = delayTillAnnounceTimeMin (config s) * 60
                         then check_folders (config s) w folders else ([], True))
      in (s\<lparr>announceCounter := announceCounter s + 1\<rparr>, es, alive))"

fun deviceUpdateRun :: "string list option \<Rightarrow> du_world list \<Rightarrow> du_state \<Rightarrow> du_effect list" where
  "deviceUpdateRun folders [] s = []"
| "deviceUpdateRun folders (w # ws) s =
     (let (s', es, alive) = update_turn folders w s
      in es @ (if alive then deviceUpdateRun folders ws s' else []))"

text \<open>The answer of AcceptUpdate: the session, whether download and load are interactive.\<close>

definition AcceptUpdate :: "string \<Rightarrow> int \<Rightarrow> du_state \<Rightarrow> du_state \<times> int \<times> bool \<times> bool" where
  "AcceptUpdate path device s =
     (let u = \<lparr>up_path = path, up_device = device, downloadPercent = 0, loadComplete = False,
               errorCode = 0, errorMsg = ''''\<rparr>;
          uip = updatesInProgress s
      in (s\<lparr>nextID := nextID s + 1,
            updatesInProgress := (case uip (nextID s) of None \<Rightarrow> uip(nextID s \<mapsto> u) | Some v \<Rightarrow> uip)\<rparr>,
          nextID s, interactiveDownload (config s), interactiveLoad (config s)))"

datatype du_event =
    Ready_to_download int
  | Download_status int "32 word"
  | Load_status int int
  | Update_error int int string
  | Unknown_update_event

definition sendDownLoadInit :: "int \<Rightarrow> du_state \<Rightarrow> du_effect list" where
  "sendDownLoadInit i s =
     [Download_initiate i (backgroundDownload (config s))
        (word_of_int (requestedPercentIncrement (config s))) (loadImageImmediately (config s))]"

definition time_to_load :: "int \<Rightarrow> int \<Rightarrow> 32 word" where
  "time_to_load before hour =
     (if hour < before then 0 else word_of_int ((24 + (before - hour)) * 60 * 60))"

definition sendLoadInit :: "int \<Rightarrow> int \<Rightarrow> du_state \<Rightarrow> du_effect list" where
  "sendLoadInit hour i s =
     [Load_initiate i (loadDelayType (config s)) (time_to_load (loadBeforeHour (config s)) hour)
        (loadTimeAfterInactive (config s))]"

definition with_update :: "int \<Rightarrow> (update \<Rightarrow> update) \<Rightarrow> (du_state \<Rightarrow> du_effect list) \<Rightarrow> du_state
    \<Rightarrow> (du_state \<times> du_effect list) option" where
  "with_update i f send s =
     (case updatesInProgress s i of
        None \<Rightarrow> None
      | Some u \<Rightarrow> (let s = s\<lparr>updatesInProgress := (updatesInProgress s)(i \<mapsto> f u)\<rparr> in Some (s, send s)))"

text \<open>own: whether the owner of the event is the device update manager; hour: the local time.\<close>

fun deviceUpdateEventHandler :: "bool \<Rightarrow> int \<Rightarrow> du_event \<Rightarrow> du_state \<Rightarrow> (du_state \<times> du_effect list) option" where
  "deviceUpdateEventHandler False hour e s = Some (s, [])"
| "deviceUpdateEventHandler True hour (Ready_to_download i) s =
     with_update i (\<lambda>u. u) (\<lambda>s. if interactiveDownload (config s) then [] else sendDownLoadInit i s) s"
| "deviceUpdateEventHandler True hour (Download_status i percent) s =
     with_update i (\<lambda>u. u\<lparr>downloadPercent := sint percent\<rparr>)
       (\<lambda>s. if 100 \<le> sint percent \<and> \<not> interactiveLoad (config s) then sendLoadInit hour i s else []) s"
| "deviceUpdateEventHandler True hour (Load_status i status) s =
     with_update i (\<lambda>u. u\<lparr>loadComplete := (status = 1)\<rparr>) (\<lambda>s. []) s"
| "deviceUpdateEventHandler True hour (Update_error i code msg) s =
     with_update i (\<lambda>u. u\<lparr>errorCode := code, errorMsg := msg\<rparr>) (\<lambda>s. []) s"
| "deviceUpdateEventHandler True hour Unknown_update_event s = Some (s, [])"

section \<open>Lemmas: archives\<close>

lemma takes_file_tgz:
  "takes_file wide name = ((\<exists>s. name = s @ ''.tgz'') \<or> wide \<and> name = ''tgz'')"
proof (cases "last_index CHR ''.'' name")
  case None
  then have "CHR ''.'' \<notin> set name" by (simp add: last_index_None)
  then have "\<nexists>s. name = s @ ''.tgz''" by auto
  with None show ?thesis by (auto simp: takes_file_def str_rfind_all_def ext_at_def)
next
  case (Some i)
  note i = last_index_Some [OF Some]
  then have name: "name = take i name @ CHR ''.'' # drop (Suc i) name"
    by (metis id_take_nth_drop)
  have "str_rfind CHR ''.'' i name = Some i" using i by (simp add: str_rfind_same)
  then have "takes_file wide name = (drop (Suc i) name = ''tgz'')"
    using Some by (auto simp: takes_file_def str_rfind_all_def ext_at_def Let_def)
  moreover have "drop (Suc i) name = ''tgz'' \<longleftrightarrow> (\<exists>s. name = s @ ''.tgz'')"
  proof
    assume "drop (Suc i) name = ''tgz''"
    with name have "name = take i name @ ''.tgz''" by simp
    then show "\<exists>s. name = s @ ''.tgz''" ..
  next
    assume "\<exists>s. name = s @ ''.tgz''"
    then obtain s where s: "name = s @ ''.tgz''" ..
    then have "last_index CHR ''.'' name = Some (length s)" by (simp add: last_index_append)
    with Some have "i = length s" by simp
    with s show "drop (Suc i) name = ''tgz''" by simp
  qed
  moreover have "name \<noteq> ''tgz''" using i by (auto simp: nth_Cons split: nat.splits)
  ultimately show ?thesis by blast
qed

section \<open>Lemmas: the announcement\<close>

text \<open>Between its tags, a text comes back when no earlier text looks like the tags.\<close>

lemma xml_tag_text:
  assumes "xml = pre @ ''<'' @ tag @ ''>'' @ txt @ ''</'' @ tag @ post"
    and "str_find (''<'' @ tag) xml = Some (length pre)"
    and "str_find (''</'' @ tag) xml = Some (length pre + length tag + 2 + length txt)"
  shows "getXMLTagText xml tag = Some txt"
proof -
  have "drop (length pre + length tag + 2) xml = txt @ ''</'' @ tag @ post"
    and "length pre + length tag + 2 \<le> length xml"
    by (simp_all add: assms(1))
  with assms(2,3) show ?thesis by (simp add: getXMLTagText_def)
qed

section \<open>Lemmas: the run loop\<close>

lemma update_turn_quiet:
  "announceCounter s \<noteq> delayTillAnnounceTimeMin (config s) * 60 \<Longrightarrow>
   update_turn folders w s = (s\<lparr>announceCounter := announceCounter s + 1\<rparr>, [], True)"
  by (simp add: update_turn_def)

lemma run_past:
  assumes "delayTillAnnounceTimeMin (config s) * 60 < announceCounter s"
  shows "deviceUpdateRun folders ws s = []"
  using assms by (induction folders ws s rule: deviceUpdateRun.induct) (simp_all add: update_turn_quiet)

lemma run_before:
  assumes "int n = delayTillAnnounceTimeMin (config s) * 60 - announceCounter s"
  shows "deviceUpdateRun folders ws s
     = (if n < length ws then fst (check_folders (config s) (ws ! n) folders) else [])"
  using assms
proof (induction ws arbitrary: s n)
  case (Cons w ws)
  let ?s = "s\<lparr>announceCounter := announceCounter s + 1\<rparr>"
  show ?case
  proof (cases n)
    case 0
    with Cons.prems have now: "announceCounter s = delayTillAnnounceTimeMin (config s) * 60" by simp
    obtain es alive where c: "check_folders (config s) w folders = (es, alive)" by fastforce
    have "deviceUpdateRun folders ws ?s = []" by (rule run_past) (simp add: now)
    with now c 0 show ?thesis by (simp add: update_turn_def)
  next
    case (Suc m)
    with Cons.prems have "announceCounter s \<noteq> delayTillAnnounceTimeMin (config s) * 60"
      and "int m = delayTillAnnounceTimeMin (config ?s) * 60 - announceCounter ?s" by auto
    with Cons.IH [of m ?s] show ?thesis by (simp add: update_turn_quiet Suc)
  qed
qed simp

lemma check_selected_nth:
  "0 \<le> k \<Longrightarrow> nat k < length fs \<Longrightarrow> check_selected c w k fs = check_folder c w (fs ! nat k)"
proof (induction fs arbitrary: k)
  case (Cons f fs)
  show ?case
  proof (cases "k = 0")
    case False
    with Cons.prems have "nat k = Suc (nat (k - 1))" by simp
    with Cons False show ?thesis by simp
  qed simp
qed simp

section \<open>Sessions as slots\<close>

datatype up_field = Up_percent | Up_loaded | Up_error

datatype up_value = Percent_value int | Loaded_value bool | Error_value int string

fun read_field :: "up_field \<Rightarrow> update \<Rightarrow> up_value" where
  "read_field Up_percent u = Percent_value (downloadPercent u)"
| "read_field Up_loaded u = Loaded_value (loadComplete u)"
| "read_field Up_error u = Error_value (errorCode u) (errorMsg u)"

type_synonym du_slot = "int \<times> up_field"

definition session_view :: "du_state \<Rightarrow> du_slot \<Rightarrow> up_value option" where
  "session_view s sl = map_option (read_field (snd sl)) (updatesInProgress s (fst sl))"

text \<open>An event as the bus delivers it: whether it is the manager's own, the hour, the event.\<close>

type_synonym du_delivery = "bool \<times> int \<times> du_event"

definition handle_event :: "du_delivery \<Rightarrow> du_state \<Rightarrow> du_state option" where
  "handle_event d s = (case d of (own, hour, e) \<Rightarrow> map_option fst (deviceUpdateEventHandler own hour e s))"

fun event_writes :: "du_event \<Rightarrow> (du_slot \<times> up_value) option" where
  "event_writes (Download_status i percent) = Some ((i, Up_percent), Percent_value (sint percent))"
| "event_writes (Load_status i status) = Some ((i, Up_loaded), Loaded_value (status = 1))"
| "event_writes (Update_error i code msg) = Some ((i, Up_error), Error_value code msg)"
| "event_writes _ = None"

definition session_concerned :: "du_delivery \<Rightarrow> du_slot \<Rightarrow> bool" where
  "session_concerned d sl =
     (case d of (own, hour, e) \<Rightarrow> own \<and> (case event_writes e of Some (sl', v) \<Rightarrow> sl' = sl | None \<Rightarrow> False))"

text \<open>An event that writes nothing concerns no slot.\<close>

definition session_overwrite :: "du_slot \<Rightarrow> du_delivery \<Rightarrow> up_value option \<Rightarrow> up_value option" where
  "session_overwrite sl d old =
     (case d of (own, hour, e) \<Rightarrow>
        map_option (\<lambda>v. case event_writes e of Some (sl', v') \<Rightarrow> v' | None \<Rightarrow> Percent_value 0) old)"

lemma session_fields [simp]:
  "read_field f (u\<lparr>downloadPercent := x\<rparr>) = (if f = Up_percent then Percent_value x else read_field f u)"
  "read_field f (u\<lparr>loadComplete := y\<rparr>) = (if f = Up_loaded then Loaded_value y else read_field f u)"
  "read_field f (u\<lparr>errorCode := c, errorMsg := m\<rparr>) = (if f = Up_error then Error_value c m else read_field f u)"
  by (cases f; simp)+

interpretation sessions: slot_store handle_event session_view session_concerned session_overwrite
proof unfold_locales
  fix d s s' and sl :: du_slot
  assume step: "handle_event d s = Some s'"
  obtain own hour e where d: "d = (own, hour, e)" by (metis prod_cases3)
  obtain i f where sl: "sl = (i, f)" by fastforce
  show "session_view s' sl = (if session_concerned d sl then session_overwrite sl d (session_view s sl)
      else session_view s sl)"
    using step
    by (cases own; cases e)
       (auto simp: d sl handle_event_def with_update_def Let_def session_view_def session_concerned_def
          session_overwrite_def split: option.splits)
next
  fix sl e e' v
  show "session_overwrite sl e (session_overwrite sl e' v) = session_overwrite sl e v"
    by (cases v) (simp_all add: session_overwrite_def case_prod_beta)
qed

lemma handle_event_fields:
  assumes "handle_event d s = Some s'"
  shows "dom (updatesInProgress s') = dom (updatesInProgress s)" and "config s' = config s"
    and "nextID s' = nextID s"
proof -
  obtain own hour e where d: "d = (own, hour, e)" by (metis prod_cases3)
  have "dom (updatesInProgress s') = dom (updatesInProgress s) \<and> config s' = config s \<and> nextID s' = nextID s"
    using assms by (cases own; cases e)
      (auto simp: d handle_event_def with_update_def Let_def split: option.splits if_splits)
  then show "dom (updatesInProgress s') = dom (updatesInProgress s)" "config s' = config s"
    "nextID s' = nextID s" by simp_all
qed

fun event_session :: "du_event \<Rightarrow> int option" where
  "event_session (Ready_to_download i) = Some i"
| "event_session (Download_status i percent) = Some i"
| "event_session (Load_status i status) = Some i"
| "event_session (Update_error i code msg) = Some i"
| "event_session Unknown_update_event = None"

lemma handle_event_known:
  assumes "\<And>i. own \<Longrightarrow> event_session e = Some i \<Longrightarrow> i \<in> dom (updatesInProgress s)"
  shows "\<exists>s'. handle_event (own, hour, e) s = Some s'"
  using assms by (cases own; cases e) (auto simp: handle_event_def with_update_def Let_def)

lemma handle_events_known:
  assumes "\<forall>(own, hour, e)\<in>set ds. own \<longrightarrow> (\<forall>i. event_session e = Some i \<longrightarrow> i \<in> dom (updatesInProgress s))"
  shows "\<exists>s'. run_opt handle_event ds s = Some s'"
  using assms
proof (induction ds arbitrary: s)
  case (Cons d ds)
  obtain own hour e where d: "d = (own, hour, e)" by (metis prod_cases3)
  with Cons.prems obtain s1 where s1: "handle_event d s = Some s1"
    using handle_event_known [of own e s hour] by auto
  with Cons show ?case using handle_event_fields(1) [OF s1] by auto
qed simp

text \<open>Sessions handed out are fresh.\<close>

definition sessions_ok :: "du_state \<Rightarrow> bool" where
  "sessions_ok s = (\<forall>i u. updatesInProgress s i = Some u \<longrightarrow> i < nextID s)"

datatype du_input = Accept string int | Deliver du_delivery | Turn "string list option" du_world

definition du_step :: "du_input \<Rightarrow> du_state \<Rightarrow> du_state option" where
  "du_step i s =
     (case i of
        Accept path device \<Rightarrow> Some (fst (AcceptUpdate path device s))
      | Deliver d \<Rightarrow> handle_event d s
      | Turn folders w \<Rightarrow> (case update_turn folders w s of (s', es, alive) \<Rightarrow> if alive then Some s' else None))"

lemma du_step_sessions_ok:
  assumes "du_step i s = Some s'" and "sessions_ok s"
  shows "sessions_ok s'"
proof (cases i)
  case (Accept path device)
  with assms show ?thesis
    by (force simp: du_step_def AcceptUpdate_def sessions_ok_def Let_def split: option.splits)
next
  case (Deliver d)
  with assms handle_event_fields [of d s s'] show ?thesis
    unfolding du_step_def sessions_ok_def by (simp add: set_eq_iff dom_def)
next
  case (Turn folders w)
  with assms show ?thesis
    by (auto simp: du_step_def update_turn_def sessions_ok_def Let_def case_prod_beta split: if_splits)
qed

text \<open>What an event reports for a field of a session, and the last such report.\<close>

definition report_of :: "int \<Rightarrow> up_field \<Rightarrow> du_delivery \<Rightarrow> up_value option" where
  "report_of i f d =
     (case d of (own, hour, e) \<Rightarrow>
        if own then (case event_writes e of
                       Some (sl, v) \<Rightarrow> if sl = (i, f) then Some v else None
                     | None \<Rightarrow> None)
        else None)"

fun fresh_value :: "up_field \<Rightarrow> up_value" where
  "fresh_value Up_percent = Percent_value 0"
| "fresh_value Up_loaded = Loaded_value False"
| "fresh_value Up_error = Error_value 0 ''''"

definition last_report :: "int \<Rightarrow> up_field \<Rightarrow> du_delivery list \<Rightarrow> up_value" where
  "last_report i f ds =
     (let vs = List.map_filter (report_of i f) ds in if vs = [] then fresh_value f else last vs)"

lemma concerned_report: "session_concerned d (i, f) \<longleftrightarrow> report_of i f d \<noteq> None"
  by (auto simp: session_concerned_def report_of_def split: prod.split option.split)

lemma overwrite_report: "report_of i f d = Some v \<Longrightarrow> session_overwrite (i, f) d (Some w) = Some v"
  by (auto simp: session_overwrite_def report_of_def split: prod.splits option.splits if_splits)

lemma last_report_filter:
  "(let fs = filter (\<lambda>d. session_concerned d (i, f)) ds
    in if fs = [] then Some (fresh_value f) else session_overwrite (i, f) (last fs) (Some (fresh_value f)))
   = Some (last_report i f ds)"
proof (induction ds rule: rev_induct)
  case (snoc d ds)
  show ?case
  proof (cases "report_of i f d")
    case None
    then have "last_report i f (ds @ [d]) = last_report i f ds"
      by (simp add: last_report_def List.map_filter_def)
    with snoc None show ?thesis by (simp add: concerned_report)
  next
    case (Some v)
    then have "last_report i f (ds @ [d]) = v"
      by (simp add: last_report_def List.map_filter_def Let_def)
    with Some show ?thesis by (simp add: concerned_report overwrite_report)
  qed
qed (simp add: last_report_def List.map_filter_def)

section \<open>Properties\<close>

text \<open>Which files of a folder are unpacked and announced: those that are no directory and end in
  .tgz, and, where size\_t is wider than unsigned int, a file called tgz.  So a .tar.gz archive,
  which the code means to take too, never is: the second rfind starts at the dot it has just found
  and finds it again.\<close>

lemma only_tgz_archives_are_announced:
  "processDeviceFolder c w path =
     (case dir_entries w path of
        None \<Rightarrow> ([], True)
      | Some ds \<Rightarrow>
          each (\<lambda>d. processDeviceFile c w (path @ ''/'' @ fst d))
            (filter (\<lambda>(name, is_dir). \<not> is_dir \<and> ((\<exists>s. name = s @ ''.tgz'') \<or> wide_size_t w \<and> name = ''tgz'')) ds))"
  unfolding processDeviceFolder_def takes_file_tgz by simp

text \<open>Images are announced once, when the delay is over.  With a delay of at least one minute,
  the run loop looks at the folders in turn 60 * delay - 10, counted from 0, one turn a second,
  with what the file system holds then, and in no other turn; with one announcement per run, and
  folders to watch, it looks only at the folder whose index is the day of the month modulo their
  number.\<close>

lemma images_are_announced_once:
  assumes "1 \<le> delayTillAnnounceTimeMin c"
  shows "deviceUpdateRun folders ws (du_start c) =
    (let n = nat (60 * delayTillAnnounceTimeMin c - 10)
     in if n < length ws
        then (case folders of
                None \<Rightarrow> []
              | Some fs \<Rightarrow>
                  if \<not> oneAnnouncePerRun c then fst (each (check_folder c (ws ! n)) fs)
                  else if fs = [] then []
                  else fst (check_folder c (ws ! n) (fs ! nat (day_of_month (ws ! n) mod int (length fs)))))
        else [])"
proof -
  let ?n = "nat (60 * delayTillAnnounceTimeMin c - 10)"
  have "int ?n = delayTillAnnounceTimeMin (config (du_start c)) * 60 - announceCounter (du_start c)"
    using assms by (simp add: du_start_def)
  note run = run_before [OF this, of folders ws]
  have "check_selected c w (day_of_month w mod int (length fs)) fs
      = check_folder c w (fs ! nat (day_of_month w mod int (length fs)))" if "fs \<noteq> []" for w fs
    by (rule check_selected_nth) (use that in \<open>simp_all add: nat_less_iff\<close>)
  then show ?thesis
    unfolding run by (auto simp: check_folders_def du_start_def Let_def split: option.splits)
qed

definition tgz_world :: du_world where
  "tgz_world = \<lparr>stat_mode = (\<lambda>_. Some 0x41ED), dir_entries = (\<lambda>_. Some [(''a.tar.gz'', False), (''b.tgz'', False)]),
     unpacked = (\<lambda>_. []), heap_junk = '''', wide_size_t = True, day_of_month = 5\<rparr>"

text \<open>A session shows its own last reports.  In a state with fresh session numbers (which every
  step keeps), accept an update and deliver any events of known sessions, of the manager or of
  others, in any order: the manager survives, the session's percentage, completion and error are
  those of the last report of that kind for this session (0 percent, not loaded, no error when
  there is none), and accepting has left every other session as it was.\<close>

lemma session_shows_its_last_reports:
  assumes "sessions_ok s" and "AcceptUpdate path device s = (s1, i, answers)"
    and "\<forall>(own, hour, e)\<in>set ds. own \<longrightarrow> (\<forall>j. event_session e = Some j \<longrightarrow> j \<in> dom (updatesInProgress s1))"
  shows "\<exists>s'. run_opt handle_event ds s1 = Some s' \<and> sessions_ok s'
     \<and> (\<forall>f. session_view s' (i, f) = Some (last_report i f ds))
     \<and> (\<forall>j. j \<noteq> i \<longrightarrow> updatesInProgress s1 j = updatesInProgress s j)"
proof -
  from handle_events_known [OF assms(3)] obtain s' where s': "run_opt handle_event ds s1 = Some s'" ..
  have i: "i = nextID s" and fresh: "updatesInProgress s i = None" and
    s1: "s1 = s\<lparr>nextID := i + 1, updatesInProgress := (updatesInProgress s)(i \<mapsto>
       \<lparr>up_path = path, up_device = device, downloadPercent = 0, loadComplete = False, errorCode = 0,
        errorMsg = ''''\<rparr>)\<rparr>"
    using assms(1,2) by (auto simp: AcceptUpdate_def sessions_ok_def Let_def split: option.splits)
  have "sessions_ok s1" using assms(1) by (force simp: s1 i sessions_ok_def)
  then have "sessions_ok s'"
    using run_opt_invariant [OF s', of sessions_ok] du_step_sessions_ok [of "Deliver d" for d]
    by (auto simp: du_step_def)
  moreover have "session_view s1 (i, f) = Some (fresh_value f)" for f
    by (cases f) (simp_all add: session_view_def s1)
  then have "session_view s' (i, f) = Some (last_report i f ds)" for f
    using sessions.run_view [OF s', of "(i, f)"] last_report_filter [of i f ds]
    by (simp add: Let_def split: if_splits)
  ultimately show ?thesis using s' by (auto simp: s1)
qed

text \<open>Two sessions whose reports cross, and a foreign event.\<close>

text \<open>C30. A finished download is loaded at the hour of the configuration.  When a session of the
  manager reports its percentage in the local hour h, nothing goes out if it is below 100, and
  nothing if the configuration asks for interactive loads (the load is then the application's to
  start).  Otherwise exactly one LOAD\_INITIATE goes out for it, and its delay, counted from any
  second of that hour, ends in the hour h itself if it is before the configured hour, and else in
  the configured hour of the next day, within 24 hours.  The configured hour is not negative (the
  configuration is not checked by the code; one of 24 or more loads at once), and the hours are
  those of a clock that is not shifted in between: the code subtracts hours of the day, so a change
  to or from summer time moves the load by an hour.\<close>

theorem load_begins_at_configured_hour:
  assumes "deviceUpdateEventHandler True h (Download_status i percent) s = Some (s', es)"
    and "0 \<le> h" and "h < 24" and "0 \<le> loadBeforeHour (config s)"
    and "0 \<le> sec" and "sec < 3600"
  shows "if sint percent < 100 \<or> interactiveLoad (config s) then es = []
     else (\<exists>t. es = [Load_initiate i (loadDelayType (config s)) t (loadTimeAfterInactive (config s))]
       \<and> uint t \<le> 24 * 3600
       \<and> (h * 3600 + sec + uint t) mod (24 * 3600) div 3600 = min h (loadBeforeHour (config s)))"
proof (cases "sint percent < 100 \<or> interactiveLoad (config s)")
  case True
  then show ?thesis using assms(1) by (auto simp: with_update_def Let_def split: option.splits)
next
  case asked: False
  let ?b = "loadBeforeHour (config s)"
  have es: "es = [Load_initiate i (loadDelayType (config s)) (time_to_load ?b h) (loadTimeAfterInactive (config s))]"
    using assms(1) asked by (auto simp: with_update_def sendLoadInit_def Let_def split: option.splits)
  show ?thesis
  proof (cases "h < ?b")
    case True
    then have "(h * 3600 + sec) mod (24 * 3600) = h * 3600 + sec" using assms(2-6) by simp
    then have "(h * 3600 + sec) mod (24 * 3600) div 3600 = h" using assms(5,6) by simp
    with True asked show ?thesis by (simp add: es time_to_load_def)
  next
    case False
    define d where "d = (24 + (?b - h)) * 60 * 60"
    have d: "0 \<le> d" "d \<le> 24 * 3600" using False assms(2-4) by (simp_all add: d_def)
    have t: "uint (time_to_load ?b h) = d"
    proof -
      have "time_to_load ?b h = word_of_int d" using False by (simp add: time_to_load_def d_def)
      with d show ?thesis by (simp add: uint_word_of_int_eq take_bit_int_eq_self)
    qed
    have "h * 3600 + sec + d = (?b * 3600 + sec) + 24 * 3600" by (simp add: d_def)
    then have "(h * 3600 + sec + d) mod (24 * 3600) = (?b * 3600 + sec) mod (24 * 3600)" by (simp only: mod_add_self2)
    also have "\<dots> = ?b * 3600 + sec" using assms(2-6) False by simp
    finally have "(h * 3600 + sec + d) mod (24 * 3600) div 3600 = ?b" using assms(5,6) by simp
    with False d asked show ?thesis by (simp add: es t)
  qed
qed

theorem load_begins_at_configured_hour_witness:
  "\<exists>t. snd (the (deviceUpdateEventHandler True 21 (Download_status 1 100)
        (fst (AcceptUpdate ''a'' 7 (du_start du_defaults))))) = [Load_initiate 1 0 t 0]
     \<and> (21 * 3600 + 59 + uint t) mod (24 * 3600) div 3600 = 4"
proof -
  let ?s = "fst (AcceptUpdate ''a'' 7 (du_start du_defaults))"
  have s: "config ?s = du_defaults" by (simp add: AcceptUpdate_def du_start_def)
  have c: "\<not> interactiveLoad du_defaults" "loadBeforeHour du_defaults = 4" "loadDelayType du_defaults = 0"
    "loadTimeAfterInactive du_defaults = 0" by (simp_all add: du_defaults_def)
  have "1 \<in> dom (updatesInProgress ?s)" by (simp add: AcceptUpdate_def du_start_def)
  then obtain s' es where run: "deviceUpdateEventHandler True 21 (Download_status 1 100) ?s = Some (s', es)"
    by (auto simp: with_update_def Let_def)
  from load_begins_at_configured_hour [OF run, of 59] show ?thesis
    by (auto simp: run s c simp del: deviceUpdateEventHandler.simps)
qed

end
