(* ===== verification/Sleep_Timer.thy ===== *)
theory Sleep_Timer
  imports Iarm_Prelude
begin

text \<open>
  The sleep timer of the power manager: pwrmgr2/sleepTimer.c, built with SLEEPTIMER\_USE\_CECSTANDBY.
  Two RPCs set, cancel and read a one-shot timer that sends CEC standby to the TV.  The timer is a
  source of the GLib main loop next to the static timerSource and timerEnd.  The source counts the
  seconds of the main loop, timerEnd is a time of the wall clock, and the wall clock may be moved
  while the timer runs; the section on the specification states the countdown that they implement.
\<close>

section \<open>The timer\<close>

record sleep_timer =
  timerSource :: nat
  timerEnd :: int
  wall_clock :: int
  loop_sources :: "(nat \<times> nat) list"
  next_id :: nat

text \<open>Sources are an id and the seconds left.\<close>

definition sleep_timer_boot :: "int \<Rightarrow> sleep_timer" where
  "sleep_timer_boot now = \<lparr>timerSource = 0, timerEnd = 0, wall_clock = now, loop_sources = [], next_id = 1\<rparr>"

definition source_remove :: "nat \<Rightarrow> sleep_timer \<Rightarrow> sleep_timer" where
  "source_remove i s = s\<lparr>loop_sources := filter (\<lambda>(j, left). j \<noteq> i) (loop_sources s)\<rparr>"

definition timeout_add :: "nat \<Rightarrow> sleep_timer \<Rightarrow> nat \<times> sleep_timer" where
  "timeout_add secs s =
     (next_id s, s\<lparr>loop_sources := loop_sources s @ [(next_id s, secs)], next_id := next_id s + 1\<rparr>)"

text \<open>secs is the double of the parameter without its fraction (a NaN or an infinity counts as a
  number that fits nowhere); tmax is the largest time\_t.  The conversion of a double to guint or
  time\_t is undefined when the number does not fit, and so is a sum that leaves time\_t: the result
  is then None.\<close>

definition to_time_t :: "int \<Rightarrow> int \<Rightarrow> int option" where
  "to_time_t tmax secs = (if - tmax - 1 \<le> secs \<and> secs \<le> tmax then Some secs else None)"

definition to_guint :: "int \<Rightarrow> nat option" where
  "to_guint secs = (if 0 \<le> secs \<and> secs < 2 ^ 32 then Some (nat secs) else None)"

definition SetSleepTimer :: "int \<Rightarrow> int \<Rightarrow> int \<Rightarrow> sleep_timer \<Rightarrow> sleep_timer option" where
  "SetSleepTimer tmax start secs s =
     (if start = 1
      then (case to_time_t tmax secs of
              None \<Rightarrow> None
            | Some t \<Rightarrow>
                (case to_time_t tmax (wall_clock s + t) of
                   None \<Rightarrow> None
                 | Some end_time \<Rightarrow>
                     (let s = s\<lparr>timerEnd := end_time\<rparr>;
                          s = (if timerSource s \<noteq> 0 then (source_remove (timerSource s) s)\<lparr>timerSource := 0\<rparr> else s)
                      in case to_guint secs of
                           None \<Rightarrow> None
                         | Some g \<Rightarrow> (let (i, s) = timeout_add g s in Some (s\<lparr>timerSource := i\<rparr>)))))
      else if start = 0
      then (let s = (if timerSource s \<noteq> 0 then source_remove (timerSource s) s else s)
            in Some (s\<lparr>timerSource := 0, timerEnd := 0\<rparr>))
      else Some s)"

text \<open>The answer: the time left and start.  The time is a double, exact below 2 to the 53.\<close>

definition GetSleepTimer :: "sleep_timer \<Rightarrow> int \<times> int" where
  "GetSleepTimer s =
     (if timerSource s \<noteq> 0
      then (let left = (if wall_clock s < timerEnd s then timerEnd s - wall_clock s else 0)
            in (left, if left \<noteq> 0 then 1 else 0))
      else (0, 0))"

datatype sleep_effect = CEC_standby | Timer_reply int int

definition onSleepTimerFire :: "sleep_timer \<Rightarrow> sleep_timer \<times> sleep_effect list" where
  "onSleepTimerFire s = (s\<lparr>timerEnd := 0, timerSource := 0\<rparr>, [CEC_standby])"

text \<open>A second of the main loop: every source whose time is up is dispatched and removed.  The wall
  clock goes on by a second too; it is moved apart from that by Clock\_moved.\<close>

definition sleep_second :: "sleep_timer \<Rightarrow> sleep_timer \<times> sleep_effect list" where
  "sleep_second s =
     (let due = filter (\<lambda>(i, left). left \<le> 1) (loop_sources s);
          rest = map (\<lambda>(i, left). (i, left - 1)) (filter (\<lambda>(i, left). 1 < left) (loop_sources s))
      in run_trace (\<lambda>_. onSleepTimerFire) due (s\<lparr>wall_clock := wall_clock s + 1, loop_sources := rest\<rparr>))"

datatype sleep_input = Set_sleep int int | Get_sleep | Sleep_second | Clock_moved int

fun sleep_step :: "int \<Rightarrow> sleep_input \<Rightarrow> sleep_timer \<Rightarrow> (sleep_timer \<times> sleep_effect list) option" where
  "sleep_step tmax (Set_sleep start secs) s = map_option (\<lambda>s. (s, [])) (SetSleepTimer tmax start secs s)"
| "sleep_step tmax Get_sleep s = Some (s, [case GetSleepTimer s of (left, start) \<Rightarrow> Timer_reply left start])"
| "sleep_step tmax Sleep_second s = Some (sleep_second s)"
| "sleep_step tmax (Clock_moved d) s = Some (s\<lparr>wall_clock := wall_clock s + d\<rparr>, [])"

text \<open>The effects of a run, None when a step is undefined.\<close>

fun defined_effects :: "('i \<Rightarrow> 's \<Rightarrow> ('s \<times> 'e list) option) \<Rightarrow> 'i list \<Rightarrow> 's \<Rightarrow> 'e list option" where
  "defined_effects f [] s = Some []"
| "defined_effects f (i # is) s =
     (case f i s of
        None \<Rightarrow> None
      | Some (s', es) \<Rightarrow> map_option ((@) es) (defined_effects f is s'))"

section \<open>Specification: a countdown\<close>

text \<open>The wall clock; and, while the timer is set, the seconds left and how far the wall clock has been
  moved forward since it was set.\<close>

type_synonym countdown = "int \<times> (nat \<times> int) option"

fun countdown_step :: "int \<Rightarrow> sleep_input \<Rightarrow> countdown \<Rightarrow> (countdown \<times> sleep_effect list) option" where
  "countdown_step tmax (Set_sleep start secs) (now, c) =
     (if start = 1
      then (if 0 \<le> secs \<and> secs < 2 ^ 32 \<and> secs \<le> tmax \<and> - tmax - 1 \<le> now + secs \<and> now + secs \<le> tmax
            then Some ((now, Some (nat secs, 0)), []) else None)
      else Some ((now, if start = 0 then None else c), []))"
| "countdown_step tmax Get_sleep (now, c) =
     Some ((now, c),
       [case c of
          Some (n, ahead) \<Rightarrow> Timer_reply (max 0 (int n - ahead)) (if int n \<le> ahead then 0 else 1)
        | None \<Rightarrow> Timer_reply 0 0])"
| "countdown_step tmax Sleep_second (now, c) =
     Some (case c of
        None \<Rightarrow> ((now + 1, None), [])
      | Some (n, ahead) \<Rightarrow> if n \<le> 1 then ((now + 1, None), [CEC_standby])
                         else ((now + 1, Some (n - 1, ahead)), []))"
| "countdown_step tmax (Clock_moved d) (now, c) =
     Some ((now + d, map_option (\<lambda>(n, ahead). (n, ahead + d)) c), [])"

text \<open>The countdown a state stands for.\<close>

definition counts :: "sleep_timer \<Rightarrow> countdown \<Rightarrow> bool" where
  "counts s c =
     (0 < next_id s \<and> wall_clock s = fst c \<and>
      (case snd c of
         None \<Rightarrow> timerSource s = 0 \<and> loop_sources s = []
       | Some (n, ahead) \<Rightarrow> timerSource s \<noteq> 0 \<and> loop_sources s = [(timerSource s, n)]
                  \<and> timerEnd s = wall_clock s + int n - ahead))"

lemma SetSleepTimer_counts:
  assumes "counts s (now, c)"
  shows "rel_option (\<lambda>s' (c', es). counts s' c' \<and> es = [])
     (SetSleepTimer tmax start secs s) (countdown_step tmax (Set_sleep start secs) (now, c))"
proof -
  have "start \<noteq> 1 \<or> (0 \<le> secs \<and> secs < 2 ^ 32 \<and> secs \<le> tmax \<and> - tmax - 1 \<le> now + secs \<and> now + secs \<le> tmax)
      \<or> start = 1 \<and> \<not> (0 \<le> secs \<and> secs < 2 ^ 32 \<and> secs \<le> tmax \<and> - tmax - 1 \<le> now + secs \<and> now + secs \<le> tmax)"
    by blast
  then show ?thesis
    using assms by (auto simp: counts_def SetSleepTimer_def source_remove_def timeout_add_def Let_def
        to_time_t_def to_guint_def split: option.splits)
qed

lemma sleep_step_counts:
  assumes "counts s c"
  shows "rel_option (\<lambda>(s', es) (c', es'). counts s' c' \<and> es = es') (sleep_step tmax i s) (countdown_step tmax i c)"
proof -
  obtain now d where c: "c = (now, d)" by fastforce
  show ?thesis
  proof (cases i)
    case (Set_sleep start secs)
    from SetSleepTimer_counts [OF assms [unfolded c], of tmax start secs] show ?thesis
      by (auto simp: Set_sleep c option_rel_Some1 option_rel_Some2 simp del: countdown_step.simps
          elim!: option.rel_cases)
  qed (use assms in \<open>auto simp: c counts_def GetSleepTimer_def sleep_second_def onSleepTimerFire_def
      Let_def split: option.splits\<close>)
qed

text \<open>C28. The sleep timer is a countdown.  Over any sequence of set, cancel and read calls, of seconds of
  the main loop and of moves of the wall clock, the timer answers and sends CEC standby exactly as
  a single counter of seconds would: a set replaces the counter, a cancel clears it, and standby
  goes out once, in the second in which the counter runs out, never after a cancel and wherever
  the wall clock has been moved.  A read gives the seconds left less the seconds by which the wall
  clock has been moved forward since the set, and 0 where that is negative.  The run is undefined
  exactly when the countdown is: when a set asks for a number of seconds that is negative or does
  not fit guint or time\_t, or ends past the largest time\_t (tmax).  Apart from the moves, the wall
  clock and the main loop advance together, a second a step.\<close>

theorem sleep_timer_is_a_countdown:
  "defined_effects (sleep_step tmax) is (sleep_timer_boot now)
     = defined_effects (countdown_step tmax) is (now, None)"
proof -
  have "counts s c \<Longrightarrow> defined_effects (sleep_step tmax) is s = defined_effects (countdown_step tmax) is c" for s c
  proof (induction "is" arbitrary: s c)
    case (Cons i "is")
    from sleep_step_counts [OF Cons.prems, of tmax i] show ?case
      by (cases "sleep_step tmax i s"; cases "countdown_step tmax i c") (auto simp: Cons.IH)
  qed simp
  moreover have "counts (sleep_timer_boot now) (now, None)" by (simp add: counts_def sleep_timer_boot_def)
  ultimately show ?thesis .
qed

end
