(* ===== verification/Vrex_Session.thy ===== *)
theory Vrex_Session
  imports Json_Parser Text_Search
begin

text \<open>
  The voice session of a remote control: vrexmgr/vrexSession.cpp and vrexSession.h.  A session
  obtains a conversation from the voice server (the knock-knock request), tells it the state of a
  recording, and relays the audio of the remote through a Unix socket to a thread that uploads it.
  The answers of libcurl, the results of the system calls, the tokens yajl finds in a text and the
  texts of curl\_easy\_strerror are inputs.  Logging is not modelled, but its arguments are: a
  value that is missing from a reply is a NULL pointer there too.
\<close>

section \<open>The world of a session\<close>

datatype vrex_call = KNOCKKNOCK | SENDSTATE | SPEECH

fun call_type :: "vrex_call \<Rightarrow> nat" where
  "call_type KNOCKKNOCK = 1"
| "call_type SENDSTATE = 2"
| "call_type SPEECH = 3"

text \<open>What curl\_easy\_perform gives: an error code, or the HTTP status and the body.\<close>

datatype curl_result = Curl_failed nat | Curl_done int string

text \<open>What a session does that others see, with the remote it belongs to: a request with its URL, post
  data and user agent, the answer to it, and the events on the bus.\<close>

datatype vrex_effect =
    Http_request "8 word" vrex_call string string string
  | Http_answer "8 word" vrex_call curl_result
  | Error_event "8 word" string
  | Success_event "8 word"

fun effect_remote :: "vrex_effect \<Rightarrow> 8 word" where
  "effect_remote (Http_request r _ _ _ _) = r"
| "effect_remote (Http_answer r _ _) = r"
| "effect_remote (Error_event r _) = r"
| "effect_remote (Success_event r) = r"

text \<open>The clock, the answers to come with the seconds each takes, and what was done so far.\<close>

record vrex_world =
  vx_clock :: int
  vx_answers :: "(nat \<times> curl_result) list"
  vx_log :: "vrex_effect list"

record vrex_env =
  yajl_tokens :: "string \<Rightarrow> yajl_event list"
  curl_strerror :: "nat \<Rightarrow> string"
  long_max :: int
  curl_init_ok :: bool

text \<open>A call returns, faults (a NULL pointer, an index out of range or an exception nobody catches),
  waits for an answer that has not come, or blocks for ever.\<close>

datatype 'a vrex_result = Returns 'a | Faults | Waits | Deadlocks

fun and_then :: "'a vrex_result \<times> vrex_world \<Rightarrow> ('a \<Rightarrow> vrex_world \<Rightarrow> 'b vrex_result \<times> vrex_world)
    \<Rightarrow> 'b vrex_result \<times> vrex_world" where
  "and_then (Returns a, w) f = f a w"
| "and_then (Faults, w) f = (Faults, w)"
| "and_then (Waits, w) f = (Waits, w)"
| "and_then (Deadlocks, w) f = (Deadlocks, w)"

lemma and_then_cong [fundef_cong]:
  assumes "c = c'" and "\<And>a w. c' = (Returns a, w) \<Longrightarrow> f a w = g a w"
  shows "and_then c f = and_then c' g"
proof (cases "fst c'")
  case (Returns a)
  then have "c' = (Returns a, snd c')" by (metis prod.collapse)
  with assms show ?thesis by (metis and_then.simps(1))
qed (use assms(1) in \<open>cases c'; simp\<close>)+

definition emit :: "vrex_effect \<Rightarrow> vrex_world \<Rightarrow> vrex_world" where
  "emit e w = w\<lparr>vx_log := vx_log w @ [e]\<rparr>"

definition await :: "8 word \<Rightarrow> vrex_call \<Rightarrow> vrex_world \<Rightarrow> curl_result vrex_result \<times> vrex_world" where
  "await r call w =
     (case vx_answers w of
        [] \<Rightarrow> (Waits, w)
      | (secs, res) # rest \<Rightarrow>
          (Returns res, emit (Http_answer r call res)
             (w\<lparr>vx_clock := vx_clock w + int secs, vx_answers := rest\<rparr>)))"

section \<open>The session\<close>

record audio_info =
  mimeType :: string
  subType :: string
  language :: string

text \<open>A thread that uploads speech is a number and whether it has accepted its connection; the
  connection has the number of the thread, and sent\_bytes is what was written to it.\<close>

record vrex_session =
  m_remoteId :: "8 word"
  m_receiverId :: string
  m_appId :: string
  m_stbName :: string
  m_rf4ceMacAddress :: string
  m_remoteType :: string
  m_remoteSoftwareVersion :: string
  m_remoteHardwareVersion :: string
  m_baseRoute :: string
  m_aspect_ratio :: string
  m_guideLanguage :: string
  m_defaultConversationLength :: int
  m_conversationExpires :: int
  m_curlInitialized :: bool
  m_audioInfo :: audio_info
  m_speechResponse :: string
  m_parameters :: "string \<rightharpoonup> varVal"
  m_clientSocket :: "nat option"
  m_dataReadThread :: nat
  speech_threads :: "(nat \<times> bool) list"
  sent_bytes :: "nat \<Rightarrow> 8 word list"
  next_thread :: nat

text \<open>The bound remote of the RF status, and the status with its MAC address from byte 0 on.\<close>

record bind_remote =
  br_remoteId :: "8 word"
  ShortAddress :: "16 word"
  Type :: string
  VersionInfoSw :: "8 word \<times> 8 word \<times> 8 word \<times> 8 word"
  VersionInfoHw :: "8 word \<times> 8 word \<times> 8 word \<times> 8 word"

record rf_status =
  macAddress :: "8 word list"
  bindRemotes :: "bind_remote list"

fun hex :: "nat \<Rightarrow> string" where
  "hex n = (let d = n mod 16; c = char_of (if d < 10 then 48 + d else 87 + d)
            in if n < 16 then [c] else hex (n div 16) @ [c])"

declare hex.simps [simp del]

definition dotted :: "8 word \<times> 8 word \<times> 8 word \<times> 8 word \<Rightarrow> string" where
  "dotted v = (case v of (a, b, c, d) \<Rightarrow>
     decimal (unat a) @ ''.'' @ decimal (unat b) @ ''.'' @ decimal (unat c) @ ''.'' @ decimal (unat d))"

definition mac_text :: "8 word list \<Rightarrow> string" where
  "mac_text mac = ''0x'' @ concat (map (hex \<circ> unat) (rev mac))"

definition getStaticStbAndRemoteinfo :: "rf_status \<Rightarrow> nat \<Rightarrow> vrex_session \<Rightarrow> vrex_session" where
  "getStaticStbAndRemoteinfo rf i s =
     (let b = bindRemotes rf ! i
      in if ShortAddress b \<noteq> 0xFFFF
         then s\<lparr>m_remoteType := Type b,
                m_remoteSoftwareVersion := dotted (VersionInfoSw b),
                m_remoteHardwareVersion := dotted (VersionInfoHw b),
                m_rf4ceMacAddress := mac_text (macAddress rf)\<rparr>
         else s)"

definition VREXSession :: "vrex_env \<Rightarrow> int \<Rightarrow> 8 word \<Rightarrow> string \<Rightarrow> int \<Rightarrow> string \<Rightarrow> string \<Rightarrow> string
    \<Rightarrow> rf_status option \<Rightarrow> nat \<Rightarrow> string \<Rightarrow> vrex_session" where
  "VREXSession env now r receiver len route aspect lang rf i stb =
     (let s = \<lparr>m_remoteId = r, m_receiverId = receiver,
               m_appId = ''xr11v2-789ec072-d47e-4eac-9b5d-5f8f7a46e143'', m_stbName = stb,
               m_rf4ceMacAddress = '''', m_remoteType = '''', m_remoteSoftwareVersion = '''',
               m_remoteHardwareVersion = '''', m_baseRoute = route, m_aspect_ratio = aspect,
               m_guideLanguage = lang, m_defaultConversationLength = len,
               m_conversationExpires = now - 200, m_curlInitialized = curl_init_ok env,
               m_audioInfo = \<lparr>mimeType = '''', subType = '''', language = ''''\<rparr>,
               m_speechResponse = '''', m_parameters = Map.empty, m_clientSocket = None,
               m_dataReadThread = 0, speech_threads = [], sent_bytes = (\<lambda>_. []), next_thread = 1\<rparr>
      in case rf of Some rf \<Rightarrow> getStaticStbAndRemoteinfo rf i s | None \<Rightarrow> s)"

text \<open>changeServerDetails reads the last character of the route: none in an empty one.\<close>

definition with_slash :: "string \<Rightarrow> string" where
  "with_slash route = (if last route \<noteq> CHR ''/'' then route @ ''/'' else route)"

definition changeServerDetails :: "string \<Rightarrow> string \<Rightarrow> string \<Rightarrow> vrex_session \<Rightarrow> vrex_session option" where
  "changeServerDetails route aspect lang s =
     (if route = '''' then None
      else Some (s\<lparr>m_baseRoute := with_slash route, m_aspect_ratio := aspect, m_guideLanguage := lang\<rparr>))"

section \<open>Events on the bus\<close>

definition c_int :: "int \<Rightarrow> int" where
  "c_int n = sint (word_of_int n :: 32 word)"

definition int_text :: "int \<Rightarrow> string" where
  "int_text n = (if n < 0 then ''-'' @ decimal (nat (- n)) else decimal (nat n))"

definition quoted :: "string \<Rightarrow> string" where
  "quoted s = CHR 0x22 # s @ [CHR 0x22]"

definition error_fields :: "int \<Rightarrow> int \<Rightarrow> int \<Rightarrow> int \<Rightarrow> (string \<times> string) list" where
  "error_fields http curl vrex rf =
     map (\<lambda>(k, n). (k, int_text (c_int n))) (filter (\<lambda>(k, n). 0 < n)
       [(''httpErrorCode'', http), (''curlErrorCode'', curl), (''vrexErrorCode'', vrex), (''remoteErrorCode'', rf)])"

definition json_member :: "string \<times> string \<Rightarrow> string" where
  "json_member kv = quoted (fst kv) @ '':'' @ quoted (snd kv)"

fun comma_separated :: "string list \<Rightarrow> string" where
  "comma_separated [] = ''''"
| "comma_separated [x] = x"
| "comma_separated (x # xs) = x @ '','' @ comma_separated xs"

definition error_json :: "8 word \<Rightarrow> int \<Rightarrow> int \<Rightarrow> int \<Rightarrow> int \<Rightarrow> string \<Rightarrow> vrex_call \<Rightarrow> string" where
  "error_json r http curl vrex rf msg from =
     ''{'' @ json_member (''vrexCallType'', decimal (call_type from)) @ '',''
       @ json_member (''remoteId'', decimal (unat r)) @ '', '' @ quoted ''errors'' @ '':{''
       @ comma_separated (map json_member (error_fields http curl vrex rf @ [(''message'', msg)])) @ ''}}''"

definition error_message_length :: nat where
  "error_message_length = 256"

text \<open>safe\_copy into a buffer of len characters: at most len - 1 of them, then the NUL.\<close>

definition safe_copy :: "string \<Rightarrow> nat \<Rightarrow> string" where
  "safe_copy src len = take (min (length (c_string src)) (len - 1)) (c_string src)"

definition notifyError :: "vrex_session \<Rightarrow> int \<Rightarrow> int \<Rightarrow> int \<Rightarrow> int \<Rightarrow> string \<Rightarrow> vrex_call \<Rightarrow> vrex_world \<Rightarrow> vrex_world" where
  "notifyError s http curl vrex rf msg from =
     emit (Error_event (m_remoteId s)
       (safe_copy (error_json (m_remoteId s) http curl vrex rf (c_string msg) from) error_message_length))"

definition notifySuccess :: "vrex_session \<Rightarrow> vrex_world \<Rightarrow> vrex_world" where
  "notifySuccess s = emit (Success_event (m_remoteId s))"

definition strtol10 :: "vrex_env \<Rightarrow> string \<Rightarrow> int" where
  "strtol10 env s = max (- long_max env - 1) (min (long_max env) (atoi s))"

definition curl_error :: "vrex_env \<Rightarrow> string \<Rightarrow> nat \<Rightarrow> string" where
  "curl_error env head c = head @ decimal c @ ''): '' @ curl_strerror env c"

section \<open>Knock-knock\<close>

definition locale_fields :: "vrex_session \<Rightarrow> string" where
  "locale_fields s =
     (if m_guideLanguage s = '''' then '''' else ''&language='' @ m_guideLanguage s) @
     (if m_aspect_ratio s = '''' then '''' else ''&aspectRatio='' @ m_aspect_ratio s)"

definition knockknock_post :: "vrex_session \<Rightarrow> string" where
  "knockknock_post s = ''receiverId='' @ m_receiverId s @ ''&appId='' @ m_appId s @ locale_fields s"

definition getPostFieldString :: "vrex_session \<Rightarrow> string" where
  "getPostFieldString s =
     ''receiverId='' @ m_receiverId s @ ''&appId='' @ m_appId s @ ''&rf4ceMAC='' @ m_rf4ceMacAddress s"

definition getUserAgentString :: "vrex_session \<Rightarrow> string" where
  "getUserAgentString s =
     ''rmtType='' @ m_remoteType s @ ''; rmtSVer='' @ m_remoteSoftwareVersion s
       @ ''; rmtHVer='' @ m_remoteHardwareVersion s @ ''; stbName='' @ m_stbName s"

definition request :: "vrex_session \<Rightarrow> vrex_call \<Rightarrow> string \<Rightarrow> string \<Rightarrow> vrex_world \<Rightarrow> vrex_world" where
  "request s call url post = emit (Http_request (m_remoteId s) call url post (getUserAgentString s))"

definition perform :: "vrex_session \<Rightarrow> vrex_call \<Rightarrow> string \<Rightarrow> string \<Rightarrow> vrex_world
    \<Rightarrow> curl_result vrex_result \<times> vrex_world" where
  "perform s call url post w = await (m_remoteId s) call (request s call url post w)"

definition reply_of :: "vrex_env \<Rightarrow> string \<Rightarrow> string \<rightharpoonup> varVal" where
  "reply_of env body = m_dict (parse (yajl_tokens env body))"

definition knockknock_reply :: "vrex_env \<Rightarrow> vrex_session \<Rightarrow> curl_result \<Rightarrow> vrex_world
    \<Rightarrow> (bool \<times> vrex_session) vrex_result \<times> vrex_world" where
  "knockknock_reply env s res w =
     (case res of
        Curl_failed c \<Rightarrow>
          (Returns (False, s),
           notifyError s 0 (int c) 0 0 (curl_error env ''cURL call failed KnockKnock:('' c) KNOCKKNOCK w)
      | Curl_done http body \<Rightarrow>
          (let d = reply_of env body; s = s\<lparr>m_parameters := d\<rparr>
           in case d ''code'' of
                None \<Rightarrow> (Faults, w)
              | Some code \<Rightarrow>
                  if vv_str code = ''0''
                  then (case d ''cid'' of
                          None \<Rightarrow> (Faults, w)
                        | Some _ \<Rightarrow>
                            (Returns (True, s\<lparr>m_conversationExpires :=
                               vx_clock w + m_defaultConversationLength s\<rparr>), w))
                  else (case d ''message'' of
                          None \<Rightarrow> (Faults, w)
                        | Some msg \<Rightarrow>
                            (Returns (True, s),
                             notifyError s http 0 (strtol10 env (vv_str code)) 0 (vv_str msg) KNOCKKNOCK w))))"

definition onMotion :: "vrex_env \<Rightarrow> vrex_session \<Rightarrow> vrex_world
    \<Rightarrow> (bool \<times> vrex_session) vrex_result \<times> vrex_world" where
  "onMotion env s w =
     (if m_conversationExpires s = 0 then (Returns (False, s), w)
      else let s = s\<lparr>m_conversationExpires := 0\<rparr>
      in if \<not> m_curlInitialized s then (Returns (False, s), w)
      else and_then (perform s KNOCKKNOCK (m_baseRoute s @ ''knockknock'') (knockknock_post s) w)
             (knockknock_reply env s))"

text \<open>A key of the remote went up: extend a conversation that is about to expire.\<close>

definition updateExpiration :: "vrex_env \<Rightarrow> int \<Rightarrow> vrex_session \<Rightarrow> vrex_world
    \<Rightarrow> (bool \<times> vrex_session) vrex_result \<times> vrex_world" where
  "updateExpiration env window s w =
     (if 0 < m_conversationExpires s \<and> m_conversationExpires s < vx_clock w + window
      then onMotion env s w else (Returns (False, s), w))"

section \<open>The state of a recording\<close>

datatype send_state =
  BeginRecording | FinishedRecording | FinishedRecordingWithResults | FinishedRecordingWithErrors

fun m_sendStates :: "send_state \<Rightarrow> string" where
  "m_sendStates BeginRecording = ''BEGIN_RECORDING''"
| "m_sendStates FinishedRecording = ''FINISHED_RECORDING''"
| "m_sendStates FinishedRecordingWithResults = ''FINISHED_RECORDING_WITH_RESULTS''"
| "m_sendStates FinishedRecordingWithErrors = ''FINISHED_RECORDING_WITH_ERRORS''"

lemma emit_simps [simp]:
  "vx_answers (emit e w) = vx_answers w" "vx_clock (emit e w) = vx_clock w"
  "vx_log (emit e w) = vx_log w @ [e]"
  by (simp_all add: emit_def)

lemma notify_simps [simp]:
  "vx_answers (notifyError s h c v r msg from w) = vx_answers w"
  "vx_answers (notifySuccess s w) = vx_answers w"
  "vx_answers (request s call url post w) = vx_answers w"
  "vx_clock (notifyError s h c v r msg from w) = vx_clock w"
  "vx_clock (request s call url post w) = vx_clock w"
  by (simp_all add: notifyError_def notifySuccess_def request_def)

lemma perform_fewer:
  "perform s call url post w = (Returns res, w') \<Longrightarrow> length (vx_answers w') < length (vx_answers w)"
  by (auto simp: perform_def await_def split: list.splits)

lemma and_then_Returns:
  "and_then c f = (Returns b, w') \<longleftrightarrow> (\<exists>a w. c = (Returns a, w) \<and> f a w = (Returns b, w'))"
  by (cases "(c, f)" rule: and_then.cases) auto

lemma knockknock_reply_answers:
  "knockknock_reply env s res w = (Returns r, w') \<Longrightarrow> vx_answers w' = vx_answers w"
  by (auto simp: knockknock_reply_def Let_def split: curl_result.split_asm option.split_asm if_split_asm)

lemma onMotion_answers:
  "onMotion env s w = (Returns res, w') \<Longrightarrow> length (vx_answers w') \<le> length (vx_answers w)"
  by (auto simp: onMotion_def Let_def and_then_Returns dest!: perform_fewer knockknock_reply_answers
      split: if_split_asm)

definition send_state_refused :: "(string \<rightharpoonup> varVal) \<Rightarrow> vrex_session \<Rightarrow> vrex_world
    \<Rightarrow> (bool \<times> vrex_session) vrex_result \<times> vrex_world" where
  "send_state_refused d s w = (case d ''message'' of None \<Rightarrow> (Faults, w) | Some _ \<Rightarrow> (Returns (True, s), w))"

function sendState :: "vrex_env \<Rightarrow> send_state \<Rightarrow> vrex_session \<Rightarrow> vrex_world
    \<Rightarrow> (bool \<times> vrex_session) vrex_result \<times> vrex_world" where
  "sendState env st s w =
     (if \<not> m_curlInitialized s then (Returns (False, s), w)
      else case m_parameters s ''cid'' of
        None \<Rightarrow> (Returns (False, s), w)
      | Some cid \<Rightarrow>
          and_then (perform s SENDSTATE
              (m_baseRoute s @ ''xapi/sendstate?cid='' @ vv_str cid @ ''&state='' @ m_sendStates st)
              (getPostFieldString s) w)
            (\<lambda>res w. case res of
               Curl_failed c \<Rightarrow> (Returns (False, s), w)
             | Curl_done http body \<Rightarrow>
                 (let s = s\<lparr>m_conversationExpires := vx_clock w + m_defaultConversationLength s\<rparr>;
                      d = reply_of env body
                  in case d ''code'' of
                       None \<Rightarrow> (Returns (True, s), w)
                     | Some code \<Rightarrow>
                         if vv_str code = ''0'' then (Returns (True, s), w)
                         else if vv_str code = ''213''
                         then and_then (onMotion env s w)
                                (\<lambda>res w. if fst res then sendState env st (snd res) w
                                         else send_state_refused d (snd res) w)
                         else send_state_refused d s w)))"
  by pat_completeness auto
termination
  by (relation "measure (\<lambda>(env, st, s, w). length (vx_answers w))")
     (auto dest!: perform_fewer onMotion_answers)

declare sendState.simps [simp del]

section \<open>Speech\<close>

text \<open>How the system calls of a stream go: pthread\_create; socket, bind and listen of the thread;
  whether its broadcast comes after the caller waits; socket and connect of the caller.\<close>

record stream_io =
  thread_created :: bool
  server_up :: bool
  woken :: bool
  socket_ok :: bool
  connect_ok :: bool

definition stream_error :: "string \<Rightarrow> vrex_session \<Rightarrow> vrex_world \<Rightarrow> (bool \<times> vrex_session) vrex_result \<times> vrex_world" where
  "stream_error msg s w = (Returns (False, s), notifyError s 0 0 0 0 msg SPEECH w)"

definition speech_url :: "vrex_session \<Rightarrow> string \<Rightarrow> string" where
  "speech_url s cid =
     m_baseRoute s @ ''speech?cid='' @ cid @ ''&filters=SR,NLP,X1&codec='' @ subType (m_audioInfo s)
       @ ''&receiverId='' @ m_receiverId s @ ''&appId='' @ m_appId s @ locale_fields s"

text \<open>startTransferServer once a client connects: the thread t sends the request.\<close>

definition accept_stream :: "nat \<Rightarrow> vrex_session \<Rightarrow> vrex_world \<Rightarrow> (bool \<times> vrex_session) vrex_result \<times> vrex_world" where
  "accept_stream t s w =
     (case m_parameters s ''cid'' of
        None \<Rightarrow> (Faults, w)
      | Some cid \<Rightarrow>
          (Returns (True, s\<lparr>speech_threads := (t, True) # speech_threads s,
                            sent_bytes := (sent_bytes s)(t := [])\<rparr>),
           request s SPEECH (speech_url s (vv_str cid)) '''' w))"

definition open_stream :: "stream_io \<Rightarrow> vrex_session \<Rightarrow> vrex_world \<Rightarrow> (bool \<times> vrex_session) vrex_result \<times> vrex_world" where
  "open_stream io s w =
     (let s = s\<lparr>m_speechResponse := ''''\<rparr>
      in if \<not> thread_created io then stream_error ''Could not create thread to send speech data'' s w
      else let t = next_thread s; s = s\<lparr>m_dataReadThread := t, next_thread := t + 1\<rparr>
      in if \<not> server_up io \<or> \<not> woken io then (Deadlocks, w)
      else if \<not> socket_ok io
      then stream_error ''Speech socket call failed''
             (s\<lparr>m_clientSocket := None, speech_threads := (t, False) # speech_threads s\<rparr>) w
      else let s = s\<lparr>m_clientSocket := Some t\<rparr>
      in if \<not> connect_ok io
      then stream_error ''Speech connect call failed'' (s\<lparr>speech_threads := (t, False) # speech_threads s\<rparr>) w
      else accept_stream t s w)"

definition onStreamStart :: "vrex_env \<Rightarrow> audio_info \<Rightarrow> stream_io \<Rightarrow> vrex_session \<Rightarrow> vrex_world
    \<Rightarrow> (bool \<times> vrex_session) vrex_result \<times> vrex_world" where
  "onStreamStart env audio io s w =
     (let s = s\<lparr>m_audioInfo := audio\<rparr>;
          s = (if m_conversationExpires s = 0 then s\<lparr>m_conversationExpires := vx_clock w - 200\<rparr> else s)
      in and_then (if m_conversationExpires s < vx_clock w then onMotion env s w else (Returns (True, s), w))
        (\<lambda>(ok, s) w.
           if ok then open_stream io s w
           else stream_error ''Conversation id expired and could not reacquire. Aborting speech call'' s w))"

text \<open>write: the bytes reach the thread when it has accepted the connection.\<close>

definition onStreamData :: "8 word list \<Rightarrow> vrex_session \<Rightarrow> vrex_session" where
  "onStreamData bs s =
     (case m_clientSocket s of
        Some c \<Rightarrow> (if (c, True) \<in> set (speech_threads s)
                   then s\<lparr>sent_bytes := (sent_bytes s)(c := sent_bytes s c @ bs)\<rparr> else s)
      | None \<Rightarrow> s)"

text \<open>The end of a thread, when curl\_easy\_perform returns: it closes the client socket of the
  session, whichever it is by now.\<close>

definition thread_finish :: "vrex_env \<Rightarrow> nat \<Rightarrow> curl_result \<Rightarrow> vrex_session \<Rightarrow> vrex_world
    \<Rightarrow> (bool \<times> vrex_session) vrex_result \<times> vrex_world" where
  "thread_finish env t res s w =
     (let s = s\<lparr>m_clientSocket := None, speech_threads := removeAll (t, True) (speech_threads s)\<rparr>
      in case res of
           Curl_failed c \<Rightarrow>
             (Returns (True, s), notifyError s 0 (int c) 0 0 (curl_error env ''cURL call failed ('' c) SPEECH w)
         | Curl_done http body \<Rightarrow>
             (let s = s\<lparr>m_speechResponse := m_speechResponse s @ body\<rparr>; d = reply_of env (m_speechResponse s)
              in case d ''code'' of
                   None \<Rightarrow> (Returns (True, s), notifySuccess s w)
                 | Some code \<Rightarrow>
                     (let ret = strtol10 env (vv_str code)
                      in if http \<noteq> 200 \<or> ret \<noteq> 0
                         then (case d ''message'' of
                                 None \<Rightarrow> (Faults, w)
                               | Some msg \<Rightarrow> (Returns (True, s), notifyError s http 0 ret 0 (vv_str msg) SPEECH w))
                         else (Returns (True, s), notifySuccess s w))))"

text \<open>pthread\_join: a thread that waits in accept never ends.\<close>

definition join_thread :: "vrex_env \<Rightarrow> vrex_session \<Rightarrow> vrex_world \<Rightarrow> (bool \<times> vrex_session) vrex_result \<times> vrex_world" where
  "join_thread env s w =
     (let t = m_dataReadThread s
      in if (t, True) \<in> set (speech_threads s)
         then and_then (await (m_remoteId s) SPEECH w) (\<lambda>res w. thread_finish env t res s w)
         else if (t, False) \<in> set (speech_threads s) then (Deadlocks, w)
         else (Returns (True, s), w))"

definition onStreamEnd :: "vrex_env \<Rightarrow> nat \<Rightarrow> vrex_session \<Rightarrow> vrex_world
    \<Rightarrow> (bool \<times> vrex_session) vrex_result \<times> vrex_world" where
  "onStreamEnd env reason s w =
     and_then (case m_clientSocket s of
                 Some c \<Rightarrow> join_thread env (s\<lparr>m_clientSocket := None\<rparr>) w
               | None \<Rightarrow> (Returns (True, s), w))
       (\<lambda>(_, s) w.
          (Returns (True, s),
           if reason \<noteq> 0
           then notifyError s 0 0 0 (int reason)
                  (''Audio stream '' @ (if reason = 1 then ''canceled'' else ''aborted due to error'')
                     @ '' from remote'') SPEECH w
           else w))"

text \<open>A thread whose upload ends by itself: an answer of the server, or the time limit.\<close>

definition thread_ends :: "vrex_env \<Rightarrow> nat \<Rightarrow> curl_result \<Rightarrow> vrex_session \<Rightarrow> vrex_world
    \<Rightarrow> (bool \<times> vrex_session) vrex_result \<times> vrex_world" where
  "thread_ends env t res s w =
     (if (t, True) \<in> set (speech_threads s)
      then thread_finish env t res s (emit (Http_answer (m_remoteId s) SPEECH res) w)
      else (Returns (False, s), w))"

section \<open>The contract of the operations\<close>

text \<open>The body of the last knock-knock answer of a remote in a log.\<close>

fun kk_answer :: "8 word \<Rightarrow> vrex_effect \<Rightarrow> string option" where
  "kk_answer r (Http_answer r' KNOCKKNOCK (Curl_done http body)) = (if r' = r then Some body else None)"
| "kk_answer r _ = None"

definition last_kk :: "8 word \<Rightarrow> vrex_effect list \<Rightarrow> string option" where
  "last_kk r log = foldl (\<lambda>acc e. case kk_answer r e of Some b \<Rightarrow> Some b | None \<Rightarrow> acc) None log"

lemma last_kk_snoc [simp]:
  "last_kk r (log @ [e]) = (case kk_answer r e of Some b \<Rightarrow> Some b | None \<Rightarrow> last_kk r log)"
  by (cases "kk_answer r e") (simp_all add: last_kk_def)

lemma kk_answer_remote: "kk_answer r e = Some b \<Longrightarrow> effect_remote e = r"
  by (induction r e rule: kk_answer.induct) (auto split: if_split_asm)

lemma last_kk_others:
  assumes "\<forall>e\<in>set es. effect_remote e \<noteq> r"
  shows "last_kk r (log @ es) = last_kk r log"
  using assms
proof (induction es rule: rev_induct)
  case (snoc e es)
  then have "kk_answer r e = None" using kk_answer_remote [of r e] by (cases "kk_answer r e") auto
  with snoc show ?case by (simp flip: append_assoc)
qed simp

text \<open>A request that belongs to a conversation names the one of the last knock-knock.\<close>

definition carries_cid :: "vrex_env \<Rightarrow> vrex_effect list \<Rightarrow> 8 word \<Rightarrow> string \<Rightarrow> bool" where
  "carries_cid env log r url =
     (\<exists>body cid pre post. last_kk r log = Some body \<and> reply_of env body ''cid'' = Some cid
        \<and> url = pre @ ''cid='' @ vv_str cid @ post)"

fun request_ok :: "vrex_env \<Rightarrow> vrex_effect list \<Rightarrow> vrex_effect \<Rightarrow> bool" where
  "request_ok env log (Http_request r call url post agent) = (call = KNOCKKNOCK \<or> carries_cid env log r url)"
| "request_ok env log _ = True"

definition log_ok :: "vrex_env \<Rightarrow> vrex_effect list \<Rightarrow> bool" where
  "log_ok env log = (\<forall>i<length log. request_ok env (take i log) (log ! i))"

lemma log_ok_snoc [simp]: "log_ok env (log @ [e]) \<longleftrightarrow> log_ok env log \<and> request_ok env log e"
proof
  assume ok: "log_ok env (log @ [e])"
  have "request_ok env (take i log) (log ! i)" if "i < length log" for i
    using ok that unfolding log_ok_def by (drule_tac spec [of _ i]) (simp add: nth_append)
  moreover have "request_ok env log e"
    using ok unfolding log_ok_def by (drule_tac spec [of _ "length log"]) simp
  ultimately show "log_ok env log \<and> request_ok env log e" by (simp add: log_ok_def)
next
  assume "log_ok env log \<and> request_ok env log e"
  then show "log_ok env (log @ [e])" by (auto simp: log_ok_def nth_append less_Suc_eq)
qed

definition conversation :: "vrex_env \<Rightarrow> vrex_session \<Rightarrow> vrex_effect list \<Rightarrow> bool" where
  "conversation env s log =
     (m_parameters s = Map.empty
    \<or> (\<exists>body. last_kk (m_remoteId s) log = Some body \<and> m_parameters s = reply_of env body))"

definition same_identity :: "vrex_session \<Rightarrow> vrex_session \<Rightarrow> bool" where
  "same_identity s s' =
     (m_remoteId s' = m_remoteId s \<and> m_receiverId s' = m_receiverId s \<and> m_stbName s' = m_stbName s
    \<and> m_baseRoute s' = m_baseRoute s \<and> m_aspect_ratio s' = m_aspect_ratio s
    \<and> m_guideLanguage s' = m_guideLanguage s)"

text \<open>What every operation promises: it acts for its own remote only, keeps the identity of the
  session, and keeps requests within the last conversation.\<close>

definition promises :: "vrex_env \<Rightarrow> vrex_session \<Rightarrow> vrex_world
    \<Rightarrow> ('a \<times> vrex_session) vrex_result \<times> vrex_world \<Rightarrow> bool" where
  "promises env s w out =
     (case out of (res, w') \<Rightarrow>
        (\<exists>es. vx_log w' = vx_log w @ es \<and> (\<forall>e\<in>set es. effect_remote e = m_remoteId s))
      \<and> (log_ok env (vx_log w) \<longrightarrow> conversation env s (vx_log w) \<longrightarrow> log_ok env (vx_log w'))
      \<and> (\<forall>a s'. res = Returns (a, s') \<longrightarrow> same_identity s s'
           \<and> (log_ok env (vx_log w) \<longrightarrow> conversation env s (vx_log w) \<longrightarrow> conversation env s' (vx_log w'))))"

locale session_op =
  fixes env :: vrex_env
    and oper :: "vrex_session \<Rightarrow> vrex_world \<Rightarrow> ('a \<times> vrex_session) vrex_result \<times> vrex_world"
  assumes op_promises: "promises env s w (oper s w)"

lemma same_identity_trans: "same_identity s t \<Longrightarrow> same_identity t u \<Longrightarrow> same_identity s u"
  by (simp add: same_identity_def)

lemma promises_same:
  "same_identity s s' \<Longrightarrow> m_parameters s' = m_parameters s \<Longrightarrow> promises env s w (Returns (a, s'), w)"
  by (simp add: promises_def same_identity_def conversation_def)

lemma promises_stop:
  "promises env s w (Faults, w)" "promises env s w (Waits, w)" "promises env s w (Deadlocks, w)"
  by (simp_all add: promises_def)

text \<open>A session with the same identity and parameters makes the same promises.\<close>

lemma promises_from:
  assumes "promises env t w out" and "same_identity s t" and "m_parameters t = m_parameters s"
  shows "promises env s w out"
proof -
  have "conversation env t l = conversation env s l" for l
    using assms(2,3) by (simp add: conversation_def same_identity_def)
  moreover have "m_remoteId t = m_remoteId s" using assms(2) by (simp add: same_identity_def)
  ultimately show ?thesis
    using assms(1,2) by (auto simp: promises_def same_identity_def split: prod.splits)
qed

lemma promises_and_then:
  assumes c: "promises env s w c"
    and f: "\<And>a s' w'. c = (Returns (a, s'), w') \<Longrightarrow> promises env s' w' (f (a, s') w')"
  shows "promises env s w (and_then c f)"
proof (cases "fst c")
  case (Returns b)
  obtain a s' w' where b: "c = (Returns (a, s'), w')" using Returns by (cases c; cases b) auto
  obtain res w'' where f': "f (a, s') w' = (res, w'')" by fastforce
  from c [unfolded b] f [OF b, unfolded f']
  have id: "same_identity s s'" and own: "m_remoteId s' = m_remoteId s"
    by (auto simp: promises_def same_identity_def)
  from c [unfolded b] obtain es where es: "vx_log w' = vx_log w @ es" "\<forall>e\<in>set es. effect_remote e = m_remoteId s"
    by (auto simp: promises_def)
  from f [OF b, unfolded f'] obtain fs where fs: "vx_log w'' = vx_log w' @ fs"
      "\<forall>e\<in>set fs. effect_remote e = m_remoteId s"
    by (auto simp: promises_def own)
  have "\<exists>gs. vx_log w'' = vx_log w @ gs \<and> (\<forall>e\<in>set gs. effect_remote e = m_remoteId s)"
    using es fs by (intro exI [of _ "es @ fs"]) auto
  moreover have "log_ok env (vx_log w) \<longrightarrow> conversation env s (vx_log w) \<longrightarrow> log_ok env (vx_log w'')"
    using c [unfolded b] f [OF b, unfolded f'] by (auto simp: promises_def)
  moreover have "\<forall>a s'. res = Returns (a, s') \<longrightarrow> same_identity s s'
      \<and> (log_ok env (vx_log w) \<longrightarrow> conversation env s (vx_log w) \<longrightarrow> conversation env s' (vx_log w''))"
    using c [unfolded b] f [OF b, unfolded f'] by (auto simp: promises_def intro: same_identity_trans [OF id])
  ultimately show ?thesis unfolding b and_then.simps f' by (simp add: promises_def)
qed (use c in \<open>cases c; auto simp: promises_def\<close>)+

text \<open>An effect of the own remote that is no knock-knock answer.\<close>

lemma promises_emit:
  assumes "effect_remote e = m_remoteId s" and "kk_answer (m_remoteId s) e = None"
    and "conversation env s (vx_log w) \<Longrightarrow> request_ok env (vx_log w) e"
    and "promises env s (emit e w) out"
  shows "promises env s w out"
proof -
  have conv: "conversation env s (vx_log w @ [e]) = conversation env s (vx_log w)"
    using assms(2) by (simp add: conversation_def)
  obtain res w' where out: "out = (res, w')" by fastforce
  from assms(4)[unfolded out] obtain es where "vx_log w' = vx_log w @ e # es"
      "\<forall>e\<in>set es. effect_remote e = m_remoteId s" by (auto simp: promises_def)
  then have "\<exists>es. vx_log w' = vx_log w @ es \<and> (\<forall>e\<in>set es. effect_remote e = m_remoteId s)"
    using assms(1) by (intro exI [of _ "e # es"]) auto
  then show ?thesis using assms(3,4) by (auto simp: out promises_def conv)
qed

lemma promises_notify:
  "promises env s (notifyError t h c v r msg from w) out \<Longrightarrow> m_remoteId t = m_remoteId s \<Longrightarrow> promises env s w out"
  "promises env s (notifySuccess t w) out \<Longrightarrow> m_remoteId t = m_remoteId s \<Longrightarrow> promises env s w out"
  unfolding notifyError_def notifySuccess_def by (erule promises_emit [rotated 3]; simp)+

lemma promises_log: "promises env s v out \<Longrightarrow> vx_log w = vx_log v \<Longrightarrow> promises env s w out"
  by (simp add: promises_def)

lemma promises_returns_notify:
  assumes "same_identity s s'" and "m_parameters s' = m_parameters s"
  shows "promises env s w (Returns (a, s'), notifyError s' h c v r msg from w)"
    and "promises env s w (Returns (a, s'), notifySuccess s' w)"
proof -
  have "m_remoteId s' = m_remoteId s" using assms(1) by (simp add: same_identity_def)
  with promises_same [OF assms]
  show "promises env s w (Returns (a, s'), notifyError s' h c v r msg from w)"
    and "promises env s w (Returns (a, s'), notifySuccess s' w)"
    by (rule promises_notify; assumption)+
qed

lemma promises_await:
  assumes "call \<noteq> KNOCKKNOCK"
    and "\<And>res w'. await (m_remoteId s) call w = (Returns res, w') \<Longrightarrow> promises env s w' (f res w')"
  shows "promises env s w (and_then (await (m_remoteId s) call w) f)"
proof (cases "vx_answers w")
  case Nil
  then show ?thesis by (simp add: await_def promises_stop)
next
  case (Cons a rest)
  obtain secs res where a: "a = (secs, res)" by fastforce
  have none: "kk_answer (m_remoteId s) (Http_answer (m_remoteId s) call res) = None"
    using assms(1) by (cases call) auto
  let ?w = "w\<lparr>vx_clock := vx_clock w + int secs, vx_answers := rest\<rparr>"
  have eq: "await (m_remoteId s) call w = (Returns res, emit (Http_answer (m_remoteId s) call res) ?w)"
    using Cons by (simp add: await_def a)
  have "promises env s ?w (f res (emit (Http_answer (m_remoteId s) call res) ?w))"
    by (rule promises_emit [OF _ none]) (simp_all add: assms(2) [OF eq])
  then show ?thesis by (simp add: eq promises_log [of _ _ ?w])
qed

section \<open>The operations keep the contract\<close>

text \<open>An answer to a knock-knock request starts a conversation: the reply becomes the parameters.\<close>

lemma knockknock_done_promises:
  assumes "vx_log v = vx_log w" and "same_identity s t"
  shows "promises env s w (knockknock_reply env t (Curl_done http body)
           (emit (Http_answer (m_remoteId s) KNOCKKNOCK (Curl_done http body)) v))"
proof -
  let ?e = "Http_answer (m_remoteId s) KNOCKKNOCK (Curl_done http body)"
  have t: "m_remoteId t = m_remoteId s" using assms(2) by (simp add: same_identity_def)
  have conv: "conversation env s' (vx_log w @ [?e])" "conversation env s' (vx_log w @ [?e, Error_event r msg])"
    if "m_remoteId s' = m_remoteId s" and "m_parameters s' = reply_of env body" for s' r msg
    using that last_kk_snoc [of _ "vx_log w @ [?e]" "Error_event r msg"] by (simp_all add: conversation_def)
  have ok: "log_ok env (vx_log w @ [?e])" "log_ok env (vx_log w @ [?e, Error_event r msg])"
    if "log_ok env (vx_log w)" for r msg
    using that log_ok_snoc [of env "vx_log w @ [?e]" "Error_event r msg"] by simp_all
  show ?thesis
    using assms(2)
    by (simp add: knockknock_reply_def Let_def notifyError_def t assms(1) promises_def same_identity_def
        conv ok split: option.split)
qed

lemma knockknock_failed_promises:
  assumes "same_identity s t" and "m_parameters t = m_parameters s"
  shows "promises env s w (knockknock_reply env t (Curl_failed c) w)"
  unfolding knockknock_reply_def curl_result.case by (rule promises_returns_notify [OF assms])

lemma onMotion_promises: "promises env s w (onMotion env s w)"
proof (cases "m_conversationExpires s = 0 \<or> \<not> m_curlInitialized s")
  case True
  then show ?thesis by (auto simp: onMotion_def Let_def same_identity_def intro: promises_same)
next
  case False
  define t where "t = s\<lparr>m_conversationExpires := 0\<rparr>"
  have t: "same_identity s t" "m_parameters t = m_parameters s" "m_remoteId t = m_remoteId s"
      "m_curlInitialized t" using False by (simp_all add: t_def same_identity_def)
  define v where "v = request t KNOCKKNOCK (m_baseRoute t @ ''knockknock'') (knockknock_post t) w"
  have eq: "onMotion env s w = and_then (await (m_remoteId s) KNOCKKNOCK v) (knockknock_reply env t)"
    using False t by (simp add: onMotion_def Let_def perform_def v_def t_def)
  have "promises env s v (onMotion env s w)"
  proof (cases "vx_answers v")
    case Nil
    then show ?thesis by (simp add: eq await_def promises_stop)
  next
    case (Cons a rest)
    obtain secs res where a: "a = (secs, res)" by fastforce
    define u where "u = v\<lparr>vx_clock := vx_clock v + int secs, vx_answers := rest\<rparr>"
    have "onMotion env s w = knockknock_reply env t res (emit (Http_answer (m_remoteId s) KNOCKKNOCK res) u)"
      by (simp add: eq await_def Cons a u_def)
    moreover have "promises env s u (knockknock_reply env t res (emit (Http_answer (m_remoteId s) KNOCKKNOCK res) u))"
    proof (cases res)
      case (Curl_failed c)
      show ?thesis
        unfolding Curl_failed by (rule promises_emit [rotated 3], rule knockknock_failed_promises) (simp_all add: t)
    next
      case (Curl_done http body)
      then show ?thesis using knockknock_done_promises [OF refl t(1)] by simp
    qed
    ultimately have "promises env s u (onMotion env s w)" by simp
    then show ?thesis by (rule promises_log) (simp add: u_def)
  qed
  then show ?thesis unfolding v_def request_def t(3) by (rule promises_emit [rotated 3]) simp_all
qed

interpretation motion: session_op env "onMotion env" for env
  by unfold_locales (rule onMotion_promises)

interpretation key_up: session_op env "updateExpiration env window" for env window
  by unfold_locales (simp add: updateExpiration_def motion.op_promises promises_same same_identity_def)

lemma carries_cid_intro:
  assumes "conversation env s log" and "m_parameters s ''cid'' = Some cid"
    and "url = pre @ ''cid='' @ vv_str cid @ post"
  shows "carries_cid env log (m_remoteId s) url"
proof -
  obtain body where "last_kk (m_remoteId s) log = Some body" "m_parameters s = reply_of env body"
    using assms(1,2) by (auto simp: conversation_def)
  with assms(2,3) show ?thesis unfolding carries_cid_def by metis
qed

lemma promises_request:
  assumes "m_parameters s ''cid'' = Some cid" and "url = pre @ ''cid='' @ vv_str cid @ post"
    and "promises env s (request s call url data w) out"
  shows "promises env s w out"
  using assms(3) unfolding request_def
  by (rule promises_emit [rotated 3]) (simp_all add: carries_cid_intro [OF _ assms(1,2)])

lemma send_state_refused_promises: "promises env s w (send_state_refused d s w)"
  by (auto simp: send_state_refused_def promises_stop same_identity_def intro: promises_same
      split: option.split)

lemma sendState_promises: "promises env s w (sendState env st s w)"
proof (induction env st s w rule: sendState.induct)
  case (1 env st s w)
  show ?case
  proof (cases "m_curlInitialized s \<and> m_parameters s ''cid'' \<noteq> None")
    case False
    then show ?thesis
      by (subst sendState.simps) (auto simp: same_identity_def intro: promises_same split: option.split)
  next
    case True
    then obtain cid where cid: "m_curlInitialized s" "m_parameters s ''cid'' = Some cid" by auto
    let ?url = "m_baseRoute s @ ''xapi/sendstate?cid='' @ vv_str cid @ ''&state='' @ m_sendStates st"
    have reply: "promises env s w' (case res of
               Curl_failed c \<Rightarrow> (Returns (False, s), w')
             | Curl_done http body \<Rightarrow>
                 (let s = s\<lparr>m_conversationExpires := vx_clock w' + m_defaultConversationLength s\<rparr>;
                      d = reply_of env body
                  in case d ''code'' of
                       None \<Rightarrow> (Returns (True, s), w')
                     | Some code \<Rightarrow>
                         if vv_str code = ''0'' then (Returns (True, s), w')
                         else if vv_str code = ''213''
                         then and_then (onMotion env s w')
                                (\<lambda>res w. if fst res then sendState env st (snd res) w
                                         else send_state_refused d (snd res) w)
                         else send_state_refused d s w'))"
      if perf: "perform s SENDSTATE ?url (getPostFieldString s) w = (Returns res, w')" for res w'
    proof (cases res)
      case (Curl_failed c)
      then show ?thesis by (simp add: promises_same same_identity_def)
    next
      case (Curl_done http body)
      define t where "t = s\<lparr>m_conversationExpires := vx_clock w' + m_defaultConversationLength s\<rparr>"
      have t: "same_identity s t" "m_parameters t = m_parameters s" by (simp_all add: t_def same_identity_def)
      define d where "d = reply_of env body"
      have redo: "promises env t w' (and_then (onMotion env t w')
            (\<lambda>res w. if fst res then sendState env st (snd res) w else send_state_refused d (snd res) w))"
        if "d ''code'' = Some code" "vv_str code = ''213''" for code
        using 1 [OF _ cid(2) perf Curl_done] cid(1) that
        by (intro promises_and_then motion.op_promises)
           (auto simp: t_def d_def send_state_refused_promises)
      show ?thesis
        unfolding Curl_done curl_result.case Let_def t_def [symmetric] d_def [symmetric]
        using t redo
        by (auto simp: promises_same intro: promises_from [OF _ t] send_state_refused_promises
            split: option.split)
    qed
    have run: "promises env s w (and_then (perform s SENDSTATE ?url (getPostFieldString s) w) f)"
      if "\<And>res w'. perform s SENDSTATE ?url (getPostFieldString s) w = (Returns res, w') \<Longrightarrow> promises env s w' (f res w')"
      for f :: "curl_result \<Rightarrow> vrex_world \<Rightarrow> (bool \<times> vrex_session) vrex_result \<times> vrex_world"
    proof (rule promises_request [OF cid(2)])
      show "?url = (m_baseRoute s @ ''xapi/sendstate?'') @ ''cid='' @ vv_str cid @ ''&state='' @ m_sendStates st"
        by simp
      show "promises env s (request s SENDSTATE ?url (getPostFieldString s) w)
          (and_then (perform s SENDSTATE ?url (getPostFieldString s) w) f)"
        unfolding perform_def by (rule promises_await) (use that in \<open>simp_all add: perform_def\<close>)
    qed
    show ?thesis
      using cid by (subst sendState.simps) (simp only: not_True_eq_False if_False option.case, rule run, rule reply)
  qed
qed

lemma open_stream_promises: "promises env s w (open_stream io s w)"
proof -
  have err: "promises env s w (stream_error msg t w)"
    if "same_identity s t" "m_parameters t = m_parameters s" for msg t
    unfolding stream_error_def by (rule promises_returns_notify [OF that])
  have acc: "promises env s w (accept_stream n t w)"
    if t: "same_identity s t" "m_parameters t = m_parameters s" for n t
  proof (cases "m_parameters t ''cid''")
    case None
    then show ?thesis by (simp add: accept_stream_def promises_stop)
  next
    case (Some cid)
    show ?thesis
      unfolding accept_stream_def Some option.case
    proof (rule promises_from [OF _ t], rule promises_request [OF Some])
      show "speech_url t (vv_str cid) = (m_baseRoute t @ ''speech?'') @ ''cid='' @ vv_str cid
          @ (''&filters=SR,NLP,X1&codec='' @ subType (m_audioInfo t)
             @ ''&receiverId='' @ m_receiverId t @ ''&appId='' @ m_appId t @ locale_fields t)"
        by (simp add: speech_url_def)
    qed (rule promises_same, simp_all add: same_identity_def)
  qed
  show ?thesis
    by (simp add: open_stream_def Let_def err acc promises_stop same_identity_def)
qed

lemma onStreamStart_promises: "promises env s w (onStreamStart env audio io s w)"
proof -
  define t where "t = (let s = s\<lparr>m_audioInfo := audio\<rparr>
      in if m_conversationExpires s = 0 then s\<lparr>m_conversationExpires := vx_clock w - 200\<rparr> else s)"
  have t: "same_identity s t" "m_parameters t = m_parameters s"
    by (simp_all add: t_def Let_def same_identity_def)
  have eq: "onStreamStart env audio io s w =
      and_then (if m_conversationExpires t < vx_clock w then onMotion env t w else (Returns (True, t), w))
        (\<lambda>(ok, s) w. if ok then open_stream io s w
           else stream_error ''Conversation id expired and could not reacquire. Aborting speech call'' s w)"
    by (simp only: onStreamStart_def t_def Let_def)
  have "promises env t w (onStreamStart env audio io s w)"
    unfolding eq
    by (rule promises_and_then)
       (auto simp: motion.op_promises open_stream_promises stream_error_def promises_returns_notify
          promises_same same_identity_def)
  then show ?thesis by (rule promises_from [OF _ t])
qed

lemma thread_finish_promises: "promises env s w (thread_finish env t res s w)"
proof -
  have stop: "promises env s w (Returns (True, u), notifyError u h c v r msg call w)"
      "promises env s w (Returns (True, u), notifySuccess u w)"
    if "same_identity s u" "m_parameters u = m_parameters s" for u h c v r msg call
    by (rule promises_returns_notify [OF that])+
  show ?thesis
    by (cases res)
       (simp_all add: thread_finish_def Let_def stop promises_stop same_identity_def split: option.split)
qed

lemma join_thread_promises: "promises env s w (join_thread env s w)"
  by (simp add: join_thread_def Let_def promises_stop promises_same same_identity_def)
     (auto intro: promises_await thread_finish_promises)

lemma onStreamEnd_promises: "promises env s w (onStreamEnd env reason s w)"
proof -
  have join: "promises env s w (join_thread env (s\<lparr>m_clientSocket := None\<rparr>) w)"
    by (rule promises_from [OF join_thread_promises]) (simp_all add: same_identity_def)
  show ?thesis
    unfolding onStreamEnd_def
    by (rule promises_and_then)
       (auto simp: join promises_returns_notify promises_same same_identity_def split: option.split)
qed

lemma thread_ends_promises: "promises env s w (thread_ends env t res s w)"
proof (cases "(t, True) \<in> set (speech_threads s)")
  case True
  have "promises env s w (thread_finish env t res s (emit (Http_answer (m_remoteId s) SPEECH res) w))"
    by (rule promises_emit [rotated 3], rule thread_finish_promises) simp_all
  with True show ?thesis by (simp add: thread_ends_def)
qed (simp add: thread_ends_def promises_same same_identity_def)

interpretation send_state: session_op env "sendState env st" for env st
  by unfold_locales (rule sendState_promises)

interpretation stream_start: session_op env "onStreamStart env audio io" for env audio io
  by unfold_locales (rule onStreamStart_promises)

interpretation stream_data: session_op env "\<lambda>s w. (Returns (True, onStreamData bs s), w)" for env bs
  by unfold_locales
     (auto simp: onStreamData_def same_identity_def intro!: promises_same split: option.split)

interpretation stream_end: session_op env "onStreamEnd env reason" for env reason
  by unfold_locales (rule onStreamEnd_promises)

interpretation thread: session_op env "thread_ends env t res" for env t res
  by unfold_locales (rule thread_ends_promises)

section \<open>The state of a recording: how long the server is asked\<close>

fun is_request :: "vrex_effect \<Rightarrow> bool" where
  "is_request (Http_request _ _ _ _ _) = True"
| "is_request _ = False"

definition requests :: "vrex_effect list \<Rightarrow> nat" where
  "requests log = length (filter is_request log)"

lemma requests_simps [simp]:
  "requests (log @ es) = requests log + requests es" "requests [] = 0"
  "requests (e # es) = (if is_request e then 1 else 0) + requests es"
  by (simp_all add: requests_def)

text \<open>The world after an answered request.\<close>

definition answered :: "vrex_session \<Rightarrow> vrex_call \<Rightarrow> string \<Rightarrow> string \<Rightarrow> nat \<Rightarrow> curl_result \<Rightarrow> (nat \<times> curl_result) list
    \<Rightarrow> vrex_world \<Rightarrow> vrex_world" where
  "answered s call url post d res rest w =
     w\<lparr>vx_clock := vx_clock w + int d, vx_answers := rest,
       vx_log := vx_log w @ [Http_request (m_remoteId s) call url post (getUserAgentString s),
                             Http_answer (m_remoteId s) call res]\<rparr>"

lemma answered_simps [simp]:
  "vx_clock (answered s call url post d res rest w) = vx_clock w + int d"
  "vx_answers (answered s call url post d res rest w) = rest"
  "requests (vx_log (answered s call url post d res rest w)) = requests (vx_log w) + 1"
  by (simp_all add: answered_def)

lemma perform_answered:
  "vx_answers w = (d, res) # rest \<Longrightarrow>
     perform s call url post w = (Returns res, answered s call url post d res rest w)"
  by (simp add: perform_def await_def request_def emit_def answered_def)

lemma perform_waits:
  "vx_answers w = [] \<Longrightarrow> fst (perform s call url post w) = Waits
    \<and> requests (vx_log (snd (perform s call url post w))) = requests (vx_log w) + 1"
  by (simp add: perform_def await_def request_def)

lemma onMotion_renews:
  assumes "m_curlInitialized s" and "m_conversationExpires s \<noteq> 0"
    and "vx_answers w = (d, Curl_done h renewed) # rest"
    and "reply_of env renewed ''code'' = Some z" and "vv_str z = ''0''"
    and "reply_of env renewed ''cid'' = Some cid"
  shows "\<exists>s' w'. onMotion env s w = (Returns (True, s'), w') \<and> m_curlInitialized s'
    \<and> m_parameters s' ''cid'' = Some cid \<and> m_defaultConversationLength s' = m_defaultConversationLength s
    \<and> m_conversationExpires s' = vx_clock w' + m_defaultConversationLength s'
    \<and> vx_answers w' = rest \<and> vx_clock w \<le> vx_clock w' \<and> requests (vx_log w') = requests (vx_log w) + 1"
  using assms by (simp add: onMotion_def Let_def perform_answered knockknock_reply_def)

text \<open>An answer 213 and the knock-knock that renews the conversation.\<close>

lemma sendState_renews:
  assumes s: "m_curlInitialized s" "m_parameters s ''cid'' = Some cid"
    and expired: "reply_of env expired ''code'' = Some e" "vv_str e = ''213''"
    and renewed: "reply_of env renewed ''code'' = Some z" "vv_str z = ''0''"
      "reply_of env renewed ''cid'' = Some cid'"
    and now: "0 < vx_clock w + m_defaultConversationLength s"
    and answers: "vx_answers w = (d, Curl_done h expired) # (d', Curl_done h' renewed) # rest"
  shows "\<exists>s' w'. sendState env st s w = sendState env st s' w' \<and> m_curlInitialized s'
    \<and> m_parameters s' ''cid'' = Some cid' \<and> m_defaultConversationLength s' = m_defaultConversationLength s
    \<and> vx_answers w' = rest \<and> vx_clock w \<le> vx_clock w' \<and> requests (vx_log w') = requests (vx_log w) + 2"
proof -
  define v where "v = answered s SENDSTATE (m_baseRoute s @ ''xapi/sendstate?cid='' @ vv_str cid @ ''&state='' @ m_sendStates st)
    (getPostFieldString s) d (Curl_done h expired) ((d', Curl_done h' renewed) # rest) w"
  define t where "t = s\<lparr>m_conversationExpires := vx_clock v + m_defaultConversationLength s\<rparr>"
  have "m_curlInitialized t" "m_conversationExpires t \<noteq> 0" "vx_answers v = (d', Curl_done h' renewed) # rest"
    using s(1) now by (simp_all add: t_def v_def)
  from onMotion_renews [OF this renewed] obtain s' w'
    where renew: "onMotion env t v = (Returns (True, s'), w')" "m_curlInitialized s'"
      "m_parameters s' ''cid'' = Some cid'" "m_defaultConversationLength s' = m_defaultConversationLength t"
      "vx_answers w' = rest" "vx_clock v \<le> vx_clock w'" "requests (vx_log w') = requests (vx_log v) + 1"
    by blast
  have "sendState env st s w = and_then (onMotion env t v)
      (\<lambda>res w. if fst res then sendState env st (snd res) w
               else send_state_refused (reply_of env expired) (snd res) w)"
    using s expired by (subst sendState.simps) (simp add: perform_answered [OF answers] t_def v_def)
  also have "\<dots> = sendState env st s' w'" by (simp add: renew(1))
  finally show ?thesis
    using renew by (intro exI [of _ s'] exI [of _ w']) (simp add: t_def v_def)
qed

lemma sendState_rounds:
  assumes "m_curlInitialized s" and "m_parameters s ''cid'' = Some cid"
    and expired: "reply_of env expired ''code'' = Some e" "vv_str e = ''213''"
    and renewed: "reply_of env renewed ''code'' = Some z" "vv_str z = ''0''"
      "reply_of env renewed ''cid'' = Some cid'"
    and "0 < vx_clock w + m_defaultConversationLength s"
    and "vx_answers w = concat (replicate n [(d, Curl_done h expired), (d', Curl_done h' renewed)]) @ rest"
  shows "\<exists>s' w' cid. sendState env st s w = sendState env st s' w' \<and> m_curlInitialized s'
    \<and> m_parameters s' ''cid'' = Some cid \<and> vx_answers w' = rest
    \<and> requests (vx_log w') = requests (vx_log w) + 2 * n"
  using assms(1,2,8,9)
proof (induction n arbitrary: s w cid)
  case 0
  then show ?case by auto
next
  case (Suc n)
  have "vx_answers w = (d, Curl_done h expired) # (d', Curl_done h' renewed)
      # (concat (replicate n [(d, Curl_done h expired), (d', Curl_done h' renewed)]) @ rest)"
    using Suc.prems(4) by simp
  from sendState_renews [OF Suc.prems(1,2) expired renewed Suc.prems(3) this]
  obtain s' w' where r: "sendState env st s w = sendState env st s' w'" "m_curlInitialized s'"
      "m_parameters s' ''cid'' = Some cid'" "m_defaultConversationLength s' = m_defaultConversationLength s"
      "vx_answers w' = concat (replicate n [(d, Curl_done h expired), (d', Curl_done h' renewed)]) @ rest"
      "vx_clock w \<le> vx_clock w'" "requests (vx_log w') = requests (vx_log w) + 2"
    by blast
  have "0 < vx_clock w' + m_defaultConversationLength s'" using Suc.prems(3) r(4,6) by simp
  from Suc.IH [OF r(2,3) this r(5)] r(1,7) show ?case by auto
qed

section \<open>Properties\<close>

text \<open>C40. How often the server is asked.  While the server answers a state message with code 213 (the
  conversation expired) and grants a new conversation each time, sendState repeats the message, with
  no bound: after any number n of such rounds it has sent 2 n requests and sends the next.  It
  returns, with success and 2 n + 1 requests in all, at the first answer with code 0 or without one.\<close>

theorem state_message_is_repeated_while_expired:
  assumes "m_curlInitialized s" and "m_parameters s ''cid'' = Some cid"
    and "0 < vx_clock w + m_defaultConversationLength s"
    and "reply_of env expired ''code'' = Some e" and "vv_str e = ''213''"
    and "reply_of env renewed ''code'' = Some z" and "vv_str z = ''0''"
    and "reply_of env renewed ''cid'' = Some cid'"
    and "reply_of env accepted ''code'' \<in> {None, Some z}"
  shows "let rounds = concat (replicate n [(d, Curl_done h expired), (d', Curl_done h' renewed)]);
             waiting = sendState env st s (w\<lparr>vx_answers := rounds\<rparr>);
             done = sendState env st s (w\<lparr>vx_answers := rounds @ [(d'', Curl_done h'' accepted)]\<rparr>)
         in fst waiting = Waits \<and> requests (vx_log (snd waiting)) = requests (vx_log w) + 2 * n + 1
          \<and> (\<exists>s'. fst done = Returns (True, s')) \<and> requests (vx_log (snd done)) = requests (vx_log w) + 2 * n + 1"
proof -
  let ?rounds = "concat (replicate n [(d, Curl_done h expired), (d', Curl_done h' renewed)])"
  note rounds = sendState_rounds [OF assms(1,2,4-8), of _ n d h d' h' _ st]
  obtain s1 w1 cid1 where 1: "sendState env st s (w\<lparr>vx_answers := ?rounds\<rparr>) = sendState env st s1 w1"
      "m_curlInitialized s1" "m_parameters s1 ''cid'' = Some cid1" "vx_answers w1 = []"
      "requests (vx_log w1) = requests (vx_log w) + 2 * n"
    using rounds [of "w\<lparr>vx_answers := ?rounds\<rparr>" "[]"] assms(3) by auto
  obtain s2 w2 cid2 where 2: "sendState env st s (w\<lparr>vx_answers := ?rounds @ [(d'', Curl_done h'' accepted)]\<rparr>)
        = sendState env st s2 w2"
      "m_curlInitialized s2" "m_parameters s2 ''cid'' = Some cid2" "vx_answers w2 = [(d'', Curl_done h'' accepted)]"
      "requests (vx_log w2) = requests (vx_log w) + 2 * n"
    using rounds [of "w\<lparr>vx_answers := ?rounds @ [(d'', Curl_done h'' accepted)]\<rparr>"
        "[(d'', Curl_done h'' accepted)]"] assms(3) by auto
  have "fst (sendState env st s1 w1) = Waits
      \<and> requests (vx_log (snd (sendState env st s1 w1))) = requests (vx_log w1) + 1"
  proof -
    let ?p = "perform s1 SENDSTATE (m_baseRoute s1 @ ''xapi/sendstate?cid='' @ vv_str cid1 @ ''&state=''
      @ m_sendStates st) (getPostFieldString s1) w1"
    from perform_waits [OF 1(4), of s1] obtain v where "?p = (Waits, v)" "requests (vx_log v) = requests (vx_log w1) + 1"
      by (metis prod.collapse)
    with 1(2,3) show ?thesis by (subst (1 2) sendState.simps) simp
  qed
  moreover have "(\<exists>s'. fst (sendState env st s2 w2) = Returns (True, s'))
      \<and> requests (vx_log (snd (sendState env st s2 w2))) = requests (vx_log w2) + 1"
    using 2(2,3) assms(7,9) by (subst (1 2) sendState.simps) (auto simp: perform_answered [OF 2(4)])
  ultimately show ?thesis using 1(1,5) 2(1,5) by (simp add: Let_def)
qed

definition echo_env :: vrex_env where
  "echo_env = \<lparr>yajl_tokens = (\<lambda>b. if b = ''expired'' then [Y_map_key ''code'', Y_number ''213'']
       else [Y_map_key ''code'', Y_number ''0'', Y_map_key ''cid'', Y_string b]),
     curl_strerror = (\<lambda>_. ''error''), long_max = 2147483647, curl_init_ok = True\<rparr>"

definition echo_session :: vrex_session where
  "echo_session = (VREXSession echo_env 1000 4 ''receiver'' 180 ''http://voice/'' [] [] None 0 ''stb'')
     \<lparr>m_parameters := [''cid'' \<mapsto> new_varVal]\<rparr>"

lemma state_message_is_repeated_while_expired_witness:
  "fst (sendState echo_env BeginRecording echo_session
     \<lparr>vx_clock = 1000, vx_answers = concat (replicate 3 [(1, Curl_done 200 ''expired''), (1, Curl_done 200 ''x'')]),
      vx_log = []\<rparr>) = Waits"
proof -
  let ?w = "\<lparr>vx_clock = 1000, vx_answers = [], vx_log = []\<rparr> :: vrex_world"
  have "m_curlInitialized echo_session" "m_parameters echo_session ''cid'' = Some new_varVal"
      "0 < vx_clock ?w + m_defaultConversationLength echo_session"
    by (simp_all add: echo_session_def VREXSession_def echo_env_def)
  moreover have "reply_of echo_env ''expired'' ''code'' = Some (new_varVal\<lparr>vv_str := ''213''\<rparr>)"
      "reply_of echo_env ''x'' ''code'' = Some (new_varVal\<lparr>vv_str := ''0''\<rparr>)"
      "reply_of echo_env ''x'' ''cid'' = Some (new_varVal\<lparr>vv_str := ''x''\<rparr>)"
    by code_simp+
  ultimately show ?thesis
    using state_message_is_repeated_while_expired [where s = echo_session and w = ?w and env = echo_env
        and expired = "''expired''" and renewed = "''x''" and accepted = "''x''" and st = BeginRecording
        and n = 3 and d = 1 and h = 200 and d' = 1 and h' = 200]
    by (simp add: Let_def)
qed

text \<open>The texts that sprintf writes into tempBuffer.\<close>

definition TEMP_BUFFER_SIZE :: nat where
  "TEMP_BUFFER_SIZE = 20"

lemma length_hex: "n < 256 \<Longrightarrow> length (hex n) \<le> 2"
  by (subst hex.simps) (simp add: Let_def hex.simps [of "n div 16"] div_less_iff_less_mult)

lemma length_decimal: "n < 1000 \<Longrightarrow> length (decimal n) \<le> 3"
  by (subst decimal.simps)
     (simp add: decimal.simps [of "n div 10"] decimal.simps [of "n div 10 div 10"] div_less_iff_less_mult)

lemma length_byte: "length (decimal (unat (b :: 8 word))) \<le> 3" "length (hex (unat b)) \<le> 2"
  using unsigned_less [of b, where ?'a = nat] by (auto intro!: length_decimal length_hex)

lemma decimal_dot_inj:
  assumes "decimal m @ CHR ''.'' # xs = decimal n @ CHR ''.'' # ys"
  shows "m = n \<and> xs = ys"
proof -
  have "takeWhile c_isdigit (decimal k @ CHR ''.'' # zs) = decimal k" for k zs
    by (rule digits_value_decimal(2)) (simp add: c_isdigit_def)
  then have d: "decimal m = decimal n" using assms by metis
  then have "int m = int n" by (metis foldl_decimal)
  with d assms show ?thesis by simp
qed

text \<open>The texts about a remote fit into the buffer of getStaticStbAndRemoteinfo and version texts
  are faithful.  Any software or hardware version and any MAC address of 8 bytes needs, with the
  final NUL, at most the 20 characters of tempBuffer, and two versions never have the same text.\<close>

lemma remote_texts_fit_buffer:
  assumes "length mac = 8"
  shows "length (dotted v) < TEMP_BUFFER_SIZE \<and> length (mac_text mac) < TEMP_BUFFER_SIZE
    \<and> (dotted v = dotted v') = (v = v')"
proof (intro conjI)
  obtain a b c d where v: "v = (a, b, c, d)" by (cases v)
  obtain a' b' c' d' where v': "v' = (a', b', c', d')" by (cases v')
  show "length (dotted v) < TEMP_BUFFER_SIZE"
    using length_byte(1) [of a] length_byte(1) [of b] length_byte(1) [of c] length_byte(1) [of d]
    by (simp add: dotted_def v TEMP_BUFFER_SIZE_def)
  have "length (concat (map (hex \<circ> unat) bs)) \<le> 2 * length bs" for bs :: "8 word list"
  proof (induction bs)
    case (Cons b bs)
    with length_byte(2) [of b] show ?case by simp
  qed simp
  from this [of "rev mac"] show "length (mac_text mac) < TEMP_BUFFER_SIZE"
    using assms by (simp add: mac_text_def TEMP_BUFFER_SIZE_def)
  have "decimal m = decimal n \<Longrightarrow> m = n" for m n
    using decimal_dot_inj [of m "[]" n "[]"] by simp
  then have "dotted v = dotted v' \<Longrightarrow> v = v'"
    by (auto simp: dotted_def v v' word_unat_eq_iff dest!: decimal_dot_inj)
  then show "(dotted v = dotted v') = (v = v')" by blast
qed

lemma remote_texts_fit_buffer_witness:
  "length (mac_text (replicate 8 255)) < TEMP_BUFFER_SIZE"
  using remote_texts_fit_buffer [of "replicate 8 255" "(0, 0, 0, 0)" "(0, 0, 0, 0)"] by simp

text \<open>The bytes of the MAC address are not padded: different addresses have the same text.\<close>

lemma mac_text_is_ambiguous:
  "mac_text [0x11, 0x1] = mac_text [0x1, 0x11]"
  by code_simp

end
