(* ===== verification/Vrex_Mgr.thy ===== *)
theory Vrex_Mgr
  imports Vrex_Session "HOL-Library.AList"
begin

text \<open>
  The voice manager: vrexmgr/vrexMgr.cpp.  It watches the voice remotes that are bound to the box,
  keeps a session for each remote that sends motion or speech, passes the settings of the server on
  to the sessions and extends conversations when keys are released.  The bus, the files, the RF
  status and the answers of the voice server are inputs.
\<close>

section \<open>The manager\<close>

text \<open>What the process does: it runs, or a handler has faulted, waits for an answer of the server that
  does not come, or waits for ever.  Exited is the exit of the start-up.\<close>

datatype vrex_life = Running | Faulted | Waiting | Deadlocked | Exited

record vrex_mgr =
  remotes :: "(8 word \<times> vrex_session) list"
  receiverId :: string
  stbName :: string
  defaultRemoteName :: string
  defaultRoute :: string
  guideLanguage :: string
  aspect_ratio :: string
  defaultConversationLength :: int
  defaultExpirationWindow :: int
  bVoiceControl :: bool
  currentPowerMode :: int
  vx_initialized :: bool
  vrex_life :: vrex_life
  vx_world :: vrex_world

definition vrex_statics :: "int \<Rightarrow> vrex_mgr" where
  "vrex_statics now = \<lparr>remotes = [], receiverId = '''', stbName = '''', defaultRemoteName = ''XR11-20'',
     defaultRoute = ''https://vrex.g.comcast.net/vsp/v1/'', guideLanguage = '''', aspect_ratio = '''',
     defaultConversationLength = 180, defaultExpirationWindow = 60, bVoiceControl = True,
     currentPowerMode = 0, vx_initialized = False, vrex_life = Running,
     vx_world = \<lparr>vx_clock = now, vx_answers = [], vx_log = []\<rparr>\<rparr>"

definition sessionExists :: "8 word \<Rightarrow> vrex_mgr \<Rightarrow> bool" where
  "sessionExists r m = (map_of (remotes m) r \<noteq> None)"

definition new_session :: "vrex_env \<Rightarrow> 8 word \<Rightarrow> rf_status option \<Rightarrow> nat \<Rightarrow> vrex_mgr \<Rightarrow> vrex_session" where
  "new_session env r rf i m =
     VREXSession env (vx_clock (vx_world m)) r (receiverId m) (defaultConversationLength m) (defaultRoute m)
       (aspect_ratio m) (guideLanguage m) rf i (stbName m)"

definition findOrNewSession :: "vrex_env \<Rightarrow> 8 word \<Rightarrow> rf_status option \<Rightarrow> nat \<Rightarrow> vrex_mgr \<Rightarrow> vrex_mgr" where
  "findOrNewSession env r rf i m =
     (if sessionExists r m then m
      else m\<lparr>remotes := AList.update r (new_session env r rf i m) (remotes m)\<rparr>)"

text \<open>Call an operation on the session of a remote.\<close>

definition call_session :: "(vrex_session \<Rightarrow> vrex_world \<Rightarrow> ('a \<times> vrex_session) vrex_result \<times> vrex_world)
    \<Rightarrow> 8 word \<Rightarrow> vrex_mgr \<Rightarrow> vrex_mgr" where
  "call_session oper r m =
     (case map_of (remotes m) r of
        None \<Rightarrow> m
      | Some s \<Rightarrow>
          (case oper s (vx_world m) of
             (Returns (_, s'), w) \<Rightarrow> m\<lparr>remotes := AList.update r s' (remotes m), vx_world := w\<rparr>
           | (Faults, w) \<Rightarrow> m\<lparr>vx_world := w, vrex_life := Faulted\<rparr>
           | (Waits, w) \<Rightarrow> m\<lparr>vx_world := w, vrex_life := Waiting\<rparr>
           | (Deadlocks, w) \<Rightarrow> m\<lparr>vx_world := w, vrex_life := Deadlocked\<rparr>))"

section \<open>Power and remotes\<close>

definition is_powered_on :: "int option \<Rightarrow> vrex_mgr \<Rightarrow> bool \<times> vrex_mgr" where
  "is_powered_on answer m =
     (let m = (if currentPowerMode m = -1
               then m\<lparr>currentPowerMode := (case answer of Some st \<Rightarrow> st | None \<Rightarrow> -1)\<rparr> else m)
      in (currentPowerMode m \<noteq> 0, m))"

definition PowerPreChange :: "int \<Rightarrow> vrex_mgr \<Rightarrow> vrex_mgr" where
  "PowerPreChange new m = m\<lparr>currentPowerMode := new\<rparr>"

definition isVoiceRemote :: "bind_remote \<Rightarrow> vrex_mgr \<Rightarrow> bool" where
  "isVoiceRemote b m = (defaultRemoteName m = Type b)"

text \<open>remotes.clear () destroys the sessions: a thread that still uploads for one of them goes on with
  freed memory.  The loop leaves out the last slot of the status.\<close>

definition watch_remote :: "vrex_env \<Rightarrow> rf_status \<Rightarrow> nat \<Rightarrow> vrex_mgr \<Rightarrow> vrex_mgr" where
  "watch_remote env rf i m =
     (let b = bindRemotes rf ! i
      in if ShortAddress b \<noteq> 0xFFFF \<and> isVoiceRemote b m
         then findOrNewSession env (br_remoteId b) (Some rf) i m else m)"

definition uploads :: "vrex_session \<Rightarrow> bool" where
  "uploads s = list_ex snd (speech_threads s)"

definition configureRemotesToWatch :: "vrex_env \<Rightarrow> rf_status option \<Rightarrow> vrex_mgr \<Rightarrow> vrex_mgr" where
  "configureRemotesToWatch env rf m =
     (case rf of
        None \<Rightarrow> m
      | Some rf \<Rightarrow>
          if list_ex (uploads \<circ> snd) (remotes m) then m\<lparr>vrex_life := Faulted\<rparr>
          else fold (watch_remote env rf) [0..<length (bindRemotes rf) - 1] (m\<lparr>remotes := []\<rparr>))"

record pair_message =
  pm_len :: nat
  pm_expected_len :: nat
  pm_validation_complete :: bool
  pm_success :: bool

definition pairEventHandler :: "vrex_env \<Rightarrow> pair_message \<Rightarrow> rf_status option \<Rightarrow> vrex_mgr \<Rightarrow> vrex_mgr" where
  "pairEventHandler env pm rf m =
     (if pm_len pm \<noteq> pm_expected_len pm then m
      else if pm_validation_complete pm \<and> pm_success pm
      then configureRemotesToWatch env rf
             (m\<lparr>vx_world := (vx_world m)\<lparr>vx_clock := vx_clock (vx_world m) + 1\<rparr>\<rparr>)
      else m)"

definition updateSessionTimeout :: "vrex_env \<Rightarrow> 8 word \<Rightarrow> vrex_mgr \<Rightarrow> vrex_mgr" where
  "updateSessionTimeout env r m =
     call_session (updateExpiration env (defaultExpirationWindow m)) r (findOrNewSession env r None 0 m)"

definition keyEventHandler :: "vrex_env \<Rightarrow> int \<Rightarrow> 8 word \<Rightarrow> vrex_mgr \<Rightarrow> vrex_mgr" where
  "keyEventHandler env keyStatus r m =
     (if keyStatus = KET_KEYUP \<and> sessionExists r m then updateSessionTimeout env r m else m)"

section \<open>Settings\<close>

text \<open>The parser is used twice and keeps its dictionary.  find (c, 2) gives an int, -1 for npos;
  substr (-1, ...) throws, and an end of -1 is the largest count.\<close>

definition parse_again :: "yajl_event list \<Rightarrow> json_parser \<Rightarrow> json_parser" where
  "parse_again es p = fold yajl_callback es p"

definition settings_text :: "string \<Rightarrow> string option" where
  "settings_text json =
     (case str_find_from ''{'' 2 json of
        None \<Rightarrow> None
      | Some start \<Rightarrow>
          Some (case str_find_from ''}'' 2 json of
                  None \<Rightarrow> drop start json
                | Some end_pos \<Rightarrow> take end_pos (drop start json)))"

definition text_setting :: "(string \<rightharpoonup> varVal) \<Rightarrow> string \<Rightarrow> string \<Rightarrow> string" where
  "text_setting d k old = (case d k of Some vv \<Rightarrow> vv_str vv | None \<Rightarrow> old)"

definition change_all :: "string \<Rightarrow> string \<Rightarrow> string \<Rightarrow> (8 word \<times> vrex_session) list
    \<Rightarrow> (8 word \<times> vrex_session) list option" where
  "change_all route aspect lang xs =
     (if list_all (\<lambda>(r, s). changeServerDetails route aspect lang s \<noteq> None) xs
      then Some (map (\<lambda>(r, s). (r, the (changeServerDetails route aspect lang s))) xs) else None)"

definition handleSettingsFromServer :: "vrex_env \<Rightarrow> string \<Rightarrow> vrex_mgr \<Rightarrow> vrex_mgr" where
  "handleSettingsFromServer env json m =
     (let p = parse (yajl_tokens env json);
          m = (case m_dict p ''VoiceControlOptIn'' of
                 Some vv \<Rightarrow> m\<lparr>bVoiceControl := vv_boolean vv\<rparr> | None \<Rightarrow> m)
      in case (case m_dict p ''parameters'' of
                 Some vv \<Rightarrow> Some (c_string (vv_str vv)) | None \<Rightarrow> map_option c_string (settings_text json)) of
           None \<Rightarrow> m\<lparr>vrex_life := Faulted\<rparr>
         | Some text \<Rightarrow>
             (let d = m_dict (parse_again (yajl_tokens env text) p);
                  route = text_setting d ''vrexURL'' (defaultRoute m);
                  lang = text_setting d ''GuideLanguage'' (guideLanguage m);
                  aspect = text_setting d ''aspect_ratio'' (aspect_ratio m)
              in case change_all route aspect lang (remotes m) of
                   None \<Rightarrow> m\<lparr>vrex_life := Faulted\<rparr>
                 | Some rs \<Rightarrow>
                     m\<lparr>defaultRoute := route, guideLanguage := lang, aspect_ratio := aspect, remotes := rs\<rparr>))"

section \<open>Events\<close>

definition speech_begin :: "vrex_env \<Rightarrow> audio_info \<Rightarrow> stream_io \<Rightarrow> vrex_session \<Rightarrow> vrex_world
    \<Rightarrow> (bool \<times> vrex_session) vrex_result \<times> vrex_world" where
  "speech_begin env audio io s w =
     (let audio = (if language audio = '''' then audio\<lparr>language := ''en''\<rparr> else audio)
      in and_then (onStreamStart env audio io s w)
           (\<lambda>(ok, s) w. sendState env (if ok then BeginRecording else FinishedRecordingWithErrors) s w))"

text \<open>A fragment is an array of 1024 bytes and the length the sender gives, which is not checked.\<close>

definition SPEECH_FRAGMENTLENGTH :: nat where
  "SPEECH_FRAGMENTLENGTH = 1024"

definition speech_fragment :: "nat \<Rightarrow> 8 word list \<Rightarrow> vrex_session \<Rightarrow> vrex_world
    \<Rightarrow> (bool \<times> vrex_session) vrex_result \<times> vrex_world" where
  "speech_fragment len bs s w =
     (if m_clientSocket s \<noteq> None \<and> SPEECH_FRAGMENTLENGTH < len then (Faults, w)
      else (Returns (True, onStreamData (take len bs) s), w))"

definition speech_end :: "vrex_env \<Rightarrow> nat \<Rightarrow> vrex_session \<Rightarrow> vrex_world
    \<Rightarrow> (bool \<times> vrex_session) vrex_result \<times> vrex_world" where
  "speech_end env reason s w =
     and_then (onStreamEnd env reason s w) (\<lambda>(_, s) w. sendState env FinishedRecording s w)"

datatype vrex_event =
    Settings_event string
  | Motion_event
  | Speech_begin audio_info stream_io
  | Speech_fragment nat "8 word list"
  | Speech_end nat
  | Unknown_event

definition vrexEventHandler :: "vrex_env \<Rightarrow> int option \<Rightarrow> 8 word \<Rightarrow> vrex_event \<Rightarrow> vrex_mgr \<Rightarrow> vrex_mgr" where
  "vrexEventHandler env answer r ev m =
     (case is_powered_on answer m of (on, m) \<Rightarrow>
        if \<not> on then m
        else case ev of
          Settings_event json \<Rightarrow> handleSettingsFromServer env json m
        | Unknown_event \<Rightarrow> m
        | Motion_event \<Rightarrow>
            if bVoiceControl m then call_session (onMotion env) r (findOrNewSession env r None 0 m) else m
        | Speech_begin audio io \<Rightarrow>
            if bVoiceControl m then call_session (speech_begin env audio io) r (findOrNewSession env r None 0 m)
            else m
        | Speech_fragment len bs \<Rightarrow>
            if bVoiceControl m then call_session (speech_fragment len bs) r (findOrNewSession env r None 0 m)
            else m
        | Speech_end reason \<Rightarrow>
            if bVoiceControl m then call_session (speech_end env reason) r (findOrNewSession env r None 0 m)
            else m)"

datatype vrex_input =
    Vrex_event "int option" "8 word" vrex_event
  | Key_event int "8 word"
  | Pair_event pair_message "rf_status option"
  | Power_change int
  | Thread_ends "8 word" nat curl_result

fun handle_input :: "vrex_env \<Rightarrow> vrex_input \<Rightarrow> vrex_mgr \<Rightarrow> vrex_mgr" where
  "handle_input env (Vrex_event answer r ev) m = vrexEventHandler env answer r ev m"
| "handle_input env (Key_event keyStatus r) m = keyEventHandler env keyStatus r m"
| "handle_input env (Pair_event pm rf) m = pairEventHandler env pm rf m"
| "handle_input env (Power_change new) m = PowerPreChange new m"
| "handle_input env (Thread_ends r t res) m = call_session (thread_ends env t res) r m"

text \<open>An input comes secs seconds after the last one; answers are what the server says meanwhile.\<close>

definition vrex_step :: "vrex_env \<Rightarrow> nat \<times> (nat \<times> curl_result) list \<times> vrex_input \<Rightarrow> vrex_mgr \<Rightarrow> vrex_mgr" where
  "vrex_step env inp m =
     (case inp of (secs, answers, i) \<Rightarrow>
        if vrex_life m \<noteq> Running then m
        else handle_input env i (m\<lparr>vx_world := (vx_world m)\<lparr>vx_clock := vx_clock (vx_world m) + int secs,
                                                           vx_answers := answers\<rparr>\<rparr>))"

section \<open>Start and stop\<close>

text \<open>The two files with the device id; 127 bytes are read.\<close>

definition loadReceiverId :: "string option \<times> string option \<Rightarrow> string option" where
  "loadReceiverId files = map_option (take 127) (case fst files of Some c \<Rightarrow> Some c | None \<Rightarrow> snd files)"

definition find_first_of :: "char set \<Rightarrow> string \<Rightarrow> nat option" where
  "find_first_of cs s = (if length (takeWhile (\<lambda>c. c \<notin> cs) s) < length s
     then Some (length (takeWhile (\<lambda>c. c \<notin> cs) s)) else None)"

definition stb_name :: "string \<Rightarrow> string option" where
  "stb_name content =
     (if length content \<le> length ''imagename:'' then None
      else let text = c_string content
      in case str_find ''imagename:'' text of
           None \<Rightarrow> None
         | Some start \<Rightarrow>
             (let rest = drop (start + length ''imagename:'') text
              in map_option (\<lambda>n. take n rest) (find_first_of {CHR ''_'', CHR 0x0D, CHR 0x0A} rest)))"

definition getSTBName :: "string option \<Rightarrow> bool \<times> string" where
  "getSTBName version_txt =
     (case version_txt of
        None \<Rightarrow> (False, ''unknown'')
      | Some content \<Rightarrow> (case stb_name content of None \<Rightarrow> (False, ''unknown'') | Some n \<Rightarrow> (True, n)))"

definition vrex_conf_path :: "(string \<Rightarrow> bool) \<Rightarrow> string option" where
  "vrex_conf_path file_exists =
     (let path = (if file_exists ''/opt/vrexPrefs.json'' then ''/opt/vrexPrefs.json''
                  else ''/mnt/nfs/env/vrexPrefs.json'')
      in if file_exists path then Some path else None)"

definition loadConfiguration ::
    "vrex_env \<Rightarrow> (string \<Rightarrow> bool) \<Rightarrow> (string \<Rightarrow> string option) \<Rightarrow> vrex_mgr \<Rightarrow> vrex_mgr" where
  "loadConfiguration env file_exists read_file m =
     (case vrex_conf_path file_exists of
        None \<Rightarrow> m
      | Some path \<Rightarrow>
          (case read_file path of
             None \<Rightarrow> m
           | Some content \<Rightarrow>
               (let d = reply_of env (c_string (read_conf '''' content));
                    number = (\<lambda>k old. case d k of Some vv \<Rightarrow> atoi (vv_str vv) | None \<Rightarrow> old)
                in m\<lparr>defaultRemoteName := text_setting d ''remoteName'' (defaultRemoteName m),
                     defaultRoute := text_setting d ''route'' (defaultRoute m),
                     defaultConversationLength := number ''defaultConversationLength'' (defaultConversationLength m),
                     defaultExpirationWindow := number ''defaultExpirationWindow'' (defaultExpirationWindow m)\<rparr>)))"

record vrex_start =
  st_bus_init :: iarm_result
  st_bus_connect :: iarm_result
  st_power :: "int option"
  st_device_ids :: "(string option \<times> string option) list"
  st_version_txt :: "string option"
  st_file_exists :: "string \<Rightarrow> bool"
  st_read_file :: "string \<Rightarrow> string option"
  st_rf_status :: "rf_status option"

text \<open>The id is read every second until a file is there, then once more.\<close>

definition VREXMgr_Start :: "vrex_env \<Rightarrow> vrex_start \<Rightarrow> vrex_mgr \<Rightarrow> iarm_result \<times> vrex_mgr" where
  "VREXMgr_Start env io m =
     (if vx_initialized m then (IARM_RESULT_INVALID_STATE, m)
      else let status = (if st_bus_init io = IARM_RESULT_SUCCESS then st_bus_connect io else st_bus_init io)
      in if status \<noteq> IARM_RESULT_SUCCESS then (status, m)
      else let m = m\<lparr>currentPowerMode := (case st_power io of Some st \<Rightarrow> st | None \<Rightarrow> -1)\<rparr>
      in case dropWhile (\<lambda>files. loadReceiverId files = None) (st_device_ids io) of
           found # again # _ \<Rightarrow>
             (case loadReceiverId again of
                None \<Rightarrow> (IARM_RESULT_SUCCESS, m\<lparr>vrex_life := Exited\<rparr>)
              | Some i \<Rightarrow>
                  (let m = m\<lparr>receiverId := i, stbName := snd (getSTBName (st_version_txt io))\<rparr>;
                       m = loadConfiguration env (st_file_exists io) (st_read_file io) m;
                       m = configureRemotesToWatch env (st_rf_status io) m
                   in (IARM_RESULT_SUCCESS, m\<lparr>vx_initialized := True\<rparr>)))
         | _ \<Rightarrow> (IARM_RESULT_SUCCESS, m\<lparr>vrex_life := Waiting\<rparr>))"

definition VREXMgr_Stop :: "vrex_mgr \<Rightarrow> iarm_result \<times> vrex_mgr" where
  "VREXMgr_Stop m =
     (if vx_initialized m then (IARM_RESULT_SUCCESS, m\<lparr>vx_initialized := False\<rparr>)
      else (IARM_RESULT_INVALID_STATE, m))"

section \<open>The invariant\<close>

text \<open>A session agrees with the manager, and belongs to the last conversation of its remote.\<close>

definition session_ok :: "vrex_env \<Rightarrow> vrex_mgr \<Rightarrow> 8 word \<Rightarrow> vrex_session \<Rightarrow> bool" where
  "session_ok env m r s =
     (m_remoteId s = r \<and> m_receiverId s = receiverId m \<and> m_stbName s = stbName m
    \<and> m_aspect_ratio s = aspect_ratio m \<and> m_guideLanguage s = guideLanguage m
    \<and> m_baseRoute s \<in> {defaultRoute m, with_slash (defaultRoute m)}
    \<and> conversation env s (vx_log (vx_world m)))"

definition vrex_inv :: "vrex_env \<Rightarrow> vrex_mgr \<Rightarrow> bool" where
  "vrex_inv env m =
     (log_ok env (vx_log (vx_world m))
    \<and> (vrex_life m = Running \<longrightarrow> (\<forall>r s. map_of (remotes m) r = Some s \<longrightarrow> session_ok env m r s)))"

text \<open>Fields the invariant does not read.\<close>

lemma vrex_inv_cong:
  assumes "remotes m' = remotes m" and "vx_log (vx_world m') = vx_log (vx_world m)"
    and "receiverId m' = receiverId m" and "stbName m' = stbName m" and "aspect_ratio m' = aspect_ratio m"
    and "guideLanguage m' = guideLanguage m" and "defaultRoute m' = defaultRoute m"
    and "vrex_life m' = Running \<longrightarrow> vrex_life m = Running" and "vrex_inv env m"
  shows "vrex_inv env m'"
  using assms by (simp add: vrex_inv_def session_ok_def)

lemma new_session_fields [simp]:
  "m_remoteId (new_session env r rf i m) = r" "m_receiverId (new_session env r rf i m) = receiverId m"
  "m_stbName (new_session env r rf i m) = stbName m" "m_aspect_ratio (new_session env r rf i m) = aspect_ratio m"
  "m_guideLanguage (new_session env r rf i m) = guideLanguage m"
  "m_baseRoute (new_session env r rf i m) = defaultRoute m"
  "m_parameters (new_session env r rf i m) = Map.empty"
  "m_clientSocket (new_session env r rf i m) = None" "speech_threads (new_session env r rf i m) = []"
  by (simp_all add: new_session_def VREXSession_def getStaticStbAndRemoteinfo_def Let_def split: option.split)

lemma findOrNewSession_fields [simp]:
  "vx_world (findOrNewSession env r rf i m) = vx_world m"
  "vrex_life (findOrNewSession env r rf i m) = vrex_life m"
  "bVoiceControl (findOrNewSession env r rf i m) = bVoiceControl m"
  "currentPowerMode (findOrNewSession env r rf i m) = currentPowerMode m"
  "defaultRemoteName (findOrNewSession env r rf i m) = defaultRemoteName m"
  by (simp_all add: findOrNewSession_def)

lemma map_of_findOrNewSession:
  "map_of (remotes (findOrNewSession env r rf i m)) r' =
     (if r' = r \<and> map_of (remotes m) r = None then Some (new_session env r rf i m) else map_of (remotes m) r')"
  by (simp add: findOrNewSession_def sessionExists_def update_conv')

lemma findOrNewSession_inv:
  "vrex_inv env m \<Longrightarrow> vrex_inv env (findOrNewSession env r rf i m)"
  by (auto simp: vrex_inv_def session_ok_def findOrNewSession_def sessionExists_def update_conv'
      conversation_def split: if_split_asm)

text \<open>The promises of an operation carry over to the manager.\<close>

context session_op
begin

lemma call_session_inv:
  assumes inv: "vrex_inv env m" and run: "vrex_life m = Running"
  shows "vrex_inv env (call_session oper r m)"
proof (cases "map_of (remotes m) r")
  case None
  then show ?thesis using inv by (simp add: call_session_def)
next
  case (Some s)
  obtain res w where op: "oper s (vx_world m) = (res, w)" by fastforce
  from inv run Some have s: "session_ok env m r s" and log: "log_ok env (vx_log (vx_world m))"
    by (auto simp: vrex_inv_def)
  note p = op_promises [of s "vx_world m", unfolded op promises_def, simplified]
  from p s obtain es where es: "vx_log w = vx_log (vx_world m) @ es" "\<forall>e\<in>set es. effect_remote e = r"
    by (auto simp: session_ok_def)
  have ok: "log_ok env (vx_log w)" using p s log by (simp add: session_ok_def)
  show ?thesis
  proof (cases res)
    case (Returns b)
    obtain a s' where b: "b = (a, s')" by fastforce
    have s': "same_identity s s'" "conversation env s' (vx_log w)"
      using p s log by (auto simp: Returns b session_ok_def)
    have "session_ok env (call_session oper r m) r' s''"
      if "map_of (remotes (call_session oper r m)) r' = Some s''" for r' s''
    proof (cases "r' = r")
      case True
      with that s' s show ?thesis
        by (simp add: call_session_def Some op Returns b update_conv' session_ok_def same_identity_def)
    next
      case False
      then have "map_of (remotes m) r' = Some s''"
        using that by (simp add: call_session_def Some op Returns b update_conv')
      then have "session_ok env m r' s''" using inv run by (simp add: vrex_inv_def)
      moreover have "last_kk r' (vx_log w) = last_kk r' (vx_log (vx_world m))"
        using es False by (simp add: last_kk_others)
      ultimately show ?thesis
        by (auto simp: call_session_def Some op Returns b session_ok_def conversation_def)
    qed
    then show ?thesis using ok by (simp add: vrex_inv_def call_session_def Some op Returns b)
  qed (use ok in \<open>simp_all add: vrex_inv_def call_session_def Some op\<close>)
qed

text \<open>Other remotes are not touched, and what is done is done for this remote.\<close>

lemma call_session_frame:
  assumes "\<forall>s. map_of (remotes m) r = Some s \<longrightarrow> m_remoteId s = r"
  shows "r' \<noteq> r \<Longrightarrow> map_of (remotes (call_session oper r m)) r' = map_of (remotes m) r'"
    and "\<exists>es. vx_log (vx_world (call_session oper r m)) = vx_log (vx_world m) @ es
           \<and> (\<forall>e\<in>set es. effect_remote e = r)"
proof -
  show "map_of (remotes (call_session oper r m)) r' = map_of (remotes m) r'" if "r' \<noteq> r"
    using that by (simp add: call_session_def update_conv' split: option.split prod.split vrex_result.split)
  show "\<exists>es. vx_log (vx_world (call_session oper r m)) = vx_log (vx_world m) @ es
      \<and> (\<forall>e\<in>set es. effect_remote e = r)"
  proof (cases "map_of (remotes m) r")
    case (Some s)
    obtain res w where op: "oper s (vx_world m) = (res, w)" by fastforce
    from op_promises [of s "vx_world m", unfolded op promises_def] assms Some
    obtain es where "vx_log w = vx_log (vx_world m) @ es" "\<forall>e\<in>set es. effect_remote e = r" by auto
    then show ?thesis by (cases res) (auto simp: call_session_def Some op)
  qed (simp add: call_session_def)
qed

end

interpretation begin_op: session_op env "speech_begin env audio io" for env audio io
  by unfold_locales
     (auto simp: speech_begin_def Let_def intro!: promises_and_then stream_start.op_promises send_state.op_promises)

interpretation fragment_op: session_op env "speech_fragment len bs" for env len bs
  by unfold_locales (simp add: speech_fragment_def promises_stop stream_data.op_promises)

interpretation end_op: session_op env "speech_end env reason" for env reason
  by unfold_locales
     (auto simp: speech_end_def intro!: promises_and_then stream_end.op_promises send_state.op_promises)

lemma is_powered_on_inv: "is_powered_on answer m = (on, m') \<Longrightarrow> vrex_inv env m \<Longrightarrow> vrex_inv env m'"
  by (rule vrex_inv_cong) (auto simp: is_powered_on_def Let_def split: if_splits)

lemma is_powered_on_life: "is_powered_on answer m = (on, m') \<Longrightarrow> vrex_life m' = vrex_life m"
  by (auto simp: is_powered_on_def Let_def split: if_splits)

lemma map_of_change_all:
  assumes "change_all route aspect lang xs = Some ys"
  shows "map_of ys r = map_option (\<lambda>s. s\<lparr>m_baseRoute := with_slash route, m_aspect_ratio := aspect,
           m_guideLanguage := lang\<rparr>) (map_of xs r)"
proof -
  have ys: "ys = map (\<lambda>(r, s). (r, the (changeServerDetails route aspect lang s))) xs"
      "list_all (\<lambda>(r, s). changeServerDetails route aspect lang s \<noteq> None) xs"
    using assms by (simp_all add: change_all_def split: if_split_asm)
  show ?thesis
    using ys(2) unfolding ys(1) by (induction xs) (auto simp: changeServerDetails_def split: if_split_asm)
qed

lemma settings_applied_inv:
  assumes inv: "vrex_inv env m" and rs: "change_all route aspect lang (remotes m) = Some rs"
  shows "vrex_inv env (m\<lparr>defaultRoute := route, guideLanguage := lang, aspect_ratio := aspect, remotes := rs\<rparr>)"
proof -
  let ?m = "m\<lparr>defaultRoute := route, guideLanguage := lang, aspect_ratio := aspect, remotes := rs\<rparr>"
  have "session_ok env ?m r s" if run: "vrex_life m = Running" and s: "map_of rs r = Some s" for r s
  proof -
    from s map_of_change_all [OF rs, of r] obtain s0 where s0: "map_of (remotes m) r = Some s0"
      "s = s0\<lparr>m_baseRoute := with_slash route, m_aspect_ratio := aspect, m_guideLanguage := lang\<rparr>" by auto
    from inv run s0(1) have "session_ok env m r s0" by (simp add: vrex_inv_def)
    then show ?thesis by (auto simp: session_ok_def s0(2) conversation_def)
  qed
  then show ?thesis using inv by (simp add: vrex_inv_def)
qed

lemma handleSettings_inv:
  assumes "vrex_inv env m"
  shows "vrex_inv env (handleSettingsFromServer env json m)"
proof -
  define m1 where "m1 = (case m_dict (parse (yajl_tokens env json)) ''VoiceControlOptIn'' of
      Some vv \<Rightarrow> m\<lparr>bVoiceControl := vv_boolean vv\<rparr> | None \<Rightarrow> m)"
  have m1: "vrex_inv env m1"
    unfolding m1_def by (rule vrex_inv_cong [OF _ _ _ _ _ _ _ _ assms]) (auto split: option.split)
  then have "vrex_inv env (m1\<lparr>vrex_life := Faulted\<rparr>)" by (simp add: vrex_inv_def)
  then show ?thesis
    unfolding handleSettingsFromServer_def m1_def [symmetric] Let_def
    by (auto simp: settings_applied_inv [OF m1] split: option.split)
qed

lemma vrexEventHandler_inv:
  assumes "vrex_inv env m" and "vrex_life m = Running"
  shows "vrex_inv env (vrexEventHandler env answer r ev m)"
proof -
  obtain on m' where p: "is_powered_on answer m = (on, m')" by fastforce
  have m': "vrex_inv env m'" "vrex_life m' = Running"
    using is_powered_on_inv [OF p] is_powered_on_life [OF p] assms by simp_all
  show ?thesis
    using m'
    by (auto simp: vrexEventHandler_def p handleSettings_inv findOrNewSession_inv motion.call_session_inv
        begin_op.call_session_inv fragment_op.call_session_inv end_op.call_session_inv split: vrex_event.split)
qed

lemma watch_remote_inv: "vrex_inv env m \<Longrightarrow> vrex_inv env (watch_remote env rf i m)"
  by (simp add: watch_remote_def Let_def findOrNewSession_inv)

lemma configureRemotesToWatch_inv:
  assumes "vrex_inv env m"
  shows "vrex_inv env (configureRemotesToWatch env rf m)"
proof -
  have "vrex_inv env (m\<lparr>remotes := []\<rparr>)" "vrex_inv env (m\<lparr>vrex_life := Faulted\<rparr>)"
    using assms by (simp_all add: vrex_inv_def)
  moreover have "vrex_inv env m' \<Longrightarrow> vrex_inv env (fold (watch_remote env rf) is m')" for rf "is" m'
    by (induction "is" arbitrary: m') (simp_all add: watch_remote_inv)
  ultimately show ?thesis using assms by (simp add: configureRemotesToWatch_def split: option.split)
qed

lemma handle_input_inv:
  assumes "vrex_inv env m" and "vrex_life m = Running"
  shows "vrex_inv env (handle_input env i m)"
proof (cases i)
  case (Vrex_event answer r ev)
  then show ?thesis using assms by (simp add: vrexEventHandler_inv)
next
  case (Key_event keyStatus r)
  then show ?thesis
    using assms
    by (simp add: keyEventHandler_def updateSessionTimeout_def key_up.call_session_inv findOrNewSession_inv)
next
  case (Pair_event pm rf)
  have "vrex_inv env (m\<lparr>vx_world := (vx_world m)\<lparr>vx_clock := vx_clock (vx_world m) + 1\<rparr>\<rparr>)"
    by (rule vrex_inv_cong [OF _ _ _ _ _ _ _ _ assms(1)]) simp_all
  then show ?thesis
    using assms Pair_event by (simp add: pairEventHandler_def configureRemotesToWatch_inv)
next
  case (Power_change new)
  then show ?thesis by (simp add: PowerPreChange_def vrex_inv_cong [OF _ _ _ _ _ _ _ _ assms(1)])
next
  case (Thread_ends r t res)
  then show ?thesis using assms by (simp add: thread.call_session_inv)
qed

lemma vrex_step_inv: "vrex_inv env m \<Longrightarrow> vrex_inv env (vrex_step env inp m)"
proof -
  assume inv: "vrex_inv env m"
  have "vrex_inv env (m\<lparr>vx_world := w\<rparr>)" if "vx_log w = vx_log (vx_world m)" for w
    by (rule vrex_inv_cong [OF _ _ _ _ _ _ _ _ inv]) (auto simp: that)
  with inv show ?thesis by (auto simp: vrex_step_def intro!: handle_input_inv split: prod.split)
qed

lemma vrex_run_inv: "vrex_inv env m \<Longrightarrow> vrex_inv env (fold (vrex_step env) is m)"
  by (induction "is" arbitrary: m) (simp_all add: vrex_step_inv)

text \<open>The state after the start-up.\<close>

lemma VREXMgr_Start_inv:
  "vrex_inv env (snd (VREXMgr_Start env io (vrex_statics now)))"
proof -
  have statics: "vrex_inv env m" if "remotes m = []" "vx_log (vx_world m) = []" for m
    using that by (simp add: vrex_inv_def log_ok_def)
  have conf: "remotes (loadConfiguration env f g m) = remotes m" "vx_world (loadConfiguration env f g m) = vx_world m"
    for f g m
    by (simp_all add: loadConfiguration_def Let_def split: option.split)
  have watch: "vrex_inv env ((configureRemotesToWatch env rf m)\<lparr>vx_initialized := True\<rparr>)"
    if "remotes m = []" "vx_log (vx_world m) = []" for m rf
    by (rule vrex_inv_cong [OF _ _ _ _ _ _ _ _ configureRemotesToWatch_inv [OF statics [OF that]]]) auto
  have init: "remotes (vrex_statics now) = []" "vx_log (vx_world (vrex_statics now)) = []"
    by (simp_all add: vrex_statics_def)
  show ?thesis
    unfolding VREXMgr_Start_def Let_def by (simp add: init conf statics watch split: option.split list.split)
qed

section \<open>Frame: what an input leaves alone\<close>

fun is_knock :: "8 word \<Rightarrow> vrex_effect \<Rightarrow> bool" where
  "is_knock r (Http_request r' call _ _ _) = (r' = r \<and> call = KNOCKKNOCK)"
| "is_knock r _ = False"

definition knocks :: "8 word \<Rightarrow> vrex_effect list \<Rightarrow> nat" where
  "knocks r log = length (filter (is_knock r) log)"

lemma knocks_simps [simp]:
  "knocks r [] = 0" "knocks r (xs @ ys) = knocks r xs + knocks r ys"
  "knocks r (e # es) = (if is_knock r e then 1 else 0) + knocks r es"
  by (simp_all add: knocks_def)

lemma is_knock_remote: "is_knock r e \<Longrightarrow> effect_remote e = r"
  by (induction r e rule: is_knock.induct) auto

lemma knocks_others:
  assumes "\<forall>e\<in>set es. effect_remote e \<noteq> r"
  shows "knocks r es = 0"
proof -
  have "\<forall>e\<in>set es. \<not> is_knock r e" using assms is_knock_remote by blast
  then show ?thesis by (simp add: knocks_def filter_empty_conv)
qed

text \<open>An input for another remote.\<close>

fun elsewhere :: "8 word \<Rightarrow> vrex_input \<Rightarrow> bool" where
  "elsewhere r (Vrex_event _ r' ev) = (r' \<noteq> r \<and> (\<forall>json. ev \<noteq> Settings_event json))"
| "elsewhere r (Key_event _ r') = (r' \<noteq> r)"
| "elsewhere r (Pair_event _ _) = False"
| "elsewhere r (Power_change _) = True"
| "elsewhere r (Thread_ends r' _ _) = (r' \<noteq> r)"

definition same_for :: "8 word \<Rightarrow> vrex_mgr \<Rightarrow> vrex_mgr \<Rightarrow> bool" where
  "same_for r m m' =
     (map_of (remotes m') r = map_of (remotes m) r
    \<and> knocks r (vx_log (vx_world m')) = knocks r (vx_log (vx_world m)))"

definition ids_ok :: "vrex_mgr \<Rightarrow> bool" where
  "ids_ok m = (\<forall>r s. map_of (remotes m) r = Some s \<longrightarrow> m_remoteId s = r)"

lemma ids_ok_findOrNew: "ids_ok m \<Longrightarrow> ids_ok (findOrNewSession env r rf i m)"
  by (auto simp: ids_ok_def map_of_findOrNewSession split: if_split_asm)

lemma vrex_inv_ids_ok: "vrex_inv env m \<Longrightarrow> vrex_life m = Running \<Longrightarrow> ids_ok m"
  by (auto simp: vrex_inv_def session_ok_def ids_ok_def)

context session_op
begin

lemma call_session_same_for:
  assumes "ids_ok m" and "r' \<noteq> r"
  shows "same_for r m (call_session oper r' m)"
proof -
  from assms(1) have id: "\<forall>s. map_of (remotes m) r' = Some s \<longrightarrow> m_remoteId s = r'"
    by (simp add: ids_ok_def)
  from call_session_frame(2) [OF id] obtain es
    where "vx_log (vx_world (call_session oper r' m)) = vx_log (vx_world m) @ es" "\<forall>e\<in>set es. effect_remote e = r'"
    by blast
  with call_session_frame(1) [OF id, of r] assms(2) show ?thesis by (simp add: same_for_def knocks_others)
qed

lemma call_new_session_same_for:
  assumes "ids_ok m" and "r' \<noteq> r"
  shows "same_for r m (call_session oper r' (findOrNewSession env r' rf i m))"
  using call_session_same_for [OF ids_ok_findOrNew [OF assms(1)] assms(2), of env r' rf i] assms(2)
  by (simp add: same_for_def map_of_findOrNewSession)

end

lemma is_powered_on_remotes:
  "is_powered_on answer m = (on, m') \<Longrightarrow> remotes m' = remotes m \<and> vx_world m' = vx_world m
     \<and> bVoiceControl m' = bVoiceControl m"
  by (auto simp: is_powered_on_def Let_def split: if_splits)

lemma same_for_refl: "same_for r m m"
  by (simp add: same_for_def)

lemma handle_input_elsewhere:
  assumes ids: "ids_ok m" and i: "elsewhere r i"
  shows "same_for r m (handle_input env i m)"
proof (cases i)
  case (Vrex_event answer r' ev)
  obtain on m' where p: "is_powered_on answer m = (on, m')" by fastforce
  have ids': "ids_ok m'" and same: "same_for r m m'' = same_for r m' m''" for m''
    using is_powered_on_remotes [OF p] ids by (simp_all add: ids_ok_def same_for_def)
  show ?thesis
    using i Vrex_event ids'
    by (auto simp: vrexEventHandler_def p same same_for_refl motion.call_new_session_same_for
        begin_op.call_new_session_same_for fragment_op.call_new_session_same_for
        end_op.call_new_session_same_for split: vrex_event.split)
next
  case (Key_event keyStatus r')
  then show ?thesis
    using i ids
    by (simp add: keyEventHandler_def updateSessionTimeout_def same_for_refl key_up.call_new_session_same_for)
next
  case (Power_change new)
  then show ?thesis by (simp add: PowerPreChange_def same_for_def)
next
  case (Thread_ends r' t res)
  then show ?thesis using i ids by (simp add: thread.call_session_same_for)
qed (use i in simp)

text \<open>The step: the world only gets its answers.\<close>

definition with_answers :: "nat \<Rightarrow> (nat \<times> curl_result) list \<Rightarrow> vrex_mgr \<Rightarrow> vrex_mgr" where
  "with_answers secs answers m =
     m\<lparr>vx_world := (vx_world m)\<lparr>vx_clock := vx_clock (vx_world m) + int secs, vx_answers := answers\<rparr>\<rparr>"

lemma vrex_step_eq:
  "vrex_step env (secs, answers, i) m =
     (if vrex_life m = Running then handle_input env i (with_answers secs answers m) else m)"
  by (simp add: vrex_step_def with_answers_def)

lemma with_answers_simps [simp]:
  "remotes (with_answers secs answers m) = remotes m" "vrex_life (with_answers secs answers m) = vrex_life m"
  "vx_log (vx_world (with_answers secs answers m)) = vx_log (vx_world m)"
  "bVoiceControl (with_answers secs answers m) = bVoiceControl m"
  "currentPowerMode (with_answers secs answers m) = currentPowerMode m"
  by (simp_all add: with_answers_def)

lemma with_answers_inv: "vrex_inv env m \<Longrightarrow> vrex_inv env (with_answers secs answers m)"
  by (rule vrex_inv_cong) (auto simp: with_answers_def)

lemma vrex_run_stopped: "vrex_life m \<noteq> Running \<Longrightarrow> fold (vrex_step env) is m = m"
  by (induction "is") (auto simp: vrex_step_def)

section \<open>A failed knock-knock\<close>

text \<open>Inputs after which a remote may knock again although its last attempt failed.\<close>

fun may_reopen :: "8 word \<Rightarrow> vrex_input \<Rightarrow> bool" where
  "may_reopen r (Vrex_event _ r' (Speech_begin _ _)) = (r' = r)"
| "may_reopen r (Vrex_event _ r' (Speech_end _)) = (r' = r)"
| "may_reopen r (Pair_event _ _) = True"
| "may_reopen r _ = False"

definition closed :: "8 word \<Rightarrow> vrex_mgr \<Rightarrow> bool" where
  "closed r m = (\<exists>s. map_of (remotes m) r = Some s \<and> m_conversationExpires s = 0)"

lemma onMotion_closed: "m_conversationExpires s = 0 \<Longrightarrow> onMotion env s w = (Returns (False, s), w)"
  by (simp add: onMotion_def)

lemma thread_finish_quiet:
  assumes "thread_finish env t res s w = (out, w')"
  shows "knocks r (vx_log w') = knocks r (vx_log w)"
    and "out = Returns (a, s') \<Longrightarrow> m_conversationExpires s' = m_conversationExpires s"
  using assms
  by (auto simp: thread_finish_def Let_def notifyError_def notifySuccess_def
      split: curl_result.split_asm option.split_asm if_split_asm)

lemma closed_step:
  assumes ids: "ids_ok m" and closed: "closed r m" and i: "\<not> may_reopen r i"
  shows "knocks r (vx_log (vx_world (handle_input env i m))) = knocks r (vx_log (vx_world m))
    \<and> (vrex_life (handle_input env i m) = Running \<longrightarrow> closed r (handle_input env i m))"
proof (cases "elsewhere r i")
  case True
  then show ?thesis
    using handle_input_elsewhere [OF ids True, of env] closed by (simp add: same_for_def closed_def)
next
  case False
  from closed obtain s where s: "map_of (remotes m) r = Some s" "m_conversationExpires s = 0"
    by (auto simp: closed_def)
  have new: "findOrNewSession env r rf n m' = m'" if "remotes m' = remotes m" for rf n m'
    using s(1) that by (simp add: findOrNewSession_def sessionExists_def)
  show ?thesis
  proof (cases i)
    case (Vrex_event answer r' ev)
    obtain on m' where p: "is_powered_on answer m = (on, m')" by fastforce
    note same = is_powered_on_remotes [OF p]
    have settings: "closed r (handleSettingsFromServer env json m')
        \<and> vx_world (handleSettingsFromServer env json m') = vx_world m" for json
      using s same
      by (auto simp: handleSettingsFromServer_def Let_def closed_def map_of_change_all split: option.split)
    show ?thesis
      using False i s same settings
      by (auto simp: Vrex_event vrexEventHandler_def p new call_session_def onMotion_closed speech_fragment_def
          onStreamData_def closed_def update_conv' split: vrex_event.split option.split)
  next
    case (Key_event keyStatus r')
    then show ?thesis
      using False s by (auto simp: keyEventHandler_def updateSessionTimeout_def updateExpiration_def new
          call_session_def closed_def update_conv')
  next
    case (Thread_ends r' t res)
    obtain out w where f: "thread_finish env t res s (emit (Http_answer (m_remoteId s) SPEECH res) (vx_world m)) = (out, w)"
      by fastforce
    show ?thesis
      using False s thread_finish_quiet [OF f]
      by (cases out) (auto simp: Thread_ends call_session_def thread_ends_def f closed_def update_conv')
  qed (use False i in simp_all)
qed

lemma closed_run:
  assumes "vrex_inv env m" and "closed r m" and "\<forall>i\<in>set is. \<not> may_reopen r (snd (snd i))"
  shows "knocks r (vx_log (vx_world (fold (vrex_step env) is m))) = knocks r (vx_log (vx_world m))"
  using assms
proof (induction "is" arbitrary: m)
  case (Cons i "is")
  obtain secs answers inp where i: "i = (secs, answers, inp)" by (cases i)
  show ?case
  proof (cases "vrex_life m = Running")
    case True
    let ?m = "with_answers secs answers m"
    have "ids_ok ?m" using vrex_inv_ids_ok [OF Cons.prems(1) True] by (simp add: ids_ok_def)
    moreover have "closed r ?m" using Cons.prems(2) by (simp add: closed_def)
    ultimately have step: "knocks r (vx_log (vx_world (vrex_step env i m))) = knocks r (vx_log (vx_world m))"
        "vrex_life (vrex_step env i m) = Running \<longrightarrow> closed r (vrex_step env i m)"
      using closed_step [of ?m r inp env] Cons.prems(3) True by (simp_all add: i vrex_step_eq)
    show ?thesis
    proof (cases "vrex_life (vrex_step env i m) = Running")
      case True
      with Cons.IH [OF vrex_step_inv [OF Cons.prems(1)]] Cons.prems(3) step show ?thesis by simp
    next
      case False
      then show ?thesis using step(1) by (simp add: vrex_run_stopped)
    qed
  next
    case False
    then show ?thesis using vrex_run_stopped [of m env "i # is"] by simp
  qed
qed simp

section \<open>The relay of speech\<close>

text \<open>Inputs that may come while a remote speaks, and the bytes one brings.\<close>

fun while_speaking :: "8 word \<Rightarrow> vrex_input \<Rightarrow> bool" where
  "while_speaking r (Vrex_event _ r' (Speech_begin _ _)) = (r' \<noteq> r)"
| "while_speaking r (Vrex_event _ r' (Speech_end _)) = (r' \<noteq> r)"
| "while_speaking r (Vrex_event _ _ (Settings_event _)) = False"
| "while_speaking r (Vrex_event _ _ _) = True"
| "while_speaking r (Key_event _ _) = True"
| "while_speaking r (Pair_event _ _) = False"
| "while_speaking r (Power_change _) = False"
| "while_speaking r (Thread_ends r' _ _) = (r' \<noteq> r)"

fun fragment_of :: "8 word \<Rightarrow> vrex_input \<Rightarrow> 8 word list" where
  "fragment_of r (Vrex_event _ r' (Speech_fragment len bs)) = (if r' = r then take len bs else [])"
| "fragment_of r _ = []"

definition speaking :: "8 word \<Rightarrow> nat \<Rightarrow> 8 word list \<Rightarrow> vrex_mgr \<Rightarrow> bool" where
  "speaking r c bytes m =
     (bVoiceControl m \<and> currentPowerMode m \<noteq> 0 \<and> currentPowerMode m \<noteq> -1
    \<and> (\<exists>s. map_of (remotes m) r = Some s \<and> m_clientSocket s = Some c \<and> (c, True) \<in> set (speech_threads s)
           \<and> sent_bytes s c = bytes))"

text \<open>A knock-knock does not touch the stream.\<close>

definition same_stream :: "vrex_session \<Rightarrow> vrex_session \<Rightarrow> bool" where
  "same_stream s s' =
     (m_clientSocket s' = m_clientSocket s \<and> speech_threads s' = speech_threads s \<and> sent_bytes s' = sent_bytes s)"

lemma knockknock_reply_stream:
  "knockknock_reply env s res w = (Returns (ok, s'), w') \<Longrightarrow> same_stream s s'"
  by (auto simp: knockknock_reply_def Let_def same_stream_def
      split: if_split_asm curl_result.split_asm option.split_asm)

lemma onMotion_stream:
  "onMotion env s w = (Returns (ok, s'), w') \<Longrightarrow> same_stream s s'"
  by (auto simp: onMotion_def Let_def and_then_Returns same_stream_def dest!: knockknock_reply_stream
      split: if_split_asm)

lemma updateExpiration_stream:
  "updateExpiration env window s w = (Returns (ok, s'), w') \<Longrightarrow> same_stream s s'"
  by (auto simp: updateExpiration_def same_stream_def dest: onMotion_stream split: if_split_asm)

text \<open>An operation that keeps the stream, called through the manager.\<close>

lemma call_session_settings [simp]:
  "bVoiceControl (call_session oper r m) = bVoiceControl m"
  "currentPowerMode (call_session oper r m) = currentPowerMode m"
  by (simp_all add: call_session_def split: option.split prod.split vrex_result.split)

lemma call_session_speaking:
  assumes "speaking r c bytes m" and "vrex_life (call_session oper r m) = Running"
    and "\<And>s a s' w'. m_clientSocket s = Some c \<Longrightarrow> (c, True) \<in> set (speech_threads s) \<Longrightarrow> sent_bytes s c = bytes
           \<Longrightarrow> oper s (vx_world m) = (Returns (a, s'), w')
           \<Longrightarrow> m_clientSocket s' = Some c \<and> (c, True) \<in> set (speech_threads s') \<and> sent_bytes s' c = bytes'"
  shows "speaking r c bytes' (call_session oper r m)"
proof -
  from assms(1) obtain s where s: "map_of (remotes m) r = Some s" "m_clientSocket s = Some c"
    "(c, True) \<in> set (speech_threads s)" "sent_bytes s c = bytes" by (auto simp: speaking_def)
  obtain out w where op: "oper s (vx_world m) = (out, w)" by fastforce
  from assms(2) obtain a s' where out: "out = Returns (a, s')"
    by (cases out) (auto simp: call_session_def s(1) op)
  have "m_clientSocket s' = Some c \<and> (c, True) \<in> set (speech_threads s') \<and> sent_bytes s' c = bytes'"
    by (rule assms(3) [OF s(2-4)]) (simp add: op out)
  then show ?thesis
    using assms(1) by (simp add: speaking_def call_session_def s(1) op out update_conv')
qed

lemma speaking_step:
  assumes ids: "ids_ok m" and speaking: "speaking r c bytes m" and i: "while_speaking r i"
    and run: "vrex_life (handle_input env i m) = Running"
  shows "speaking r c (bytes @ fragment_of r i) (handle_input env i m)"
proof -
  have on: "is_powered_on answer m = (True, m)" for answer
    using speaking by (simp add: speaking_def is_powered_on_def Let_def)
  have voice: "bVoiceControl m" and s: "sessionExists r m"
    using speaking by (auto simp: speaking_def sessionExists_def)
  have new: "findOrNewSession env r rf n m = m" for rf n using s by (simp add: findOrNewSession_def)
  show ?thesis
  proof (cases "elsewhere r i")
    case True
    have "bVoiceControl (handle_input env i m) = bVoiceControl m"
      "currentPowerMode (handle_input env i m) = currentPowerMode m"
      using True i on
      by (cases i; auto simp: vrexEventHandler_def keyEventHandler_def updateSessionTimeout_def
          split: vrex_event.split)+
    moreover have "fragment_of r i = []" using True by (cases "(r, i)" rule: fragment_of.cases) auto
    ultimately show ?thesis
      using handle_input_elsewhere [OF ids True, of env] speaking by (simp add: same_for_def speaking_def)
  next
    case False
    show ?thesis
    proof (cases i)
      case (Vrex_event answer r' ev)
      show ?thesis
      proof (cases ev)
        case Motion_event
        show ?thesis
          using False run Vrex_event Motion_event
          by (auto simp: vrexEventHandler_def on voice new same_stream_def
              dest!: onMotion_stream intro!: call_session_speaking [OF speaking])
      next
        case (Speech_fragment len bs)
        show ?thesis
          using False run Vrex_event Speech_fragment
          by (auto simp: vrexEventHandler_def on voice new speech_fragment_def onStreamData_def
              intro!: call_session_speaking [OF speaking] split: if_split_asm)
      next
        case Unknown_event
        with Vrex_event speaking show ?thesis by (simp add: vrexEventHandler_def on)
      qed (use i False Vrex_event in simp_all)
    next
      case (Key_event keyStatus r')
      show ?thesis
      proof (cases "keyStatus = KET_KEYUP")
        case True
        then show ?thesis
          using False run Key_event s
          by (auto simp: keyEventHandler_def updateSessionTimeout_def new same_stream_def
              dest!: updateExpiration_stream intro!: call_session_speaking [OF speaking])
      qed (use Key_event speaking in \<open>simp add: keyEventHandler_def\<close>)
    qed (use i False in simp_all)
  qed
qed

lemma speaking_run:
  assumes "vrex_inv env m" and "speaking r c bytes m"
    and "\<forall>i\<in>set is. while_speaking r (snd (snd i))" and "vrex_life (fold (vrex_step env) is m) = Running"
  shows "speaking r c (bytes @ concat (map (\<lambda>i. fragment_of r (snd (snd i))) is)) (fold (vrex_step env) is m)"
  using assms
proof (induction "is" arbitrary: m bytes)
  case (Cons i "is")
  obtain secs answers inp where i: "i = (secs, answers, inp)" by (cases i)
  have "vrex_life m = Running"
    using Cons.prems(4) vrex_run_stopped [of m env "i # is"] by (cases "vrex_life m = Running") simp_all
  moreover have "vrex_life (vrex_step env i m) = Running"
    using Cons.prems(4) vrex_run_stopped [of "vrex_step env i m" env "is"]
    by (cases "vrex_life (vrex_step env i m) = Running") simp_all
  ultimately have run: "vrex_life m = Running" "vrex_life (vrex_step env i m) = Running" .
  let ?m = "with_answers secs answers m"
  have "ids_ok ?m" using vrex_inv_ids_ok [OF Cons.prems(1) run(1)] by (simp add: ids_ok_def)
  moreover have "speaking r c bytes ?m" using Cons.prems(2) by (simp add: speaking_def)
  ultimately have "speaking r c (bytes @ fragment_of r inp) (vrex_step env i m)"
    using speaking_step [of ?m r c bytes inp env] Cons.prems(3) run by (simp add: i vrex_step_eq)
  from Cons.IH [OF vrex_step_inv [OF Cons.prems(1)] this] Cons.prems(3,4) show ?case by (simp add: i)
qed simp

section \<open>The remotes to watch\<close>

lemma fold_watch_remote:
  "map_of (remotes (fold (watch_remote env rf) is m)) r =
     (case map_of (remotes m) r of
        Some s \<Rightarrow> Some s
      | None \<Rightarrow> map_option (\<lambda>i. new_session env r (Some rf) i m)
          (find (\<lambda>i. let b = bindRemotes rf ! i
                     in ShortAddress b \<noteq> 0xFFFF \<and> defaultRemoteName m = Type b \<and> br_remoteId b = r) is))"
proof (induction "is" arbitrary: m)
  case (Cons i "is")
  have new: "new_session env r' rf' j (watch_remote env rf i m) = new_session env r' rf' j m" for r' rf' j
    by (simp add: watch_remote_def Let_def new_session_def findOrNewSession_def)
  have name: "defaultRemoteName (watch_remote env rf i m) = defaultRemoteName m"
    by (simp add: watch_remote_def Let_def)
  show ?case
    unfolding fold_simps Cons.IH new name
    by (auto simp: watch_remote_def Let_def isVoiceRemote_def map_of_findOrNewSession split: option.split)
qed (simp split: option.split)

section \<open>Properties\<close>

text \<open>C22. Conversations.  Whatever the bus, the remotes, the server and the upload threads do after the
  start, every state message and every speech upload names the conversation of the last answer that
  the server gave to a knock-knock of the same remote; no such request is made for a remote without
  one.\<close>

theorem requests_name_last_conversation:
  "log_ok env (vx_log (vx_world (fold (vrex_step env) is (snd (VREXMgr_Start env io (vrex_statics now))))))"
  using vrex_run_inv [OF VREXMgr_Start_inv] by (simp add: vrex_inv_def)

text \<open>Sessions agree with the manager.  As long as the process runs, each session belongs to the
  remote under whose number it is kept and has the receiver id, box name, language and aspect ratio
  of the manager, however often the settings changed; its route is the route of the manager, with or
  without a slash at the end.\<close>

lemma sessions_follow_manager:
  assumes "m = fold (vrex_step env) is (snd (VREXMgr_Start env io (vrex_statics now)))"
    and "vrex_life m = Running" and "map_of (remotes m) r = Some s"
  shows "m_remoteId s = r \<and> m_receiverId s = receiverId m \<and> m_stbName s = stbName m
    \<and> m_guideLanguage s = guideLanguage m \<and> m_aspect_ratio s = aspect_ratio m
    \<and> m_baseRoute s \<in> {defaultRoute m, with_slash (defaultRoute m)}"
proof -
  have "vrex_inv env m" using vrex_run_inv [OF VREXMgr_Start_inv] assms(1) by simp
  with assms(2,3) have "session_ok env m r s" by (simp add: vrex_inv_def)
  then show ?thesis by (auto simp: session_ok_def)
qed

definition ex_remote :: bind_remote where
  "ex_remote = \<lparr>br_remoteId = 4, ShortAddress = 0x1234, Type = ''XR11-20'', VersionInfoSw = (1, 2, 3, 4),
     VersionInfoHw = (5, 6, 7, 8)\<rparr>"

definition ex_start :: vrex_start where
  "ex_start = \<lparr>st_bus_init = IARM_RESULT_SUCCESS, st_bus_connect = IARM_RESULT_SUCCESS, st_power = Some 2,
     st_device_ids = [(None, None), (Some ''id'', None), (Some ''id'', None)], st_version_txt = None,
     st_file_exists = (\<lambda>_. False), st_read_file = (\<lambda>_. None),
     st_rf_status = Some \<lparr>macAddress = replicate 8 1, bindRemotes = [ex_remote, ex_remote]\<rparr>\<rparr>"

definition ex_started :: vrex_mgr where
  "ex_started = snd (VREXMgr_Start echo_env ex_start (vrex_statics 1000))"

definition ex_io :: stream_io where
  "ex_io = \<lparr>thread_created = True, server_up = True, woken = True, socket_ok = True, connect_ok = True\<rparr>"

definition session_field :: "(vrex_session \<Rightarrow> 'a) \<Rightarrow> 8 word \<Rightarrow> vrex_mgr \<Rightarrow> 'a option" where
  "session_field f r m = map_option f (map_of (remotes m) r)"

lemma sessions_follow_manager_witness:
  "\<exists>s. map_of (remotes ex_started) 4 = Some s \<and> m_receiverId s = receiverId ex_started"
proof -
  have "vrex_life ex_started = Running" "session_field m_remoteId 4 ex_started = Some 4" by code_simp+
  then obtain s where s: "map_of (remotes ex_started) 4 = Some s" by (auto simp: session_field_def)
  with sessions_follow_manager [of ex_started echo_env "[]" ex_start 1000 4 s] \<open>vrex_life ex_started = Running\<close>
  show ?thesis by (simp add: ex_started_def)
qed

text \<open>A failed knock-knock is not retried.  Once a knock-knock of a remote failed or was refused
  (its session has no expiry time), no motion, fragment, key, setting, power change or end of an
  upload makes the manager send another for that remote, whatever the other remotes do; only the
  beginning or end of speech or a pairing may.\<close>

lemma failed_knockknock_is_not_retried:
  assumes "m = fold (vrex_step env) js (snd (VREXMgr_Start env io (vrex_statics now)))"
    and "map_of (remotes m) r = Some s" and "m_conversationExpires s = 0"
    and "\<forall>i\<in>set is. \<not> may_reopen r (snd (snd i))"
  shows "knocks r (vx_log (vx_world (fold (vrex_step env) is m))) = knocks r (vx_log (vx_world m))"
proof (rule closed_run [OF _ _ assms(4)])
  show "vrex_inv env m" unfolding assms(1) by (rule vrex_run_inv [OF VREXMgr_Start_inv])
  show "closed r m" using assms(2,3) by (auto simp: closed_def)
qed

lemma failed_knockknock_is_not_retried_witness:
  "knocks 4 (vx_log (vx_world (fold (vrex_step echo_env)
      [(0, [(3, Curl_failed 7)], Vrex_event None 4 Motion_event), (5, [], Vrex_event None 4 Motion_event),
       (5, [], Key_event KET_KEYUP 4)] ex_started))) = 1"
proof -
  define m where "m = fold (vrex_step echo_env) [(0, [(3, Curl_failed 7)], Vrex_event None 4 Motion_event)] ex_started"
  have "session_field m_conversationExpires 4 m = Some 0" "knocks 4 (vx_log (vx_world m)) = 1"
    unfolding m_def by code_simp+
  then obtain s where "map_of (remotes m) 4 = Some s" "m_conversationExpires s = 0"
    by (auto simp: session_field_def)
  from failed_knockknock_is_not_retried [OF m_def [unfolded ex_started_def] this, of
      "[(5, [], Vrex_event None 4 Motion_event), (5, [], Key_event KET_KEYUP 4)]"]
  show ?thesis using \<open>knocks 4 (vx_log (vx_world m)) = 1\<close> by (simp add: m_def)
qed

text \<open>C27. Speech is relayed in order.  While the connection of a stream is open, the box is on and voice
  control enabled, what the upload thread can read from it is what was there before followed by the
  fragments of this remote in the order they come, whatever motion, keys, speech and ends of
  uploads of other remotes come between, as long as no handler stops the process.\<close>

theorem speech_is_relayed_in_order:
  assumes "m = fold (vrex_step env) js (snd (VREXMgr_Start env io (vrex_statics now)))"
    and "speaking r c bytes m" and "\<forall>i\<in>set is. while_speaking r (snd (snd i))"
    and "vrex_life (fold (vrex_step env) is m) = Running"
  shows "speaking r c (bytes @ concat (map (\<lambda>i. fragment_of r (snd (snd i))) is)) (fold (vrex_step env) is m)"
  using speaking_run [OF _ assms(2-4)] vrex_run_inv [OF VREXMgr_Start_inv] assms(1) by simp

lemma speaking_iff:
  "speaking r c bytes m \<longleftrightarrow> bVoiceControl m \<and> currentPowerMode m \<noteq> 0 \<and> currentPowerMode m \<noteq> -1
     \<and> session_field m_clientSocket r m = Some (Some c)
     \<and> session_field (\<lambda>s. List.member (speech_threads s) (c, True)) r m = Some True
     \<and> session_field (\<lambda>s. sent_bytes s c) r m = Some bytes"
  by (auto simp: speaking_def session_field_def List.member_iff)

definition ex_speech :: "(nat \<times> (nat \<times> curl_result) list \<times> vrex_input) list" where
  "ex_speech = [(0, [(1, Curl_done 200 ''c''), (1, Curl_done 200 ''c'')],
     Vrex_event None 4 (Speech_begin \<lparr>mimeType = '''', subType = ''PCM'', language = ''''\<rparr> ex_io))]"

lemma speech_is_relayed_in_order_witness:
  "speaking 4 1 [7, 8, 9] (fold (vrex_step echo_env)
     [(1, [], Vrex_event None 4 (Speech_fragment 2 [7, 8])), (1, [], Key_event KET_KEYDOWN 4),
      (1, [], Vrex_event None 4 (Speech_fragment 1 [9, 0]))] (fold (vrex_step echo_env) ex_speech ex_started))"
proof -
  define m where "m = fold (vrex_step echo_env) ex_speech ex_started"
  let ?is = "[(1, [], Vrex_event None 4 (Speech_fragment 2 [7, 8])), (1, [], Key_event KET_KEYDOWN 4),
      (1, [], Vrex_event None 4 (Speech_fragment 1 [9, 0]))]"
  have "bVoiceControl m" "currentPowerMode m = 2" "session_field m_clientSocket 4 m = Some (Some 1)"
      "session_field (\<lambda>s. List.member (speech_threads s) (1, True)) 4 m = Some True"
      "session_field (\<lambda>s. sent_bytes s 1) 4 m = Some []"
      "vrex_life (fold (vrex_step echo_env) ?is m) = Running"
    unfolding m_def by code_simp+
  then have "speaking 4 1 [] m" and "vrex_life (fold (vrex_step echo_env) ?is m) = Running"
    by (simp_all add: speaking_iff)
  from speech_is_relayed_in_order [OF m_def [unfolded ex_started_def] this(1) _ this(2)]
  show ?thesis by (simp add: m_def)
qed

text \<open>The watched remotes.  After the RF status was read, and unless an upload was under way, there
  is a session exactly for the voice remotes among the slots of the status but the last: those with
  an address and the configured type.  It is a new session with the data of the first such slot.\<close>

lemma watched_remotes:
  assumes "\<not> list_ex (uploads \<circ> snd) (remotes m)"
  shows "map_of (remotes (configureRemotesToWatch env (Some rf) m)) r =
     map_option (\<lambda>i. new_session env r (Some rf) i m)
       (find (\<lambda>i. let b = bindRemotes rf ! i
                  in ShortAddress b \<noteq> 0xFFFF \<and> defaultRemoteName m = Type b \<and> br_remoteId b = r)
          [0..<length (bindRemotes rf) - 1])"
  using assms by (simp add: configureRemotesToWatch_def fold_watch_remote new_session_def)

lemma watched_remotes_witness:
  "map_of (remotes (configureRemotesToWatch echo_env
      (Some \<lparr>macAddress = [], bindRemotes = [ex_remote\<lparr>br_remoteId := 5\<rparr>, ex_remote]\<rparr>) (vrex_statics 0))) 4 = None"
  using watched_remotes [of "vrex_statics 0" echo_env
      "\<lparr>macAddress = [], bindRemotes = [ex_remote\<lparr>br_remoteId := 5\<rparr>, ex_remote]\<rparr>" 4]
  by (simp add: vrex_statics_def ex_remote_def)

section \<open>Behaviours to know\<close>

text \<open>Every power state but OFF counts as on, an unknown one too: voice events act in standby.\<close>

lemma standby_counts_as_on:
  "fst (is_powered_on answer (m\<lparr>currentPowerMode := 1\<rparr>))"
  "fst (is_powered_on None (m\<lparr>currentPowerMode := -1\<rparr>))"
  by (simp_all add: is_powered_on_def Let_def)

text \<open>A released key knocks although voice control was refused and the box is off.\<close>

lemma key_knocks_after_opt_out:
  "knocks 4 (vx_log (vx_world (fold (vrex_step echo_env) [(0, [(1, Curl_done 200 ''c'')], Key_event KET_KEYUP 4)]
      (ex_started\<lparr>bVoiceControl := False, currentPowerMode := 0\<rparr>)))) = 1"
  by code_simp

text \<open>Settings without parameters and without an inner object end the process.\<close>

lemma settings_without_parameters_fault:
  assumes "m_dict (parse (yajl_tokens env json)) ''parameters'' = None" and "str_find_from ''{'' 2 json = None"
  shows "vrex_life (handleSettingsFromServer env json m) = Faulted"
  using assms by (simp add: handleSettingsFromServer_def Let_def settings_text_def)

text \<open>A route without a final slash: existing sessions get one, new ones do not.\<close>

lemma new_session_lacks_slash:
  assumes "vrex_life m = Running" and "map_of (remotes m) r = Some s" and "map_of (remotes m) r' = None"
    and "m_dict (parse (yajl_tokens env json)) ''parameters'' = Some vv"
    and "m_dict (parse_again (yajl_tokens env (c_string (vv_str vv))) (parse (yajl_tokens env json))) ''vrexURL''
           = Some (new_varVal\<lparr>vv_str := ''https://vrex''\<rparr>)"
    and "m' = handleSettingsFromServer env json m"
  shows "session_field m_baseRoute r m' = Some ''https://vrex/''
    \<and> session_field m_baseRoute r' (findOrNewSession env r' None 0 m') = Some ''https://vrex''"
proof -
  have slash: "with_slash ''https://vrex'' = ''https://vrex/''" by code_simp
  have change: "change_all ''https://vrex'' a l xs =
      Some (map (\<lambda>(r, s). (r, the (changeServerDetails ''https://vrex'' a l s))) xs)" for a l xs
    by (auto simp: change_all_def changeServerDetails_def list_all_iff)
  show ?thesis
    using assms(2,3,5) unfolding assms(6)
    by (cases "m_dict (parse (yajl_tokens env json)) ''VoiceControlOptIn''")
       (auto simp: handleSettingsFromServer_def assms(4) text_setting_def Let_def session_field_def
          change map_of_change_all [OF change] map_of_findOrNewSession slash split: option.split)
qed

text \<open>A speech thread that cannot bind its socket leaves the manager waiting for ever, with the lock held.\<close>

lemma no_server_socket_deadlocks:
  assumes "thread_created io" and "\<not> server_up io" and "m_conversationExpires s \<noteq> 0"
    and "vx_clock w \<le> m_conversationExpires s"
  shows "onStreamStart env audio io s w = (Deadlocks, w)"
  using assms by (simp add: onStreamStart_def Let_def open_stream_def)

text \<open>After a failed connect the end of the stream waits for a thread that never ends.\<close>

lemma failed_connect_deadlocks_at_end:
  assumes "thread_created io" and "server_up io" and "woken io" and "socket_ok io" and "\<not> connect_ok io"
    and "open_stream io s w = (Returns (ok, s'), w')" and "(next_thread s, True) \<notin> set (speech_threads s)"
  shows "\<not> ok \<and> fst (onStreamEnd env reason s' w') = Deadlocks"
  using assms by (auto simp: open_stream_def Let_def stream_error_def onStreamEnd_def join_thread_def)

text \<open>The upload of an earlier stream, when it ends, closes the connection of the stream that has begun
  meanwhile.\<close>

lemma old_upload_closes_new_stream:
  assumes "(1, True) \<in> set (speech_threads s)" and "m_clientSocket s = Some 2"
  shows "\<exists>s' w'. thread_ends env 1 (Curl_failed 28) s w = (Returns (True, s'), w') \<and> m_clientSocket s' = None"
  using assms by (simp add: thread_ends_def thread_finish_def Let_def)

text \<open>A knock-knock that the server refuses counts as done: the stream goes on without a conversation.\<close>

lemma refused_knockknock_faults_in_stream:
  assumes "m_curlInitialized s" and "m_conversationExpires s < vx_clock w" and "m_conversationExpires s \<noteq> 0"
    and "vx_answers w = (d, Curl_done http body) # rest"
    and "reply_of env body ''code'' = Some code" and "vv_str code \<noteq> ''0''"
    and "reply_of env body ''message'' = Some msg" and "reply_of env body ''cid'' = None"
  shows "fst (onStreamStart env audio ex_io s w) = Faults"
  using assms
  by (simp add: onStreamStart_def onMotion_def Let_def perform_answered knockknock_reply_def open_stream_def
      ex_io_def accept_stream_def)

text \<open>A length beyond the array is passed on to write.\<close>

lemma long_fragment_overreads:
  "m_clientSocket s = Some c \<Longrightarrow> 1024 < len \<Longrightarrow> fst (speech_fragment len bs s w) = Faults"
  by (simp add: speech_fragment_def SPEECH_FRAGMENTLENGTH_def)

text \<open>A pairing while speech is uploaded destroys the session under its thread.\<close>

lemma pairing_during_upload_faults:
  assumes "(r, s) \<in> set (remotes m)" and "(t, True) \<in> set (speech_threads s)"
  shows "vrex_life (configureRemotesToWatch env (Some rf) m) = Faulted"
  using assms by (force simp: configureRemotesToWatch_def uploads_def list_ex_iff)

text \<open>The box name in version.txt: from the colon to the first underscore or line end.\<close>

lemma stb_name_found:
  assumes "str_find ''imagename:'' (pre @ ''imagename:'' @ name @ sep # rest) = Some (length pre)"
    and "CHR 0x00 \<notin> set (pre @ ''imagename:'' @ name @ sep # rest)"
    and "sep \<in> {CHR ''_'', CHR 0x0D, CHR 0x0A}" and "set name \<inter> {CHR ''_'', CHR 0x0D, CHR 0x0A} = {}"
  shows "stb_name (pre @ ''imagename:'' @ name @ sep # rest) = Some name"
proof -
  let ?content = "pre @ ''imagename:'' @ name @ sep # rest"
  have content: "c_string ?content = ?content"
    using assms(2) unfolding c_string_def by (intro takeWhile_eq_all_conv [THEN iffD2]) auto
  have "takeWhile (\<lambda>c. c \<notin> {CHR ''_'', CHR 0x0D, CHR 0x0A}) (name @ sep # rest) = name"
    using assms(3,4) by (subst takeWhile_append2) auto
  then have "find_first_of {CHR ''_'', CHR 0x0D, CHR 0x0A} (name @ sep # rest) = Some (length name)"
    by (simp add: find_first_of_def)
  then show ?thesis by (simp add: stb_name_def content [simplified] assms(1) [simplified])
qed

end
