(* ===== verification/Pwr_Legacy.thy ===== *)
theory Pwr_Legacy
  imports Power_Display Deep_Sleep_Daemon
begin

text \<open>
  The older power manager: power/pwrMgr.c, which drives the AV ports and the power LED itself and
  leaves deep sleep to a daemon.  Most of the file is that of pwrmgr2/pwrMgr.c (keys, settings file,
  RPC calls, wake-up time), modelled in Pwr\_Mgr and Pwr\_Settings; here are the functions that
  differ: the change of the power state, its timers, the reboot call, the standby settings of the
  video ports, the ports and the LED, the synchronisation at the start.  The statics that both files
  have are the record of Pwr\_Mgr, whose part of the deep sleep module is not used.  Modelled is the
  build without a product profile (POWERMGR\_PRODUCT\_PROFILE\_ID is not defined and ux is null);
  Legacy\_Profile has the one with a profile.

  The last part puts the two designs side by side: this manager with the stand-alone deep sleep daemon, and the
  power manager of Pwr\_Mgr, which has the deep sleep module in it, with the listener of the device
  settings manager that gets its events.
\<close>

section \<open>Ports and LED\<close>

text \<open>The device settings library as this file uses it: what Av\_Ports has, and the audio ports as
  objects, any call of which may throw.  persist\_answer is None where getEnablePersist throws;
  audio\_of is the audio port of a video port, None where it or its stereo mode cannot be read.\<close>

record legacy_platform =
  dev :: platform
  audio_list_throws :: bool
  audio_throws :: "nat \<Rightarrow> bool"
  persist_answer :: "nat \<Rightarrow> bool option"
  display_connected :: "string \<Rightarrow> bool"
  audio_of :: "string \<Rightarrow> string option"

text \<open>The stereo mode of an audio port: forced to stereo (the flag), or the persisted one.\<close>

datatype panel_call = Dev ds_call | Set_stereo_mode string bool

definition and_then :: "'c list \<times> bool \<Rightarrow> 'c list \<times> bool \<Rightarrow> 'c list \<times> bool" where
  "and_then a b = (if snd a then a else (fst a @ fst b, snd b))"

definition legacy_video :: "legacy_platform \<Rightarrow> (string \<Rightarrow> ds_call option) \<Rightarrow> panel_call list \<times> bool" where
  "legacy_video lp act = (let (cs, threw) = video_ports (dev lp) act in (map Dev cs, threw))"

definition legacy_audio :: "legacy_platform \<Rightarrow> (nat \<Rightarrow> bool) \<Rightarrow> bool \<Rightarrow> panel_call list \<times> bool" where
  "legacy_audio lp wanted on =
     (if audio_list_throws lp then ([], True)
      else port_loop (audio_throws lp) (\<lambda>i. if wanted i then Some (Dev (Audio_enable i on)) else None)
             [0..<audio_ports (dev lp)])"

definition legacy_stereo :: "legacy_platform \<Rightarrow> bool \<Rightarrow> panel_call list \<times> bool" where
  "legacy_stereo lp eas =
     port_loop (\<lambda>n. audio_of lp n = None)
       (\<lambda>n. if display_connected lp n then Some (Set_stereo_mode (the (audio_of lp n)) eas) else None)
       (supported_ports (dev lp))"

text \<open>One try block around everything: what throws skips the rest.\<close>

definition legacy_SetAVPortsPowerState ::
    "legacy_platform \<Rightarrow> standby_table \<Rightarrow> bool \<Rightarrow> power_state \<Rightarrow> panel_call list" where
  "legacy_SetAVPortsPowerState lp tbl eas st = fst
     (if st \<noteq> PWRMGR_ON
      then and_then
        (if st \<noteq> PWRMGR_OFF
         then legacy_video lp (\<lambda>n. if get_video_port_standby_setting (name_length (dev lp)) tbl n
                                   then None else Some (Video_disable n))
         else legacy_video lp (\<lambda>n. Some (Video_disable n)))
        (legacy_audio lp (\<lambda>i. True) False)
      else and_then (legacy_video lp (\<lambda>n. Some (Video_enable n)))
        (and_then (legacy_audio lp (\<lambda>i. persist_answer lp i \<noteq> Some False) True) (legacy_stereo lp eas)))"

definition legacy_SetLEDStatus :: "legacy_platform \<Rightarrow> power_state \<Rightarrow> panel_call list" where
  "legacy_SetLEDStatus lp st =
     [Dev (Power_led (if st \<noteq> PWRMGR_ON then led_on_in_low_power (dev lp) else True))]"

section \<open>State and power state changes\<close>

record legacy_state =
  core :: pwr_state
  video_table :: standby_table

text \<open>The world of a call: that of Pwr\_Mgr (memory is never short here), and the answer of the deep
  sleep daemon to GetDeepSleepStatus, None when the bus call fails.  The status variable is
  initialised with 0, which is NotStarted.  The event of a change is a variable on the stack whose
  members are set only in the builds that have them; the last two fields are what is in it before.\<close>

record legacy_world =
  pw :: pwr_world
  ds_answer :: "deep_sleep_status option"
  stack_timeout :: nat
  stack_nwStandby :: bool

datatype legacy_effect =
    Does pwr_effect
  | Panel panel_call
  | DaemonWakeup power_state power_state

definition dsStatus :: "legacy_world \<Rightarrow> deep_sleep_status" where
  "dsStatus w = (case ds_answer w of None \<Rightarrow> DeepSleepStatus_NotStarted | Some st \<Rightarrow> st)"

definition daemon_refuses :: "legacy_world \<Rightarrow> bool" where
  "daemon_refuses w = (dsStatus w = DeepSleepStatus_InProgress \<or> ds_answer w = None)"

text \<open>The change itself: the announcement, the ports and the LED, the settings, the clean-up script,
  the platform.\<close>

definition legacy_change ::
  "pwr_cfg \<Rightarrow> legacy_platform \<Rightarrow> legacy_world \<Rightarrow> power_state \<Rightarrow> int \<Rightarrow> legacy_state \<Rightarrow>
   legacy_state \<times> legacy_effect list" where
  "legacy_change cfg lp w new keyCode s =
     (let c = core s;
          es1 = Does (PowerPrechange (cur_power c) new) #
                map Panel (legacy_SetAVPortsPowerState lp (video_table s) (isEASInProgress c) new @
                           legacy_SetLEDStatus lp new);
          c1 = (if OFFLINE_MAINT_REBOOT cfg \<and> new \<noteq> PWRMGR_ON then c\<lparr>standby_time := uptime (pw w)\<rparr> else c);
          (c2, es2) = persist (pw w) (set_power new c1);
          c3 = (if FP_KEY_SENSITIVITY cfg then c2\<lparr>transitionState := new, targetState := new\<rparr> else c2);
          (c4, es4) =
            (if \<not> LLAMA_PLATCO (ds_options cfg) \<and> new \<noteq> PWRMGR_ON
             then (c3\<lparr>xre_timer := now (pw w)\<rparr>, [StandbyCleanup (keyCode = KED_POWER)])
             else (c3, []))
      in (s\<lparr>core := c4\<rparr>, es1 @ map Does (es2 @ es4 @ [PlatSetPowerState new])))"

text \<open>The event of the change, with the wake-up time and the wake-up timer, and HDMI CEC.\<close>

definition legacy_post ::
  "pwr_cfg \<Rightarrow> legacy_world \<Rightarrow> power_state \<Rightarrow> power_state \<Rightarrow> legacy_state \<Rightarrow> legacy_state \<times> legacy_effect list" where
  "legacy_post cfg w cur new s =
     (let c = core s;
          c1 = (if DEEP_SLEEP_BUILD cfg \<and> \<not> IsWakeupTimerSet c
                then c\<lparr>deep_sleep_wakeup_timeout_sec := getWakeupTime (wk (pw w))\<rparr> else c);
          mc = \<lparr>mc_curState = cur, mc_newState = new,
                mc_deep_sleep_timeout = (if DEEP_SLEEP_BUILD cfg then deep_sleep_wakeup_timeout_sec c1 else stack_timeout w),
                mc_nwStandbyMode = (if DEEP_SLEEP_BUILD cfg \<and> LLAMA_PLATCO_SKY_XIONE (ds_options cfg)
                                    then nwStandby_static c1 else stack_nwStandby w)\<rparr>;
          (c2, es2) = (if DEEP_SLEEP_BUILD cfg then arm_wakeup_timer cfg (pw w) new c1 else (c1, []));
          es3 = (if new = PWRMGR_ON
                 then [CecImageViewOn (isCecLocalLogicEnabled c2),
                       CecActiveSource (isCecLocalLogicEnabled c2) KET_KEYDOWN KED_MENU]
                 else [])
      in (s\<lparr>core := c2\<rparr>, map Does (es2 @ [ModeChanged mc] @ es3)))"

definition legacy_SetPowerState ::
  "pwr_cfg \<Rightarrow> legacy_platform \<Rightarrow> legacy_world \<Rightarrow> power_state \<Rightarrow> int \<Rightarrow> legacy_state \<Rightarrow>
   legacy_state \<times> legacy_effect list \<times> iarm_result" where
  "legacy_SetPowerState cfg lp w new keyCode s =
     (let cur = cur_power (core s) in
      if cur \<noteq> new
      then
        (let (c1, es1) = drop_bootup cfg (core s);
             leaves = (DEEP_SLEEP_BUILD cfg \<and> cur = PWRMGR_STANDBY_DEEP_SLEEP \<and> new \<noteq> PWRMGR_STANDBY_DEEP_SLEEP);
             s1 = s\<lparr>core := c1\<rparr>
         in if leaves \<and> daemon_refuses w
            then (s1, map Does es1, IARM_RESULT_SUCCESS)
            else
              (let es2 = (if leaves then [DaemonWakeup cur new] else []);
                   (s3, es3) = legacy_change cfg lp w new keyCode s1;
                   (s4, es4) = legacy_post cfg w cur new s3
               in (s4, map Does es1 @ es2 @ es3 @ es4, IARM_RESULT_SUCCESS)))
      else (s, [], IARM_RESULT_SUCCESS))"

definition legacy_GetPowerState :: "legacy_state \<Rightarrow> power_state \<times> iarm_result" where
  "legacy_GetPowerState s = (cur_power (core s), IARM_RESULT_SUCCESS)"

text \<open>The request of a key: here the LED changes before the thread does the rest.\<close>

definition legacy_SetPowerStateAsync ::
  "legacy_platform \<Rightarrow> power_state \<Rightarrow> power_state \<Rightarrow> legacy_state \<Rightarrow> legacy_state \<times> legacy_effect list" where
  "legacy_SetPowerStateAsync lp curState newState s =
     (let c = core s;
          (c1, es1) = (if \<not> async_thread c then (c\<lparr>async_thread := True\<rparr>, [StartAsyncThread]) else (c, []))
      in if curState \<noteq> newState
         then
           (let led = map Panel (legacy_SetLEDStatus lp newState);
                c2 = c1\<lparr>transitionState := newState\<rparr>
            in if targetState c2 \<noteq> newState
               then (s\<lparr>core := c2\<lparr>targetState := newState\<rparr>\<rparr>, map Does es1 @ led @ [Does SignalAsyncThread])
               else (s\<lparr>core := c2\<rparr>, map Does es1 @ led))
         else (s\<lparr>core := c1\<rparr>, map Does es1))"

definition legacy_AsyncPowerTransition ::
  "pwr_cfg \<Rightarrow> legacy_platform \<Rightarrow> legacy_world \<Rightarrow> legacy_state \<Rightarrow> legacy_state \<times> legacy_effect list \<times> bool" where
  "legacy_AsyncPowerTransition cfg lp w s =
     (if cur_power (core s) \<noteq> targetState (core s)
      then (let (s', es, r) = legacy_SetPowerState cfg lp w (targetState (core s)) (uninit_key (pw w)) s
            in (s', es, False))
      else (s, [], True))"

section \<open>Timers\<close>

definition force_power :: "power_state \<Rightarrow> legacy_state \<Rightarrow> legacy_state" where
  "force_power p s = s\<lparr>core := set_power p (core s)\<rparr>"

text \<open>The daemon gets the time-out by the event.\<close>

definition legacy_handleDeepsleepTimeoutWakeup ::
  "pwr_cfg \<Rightarrow> legacy_platform \<Rightarrow> legacy_world \<Rightarrow> legacy_state \<Rightarrow> legacy_state \<times> legacy_effect list" where
  "legacy_handleDeepsleepTimeoutWakeup cfg lp w s =
     (let es1 = [Does (DeepSleepTimeoutEvent (deep_sleep_wakeup_timeout_sec (core s)))]
      in if DISABLE_SCHD_REBOOT_AT_DEEPSLEEP (ds_options cfg)
         then (let (s', es, r) = legacy_SetPowerState cfg lp w PWRMGR_STANDBY_LIGHT_SLEEP (uninit_key (pw w))
                                   (force_power PWRMGR_STANDBY_DEEP_SLEEP s)
               in (s', es1 @ es))
         else (s, es1))"

definition legacy_deep_sleep_wakeup_fn ::
  "pwr_cfg \<Rightarrow> legacy_platform \<Rightarrow> legacy_world \<Rightarrow> legacy_state \<Rightarrow> legacy_state \<times> legacy_effect list \<times> bool" where
  "legacy_deep_sleep_wakeup_fn cfg lp w s =
     (let timeout = nat ((now (pw w) - timeAtDeepSleep (core s)) mod 2 ^ 32) in
      if dsStatus w \<noteq> DeepSleepStatus_InProgress \<and> deep_sleep_wakeup_timeout_sec (core s) \<le> timeout
      then (let (s', es) = legacy_handleDeepsleepTimeoutWakeup cfg lp w s in (s', es, False))
      else (s, [], True))"

definition legacy_invoke_deep_sleep_on_bootup_timeout ::
  "pwr_cfg \<Rightarrow> legacy_platform \<Rightarrow> legacy_world \<Rightarrow> legacy_state \<Rightarrow> legacy_state \<times> legacy_effect list" where
  "legacy_invoke_deep_sleep_on_bootup_timeout cfg lp w s =
     (let (s', es, r) = legacy_SetPowerState cfg lp w PWRMGR_STANDBY_DEEP_SLEEP (uninit_key (pw w))
                          (force_power PWRMGR_STANDBY s)
      in (s', es))"

section \<open>Other calls\<close>

text \<open>\_HandleReboot without a controller; the strings as in Pwr\_Mgr.\<close>

definition legacy_HandleReboot :: "string \<Rightarrow> string \<Rightarrow> string \<Rightarrow> legacy_effect list \<times> iarm_result" where
  "legacy_HandleReboot custom other rq =
     (let n = PWRMGR_MAX_REBOOT_REASON_LENGTH;
          custom' = take (n - 1) custom; rq' = take (n - 1) rq;
          other' = (if length other < n then other else take n other @ rq')
      in (map (Does \<circ> ResetEffect) (performReboot (Some rq') (Some custom') (Some other')), IARM_RESULT_SUCCESS))"

definition legacy_SysModeChange :: "sys_mode \<Rightarrow> legacy_state \<Rightarrow> legacy_state \<times> iarm_result" where
  "legacy_SysModeChange newMode s =
     (if newMode = SYS_MODE_EAS then s\<lparr>core := (core s)\<lparr>isEASInProgress := True\<rparr>\<rparr>
      else if newMode = SYS_MODE_NORMAL then s\<lparr>core := (core s)\<lparr>isEASInProgress := False\<rparr>\<rparr> else s,
      IARM_RESULT_SUCCESS)"

text \<open>The standby setting of a video port is applied at once in a standby state: this file looks at
  the current power state.\<close>

definition legacy_SetStandbyVideoState ::
    "legacy_platform \<Rightarrow> string option \<Rightarrow> int \<Rightarrow> legacy_state \<Rightarrow> legacy_state \<times> int \<times> legacy_effect list" where
  "legacy_SetStandbyVideoState lp port isEnabled s =
     (case port of
        None \<Rightarrow> (s, -1, [])
      | Some port \<Rightarrow>
          (let p = dev lp;
               s = s\<lparr>video_table := store_setting (name_length p) port (isEnabled \<noteq> 0) (video_table s)\<rparr>;
               cur = cur_power (core s)
           in if \<not> known_port p port then (s, -1, [])
              else if cur \<noteq> PWRMGR_ON \<and> cur \<noteq> PWRMGR_OFF
              then if port_throws p port then (s, -1, [])
                   else (s, 0, [Panel (Dev (if isEnabled = 1 then Video_enable port else Video_disable port))])
              else (s, 0, [])))"

definition legacy_GetStandbyVideoState ::
    "legacy_platform \<Rightarrow> string option \<Rightarrow> legacy_state \<Rightarrow> (int \<times> int option) option" where
  "legacy_GetStandbyVideoState lp port s =
     (case port of
        None \<Rightarrow> None
      | Some port \<Rightarrow>
          if \<not> known_port (dev lp) port then Some (-1, None)
          else Some (0, Some (if get_video_port_standby_setting (name_length (dev lp)) (video_table s) port
                              then 1 else 0)))"

section \<open>The start\<close>

text \<open>The end of \_InitSettings: the platform is asked for its state (plat\_get k is the k-th answer,
  None when it fails, which leaves the variable), and told the stored one until it agrees, ten times
  at most; the fourth argument counts the rounds left after this one.\<close>

primrec legacy_sync_loop ::
  "(nat \<Rightarrow> power_state option) \<Rightarrow> legacy_platform \<Rightarrow> power_state \<Rightarrow> nat \<Rightarrow> nat \<Rightarrow> power_state \<Rightarrow>
   power_state \<times> legacy_effect list" where
  "legacy_sync_loop g lp p 0 k st =
     (case g k of Some v \<Rightarrow> v | None \<Rightarrow> st,
      map Panel (legacy_SetAVPortsPowerState lp standby_boot False p) @ [Does (PlatSetPowerState p)])"
| "legacy_sync_loop g lp p (Suc left) k st =
     (let es = map Panel (legacy_SetAVPortsPowerState lp standby_boot False p) @ [Does (PlatSetPowerState p)];
          st' = (case g k of Some v \<Rightarrow> v | None \<Rightarrow> st)
      in if st' \<noteq> p
         then (let (r, es') = legacy_sync_loop g lp p left (k + 1) st' in (r, es @ es'))
         else (st', es))"

definition legacy_sync ::
  "(nat \<Rightarrow> power_state option) \<Rightarrow> legacy_platform \<Rightarrow> power_state \<Rightarrow> power_state \<times> legacy_effect list" where
  "legacy_sync g lp p =
     (case g 0 of
        None \<Rightarrow> (p, [])
      | Some st \<Rightarrow>
          (let (p', es) = (if p = st then (p, []) else legacy_sync_loop g lp p 9 1 st)
           in (p', es @ map Panel (legacy_SetAVPortsPowerState lp standby_boot False p' @
                                   legacy_SetLEDStatus lp p'))))"

text \<open>The manager after PWRMgr\_Start, from the settings that were loaded; restarted tells whether the
  flag file of a restart is there.\<close>

definition legacy_start ::
  "pwr_cfg \<Rightarrow> (nat \<Rightarrow> power_state option) \<Rightarrow> bool \<Rightarrow> legacy_platform \<Rightarrow> legacy_world \<Rightarrow> settings \<Rightarrow>
   power_state \<Rightarrow> bool \<Rightarrow> bool \<Rightarrow> int \<Rightarrow> legacy_state \<times> legacy_effect list" where
  "legacy_start cfg g restarted lp w st lastp cec wake t0 =
     (let boot = (DEEP_SLEEP_BUILD cfg \<and> powerState st = PWRMGR_STANDBY_DEEP_SLEEP);
          (p, es) = legacy_sync g lp (powerState st);
          ev = (if PLATCO_BOOTTO_STANDBY cfg \<and> \<not> restarted
                then [Does (ModeChanged \<lparr>mc_curState = PWRMGR_OFF, mc_newState = PWRMGR_STANDBY,
                              mc_deep_sleep_timeout = stack_timeout w, mc_nwStandbyMode = stack_nwStandby w\<rparr>)]
                else [])
      in (\<lparr>core = (pwr_init (st\<lparr>powerState := p\<rparr>) lastp cec wake t0)\<lparr>dsleep_bootup_event_src := boot\<rparr>,
           video_table = standby_boot\<rparr>, es @ ev))"

section \<open>Errors\<close>

text \<open>Without an answer of the daemon a device in deep sleep ignores every request to leave it; the
  caller is told that all went well.\<close>

lemma no_daemon_no_wakeup:
  assumes "DEEP_SLEEP_BUILD cfg" and "cur_power (core s) = PWRMGR_STANDBY_DEEP_SLEEP" and "ds_answer w = None"
    and "legacy_SetPowerState cfg lp w new k s = (s', es, r)"
  shows "cur_power (core s') = PWRMGR_STANDBY_DEEP_SLEEP \<and> r = IARM_RESULT_SUCCESS"
  using assms(2-4) assms(1)
  by (cases "new = PWRMGR_STANDBY_DEEP_SLEEP")
     (auto simp: legacy_SetPowerState_def daemon_refuses_def case_prod_beta Let_def)

text \<open>At the start, ports and LED are left alone when the platform does not tell its state.\<close>

lemma unanswered_start_sets_no_port:
  "g 0 = None \<Longrightarrow> legacy_sync g lp p = (p, [])"
  by (simp add: legacy_sync_def)

text \<open>A video port that throws leaves all audio ports on in standby; in the listener they go off.\<close>

lemma throwing_port_keeps_audio:
  assumes "list_throws (dev lp)" and "st \<noteq> PWRMGR_ON"
  shows "legacy_SetAVPortsPowerState lp tbl eas st = []"
    and "SetAVPortsPowerState (dev lp) tbl st = map (\<lambda>i. Audio_enable i False) [0..<audio_ports (dev lp)]"
  using assms by (simp_all add: legacy_SetAVPortsPowerState_def SetAVPortsPowerState_def legacy_video_def
      video_ports_def and_then_def)

text \<open>In a build without deep sleep the event of a change carries what was on the stack.\<close>

lemma event_carries_stack:
  assumes "\<not> DEEP_SLEEP_BUILD cfg"
  shows "Does (ModeChanged \<lparr>mc_curState = cur, mc_newState = new, mc_deep_sleep_timeout = stack_timeout w,
            mc_nwStandbyMode = stack_nwStandby w\<rparr>) \<in> set (snd (legacy_post cfg w cur new s))"
  using assms by (simp add: legacy_post_def Let_def case_prod_beta)

end
