(* ===== verification/Pwr_Generations.thy ===== *)
theory Pwr_Generations
  imports Pwr_Legacy
begin

text \<open>
  The two designs of the power manager side by side: power/pwrMgr.c with the deep sleep daemon, and
  pwrmgr2/pwrMgr.c with the listener of the device settings manager, both without a product profile.
  The same events go to both, and what reaches the bus, the platform, the video ports and the LED
  is compared.  Events on the bus are delivered at once.
\<close>

section \<open>The older box\<close>

datatype box_event =
    Request power_state int
  | Async_turn
  | Async_request power_state power_state
  | Wakeup_timer
  | Bootup_timer
  | Timeout_thread
  | System_mode sys_mode
  | Standby_video "string option" int
  | Reboot_call string string string
  | Sleep_turn mode_change
  | Delay_turn
  | Sleep_delay "nat option"

type_synonym box_input = "legacy_world \<times> ds_world \<times> box_event"

datatype box_effect = By_manager pwr_effect | On_panel panel_call

text \<open>The world of an input is that of the older manager, of which the newer one has a part.  The manager
  and the daemon, which gets its call and its event.\<close>

type_synonym older_box = "legacy_state \<times> ds_state"

definition daemon_part :: "ds_state \<times> dsd_effect list \<Rightarrow> ds_state \<times> box_effect list" where
  "daemon_part r = (fst r, map (By_manager \<circ> DsEffect) (common (snd r)))"

fun deliver1 :: "dsd_cfg \<Rightarrow> ds_world \<Rightarrow> legacy_effect \<Rightarrow> ds_state \<Rightarrow> ds_state \<times> box_effect list" where
  "deliver1 dcfg dw (DaemonWakeup cur new) d = daemon_part (daemon_step dcfg (Wakeup cur new) d)"
| "deliver1 dcfg dw (Does (DeepSleepTimeoutEvent t)) d =
     (let (d', es) = daemon_part (daemon_step dcfg (Reboot_timeout dw) d)
      in (d', By_manager (DeepSleepTimeoutEvent t) # es))"
| "deliver1 dcfg dw (Does e) d = (d, [By_manager e])"
| "deliver1 dcfg dw (Panel c) d = (d, [On_panel c])"

definition deliver :: "dsd_cfg \<Rightarrow> ds_world \<Rightarrow> legacy_effect list \<Rightarrow> ds_state \<Rightarrow> ds_state \<times> box_effect list" where
  "deliver dcfg dw = run_trace (deliver1 dcfg dw)"

fun older_manager ::
  "pwr_cfg \<Rightarrow> legacy_platform \<Rightarrow> legacy_world \<Rightarrow> box_event \<Rightarrow> legacy_state \<Rightarrow> legacy_state \<times> legacy_effect list" where
  "older_manager cfg lp w (Request p k) s =
     (let (s', es, r) = legacy_SetPowerState cfg lp w p k s in (s', es))"
| "older_manager cfg lp w Async_turn s =
     (if async_thread (core s)
      then (let (s', es, waits) = legacy_AsyncPowerTransition cfg lp w s in (s', es)) else (s, []))"
| "older_manager cfg lp w (Async_request cur new) s = legacy_SetPowerStateAsync lp cur new s"
| "older_manager cfg lp w Wakeup_timer s =
     (if wakeup_event_src (core s)
      then (let (s', es, stays) = legacy_deep_sleep_wakeup_fn cfg lp w s in (s', es)) else (s, []))"
| "older_manager cfg lp w Bootup_timer s =
     (if dsleep_bootup_event_src (core s)
      then legacy_invoke_deep_sleep_on_bootup_timeout cfg lp w s else (s, []))"
| "older_manager cfg lp w Timeout_thread s =
     (if WAKEUP_TIMER_EVT (ds_options cfg) then legacy_handleDeepsleepTimeoutWakeup cfg lp w s else (s, []))"
| "older_manager cfg lp w (System_mode m) s = (fst (legacy_SysModeChange m s), [])"
| "older_manager cfg lp w (Standby_video port on) s =
     (let (s', result, es) = legacy_SetStandbyVideoState lp port on s in (s', es))"
| "older_manager cfg lp w (Reboot_call custom other rq) s = (s, fst (legacy_HandleReboot custom other rq))"
| "older_manager cfg lp w _ s = (s, [])"

fun daemon_turn :: "dsd_cfg \<Rightarrow> ds_world \<Rightarrow> box_event \<Rightarrow> ds_state \<Rightarrow> ds_state \<times> box_effect list" where
  "daemon_turn dcfg dw (Sleep_turn mc) d = daemon_part (daemon_step dcfg (Mode_change dw mc) d)"
| "daemon_turn dcfg dw Delay_turn d = daemon_part (daemon_step dcfg (Delay_timer dw) d)"
| "daemon_turn dcfg dw (Sleep_delay t) d = daemon_part (daemon_step dcfg (Set_timer t) d)"
| "daemon_turn dcfg dw _ d = (d, [])"

text \<open>If the daemon answers at all, it answers with its status.\<close>

definition older_world :: "legacy_world \<Rightarrow> ds_state \<Rightarrow> legacy_world" where
  "older_world w d = w\<lparr>ds_answer := map_option (\<lambda>_. fst (dsd_GetDeepSleepStatus d)) (ds_answer w)\<rparr>"

definition older_step ::
  "pwr_cfg \<Rightarrow> dsd_cfg \<Rightarrow> legacy_platform \<Rightarrow> box_input \<Rightarrow> older_box \<Rightarrow> older_box \<times> box_effect list" where
  "older_step cfg dcfg lp i b =
     (let (w, dw, e) = i; (s, d) = b;
          (s', es) = older_manager cfg lp (older_world w d) e s;
          (d1, bs) = deliver dcfg dw es d;
          (d2, cs) = daemon_turn dcfg dw e d1
      in ((s', d2), bs @ cs))"

section \<open>The newer box\<close>

type_synonym newer_box = "pwr_state \<times> listener"

definition sleep_module :: "ds_state \<times> ds_effect list \<Rightarrow> pwr_state \<Rightarrow> pwr_state \<times> pwr_effect list" where
  "sleep_module r s = (s\<lparr>ds := fst r\<rparr>, map DsEffect (snd r))"

fun newer_manager ::
  "pwr_cfg \<Rightarrow> pwr_world \<Rightarrow> ds_world \<Rightarrow> box_event \<Rightarrow> pwr_state \<Rightarrow> pwr_state \<times> pwr_effect list" where
  "newer_manager cfg w dw (Request p k) s = (let (s', es, r) = SetPowerState cfg w p k s in (s', es))"
| "newer_manager cfg w dw Async_turn s =
     (if async_thread s then (let (s', es, waits) = AsyncPowerTransition cfg w s in (s', es)) else (s, []))"
| "newer_manager cfg w dw (Async_request cur new) s = SetPowerStateAsync cur new s"
| "newer_manager cfg w dw Wakeup_timer s =
     (if wakeup_event_src s then (let (s', es, stays) = deep_sleep_wakeup_fn cfg w s in (s', es)) else (s, []))"
| "newer_manager cfg w dw Bootup_timer s =
     (if dsleep_bootup_event_src s then invoke_deep_sleep_on_bootup_timeout cfg w s else (s, []))"
| "newer_manager cfg w dw Timeout_thread s =
     (if WAKEUP_TIMER_EVT (ds_options cfg) then handleDeepsleepTimeoutWakeup cfg w s else (s, []))"
| "newer_manager cfg w dw (System_mode m) s = (fst (SysModeChange m s), [])"
| "newer_manager cfg w dw (Reboot_call custom other rq) s = (s, fst (HandleReboot custom other rq s))"
| "newer_manager cfg w dw (Sleep_turn mc) s = sleep_module (module_step (ds_options cfg) (Mode_change dw mc) (ds s)) s"
| "newer_manager cfg w dw Delay_turn s = sleep_module (module_step (ds_options cfg) (Delay_timer dw) (ds s)) s"
| "newer_manager cfg w dw (Sleep_delay t) s = sleep_module (module_step (ds_options cfg) (Set_timer t) (ds s)) s"
| "newer_manager cfg w dw (Standby_video port on) s = (s, [])"

text \<open>What the listener does with an effect of the manager: it gets the event of a change and the call
  before a reboot.\<close>

fun tell1 :: "legacy_platform \<Rightarrow> pwr_effect \<Rightarrow> listener \<Rightarrow> listener \<times> box_effect list" where
  "tell1 lp (ModeChanged mc) l =
     (let (l', cs) = ds_step (dev lp) (Pwr_event True True (mc_curState mc) (mc_newState mc) True) l
      in (l', By_manager (ModeChanged mc) # map (On_panel \<circ> Dev) cs))"
| "tell1 lp (pwr_effect.SetRebootConfig reason st) l =
     (let (l', cs) = ds_step (dev lp) (Set_reboot_config reason st True) l
      in (l', By_manager (pwr_effect.SetRebootConfig reason st) # map (On_panel \<circ> Dev) cs))"
| "tell1 lp e l = (l, [By_manager e])"

definition tell :: "legacy_platform \<Rightarrow> pwr_effect list \<Rightarrow> listener \<Rightarrow> listener \<times> box_effect list" where
  "tell lp = run_trace (tell1 lp)"

fun listener_turn :: "legacy_platform \<Rightarrow> box_event \<Rightarrow> listener \<Rightarrow> listener \<times> box_effect list" where
  "listener_turn lp (Standby_video port on) l =
     (let (l', cs) = ds_step (dev lp) (Set_standby_video port on) l in (l', map (On_panel \<circ> Dev) cs))"
| "listener_turn lp _ l = (l, [])"

definition newer_step ::
  "pwr_cfg \<Rightarrow> legacy_platform \<Rightarrow> box_input \<Rightarrow> newer_box \<Rightarrow> newer_box \<times> box_effect list" where
  "newer_step cfg lp i b =
     (let (w, dw, e) = i; (s, l) = b;
          (s', es) = newer_manager cfg (pw w) dw e s;
          (l1, bs) = tell lp es l;
          (l2, cs) = listener_turn lp e l1
      in ((s', l2), bs @ cs))"

section \<open>What is compared\<close>

datatype observer = Bus | Video | Led

text \<open>The thread of the module and the call before a reboot exist only in the newer box; audio differs
  in how the ports are reached.\<close>

fun seen_by :: "box_effect \<Rightarrow> observer option" where
  "seen_by (By_manager (StartDeepSleepThread mc)) = None"
| "seen_by (By_manager (pwr_effect.SetRebootConfig reason st)) = None"
| "seen_by (By_manager e) = Some Bus"
| "seen_by (On_panel (Dev (Video_enable n))) = Some Video"
| "seen_by (On_panel (Dev (Video_disable n))) = Some Video"
| "seen_by (On_panel (Dev (Power_led b))) = Some Led"
| "seen_by (On_panel c) = None"

definition seen :: "observer \<Rightarrow> box_effect list \<Rightarrow> box_effect list" where
  "seen k es = filter (\<lambda>e. seen_by e = Some k) es"

text \<open>The event of a change is a variable on the stack in the older manager, and some members are set only
  in the builds that use them; the newer one clears them.  blank clears them in an effect.\<close>

fun blank :: "pwr_cfg \<Rightarrow> box_effect \<Rightarrow> box_effect" where
  "blank cfg (By_manager (ModeChanged mc)) =
     By_manager (ModeChanged (mc\<lparr>
       mc_deep_sleep_timeout := (if DEEP_SLEEP_BUILD cfg then mc_deep_sleep_timeout mc else 0),
       mc_nwStandbyMode := (DEEP_SLEEP_BUILD cfg \<and> LLAMA_PLATCO_SKY_XIONE (ds_options cfg) \<and> mc_nwStandbyMode mc)\<rparr>))"
| "blank cfg e = e"

text \<open>Where the two may be compared: memory for the event; a daemon that answers when it is asked; no deep sleep request while a transition is
  in progress, and an attempt to sleep that succeeds (Deep\_Sleep\_Daemon); a standby setting only
  while the state the listener booted in and the current one are both standby states or both not.\<close>

definition awake :: "power_state \<Rightarrow> bool" where
  "awake st = (st = PWRMGR_ON \<or> st = PWRMGR_OFF)"

fun comparable :: "box_input \<Rightarrow> newer_box \<Rightarrow> bool" where
  "comparable (w, dw, Sleep_turn mc) (s, l) = (malloc_ok (pw w) \<and> ordinary (Mode_change dw mc) (ds s))"
| "comparable (w, dw, Standby_video port on) (s, l) = (awake (boot_state l) = awake (cur_power s))"
| "comparable (w, dw, e) (s, l) = (malloc_ok (pw w) \<and> ds_answer w \<noteq> None)"

primrec comparable_run :: "pwr_cfg \<Rightarrow> legacy_platform \<Rightarrow> box_input list \<Rightarrow> newer_box \<Rightarrow> bool" where
  "comparable_run cfg lp [] b = True"
| "comparable_run cfg lp (i # is) b = (comparable i b \<and> comparable_run cfg lp is (fst (newer_step cfg lp i b)))"

definition same_box :: "older_box \<Rightarrow> newer_box \<Rightarrow> bool" where
  "same_box ob nb =
     ((core (fst ob))\<lparr>ds := snd ob\<rparr> = fst nb \<and> video_table (fst ob) = table (snd nb) \<and> ux (snd nb) = None)"

section \<open>Lemmas: what is seen\<close>

lemma seen_append [simp]: "seen k (es @ fs) = seen k es @ seen k fs"
  by (simp add: seen_def)

lemma seen_Nil [simp]: "seen k [] = []"
  by (simp add: seen_def)

lemma seen_Cons: "seen k (e # es) = (if seen_by e = Some k then e # seen k es else seen k es)"
  by (simp add: seen_def)

definition on_bus :: "pwr_effect \<Rightarrow> bool" where
  "on_bus e = (seen_by (By_manager e) = Some Bus)"

lemma seen_by_manager: "seen_by (By_manager e) = (if on_bus e then Some Bus else None)"
  by (cases e) (simp_all add: on_bus_def)

lemma seen_by_panel: "seen_by (On_panel c) \<noteq> Some Bus"
proof (cases c)
  case (Dev d)
  then show ?thesis by (cases d) simp_all
qed simp

lemma seen_manager [simp]:
  "seen k (map By_manager es) = (if k = Bus then map By_manager (filter on_bus es) else [])"
  by (induction es) (auto simp: seen_Cons seen_by_manager)

lemma seen_manager_ds [simp]:
  "seen k (map (By_manager \<circ> DsEffect) es) = (if k = Bus then map (By_manager \<circ> DsEffect) es else [])"
  by (induction es) (auto simp: seen_Cons)

lemma seen_panel_bus [simp]: "seen Bus (map On_panel cs) = []" "seen Bus (map (On_panel \<circ> f) xs) = []"
  by (induction cs; simp add: seen_Cons seen_by_panel) (induction xs; simp add: seen_Cons seen_by_panel)

lemma on_bus_simps [simp]:
  "\<not> on_bus (StartDeepSleepThread mc)" "\<not> on_bus (pwr_effect.SetRebootConfig reason st)"
  "on_bus (DsEffect d)" "on_bus (PowerPrechange a b)" "on_bus (ModeChanged mc)" "on_bus (DeepSleepTimeoutEvent t)"
  "on_bus (ResetEffect x)"
  by (simp_all add: on_bus_def)

section \<open>Lemmas: ports and LED\<close>

lemma port_loop_calls: "c \<in> set (fst (port_loop throws act ns)) \<Longrightarrow> \<exists>n. act n = Some c"
  by (induction ns) (auto simp: Let_def case_prod_beta split: option.splits if_splits)

lemma legacy_audio_unseen [simp]: "k \<noteq> Bus \<Longrightarrow> seen k (map On_panel (fst (legacy_audio lp wanted on))) = []"
  by (cases k) (auto simp: seen_def filter_empty_conv legacy_audio_def dest!: port_loop_calls split: if_splits)

lemma legacy_stereo_unseen [simp]: "seen k (map On_panel (fst (legacy_stereo lp eas))) = []"
  by (auto simp: seen_def filter_empty_conv legacy_stereo_def dest!: port_loop_calls split: if_splits)

lemma seen_and_then:
  assumes "seen k (map On_panel (fst b)) = []"
  shows "seen k (map On_panel (fst (and_then a b))) = seen k (map On_panel (fst a))"
  using assms by (simp add: and_then_def)

lemma audio_unseen [simp]: "k \<noteq> Bus \<Longrightarrow> seen k (map (On_panel \<circ> Dev) (map (\<lambda>i. Audio_enable i on) is)) = []"
  by (induction "is") (simp_all add: seen_Cons)

lemma panel_same:
  assumes "k \<noteq> Bus"
  shows "seen k (map On_panel (legacy_SetAVPortsPowerState lp tbl eas st))
       = seen k (map (On_panel \<circ> Dev) (SetAVPortsPowerState (dev lp) tbl st))"
proof -
  have dev: "map On_panel (fst (legacy_video lp act)) = map (On_panel \<circ> Dev) (fst (video_ports (dev lp) act))" for act
    by (simp add: legacy_video_def case_prod_beta)
  have eas: "seen k (map (On_panel \<circ> Dev) (if e then [EAS_audio_mode] else [])) = []" for e
    by (simp add: seen_def)
  have rest: "seen k (map On_panel (fst (and_then (legacy_audio lp w on) (legacy_stereo lp eas)))) = []" for w on
    using assms by (simp add: seen_and_then)
  show ?thesis
    using assms by (cases "st = PWRMGR_ON"; cases "st = PWRMGR_OFF")
      (simp_all add: legacy_SetAVPortsPowerState_def SetAVPortsPowerState_def seen_and_then rest dev eas
        case_prod_beta Let_def del: map_map)
qed

lemma led_same: "map On_panel (legacy_SetLEDStatus lp st) = map (On_panel \<circ> Dev) (SetLEDStatus (dev lp) st)"
  by (simp add: legacy_SetLEDStatus_def SetLEDStatus_def)

lemma ports_no_led: "seen Led (map (On_panel \<circ> Dev) (SetAVPortsPowerState p tbl st)) = []"
proof -
  have "\<not> seen_by (On_panel (Dev c)) = Some Led"
    if "c \<in> set (fst (video_ports p act))" and "\<And>n c. act n = Some c \<Longrightarrow> is_video c" for act c
  proof -
    have "c \<in> set (fst (port_loop (port_throws p) act (supported_ports p)))"
      using that(1) by (auto simp: video_ports_def split: if_splits)
    from port_loop_calls [OF this] obtain n where "act n = Some c" ..
    then have "is_video c" by (rule that(2))
    then show ?thesis by (cases c) simp_all
  qed
  then have video: "seen Led (map (On_panel \<circ> Dev) (fst (video_ports p act))) = []"
    if "\<And>n c. act n = Some c \<Longrightarrow> is_video c" for act using that by (auto simp: seen_def filter_empty_conv)
  have v1: "seen Led (map (On_panel \<circ> Dev) (fst (video_ports p (\<lambda>n. Some (Video_enable n))))) = []"
    and v2: "seen Led (map (On_panel \<circ> Dev) (fst (video_ports p (\<lambda>n. Some (Video_disable n))))) = []"
    and v3: "seen Led (map (On_panel \<circ> Dev) (fst (video_ports p
        (\<lambda>n. if f n then None else Some (Video_disable n))))) = []" for f
    by (rule video, auto split: if_splits)+
  have eas: "seen Led (map (On_panel \<circ> Dev) (if e then [EAS_audio_mode] else [])) = []" for e
    by (simp add: seen_def)
  show ?thesis
    by (cases "st = PWRMGR_ON"; cases "st = PWRMGR_OFF")
       (simp_all add: SetAVPortsPowerState_def v1 v2 v3 eas case_prod_beta Let_def del: map_map)
qed

lemma led_only_led: "k \<noteq> Led \<Longrightarrow> seen k (map (On_panel \<circ> Dev) (SetLEDStatus p st)) = []"
  by (cases k) (simp_all add: SetLEDStatus_def seen_def)

text \<open>One file sets the ports first, the other the LED: no observer sees the difference.\<close>

lemma display_same:
  "k \<noteq> Bus \<Longrightarrow>
   seen k (map On_panel (legacy_SetAVPortsPowerState lp tbl eas st @ legacy_SetLEDStatus lp st))
     = seen k (map (On_panel \<circ> Dev) (SetLEDStatus (dev lp) st @ SetAVPortsPowerState (dev lp) tbl st))"
  by (cases "k = Led") (simp_all add: panel_same led_same ports_no_led led_only_led del: map_map)

section \<open>Lemmas: delivery\<close>

lemma deliver_Nil [simp]: "deliver dcfg dw [] d = (d, [])"
  by (simp add: deliver_def)

lemma deliver_append:
  "deliver dcfg dw (es @ fs) d =
     (let (d1, as) = deliver dcfg dw es d; (d2, bs) = deliver dcfg dw fs d1 in (d2, as @ bs))"
  unfolding deliver_def by (rule run_trace_append)

lemma deliver_one [simp]: "deliver dcfg dw [e] d = deliver1 dcfg dw e d"
  by (simp add: deliver_def case_prod_beta)

lemma deliver_Cons: "deliver dcfg dw (e # es) d = deliver dcfg dw ([e] @ es) d"
  by simp

fun waits_for_daemon :: "pwr_effect \<Rightarrow> bool" where
  "waits_for_daemon (DeepSleepTimeoutEvent t) = True"
| "waits_for_daemon e = False"

lemma deliver_Does:
  "list_all (\<lambda>e. \<not> waits_for_daemon e) es \<Longrightarrow> deliver dcfg dw (map Does es) d = (d, map By_manager es)"
proof (induction es)
  case (Cons e es)
  then have "deliver1 dcfg dw (Does e) d = (d, [By_manager e])" by (cases e) simp_all
  with Cons show ?case by (simp add: deliver_def)
qed simp

lemma deliver_Panel [simp]: "deliver dcfg dw (map Panel cs) d = (d, map On_panel cs)"
  by (induction cs) (simp_all add: deliver_def)

lemma tell_Nil [simp]: "tell lp [] l = (l, [])"
  by (simp add: tell_def)

lemma tell_append:
  "tell lp (es @ fs) l = (let (l1, as) = tell lp es l; (l2, bs) = tell lp fs l1 in (l2, as @ bs))"
  unfolding tell_def by (rule run_trace_append)

text \<open>A listener without a controller keeps its state; what it does depends on its table.\<close>

lemma tell_keeps: "ux l = None \<Longrightarrow> fst (tell lp es l) = l"
proof (induction es)
  case (Cons e es)
  then have "fst (tell1 lp e l) = l"
    by (cases e) (simp_all add: PwrEventHandler_def Ds_Pwr_Listener.SetRebootConfig_def Let_def case_prod_beta)
  with Cons show ?case by (simp add: tell_def fst_run_trace_Cons del: run_trace.simps)
qed simp

lemma seen_tell_append:
  "ux l = None \<Longrightarrow> seen k (snd (tell lp (es @ fs) l)) = seen k (snd (tell lp es l)) @ seen k (snd (tell lp fs l))"
  using tell_keeps [of l lp es] by (simp add: tell_append Let_def case_prod_beta)

lemma seen_tell_bus: "ux l = None \<Longrightarrow> seen Bus (snd (tell lp es l)) = map By_manager (filter on_bus es)"
proof (induction es)
  case (Cons e es)
  have "seen Bus (snd (tell1 lp e l)) = map By_manager (filter on_bus [e])"
    by (cases e) (simp_all add: seen_Cons seen_by_manager Let_def case_prod_beta del: map_map)
  with Cons tell_keeps [of l lp "[e]"] show ?case
    by (simp add: tell_def snd_run_trace_Cons del: run_trace.simps(2)) (simp add: fst_run_trace_Cons del: run_trace.simps(2))
qed simp

definition display :: "legacy_platform \<Rightarrow> standby_table \<Rightarrow> bool \<Rightarrow> power_state \<Rightarrow> panel_call list" where
  "display lp tbl eas st = legacy_SetAVPortsPowerState lp tbl eas st @ legacy_SetLEDStatus lp st"

lemma seen_tell_panel:
  assumes "ux l = None" and "k \<noteq> Bus"
  shows "seen k (snd (tell lp es l)) =
    concat (map (\<lambda>mc. seen k (map On_panel (display lp (table l) eas (mc_newState mc)))) (modes es))"
proof (induction es)
  case (Cons e es)
  have "seen k (snd (tell1 lp e l)) = (case mode_of e of None \<Rightarrow> []
      | Some mc \<Rightarrow> seen k (map On_panel (display lp (table l) eas (mc_newState mc))))"
    using assms unfolding display_def
    by (cases e) (simp_all add: display_same PwrEventHandler_def Ds_Pwr_Listener.SetRebootConfig_def
        Let_def case_prod_beta seen_Cons seen_by_manager del: map_map map_append)
  moreover have "fst (tell1 lp e l) = l" using tell_keeps [OF assms(1), of lp "[e]"]
    by (simp add: tell_def fst_run_trace_Cons del: run_trace.simps(2))
  ultimately show ?case using Cons
    by (simp add: tell_def snd_run_trace_Cons split: option.split del: run_trace.simps(2))
qed simp

section \<open>Lemmas: the change of the power state\<close>

lemma drop_ds: "drop_bootup cfg (c\<lparr>ds := d\<rparr>) = ((fst (drop_bootup cfg c))\<lparr>ds := d\<rparr>, snd (drop_bootup cfg c))"
  by (simp add: drop_bootup_def)

lemma cur_power_ds [simp]: "cur_power (c\<lparr>ds := d\<rparr>) = cur_power c"
  by (simp add: cur_power_def)

lemma set_power_ds: "set_power p (c\<lparr>ds := d\<rparr>) = (set_power p c)\<lparr>ds := d\<rparr>"
  by (simp add: set_power_def)

lemma persist_ds: "persist w (c\<lparr>ds := d\<rparr>) = ((fst (persist w c))\<lparr>ds := d\<rparr>, snd (persist w c))"
  by (simp add: persist_def)

lemma change_ds:
  "change_power cfg w new k (c\<lparr>ds := d\<rparr>)
     = ((fst (change_power cfg w new k c))\<lparr>ds := d\<rparr>, snd (change_power cfg w new k c))"
proof -
  define s1 where "s1 = (\<lambda>s :: pwr_state. if OFFLINE_MAINT_REBOOT cfg \<and> new \<noteq> PWRMGR_ON then s\<lparr>standby_time := uptime w\<rparr> else s)"
  define s3 where "s3 = (\<lambda>s :: pwr_state. if FP_KEY_SENSITIVITY cfg then s\<lparr>transitionState := new, targetState := new\<rparr> else s)"
  define s4 where "s4 = (\<lambda>s :: pwr_state. if \<not> LLAMA_PLATCO (ds_options cfg) \<and> new \<noteq> PWRMGR_ON
             then (s\<lparr>xre_timer := now w\<rparr>, [StandbyCleanup (k = KED_POWER)])
             else (s, []))"
  have eq: "change_power cfg w new k c = (let (s2, es2) = persist w (set_power new (s1 c)); (s4, es4) = s4 (s3 s2)
     in (s4, [PowerPrechange (cur_power c) new] @ es2 @ es4 @ [PlatSetPowerState new]))" for c
    unfolding change_power_def s1_def s3_def s4_def Let_def ..
  have "s1 (x\<lparr>ds := d\<rparr>) = (s1 x)\<lparr>ds := d\<rparr>" "s3 (x\<lparr>ds := d\<rparr>) = (s3 x)\<lparr>ds := d\<rparr>"
    "s4 (x\<lparr>ds := d\<rparr>) = ((fst (s4 x))\<lparr>ds := d\<rparr>, snd (s4 x))" for x
    by (simp_all add: s1_def s3_def s4_def)
  then show ?thesis by (simp add: eq set_power_ds persist_ds case_prod_beta Let_def)
qed

lemma legacy_change_eq:
  "legacy_change cfg lp w new k s =
     (s\<lparr>core := fst (change_power cfg (pw w) new k (core s))\<rparr>,
      map Does (take 1 (snd (change_power cfg (pw w) new k (core s)))) @
      map Panel (display lp (video_table s) (isEASInProgress (core s)) new) @
      map Does (drop 1 (snd (change_power cfg (pw w) new k (core s)))))"
  unfolding legacy_change_def change_power_def display_def Let_def case_prod_beta by simp

text \<open>The event of the change, and the wake-up time and timer before it.\<close>

definition with_timeout :: "pwr_cfg \<Rightarrow> pwr_world \<Rightarrow> pwr_state \<Rightarrow> pwr_state" where
  "with_timeout cfg w c = (if DEEP_SLEEP_BUILD cfg \<and> \<not> IsWakeupTimerSet c
     then c\<lparr>deep_sleep_wakeup_timeout_sec := getWakeupTime (wk w)\<rparr> else c)"

definition armed :: "pwr_cfg \<Rightarrow> pwr_world \<Rightarrow> power_state \<Rightarrow> pwr_state \<Rightarrow> pwr_state \<times> pwr_effect list" where
  "armed cfg w new c = (if DEEP_SLEEP_BUILD cfg then arm_wakeup_timer cfg w new (with_timeout cfg w c)
     else (with_timeout cfg w c, []))"

definition change_event :: "pwr_cfg \<Rightarrow> pwr_world \<Rightarrow> power_state \<Rightarrow> power_state \<Rightarrow> pwr_state \<Rightarrow> mode_change" where
  "change_event cfg w cur new c = \<lparr>mc_curState = cur, mc_newState = new,
     mc_deep_sleep_timeout = (if DEEP_SLEEP_BUILD cfg then deep_sleep_wakeup_timeout_sec (with_timeout cfg w c) else 0),
     mc_nwStandbyMode = (DEEP_SLEEP_BUILD cfg \<and> LLAMA_PLATCO_SKY_XIONE (ds_options cfg)
                         \<and> nwStandby_static (with_timeout cfg w c))\<rparr>"

definition cec_calls :: "power_state \<Rightarrow> pwr_state \<Rightarrow> pwr_effect list" where
  "cec_calls new c = (if new = PWRMGR_ON
     then [CecImageViewOn (isCecLocalLogicEnabled c), CecActiveSource (isCecLocalLogicEnabled c) KET_KEYDOWN KED_MENU]
     else [])"

lemma post_mode_change_eq:
  "post_mode_change cfg w cur new c =
     (let (c2, es) = armed cfg w new c; mc = change_event cfg w cur new c
      in (c2, es @ [ModeChanged mc] @
              (if DEEP_SLEEP_BUILD cfg \<and> new = PWRMGR_STANDBY_DEEP_SLEEP then [StartDeepSleepThread mc] else []) @
              cec_calls new c2))"
  unfolding post_mode_change_def armed_def change_event_def cec_calls_def with_timeout_def Let_def case_prod_beta ..

lemma legacy_post_eq:
  assumes "stack_timeout w = 0" and "\<not> stack_nwStandby w"
  shows "legacy_post cfg w cur new s =
     (let (c2, es) = armed cfg (pw w) new (core s); mc = change_event cfg (pw w) cur new (core s)
      in (s\<lparr>core := c2\<rparr>, map Does (es @ [ModeChanged mc] @ cec_calls new c2)))"
proof -
  have nw: "(if b \<and> x then n else stack_nwStandby w) = (b \<and> x \<and> n)" for b x n using assms(2) by auto
  show ?thesis
    unfolding legacy_post_def armed_def change_event_def cec_calls_def with_timeout_def Let_def case_prod_beta
      nw assms(1) ..
qed

lemma with_timeout_ds: "with_timeout cfg w (c\<lparr>ds := d\<rparr>) = (with_timeout cfg w c)\<lparr>ds := d\<rparr>"
  by (simp add: with_timeout_def)

lemma armed_ds: "armed cfg w new (c\<lparr>ds := d\<rparr>) = ((fst (armed cfg w new c))\<lparr>ds := d\<rparr>, snd (armed cfg w new c))"
  by (simp add: armed_def with_timeout_ds arm_wakeup_timer_def Let_def)

lemma change_event_ds: "change_event cfg w cur new (c\<lparr>ds := d\<rparr>) = change_event cfg w cur new c"
  by (simp add: change_event_def with_timeout_ds)

lemma cec_calls_ds: "cec_calls new (c\<lparr>ds := d\<rparr>) = cec_calls new c"
  by (simp add: cec_calls_def)

lemma post_ds:
  "post_mode_change cfg w cur new (c\<lparr>ds := d\<rparr>)
     = ((fst (post_mode_change cfg w cur new c))\<lparr>ds := d\<rparr>, snd (post_mode_change cfg w cur new c))"
  by (simp add: post_mode_change_eq armed_ds change_event_ds cec_calls_ds Let_def case_prod_beta)

lemma legacy_post_same:
  assumes "stack_timeout w = 0" and "\<not> stack_nwStandby w"
  shows "legacy_post cfg w cur new s =
     (s\<lparr>core := fst (post_mode_change cfg (pw w) cur new (core s))\<rparr>,
      map Does (filter on_bus (snd (post_mode_change cfg (pw w) cur new (core s)))))"
proof -
  have "filter on_bus (snd (armed cfg w' new c)) = snd (armed cfg w' new c)" for w' c
    by (simp add: armed_def arm_wakeup_timer_def Let_def on_bus_def)
  moreover have "filter on_bus (cec_calls new c) = cec_calls new c" for c by (simp add: cec_calls_def on_bus_def)
  ultimately show ?thesis
    by (simp add: legacy_post_eq [OF assms] post_mode_change_eq Let_def case_prod_beta)
qed

section \<open>Lemmas: the two changes agree\<close>

lemma change_first:
  "take 1 (snd (change_power cfg w new k c)) = [PowerPrechange (cur_power c) new]"
  "list_all (\<lambda>e. \<not> waits_for_daemon e) (snd (change_power cfg w new k c))"
  "map Does (take 1 (snd (change_power cfg w new k c))) @ map Does (drop 1 (snd (change_power cfg w new k c)))
     = map Does (snd (change_power cfg w new k c))"
  by (simp_all add: change_power_def persist_def Let_def case_prod_beta)

text \<open>The wake-up by the daemon and by the module.\<close>

lemma wakeup_same:
  assumes "ds_cfg.truncate dcfg = c"
  shows "fst (daemon_step dcfg (Wakeup cur new) d) = fst (PwrMgrDeepSleepWakeup c cur new d)"
    and "common (snd (daemon_step dcfg (Wakeup cur new) d)) = fst (snd (PwrMgrDeepSleepWakeup c cur new d))"
  using step_same [of "Wakeup cur new" d dcfg] assms
  by (simp_all add: DeepSleepWakeup_def PwrMgrDeepSleepWakeup_def case_prod_beta)

lemma deliver_change:
  "deliver dcfg dw (map Does es1 @ map Panel ps @ map Does es2) d =
     (d, map By_manager es1 @ map On_panel ps @ map By_manager es2)"
  if "list_all (\<lambda>e. \<not> waits_for_daemon e) (es1 @ es2)" for es1 es2
  using that by (simp add: deliver_append deliver_Does)

lemma post_quiet: "list_all (\<lambda>e. \<not> waits_for_daemon e) (filter on_bus (snd (post_mode_change cfg w cur new c)))"
  by (simp add: post_mode_change_eq armed_def arm_wakeup_timer_def cec_calls_def Let_def case_prod_beta)

lemma post_modes: "map mc_newState (modes (snd (post_mode_change cfg w cur new c))) = [new]"
  by (simp add: post_mode_change_def arm_wakeup_timer_def Let_def case_prod_beta)

definition clear_world :: "legacy_world \<Rightarrow> ds_state \<Rightarrow> bool" where
  "clear_world w d = (ds_answer w = Some (IsDeviceInDeepSleep d) \<and> stack_timeout w = 0 \<and> \<not> stack_nwStandby w)"

lemma SetPowerState_sim:
  assumes "clear_world w d" and "malloc_ok (pw w)" and "ds_cfg.truncate dcfg = ds_options cfg"
    and "ux l = None" and "table l = video_table s"
    and "legacy_SetPowerState cfg lp w new k s = (s', es, r)"
    and "SetPowerState cfg (pw w) new k ((core s)\<lparr>ds := d\<rparr>) = (c', fs, r')"
    and "deliver dcfg dw es d = (d', bs)"
  shows "(core s')\<lparr>ds := d'\<rparr> = c' \<and> video_table s' = video_table s \<and> r = r'
       \<and> seen ob bs = seen ob (snd (tell lp fs l))"
proof -
  define c where "c = (core s)\<lparr>ds := d\<rparr>"
  define c1 es1 where "c1 = fst (drop_bootup cfg (core s))" and "es1 = snd (drop_bootup cfg (core s))"
  have drop: "drop_bootup cfg (core s) = (c1, es1)" "drop_bootup cfg c = (c1\<lparr>ds := d\<rparr>, es1)"
    by (simp_all add: c_def drop_ds c1_def es1_def)
  have cur: "cur_power c = cur_power (core s)" "cur_power c1 = cur_power (core s)" by (simp_all add: c_def c1_def)
  have es1: "list_all (\<lambda>e. \<not> waits_for_daemon e) es1" "modes es1 = []"
    by (simp_all add: es1_def drop_bootup_def)
  show ?thesis
  proof (cases "cur_power (core s) = new")
    case True
    with assms(4-8) show ?thesis
      by (simp add: legacy_SetPowerState_def SetPowerState_same c_def [symmetric] cur)
  next
    case ne: False
    define leaves where "leaves = (DEEP_SLEEP_BUILD cfg \<and> cur_power (core s) = PWRMGR_STANDBY_DEEP_SLEEP
        \<and> new \<noteq> PWRMGR_STANDBY_DEEP_SLEEP)"
    have refuses: "daemon_refuses w = (IsDeviceInDeepSleep d = DeepSleepStatus_InProgress)"
      using assms(1) by (simp add: daemon_refuses_def clear_world_def dsStatus_def)
    have blocked: "change_blocked cfg c \<longleftrightarrow> leaves \<and> daemon_refuses w"
      using ne by (auto simp: change_blocked_def GetPwrMgrDeepSleepStatus_def leaves_def refuses cur c_def)
    show ?thesis
    proof (cases "leaves \<and> daemon_refuses w")
      case True
      have "(s', es, r) = (s\<lparr>core := c1\<rparr>, map Does es1, IARM_RESULT_SUCCESS)"
        using assms(6) ne True by (simp add: legacy_SetPowerState_def drop leaves_def)
      moreover have "(c', fs, r') = (c1\<lparr>ds := d\<rparr>, es1, IARM_RESULT_SUCCESS)"
        using assms(7) SetPowerState_blocked [of c new cfg] ne True blocked cur
        by (simp add: c_def [symmetric] drop)
      ultimately show ?thesis
        using assms(4,8) es1
        by (cases "ob = Bus") (auto simp: deliver_Does seen_tell_bus seen_tell_panel [where eas = False])
    next
      case False
      define d1 wes where "d1 = (if leaves then fst (PwrMgrDeepSleepWakeup (ds_options cfg) (cur_power c) new d) else d)"
        and "wes = (if leaves then fst (snd (PwrMgrDeepSleepWakeup (ds_options cfg) (cur_power c) new d)) else [])"
      have leave: "leave_deep_sleep cfg new (c1\<lparr>ds := d\<rparr>) = (c1\<lparr>ds := d1\<rparr>, map DsEffect wes)"
      proof (cases leaves)
        case True
        then have "leave_deep_sleep cfg new (c1\<lparr>ds := d\<rparr>) =
            (let (d, es, r) = PwrMgrDeepSleepWakeup (ds_options cfg) (cur_power c) new d
             in (c1\<lparr>ds := d\<rparr>, map DsEffect es))"
          unfolding leave_deep_sleep_def leaves_def by (simp only: cur cur_power_ds if_True simp_thms) simp
        then show ?thesis using True unfolding d1_def wes_def by (simp only: case_prod_beta Let_def if_True)
      next
        case False
        then have "leave_deep_sleep cfg new (c1\<lparr>ds := d\<rparr>) = (c1\<lparr>ds := d\<rparr>, [])"
          unfolding leave_deep_sleep_def leaves_def by (simp only: cur cur_power_ds if_False simp_thms)
        then show ?thesis using False unfolding d1_def wes_def by (simp only: if_False list.map)
      qed
      define ces where "ces = snd (change_power cfg (pw w) new k c1)"
      define c3 where "c3 = fst (change_power cfg (pw w) new k c1)"
      define pes where "pes = snd (post_mode_change cfg (pw w) (cur_power c) new c3)"
      have old: "(s', es, r) = (s\<lparr>core := fst (post_mode_change cfg (pw w) (cur_power c) new c3)\<rparr>,
          map Does es1 @ (if leaves then [DaemonWakeup (cur_power c) new] else []) @
          map Does (take 1 ces) @ map Panel (display lp (video_table s) (isEASInProgress c1) new) @ map Does (drop 1 ces)
          @ map Does (filter on_bus pes), IARM_RESULT_SUCCESS)"
      proof -
        have st: "stack_timeout w = 0" "\<not> stack_nwStandby w" using assms(1) by (simp_all add: clear_world_def)
        have change: "legacy_change cfg lp w new k (s\<lparr>core := c1\<rparr>) = (s\<lparr>core := c3\<rparr>, map Does (take 1 ces) @
            map Panel (display lp (video_table s) (isEASInProgress c1) new) @ map Does (drop 1 ces))"
          by (simp add: legacy_change_eq ces_def c3_def)
        have post: "legacy_post cfg w (cur_power (core s)) new (s\<lparr>core := c3\<rparr>) =
            (s\<lparr>core := fst (post_mode_change cfg (pw w) (cur_power c) new c3)\<rparr>, map Does (filter on_bus pes))"
          by (simp add: legacy_post_same [OF st] pes_def cur)
        show ?thesis
          using assms(6)
          unfolding legacy_SetPowerState_def Let_def drop prod.case leaves_def [symmetric] change post
            if_P [OF ne] if_not_P [OF False] cur
          by (simp only: append_assoc prod.inject)
      qed
      have new': "(c', fs, r') = ((fst (post_mode_change cfg (pw w) (cur_power c) new c3))\<lparr>ds := d1\<rparr>,
          es1 @ map DsEffect wes @ ces @ pes, IARM_RESULT_SUCCESS)"
      proof -
        have "cur_power c \<noteq> new" "\<not> change_blocked cfg c" using ne False blocked cur by simp_all
        from SetPowerState_changes [OF this, of "pw w" k] assms(2,7) show ?thesis
          by (simp add: c_def [symmetric] drop leave changed_def change_ds post_ds ces_def c3_def pes_def
              Let_def)
      qed
      define ps where "ps = display lp (video_table s) (isEASInProgress c1) new"
      have quiet: "list_all (\<lambda>e. \<not> waits_for_daemon e) (ces @ filter on_bus pes)"
        by (simp add: ces_def pes_def change_first(2) post_quiet)
      have wake: "deliver dcfg dw (if leaves then [DaemonWakeup (cur_power c) new] else []) d
          = (d1, map (By_manager \<circ> DsEffect) wes)"
        using wakeup_same [OF assms(3), of "cur_power c" new d] by (simp add: daemon_part_def d1_def wes_def)
      have parts: "list_all (\<lambda>e. \<not> waits_for_daemon e) (take 1 ces)"
        "list_all (\<lambda>e. \<not> waits_for_daemon e) (drop 1 ces)"
        using quiet append_take_drop_id [of 1 ces] by (metis list_all_append)+
      have bs: "d' = d1" "bs = map By_manager es1 @ map (By_manager \<circ> DsEffect) wes @
          map By_manager (take 1 ces) @ map On_panel ps @ map By_manager (drop 1 ces)
          @ map By_manager (filter on_bus pes)"
        using assms(8) old es1(1) parts quiet
        by (simp_all add: deliver_append deliver_Does wake ps_def)
      have "seen ob bs = seen ob (snd (tell lp fs l))"
      proof (cases "ob = Bus")
        case True
        have "filter on_bus (take 1 ces) @ filter on_bus (drop 1 ces) = filter on_bus ces"
          by (simp flip: filter_append)
        then show ?thesis
          using True new' by (simp add: bs seen_tell_bus [OF assms(4)]) (simp flip: map_append)
      next
        case False
        have "map mc_newState (modes pes) = [new]"
          by (simp add: pes_def post_modes)
        then obtain mc where mc: "modes pes = [mc]" "mc_newState mc = new" by auto
        have "modes fs = [mc]" using new' es1(2) mc(1) by (simp add: ces_def)
        then show ?thesis
          using False mc(2) assms(5)
          by (simp add: bs seen_tell_panel [OF assms(4) False, where eas = "isEASInProgress c1"] ps_def)
      qed
      then show ?thesis using old new' bs(1) by simp
    qed
  qed
qed

section \<open>Lemmas: the two boxes agree step by step\<close>

text \<open>The older manager where the daemon answers and nothing is left in the event.\<close>

definition clean_world :: "pwr_world \<Rightarrow> ds_state \<Rightarrow> legacy_world" where
  "clean_world w d = \<lparr>pw = w, ds_answer = Some (fst (dsd_GetDeepSleepStatus d)),
     stack_timeout = 0, stack_nwStandby = False\<rparr>"

text \<open>The two managers after the same event: the same statics, and nothing an observer could tell.\<close>

definition agrees ::
  "observer \<Rightarrow> dsd_cfg \<Rightarrow> ds_world \<Rightarrow> legacy_platform \<Rightarrow> listener \<Rightarrow> ds_state \<Rightarrow> legacy_state \<times> legacy_effect list \<Rightarrow>
   pwr_state \<times> pwr_effect list \<Rightarrow> bool" where
  "agrees k dcfg dw lp l d old new =
     (let (d', bs) = deliver dcfg dw (snd old) d
      in (core (fst old))\<lparr>ds := d'\<rparr> = fst new \<and> video_table (fst old) = table l
         \<and> seen k bs = seen k (snd (tell lp (snd new) l)))"

text \<open>The two boxes have the same build options, there is no controller, and memory for the event.\<close>

definition fair :: "pwr_cfg \<Rightarrow> dsd_cfg \<Rightarrow> pwr_world \<Rightarrow> listener \<Rightarrow> bool" where
  "fair cfg dcfg w l = (ds_cfg.truncate dcfg = ds_options cfg \<and> ux l = None \<and> malloc_ok w)"

lemma agrees_change:
  assumes "fair cfg dcfg w l" and "video_table s = table l" and "(core s)\<lparr>ds := d\<rparr> = c"
  shows "agrees k dcfg dw lp l d
     (fst (legacy_SetPowerState cfg lp (clean_world w d) new key s),
      fst (snd (legacy_SetPowerState cfg lp (clean_world w d) new key s)))
     (fst (SetPowerState cfg w new key c), fst (snd (SetPowerState cfg w new key c)))"
proof -
  let ?w = "clean_world w d"
  have w: "clear_world ?w d" "pw ?w = w"
    by (simp_all add: clean_world_def clear_world_def dsd_GetDeepSleepStatus_def)
  obtain s' es r where old: "legacy_SetPowerState cfg lp ?w new key s = (s', es, r)" by (metis prod_cases3)
  obtain c' fs r' where new: "SetPowerState cfg w new key c = (c', fs, r')" by (metis prod_cases3)
  obtain d' bs where "deliver dcfg dw es d = (d', bs)" by fastforce
  with SetPowerState_sim [OF w(1) _ _ _ _ old, of dcfg l c' fs r' dw d' bs k] w(2) assms new
  show ?thesis by (simp add: fair_def agrees_def old new)
qed

lemma agrees_idle:
  assumes "video_table s = table l" and "(core s)\<lparr>ds := d\<rparr> = c"
  shows "agrees k dcfg dw lp l d (s, []) (c, [])"
  using assms by (simp add: agrees_def)

lemma agrees_prefix:
  assumes "ux l = None" and "agrees k dcfg dw lp l d (s', es) (c', fs)" and "deliver dcfg dw p d = (d, ps)"
    and "seen k ps = seen k (snd (tell lp q l))"
  shows "agrees k dcfg dw lp l d (s', p @ es) (c', q @ fs)"
  using assms by (simp add: agrees_def deliver_append seen_tell_append Let_def case_prod_beta)

lemma told_same:
  assumes "ux l = None" and "modes es = []"
  shows "seen k (map By_manager es) = seen k (snd (tell lp es l))"
  using assms by (cases "k = Bus") (simp_all add: seen_tell_bus seen_tell_panel [where eas = False])

lemma force_same:
  assumes "video_table s = table l" and "(core s)\<lparr>ds := d\<rparr> = c"
  shows "video_table (force_power p s) = table l" and "(core (force_power p s))\<lparr>ds := d\<rparr> = set_power p c"
  using assms by (auto simp: force_power_def set_power_def)

lemma agrees_timeout:
  assumes "fair cfg dcfg w l" and "video_table s = table l" and "(core s)\<lparr>ds := d\<rparr> = c"
  shows "agrees k dcfg dw lp l d (legacy_handleDeepsleepTimeoutWakeup cfg lp (clean_world w d) s)
           (handleDeepsleepTimeoutWakeup cfg w c)"
proof -
  define t where "t = deep_sleep_wakeup_timeout_sec (core s)"
  define xs where "xs = map DsEffect (PwrMgrDeepSleepTimeout (ds_options cfg))"
  have t: "deep_sleep_wakeup_timeout_sec c = t" using assms(3) by (auto simp: t_def)
  have no_ux: "ux l = None" using assms(1) by (simp add: fair_def)
  have dis: "DISABLE_SCHD_REBOOT_AT_DEEPSLEEP (ds_options cfg) = DISABLE_SCHD_REBOOT_AT_DEEPSLEEP dcfg"
    using assms(1) unfolding fair_def by (metis ds_cfg.truncate_def ds_cfg.select_convs(4))
  have event: "deliver dcfg dw [Does (DeepSleepTimeoutEvent t)] d = (d, map By_manager (DeepSleepTimeoutEvent t # xs))"
    by (simp add: daemon_part_def dsd_eventHandler_def PwrMgrDeepSleepTimeout_def dis xs_def)
  have same: "seen k (map By_manager (DeepSleepTimeoutEvent t # xs))
      = seen k (snd (tell lp ([DeepSleepTimeoutEvent t] @ xs) l))"
    using told_same [OF no_ux, of "DeepSleepTimeoutEvent t # xs"] by (simp add: xs_def)
  show ?thesis
  proof (cases "DISABLE_SCHD_REBOOT_AT_DEEPSLEEP (ds_options cfg)")
    case True
    from agrees_prefix [OF no_ux agrees_change [OF assms(1) force_same [OF assms(2,3)]] event same] True show ?thesis
      by (simp add: legacy_handleDeepsleepTimeoutWakeup_def handleDeepsleepTimeoutWakeup_def t t_def [symmetric]
          xs_def clean_world_def Let_def case_prod_beta)
  next
    case False
    from agrees_prefix [OF no_ux agrees_idle [OF assms(2,3)] event same] False show ?thesis
      by (simp add: legacy_handleDeepsleepTimeoutWakeup_def handleDeepsleepTimeoutWakeup_def t t_def [symmetric]
          xs_def Let_def)
  qed
qed

text \<open>Events of the managers other than the standby settings, which the listener gets itself, and the
  turns of the sleeping part.\<close>

fun of_manager :: "box_event \<Rightarrow> bool" where
  "of_manager (Standby_video port on) = False"
| "of_manager (Sleep_turn mc) = False"
| "of_manager Delay_turn = False"
| "of_manager (Sleep_delay t) = False"
| "of_manager e = True"

fun no_async :: "box_input \<Rightarrow> bool" where
  "no_async (w, dw, Async_request cur new) = False"
| "no_async i = True"

lemma async_ds:
  "SetPowerStateAsync cur new (c\<lparr>ds := d\<rparr>)
     = ((fst (SetPowerStateAsync cur new c))\<lparr>ds := d\<rparr>, snd (SetPowerStateAsync cur new c))"
  by (simp add: SetPowerStateAsync_def Let_def)

definition async_start :: "pwr_state \<Rightarrow> pwr_effect list" where
  "async_start c = (if async_thread c then [] else [StartAsyncThread])"

definition async_signal :: "power_state \<Rightarrow> power_state \<Rightarrow> pwr_state \<Rightarrow> pwr_effect list" where
  "async_signal cur new c = (if cur \<noteq> new \<and> targetState c \<noteq> new then [SignalAsyncThread] else [])"

lemma legacy_async_eq:
  "legacy_SetPowerStateAsync lp cur new s =
     (s\<lparr>core := fst (SetPowerStateAsync cur new (core s))\<rparr>,
      map Does (async_start (core s)) @ map Panel (if cur \<noteq> new then legacy_SetLEDStatus lp new else [])
      @ map Does (async_signal cur new (core s)))"
  "snd (SetPowerStateAsync cur new c) = async_start c @ async_signal cur new c"
  by (auto simp: legacy_SetPowerStateAsync_def SetPowerStateAsync_def Let_def async_start_def async_signal_def)

lemma agrees_async:
  assumes "ux l = None" and "video_table s = table l" and "(core s)\<lparr>ds := d\<rparr> = c" and "k \<noteq> Led"
  shows "agrees k dcfg dw lp l d (legacy_SetPowerStateAsync lp cur new s) (SetPowerStateAsync cur new c)"
proof -
  have led: "seen k (map On_panel (if cur \<noteq> new then legacy_SetLEDStatus lp new else [])) = []"
    using assms(4) by (simp add: led_same led_only_led del: map_map)
  have told: "seen k (snd (tell lp (snd (SetPowerStateAsync cur new c)) l))
      = seen k (map By_manager (snd (SetPowerStateAsync cur new c)))"
    using told_same [OF assms(1) SetPowerStateAsync_silent] by simp
  have c: "SetPowerStateAsync cur new c =
      ((fst (SetPowerStateAsync cur new (core s)))\<lparr>ds := d\<rparr>, async_start (core s) @ async_signal cur new (core s))"
    using async_ds [where c = "core s" and d = d] assms(3) by (simp add: legacy_async_eq(2))
  have q: "list_all (\<lambda>e. \<not> waits_for_daemon e) (async_start (core s) @ async_signal cur new (core s))"
    by (simp add: async_start_def async_signal_def)
  then show ?thesis
    using assms(2) led told deliver_change [OF q]
    by (simp add: agrees_def legacy_async_eq(1) c)
qed

lemma agrees_reboot:
  assumes "ux l = None" and "video_table s = table l" and "(core s)\<lparr>ds := d\<rparr> = c"
  shows "agrees k dcfg dw lp l d (s, fst (legacy_HandleReboot custom other rq)) (c, fst (HandleReboot custom other rq c'))"
proof -
  define es where "es = map ResetEffect (performReboot (Some (take (PWRMGR_MAX_REBOOT_REASON_LENGTH - 1) rq))
    (Some (take (PWRMGR_MAX_REBOOT_REASON_LENGTH - 1) custom))
    (Some (if length other < PWRMGR_MAX_REBOOT_REASON_LENGTH then other
           else take PWRMGR_MAX_REBOOT_REASON_LENGTH other @ take (PWRMGR_MAX_REBOOT_REASON_LENGTH - 1) rq)))"
  have old: "fst (legacy_HandleReboot custom other rq) = map Does es"
    by (simp add: legacy_HandleReboot_def Let_def es_def)
  have new: "\<exists>x y. fst (HandleReboot custom other rq c') = pwr_effect.SetRebootConfig x y # es"
    by (simp add: HandleReboot_def Let_def es_def)
  have quiet: "list_all (\<lambda>e. \<not> waits_for_daemon e) es" "modes es = []"
    by (simp_all add: es_def list_all_iff)
  from new obtain x y where n: "fst (HandleReboot custom other rq c') = pwr_effect.SetRebootConfig x y # es" by blast
  have "seen k (map By_manager es) = seen k (snd (tell lp (pwr_effect.SetRebootConfig x y # es) l))"
    using told_same [OF assms(1), of "pwr_effect.SetRebootConfig x y # es" k lp] quiet(2)
    by (simp add: seen_Cons)
  then show ?thesis using assms quiet(1) by (simp add: agrees_def old n deliver_Does)
qed

lemma agrees_manager:
  assumes "fair cfg dcfg w l" and "of_manager e" and "k = Led \<longrightarrow> no_async (v, dw, e)"
    and s: "video_table s = table l" "(core s)\<lparr>ds := d\<rparr> = c"
  shows "agrees k dcfg dw lp l d (older_manager cfg lp (clean_world w d) e s) (newer_manager cfg w dw e c)"
proof -
  have no_ux: "ux l = None" using assms(1) by (simp add: fair_def)
  have c: "async_thread c = async_thread (core s)" "targetState c = targetState (core s)"
    "wakeup_event_src c = wakeup_event_src (core s)" "dsleep_bootup_event_src c = dsleep_bootup_event_src (core s)"
    "cur_power c = cur_power (core s)" "timeAtDeepSleep c = timeAtDeepSleep (core s)" "ds c = d"
    "deep_sleep_wakeup_timeout_sec c = deep_sleep_wakeup_timeout_sec (core s)"
    using s(2) by auto
  have w: "pw (clean_world w d) = w" "dsStatus (clean_world w d) = IsDeviceInDeepSleep d"
    by (simp_all add: clean_world_def dsStatus_def dsd_GetDeepSleepStatus_def)
  note idle = agrees_idle [OF s]
  note change = agrees_change [OF assms(1) s]
  note forced = agrees_change [OF assms(1) force_same [OF s]]
  show ?thesis
  proof (cases e)
    case (Request p key)
    then show ?thesis using change by (simp add: case_prod_beta)
  next
    case Async_turn
    then show ?thesis using change idle
      by (simp add: legacy_AsyncPowerTransition_def AsyncPowerTransition_def c w case_prod_beta)
  next
    case (Async_request cur new)
    then show ?thesis using agrees_async [OF no_ux s] assms(3) by simp
  next
    case Wakeup_timer
    then show ?thesis using agrees_timeout [OF assms(1) s] idle
      by (simp add: legacy_deep_sleep_wakeup_fn_def deep_sleep_wakeup_fn_def GetPwrMgrDeepSleepStatus_def c w
          case_prod_beta Let_def)
  next
    case Bootup_timer
    then show ?thesis using forced idle
      by (simp add: legacy_invoke_deep_sleep_on_bootup_timeout_def invoke_deep_sleep_on_bootup_timeout_def c w
          case_prod_beta)
  next
    case Timeout_thread
    then show ?thesis using agrees_timeout [OF assms(1) s] idle by simp
  next
    case (System_mode m)
    have "agrees k dcfg dw lp l d (fst (legacy_SysModeChange m s), []) (fst (SysModeChange m c), [])"
      using s by (intro agrees_idle) (auto simp: legacy_SysModeChange_def SysModeChange_def)
    then show ?thesis using System_mode by simp
  next
    case (Reboot_call custom other rq)
    then show ?thesis using agrees_reboot [OF no_ux s] by simp
  qed (use assms(2) in simp_all)
qed

lemma standby_agrees:
  assumes "video_table s = table l" and "awake (boot_state l) = awake (cur_power (core s))"
    and "legacy_SetStandbyVideoState lp port on s = (s', r, es)"
    and "SetStandbyVideoState (dev lp) port on l = (l', r', cs)"
  shows "core s' = core s \<and> video_table s' = table l' \<and> es = map (Panel \<circ> Dev) cs \<and> ux l' = ux l"
  using assms by (auto simp: legacy_SetStandbyVideoState_def SetStandbyVideoState_def awake_def Let_def
      split: option.splits if_splits)

text \<open>What is left in the event does not matter but for the event.\<close>

fun blank_effect :: "pwr_cfg \<Rightarrow> legacy_effect \<Rightarrow> legacy_effect" where
  "blank_effect cfg (Does (ModeChanged mc)) =
     Does (ModeChanged (mc\<lparr>
       mc_deep_sleep_timeout := (if DEEP_SLEEP_BUILD cfg then mc_deep_sleep_timeout mc else 0),
       mc_nwStandbyMode := (DEEP_SLEEP_BUILD cfg \<and> LLAMA_PLATCO_SKY_XIONE (ds_options cfg) \<and> mc_nwStandbyMode mc)\<rparr>))"
| "blank_effect cfg e = e"

lemma blank_Does:
  "modes es = [] \<Longrightarrow> map (blank_effect cfg) (map Does es) = map Does es"
proof (induction es)
  case (Cons e es)
  then show ?case by (cases e) simp_all
qed simp

lemma blank_Panel [simp]: "map (blank_effect cfg \<circ> Panel) cs = map Panel cs"
  by (induction cs) simp_all

lemma blank_seen: "seen k (map (blank cfg) es) = map (blank cfg) (seen k es)"
proof -
  have "seen_by (blank cfg e) = seen_by e" for e by (cases "(cfg, e)" rule: blank.cases) simp_all
  then show ?thesis by (induction es) (simp_all add: seen_Cons)
qed

lemma blank_seen_panel: "k \<noteq> Bus \<Longrightarrow> map (blank cfg) (seen k es) = seen k es"
proof -
  have "seen_by e = Some k \<Longrightarrow> k \<noteq> Bus \<Longrightarrow> blank cfg e = e" for e
    by (cases "(cfg, e)" rule: blank.cases) simp_all
  then show "k \<noteq> Bus \<Longrightarrow> map (blank cfg) (seen k es) = seen k es"
    by (induction es) (simp_all add: seen_Cons)
qed

lemma blank_seen_panels: "map (blank cfg) (seen k (map (On_panel \<circ> f) xs)) = seen k (map (On_panel \<circ> f) xs)"
  by (cases "k = Bus") (simp_all add: blank_seen_panel)

lemma deliver_blank:
  "deliver dcfg dw (map (blank_effect cfg) es) d
     = (fst (deliver dcfg dw es d), map (blank cfg) (snd (deliver dcfg dw es d)))"
proof (induction es arbitrary: d)
  case (Cons e es)
  have part: "map (blank cfg) (snd (daemon_part r)) = snd (daemon_part r)" for r
    by (simp add: daemon_part_def)
  have "deliver1 dcfg dw (blank_effect cfg e) d
      = (fst (deliver1 dcfg dw e d), map (blank cfg) (snd (deliver1 dcfg dw e d)))"
  proof (cases e)
    case (Does x)
    then show ?thesis by (cases x) (simp_all add: Let_def case_prod_beta part del: daemon_step.simps)
  next
    case (DaemonWakeup cur new)
    then show ?thesis by (simp add: part prod_eq_iff del: daemon_step.simps)
  qed simp
  with Cons show ?case by (simp add: deliver_def case_prod_beta Let_def del: deliver1.simps)
qed simp

definition cleaned :: "legacy_world \<Rightarrow> legacy_world \<Rightarrow> bool" where
  "cleaned v w = (pw v = pw w \<and> ds_answer v = ds_answer w \<and> stack_timeout v = 0 \<and> \<not> stack_nwStandby v)"

lemma cleaned_pw: "cleaned v w \<Longrightarrow> pw v = pw w" and cleaned_ds: "cleaned v w \<Longrightarrow> dsStatus v = dsStatus w"
  and cleaned_refuses: "cleaned v w \<Longrightarrow> daemon_refuses v = daemon_refuses w"
  by (simp_all add: cleaned_def dsStatus_def daemon_refuses_def)

lemma legacy_post_blank:
  assumes "cleaned v w"
  shows "legacy_post cfg v cur new s
     = (fst (legacy_post cfg w cur new s), map (blank_effect cfg) (snd (legacy_post cfg w cur new s)))"
proof -
  have "modes (snd (arm_wakeup_timer cfg x new c)) = []" for x c by (simp add: arm_wakeup_timer_def Let_def)
  from blank_Does [OF this] have arm: "map (blank_effect cfg \<circ> Does) (snd (arm_wakeup_timer cfg x new c))
      = map Does (snd (arm_wakeup_timer cfg x new c))" for x c by simp
  show ?thesis using assms by (simp add: legacy_post_def cleaned_def Let_def case_prod_beta arm)
qed

lemma legacy_change_blank:
  assumes "cleaned v w"
  shows "legacy_change cfg lp v new k s
     = (fst (legacy_change cfg lp w new k s), map (blank_effect cfg) (snd (legacy_change cfg lp w new k s)))"
proof -
  let ?es = "snd (change_power cfg (pw w) new k (core s))"
  have "modes ?es = []" by simp
  then have "modes (take 1 ?es) = [] \<and> modes (drop 1 ?es) = []"
    by (metis append_is_Nil_conv append_take_drop_id modes_append)
  then show ?thesis
    using blank_Does [of "take 1 ?es" cfg] blank_Does [of "drop 1 ?es" cfg] cleaned_pw [OF assms]
    by (simp add: legacy_change_eq)
qed

lemma SetPowerState_blank:
  assumes "cleaned v w"
  shows "legacy_SetPowerState cfg lp v new k s
     = (fst (legacy_SetPowerState cfg lp w new k s),
        map (blank_effect cfg) (fst (snd (legacy_SetPowerState cfg lp w new k s))),
        snd (snd (legacy_SetPowerState cfg lp w new k s)))"
proof -
  have "map (blank_effect cfg \<circ> Does) (snd (drop_bootup cfg (core s))) = map Does (snd (drop_bootup cfg (core s)))"
    using blank_Does [of "snd (drop_bootup cfg (core s))" cfg] by (simp add: drop_bootup_def)
  then show ?thesis
    unfolding legacy_SetPowerState_def
    by (simp add: legacy_change_blank [OF assms] legacy_post_blank [OF assms] cleaned_refuses [OF assms]
        Let_def case_prod_beta)
qed

lemma timeout_blank:
  assumes "cleaned v w"
  shows "legacy_handleDeepsleepTimeoutWakeup cfg lp v s
     = (fst (legacy_handleDeepsleepTimeoutWakeup cfg lp w s),
        map (blank_effect cfg) (snd (legacy_handleDeepsleepTimeoutWakeup cfg lp w s)))"
  by (simp add: legacy_handleDeepsleepTimeoutWakeup_def SetPowerState_blank [OF assms] cleaned_pw [OF assms]
      Let_def case_prod_beta)

lemma older_manager_blank:
  assumes "cleaned v w"
  shows "older_manager cfg lp v e s
     = (fst (older_manager cfg lp w e s), map (blank_effect cfg) (snd (older_manager cfg lp w e s)))"
proof -
  note world = SetPowerState_blank [OF assms] timeout_blank [OF assms] cleaned_pw [OF assms] cleaned_ds [OF assms]
  show ?thesis
  proof (cases e)
    case (Async_request cur new)
    have "modes (async_start (core s)) = []" "modes (async_signal cur new (core s)) = []"
      by (simp_all add: async_start_def async_signal_def)
    then show ?thesis
      using Async_request blank_Does [of "async_start (core s)" cfg] blank_Does [of "async_signal cur new (core s)" cfg]
      by (simp add: legacy_async_eq(1))
  next
    case (Standby_video port on)
    then show ?thesis
      by (simp add: legacy_SetStandbyVideoState_def Let_def split: option.split)
  next
    case (Reboot_call custom other rq)
    have "map (blank_effect cfg \<circ> (Does \<circ> ResetEffect)) xs = map (Does \<circ> ResetEffect) xs" for xs
      by (induction xs) simp_all
    then show ?thesis using Reboot_call by (simp add: legacy_HandleReboot_def Let_def)
  qed (simp_all add: world legacy_AsyncPowerTransition_def legacy_deep_sleep_wakeup_fn_def
      legacy_invoke_deep_sleep_on_bootup_timeout_def Let_def case_prod_beta)
qed

text \<open>One input: the boxes stay the same, and no observer sees a difference.\<close>

lemma box_step:
  assumes "ds_cfg.truncate dcfg = ds_options cfg" and "same_box ob nb" and "comparable i nb"
    and "k = Led \<longrightarrow> no_async i"
  shows "same_box (fst (older_step cfg dcfg lp i ob)) (fst (newer_step cfg lp i nb))
       \<and> map (blank cfg) (seen k (snd (older_step cfg dcfg lp i ob))) = seen k (snd (newer_step cfg lp i nb))"
proof -
  obtain w dw e where i: "i = (w, dw, e)" by (metis prod_cases3)
  obtain s d where ob: "ob = (s, d)" by fastforce
  obtain c l where nb: "nb = (c, l)" by fastforce
  have same: "video_table s = table l" "(core s)\<lparr>ds := d\<rparr> = c" and no_ux: "ux l = None"
    using assms(2) by (simp_all add: same_box_def ob nb)
  have cur: "cur_power c = cur_power (core s)" and d: "ds c = d" using same(2) by auto
  have part: ?thesis
    if e: "ordinary j d" and turn: "daemon_turn dcfg dw e d = daemon_part (daemon_step dcfg j d)"
      and m: "older_manager cfg lp (older_world w d) e s = (s, [])" "listener_turn lp e l = (l, [])"
      and new: "newer_manager cfg (pw w) dw e c = sleep_module (module_step (ds_options cfg) j (ds c)) c" for j
  proof -
    define r where "r = module_step (ds_options cfg) j d"
    have "daemon_part (daemon_step dcfg j d) = (fst r, map By_manager (map DsEffect (snd r)))"
      using step_same [OF e, of dcfg] assms(1) by (simp add: daemon_part_def r_def)
    moreover have "newer_manager cfg (pw w) dw e c = (c\<lparr>ds := fst r\<rparr>, map DsEffect (snd r))"
      by (simp add: new d sleep_module_def r_def)
    moreover have told: "seen k (map By_manager (map DsEffect (snd r))) = seen k (snd (tell lp (map DsEffect (snd r)) l))"
      by (rule told_same [OF no_ux]) simp
    moreover have "map (blank cfg) (seen k (snd (tell lp (map DsEffect (snd r)) l)))
        = seen k (snd (tell lp (map DsEffect (snd r)) l))"
      unfolding told [symmetric] by simp
    ultimately show ?thesis
      using same tell_keeps [OF no_ux, of lp "map DsEffect (snd r)"] no_ux
      by (auto simp: older_step_def newer_step_def i ob nb m turn same_box_def case_prod_beta Let_def simp del: map_map)
  qed
  show ?thesis
  proof (cases "of_manager e")
    case True
    have answers: "ds_answer w \<noteq> None" using assms(3) True by (cases e) (simp_all add: i nb)
    have clean: "cleaned (clean_world (pw w) d) (older_world w d)"
      using answers by (auto simp: cleaned_def clean_world_def older_world_def)
    have "fair cfg dcfg (pw w) l" using assms(1,3) no_ux True by (cases e) (simp_all add: fair_def i nb)
    from agrees_manager [OF this True _ same, of k w dw] assms(4)
    have "agrees k dcfg dw lp l d (older_manager cfg lp (clean_world (pw w) d) e s) (newer_manager cfg (pw w) dw e c)"
      by (simp add: i)
    then have ag: "agrees k dcfg dw lp l d (fst (older_manager cfg lp (older_world w d) e s),
        map (blank_effect cfg) (snd (older_manager cfg lp (older_world w d) e s))) (newer_manager cfg (pw w) dw e c)"
      by (simp add: older_manager_blank [OF clean])
    have turns: "daemon_turn dcfg dw e x = (x, [])" "listener_turn lp e y = (y, [])" for x y
      using True by (cases e; simp)+
    from ag show ?thesis
      using tell_keeps [OF no_ux] no_ux
      by (simp add: older_step_def newer_step_def i ob nb turns same_box_def agrees_def deliver_blank blank_seen
          case_prod_beta Let_def)
  next
    case False
    show ?thesis
    proof (cases e)
      case (Standby_video port on)
      obtain s' r es where old: "legacy_SetStandbyVideoState lp port on s = (s', r, es)" by (metis prod_cases3)
      obtain l' r' cs where new: "SetStandbyVideoState (dev lp) port on l = (l', r', cs)" by (metis prod_cases3)
      have "awake (boot_state l) = awake (cur_power (core s))"
        using assms(3) Standby_video cur by (simp add: i nb)
      from standby_agrees [OF same(1) this old new]
      have "core s' = core s" "video_table s' = table l'" "es = map Panel (map Dev cs)" "ux l' = ux l" by simp_all
      then show ?thesis
        using same no_ux old new
        by (simp add: older_step_def newer_step_def i ob nb Standby_video same_box_def case_prod_beta Let_def
            del: map_map) (simp add: blank_seen_panels)
    next
      case (Sleep_turn mc)
      show ?thesis using assms(3) Sleep_turn d by (intro part [of "Mode_change dw mc"]) (simp_all add: i nb)
    next
      case Delay_turn
      then show ?thesis by (intro part [of "Delay_timer dw"]) simp_all
    next
      case (Sleep_delay t)
      then show ?thesis by (intro part [of "Set_timer t"]) simp_all
    qed (use False in simp_all)
  qed
qed

section \<open>Lemmas: the ports of the older box\<close>

text \<open>The calls of the ports and the LED among the effects of the older manager; the daemon adds none.\<close>

fun panel_of :: "legacy_effect \<Rightarrow> panel_call list" where
  "panel_of (Panel c) = [c]"
| "panel_of e = []"

definition panels :: "legacy_effect list \<Rightarrow> panel_call list" where
  "panels es = concat (map panel_of es)"

lemma panels_simps [simp]:
  "panels [] = []" "panels (e # es) = panel_of e @ panels es" "panels (es @ fs) = panels es @ panels fs"
  "panels (map Does xs) = []" "panels (map Panel ps) = ps"
proof -
  show "panels (map Does xs) = []" by (induction xs) (simp_all add: panels_def)
  show "panels (map Panel ps) = ps" by (induction ps) (simp_all add: panels_def)
qed (simp_all add: panels_def)

lemma seen_daemon_part: "k \<noteq> Bus \<Longrightarrow> seen k (snd (daemon_part r)) = []"
  by (simp add: daemon_part_def)

lemma seen_deliver:
  assumes "k \<noteq> Bus"
  shows "seen k (snd (deliver dcfg dw es d)) = seen k (map On_panel (panels es))"
proof (induction es arbitrary: d)
  case (Cons e es)
  have "seen k (snd (deliver1 dcfg dw e d)) = seen k (map On_panel (panel_of e))"
  proof (cases e)
    case (Does x)
    then show ?thesis using assms
      by (cases x) (simp_all add: Let_def case_prod_beta seen_Cons seen_by_manager seen_daemon_part
          del: daemon_step.simps)
  qed (use assms in \<open>simp_all add: seen_daemon_part del: daemon_step.simps\<close>)
  with Cons show ?case by (simp add: deliver_def snd_run_trace_Cons del: run_trace.simps deliver1.simps)
qed simp

lemma older_seen:
  assumes "k \<noteq> Bus"
  shows "seen k (snd (older_step cfg dcfg lp (w, dw, e) (s, d)))
       = seen k (map On_panel (panels (snd (older_manager cfg lp (older_world w d) e s))))"
proof -
  have "seen k (snd (daemon_turn dcfg dw e x)) = []" for x
    using assms by (cases e) (simp_all add: seen_daemon_part del: daemon_step.simps)
  then show ?thesis using assms by (simp add: older_step_def seen_deliver case_prod_beta Let_def)
qed

text \<open>The picture: which ports are on after the calls.\<close>

fun port_call :: "box_effect \<Rightarrow> ds_call option" where
  "port_call (On_panel (Dev c)) = Some c"
| "port_call e = None"

definition picture :: "box_effect list \<Rightarrow> (string \<Rightarrow> bool) \<Rightarrow> string \<Rightarrow> bool" where
  "picture bs v = video_after (List.map_filter port_call bs) v"

lemma picture_Nil [simp]: "picture [] v = v"
  by (simp add: picture_def map_filter_def)

lemma picture_append: "picture (bs @ cs) v = picture cs (picture bs v)"
  by (simp add: picture_def map_filter_def)

lemma picture_seen: "picture bs v = picture (seen Video bs) v"
proof (induction bs arbitrary: v)
  case (Cons b bs)
  have "picture [b] v = picture (seen Video [b]) v"
  proof (cases b)
    case (On_panel c)
    then show ?thesis
    proof (cases c)
      case (Dev x)
      with On_panel show ?thesis by (cases x) (simp_all add: picture_def seen_def map_filter_def video_after_def)
    qed (simp add: picture_def seen_def map_filter_def)
  next
    case (By_manager x)
    then show ?thesis by (simp add: picture_def seen_def map_filter_def)
  qed
  then have "picture ([b] @ bs) v = picture (seen Video [b] @ seen Video bs) v"
    unfolding picture_append by (simp only: Cons)
  then show ?case by (simp add: seen_Cons)
qed simp

lemma picture_display:
  assumes "calm (dev lp)"
  shows "picture (map On_panel (display lp tbl eas st)) v n = wanted_video (dev lp) tbl st v n"
proof -
  have "picture (map On_panel (display lp tbl eas st)) v
      = picture (map (On_panel \<circ> Dev) (SetLEDStatus (dev lp) st @ SetAVPortsPowerState (dev lp) tbl st)) v"
  proof -
    have "seen Video (map On_panel (display lp tbl eas st))
        = seen Video (map (On_panel \<circ> Dev) (SetLEDStatus (dev lp) st @ SetAVPortsPowerState (dev lp) tbl st))"
      unfolding display_def by (rule display_same) simp
    then show ?thesis by (subst picture_seen, subst (2) picture_seen) (simp only:)
  qed
  also have "\<dots> = video_after (SetLEDStatus (dev lp) st @ SetAVPortsPowerState (dev lp) tbl st) v"
  proof -
    have "List.map_filter port_call (map (On_panel \<circ> Dev) cs) = cs" for cs
      by (induction cs) (simp_all add: map_filter_def)
    then show ?thesis by (simp only: picture_def)
  qed
  finally show ?thesis using SetAVPorts_video [OF assms] by simp
qed

lemma older_change:
  assumes "legacy_SetPowerState cfg lp w new k s = (s', es, r)"
  shows "video_table s' = video_table s"
    and "targetState (core s') = targetState (core s) \<or> targetState (core s') = new"
    and "(cur_power (core s') = cur_power (core s) \<and> panels es = []
          \<and> (cur_power (core s) = new \<or> cur_power (core s) = PWRMGR_STANDBY_DEEP_SLEEP \<and> daemon_refuses w))
       \<or> (cur_power (core s') = new \<and> (\<exists>eas. panels es = display lp (video_table s) eas new))"
proof -
  define c1 where "c1 = fst (drop_bootup cfg (core s))"
  define c3 where "c3 = fst (change_power cfg (pw w) new k c1)"
  define leaves where "leaves = (DEEP_SLEEP_BUILD cfg \<and> cur_power (core s) = PWRMGR_STANDBY_DEEP_SLEEP
        \<and> new \<noteq> PWRMGR_STANDBY_DEEP_SLEEP)"
  define p where "p = legacy_post cfg w (cur_power (core s)) new (s\<lparr>core := c3\<rparr>)"
  have post: "cur_power (core (fst p)) = cur_power c3" "targetState (core (fst p)) = targetState c3"
    "video_table (fst p) = video_table s" "panels (snd p) = []"
    unfolding p_def legacy_post_def Let_def case_prod_beta
    by (simp_all add: cur_power_def)
  have c3: "cur_power c3 = new" "targetState c3 = targetState (core s) \<or> targetState c3 = new"
    by (simp_all add: c3_def c1_def)
  have c1: "cur_power c1 = cur_power (core s)" "targetState c1 = targetState (core s)" by (simp_all add: c1_def)
  consider "cur_power (core s) = new" | "cur_power (core s) \<noteq> new" "leaves \<and> daemon_refuses w"
    | "cur_power (core s) \<noteq> new" "\<not> (leaves \<and> daemon_refuses w)" by blast
  then have "video_table s' = video_table s \<and> (targetState (core s') = targetState (core s) \<or> targetState (core s') = new) \<and>
     ((cur_power (core s') = cur_power (core s) \<and> panels es = []
          \<and> (cur_power (core s) = new \<or> cur_power (core s) = PWRMGR_STANDBY_DEEP_SLEEP \<and> daemon_refuses w))
       \<or> (cur_power (core s') = new \<and> (\<exists>eas. panels es = display lp (video_table s) eas new)))"
  proof cases
    case 1
    with assms show ?thesis by (auto simp: legacy_SetPowerState_def)
  next
    case 2
    then have "s' = s\<lparr>core := c1\<rparr>" "panels es = []"
      using assms by (auto simp: legacy_SetPowerState_def case_prod_beta leaves_def [symmetric] c1_def Let_def)
    with 2 c1 show ?thesis by (simp add: leaves_def)
  next
    case 3
    have "s' = fst p" "panels es = display lp (video_table s) (isEASInProgress c1) new"
    proof -
      have change: "legacy_change cfg lp w new k (s\<lparr>core := c1\<rparr>) = (s\<lparr>core := c3\<rparr>,
          map Does (take 1 (snd (change_power cfg (pw w) new k c1))) @
          map Panel (display lp (video_table s) (isEASInProgress c1) new) @
          map Does (drop 1 (snd (change_power cfg (pw w) new k c1))))"
        by (simp add: legacy_change_eq c3_def)
      have "(s', es, r) = (fst p, map Does (snd (drop_bootup cfg (core s))) @
          (if leaves then [DaemonWakeup (cur_power (core s)) new] else []) @
          (map Does (take 1 (snd (change_power cfg (pw w) new k c1))) @
           map Panel (display lp (video_table s) (isEASInProgress c1) new) @
           map Does (drop 1 (snd (change_power cfg (pw w) new k c1)))) @ snd p, IARM_RESULT_SUCCESS)"
        using assms unfolding legacy_SetPowerState_def Let_def case_prod_beta leaves_def [symmetric]
          c1_def [symmetric] if_P [OF 3(1)] if_not_P [OF 3(2)] change fst_conv snd_conv p_def [symmetric]
        by (rule sym)
      then show "s' = fst p" "panels es = display lp (video_table s) (isEASInProgress c1) new"
        using post(4) by simp_all
    qed
    with post c3 show ?thesis by auto
  qed
  then show "video_table s' = video_table s"
    and "targetState (core s') = targetState (core s) \<or> targetState (core s') = new"
    and "(cur_power (core s') = cur_power (core s) \<and> panels es = []
          \<and> (cur_power (core s) = new \<or> cur_power (core s) = PWRMGR_STANDBY_DEEP_SLEEP \<and> daemon_refuses w))
       \<or> (cur_power (core s') = new \<and> (\<exists>eas. panels es = display lp (video_table s) eas new))"
    by blast+
qed

text \<open>A platform whose ports have short names that differ in more than case, at most five of them, and do
  not throw; events that never ask for OFF, a daemon that answers when the wake-up timer fires, and
  standby settings of its own ports with the flags 0 and 1.\<close>

definition ports_ok :: "legacy_platform \<Rightarrow> bool" where
  "ports_ok lp = (let p = dev lp in calm p \<and> 0 < name_length p \<and> inj_on port_key (set (supported_ports p)) \<and>
     card (set (supported_ports p)) \<le> MAX_NUM_VIDEO_PORTS \<and>
     list_all (\<lambda>n. known_port p n \<and> n \<noteq> '''' \<and> length n < name_length p) (supported_ports p))"

fun friendly :: "legacy_platform \<Rightarrow> box_input \<Rightarrow> bool" where
  "friendly lp (w, dw, Request st key) = (st \<noteq> PWRMGR_OFF)"
| "friendly lp (w, dw, Async_request cur new) = (new \<noteq> PWRMGR_OFF)"
| "friendly lp (w, dw, Wakeup_timer) = (ds_answer w \<noteq> None)"
| "friendly lp (w, dw, Standby_video (Some n) on) = (n \<in> set (supported_ports (dev lp)) \<and> (on = 0 \<or> on = 1))"
| "friendly lp i = True"

fun setting_of :: "box_input \<Rightarrow> (string \<times> bool) option" where
  "setting_of (w, dw, Standby_video (Some n) on) = Some (n, on \<noteq> 0)"
| "setting_of i = None"

definition settings_of :: "box_input list \<Rightarrow> (string \<times> bool) list" where
  "settings_of is = List.map_filter setting_of is"

lemma settings_of_snoc:
  "settings_of (is @ [i]) = settings_of is @ (case setting_of i of None \<Rightarrow> [] | Some c \<Rightarrow> [c])"
  by (simp add: settings_of_def map_filter_def split: option.split)

lemma settings_of_fit:
  assumes "ports_ok lp" and "list_all (friendly lp) is"
  shows "settings_fit (name_length (dev lp)) (settings_of is)"
proof -
  let ?S = "set (supported_ports (dev lp))"
  have ok: "n \<in> ?S" if "(n, b) \<in> set (settings_of is)" for n b
  proof -
    from that obtain w dw on where "(w, dw, Standby_video (Some n) on) \<in> set is"
      by (auto simp: settings_of_def map_filter_def elim!: setting_of.elims)
    with assms(2) show ?thesis by (auto simp: list_all_iff)
  qed
  then have "port_key ` fst ` set (settings_of is) \<subseteq> port_key ` ?S" by force
  then have "card (port_key ` fst ` set (settings_of is)) \<le> card (port_key ` ?S)" by (rule card_mono [rotated]) simp
  also have "\<dots> \<le> card ?S" by (rule card_image_le) simp
  finally have "card (port_key ` fst ` set (settings_of is)) \<le> MAX_NUM_VIDEO_PORTS"
    using assms(1) by (simp add: ports_ok_def Let_def)
  with ok assms(1) show ?thesis by (auto simp: settings_fit_def list_all_iff ports_ok_def Let_def)
qed

text \<open>The ports show the power state and the settings.\<close>

definition shows_settings :: "legacy_platform \<Rightarrow> (string \<times> bool) list \<Rightarrow> power_state \<Rightarrow> (string \<Rightarrow> bool) \<Rightarrow> bool" where
  "shows_settings lp cs st v =
     list_all (\<lambda>n. v n = (st = PWRMGR_ON \<or> last_setting cs n)) (supported_ports (dev lp))"

lemma shows_after_change:
  assumes "ports_ok lp" and "settings_fit (name_length (dev lp)) cs" and "shows_settings lp cs old v"
    and "st \<noteq> PWRMGR_OFF"
  shows "shows_settings lp cs st
    (picture (map On_panel (display lp (store_all (name_length (dev lp)) cs) eas st)) v)"
proof -
  have calm: "calm (dev lp)" and len: "0 < name_length (dev lp)"
    and names: "\<And>n. n \<in> set (supported_ports (dev lp)) \<Longrightarrow> n \<noteq> ''''"
    using assms(1) by (auto simp: ports_ok_def Let_def list_all_iff)
  from store_all_map [OF assms(2) len] assms(3,4) show ?thesis
    by (auto simp: shows_settings_def list_all_iff picture_display [OF calm] wanted_video_def names)
qed

definition forced_build :: "pwr_cfg \<Rightarrow> bool" where
  "forced_build cfg = (WAKEUP_TIMER_EVT (ds_options cfg) \<and> DISABLE_SCHD_REBOOT_AT_DEEPSLEEP (ds_options cfg))"

text \<open>An event of the older manager other than a standby setting: nothing visible happens and the power
  state stays, or it ends in a new power state that the ports were told.\<close>

definition told_power :: "legacy_platform \<Rightarrow> legacy_state \<Rightarrow> legacy_state \<times> legacy_effect list \<Rightarrow> bool" where
  "told_power lp s r =
     (video_table (fst r) = video_table s \<and>
      (cur_power (core (fst r)) = cur_power (core s) \<and> seen Video (map On_panel (panels (snd r))) = [] \<or>
       cur_power (core (fst r)) \<noteq> PWRMGR_OFF \<and>
       (\<exists>eas. panels (snd r) = display lp (video_table s) eas (cur_power (core (fst r))))) \<and>
      (targetState (core s) \<noteq> PWRMGR_OFF \<longrightarrow> targetState (core (fst r)) \<noteq> PWRMGR_OFF))"

lemma told_idle: "told_power lp s (s, [])"
  by (simp add: told_power_def)

lemma told_change:
  assumes "new \<noteq> PWRMGR_OFF"
  shows "told_power lp s (fst (legacy_SetPowerState cfg lp w new k s), fst (snd (legacy_SetPowerState cfg lp w new k s)))"
proof -
  obtain s' es r where "legacy_SetPowerState cfg lp w new k s = (s', es, r)" by (metis prod_cases3)
  with older_change [OF this] assms show ?thesis by (auto simp: told_power_def)
qed

text \<open>The state set by hand before the change is not the new one, so the change happens unless the
  daemon refuses it.\<close>

lemma told_forced:
  assumes "p \<noteq> new" and "new \<noteq> PWRMGR_OFF" and "p = PWRMGR_STANDBY_DEEP_SLEEP \<longrightarrow> \<not> daemon_refuses w"
    and "panels pre = []"
  shows "told_power lp s (fst (legacy_SetPowerState cfg lp w new k (force_power p s)),
     pre @ fst (snd (legacy_SetPowerState cfg lp w new k (force_power p s))))"
proof -
  obtain s' es r where sp: "legacy_SetPowerState cfg lp w new k (force_power p s) = (s', es, r)" by (metis prod_cases3)
  have f: "video_table (force_power p s) = video_table s" "cur_power (core (force_power p s)) = p"
    "targetState (core (force_power p s)) = targetState (core s)"
    by (simp_all add: force_power_def set_power_def cur_power_def)
  from older_change [OF sp] assms show ?thesis by (auto simp: told_power_def sp f)
qed

lemma told_timeout:
  assumes "\<not> daemon_refuses w \<or> \<not> DISABLE_SCHD_REBOOT_AT_DEEPSLEEP (ds_options cfg)"
  shows "told_power lp s (legacy_handleDeepsleepTimeoutWakeup cfg lp w s)"
proof (cases "DISABLE_SCHD_REBOOT_AT_DEEPSLEEP (ds_options cfg)")
  case True
  then show ?thesis
    using told_forced [where p = PWRMGR_STANDBY_DEEP_SLEEP and new = PWRMGR_STANDBY_LIGHT_SLEEP and w = w
        and pre = "[Does (DeepSleepTimeoutEvent (deep_sleep_wakeup_timeout_sec (core s)))]"] assms
    by (simp add: legacy_handleDeepsleepTimeoutWakeup_def case_prod_beta)
next
  case False
  then show ?thesis by (simp add: legacy_handleDeepsleepTimeoutWakeup_def told_power_def)
qed

lemma told_manager:
  assumes "of_manager e" and "friendly lp (w, dw, e)" and "\<not> forced_build cfg" and "targetState (core s) \<noteq> PWRMGR_OFF"
  shows "told_power lp s (older_manager cfg lp (older_world w d) e s)"
proof (cases e)
  case (Request p key)
  then show ?thesis using told_change assms(2) by (simp add: case_prod_beta)
next
  case Async_turn
  then show ?thesis using told_change told_idle assms(4)
    by (simp add: legacy_AsyncPowerTransition_def case_prod_beta)
next
  case (Async_request cur new)
  have c: "m_settings (fst (SetPowerStateAsync cur new c)) = m_settings c"
    "targetState (fst (SetPowerStateAsync cur new c)) = targetState c
     \<or> targetState (fst (SetPowerStateAsync cur new c)) = new" for c
    by (auto simp: SetPowerStateAsync_def Let_def)
  have "seen Video (map On_panel (if cur \<noteq> new then legacy_SetLEDStatus lp new else [])) = []"
    by (simp add: led_same led_only_led del: map_map)
  moreover have "cur_power (fst (SetPowerStateAsync cur new (core s))) = cur_power (core s)"
    by (rule cur_power_cong) (rule c(1))
  ultimately show ?thesis using Async_request c(2) [of "core s"] assms(2)
    by (auto simp: told_power_def legacy_async_eq(1))
next
  case Wakeup_timer
  have "\<not> daemon_refuses (older_world w d)" if "dsStatus (older_world w d) \<noteq> DeepSleepStatus_InProgress"
    using that assms(2) Wakeup_timer by (simp add: daemon_refuses_def older_world_def)
  then show ?thesis using told_timeout told_idle Wakeup_timer
    by (simp add: legacy_deep_sleep_wakeup_fn_def case_prod_beta Let_def)
next
  case Bootup_timer
  then show ?thesis
    using told_forced [where p = PWRMGR_STANDBY and new = PWRMGR_STANDBY_DEEP_SLEEP and pre = "[]"] told_idle
    by (simp add: legacy_invoke_deep_sleep_on_bootup_timeout_def case_prod_beta)
next
  case Timeout_thread
  then show ?thesis using told_timeout told_idle assms(3) by (simp add: forced_build_def)
next
  case (System_mode m)
  then show ?thesis by (simp add: told_power_def legacy_SysModeChange_def cur_power_def)
next
  case (Reboot_call custom other rq)
  have "panels (fst (legacy_HandleReboot custom other rq)) = []"
    by (simp add: legacy_HandleReboot_def Let_def flip: map_map)
  then show ?thesis using Reboot_call by (simp add: told_power_def)
qed (use assms(1) in simp_all)

text \<open>The invariant of the older box: settings in the table, ports that show them.\<close>

definition older_ok :: "legacy_platform \<Rightarrow> (string \<times> bool) list \<Rightarrow> older_box \<Rightarrow> (string \<Rightarrow> bool) \<Rightarrow> bool" where
  "older_ok lp cs b v =
     (video_table (fst b) = store_all (name_length (dev lp)) cs \<and> cur_power (core (fst b)) \<noteq> PWRMGR_OFF \<and>
      targetState (core (fst b)) \<noteq> PWRMGR_OFF \<and> shows_settings lp cs (cur_power (core (fst b))) v)"

lemma older_ok_step:
  assumes "ports_ok lp" and "\<not> forced_build cfg" and "friendly lp i" and "older_ok lp cs b v"
    and "settings_fit (name_length (dev lp)) cs"
  shows "older_ok lp (cs @ (case setting_of i of None \<Rightarrow> [] | Some c \<Rightarrow> [c])) (fst (older_step cfg dcfg lp i b))
     (picture (snd (older_step cfg dcfg lp i b)) v)"
proof -
  obtain w dw e where i: "i = (w, dw, e)" by (metis prod_cases3)
  obtain s d where b: "b = (s, d)" by fastforce
  define r where "r = older_manager cfg lp (older_world w d) e s"
  have after: "fst (fst (older_step cfg dcfg lp i b)) = fst r"
    by (simp add: older_step_def i b r_def case_prod_beta Let_def)
  have pic: "picture (snd (older_step cfg dcfg lp i b)) v = picture (seen Video (map On_panel (panels (snd r)))) v"
    using picture_seen older_seen [of Video cfg dcfg lp w dw e s d] by (metis observer.distinct(1) i b r_def)
  have ok: "video_table s = store_all (name_length (dev lp)) cs" "cur_power (core s) \<noteq> PWRMGR_OFF"
    "targetState (core s) \<noteq> PWRMGR_OFF" "shows_settings lp cs (cur_power (core s)) v"
    using assms(4) by (simp_all add: older_ok_def b)
  show ?thesis
  proof (cases "of_manager e")
    case True
    then have no: "setting_of i = None" by (cases e) (simp_all add: i)
    from told_manager [OF True _ assms(2) ok(3), of lp w dw d] assms(3)
    have t: "told_power lp s r" by (simp add: i r_def)
    then consider "cur_power (core (fst r)) = cur_power (core s)" "seen Video (map On_panel (panels (snd r))) = []"
      | eas where "cur_power (core (fst r)) \<noteq> PWRMGR_OFF"
        "panels (snd r) = display lp (video_table s) eas (cur_power (core (fst r)))"
      by (auto simp: told_power_def)
    then have "shows_settings lp cs (cur_power (core (fst r))) (picture (seen Video (map On_panel (panels (snd r)))) v)"
    proof cases
      case 1
      with ok(4) show ?thesis by simp
    next
      case 2
      from shows_after_change [OF assms(1,5) ok(4) 2(1), of eas] show ?thesis
        by (simp only: picture_seen [symmetric] 2(2) ok(1))
    qed
    with t ok show ?thesis by (auto simp: older_ok_def after pic no told_power_def)
  next
    case False
    show ?thesis
    proof (cases "setting_of i")
      case None
      with False have "r = (s, []) \<or> (\<exists>port on. e = Standby_video port on \<and> port = None)"
        by (cases e) (auto simp: i r_def split: option.splits elim!: setting_of.elims)
      then have "r = (s, [])" by (auto simp: r_def legacy_SetStandbyVideoState_def)
      with ok None show ?thesis by (simp add: older_ok_def after pic)
    next
      case (Some c)
      then obtain n on where e: "e = Standby_video (Some n) on" and c: "c = (n, on \<noteq> 0)"
        by (auto simp: i elim!: setting_of.elims)
      have n: "n \<in> set (supported_ports (dev lp))" and on: "on = 0 \<or> on = 1"
        using assms(3) by (simp_all add: i e)
      have p: "known_port (dev lp) n" "\<not> port_throws (dev lp) n"
        using assms(1) n by (auto simp: ports_ok_def calm_def list_all_iff Let_def)
      define call where "call = (if on = 1 then Video_enable n else Video_disable n)"
      have r: "r = (s\<lparr>video_table := store_setting (name_length (dev lp)) n (on \<noteq> 0) (video_table s)\<rparr>,
          if cur_power (core s) = PWRMGR_ON then [] else [Panel (Dev call)])"
        using ok(2) p by (simp add: r_def e legacy_SetStandbyVideoState_def call_def Let_def)
      have "picture [On_panel (Dev call)] v = v(n := (on \<noteq> 0))" "seen Video [On_panel (Dev call)] = [On_panel (Dev call)]"
        using on by (auto simp: call_def picture_def map_filter_def video_after_def seen_def)
      then have v: "picture (seen Video (map On_panel (panels (snd r)))) v
          = (if cur_power (core s) = PWRMGR_ON then v else v(n := (on \<noteq> 0)))"
        by (simp add: r)
      have "same_port q n = (q = n)" if "q \<in> set (supported_ports (dev lp))" for q
        using assms(1) that n by (auto simp: ports_ok_def Let_def same_port_key inj_on_def)
      then have "shows_settings lp (cs @ [c]) (cur_power (core s)) (picture (seen Video (map On_panel (panels (snd r)))) v)"
        using ok(4) by (auto simp: shows_settings_def list_all_iff v c last_setting_snoc)
      then show ?thesis
        using ok Some by (simp add: older_ok_def after pic) (simp add: r c store_all_snoc)
    qed
  qed
qed

lemma older_ok_run:
  assumes "ports_ok lp" and "\<not> forced_build cfg" and "list_all (friendly lp) is" and "older_ok lp [] b v"
  shows "older_ok lp (settings_of is) (fst (run_trace (older_step cfg dcfg lp) is b))
     (picture (snd (run_trace (older_step cfg dcfg lp) is b)) v)"
  using assms(3)
proof (induction "is" rule: rev_induct)
  case Nil
  then show ?case using assms(4) by (simp add: settings_of_def map_filter_def)
next
  case (snoc i "is")
  then have fr: "list_all (friendly lp) is" "friendly lp i" by simp_all
  from older_ok_step [OF assms(1,2) fr(2) snoc.IH [OF fr(1)] settings_of_fit [OF assms(1) fr(1)]]
  show ?case
    by (simp add: settings_of_snoc fst_run_trace_snoc run_trace_append picture_append case_prod_beta Let_def
        del: run_trace.simps(2)) simp
qed

lemma older_ok_start:
  assumes "ports_ok lp" and "legacy_start cfg g restarted lp w st lastp cec wake t0 = (s, es)" and "g 0 \<noteq> None"
    and "cur_power (core s) \<noteq> PWRMGR_OFF"
  shows "older_ok lp [] (s, d) (picture (map On_panel (panels es)) v)"
proof -
  obtain p fs where sync: "legacy_sync g lp (powerState st) = (p, fs)" by fastforce
  from sync assms(3) obtain pre where pre: "fs = pre @ map Panel (display lp standby_boot False p)"
    by (auto simp: legacy_sync_def display_def Let_def split: prod.splits if_splits)
  have s: "cur_power (core s) = p" "targetState (core s) = p" "video_table s = standby_boot"
    "panels es = panels fs"
    using assms(2) by (auto simp: legacy_start_def sync pwr_init_def cur_power_def Let_def)
  have calm: "calm (dev lp)" using assms(1) by (simp add: ports_ok_def Let_def)
  have "picture (map On_panel (panels es)) v n = (p = PWRMGR_ON)" if "n \<in> set (supported_ports (dev lp))" for n
    using assms(4) that s by (simp add: pre picture_append picture_display [OF calm] wanted_video_def standby_boot_off)
  then show ?thesis
    using assms(4) s by (simp add: older_ok_def store_all_def shows_settings_def list_all_iff last_setting_def)
qed

section \<open>Properties\<close>

text \<open>C12. The split of the power manager kept its behaviour.  Take builds with the same options and
  without a product profile, and start both boxes in the same state: the older manager with its
  deep sleep daemon, and the newer one with its module and with the listener of the device settings
  manager.  Send both the same requests, key transitions, timers, threads,
  system modes, reboots, standby settings of ports and turns of the sleeping part, in any order.
  Then both end in the same state, the same effects reach bus, platform and services in the same
  order, and the video ports get the same calls in the same order; so does the LED, if no key
  asks for a transition by the thread (there the older one switches the LED in advance).  The
  effects are the same but for the members of a mode change that the older manager leaves
  uninitialised, with anything in them, and the newer one clears (blank): the time-out in a build
  without deep sleep, the network standby flag outside of a deep sleep build of LLAMA, PLATCO, SKY or
  XIONE.  Assumed: events and calls between the processes are delivered at once; the daemon answers
  the status call of the older manager (else that one drops a request to leave deep sleep, which the
  newer one never does); memory for the events of the newer one, no deep sleep request during a
  transition, an attempt to sleep that succeeds, and no standby setting in a state where the
  listener, which knows only the state it booted in, is wrong about whether it must act at once.\<close>

theorem split_keeps_behaviour:
  assumes "ds_cfg.truncate dcfg = ds_options cfg" and "same_box ob nb" and "comparable_run cfg lp is nb"
    and "k = Led \<longrightarrow> list_all no_async is"
  shows "same_box (fst (run_trace (older_step cfg dcfg lp) is ob)) (fst (run_trace (newer_step cfg lp) is nb))
       \<and> map (blank cfg) (seen k (snd (run_trace (older_step cfg dcfg lp) is ob)))
           = seen k (snd (run_trace (newer_step cfg lp) is nb))"
  using assms(2-4)
proof (induction "is" arbitrary: ob nb)
  case (Cons i "is")
  from box_step [OF assms(1) Cons.prems(1), of i k lp] Cons.prems(2,3)
  have step: "same_box (fst (older_step cfg dcfg lp i ob)) (fst (newer_step cfg lp i nb))"
    "map (blank cfg) (seen k (snd (older_step cfg dcfg lp i ob))) = seen k (snd (newer_step cfg lp i nb))" by auto
  from Cons.IH [OF step(1)] Cons.prems(2,3) step(2) show ?case
    by (simp add: fst_run_trace_Cons snd_run_trace_Cons del: run_trace.simps)
qed simp

text \<open>A box that goes from ON to standby and back: what the older one does with the ports and the LED.\<close>

lemma newer_request:
  assumes "ux l = None" and "cur_power c \<noteq> new" and "\<not> change_blocked cfg c" and "malloc_ok (pw w)" and "k \<noteq> Bus"
  shows "fst (newer_step cfg lp (w, dw, Request new key) (c, l)) = (fst (SetPowerState cfg (pw w) new key c), l)"
    and "seen k (snd (newer_step cfg lp (w, dw, Request new key) (c, l)))
       = seen k (map On_panel (display lp (table l) False new))"
proof -
  obtain c' es r where sp: "SetPowerState cfg (pw w) new key c = (c', es, r)" by (metis prod_cases3)
  have "map mc_newState (modes es) = [new]" using SetPowerState_modes [OF sp assms(4)] assms(2,3) by simp
  then obtain mc where "modes es = [mc]" "mc_newState mc = new" by auto
  then show "seen k (snd (newer_step cfg lp (w, dw, Request new key) (c, l)))
       = seen k (map On_panel (display lp (table l) False new))"
    using assms(5) sp seen_tell_panel [OF assms(1,5), of lp es False]
    by (simp add: newer_step_def case_prod_beta)
  show "fst (newer_step cfg lp (w, dw, Request new key) (c, l)) = (fst (SetPowerState cfg (pw w) new key c), l)"
    using sp tell_keeps [OF assms(1)] by (simp add: newer_step_def case_prod_beta)
qed

definition old_platform :: legacy_platform where
  "old_platform = \<lparr>dev = ds_example, audio_list_throws = False, audio_throws = (\<lambda>_. False),
     persist_answer = (\<lambda>_. None), display_connected = (\<lambda>n. n = ''HDMI0''), audio_of = (\<lambda>_. Some ''HDMI0'')\<rparr>"

definition old_box :: older_box where
  "old_box = (\<lparr>core = box PWRMGR_ON, video_table = standby_boot\<rparr>, ds_init)"

definition new_listener :: listener where
  "new_listener = \<lparr>table = standby_boot, boot_state = PWRMGR_ON, boot_prev_state = PWRMGR_ON, ux = None\<rparr>"

text \<open>A daemon that answers, and something left on the stack.\<close>

definition evening_world :: legacy_world where
  "evening_world = \<lparr>pw = box_world, ds_answer = Some DeepSleepStatus_NotStarted, stack_timeout = 77,
     stack_nwStandby = True\<rparr>"

lemma evening_world_simps [simp]:
  "pw evening_world = box_world" "ds_answer evening_world = Some DeepSleepStatus_NotStarted"
  by (simp_all add: evening_world_def)

definition evening :: "box_input list" where
  "evening = [(evening_world, sample_world, Request PWRMGR_STANDBY 0), (evening_world, sample_world, Request PWRMGR_ON 0)]"

theorem split_keeps_behaviour_witness:
  "seen Video (snd (run_trace (older_step (box_cfg False) dsd_sample_cfg old_platform) evening old_box))
     = map (On_panel \<circ> Dev) [Video_disable ''HDMI0'', Video_disable ''SCART'', Video_enable ''HDMI0'', Video_enable ''SCART'']
   \<and> seen Led (snd (run_trace (older_step (box_cfg False) dsd_sample_cfg old_platform) evening old_box))
     = map (On_panel \<circ> Dev) [Power_led False, Power_led True]"
proof -
  let ?nb = "(box PWRMGR_ON, new_listener)"
  have opt: "ds_cfg.truncate dsd_sample_cfg = ds_options (box_cfg False)"
    by (simp add: dsd_sample_cfg_def sample_cfg_def ds_cfg.truncate_def ds_cfg.extend_def box_cfg_def)
  have same: "same_box old_box ?nb"
    by (simp add: same_box_def old_box_def new_listener_def box_facts box_def pwr_init_def)
  have comp: "comparable_run (box_cfg False) old_platform evening ?nb"
    by (simp add: evening_def box_facts del: comparable.simps newer_manager.simps)
       (simp add: newer_step_def box_facts case_prod_beta)
  have l: "ux new_listener = None" "table new_listener = standby_boot" by (simp_all add: new_listener_def)
  obtain c es r where sp: "SetPowerState (box_cfg False) box_world PWRMGR_STANDBY 0 (box PWRMGR_ON) = (c, es, r)"
    by (metis prod_cases3)
  have c: "cur_power c = PWRMGR_STANDBY" "\<not> change_blocked (box_cfg False) c"
    using SetPowerState_fields(2) [OF sp] by (simp_all add: box_facts change_blocked_def)
  have run: "seen k (snd (run_trace (newer_step (box_cfg False) old_platform) evening ?nb))
      = seen k (map On_panel (display old_platform standby_boot False PWRMGR_STANDBY)) @
        seen k (map On_panel (display old_platform standby_boot False PWRMGR_ON))" if "k \<noteq> Bus" for k
    using newer_request [OF l(1) _ _ _ that, of "box PWRMGR_ON" PWRMGR_STANDBY "box_cfg False" evening_world old_platform
        sample_world 0]
      newer_request(2) [OF l(1) _ c(2) _ that, of PWRMGR_ON evening_world old_platform sample_world 0] c(1) that
    by (simp add: evening_def snd_run_trace_Cons box_facts sp l(2) del: run_trace.simps(2))
  have "list_all no_async evening" by (simp add: evening_def)
  then have "seen k (snd (run_trace (older_step (box_cfg False) dsd_sample_cfg old_platform) evening old_box))
      = seen k (snd (run_trace (newer_step (box_cfg False) old_platform) evening ?nb))" if "k \<noteq> Bus" for k
    using split_keeps_behaviour [OF opt same comp, of k] blank_seen_panel [OF that] by simp
  then show ?thesis
    by (simp add: run) (simp add: display_def legacy_SetAVPortsPowerState_def legacy_SetLEDStatus_def legacy_video_def
        legacy_audio_def legacy_stereo_def and_then_def video_ports_def old_platform_def ds_example_def standby_boot_off
        seen_Cons)
qed


text \<open>C21. In the older design the ports always show the power state and the standby settings.  Start the
  manager on a platform that answers, in a state other than OFF, and send it any events: requests
  for a state other than OFF, key transitions and their thread, timers, reboots, system modes, turns
  of the daemon, and standby settings of its ports with 0 or 1, in standby as well as in ON.  At
  every end a port is on exactly if the power state is ON or the last standby setting of that port
  was 1.  (The listener of the newer design does not have this property: it applies a setting at
  once only if the box booted into standby.)  Assumed: at most five ports with short names that
  differ in more than case and do not throw, not the build that combines the wake-up timer event
  with the disabled maintenance reboot, and a daemon that answers the status call when the wake-up
  timer fires (at other events it need not).\<close>

theorem older_ports_show_settings:
  assumes "ports_ok lp" and "\<not> forced_build cfg"
    and "legacy_start cfg g restarted lp w st lastp cec wake t0 = (s, es)" and "g 0 \<noteq> None"
    and "cur_power (core s) \<noteq> PWRMGR_OFF" and "list_all (friendly lp) is"
    and "run_trace (older_step cfg dcfg lp) is (s, d) = ((s', d'), bs)"
    and "n \<in> set (supported_ports (dev lp))"
  shows "picture (map On_panel (panels es) @ bs) v n
       = (cur_power (core s') = PWRMGR_ON \<or> last_setting (settings_of is) n)"
  using older_ok_run [OF assms(1,2,6) older_ok_start [OF assms(1,3,4,5), where d = d and v = v], where dcfg = dcfg] assms(7,8)
  by (simp add: older_ok_def shows_settings_def list_all_iff picture_append)

text \<open>A box that is put to standby and gets a standby setting there: that port comes back, the other
  stays off.\<close>

definition standby_evening :: "box_input list" where
  "standby_evening = [(evening_world, sample_world, Request PWRMGR_STANDBY 0),
     (evening_world, sample_world, Standby_video (Some ''SCART'') 1)]"

lemma older_standby_core:
  "core (fst (fst (older_step cfg dcfg lp (w, dw, Standby_video port on) b))) = core (fst b)"
  by (simp add: older_step_def legacy_SetStandbyVideoState_def case_prod_beta Let_def split: option.split)

lemma older_request:
  assumes "cur_power (core s) = PWRMGR_ON"
  shows "cur_power (core (fst (fst (older_step cfg dcfg lp (w, dw, Request PWRMGR_STANDBY key) (s, d))))) = PWRMGR_STANDBY"
proof -
  obtain s' es r where sp: "legacy_SetPowerState cfg lp (older_world w d) PWRMGR_STANDBY key s = (s', es, r)"
    by (metis prod_cases3)
  from older_change(3) [OF sp] assms show ?thesis by (simp add: older_step_def sp case_prod_beta Let_def)
qed

theorem older_ports_show_settings_witness:
  "\<exists>s es s' d' bs. legacy_start (box_cfg False) (\<lambda>_. Some PWRMGR_ON) False old_platform
        evening_world (m_settings (box PWRMGR_ON)) PWRMGR_ON False False 0 = (s, es)
   \<and> run_trace (older_step (box_cfg False) dsd_sample_cfg old_platform) standby_evening (s, ds_init) = ((s', d'), bs)
   \<and> cur_power (core s') = PWRMGR_STANDBY
   \<and> picture (map On_panel (panels es) @ bs) (\<lambda>_. False) ''SCART''
   \<and> \<not> picture (map On_panel (panels es) @ bs) (\<lambda>_. False) ''HDMI0''"
proof -
  obtain s es where st: "legacy_start (box_cfg False) (\<lambda>_. Some PWRMGR_ON) False old_platform
      evening_world (m_settings (box PWRMGR_ON)) PWRMGR_ON False False 0 = (s, es)" by fastforce
  then have on: "cur_power (core s) = PWRMGR_ON"
    by (auto simp: legacy_start_def legacy_sync_def box_defs cur_power_def Let_def)
  obtain s' d' bs where run: "run_trace (older_step (box_cfg False) dsd_sample_cfg old_platform) standby_evening
      (s, ds_init) = ((s', d'), bs)" by (metis prod_cases3 prod.collapse)
  have keys: "port_key ''HDMI0'' \<noteq> port_key ''SCART''" by code_simp
  then have ports: "ports_ok old_platform"
    by (simp add: ports_ok_def calm_def old_platform_def ds_example_def MAX_NUM_VIDEO_PORTS_def Let_def)
  have "cur_power (core s') = cur_power (core (fst (fst (older_step (box_cfg False) dsd_sample_cfg old_platform
      (evening_world, sample_world, Request PWRMGR_STANDBY 0) (s, ds_init)))))"
    using older_standby_core run
    by (simp add: standby_evening_def case_prod_beta Let_def) (metis fst_conv)
  then have "cur_power (core s') = PWRMGR_STANDBY" using older_request on by simp
  moreover have friendly: "list_all (friendly old_platform) standby_evening"
    by (simp add: standby_evening_def old_platform_def ds_example_def)
  note follow = older_ports_show_settings [OF ports _ st _ _ friendly run, where v = "\<lambda>_. False"]
  have "last_setting (settings_of standby_evening) ''SCART''" "\<not> last_setting (settings_of standby_evening) ''HDMI0''"
    using keys
    by (simp_all add: standby_evening_def settings_of_def List.map_filter_simps last_setting_def same_port_key Let_def)
  ultimately show ?thesis
    using st run on follow by (simp add: forced_build_def box_cfg_def old_platform_def ds_example_def)
qed
end
