(* ===== verification/Mfr_Manager.thy ===== *)
theory Mfr_Manager
  imports Mfr_Server
begin

text \<open>
  The manufacturer manager: mfr/mfrMgr.c, built with RDK\_MFRLIB\_NAME and with or without
  ENABLE\_MFR\_WIFI.  It serves the manufacturer data, the boot loader pattern, the WiFi credentials and the
  image upgrade over the bus.  Every handler but one looks its library function up until it is
  found; the one for the boot loader pattern looks it up once.  The answers of the library and of
  the loader are the world of a request.  A text in a C array of n characters is the list of its
  characters before the first NUL, or all n characters where there is none; strcpy\_s and memcpy\_s
  are the bounded copies of ISO C.
\<close>

section \<open>Data\<close>

datatype mfrError = mfrERR_NONE | mfrERR_GENERAL | mfrERR_INVALID_PARAM | mfrERR_INVALID_STATE
  | mfrERR_OPERATION_NOT_SUPPORTED | mfrERR_UNKNOWN

datatype wifi_result = WIFI_API_RESULT_SUCCESS | WIFI_API_RESULT_FAILED | WIFI_API_RESULT_NULL_PARAM
  | WIFI_API_RESULT_INVALID_PARAM | WIFI_API_RESULT_NOT_INITIALIZED | WIFI_ERR_OPERATION_NOT_SUPPORTED

record wifi_data =
  cSSID :: string
  cPassword :: string
  iSecurityMode :: int

record upgrade_status =
  status_progress :: progress
  status_error :: mfrError
  percentage :: int

record write_param =
  image_name :: string
  image_path :: string
  image_kind :: int
  callerModuleName :: string
  notify_interval :: int
  cbData :: string

definition MAX_BUF :: nat where "MAX_BUF = 255"
definition SSID_SIZE :: nat where "SSID_SIZE = 33"
definition PASSWORD_SIZE :: nat where "PASSWORD_SIZE = 65"

text \<open>The functions that are looked up in the library.\<close>

datatype platform_fn = P_DeletePDRI | P_ScrubAllBanks | P_EraseAllData | P_WriteImage | P_SetPattern

text \<open>What the process does: calls of the library (with their arguments), the free function of the
  data, the call of the module that asked for an image, and the bus calls of start and stop.\<close>

datatype mgr_effect =
    Lib_init
  | Lib_GetSerializedData int
  | Free_data
  | Lib_plain platform_fn
  | Lib_WriteImage string string int int
  | Lib_SetBootloaderPattern int
  | Lib_SetCredentials wifi_data
  | Lib_GetCredentials
  | Call_WriteImageCb string upgrade_status "string option"
  | Bus_Init | Bus_Connect | Register_call string | Bus_Disconnect | Bus_Term

record mgr_state =
  func_found :: "platform_fn list"
  symbol_lookup_complete :: bool
  is_connected :: bool
  writeImageCbModule :: string
  lastStatus :: upgrade_status

definition mgr_boot :: mgr_state where
  "mgr_boot = \<lparr>func_found = [], symbol_lookup_complete = False, is_connected = False,
     writeImageCbModule = '''', lastStatus = \<lparr>status_progress = NOT_STARTED,
     status_error = mfrERR_NONE, percentage = 0\<rparr>\<rparr>"

text \<open>The world of a request: whether dlopen succeeds and which functions dlsym finds; the result of
  the library call; the data it gives (None: a null pointer) and whether they come with a free
  function; the credentials it gives; and the reports of an upgrade, each with whether it passes the
  callback data back: those during the call of the library first, then those during each second of
  the polling loops.\<close>

record mgr_world =
  lib_opens :: bool
  lib_has :: "platform_fn \<Rightarrow> bool"
  lib_err :: mfrError
  lib_data :: "string option"
  lib_frees :: bool
  wifi_err :: wifi_result
  wifi_out :: wifi_data
  reports :: "(upgrade_status \<times> bool) list list"

section \<open>Bounded copies\<close>

text \<open>Success and the new destination: an overlong or null source empties it.\<close>

definition strcpy_to :: "nat \<Rightarrow> string \<Rightarrow> bool \<times> string" where
  "strcpy_to bound src = (if length src < bound then (True, src) else (False, ''''))"

definition memcpy_to :: "string \<Rightarrow> string option \<Rightarrow> bool \<times> string" where
  "memcpy_to dest src = (case src of
       None \<Rightarrow> (False, replicate (length dest) (CHR 0x00))
     | Some d \<Rightarrow> if length d \<le> length dest then (True, d @ drop (length d) dest)
                 else (False, replicate (length dest) (CHR 0x00)))"

section \<open>Serialized data\<close>

text \<open>The buffer and the length that the reply carries.\<close>

definition mgr_getSerializedData ::
    "mgr_world \<Rightarrow> int \<Rightarrow> string \<Rightarrow> int \<Rightarrow> iarm_result \<times> string \<times> int \<times> mgr_effect list" where
  "mgr_getSerializedData w type buffer bufLen =
     (if lib_err w = mfrERR_NONE
      then (let (ok, buffer') = memcpy_to buffer (lib_data w);
                free = (if lib_frees w then [Free_data] else [])
            in if \<not> ok then (IARM_RESULT_INVALID_PARAM, buffer', bufLen, Lib_GetSerializedData type # free)
               else (IARM_RESULT_SUCCESS, buffer', int (length (the (lib_data w))),
                     Lib_GetSerializedData type # free))
      else (IARM_RESULT_IPCCORE_FAIL, buffer, bufLen, [Lib_GetSerializedData type]))"

section \<open>Handlers that only call a library function\<close>

definition find_platform :: "mgr_world \<Rightarrow> platform_fn \<Rightarrow> mgr_state \<Rightarrow> bool \<times> mgr_state" where
  "find_platform w f s =
     (if f \<in> set (func_found s) then (True, s)
      else if lib_opens w \<and> lib_has w f then (True, s\<lparr>func_found := f # func_found s\<rparr>)
      else (False, s))"

definition mgr_deletePDRI :: "mgr_world \<Rightarrow> mgr_state \<Rightarrow> iarm_result \<times> mgr_state \<times> mgr_effect list" where
  "mgr_deletePDRI w s =
     (let (found, s) = find_platform w P_DeletePDRI s
      in if \<not> found then (IARM_RESULT_INVALID_STATE, s, [])
         else (if lib_err w = mfrERR_NONE then IARM_RESULT_SUCCESS else IARM_RESULT_INVALID_STATE,
               s, [Lib_plain P_DeletePDRI]))"

definition mgr_scrubAllBanks :: "mgr_world \<Rightarrow> mgr_state \<Rightarrow> iarm_result \<times> mgr_state \<times> mgr_effect list" where
  "mgr_scrubAllBanks w s =
     (let (found, s) = find_platform w P_ScrubAllBanks s
      in if \<not> found then (IARM_RESULT_INVALID_STATE, s, [])
         else (if lib_err w = mfrERR_NONE then IARM_RESULT_SUCCESS else IARM_RESULT_INVALID_STATE,
               s, [Lib_plain P_ScrubAllBanks]))"

definition mfrWifiEraseAllData :: "mgr_world \<Rightarrow> mgr_state \<Rightarrow> iarm_result \<times> mgr_state \<times> mgr_effect list" where
  "mfrWifiEraseAllData w s =
     (let (found, s) = find_platform w P_EraseAllData s
      in if \<not> found then (IARM_RESULT_INVALID_STATE, s, [])
         else (if wifi_err w = WIFI_API_RESULT_SUCCESS then IARM_RESULT_SUCCESS
               else IARM_RESULT_INVALID_STATE, s, [Lib_plain P_EraseAllData]))"

section \<open>WiFi credentials\<close>

text \<open>The credentials and the returnVal of the parameter, as the caller sent them and as the reply
  carries them.  A failed copy returns before returnVal is set.\<close>

definition mfrWifiCredentials ::
    "mgr_world \<Rightarrow> bool \<Rightarrow> wifi_data \<Rightarrow> wifi_result \<Rightarrow>
       iarm_result \<times> wifi_data \<times> wifi_result \<times> mgr_effect list" where
  "mfrWifiCredentials w set_request cred ret =
     (if set_request
      then (let (ok, ssid) = strcpy_to SSID_SIZE (cSSID cred)
            in if \<not> ok then (IARM_RESULT_INVALID_PARAM, cred, ret, [])
               else (let (ok, password) = strcpy_to PASSWORD_SIZE (cPassword cred)
                     in if \<not> ok then (IARM_RESULT_INVALID_PARAM, cred, ret, [])
                        else (if wifi_err w = WIFI_API_RESULT_SUCCESS then IARM_RESULT_SUCCESS
                              else IARM_RESULT_IPCCORE_FAIL, cred, wifi_err w,
                              [Lib_SetCredentials \<lparr>cSSID = ssid, cPassword = password,
                                 iSecurityMode = iSecurityMode cred\<rparr>])))
      else if wifi_err w = WIFI_API_RESULT_SUCCESS
      then (let (ok, ssid) = strcpy_to SSID_SIZE (cSSID (wifi_out w));
                cred = cred\<lparr>cSSID := ssid\<rparr>
            in if \<not> ok then (IARM_RESULT_INVALID_PARAM, cred, ret, [Lib_GetCredentials])
               else (let (ok, password) = strcpy_to PASSWORD_SIZE (cPassword (wifi_out w));
                         cred = cred\<lparr>cPassword := password\<rparr>
                     in if \<not> ok then (IARM_RESULT_INVALID_PARAM, cred, ret, [Lib_GetCredentials])
                        else (IARM_RESULT_SUCCESS,
                              cred\<lparr>iSecurityMode := iSecurityMode (wifi_out w)\<rparr>,
                              wifi_err w, [Lib_GetCredentials])))
      else (IARM_RESULT_IPCCORE_FAIL, cred, wifi_err w, [Lib_GetCredentials]))"

section \<open>Image upgrade\<close>

text \<open>A report of the library: the module that asked is called, then the status is kept.  Without
  callback data those of the call are not initialised (None).\<close>

definition writeImageCb ::
    "upgrade_status \<Rightarrow> string option \<Rightarrow> mgr_state \<Rightarrow> mgr_state \<times> mgr_effect list" where
  "writeImageCb status data s =
     (case data of
        None \<Rightarrow> (s\<lparr>lastStatus := status\<rparr>, [Call_WriteImageCb (writeImageCbModule s) status None])
      | Some d \<Rightarrow>
          (let (ok, copy) = memcpy_to (replicate MAX_BUF (CHR 0x00)) (Some d)
           in if \<not> ok then (s, [])
              else (s\<lparr>lastStatus := status\<rparr>,
                    [Call_WriteImageCb (writeImageCbModule s) status (Some copy)])))"

definition report_step :: "string \<Rightarrow> upgrade_status \<times> bool \<Rightarrow> mgr_state \<Rightarrow> mgr_state \<times> mgr_effect list" where
  "report_step d r s = writeImageCb (fst r) (if snd r then Some d else None) s"

text \<open>A polling loop; None when it never ends.\<close>

fun poll_while ::
    "progress \<Rightarrow> string \<Rightarrow> (upgrade_status \<times> bool) list list \<Rightarrow> mgr_state \<Rightarrow>
       ((upgrade_status \<times> bool) list list \<times> mgr_state \<times> mgr_effect list) option" where
  "poll_while p d [] s = (if status_progress (lastStatus s) = p then None else Some ([], s, []))"
| "poll_while p d (b # bs) s =
     (if status_progress (lastStatus s) = p
      then (let (s', es) = run_trace (report_step d) b s
            in map_option (\<lambda>(bs', s'', es'). (bs', s'', es @ es')) (poll_while p d bs s'))
      else Some (b # bs, s, []))"

text \<open>The upgrade itself, once the function and the name of the module are there: the call of the
  library, the wait for the start and the wait for the end.\<close>

definition run_upgrade ::
    "mgr_world \<Rightarrow> write_param \<Rightarrow> mgr_state \<Rightarrow> (iarm_result \<times> mgr_state \<times> mgr_effect list) option" where
  "run_upgrade w p s =
     (let s = s\<lparr>lastStatus := (lastStatus s)\<lparr>status_progress := NOT_STARTED\<rparr>\<rparr>;
          call = Lib_WriteImage (image_name p) (image_path p) (image_kind p) (notify_interval p);
          (s, es) = run_trace (report_step (cbData p)) (concat (take 1 (reports w))) s
      in if lib_err w \<noteq> mfrERR_NONE then Some (IARM_RESULT_INVALID_STATE, s, call # es)
         else Option.bind (poll_while NOT_STARTED (cbData p) (drop 1 (reports w)) s) (\<lambda>(later, s, es1).
           Option.bind (poll_while STARTED (cbData p) later s) (\<lambda>(later, s, es2).
             Some (if status_progress (lastStatus s) \<noteq> COMPLETED then IARM_RESULT_IPCCORE_FAIL
                   else IARM_RESULT_SUCCESS, s, call # es @ es1 @ es2))))"

definition mgr_writeImage ::
    "mgr_world \<Rightarrow> write_param \<Rightarrow> mgr_state \<Rightarrow> (iarm_result \<times> mgr_state \<times> mgr_effect list) option" where
  "mgr_writeImage w p s =
     (let (found, s) = find_platform w P_WriteImage s
      in if \<not> found then Some (IARM_RESULT_INVALID_STATE, s, [])
         else (let (ok, module) = strcpy_to MAX_BUF (callerModuleName p);
                   s = s\<lparr>writeImageCbModule := module\<rparr>
               in if \<not> ok then Some (IARM_RESULT_INVALID_PARAM, s, []) else run_upgrade w p s))"

section \<open>Boot loader pattern\<close>

definition mgr_setBootloaderPattern ::
    "mgr_world \<Rightarrow> int \<Rightarrow> mgr_state \<Rightarrow> iarm_result \<times> mgr_state \<times> mgr_effect list" where
  "mgr_setBootloaderPattern w pattern s =
     (let (found, s) =
            (if P_SetPattern \<in> set (func_found s) then (True, s)
             else if symbol_lookup_complete s then (False, s)
             else (let s = s\<lparr>symbol_lookup_complete := True\<rparr>
                   in if lib_opens w \<and> lib_has w P_SetPattern
                      then (True, s\<lparr>func_found := P_SetPattern # func_found s\<rparr>) else (False, s)))
      in if \<not> found then (IARM_RESULT_INVALID_STATE, s, [])
         else (if lib_err w \<noteq> mfrERR_NONE then IARM_RESULT_INVALID_PARAM else IARM_RESULT_SUCCESS,
               s, [Lib_SetBootloaderPattern pattern]))"

section \<open>Requests\<close>

datatype mgr_request =
    Get_serialized int string int
  | Delete_PDRI
  | Scrub_all_banks
  | Erase_wifi
  | Credentials bool wifi_data wifi_result
  | Write_image write_param
  | Set_pattern int

datatype mgr_reply = Serialized string int | Wifi wifi_data wifi_result | No_data

text \<open>One request: the result, what the parameter holds afterwards, the state and the effects.\<close>

fun mgr_serve ::
    "mgr_request \<times> mgr_world \<Rightarrow> mgr_state \<Rightarrow> (iarm_result \<times> mgr_reply \<times> mgr_state \<times> mgr_effect list) option" where
  "mgr_serve (Get_serialized ty buf n, w) s =
     (let (r, buf', n', es) = mgr_getSerializedData w ty buf n in Some (r, Serialized buf' n', s, es))"
| "mgr_serve (Delete_PDRI, w) s = (let (r, s', es) = mgr_deletePDRI w s in Some (r, No_data, s', es))"
| "mgr_serve (Scrub_all_banks, w) s = (let (r, s', es) = mgr_scrubAllBanks w s in Some (r, No_data, s', es))"
| "mgr_serve (Erase_wifi, w) s = (let (r, s', es) = mfrWifiEraseAllData w s in Some (r, No_data, s', es))"
| "mgr_serve (Credentials set_request cred ret, w) s =
     (let (r, cred', ret', es) = mfrWifiCredentials w set_request cred ret in Some (r, Wifi cred' ret', s, es))"
| "mgr_serve (Write_image p, w) s = map_option (\<lambda>(r, s', es). (r, No_data, s', es)) (mgr_writeImage w p s)"
| "mgr_serve (Set_pattern pattern, w) s =
     (let (r, s', es) = mgr_setBootloaderPattern w pattern s in Some (r, No_data, s', es))"

text \<open>A sequence of requests: the answers in order, each with its effects.\<close>

fun mgr_run ::
    "(mgr_request \<times> mgr_world) list \<Rightarrow> mgr_state \<Rightarrow>
       ((iarm_result \<times> mgr_reply \<times> mgr_effect list) list \<times> mgr_state) option" where
  "mgr_run [] s = Some ([], s)"
| "mgr_run (q # qs) s =
     Option.bind (mgr_serve q s) (\<lambda>(r, reply, s', es).
       map_option (\<lambda>(as, s''). ((r, reply, es) # as, s'')) (mgr_run qs s'))"

section \<open>Start and stop\<close>

text \<open>What the library and the bus answer while the process starts, and whether the build has the
  WiFi calls.\<close>

record start_world =
  wifi_build :: bool
  init_err :: mfrError
  bus_init :: iarm_result
  bus_connect :: iarm_result
  bus_register :: "string \<Rightarrow> iarm_result"

definition mgr_calls :: "bool \<Rightarrow> string list" where
  "mgr_calls wifi =
     [''mfrGetManufacturerData'', ''mfrDeletePDRI'', ''scrubAllBanks'', ''mfrWriteImage'',
      ''mfrSetBootloaderPattern'']
     @ (if wifi then [''mfrWifiEraseAllData'', ''mfrWifiCredentials''] else [])"

fun register_calls :: "(string \<Rightarrow> iarm_result) \<Rightarrow> string list \<Rightarrow> iarm_result \<times> mgr_effect list" where
  "register_calls reg [] = (IARM_RESULT_SUCCESS, [])"
| "register_calls reg (c # cs) =
     (if reg c \<noteq> IARM_RESULT_SUCCESS then (reg c, [Register_call c])
      else (let (r, es) = register_calls reg cs in (r, Register_call c # es)))"

definition MFRLib_Start :: "start_world \<Rightarrow> mgr_state \<Rightarrow> iarm_result \<times> mgr_state \<times> mgr_effect list" where
  "MFRLib_Start w s =
     (let (err, s, es) =
            (if init_err w \<noteq> mfrERR_NONE then (IARM_RESULT_INVALID_STATE, s, [Lib_init])
             else if bus_init w \<noteq> IARM_RESULT_SUCCESS then (bus_init w, s, [Lib_init, Bus_Init])
             else if bus_connect w \<noteq> IARM_RESULT_SUCCESS
             then (bus_connect w, s, [Lib_init, Bus_Init, Bus_Connect])
             else (let s = s\<lparr>is_connected := True\<rparr>;
                       (err, es) = register_calls (bus_register w) (mgr_calls (wifi_build w))
                   in (err, s, [Lib_init, Bus_Init, Bus_Connect] @ es)))
      in if err \<noteq> IARM_RESULT_SUCCESS
         then (err, s, es @ (if is_connected s then [Bus_Disconnect] else []) @ [Bus_Term])
         else (err, s, es))"

definition MFRLib_Stop :: "mgr_state \<Rightarrow> iarm_result \<times> mgr_effect list" where
  "MFRLib_Stop s = (IARM_RESULT_SUCCESS, if is_connected s then [Bus_Disconnect, Bus_Term] else [])"

section \<open>Runs\<close>

lemma mgr_run_snoc:
  "mgr_run (qs @ [q]) s = Option.bind (mgr_run qs s) (\<lambda>(as, t).
     map_option (\<lambda>(r, reply, t', es). (as @ [(r, reply, es)], t')) (mgr_serve q t))"
  by (induction qs arbitrary: s)
    (auto simp: Option.map_conv_bind_option bind_assoc split: option.splits prod.splits Option.bind_splits)

lemma mgr_run_length: "mgr_run qs s = Some (as, t) \<Longrightarrow> length as = length qs"
  by (induction qs arbitrary: s as) (auto split: Option.bind_splits prod.splits)

text \<open>The request at a position, answered in the state that the requests before it lead to.\<close>

lemma mgr_run_at:
  assumes "mgr_run qs s = Some (as, t)" and "i < length qs"
  obtains as' u r reply u' es where "mgr_run (take i qs) s = Some (as', u)"
    and "mgr_serve (qs ! i) u = Some (r, reply, u', es)" and "as ! i = (r, reply, es)"
  using assms
proof (induction qs arbitrary: s as t i thesis)
  case (Cons q qs)
  from Cons.prems(2) obtain r reply v es as1 where
    q: "mgr_serve q s = Some (r, reply, v, es)" "mgr_run qs v = Some (as1, t)" "as = (r, reply, es) # as1"
    by (auto split: Option.bind_splits)
  show ?case
  proof (cases i)
    case 0
    then show ?thesis using Cons.prems(1) [of "[]" s r reply v es] q by simp
  next
    case (Suc j)
    from Cons.prems(3) Suc have j: "j < length qs" by simp
    show ?thesis
    proof (rule Cons.IH [OF _ q(2) j])
      fix as' u r' reply' u' es'
      assume "mgr_run (take j qs) v = Some (as', u)" "mgr_serve (qs ! j) u = Some (r', reply', u', es')"
        "as1 ! j = (r', reply', es')"
      then show ?thesis using Cons.prems(1) [of "(r, reply, es) # as'" u r' reply' u' es'] q Suc by simp
    qed
  qed
qed simp

text \<open>A property of the state that every request keeps.\<close>

lemma mgr_run_invariant:
  assumes "mgr_run qs s = Some (as, t)" and "P [] s"
    and "\<And>pre q s r reply s' es. mgr_serve q s = Some (r, reply, s', es) \<Longrightarrow> P pre s \<Longrightarrow> P (pre @ [q]) s'"
  shows "P qs t"
  using assms(1)
proof (induction qs arbitrary: as t rule: rev_induct)
  case Nil
  then show ?case using assms(2) by simp
next
  case (snoc q qs)
  from snoc.prems obtain as' u r reply es where
    "mgr_run qs s = Some (as', u)" and "mgr_serve q u = Some (r, reply, t, es)"
    by (auto simp: mgr_run_snoc split: Option.bind_splits)
  then show ?case using assms(3) snoc.IH by blast
qed

section \<open>Looking the functions up\<close>

fun looks_up :: "mgr_request \<Rightarrow> platform_fn option" where
  "looks_up Delete_PDRI = Some P_DeletePDRI"
| "looks_up Scrub_all_banks = Some P_ScrubAllBanks"
| "looks_up Erase_wifi = Some P_EraseAllData"
| "looks_up (Write_image p) = Some P_WriteImage"
| "looks_up (Set_pattern pattern) = Some P_SetPattern"
| "looks_up r = None"

definition worlds_of :: "platform_fn \<Rightarrow> (mgr_request \<times> mgr_world) list \<Rightarrow> mgr_world list" where
  "worlds_of f qs = map snd (filter (\<lambda>q. looks_up (fst q) = Some f) qs)"

text \<open>Whether a function is found by the requests that looked for it: the boot loader pattern only by
  the first, the others by any.\<close>

definition resolves :: "platform_fn \<Rightarrow> mgr_world list \<Rightarrow> bool" where
  "resolves f ws =
     (if f = P_SetPattern then (case ws of [] \<Rightarrow> False | w # _ \<Rightarrow> lib_opens w \<and> lib_has w f)
      else (\<exists>w\<in>set ws. lib_opens w \<and> lib_has w f))"

lemma resolves_Nil [simp]: "\<not> resolves f []"
  by (simp add: resolves_def)

definition knows :: "(mgr_request \<times> mgr_world) list \<Rightarrow> mgr_state \<Rightarrow> bool" where
  "knows qs s = ((\<forall>f. (f \<in> set (func_found s)) = resolves f (worlds_of f qs))
                 \<and> symbol_lookup_complete s = (worlds_of P_SetPattern qs \<noteq> []))"

lemma worlds_of_simps [simp]:
  "worlds_of f [] = []"
  "worlds_of f (qs @ [q]) = worlds_of f qs @ (if looks_up (fst q) = Some f then [snd q] else [])"
  by (simp_all add: worlds_of_def)

lemma find_platform_fields:
  "find_platform w f s = (found, s') \<Longrightarrow>
     func_found s' = (if found \<and> f \<notin> set (func_found s) then f # func_found s else func_found s)
     \<and> found = (f \<in> set (func_found s) \<or> lib_opens w \<and> lib_has w f)
     \<and> symbol_lookup_complete s' = symbol_lookup_complete s
     \<and> writeImageCbModule s' = writeImageCbModule s \<and> lastStatus s' = lastStatus s"
  by (auto simp: find_platform_def split: if_splits)

lemma writeImageCb_fields:
  "func_found (fst (writeImageCb st d s)) = func_found s
   \<and> symbol_lookup_complete (fst (writeImageCb st d s)) = symbol_lookup_complete s
   \<and> writeImageCbModule (fst (writeImageCb st d s)) = writeImageCbModule s"
  by (auto simp: writeImageCb_def split: option.splits prod.splits)

lemma reports_fields:
  "func_found (fst (run_trace (report_step d) rs s)) = func_found s
   \<and> symbol_lookup_complete (fst (run_trace (report_step d) rs s)) = symbol_lookup_complete s
   \<and> writeImageCbModule (fst (run_trace (report_step d) rs s)) = writeImageCbModule s"
  by (induction rs arbitrary: s)
    (simp_all add: fst_run_trace_Cons report_step_def writeImageCb_fields del: run_trace.simps(2))

lemma poll_while_fields:
  "poll_while p d bs s = Some (bs', s', es) \<Longrightarrow> func_found s' = func_found s
     \<and> symbol_lookup_complete s' = symbol_lookup_complete s \<and> writeImageCbModule s' = writeImageCbModule s"
proof (induction bs arbitrary: s es)
  case (Cons b bs)
  then show ?case using reports_fields [of d b s]
    by (fastforce split: if_splits prod.splits)
qed (simp split: if_splits)

text \<open>What a request does to the function pointers, and when it is refused for want of one.\<close>

definition finds :: "platform_fn \<Rightarrow> mgr_world \<Rightarrow> mgr_state \<Rightarrow> bool" where
  "finds f w s = (f \<in> set (func_found s)
     \<or> lib_opens w \<and> lib_has w f \<and> \<not> (f = P_SetPattern \<and> symbol_lookup_complete s))"

definition looked :: "platform_fn \<Rightarrow> mgr_world \<Rightarrow> mgr_state \<Rightarrow> mgr_state \<Rightarrow> bool" where
  "looked f w s s' = (set (func_found s') = (if finds f w s then insert f (set (func_found s)) else set (func_found s))
     \<and> symbol_lookup_complete s' = (symbol_lookup_complete s \<or> f = P_SetPattern \<and> f \<notin> set (func_found s)))"

lemma find_platform_looked:
  assumes "find_platform w f s = (found, s')" and "f \<noteq> P_SetPattern"
  shows "looked f w s s' \<and> found = finds f w s"
  using assms by (auto simp: find_platform_def looked_def finds_def split: if_splits)

lemma run_upgrade_fields:
  assumes "run_upgrade w p s = Some (r, s', es)"
  shows "func_found s' = func_found s \<and> symbol_lookup_complete s' = symbol_lookup_complete s
    \<and> writeImageCbModule s' = writeImageCbModule s \<and> es \<noteq> []"
proof -
  let ?s1 = "s\<lparr>lastStatus := (lastStatus s)\<lparr>status_progress := NOT_STARTED\<rparr>\<rparr>"
  obtain u es0 where u: "run_trace (report_step (cbData p)) (concat (take 1 (reports w))) ?s1 = (u, es0)"
    by fastforce
  have uf: "func_found u = func_found s \<and> symbol_lookup_complete u = symbol_lookup_complete s
      \<and> writeImageCbModule u = writeImageCbModule s"
    using reports_fields [of "cbData p" "concat (take 1 (reports w))" ?s1] unfolding u by simp
  from assms uf show ?thesis unfolding run_upgrade_def Let_def u
    by (auto split: if_splits Option.bind_splits dest!: poll_while_fields)
qed

lemma writeImage_looked:
  assumes "mgr_writeImage w p s = Some (r, s', es)"
  shows "looked P_WriteImage w s s' \<and> (r = IARM_RESULT_INVALID_STATE \<and> es = []) = (\<not> finds P_WriteImage w s)"
proof -
  obtain found t where f: "find_platform w P_WriteImage s = (found, t)" by fastforce
  obtain ok m where m: "strcpy_to MAX_BUF (callerModuleName p) = (ok, m)" by fastforce
  have k: "looked P_WriteImage w s t" "found = finds P_WriteImage w s"
    using find_platform_looked [OF f] by simp_all
  have "func_found s' = func_found t \<and> symbol_lookup_complete s' = symbol_lookup_complete t
      \<and> (r = IARM_RESULT_INVALID_STATE \<and> es = []) = (\<not> found)"
  proof (cases "found \<and> ok")
    case True
    with assms have "run_upgrade w p (t\<lparr>writeImageCbModule := m\<rparr>) = Some (r, s', es)"
      by (simp add: mgr_writeImage_def f m)
    from run_upgrade_fields [OF this] True show ?thesis by simp
  next
    case False
    with assms show ?thesis by (auto simp: mgr_writeImage_def f m split: if_splits)
  qed
  with k show ?thesis by (simp add: looked_def)
qed

lemma setBootloaderPattern_looked:
  assumes "mgr_setBootloaderPattern w pattern s = (r, s', es)"
  shows "looked P_SetPattern w s s'
    \<and> (r, es) = (if finds P_SetPattern w s
        then (if lib_err w = mfrERR_NONE then IARM_RESULT_SUCCESS else IARM_RESULT_INVALID_PARAM,
              [Lib_SetBootloaderPattern pattern])
        else (IARM_RESULT_INVALID_STATE, []))"
  using assms by (auto simp: mgr_setBootloaderPattern_def looked_def finds_def Let_def split: if_splits)

lemma serve_looked:
  assumes "mgr_serve (q, w) s = Some (r, reply, s', es)" and "looks_up q = Some f"
  shows "looked f w s s' \<and> (r = IARM_RESULT_INVALID_STATE \<and> es = []) = (\<not> finds f w s)"
  using assms
  by (cases q) (auto simp: mgr_deletePDRI_def mgr_scrubAllBanks_def mfrWifiEraseAllData_def
      split: prod.splits if_splits dest!: find_platform_looked writeImage_looked setBootloaderPattern_looked)

lemma serve_not_looked:
  assumes "mgr_serve (q, w) s = Some (r, reply, s', es)" and "looks_up q = None"
  shows "s' = s"
  using assms by (cases q) (auto split: prod.splits)

lemma serve_knows:
  assumes "mgr_serve q s = Some (r, reply, s', es)" and "knows pre s"
  shows "knows (pre @ [q]) s'"
proof (cases "looks_up (fst q)")
  case None
  have "s' = s" by (rule serve_not_looked [OF _ None, of "snd q"]) (use assms(1) in simp)
  then show ?thesis using assms(2) None by (simp add: knows_def)
next
  case (Some f)
  have l: "looked f (snd q) s s'"
    using serve_looked [OF _ Some, of "snd q"] assms(1) by simp
  have new: "finds f (snd q) s = resolves f (worlds_of f (pre @ [q]))"
    using assms(2) Some by (auto simp: knows_def finds_def resolves_def split: list.splits)
  have old: "resolves f (worlds_of f pre) \<Longrightarrow> resolves f (worlds_of f pre @ [snd q])"
    by (auto simp: resolves_def split: list.splits)
  show ?thesis using assms(2) l new old Some by (auto simp: knows_def looked_def split: if_splits)
qed

lemma reachable_knows:
  assumes "mgr_run qs mgr_boot = Some (as, s)"
  shows "knows qs s"
proof (rule mgr_run_invariant [where P = knows, OF assms])
  show "knows [] mgr_boot" by (simp add: knows_def mgr_boot_def resolves_def)
qed (rule serve_knows)

section \<open>The reports of an upgrade\<close>

text \<open>The progress after a sequence of reports, and the calls that the reports cause.\<close>

definition progress_from :: "progress \<Rightarrow> (upgrade_status \<times> bool) list \<Rightarrow> progress" where
  "progress_from q rs = last (q # map (\<lambda>r. status_progress (fst r)) rs)"

definition report_calls :: "string \<Rightarrow> string \<Rightarrow> (upgrade_status \<times> bool) list \<Rightarrow> mgr_effect list" where
  "report_calls m d rs =
     map (\<lambda>(st, bk). Call_WriteImageCb m st (if bk then Some d else None)) rs"

lemma progress_from_append [simp]:
  "progress_from q (rs @ rs') = progress_from (progress_from q rs) rs'"
  by (simp add: progress_from_def)

lemma progress_from_Nil [simp]: "progress_from q [] = q"
  by (simp add: progress_from_def)

lemma report_calls_append:
  "report_calls m d (rs @ rs') = report_calls m d rs @ report_calls m d rs'"
  by (simp add: report_calls_def)

lemma report_step_eq:
  "length d = MAX_BUF \<Longrightarrow> report_step d (st, bk) s =
     (s\<lparr>lastStatus := st\<rparr>, report_calls (writeImageCbModule s) d [(st, bk)])"
  by (simp add: report_step_def writeImageCb_def memcpy_to_def report_calls_def)

text \<open>What a sequence of reports does.\<close>

definition reported :: "string \<Rightarrow> (upgrade_status \<times> bool) list \<Rightarrow> mgr_state \<Rightarrow> mgr_state \<Rightarrow> mgr_effect list \<Rightarrow> bool" where
  "reported d rs s s' es = (writeImageCbModule s' = writeImageCbModule s
     \<and> status_progress (lastStatus s') = progress_from (status_progress (lastStatus s)) rs
     \<and> es = report_calls (writeImageCbModule s) d rs)"

lemma reported_refl: "reported d [] s s []"
  by (simp add: reported_def report_calls_def)

lemma reported_trans:
  "reported d rs s t es \<Longrightarrow> reported d rs' t u es' \<Longrightarrow> reported d (rs @ rs') s u (es @ es')"
  by (simp add: reported_def report_calls_append)

lemma reported_run:
  assumes "length d = MAX_BUF" and "run_trace (report_step d) rs s = (s', es)"
  shows "reported d rs s s' es"
  using assms(2)
proof (induction rs arbitrary: s es)
  case (Cons r rs)
  obtain st bk where r: "r = (st, bk)" by fastforce
  from Cons.prems obtain es' where e: "es = report_calls (writeImageCbModule s) d [r] @ es'"
    "run_trace (report_step d) rs (s\<lparr>lastStatus := st\<rparr>) = (s', es')"
    by (auto simp: r report_step_eq [OF assms(1)] split: prod.splits)
  have "reported d [r] s (s\<lparr>lastStatus := st\<rparr>) (report_calls (writeImageCbModule s) d [r])"
    by (simp add: reported_def r progress_from_def)
  from reported_trans [OF this Cons.IH [OF e(2)]] show ?case by (simp add: e(1))
qed (simp add: reported_refl)

text \<open>A polling loop ends with the first batch that leaves its state, and only then.\<close>

lemma poll_while_ends:
  assumes "length d = MAX_BUF" and "n \<le> length bs"
    and "\<forall>k<n. progress_from (status_progress (lastStatus s)) (concat (take k bs)) = p"
    and "progress_from (status_progress (lastStatus s)) (concat (take n bs)) \<noteq> p"
  shows "\<exists>s' es. poll_while p d bs s = Some (drop n bs, s', es) \<and> reported d (concat (take n bs)) s s' es"
  using assms(2-)
proof (induction n arbitrary: bs s)
  case 0
  then show ?case using reported_refl by (cases bs) auto
next
  case (Suc n)
  then obtain b bs' where bs: "bs = b # bs'" by (cases bs) auto
  have p: "status_progress (lastStatus s) = p" using Suc.prems(2) [rule_format, of 0] by simp
  obtain t es0 where t: "run_trace (report_step d) b s = (t, es0)" by fastforce
  note rt = reported_run [OF assms(1) t]
  then have pt: "progress_from (status_progress (lastStatus s)) (b @ rs) = progress_from (status_progress (lastStatus t)) rs" for rs
    by (simp add: reported_def)
  have "\<exists>s' es. poll_while p d bs' t = Some (drop n bs', s', es) \<and> reported d (concat (take n bs')) t s' es"
  proof (rule Suc.IH)
    show "\<forall>k<n. progress_from (status_progress (lastStatus t)) (concat (take k bs')) = p"
      using Suc.prems(2) pt by (fastforce simp: bs)
  qed (use Suc.prems(1,3) pt in \<open>simp_all add: bs\<close>)
  then show ?case using reported_trans [OF rt] by (auto simp: bs p t)
qed

lemma poll_while_stuck:
  assumes "length d = MAX_BUF"
    and "\<forall>k\<le>length bs. progress_from (status_progress (lastStatus s)) (concat (take k bs)) = p"
  shows "poll_while p d bs s = None"
  using assms(2)
proof (induction bs arbitrary: s)
  case (Cons b bs)
  have p: "status_progress (lastStatus s) = p" using Cons.prems [rule_format, of 0] by simp
  obtain t es0 where t: "run_trace (report_step d) b s = (t, es0)" by fastforce
  have "\<forall>k\<le>length bs. progress_from (status_progress (lastStatus t)) (concat (take k bs)) = p"
    using reported_run [OF assms(1) t] Cons.prems by (fastforce simp: reported_def)
  from Cons.IH [OF this] show ?case by (simp add: p t)
qed simp

section \<open>What an image request comes to\<close>

definition at_rest :: "progress \<Rightarrow> bool" where
  "at_rest p = (p \<noteq> NOT_STARTED \<and> p \<noteq> STARTED)"

text \<open>The progress at the n-th look: n batches of reports have come.\<close>

definition at_look :: "(upgrade_status \<times> bool) list list \<Rightarrow> nat \<Rightarrow> progress" where
  "at_look bs n = progress_from NOT_STARTED (concat (take n bs))"

text \<open>The request as its caller may see it: it lasts until the first look at which the upgrade is at
  rest, its result tells whether that is the completion, and until then the module of the caller is
  called once for each report, in order and with its own data.  None: the request never returns.\<close>

definition image_outcome :: "mgr_world \<Rightarrow> write_param \<Rightarrow> (iarm_result \<times> mgr_effect list) option" where
  "image_outcome w p =
     map_option (\<lambda>n. (if at_look (reports w) n = COMPLETED then IARM_RESULT_SUCCESS else IARM_RESULT_IPCCORE_FAIL,
         Lib_WriteImage (image_name p) (image_path p) (image_kind p) (notify_interval p)
         # report_calls (callerModuleName p) (cbData p) (concat (take n (reports w)))))
       (find (\<lambda>n. at_rest (at_look (reports w) n)) [1..<Suc (length (reports w))])"

lemma at_look_add:
  "at_look bs (m + k) = progress_from (at_look bs m) (concat (take k (drop m bs)))"
  by (simp add: at_look_def take_add)

lemma progress_from_no_return:
  "q \<noteq> NOT_STARTED \<Longrightarrow> \<forall>r\<in>set rs. status_progress (fst r) \<noteq> NOT_STARTED \<Longrightarrow> progress_from q rs \<noteq> NOT_STARTED"
  by (induction rs rule: rev_induct) (simp_all add: progress_from_def)

lemma at_look_mono:
  assumes "\<forall>r\<in>set (concat bs). status_progress (fst r) \<noteq> NOT_STARTED" and "at_look bs m \<noteq> NOT_STARTED" and "m \<le> n"
  shows "at_look bs n \<noteq> NOT_STARTED"
proof -
  have "set (concat (take (n - m) (drop m bs))) \<subseteq> set (concat bs)"
    by (auto dest!: in_set_takeD in_set_dropD)
  then have "progress_from (at_look bs m) (concat (take (n - m) (drop m bs))) \<noteq> NOT_STARTED"
    using assms(1) by (intro progress_from_no_return [OF assms(2)]) blast
  then show ?thesis using at_look_add [of bs m "n - m"] assms(3) by simp
qed

lemma first_loop:
  assumes d: "length d = MAX_BUF" and q: "status_progress (lastStatus s) = at_look R 1"
    and ex: "1 \<le> n" "n \<le> length R" "at_look R n \<noteq> NOT_STARTED"
  obtains m t es where "1 \<le> m" "m \<le> n" "at_look R m \<noteq> NOT_STARTED"
    and "poll_while NOT_STARTED d (drop 1 R) s = Some (drop m R, t, es)"
    and "reported d (concat (take (m - 1) (drop 1 R))) s t es"
    and "\<And>k. progress_from (status_progress (lastStatus t)) (concat (take k (drop m R))) = at_look R (m + k)"
proof -
  define m where "m = (LEAST m. 1 \<le> m \<and> at_look R m \<noteq> NOT_STARTED)"
  have m: "1 \<le> m" "at_look R m \<noteq> NOT_STARTED" "m \<le> n"
    using LeastI [of "\<lambda>m. 1 \<le> m \<and> at_look R m \<noteq> NOT_STARTED" n] ex
      Least_le [of "\<lambda>m. 1 \<le> m \<and> at_look R m \<noteq> NOT_STARTED" n] by (auto simp: m_def)
  have before: "at_look R k = NOT_STARTED" if "1 \<le> k" "k < m" for k
    using not_less_Least [of k "\<lambda>m. 1 \<le> m \<and> at_look R m \<noteq> NOT_STARTED"] that by (auto simp: m_def)
  have L: "progress_from (status_progress (lastStatus s)) (concat (take k (drop 1 R))) = at_look R (1 + k)" for k
    by (simp only: at_look_add q)
  have "\<exists>t es. poll_while NOT_STARTED d (drop 1 R) s = Some (drop (m - 1) (drop 1 R), t, es)
     \<and> reported d (concat (take (m - 1) (drop 1 R))) s t es"
    by (rule poll_while_ends [OF d]) (use m ex before in \<open>auto simp only: L length_drop\<close>, auto)
  then obtain t es where t: "poll_while NOT_STARTED d (drop 1 R) s = Some (drop m R, t, es)"
    "reported d (concat (take (m - 1) (drop 1 R))) s t es" using m(1) by auto
  have "status_progress (lastStatus t) = at_look R m"
    using t(2) L [of "m - 1"] m(1) by (simp add: reported_def)
  then show ?thesis using that [OF m(1,3,2) t] by (simp add: at_look_add)
qed

text \<open>The two loops one after the other, from the state after the first batch.\<close>

definition both_loops :: "string \<Rightarrow> (upgrade_status \<times> bool) list list \<Rightarrow> mgr_state \<Rightarrow> (mgr_state \<times> mgr_effect list) option" where
  "both_loops d bs s = Option.bind (poll_while NOT_STARTED d bs s) (\<lambda>(later, s, es1).
     map_option (\<lambda>(later, s, es2). (s, es1 @ es2)) (poll_while STARTED d later s))"

lemma both_loops_end:
  assumes d: "length d = MAX_BUF" and q: "status_progress (lastStatus s) = at_look R 1"
    and nr: "\<forall>r\<in>set (concat R). status_progress (fst r) \<noteq> NOT_STARTED"
    and n: "1 \<le> n" "n \<le> length R" "at_rest (at_look R n)" "\<forall>k. 1 \<le> k \<and> k < n \<longrightarrow> \<not> at_rest (at_look R k)"
  shows "\<exists>s' es. both_loops d (drop 1 R) s = Some (s', es)
     \<and> reported d (concat (take (n - 1) (drop 1 R))) s s' es"
proof -
  from n(3) have "at_look R n \<noteq> NOT_STARTED" by (simp add: at_rest_def)
  from first_loop [OF d q n(1,2) this] obtain m t es1 where
    m: "1 \<le> m" "m \<le> n" "at_look R m \<noteq> NOT_STARTED"
    and t: "poll_while NOT_STARTED d (drop 1 R) s = Some (drop m R, t, es1)"
      "reported d (concat (take (m - 1) (drop 1 R))) s t es1"
    and L: "\<And>k. progress_from (status_progress (lastStatus t)) (concat (take k (drop m R))) = at_look R (m + k)"
    by blast
  have started: "at_look R (m + k) = STARTED" if "k < n - m" for k
    using n(4) [rule_format, of "m + k"] at_look_mono [OF nr m(3), of "m + k"] m that by (auto simp: at_rest_def)
  have "\<exists>s' es. poll_while STARTED d (drop m R) t = Some (drop (n - m) (drop m R), s', es)
      \<and> reported d (concat (take (n - m) (drop m R))) t s' es"
  proof (rule poll_while_ends [OF d])
    show "\<forall>k<n - m. progress_from (status_progress (lastStatus t)) (concat (take k (drop m R))) = STARTED"
      using started by (simp only: L) simp
    show "progress_from (status_progress (lastStatus t)) (concat (take (n - m) (drop m R))) \<noteq> STARTED"
      using n(3) m by (simp only: L) (simp add: at_rest_def)
  qed (use n m in simp)
  then obtain s' es2 where s': "poll_while STARTED d (drop m R) t = Some (drop (n - m) (drop m R), s', es2)"
      "reported d (concat (take (n - m) (drop m R))) t s' es2" by blast
  have "take (m - 1) (drop 1 R) @ take (n - m) (drop m R) = take (n - 1) (drop 1 R)"
    using m take_add [of "m - 1" "n - m" "drop 1 R"] by simp
  then have "concat (take (m - 1) (drop 1 R)) @ concat (take (n - m) (drop m R)) = concat (take (n - 1) (drop 1 R))"
    by (metis concat_append)
  with reported_trans [OF t(2) s'(2)] t(1) s'(1) show ?thesis by (simp add: both_loops_def)
qed

lemma both_loops_stuck:
  assumes d: "length d = MAX_BUF" and q: "status_progress (lastStatus s) = at_look R 1"
    and nr: "\<forall>r\<in>set (concat R). status_progress (fst r) \<noteq> NOT_STARTED"
    and n: "\<forall>k. 1 \<le> k \<and> k \<le> length R \<longrightarrow> \<not> at_rest (at_look R k)"
  shows "both_loops d (drop 1 R) s = None"
proof (cases "\<exists>m. 1 \<le> m \<and> m \<le> length R \<and> at_look R m \<noteq> NOT_STARTED")
  case False
  have "poll_while NOT_STARTED d (drop 1 R) s = None"
  proof (rule poll_while_stuck [OF d], intro allI impI)
    fix k assume k: "k \<le> length (drop 1 R)"
    have "progress_from (status_progress (lastStatus s)) (concat (take k (drop 1 R))) = at_look R (1 + k)"
      by (simp only: at_look_add q)
    also have "\<dots> = NOT_STARTED"
    proof (cases R)
      case (Cons b bs)
      with k have "1 + k \<le> length R" by simp
      with False show ?thesis by (metis le_add1)
    qed (simp add: at_look_def)
    finally show "progress_from (status_progress (lastStatus s)) (concat (take k (drop 1 R))) = NOT_STARTED" .
  qed
  then show ?thesis by (simp add: both_loops_def)
next
  case True
  then obtain m0 where "1 \<le> m0" "m0 \<le> length R" "at_look R m0 \<noteq> NOT_STARTED" by blast
  from first_loop [OF d q this] obtain m t es1 where
    m: "1 \<le> m" "m \<le> m0" "at_look R m \<noteq> NOT_STARTED"
    and t: "poll_while NOT_STARTED d (drop 1 R) s = Some (drop m R, t, es1)"
      "reported d (concat (take (m - 1) (drop 1 R))) s t es1"
    and L: "\<And>k. progress_from (status_progress (lastStatus t)) (concat (take k (drop m R))) = at_look R (m + k)"
    by blast
  have "poll_while STARTED d (drop m R) t = None"
  proof (rule poll_while_stuck [OF d], intro allI impI)
    fix k assume "k \<le> length (drop m R)"
    then show "progress_from (status_progress (lastStatus t)) (concat (take k (drop m R))) = STARTED"
      using n [rule_format, of "m + k"] at_look_mono [OF nr m(3), of "m + k"] m \<open>m0 \<le> length R\<close>
      unfolding L by (auto simp: at_rest_def)
  qed
  then show ?thesis using t(1) by (simp add: both_loops_def)
qed

lemma run_upgrade_eq:
  assumes "length (cbData p) = MAX_BUF" and "lib_err w = mfrERR_NONE"
    and nr: "\<forall>r\<in>set (concat (reports w)). status_progress (fst r) \<noteq> NOT_STARTED"
    and "writeImageCbModule s = callerModuleName p"
  shows "map_option (\<lambda>(r, s', es). (r, es)) (run_upgrade w p s) = image_outcome w p"
proof -
  let ?d = "cbData p" and ?R = "reports w"
  let ?s1 = "s\<lparr>lastStatus := (lastStatus s)\<lparr>status_progress := NOT_STARTED\<rparr>\<rparr>"
  let ?call = "Lib_WriteImage (image_name p) (image_path p) (image_kind p) (notify_interval p)"
  obtain u es0 where u: "run_trace (report_step ?d) (concat (take 1 ?R)) ?s1 = (u, es0)" by fastforce
  note ru = reported_run [OF assms(1) u]
  have q: "status_progress (lastStatus u) = at_look ?R 1" using ru by (simp add: reported_def at_look_def)
  have run: "map_option (\<lambda>(r, s', es). (r, es)) (run_upgrade w p s) =
     map_option (\<lambda>(s', es). (if status_progress (lastStatus s') = COMPLETED then IARM_RESULT_SUCCESS
        else IARM_RESULT_IPCCORE_FAIL, ?call # es0 @ es)) (both_loops ?d (drop 1 ?R) u)"
    unfolding run_upgrade_def Let_def u using assms(2)
    by (simp add: both_loops_def split: option.splits Option.bind_splits)
  show ?thesis
  proof (cases "find (\<lambda>n. at_rest (at_look ?R n)) [1..<Suc (length ?R)]")
    case None
    then have "\<forall>k. 1 \<le> k \<and> k \<le> length ?R \<longrightarrow> \<not> at_rest (at_look ?R k)"
      by (auto simp: find_None_iff)
    from both_loops_stuck [OF assms(1) q nr this] show ?thesis
      by (simp only: run image_outcome_def None option.map)
  next
    case (Some n)
    then obtain i where i: "i < length ?R" "n = 1 + i" "at_rest (at_look ?R n)"
      "\<forall>j<i. \<not> at_rest (at_look ?R (1 + j))"
      by (auto simp: find_Some_iff nth_append simp del: upt_Suc)
    have "\<forall>k. 1 \<le> k \<and> k < n \<longrightarrow> \<not> at_rest (at_look ?R k)"
      using i(2,4) by (metis add_less_cancel_left le_Suc_ex)
    from both_loops_end [OF assms(1) q nr _ _ i(3) this] i(1,2) obtain s' es where
      s': "both_loops ?d (drop 1 ?R) u = Some (s', es)" "reported ?d (concat (take (n - 1) (drop 1 ?R))) u s' es"
      by auto
    have "concat (take n ?R) = concat (take 1 ?R) @ concat (take (n - 1) (drop 1 ?R))"
      using i(2) take_add [of 1 i ?R] by simp
    with reported_trans [OF ru s'(2)] have "reported ?d (concat (take n ?R)) ?s1 s' (es0 @ es)" by simp
    then have "status_progress (lastStatus s') = at_look ?R n"
      "es0 @ es = report_calls (callerModuleName p) ?d (concat (take n ?R))"
      using assms(4) by (simp_all add: reported_def at_look_def)
    then show ?thesis by (simp only: run image_outcome_def Some s'(1) option.map prod.case)
  qed
qed

section \<open>Types of the answers\<close>

definition DATA_BUF :: nat where "DATA_BUF = 1280"

text \<open>Texts that fit their arrays, and texts that also leave room for the final NUL.\<close>

definition wifi_fits :: "wifi_data \<Rightarrow> bool" where
  "wifi_fits c = (length (cSSID c) \<le> SSID_SIZE \<and> length (cPassword c) \<le> PASSWORD_SIZE)"

definition wifi_terminated :: "wifi_data \<Rightarrow> bool" where
  "wifi_terminated c = (length (cSSID c) < SSID_SIZE \<and> length (cPassword c) < PASSWORD_SIZE)"

fun request_typed :: "mgr_request \<Rightarrow> bool" where
  "request_typed (Get_serialized ty buf n) = (length buf = DATA_BUF)"
| "request_typed (Credentials set_request c ret) = wifi_fits c"
| "request_typed (Write_image p) = (length (cbData p) = MAX_BUF)"
| "request_typed r = True"

text \<open>The reply has the shape of its request; a successful one has a length within the buffer, and
  credentials that are texts.\<close>

fun reply_typed :: "mgr_request \<Rightarrow> iarm_result \<Rightarrow> mgr_reply \<Rightarrow> bool" where
  "reply_typed (Get_serialized ty b m) r (Serialized buf n) =
     (length buf = DATA_BUF
      \<and> (if r = IARM_RESULT_SUCCESS then 0 \<le> n \<and> n \<le> int DATA_BUF else n = m))"
| "reply_typed (Credentials set_request c ret) r (Wifi c' ret') =
     (wifi_fits c' \<and> (r = IARM_RESULT_SUCCESS \<longrightarrow> wifi_terminated c' \<and> ret' = WIFI_API_RESULT_SUCCESS))"
| "reply_typed (Get_serialized ty b m) r No_data = False"
| "reply_typed (Credentials set_request c ret) r No_data = False"
| "reply_typed q r reply = (reply = No_data)"

text \<open>The library gets credentials that are texts; a module that is called has a name that is a text
  and gets the whole array of its data, if any.\<close>

fun effect_typed :: "mgr_effect \<Rightarrow> bool" where
  "effect_typed (Lib_SetCredentials c) = wifi_terminated c"
| "effect_typed (Call_WriteImageCb m st d) =
     (length m < MAX_BUF \<and> (case d of None \<Rightarrow> True | Some a \<Rightarrow> length a = MAX_BUF))"
| "effect_typed e = True"

lemma reported_typed:
  assumes "reported d rs s s' es" and "length d = MAX_BUF" and "length (writeImageCbModule s) < MAX_BUF"
  shows "list_all effect_typed es"
  using assms by (auto simp: reported_def report_calls_def list_all_iff)

lemma poll_while_reported:
  assumes "length d = MAX_BUF" and "poll_while p d bs s = Some (bs', s', es)"
  shows "\<exists>rs. reported d rs s s' es"
  using assms(2)
proof (induction bs arbitrary: s es)
  case (Cons b bs)
  show ?case
  proof (cases "status_progress (lastStatus s) = p")
    case True
    with Cons.prems obtain t es0 es1 where t: "run_trace (report_step d) b s = (t, es0)"
      "poll_while p d bs t = Some (bs', s', es1)" "es = es0 @ es1"
      by (auto split: prod.splits)
    from Cons.IH [OF t(2)] reported_trans [OF reported_run [OF assms(1) t(1)]] show ?thesis
      unfolding t(3) by blast
  qed (use Cons.prems reported_refl in auto)
qed (use reported_refl in \<open>auto split: if_splits\<close>)

lemma run_upgrade_typed:
  assumes d: "length (cbData p) = MAX_BUF" and m: "length (writeImageCbModule s) < MAX_BUF"
    and r: "run_upgrade w p s = Some (r, s', es)"
  shows "list_all effect_typed es \<and> length (writeImageCbModule s') < MAX_BUF"
proof -
  let ?s1 = "s\<lparr>lastStatus := (lastStatus s)\<lparr>status_progress := NOT_STARTED\<rparr>\<rparr>"
  obtain u es0 where u: "run_trace (report_step (cbData p)) (concat (take 1 (reports w))) ?s1 = (u, es0)"
    by fastforce
  note ru = reported_run [OF d u]
  have "list_all effect_typed es0" by (rule reported_typed [OF ru d]) (use m in simp)
  moreover have mu: "length (writeImageCbModule u) < MAX_BUF" using ru m by (simp add: reported_def)
  moreover have "list_all effect_typed es1 \<and> length (writeImageCbModule t) < MAX_BUF"
    if "poll_while q (cbData p) bs v = Some (bs', t, es1)" "length (writeImageCbModule v) < MAX_BUF" for q bs v bs' t es1
    using poll_while_reported [OF d that(1)] that(2) reported_typed [OF _ d] by (auto simp: reported_def)
  ultimately show ?thesis using r unfolding run_upgrade_def Let_def u
    by (fastforce split: if_splits Option.bind_splits)
qed

lemma strcpy_to_fits: "strcpy_to n src = (ok, dest) \<Longrightarrow> 0 < n \<Longrightarrow> length dest < n \<and> (ok \<longrightarrow> dest = src)"
  by (auto simp: strcpy_to_def split: if_splits)

lemma memcpy_to_fits:
  "memcpy_to dest src = (ok, dest') \<Longrightarrow> length dest' = length dest
     \<and> (ok \<longrightarrow> (\<exists>d. src = Some d \<and> length d \<le> length dest))"
  by (auto simp: memcpy_to_def split: option.splits if_splits)

lemma sizes_positive: "0 < MAX_BUF" "0 < SSID_SIZE" "0 < PASSWORD_SIZE"
  by (simp_all add: MAX_BUF_def SSID_SIZE_def PASSWORD_SIZE_def)

lemma getSerializedData_typed:
  assumes "mgr_getSerializedData w ty b m = (r, buf, n, es)" and "length b = DATA_BUF"
  shows "reply_typed (Get_serialized ty b m) r (Serialized buf n) \<and> list_all effect_typed es"
  using assms by (auto simp: mgr_getSerializedData_def Let_def split: if_splits prod.splits dest!: memcpy_to_fits)

lemma mfrWifiCredentials_typed:
  assumes "mfrWifiCredentials w set_request c ret = (r, c', ret', es)" and "wifi_fits c"
  shows "reply_typed (Credentials set_request c ret) r (Wifi c' ret') \<and> list_all effect_typed es"
proof -
  obtain ok1 ssid ok2 pw where cp: "strcpy_to SSID_SIZE (cSSID c) = (ok1, ssid)"
    "strcpy_to PASSWORD_SIZE (cPassword c) = (ok2, pw)" by fastforce
  obtain ok3 ssid' ok4 pw' where cp': "strcpy_to SSID_SIZE (cSSID (wifi_out w)) = (ok3, ssid')"
    "strcpy_to PASSWORD_SIZE (cPassword (wifi_out w)) = (ok4, pw')" by fastforce
  show ?thesis using assms(1,2) strcpy_to_fits [OF cp(1) sizes_positive(2)] strcpy_to_fits [OF cp(2) sizes_positive(3)]
      strcpy_to_fits [OF cp'(1) sizes_positive(2)] strcpy_to_fits [OF cp'(2) sizes_positive(3)]
    unfolding mfrWifiCredentials_def cp cp' Let_def prod.case
    by (auto simp: wifi_fits_def wifi_terminated_def split: if_splits)
qed

lemma find_platform_typed:
  "find_platform w f s = (found, s') \<Longrightarrow> writeImageCbModule s' = writeImageCbModule s"
  by (simp add: find_platform_fields)

lemma writeImage_typed:
  assumes "mgr_writeImage w p s = Some (r, s', es)" and "length (cbData p) = MAX_BUF"
    and "length (writeImageCbModule s) < MAX_BUF"
  shows "list_all effect_typed es \<and> length (writeImageCbModule s') < MAX_BUF"
proof -
  obtain found t where f: "find_platform w P_WriteImage s = (found, t)" by fastforce
  obtain ok m where m: "strcpy_to MAX_BUF (callerModuleName p) = (ok, m)" by fastforce
  have fit: "length m < MAX_BUF" using strcpy_to_fits [OF m sizes_positive(1)] by simp
  show ?thesis
  proof (cases "found \<and> ok")
    case True
    with assms(1) have "run_upgrade w p (t\<lparr>writeImageCbModule := m\<rparr>) = Some (r, s', es)"
      by (simp add: mgr_writeImage_def f m)
    then show ?thesis by (rule run_upgrade_typed [OF assms(2), rotated]) (use fit in simp)
  next
    case False
    with assms fit find_platform_typed [OF f] show ?thesis
      by (auto simp: mgr_writeImage_def f m split: if_splits)
  qed
qed

lemma serve_typed:
  assumes "mgr_serve (q, w) s = Some (r, reply, s', es)" and "request_typed q"
    and "length (writeImageCbModule s) < MAX_BUF"
  shows "reply_typed q r reply \<and> list_all effect_typed es \<and> length (writeImageCbModule s') < MAX_BUF"
proof (cases q)
  case (Get_serialized ty b m)
  then show ?thesis using assms getSerializedData_typed [of w ty b m] by (fastforce split: prod.splits)
next
  case (Credentials set_request c ret)
  then show ?thesis using assms mfrWifiCredentials_typed [of w set_request c ret] by (fastforce split: prod.splits)
next
  case (Write_image p)
  then show ?thesis using assms writeImage_typed [of w p s] by auto
next
  case (Set_pattern pattern)
  then show ?thesis using assms
    by (auto simp: mgr_setBootloaderPattern_def Let_def split: prod.splits if_splits)
qed (use assms in \<open>auto simp: mgr_deletePDRI_def mgr_scrubAllBanks_def mfrWifiEraseAllData_def
      split: prod.splits if_splits dest!: find_platform_typed\<close>)

section \<open>Properties\<close>

text \<open>C20. When a library function is called.  Start the manufacturer manager and send it any requests,
  with a platform library that may be absent, incomplete or replaced between two requests.  A
  request for a library function that is looked up (PDRI, banks, WiFi data, image, boot loader
  pattern) is refused without calling the library exactly if the function has not been found: the
  boot loader pattern must have been there at the first request for it, so one early request spoils
  all later ones; the others are looked for by every request until they are found, and are then
  kept.\<close>

theorem refused_iff_never_found:
  assumes "mgr_run qs mgr_boot = Some (as, s)" and "i < length qs" and "looks_up (fst (qs ! i)) = Some f"
  shows "(fst (as ! i) = IARM_RESULT_INVALID_STATE \<and> snd (snd (as ! i)) = [])
    = (\<not> resolves f (worlds_of f (take (Suc i) qs)))"
proof -
  obtain q w where q: "qs ! i = (q, w)" by fastforce
  from assms(1,2) obtain as' u r reply u' es where at: "mgr_run (take i qs) mgr_boot = Some (as', u)"
    "mgr_serve (qs ! i) u = Some (r, reply, u', es)" "as ! i = (r, reply, es)"
    by (rule mgr_run_at)
  have k: "knows (take i qs) u" "knows (take (Suc i) qs) u'"
    using reachable_knows [OF at(1)] serve_knows [OF at(2)] assms(2) by (simp_all add: take_Suc_conv_app_nth)
  have f: "looks_up q = Some f" using assms(3) q by simp
  from serve_looked [OF at(2) [unfolded q] f] have "looked f w u u'"
    "(r = IARM_RESULT_INVALID_STATE \<and> es = []) = (\<not> finds f w u)" by blast+
  moreover from this(1) have "finds f w u = (f \<in> set (func_found u'))"
    by (auto simp: looked_def finds_def)
  ultimately show ?thesis using k(2) at(3) by (simp add: knows_def)
qed

text \<open>C18. An image request ends with the upgrade.  Once the library function has been found, a request
  with a well-formed parameter that the library accepts returns at the first look at which the
  reported progress is neither "not started" nor "started", and never returns if there is none; its
  result is SUCCESS exactly if the upgrade was completed; and until then the module of the caller
  has been called once for each report of the library, in their order, with the data of the request
  (or none where the library passes none back).  Assumed: the library does not report "not
  started".\<close>

theorem image_request_outcome:
  assumes "mgr_run qs mgr_boot = Some (as, s)"
    and "resolves P_WriteImage (worlds_of P_WriteImage (qs @ [(Write_image p, w)]))"
    and "length (callerModuleName p) < MAX_BUF" and "length (cbData p) = MAX_BUF" and "lib_err w = mfrERR_NONE"
    and "\<forall>r\<in>set (concat (reports w)). status_progress (fst r) \<noteq> NOT_STARTED"
  shows "map_option (\<lambda>(r, reply, s', es). (r, es)) (mgr_serve (Write_image p, w) s) = image_outcome w p"
proof -
  obtain found t where f: "find_platform w P_WriteImage s = (found, t)" by fastforce
  have found using find_platform_looked [OF f] assms(2) reachable_knows [OF assms(1)]
    by (auto simp: finds_def knows_def resolves_def)
  moreover have "strcpy_to MAX_BUF (callerModuleName p) = (True, callerModuleName p)"
    using assms(3) by (simp add: strcpy_to_def)
  ultimately have "mgr_writeImage w p s = run_upgrade w p (t\<lparr>writeImageCbModule := callerModuleName p\<rparr>)"
    by (simp add: mgr_writeImage_def f)
  then show ?thesis
    using run_upgrade_eq [OF assms(4,5,6), of "t\<lparr>writeImageCbModule := callerModuleName p\<rparr>"]
    by (simp add: option.map_comp comp_def case_prod_unfold)
qed

text \<open>C19. Well-typed answers.  Send the manufacturer manager any requests whose arrays have their
  declared sizes, with any answers of the platform library, texts without a final NUL and overlong
  data included.  Then every reply has the shape of its request and arrays of their sizes; a
  successful reply carries a length between 0 and 1280, or credentials that are texts ending within
  their arrays; the library is only given credentials that are texts; and the module that is called
  with the progress of an image has a name that is a text and gets all 255 bytes of its data, if
  any.\<close>

theorem answers_are_well_typed:
  assumes "mgr_run qs mgr_boot = Some (as, s)" and "\<forall>q\<in>set qs. request_typed (fst q)" and "i < length qs"
  shows "reply_typed (fst (qs ! i)) (fst (as ! i)) (fst (snd (as ! i))) \<and> list_all effect_typed (snd (snd (as ! i)))"
proof -
  from assms(1,3) obtain as' u r reply u' es where at: "mgr_run (take i qs) mgr_boot = Some (as', u)"
    "mgr_serve (qs ! i) u = Some (r, reply, u', es)" "as ! i = (r, reply, es)"
    by (rule mgr_run_at)
  have "(\<forall>q\<in>set (take i qs). request_typed (fst q)) \<longrightarrow> length (writeImageCbModule u) < MAX_BUF"
  proof (rule mgr_run_invariant [OF at(1)])
    show "(\<forall>q\<in>set []. request_typed (fst q)) \<longrightarrow> length (writeImageCbModule mgr_boot) < MAX_BUF"
      by (simp add: mgr_boot_def MAX_BUF_def)
  qed (use serve_typed in fastforce)
  then have "length (writeImageCbModule u) < MAX_BUF" using assms(2) by (meson in_set_takeD)
  moreover have "request_typed (fst (qs ! i))" using assms(2,3) by simp
  ultimately show ?thesis using serve_typed [of "fst (qs ! i)" "snd (qs ! i)" u] at(2,3) by simp
qed

text \<open>The start: every call is registered, or the process leaves the bus again.  MFRLib\_Stop then
  leaves it a second time where the start had connected.\<close>

lemma register_calls_spec:
  "register_calls reg cs = (r, es) \<Longrightarrow>
     (r = IARM_RESULT_SUCCESS) = (\<forall>c\<in>set cs. reg c = IARM_RESULT_SUCCESS)
     \<and> (r = IARM_RESULT_SUCCESS \<longrightarrow> es = map Register_call cs)"
  by (induction cs arbitrary: r es) (auto split: if_splits prod.splits)

lemma start_registers_all_or_leaves:
  assumes "MFRLib_Start w mgr_boot = (r, s, es)"
  shows "if r = IARM_RESULT_SUCCESS
    then es = [Lib_init, Bus_Init, Bus_Connect] @ map Register_call (mgr_calls (wifi_build w)) \<and> is_connected s
    else last es = Bus_Term \<and> (is_connected s \<longrightarrow> Bus_Disconnect \<in> set es)"
  using assms
  by (auto simp: MFRLib_Start_def Let_def mgr_boot_def split: if_splits prod.splits dest!: register_calls_spec)

section \<open>Examples\<close>

definition library_example :: mgr_world where
  "library_example = \<lparr>lib_opens = True, lib_has = (\<lambda>_. True), lib_err = mfrERR_NONE, lib_data = Some ''SN1'',
     lib_frees = True, wifi_err = WIFI_API_RESULT_SUCCESS,
     wifi_out = \<lparr>cSSID = ''home'', cPassword = ''secret'', iSecurityMode = 4\<rparr>,
     reports = [[], [(\<lparr>status_progress = STARTED, status_error = mfrERR_NONE, percentage = 40\<rparr>, True)],
       [(\<lparr>status_progress = COMPLETED, status_error = mfrERR_NONE, percentage = 100\<rparr>, True)]]\<rparr>"

definition image_example :: write_param where
  "image_example = \<lparr>image_name = ''stb.bin'', image_path = ''/tmp'', image_kind = 0,
     callerModuleName = ''Updater'', notify_interval = 5, cbData = replicate MAX_BUF (CHR ''x'')\<rparr>"

text \<open>A pattern request before the library is there, and another once it is.\<close>

theorem refused_iff_never_found_witness:
  "let qs = [(Set_pattern 1, library_example\<lparr>lib_opens := False\<rparr>), (Set_pattern 1, library_example)]
   in fst (the (map_option (\<lambda>(as, s). as ! 1) (mgr_run qs mgr_boot))) = IARM_RESULT_INVALID_STATE"
proof -
  let ?qs = "[(Set_pattern 1, library_example\<lparr>lib_opens := False\<rparr>), (Set_pattern 1, library_example)]"
  obtain as s where run: "mgr_run ?qs mgr_boot = Some (as, s)"
    by (simp add: mgr_setBootloaderPattern_def mgr_boot_def library_example_def)
  have "fst (as ! 1) = IARM_RESULT_INVALID_STATE"
    using refused_iff_never_found [OF run, of 1 P_SetPattern]
    by (simp add: worlds_of_def resolves_def take_Suc_conv_app_nth)
  then show ?thesis using run by simp
qed

theorem image_request_outcome_witness:
  "map_option (\<lambda>(r, reply, s', es). (r, es)) (mgr_serve (Write_image image_example, library_example) mgr_boot)
     = image_outcome library_example image_example
   \<and> map_option fst (image_outcome library_example image_example) = Some IARM_RESULT_SUCCESS"
proof
  show "map_option (\<lambda>(r, reply, s', es). (r, es)) (mgr_serve (Write_image image_example, library_example) mgr_boot)
     = image_outcome library_example image_example"
  proof (rule image_request_outcome [of "[]"])
    show "resolves P_WriteImage (worlds_of P_WriteImage ([] @ [(Write_image image_example, library_example)]))"
      by (simp add: resolves_def worlds_of_def library_example_def)
    show "length (callerModuleName image_example) < MAX_BUF" by (simp add: image_example_def MAX_BUF_def)
    show "length (cbData image_example) = MAX_BUF" by (simp add: image_example_def)
    show "lib_err library_example = mfrERR_NONE" by (simp add: library_example_def)
    show "\<forall>r\<in>set (concat (reports library_example)). status_progress (fst r) \<noteq> NOT_STARTED"
      by (simp add: library_example_def)
  qed simp
  show "map_option fst (image_outcome library_example image_example) = Some IARM_RESULT_SUCCESS"
    by (simp add: image_outcome_def library_example_def at_look_def progress_from_def at_rest_def upt_rec)
qed

text \<open>Credentials of 33 characters are refused, and those of the library are handed on.\<close>

theorem answers_are_well_typed_witness:
  "let c = \<lparr>cSSID = replicate SSID_SIZE (CHR ''a''), cPassword = ''pw'', iSecurityMode = 4\<rparr>;
       qs = [(Credentials True c WIFI_API_RESULT_FAILED, library_example),
             (Credentials False c WIFI_API_RESULT_FAILED, library_example)]
   in \<exists>as s. mgr_run qs mgr_boot = Some (as, s) \<and> fst (as ! 0) = IARM_RESULT_INVALID_PARAM
      \<and> list_all effect_typed (snd (snd (as ! 0)))
      \<and> reply_typed (fst (qs ! 1)) (fst (as ! 1)) (fst (snd (as ! 1)))"
proof -
  let ?c = "\<lparr>cSSID = replicate SSID_SIZE (CHR ''a''), cPassword = ''pw'', iSecurityMode = 4\<rparr>"
  let ?qs = "[(Credentials True ?c WIFI_API_RESULT_FAILED, library_example),
              (Credentials False ?c WIFI_API_RESULT_FAILED, library_example)]"
  obtain as s where run: "mgr_run ?qs mgr_boot = Some (as, s)"
    by (simp add: case_prod_unfold Let_def)
  have typed: "\<forall>q\<in>set ?qs. request_typed (fst q)"
    by (simp add: wifi_fits_def PASSWORD_SIZE_def)
  have "fst (as ! 0) = IARM_RESULT_INVALID_PARAM"
    using run by (auto simp: mfrWifiCredentials_def strcpy_to_def split: Option.bind_splits prod.splits)
  then show ?thesis
    using run answers_are_well_typed [OF run typed, of 0] answers_are_well_typed [OF run typed, of 1]
    unfolding Let_def by simp
qed

end
