(* ===== verification/Auto_Bind.thy ===== *)
theory Auto_Bind
  imports Iarm_Prelude
begin

text \<open>
  The line-of-sight auto binding of the IR manager (ir/irMgr.c with one of the older RF4CE
  interfaces; the three variants differ in the names of the bus).  A ghost key opens the binding of
  the RF manager, and a thread that the first such key starts closes it after 600 ms.  The key
  handler and the thread share Rf4ceAutoBindClock without a lock, so the model is a step relation
  over their single accesses: which of them moves is not determined.  Opening and closing are
  requests over the bus that may fail; a thread may fail to start.  The flag atomic forbids every
  other step while the handler is inside its request.
\<close>

section \<open>State and steps\<close>

text \<open>Where the key handler is: outside; after the accepted request; after having read a clock that is
  not zero, or zero; before the start of the thread.\<close>

datatype key_pc = Outside | Accepted | Again | First | Start_thread

text \<open>A switch-off thread: created; asleep until a time; awake with the clock reset, before its
  request.\<close>

datatype off_pc = Off_created | Off_asleep nat | Off_clearing

record bind_state =
  Rf4ceAutoBindClock :: int
  line_of_sight :: bool
  key_pc :: key_pc
  off_threads :: "off_pc list"
  now_ms :: nat

definition bind_init :: bind_state where
  "bind_init = \<lparr>Rf4ceAutoBindClock = 0, line_of_sight = False, key_pc = Outside, off_threads = [], now_ms = 0\<rparr>"

datatype bind_event = Open bool | Test_clock | Store int | Create bool
  | Off_starts nat | Off_wakes nat | Off_clears nat bool | Pass nat

definition OFF_AFTER_MS :: nat where "OFF_AFTER_MS = 600"

definition thread_at :: "nat \<Rightarrow> off_pc \<Rightarrow> bind_state \<Rightarrow> bool" where
  "thread_at i pc s = (i < length (off_threads s) \<and> off_threads s ! i = pc)"

definition end_thread :: "nat \<Rightarrow> bind_state \<Rightarrow> bind_state" where
  "end_thread i s = s\<lparr>off_threads := take i (off_threads s) @ drop (Suc i) (off_threads s)\<rparr>"

text \<open>The part of \_IrInputKeyEventHandler for the ghost key.\<close>

inductive key_step :: "bind_state \<Rightarrow> bind_event \<Rightarrow> bind_state \<Rightarrow> bool" where
  open_accepted: "key_pc s = Outside \<Longrightarrow>
     key_step s (Open True) (s\<lparr>line_of_sight := True, key_pc := Accepted\<rparr>)"
| open_failed: "key_pc s = Outside \<Longrightarrow> key_step s (Open False) s"
| test_again: "key_pc s = Accepted \<Longrightarrow> Rf4ceAutoBindClock s \<noteq> 0 \<Longrightarrow>
     key_step s Test_clock (s\<lparr>key_pc := Again\<rparr>)"
| test_first: "key_pc s = Accepted \<Longrightarrow> Rf4ceAutoBindClock s = 0 \<Longrightarrow>
     key_step s Test_clock (s\<lparr>key_pc := First\<rparr>)"
| store_again: "key_pc s = Again \<Longrightarrow>
     key_step s (Store t) (s\<lparr>Rf4ceAutoBindClock := t, key_pc := Outside\<rparr>)"
| store_first: "key_pc s = First \<Longrightarrow>
     key_step s (Store t) (s\<lparr>Rf4ceAutoBindClock := t, key_pc := Start_thread\<rparr>)"
| create: "key_pc s = Start_thread \<Longrightarrow>
     key_step s (Create ok)
       (s\<lparr>key_pc := Outside, off_threads := off_threads s @ (if ok then [Off_created] else [])\<rparr>)"

text \<open>\_Rf4ceAutoBindOffThreadFunc.\<close>

inductive off_step :: "bind_state \<Rightarrow> bind_event \<Rightarrow> bind_state \<Rightarrow> bool" where
  off_nothing: "thread_at i Off_created s \<Longrightarrow> Rf4ceAutoBindClock s = 0 \<Longrightarrow>
     off_step s (Off_starts i) (end_thread i s)"
| off_sleep: "thread_at i Off_created s \<Longrightarrow> Rf4ceAutoBindClock s \<noteq> 0 \<Longrightarrow>
     off_step s (Off_starts i)
       (s\<lparr>off_threads := (off_threads s)[i := Off_asleep (now_ms s + OFF_AFTER_MS)]\<rparr>)"
| off_wake: "thread_at i (Off_asleep t) s \<Longrightarrow> t \<le> now_ms s \<Longrightarrow>
     off_step s (Off_wakes i)
       (s\<lparr>Rf4ceAutoBindClock := 0, off_threads := (off_threads s)[i := Off_clearing]\<rparr>)"
| off_clear: "thread_at i Off_clearing s \<Longrightarrow>
     off_step s (Off_clears i ok) (end_thread i (if ok then s\<lparr>line_of_sight := False\<rparr> else s))"

text \<open>Threads and time may move: always, or only while the handler is outside.\<close>

definition may_move :: "bool \<Rightarrow> bind_state \<Rightarrow> bool" where
  "may_move atomic s = (\<not> atomic \<or> key_pc s = Outside)"

inductive bind_step :: "bool \<Rightarrow> bind_state \<Rightarrow> bind_event \<Rightarrow> bind_state \<Rightarrow> bool" for atomic where
  key: "key_step s e t \<Longrightarrow> bind_step atomic s e t"
| off: "off_step s e t \<Longrightarrow> may_move atomic s \<Longrightarrow> bind_step atomic s e t"
| pass: "may_move atomic s \<Longrightarrow> bind_step atomic s (Pass d) (s\<lparr>now_ms := now_ms s + d\<rparr>)"

text \<open>The states that steps with allowed events reach from a state.\<close>

inductive bind_reach :: "bool \<Rightarrow> (bind_event \<Rightarrow> bool) \<Rightarrow> bind_state \<Rightarrow> bind_state \<Rightarrow> bool"
  for atomic allowed s where
  here: "bind_reach atomic allowed s s"
| further: "bind_reach atomic allowed s t \<Longrightarrow> bind_step atomic t e u \<Longrightarrow> allowed e \<Longrightarrow> bind_reach atomic allowed s u"

text \<open>The clock read is not zero, and threads start and close.\<close>

fun reliable :: "bind_event \<Rightarrow> bool" where
  "reliable (Store t) = (t \<noteq> 0)"
| "reliable (Create ok) = ok"
| "reliable (Off_clears i ok) = ok"
| "reliable e = True"

section \<open>With an atomic handler\<close>

text \<open>A thread that has yet to reset the clock.\<close>

definition waits :: "off_pc \<Rightarrow> bool" where
  "waits pc = (pc \<noteq> Off_clearing)"

definition bind_inv :: "bind_state \<Rightarrow> bool" where
  "bind_inv s =
     (length (filter waits (off_threads s)) = (if Rf4ceAutoBindClock s \<noteq> 0 \<and> key_pc s \<noteq> Start_thread then 1 else 0)
      \<and> (key_pc s = First \<longrightarrow> Rf4ceAutoBindClock s = 0)
      \<and> (key_pc s = Start_thread \<longrightarrow> Rf4ceAutoBindClock s \<noteq> 0)
      \<and> (key_pc s = Again \<longrightarrow> Rf4ceAutoBindClock s \<noteq> 0)
      \<and> (line_of_sight s \<and> key_pc s = Outside \<longrightarrow> off_threads s \<noteq> [])
      \<and> (\<forall>t. Off_asleep t \<in> set (off_threads s) \<longrightarrow> t \<le> now_ms s + OFF_AFTER_MS))"

lemma split_at:
  assumes "thread_at i pc s"
  obtains ps qs where "off_threads s = ps @ pc # qs" and "length ps = i"
    and "off_threads (end_thread i s) = ps @ qs" and "\<And>pc'. (off_threads s)[i := pc'] = ps @ pc' # qs"
proof -
  let ?T = "off_threads s"
  have i: "i < length ?T" "?T ! i = pc" using assms by (simp_all add: thread_at_def)
  have T: "?T = take i ?T @ pc # drop (Suc i) ?T" using id_take_nth_drop [OF i(1)] i(2) by simp
  have "?T[i := pc'] = take i ?T @ pc' # drop (Suc i) ?T" for pc' by (rule upd_conv_take_nth_drop [OF i(1)])
  with that [of "take i ?T" "drop (Suc i) ?T"] T i(1) show ?thesis by (simp add: end_thread_def)
qed

lemma end_thread_fields [simp]:
  "Rf4ceAutoBindClock (end_thread i s) = Rf4ceAutoBindClock s" "line_of_sight (end_thread i s) = line_of_sight s"
  "key_pc (end_thread i s) = key_pc s" "now_ms (end_thread i s) = now_ms s"
  by (simp_all add: end_thread_def)

lemma key_step_inv:
  assumes "key_step s e t" and "reliable e" and "bind_inv s"
  shows "bind_inv t"
  using assms by cases (auto simp: bind_inv_def waits_def split: if_splits)

lemma off_step_inv:
  assumes "off_step s e t" and "reliable e" and "key_pc s = Outside" and "bind_inv s"
  shows "bind_inv t"
  using assms
proof cases
  case (off_nothing i)
  from off_nothing(3) obtain ps qs where "off_threads s = ps @ Off_created # qs" by (rule split_at)
  with off_nothing assms(4) show ?thesis by (simp add: bind_inv_def waits_def)
next
  case (off_sleep i)
  from off_sleep(3) obtain ps qs where "off_threads s = ps @ Off_created # qs"
    "\<And>pc'. (off_threads s)[i := pc'] = ps @ pc' # qs" by (rule split_at) (rule that)
  with off_sleep assms(4) show ?thesis by (auto simp: bind_inv_def waits_def)
next
  case (off_wake i t0)
  from off_wake(3) obtain ps qs where "off_threads s = ps @ Off_asleep t0 # qs"
    "\<And>pc'. (off_threads s)[i := pc'] = ps @ pc' # qs" by (rule split_at) (rule that)
  with off_wake assms(3,4) show ?thesis by (auto simp: bind_inv_def waits_def split: if_splits)
next
  case (off_clear i ok)
  define s1 where "s1 = s\<lparr>line_of_sight := False\<rparr>"
  have "thread_at i Off_clearing s1" using off_clear(3) by (simp add: s1_def thread_at_def)
  then obtain ps qs where q: "off_threads s1 = ps @ Off_clearing # qs" "off_threads (end_thread i s1) = ps @ qs"
    by (rule split_at)
  have t: "t = end_thread i s1" using off_clear assms(2) by (simp add: s1_def)
  have "off_threads s = ps @ Off_clearing # qs" "off_threads t = ps @ qs" "\<not> line_of_sight t"
    "Rf4ceAutoBindClock t = Rf4ceAutoBindClock s" "key_pc t = key_pc s" "now_ms t = now_ms s"
    using q by (simp_all add: t) (simp_all add: s1_def)
  with assms(4) show ?thesis by (simp add: bind_inv_def waits_def)
qed

lemma bind_step_inv:
  assumes "bind_step True s e t" and "reliable e" and "bind_inv s"
  shows "bind_inv t"
  using assms
proof cases
  case (pass d)
  with assms(3) show ?thesis by (fastforce simp: bind_inv_def)
qed (auto simp: may_move_def intro: key_step_inv off_step_inv)

lemma reach_inv:
  assumes "bind_reach True reliable bind_init s"
  shows "bind_inv s"
  using assms
proof (induction rule: bind_reach.induct)
  case here
  show ?case by (simp add: bind_inv_def bind_init_def)
qed (blast intro: bind_step_inv)

text \<open>Steps in which no key comes.\<close>

fun quiet :: "bind_event \<Rightarrow> bool" where
  "quiet (Open ok) = False"
| "quiet e = reliable e"

lemma quiet_reliable: "quiet e \<Longrightarrow> reliable e"
  by (cases e) auto

lemma reach_trans:
  assumes "bind_reach a P s t" and "bind_reach a Q t u" and "\<And>e. P e \<Longrightarrow> R e" and "\<And>e. Q e \<Longrightarrow> R e"
  shows "bind_reach a R s u"
proof -
  have "bind_reach a R s t" using assms(1) by induction (auto intro: bind_reach.intros assms(3))
  with assms(2) show ?thesis by induction (auto intro: bind_reach.intros assms(4))
qed

lemmas reach_quiet = reach_trans [where P = quiet and Q = quiet and R = quiet, simplified]

lemma reach_one: "bind_step a s e t \<Longrightarrow> P e \<Longrightarrow> bind_reach a P s t"
  by (rule bind_reach.further [OF bind_reach.here])

lemma thread_somewhere:
  assumes "pc \<in> set (off_threads s)"
  obtains i where "thread_at i pc s"
  using assms by (auto simp: thread_at_def in_set_conv_nth)

text \<open>At most one thread waits, and it waits for a reset of the clock.\<close>

lemma one_waits:
  assumes "bind_inv s" and "thread_at i pc s" and "waits pc"
  shows "Rf4ceAutoBindClock s \<noteq> 0 \<and> (\<forall>pc'\<in>set ((off_threads s)[i := Off_clearing]). \<not> waits pc')"
proof -
  from assms(2) obtain ps qs where T: "off_threads s = ps @ pc # qs"
    "\<And>pc'. (off_threads s)[i := pc'] = ps @ pc' # qs" by (rule split_at) (rule that)
  have "filter waits ps = [] \<and> filter waits qs = [] \<and> Rf4ceAutoBindClock s \<noteq> 0"
    using assms(1,3) unfolding bind_inv_def T(1) by (simp split: if_splits)
  then show ?thesis unfolding T(2) by (auto simp: filter_empty_conv waits_def)
qed

text \<open>Nothing but the threads: first the one that waits goes to sleep and wakes, then each closes.\<close>

lemma threads_clear:
  assumes "key_pc s = Outside" and "\<forall>pc\<in>set (off_threads s). \<not> waits pc"
  shows "\<exists>t. bind_reach True quiet s t \<and> off_threads t = [] \<and> now_ms t = now_ms s"
  using assms
proof (induction "off_threads s" arbitrary: s)
  case Nil
  then show ?case using bind_reach.here by metis
next
  case (Cons pc pcs)
  then have "pc = Off_clearing" by (metis list.set_intros(1) waits_def)
  with Cons.hyps(2) have "thread_at 0 Off_clearing s" by (metis thread_at_def length_greater_0_conv list.distinct(1) nth_Cons_0)
  from off_step.off_clear [OF this, of True, THEN bind_step.off, of True] Cons.prems(1) have
    st: "bind_step True s (Off_clears 0 True) (end_thread 0 (s\<lparr>line_of_sight := False\<rparr>))"
    by (simp add: may_move_def)
  have rest: "off_threads (end_thread 0 (s\<lparr>line_of_sight := False\<rparr>)) = pcs"
    using Cons.hyps(2) [symmetric] by (simp add: end_thread_def)
  have "\<exists>t. bind_reach True quiet (end_thread 0 (s\<lparr>line_of_sight := False\<rparr>)) t \<and> off_threads t = []
      \<and> now_ms t = now_ms (end_thread 0 (s\<lparr>line_of_sight := False\<rparr>))"
    by (rule Cons.hyps(1)) (use rest Cons.prems Cons.hyps(2) [symmetric] in simp_all)
  then show ?case using reach_quiet [OF reach_one [OF st]] by auto
qed

lemma asleep_clears:
  assumes "bind_inv s" and "key_pc s = Outside" and "Off_created \<notin> set (off_threads s)"
  shows "\<exists>t. bind_reach True quiet s t \<and> off_threads t = [] \<and> now_ms t \<le> now_ms s + OFF_AFTER_MS"
proof (cases "\<exists>i t0. thread_at i (Off_asleep t0) s")
  case True
  then obtain i t0 where i: "thread_at i (Off_asleep t0) s" by blast
  let ?s1 = "s\<lparr>now_ms := now_ms s + OFF_AFTER_MS\<rparr>"
  let ?s2 = "?s1\<lparr>Rf4ceAutoBindClock := 0, off_threads := (off_threads s)[i := Off_clearing]\<rparr>"
  have "t0 \<le> now_ms s + OFF_AFTER_MS"
    using assms(1) i unfolding bind_inv_def thread_at_def by (metis nth_mem)
  then have w: "bind_step True ?s1 (Off_wakes i) ?s2"
    using off_step.off_wake [of i t0 ?s1, THEN bind_step.off, of True] i assms(2) by (simp add: thread_at_def may_move_def)
  have p: "bind_step True s (Pass OFF_AFTER_MS) ?s1"
    by (rule bind_step.pass) (simp add: may_move_def assms(2))
  have "\<forall>pc\<in>set (off_threads ?s2). \<not> waits pc"
    using one_waits [OF assms(1) i] by (simp add: waits_def)
  then have "\<exists>t. bind_reach True quiet ?s2 t \<and> off_threads t = [] \<and> now_ms t = now_ms ?s2"
    by (intro threads_clear) (simp_all add: assms(2))
  then obtain t where t: "bind_reach True quiet ?s2 t" "off_threads t = []" "now_ms t = now_ms ?s2" by blast
  have "bind_reach True quiet s t"
    by (rule reach_quiet [OF reach_one [OF p] reach_quiet [OF reach_one [OF w] t(1)]]) simp_all
  with t show ?thesis by (intro exI [of _ t]) simp
next
  case False
  have "\<not> waits pc" if pc: "pc \<in> set (off_threads s)" for pc
  proof -
    from pc obtain i where "thread_at i pc s" by (rule thread_somewhere)
    then have "pc \<noteq> Off_asleep t" for t using False by blast
    moreover have "pc \<noteq> Off_created" using pc assms(3) by blast
    ultimately show ?thesis by (metis off_pc.exhaust waits_def)
  qed
  then have "\<exists>t. bind_reach True quiet s t \<and> off_threads t = [] \<and> now_ms t = now_ms s"
    by (intro threads_clear assms(2)) blast
  then show ?thesis by auto
qed

lemma threads_finish:
  assumes "bind_inv s" and "key_pc s = Outside"
  shows "\<exists>t. bind_reach True quiet s t \<and> off_threads t = [] \<and> now_ms t \<le> now_ms s + OFF_AFTER_MS"
proof (cases "Off_created \<in> set (off_threads s)")
  case False
  with asleep_clears [OF assms] show ?thesis by blast
next
  case True
  then obtain i where i: "thread_at i Off_created s" by (rule thread_somewhere)
  let ?T = "(off_threads s)[i := Off_asleep (now_ms s + OFF_AFTER_MS)]"
  note w = one_waits [OF assms(1) i]
  have st: "bind_step True s (Off_starts i) (s\<lparr>off_threads := ?T\<rparr>)"
    by (rule bind_step.off [OF off_step.off_sleep [OF i]]) (use w assms(2) in \<open>simp_all add: may_move_def waits_def\<close>)
  have inv: "bind_inv (s\<lparr>off_threads := ?T\<rparr>)"
    by (rule bind_step_inv [OF st _ assms(1)]) simp
  from i obtain ps qs where T: "off_threads s = ps @ Off_created # qs"
    "\<And>pc'. (off_threads s)[i := pc'] = ps @ pc' # qs" by (rule split_at) (rule that)
  have "Off_created \<notin> set ?T" using w unfolding T(2) by (auto simp: waits_def)
  then have "\<exists>t. bind_reach True quiet (s\<lparr>off_threads := ?T\<rparr>) t \<and> off_threads t = []
      \<and> now_ms t \<le> now_ms (s\<lparr>off_threads := ?T\<rparr>) + OFF_AFTER_MS"
    by (intro asleep_clears [OF inv]) (simp_all add: assms(2))
  then show ?thesis using reach_quiet [OF reach_one [OF st]] by auto
qed

section \<open>Without the atomic handler\<close>

text \<open>A clock that no thread will reset: every later key only opens the binding again.\<close>

definition forgotten :: "bind_state \<Rightarrow> bool" where
  "forgotten s = (Rf4ceAutoBindClock s \<noteq> 0 \<and> off_threads s = [] \<and> key_pc s \<in> {Outside, Accepted, Again})"

lemma forgotten_step:
  assumes "bind_step False s e t" and "reliable e" and "forgotten s"
  shows "forgotten t \<and> (line_of_sight s \<longrightarrow> line_of_sight t)"
  using assms
  by (auto simp: forgotten_def thread_at_def elim!: bind_step.cases key_step.cases off_step.cases)

lemma forgotten_reach:
  assumes "bind_reach False reliable s t" and "forgotten s"
  shows "forgotten t \<and> (line_of_sight s \<longrightarrow> line_of_sight t)"
  using assms by induction (use forgotten_step in blast)+

text \<open>The race: the thread wakes between the test of the clock and its next value.\<close>

lemma race_leaves_binding_open:
  "\<exists>s. bind_reach False reliable bind_init s \<and> line_of_sight s
       \<and> (\<forall>t. bind_reach False reliable s t \<longrightarrow> line_of_sight t)"
proof -
  let ?mk = "\<lambda>c l k T n. \<lparr>Rf4ceAutoBindClock = c, line_of_sight = l, key_pc = k, off_threads = T, now_ms = n\<rparr>"
  note step = bind_reach.further [where atomic = False and allowed = reliable]
  note fields = may_move_def thread_at_def end_thread_def OFF_AFTER_MS_def bind_init_def
  have 1: "bind_reach False reliable bind_init (?mk 0 True Accepted [] 0)"
    using step [OF bind_reach.here key_step.open_accepted [of bind_init, THEN bind_step.key]] by (simp add: fields)
  have 2: "bind_reach False reliable bind_init (?mk 0 True First [] 0)"
    using step [OF 1 key_step.test_first [THEN bind_step.key]] by (simp add: fields)
  have 3: "bind_reach False reliable bind_init (?mk 1 True Start_thread [] 0)"
    using step [OF 2 key_step.store_first [of _ 1, THEN bind_step.key]] by (simp add: fields)
  have 4: "bind_reach False reliable bind_init (?mk 1 True Outside [Off_created] 0)"
    using step [OF 3 key_step.create [of _ True, THEN bind_step.key]] by (simp add: fields)
  have 5: "bind_reach False reliable bind_init (?mk 1 True Outside [Off_asleep 600] 0)"
    using step [OF 4 off_step.off_sleep [of 0, THEN bind_step.off]] by (simp add: fields)
  have 6: "bind_reach False reliable bind_init (?mk 1 True Outside [Off_asleep 600] 600)"
    using step [OF 5 bind_step.pass [of _ _ 600]] by (simp add: fields)
  have 7: "bind_reach False reliable bind_init (?mk 1 True Accepted [Off_asleep 600] 600)"
    using step [OF 6 key_step.open_accepted [THEN bind_step.key]] by (simp add: fields)
  have 8: "bind_reach False reliable bind_init (?mk 1 True Again [Off_asleep 600] 600)"
    using step [OF 7 key_step.test_again [THEN bind_step.key]] by (simp add: fields)
  have 9: "bind_reach False reliable bind_init (?mk 0 True Again [Off_clearing] 600)"
    using step [OF 8 off_step.off_wake [of 0 600, THEN bind_step.off]] by (simp add: fields)
  have 10: "bind_reach False reliable bind_init (?mk 0 False Again [] 600)"
    using step [OF 9 off_step.off_clear [of 0 _ True, THEN bind_step.off]] by (simp add: fields)
  have 11: "bind_reach False reliable bind_init (?mk 601 False Outside [] 600)"
    using step [OF 10 key_step.store_again [of _ 601, THEN bind_step.key]] by (simp add: fields)
  have 12: "bind_reach False reliable bind_init (?mk 601 True Accepted [] 600)"
    using step [OF 11 key_step.open_accepted [THEN bind_step.key]] by (simp add: fields)
  have "forgotten (?mk 601 True Accepted [] 600)" by (simp add: forgotten_def)
  with 12 forgotten_reach show ?thesis by (metis bind_state.select_convs(2))
qed

section \<open>Properties\<close>

lemma quiet_outside:
  assumes "bind_reach a quiet s t" and "key_pc s = Outside"
  shows "key_pc t = Outside"
  using assms(1)
proof induction
  case (further t e u)
  from further(2,3,4) show ?case by (auto elim!: bind_step.cases key_step.cases off_step.cases split: if_splits)
qed (rule assms(2))

text \<open>C23. The line-of-sight binding does not stay open.  Let ghost keys come and threads run in any order
  and at any time, with the key handler not interrupted between its request and the start of its
  thread, and with requests of the threads that succeed.  Whenever the handler is not running: if no
  further key comes, the threads can finish within 600 ms, and whenever they have finished the
  binding is closed.\<close>

theorem binding_gets_closed:
  assumes "bind_reach True reliable bind_init s" and "key_pc s = Outside"
  shows "(\<exists>t. bind_reach True quiet s t \<and> off_threads t = [] \<and> now_ms t \<le> now_ms s + OFF_AFTER_MS)
    \<and> (\<forall>t. bind_reach True quiet s t \<and> off_threads t = [] \<longrightarrow> \<not> line_of_sight t)"
proof
  show "\<exists>t. bind_reach True quiet s t \<and> off_threads t = [] \<and> now_ms t \<le> now_ms s + OFF_AFTER_MS"
    by (rule threads_finish [OF reach_inv [OF assms(1)] assms(2)])
  show "\<forall>t. bind_reach True quiet s t \<and> off_threads t = [] \<longrightarrow> \<not> line_of_sight t"
  proof (intro allI impI)
    fix t assume t: "bind_reach True quiet s t \<and> off_threads t = []"
    then have "bind_reach True reliable bind_init t"
      by (intro reach_trans [OF assms(1), where Q = quiet]) (auto dest: quiet_reliable)
    then have "bind_inv t" by (rule reach_inv)
    moreover have "key_pc t = Outside" using t quiet_outside assms(2) by blast
    ultimately show "\<not> line_of_sight t" using t by (simp add: bind_inv_def)
  qed
qed

text \<open>One key, and its thread asleep.\<close>

theorem binding_gets_closed_witness:
  "\<exists>s. bind_reach True reliable bind_init s \<and> line_of_sight s
     \<and> (\<exists>t. bind_reach True quiet s t \<and> off_threads t = [] \<and> \<not> line_of_sight t \<and> now_ms t \<le> 600)"
proof -
  let ?mk = "\<lambda>c l k T. \<lparr>Rf4ceAutoBindClock = c, line_of_sight = l, key_pc = k, off_threads = T, now_ms = 0\<rparr>"
  note step = bind_reach.further [where atomic = True and allowed = reliable]
  note fields = may_move_def thread_at_def OFF_AFTER_MS_def bind_init_def
  have 1: "bind_reach True reliable bind_init (?mk 0 True Accepted [])"
    using step [OF bind_reach.here key_step.open_accepted [of bind_init, THEN bind_step.key]] by (simp add: fields)
  have 2: "bind_reach True reliable bind_init (?mk 0 True First [])"
    using step [OF 1 key_step.test_first [THEN bind_step.key]] by (simp add: fields)
  have 3: "bind_reach True reliable bind_init (?mk 1 True Start_thread [])"
    using step [OF 2 key_step.store_first [of _ 1, THEN bind_step.key]] by (simp add: fields)
  have 4: "bind_reach True reliable bind_init (?mk 1 True Outside [Off_created])"
    using step [OF 3 key_step.create [of _ True, THEN bind_step.key]] by (simp add: fields)
  have 5: "bind_reach True reliable bind_init (?mk 1 True Outside [Off_asleep 600])"
    using step [OF 4 off_step.off_sleep [of 0, THEN bind_step.off]] by (simp add: fields)
  from binding_gets_closed [OF 5] obtain t where "bind_reach True quiet (?mk 1 True Outside [Off_asleep 600]) t"
    "off_threads t = []" "now_ms t \<le> 600" "\<not> line_of_sight t"
    by (auto simp: OFF_AFTER_MS_def)
  with 5 show ?thesis by (metis bind_state.select_convs(2))
qed

end
