(* ===== verification/Uinput_Device.thy ===== *)
theory Uinput_Device
  imports Ir_Mgr
begin

text \<open>
  The injected keyboard of ir/uinput.c with its whole life: set-up, events with and without a scan
  code, and the end.  The process sends commands to a uinput device of the kernel; the log keeps
  every command with the kernel's answer, and the kernel is any function of the log and the next
  command.  The device itself is what the log says: being configured with a set of keys, live, or
  absent.  The key table is an argument of the operations; each build has its own.
\<close>

section \<open>Commands and the log\<close>

datatype dev_command =
    Dev_open
  | Set_evbit string
  | Set_mscbit string
  | Set_keybit string
  | Dev_setup string
  | Dev_create
  | Write_key string nat
  | Write_scan int
  | Write_syn
  | Dev_destroy
  | Dev_close

type_synonym dev_log = "(dev_command \<times> bool) list"
type_synonym kernel = "dev_log \<Rightarrow> dev_command \<Rightarrow> bool"
type_synonym key_table = "(int \<times> string \<times> string) list"

record uinput_state =
  devFd_open :: bool
  dev_log :: dev_log

definition uinput_boot :: uinput_state where
  "uinput_boot = \<lparr>devFd_open = False, dev_log = []\<rparr>"

text \<open>A command: its answer, and the log with it.\<close>

definition send :: "kernel \<Rightarrow> dev_command \<Rightarrow> dev_log \<Rightarrow> bool \<times> dev_log" where
  "send k c l = (k l c, l @ [(c, k l c)])"

text \<open>The key table of the SkyQ build, IrInputRemoteKeyCodes\_SkyQ.h.\<close>

definition kcodesMap_SkyQ :: key_table where
  "kcodesMap_SkyQ =
    [(0xC0, ''KEY_HOME'', ''KEY_RESERVED''),
     (0x8D, ''KEY_HOME'', ''KEY_RESERVED''),
     (0x8E, ''KEY_F9'', ''KEY_RESERVED''),
     (0xAA, ''KEY_F6'', ''KEY_RESERVED''),
     (0x8E, ''KEY_F9'', ''KEY_RESERVED''),
     (0xC1, ''KEY_F1'', ''KEY_RESERVED''),
     (0xD0, ''KEY_F15'', ''KEY_RESERVED''),
     (0xA9, ''KEY_OK'', ''KEY_RESERVED''),
     (0x85, ''KEY_ENTER'', ''KEY_RESERVED''),
     (0x87, ''KEY_ESC'', ''KEY_RESERVED''),
     (0x40, ''KEY_F5'', ''KEY_RESERVED''),
     (0x64, ''KEY_F8'', ''KEY_RESERVED''),
     (0x80, ''KEY_POWER'', ''KEY_RESERVED''),
     (0x88, ''KEY_UP'', ''KEY_LEFTCTRL''),
     (0x89, ''KEY_DOWN'', ''KEY_LEFTCTRL''),
     (0x8A, ''KEY_KPPLUS'', ''KEY_RESERVED''),
     (0x8B, ''KEY_KPMINUS'', ''KEY_RESERVED''),
     (0x8C, ''KEY_KPASTERISK'', ''KEY_RESERVED''),
     (0x31, ''KEY_1'', ''KEY_RESERVED''),
     (0x32, ''KEY_2'', ''KEY_RESERVED''),
     (0x33, ''KEY_3'', ''KEY_RESERVED''),
     (0x34, ''KEY_4'', ''KEY_RESERVED''),
     (0x35, ''KEY_5'', ''KEY_RESERVED''),
     (0x36, ''KEY_6'', ''KEY_RESERVED''),
     (0x37, ''KEY_7'', ''KEY_RESERVED''),
     (0x38, ''KEY_8'', ''KEY_RESERVED''),
     (0x39, ''KEY_9'', ''KEY_RESERVED''),
     (0x30, ''KEY_0'', ''KEY_RESERVED''),
     (0x98, ''KEY_F12'', ''KEY_RESERVED''),
     (0x97, ''KEY_F10'', ''KEY_RESERVED''),
     (0x9B, ''KEY_F11'', ''KEY_RESERVED''),
     (0x99, ''KEY_F11'', ''KEY_RESERVED''),
     (0x9A, ''KEY_S'', ''KEY_LEFTCTRL''),
     (0x9C, ''KEY_F7'', ''KEY_RESERVED''),
     (0x81, ''KEY_UP'', ''KEY_RESERVED''),
     (0x82, ''KEY_DOWN'', ''KEY_RESERVED''),
     (0x83, ''KEY_LEFT'', ''KEY_RESERVED''),
     (0x84, ''KEY_RIGHT'', ''KEY_RESERVED''),
     (0x90, ''KEY_PAGEUP'', ''KEY_RESERVED''),
     (0x91, ''KEY_PAGEDOWN'', ''KEY_RESERVED''),
     (0x95, ''KEY_L'', ''KEY_LEFTCTRL''),
     (0x96, ''KEY_N'', ''KEY_LEFTCTRL''),
     (0x92, ''KEY_INSERT'', ''KEY_RESERVED''),
     (0x93, ''KEY_END'', ''KEY_RESERVED''),
     (0x94, ''KEY_F4'', ''KEY_RESERVED''),
     (0x9F, ''KEY_DELETE'', ''KEY_RESERVED''),
     (0xA1, ''KEY_F2'', ''KEY_RESERVED''),
     (0x52, ''KEY_SETUP'', ''KEY_RESERVED''),
     (0xC4, ''KEY_NEXT'', ''KEY_RESERVED''),
     (0xC3, ''KEY_PREVIOUS'', ''KEY_RESERVED''),
     (0xD3, ''KEY_F5'', ''KEY_RESERVED''),
     (0xA6, ''KEY_BATTERY'', ''KEY_RESERVED''),
     (0xD5, ''KEY_F23'', ''KEY_RESERVED''),
     (0x60, ''KEY_F24'', ''KEY_RESERVED''),
     (0xA0, ''KEY_B'', ''KEY_LEFTCTRL''),
     (0xCF, ''KEY_F3'', ''KEY_RESERVED''),
     (0xEF, ''KEY_BLUETOOTH'', ''KEY_RESERVED''),
     (0xFE, ''KEY_UNKNOWN'', ''KEY_RESERVED'')]"

section \<open>Set-up\<close>

datatype uinput_src = SRC_IRMGR | SRC_KEYSIM

definition setup_name :: "bool \<Rightarrow> uinput_src \<Rightarrow> string" where
  "setup_name skq src = (if skq \<and> src = SRC_KEYSIM then ''key-simulator'' else ''uinput-remote'')"

text \<open>The event types; ret is the answer to the last request.\<close>

definition add_event_types :: "bool \<Rightarrow> kernel \<Rightarrow> dev_log \<Rightarrow> bool \<times> dev_log" where
  "add_event_types skq k l =
     (let (ret, l) = send k (Set_evbit ''EV_KEY'') l;
          (ret, l) = send k (Set_evbit ''EV_SYN'') l
      in if skq
         then (let (ret, l) = send k (Set_evbit ''EV_MSC'') l in send k (Set_mscbit ''MSC_SCAN'') l)
         else (ret, l))"

fun add_keycodes :: "key_table \<Rightarrow> kernel \<Rightarrow> bool \<times> dev_log \<Rightarrow> bool \<times> dev_log" where
  "add_keycodes [] k (ret, l) = (ret, l)"
| "add_keycodes ((i, u, mo) # ks) k (ret, l) =
     (let (ret, l) = send k (Set_keybit u) l
      in add_keycodes ks k (if mo \<noteq> KEY_INVALID then send k (Set_keybit mo) l else (ret, l)))"

definition close_device :: "kernel \<Rightarrow> dev_log \<Rightarrow> dev_log" where
  "close_device k l = snd (send k Dev_close (snd (send k Dev_destroy l)))"

definition UINPUT_init_src ::
    "key_table \<Rightarrow> bool \<Rightarrow> uinput_src \<Rightarrow> kernel \<Rightarrow> uinput_state \<Rightarrow> uinput_state" where
  "UINPUT_init_src table skq src k s =
     (let (fd, l) = send k Dev_open (dev_log s)
      in if fd
         then (let (ret, l) = add_event_types skq k l;
                   (ret, l) = (if ret then add_keycodes table k (ret, l) else (ret, l));
                   (ret, l) = (if ret then send k (Dev_setup (setup_name skq src)) l else (ret, l));
                   (ret, l) = (if ret then send k Dev_create l else (ret, l))
               in if \<not> ret then \<lparr>devFd_open = False, dev_log = close_device k l\<rparr>
                  else \<lparr>devFd_open = True, dev_log = l\<rparr>)
         else \<lparr>devFd_open = False, dev_log = l\<rparr>)"

definition uinput_term :: "kernel \<Rightarrow> uinput_state \<Rightarrow> uinput_state" where
  "uinput_term k s =
     \<lparr>devFd_open = False, dev_log = (if devFd_open s then close_device k (dev_log s) else dev_log s)\<rparr>"

section \<open>Events\<close>

text \<open>A write to the closed descriptor fails and reaches no device.\<close>

definition write_event :: "kernel \<Rightarrow> dev_command \<Rightarrow> uinput_state \<Rightarrow> bool \<times> uinput_state" where
  "write_event k c s =
     (if devFd_open s then (let (ok, l) = send k c (dev_log s) in (ok, s\<lparr>dev_log := l\<rparr>)) else (False, s))"

definition write_key_and_syn :: "kernel \<Rightarrow> string \<Rightarrow> nat \<Rightarrow> uinput_state \<Rightarrow> uinput_state" where
  "write_key_and_syn k code val s =
     (let (ok, s) = write_event k (Write_key code val) s
      in if ok then snd (write_event k Write_syn s) else uinput_term k s)"

text \<open>With a scan code (None: udispatcher\_internal, Some: udispatcherScancode\_internal).\<close>

definition uinput_send :: "kernel \<Rightarrow> int option \<Rightarrow> string \<Rightarrow> nat \<Rightarrow> uinput_state \<Rightarrow> uinput_state" where
  "uinput_send k scan code val s =
     (case scan of
        None \<Rightarrow> write_key_and_syn k code val s
      | Some c \<Rightarrow> (let (ok, s) = write_event k (Write_scan c) s
                   in if ok then write_key_and_syn k code val s else uinput_term k s))"

definition lookup_key :: "key_table \<Rightarrow> int \<Rightarrow> string \<times> string" where
  "lookup_key table kc = (case find_key table kc of None \<Rightarrow> (KEY_INVALID, KEY_INVALID) | Some p \<Rightarrow> p)"

definition uinput_dispatch ::
    "key_table \<Rightarrow> kernel \<Rightarrow> int option \<Rightarrow> int \<Rightarrow> int \<Rightarrow> uinput_state \<Rightarrow> uinput_state" where
  "uinput_dispatch table k scan kc kt s =
     (if \<not> devFd_open s then s
      else
        let (uCode, uModi) = lookup_key table kc; val = getKeyValue kt;
            s = (if kt = KET_KEYDOWN \<and> uModi \<noteq> KEY_INVALID then uinput_send k scan uModi val s else s);
            s = uinput_send k scan uCode val s
        in if kt = KET_KEYUP \<and> uModi \<noteq> KEY_INVALID then uinput_send k scan uModi val s else s)"

text \<open>UINPUT\_GetDispatcher and UINPUT\_GetDispatcherScancode: whether there is one.\<close>

definition UINPUT_GetDispatcher :: "uinput_state \<Rightarrow> bool" where
  "UINPUT_GetDispatcher s = devFd_open s"

text \<open>The two builds: with \_SKQ\_KEY\_MAP\_1\_ or without.\<close>

definition build_table :: "bool \<Rightarrow> key_table" where
  "build_table skq = (if skq then kcodesMap_SkyQ else kcodesMap_IARM2Linux)"

datatype uinput_op = Init uinput_src | Dispatch "int option" int int | Term

fun uinput_step :: "key_table \<Rightarrow> bool \<Rightarrow> kernel \<Rightarrow> uinput_op \<Rightarrow> uinput_state \<Rightarrow> uinput_state" where
  "uinput_step table skq k (Init src) s = UINPUT_init_src table skq src k s"
| "uinput_step table skq k (Dispatch scan kc kt) s = uinput_dispatch table k scan kc kt s"
| "uinput_step table skq k Term s = uinput_term k s"

definition uinput_run :: "key_table \<Rightarrow> bool \<Rightarrow> kernel \<Rightarrow> uinput_op list \<Rightarrow> uinput_state \<Rightarrow> uinput_state" where
  "uinput_run table skq k ops s = fold (uinput_step table skq k) ops s"

section \<open>The device that the log describes\<close>

datatype device = Absent | Configured "string list" | Live "string list"

fun device_step :: "dev_command \<times> bool \<Rightarrow> device \<Rightarrow> device" where
  "device_step (Dev_open, ok) d = (if ok then Configured [] else Absent)"
| "device_step (Set_keybit u, ok) d =
     (case d of Configured K \<Rightarrow> Configured (if ok then u # K else K) | _ \<Rightarrow> d)"
| "device_step (Dev_create, ok) d = (case d of Configured K \<Rightarrow> (if ok then Live K else d) | _ \<Rightarrow> d)"
| "device_step (Dev_destroy, ok) d = Absent"
| "device_step (Dev_close, ok) d = Absent"
| "device_step (c, ok) d = d"

definition device_of :: "dev_log \<Rightarrow> device" where
  "device_of l = fold device_step l Absent"

text \<open>Whether a command may follow a log: an event needs a live device, and a key event a key that
  the device has, unless the kernel had refused that key or the code is not in the table.\<close>

fun event_ok :: "dev_log \<Rightarrow> dev_command \<Rightarrow> bool" where
  "event_ok l (Write_key u v) =
     (case device_of l of
        Live K \<Rightarrow> u \<in> set K \<or> u = KEY_INVALID \<or> (Set_keybit u, False) \<in> set l
      | _ \<Rightarrow> False)"
| "event_ok l (Write_scan c) = (case device_of l of Live K \<Rightarrow> True | _ \<Rightarrow> False)"
| "event_ok l Write_syn = (case device_of l of Live K \<Rightarrow> True | _ \<Rightarrow> False)"
| "event_ok l c = True"

fun log_ok :: "dev_log \<Rightarrow> dev_log \<Rightarrow> bool" where
  "log_ok pre [] = True"
| "log_ok pre (x # xs) = (event_ok pre (fst x) \<and> log_ok (pre @ [x]) xs)"

section \<open>Lemmas\<close>

lemma log_ok_append [simp]: "log_ok pre (xs @ ys) = (log_ok pre xs \<and> log_ok (pre @ xs) ys)"
  by (induction xs arbitrary: pre) simp_all

lemma device_of_append [simp]: "device_of (l @ xs) = fold device_step xs (device_of l)"
  by (simp add: device_of_def)

text \<open>The keys of a table; those that a device has or that the kernel refused.\<close>

definition table_codes :: "key_table \<Rightarrow> string set" where
  "table_codes table = (\<Union>(i, u, mo)\<in>set table. {u, mo}) - {KEY_INVALID}"

definition has_keys :: "string set \<Rightarrow> string list \<Rightarrow> dev_log \<Rightarrow> bool" where
  "has_keys U K l = (\<forall>u\<in>U. u \<in> set K \<or> u = KEY_INVALID \<or> (Set_keybit u, False) \<in> set l)"

definition uinput_inv :: "key_table \<Rightarrow> uinput_state \<Rightarrow> bool" where
  "uinput_inv table s =
     (log_ok [] (dev_log s)
      \<and> (devFd_open s \<longrightarrow> (\<exists>K. device_of (dev_log s) = Live K \<and> has_keys (table_codes table) K (dev_log s))))"

lemma has_keys_snoc: "has_keys U K l \<Longrightarrow> has_keys U K (l @ [x])"
  by (auto simp: has_keys_def)

lemma close_device_ok: "log_ok [] l \<Longrightarrow> log_ok [] (close_device k l)"
  by (simp add: close_device_def send_def)

lemma uinput_term_inv: "uinput_inv table s \<Longrightarrow> uinput_inv table (uinput_term k s)"
  by (simp add: uinput_inv_def uinput_term_def close_device_ok)

text \<open>A command that is neither an event nor changes the device.\<close>

lemma send_setup:
  assumes "send k c l = (ok, l')" and "log_ok [] l" and "device_of l = Configured K"
    and "c \<in> {Set_evbit t, Set_mscbit t, Dev_setup t}"
  shows "log_ok [] l' \<and> device_of l' = Configured K \<and> set l \<subseteq> set l'"
  using assms by (auto simp: send_def)

lemma add_event_types_ok:
  assumes "add_event_types skq k l = (ret, l')" and "log_ok [] l" and "device_of l = Configured K"
  shows "log_ok [] l' \<and> device_of l' = Configured K"
  using assms by (auto simp: add_event_types_def send_def split: if_splits)

lemma send_keybit:
  assumes "send k (Set_keybit u) l = (ok, l')" and "log_ok [] l" and "device_of l = Configured K"
    and "has_keys U K l"
  shows "\<exists>K'. log_ok [] l' \<and> device_of l' = Configured K' \<and> has_keys (insert u U) K' l'"
  using assms by (auto simp: send_def has_keys_def)

lemma add_keycodes_ok:
  assumes "log_ok [] l" and "device_of l = Configured K" and "has_keys U K l"
    and "add_keycodes ks k (ret, l) = (ret', l')"
  shows "\<exists>K'. log_ok [] l' \<and> device_of l' = Configured K' \<and> has_keys (U \<union> table_codes ks) K' l'"
  using assms
proof (induction ks arbitrary: ret l K U)
  case Nil
  then show ?case by (auto simp: table_codes_def)
next
  case (Cons x ks)
  obtain i u mo where x: "x = (i, u, mo)" by (cases x)
  obtain r1 l1 where s1: "send k (Set_keybit u) l = (r1, l1)" by fastforce
  from send_keybit [OF s1 Cons.prems(1-3)] obtain K1 where
    K1: "log_ok [] l1" "device_of l1 = Configured K1" "has_keys (insert u U) K1 l1" by blast
  have codes: "U \<union> table_codes (x # ks) \<subseteq> insert mo (insert u U) \<union> table_codes ks"
    by (auto simp: table_codes_def x)
  obtain r2 l2 where s2: "(if mo \<noteq> KEY_INVALID then send k (Set_keybit mo) l1 else (r1, l1)) = (r2, l2)"
    by fastforce
  have "\<exists>K2. log_ok [] l2 \<and> device_of l2 = Configured K2 \<and> has_keys (insert mo (insert u U)) K2 l2"
  proof (cases "mo = KEY_INVALID")
    case True
    with K1 s2 show ?thesis by (auto simp: has_keys_def)
  next
    case False
    with s2 have "send k (Set_keybit mo) l1 = (r2, l2)" by simp
    from send_keybit [OF this K1] show ?thesis .
  qed
  then obtain K2 where K2: "log_ok [] l2" "device_of l2 = Configured K2" "has_keys (insert mo (insert u U)) K2 l2"
    by blast
  from Cons.prems(4) have "add_keycodes ks k (r2, l2) = (ret', l')" by (simp add: x s1 s2)
  from Cons.IH [OF K2 this] codes show ?case by (auto simp: has_keys_def)
qed

lemma init_inv:
  assumes "uinput_inv table s"
  shows "uinput_inv table (UINPUT_init_src table skq src k s)"
proof -
  have l0: "log_ok [] (dev_log s)" using assms by (simp add: uinput_inv_def)
  define l1 where "l1 = dev_log s @ [(Dev_open, True)]"
  have l1: "log_ok [] l1" "device_of l1 = Configured []" by (simp_all add: l1_def l0)
  show ?thesis
  proof (cases "k (dev_log s) Dev_open")
    case False
    then show ?thesis using l0 by (simp add: UINPUT_init_src_def send_def uinput_inv_def)
  next
    case True
    then have o1: "send k Dev_open (dev_log s) = (True, l1)" by (simp add: send_def l1_def)
    obtain r2 l2 where s2: "add_event_types skq k l1 = (r2, l2)" by fastforce
    note l2 = add_event_types_ok [OF s2 l1]
    obtain r3 l3 where s3: "(if r2 then add_keycodes table k (r2, l2) else (r2, l2)) = (r3, l3)" by fastforce
    have "\<exists>K. log_ok [] l3 \<and> device_of l3 = Configured K \<and> (r3 \<longrightarrow> has_keys (table_codes table) K l3)"
    proof (cases r2)
      case True
      have "has_keys {} [] l2" by (simp add: has_keys_def)
      from add_keycodes_ok [OF conjunct1 [OF l2] conjunct2 [OF l2] this, of table k r2 r3 l3] s3 True
      show ?thesis by auto
    qed (use s3 l2 in auto)
    then obtain K where l3: "log_ok [] l3" "device_of l3 = Configured K" "r3 \<Longrightarrow> has_keys (table_codes table) K l3"
      by blast
    let ?fin = "(let (ret, l) = (if r3 then send k (Dev_setup (setup_name skq src)) l3 else (r3, l3));
                   (ret, l) = (if ret then send k Dev_create l else (ret, l))
               in if \<not> ret then \<lparr>devFd_open = False, dev_log = close_device k l\<rparr>
                  else \<lparr>devFd_open = True, dev_log = l\<rparr>)"
    have "uinput_inv table ?fin"
      using l3 by (auto simp: uinput_inv_def send_def Let_def close_device_ok has_keys_def)
    then show ?thesis by (simp add: UINPUT_init_src_def o1 s2 s3)
  qed
qed

lemma write_inv:
  assumes "write_event k c s = (ok, s')" and "uinput_inv table s"
    and "devFd_open s \<Longrightarrow> event_ok (dev_log s) c" and "c \<in> {Write_key u v, Write_scan z, Write_syn}"
  shows "uinput_inv table s'"
  using assms by (auto simp: write_event_def send_def uinput_inv_def has_keys_def split: if_splits)

lemma write_key_and_syn_inv:
  assumes "uinput_inv table s" and "u \<in> table_codes table \<or> u = KEY_INVALID"
  shows "uinput_inv table (write_key_and_syn k u v s)"
proof -
  obtain ok s1 where w: "write_event k (Write_key u v) s = (ok, s1)" by fastforce
  have i1: "uinput_inv table s1"
    by (rule write_inv [OF w assms(1), where u = u and v = v])
      (use assms in \<open>auto simp: uinput_inv_def has_keys_def\<close>)
  obtain ok2 s2 where w2: "write_event k Write_syn s1 = (ok2, s2)" by fastforce
  have "uinput_inv table s2"
    by (rule write_inv [OF w2 i1]) (use i1 in \<open>auto simp: uinput_inv_def\<close>)
  then show ?thesis by (simp add: write_key_and_syn_def w w2 uinput_term_inv [OF i1])
qed

lemma uinput_send_inv:
  assumes "uinput_inv table s" and "u \<in> table_codes table \<or> u = KEY_INVALID"
  shows "uinput_inv table (uinput_send k scan u v s)"
proof (cases scan)
  case None
  then show ?thesis using write_key_and_syn_inv [OF assms] by (simp add: uinput_send_def)
next
  case (Some c)
  obtain ok s1 where w: "write_event k (Write_scan c) s = (ok, s1)" by fastforce
  have i1: "uinput_inv table s1"
    by (rule write_inv [OF w assms(1)]) (use assms(1) in \<open>auto simp: uinput_inv_def\<close>)
  show ?thesis
    using write_key_and_syn_inv [OF i1 assms(2)] uinput_term_inv [OF i1] by (simp add: uinput_send_def Some w)
qed

lemma lookup_key_codes:
  assumes "lookup_key table kc = (u, mo)"
  shows "(u \<in> table_codes table \<or> u = KEY_INVALID) \<and> (mo \<in> table_codes table \<or> mo = KEY_INVALID)"
proof -
  have "find_key table kc = Some p \<Longrightarrow> (\<exists>i. (i, p) \<in> set table)" for p
    by (induction table kc rule: find_key.induct) (auto split: if_splits)
  with assms show ?thesis unfolding lookup_key_def table_codes_def by (fastforce split: option.splits)
qed

lemma dispatch_inv:
  assumes "uinput_inv table s"
  shows "uinput_inv table (uinput_dispatch table k scan kc kt s)"
proof -
  obtain u mo where l: "lookup_key table kc = (u, mo)" by fastforce
  have "uinput_inv table (uinput_send k scan u v t)" "uinput_inv table (uinput_send k scan mo v t)"
    if "uinput_inv table t" for v t
    using lookup_key_codes [OF l] uinput_send_inv [OF that] by blast+
  then show ?thesis using assms by (simp add: uinput_dispatch_def l Let_def)
qed

lemma uinput_run_inv:
  assumes "uinput_inv table s"
  shows "uinput_inv table (uinput_run table skq k ops s)"
proof -
  have "uinput_inv table (uinput_step table skq k op s)" if "uinput_inv table s" for op s
    using that by (cases op) (simp_all add: init_inv dispatch_inv uinput_term_inv)
  then show ?thesis using assms unfolding uinput_run_def by (induction ops arbitrary: s) auto
qed

section \<open>Properties\<close>

text \<open>C29. The injected keyboard keeps the protocol of its device.  Whatever the kernel answers, and
  whatever is asked in whatever order (set-up, key events with or without a scan code, the end), an
  event is only sent to a device that has been created and not been destroyed; a key event carries
  a key that the device has, or one that the kernel had refused, or KEY\_RESERVED for a code that
  is not in the table; and a dispatcher is only given out while there is such a device.\<close>

theorem events_reach_a_live_device:
  "let s = uinput_run (build_table skq) skq k ops uinput_boot
   in log_ok [] (dev_log s) \<and> (if UINPUT_GetDispatcher s then \<exists>K. device_of (dev_log s) = Live K else True)"
proof -
  have "uinput_inv (build_table skq) uinput_boot" by (simp add: uinput_inv_def uinput_boot_def)
  from uinput_run_inv [OF this, of skq k ops] show ?thesis
    unfolding Let_def UINPUT_GetDispatcher_def uinput_inv_def by auto
qed

text \<open>Only the last answer of the set-up counts: a device is created, and keys are sent to it, although
  the kernel refused its first key.\<close>

lemma refused_key_is_ignored:
  "\<exists>k s K. s = uinput_run [(1, ''KEY_A'', KEY_INVALID), (2, ''KEY_B'', KEY_INVALID)] False k
          [Init SRC_IRMGR, Dispatch None 1 KET_KEYDOWN] uinput_boot
     \<and> device_of (dev_log s) = Live K \<and> ''KEY_A'' \<notin> set K \<and> (Write_key ''KEY_A'' 1, True) \<in> set (dev_log s)"
  by (rule exI [of _ "\<lambda>l c. c \<noteq> Set_keybit ''KEY_A''"])
    (simp add: uinput_run_def UINPUT_init_src_def uinput_boot_def send_def add_event_types_def
      uinput_dispatch_def lookup_key_def getKeyValue_def uinput_send_def write_key_and_syn_def write_event_def
      device_of_def)

end
