(* ===== verification/Mfr_Crypto.thy ===== *)
theory Mfr_Crypto
  imports Iarm_Prelude
begin

unbundle bit_operations_syntax

text \<open>
  The encryption of serialized data: mfr/common/cryptolib/mfrCrypto.c.  The key is derived from the
  serial number of the box; the data are padded with zeros to blocks of 16 bytes and chained by the
  block function of OpenSSL, AES\_cbc\_encrypt, which belongs to another repository: it is the
  argument aes, called with one block, and gives the new block and the new vector.
  mfrCrypto\_init keeps the pointer of its caller, so the buffers are in an explicit heap: a read of
  a freed buffer, or of no buffer, is undefined (None).  Buffers are shorter than 2147483632 bytes,
  so that the int lengths of the code do not wrap.
\<close>

section \<open>State\<close>

type_synonym byte_list = "8 word list"

text \<open>The heap: the live buffers, by address.  serialNumber: the address and the length that were
  given at the initialisation.\<close>

type_synonym heap = "nat \<Rightarrow> byte_list option"

record crypto_state =
  serialNumber :: "(nat \<times> nat) option"

definition crypto_boot :: crypto_state where
  "crypto_boot = \<lparr>serialNumber = None\<rparr>"

datatype crypto_error = CRYPTO_NONE | CRYPTO_GENERAL | CRYPTO_INVALID_PARAM

definition KEY_LENGTH :: nat where "KEY_LENGTH = 16"

definition refkey :: byte_list where
  "refkey = [0xD6, 0xC1, 0x5C, 0x1E, 0x1D, 0x64, 0x2D, 0x44, 0x68, 0x5C, 0xCE, 0xA0, 0x8D, 0x9F, 0x85, 0xCB]"

definition digkey :: byte_list where
  "digkey = [0x2D, 0x6C, 0x1B, 0xFB, 0x7B, 0x86, 0x87, 0x35, 0xD0, 0x81, 0xD9, 0x6D, 0x25, 0x2B, 0xFB, 0xF1]"

text \<open>The pointer to the serial number, the pointer in it (None: null), and its length.\<close>

definition mfrCrypto_init :: "(nat option \<times> nat) option \<Rightarrow> crypto_state \<Rightarrow> crypto_error \<times> crypto_state" where
  "mfrCrypto_init arg s = (case arg of
       None \<Rightarrow> (CRYPTO_INVALID_PARAM, s)
     | Some (None, len) \<Rightarrow> (CRYPTO_INVALID_PARAM, s)
     | Some (Some a, len) \<Rightarrow>
         if len = 0 then (CRYPTO_INVALID_PARAM, s)
         else (CRYPTO_NONE, s\<lparr>serialNumber := Some (a, len)\<rparr>))"

section \<open>The key\<close>

text \<open>One byte of the key: rotated within the serial number, zero replaced, every second repetition
  inverted.\<close>

definition key_byte :: "byte_list \<Rightarrow> nat \<Rightarrow> bool \<Rightarrow> nat \<Rightarrow> 8 word" where
  "key_byte buf keylen k j =
     (let ix = (j + 7) mod keylen; ir = (j + 3) mod KEY_LENGTH;
          cSN = (if buf ! ix = 0 then refkey ! ir else buf ! ix)
      in if k then cSN XOR 0xFF else cSN)"

definition key_row :: "byte_list \<Rightarrow> nat \<Rightarrow> nat \<Rightarrow> bool \<Rightarrow> byte_list \<Rightarrow> byte_list" where
  "key_row buf keylen i k nk =
     fold (\<lambda>j nk. nk[i + j := key_byte buf keylen k j]) (filter (\<lambda>j. j + i < KEY_LENGTH) [0..<keylen]) nk"

function key_rows :: "byte_list \<Rightarrow> nat \<Rightarrow> nat \<Rightarrow> bool \<Rightarrow> byte_list \<Rightarrow> byte_list" where
  "key_rows buf keylen i k nk =
     (if i < KEY_LENGTH \<and> 0 < keylen
      then key_rows buf keylen (i + keylen) (\<not> k) (key_row buf keylen i k nk) else nk)"
  by pat_completeness auto
termination by (relation "measure (\<lambda>(buf, keylen, i, k, nk). KEY_LENGTH - i)") auto

declare key_rows.simps [simp del]

definition key_len :: "nat \<Rightarrow> nat" where
  "key_len len = (if len > KEY_LENGTH then KEY_LENGTH else if len = 0 then 1 else len)"

definition normalized_key :: "nat \<Rightarrow> byte_list \<Rightarrow> byte_list" where
  "normalized_key keylen buf = key_rows buf keylen 0 False (replicate KEY_LENGTH 0)"

definition digest_key :: "nat \<Rightarrow> byte_list \<Rightarrow> byte_list" where
  "digest_key keylen buf =
     (let base = take keylen buf @ replicate (KEY_LENGTH - keylen) 0
      in map (\<lambda>i. base ! i + (digkey ! i + refkey ! i)) [0..<KEY_LENGTH])"

type_synonym block_cipher = "bool \<Rightarrow> byte_list \<Rightarrow> byte_list \<Rightarrow> byte_list \<Rightarrow> byte_list \<times> byte_list"

text \<open>mfr\_create\_key: the key and the first vector, or None where the serial number is not there or
  too short.\<close>

definition mfr_create_key :: "block_cipher \<Rightarrow> heap \<Rightarrow> crypto_state \<Rightarrow> (byte_list \<times> byte_list) option" where
  "mfr_create_key aes h s = (case serialNumber s of
       None \<Rightarrow> None
     | Some (a, len) \<Rightarrow> (case h a of
         None \<Rightarrow> None
       | Some buf \<Rightarrow>
           if length buf < key_len len then None
           else (let digest = digest_key (key_len len) buf;
                     (keybuf, iv) = aes True digest (replicate KEY_LENGTH 0) (normalized_key (key_len len) buf);
                     (ivec, iv) = aes True digest iv keybuf
                 in Some (keybuf, ivec))))"

section \<open>Encryption and decryption\<close>

text \<open>The loop over the blocks.\<close>

function cbc_loop :: "block_cipher \<Rightarrow> bool \<Rightarrow> byte_list \<Rightarrow> byte_list \<Rightarrow> byte_list \<Rightarrow> byte_list" where
  "cbc_loop aes enc key iv data =
     (if data = [] then []
      else (let (out, iv') = aes enc key iv (take KEY_LENGTH data)
            in out @ cbc_loop aes enc key iv' (drop KEY_LENGTH data)))"
  by pat_completeness auto
termination by (relation "measure (\<lambda>(aes, enc, key, iv, data). length data)") (auto simp: KEY_LENGTH_def)

declare cbc_loop.simps [simp del]

definition padded :: "byte_list \<Rightarrow> byte_list" where
  "padded data =
     (if length data mod KEY_LENGTH \<noteq> 0
      then data @ replicate ((length data div KEY_LENGTH + 1) * KEY_LENGTH - length data) 0 else data)"

text \<open>mfrCrypto\_Encrypt (True) and mfrCrypto\_Decrypt (False), the same code but for the direction.
  The input is a buffer or a null pointer; the two calls of malloc may fail.  The answer is the
  error and the output buffer, None where the key is undefined.\<close>

definition mfrCrypto ::
    "block_cipher \<Rightarrow> heap \<Rightarrow> bool \<Rightarrow> bool \<Rightarrow> bool \<Rightarrow> byte_list option \<Rightarrow> crypto_state \<Rightarrow>
       (crypto_error \<times> byte_list option) option" where
  "mfrCrypto aes h malloc1 malloc2 enc input s = (case input of
       None \<Rightarrow> Some (CRYPTO_INVALID_PARAM, None)
     | Some data \<Rightarrow>
         if length data mod KEY_LENGTH \<noteq> 0 \<and> \<not> malloc1 then Some (CRYPTO_GENERAL, None)
         else if \<not> malloc2 then Some (CRYPTO_GENERAL, None)
         else (case mfr_create_key aes h s of
                 None \<Rightarrow> None
               | Some (key, iv) \<Rightarrow> Some (CRYPTO_NONE, Some (cbc_loop aes enc key iv (padded data)))))"

definition mfrCrypto_Encrypt where "mfrCrypto_Encrypt aes h m1 m2 = mfrCrypto aes h m1 m2 True"
definition mfrCrypto_Decrypt where "mfrCrypto_Decrypt aes h m1 m2 = mfrCrypto aes h m1 m2 False"

section \<open>The library\<close>

text \<open>What OpenSSL documents of AES\_cbc\_encrypt on one block: blocks and vectors of 16 bytes, and
  decryption with the same key and vector gives the block back and the same next vector.\<close>

definition cbc_library :: "block_cipher \<Rightarrow> bool" where
  "cbc_library aes = (\<forall>key iv b. length key = KEY_LENGTH \<and> length iv = KEY_LENGTH \<and> length b = KEY_LENGTH \<longrightarrow>
     (let (c, iv') = aes True key iv b
      in length c = KEY_LENGTH \<and> length iv' = KEY_LENGTH \<and> aes False key iv c = (b, iv')))"

lemma cbc_libraryD:
  assumes "cbc_library aes" and "length key = KEY_LENGTH" and "length iv = KEY_LENGTH" and "length b = KEY_LENGTH"
  shows "length (fst (aes True key iv b)) = KEY_LENGTH \<and> length (snd (aes True key iv b)) = KEY_LENGTH
    \<and> aes False key iv (fst (aes True key iv b)) = (b, snd (aes True key iv b))"
  using assms unfolding cbc_library_def by (simp add: case_prod_beta Let_def)

lemma blocks_roundtrip:
  assumes "cbc_library aes" and "length key = KEY_LENGTH"
    and "length iv = KEY_LENGTH" and "length data = n * KEY_LENGTH"
  shows "length (cbc_loop aes True key iv data) = length data
    \<and> cbc_loop aes False key iv (cbc_loop aes True key iv data) = data"
  using assms(3,4)
proof (induction n arbitrary: iv data)
  case 0
  then show ?case by (simp add: cbc_loop.simps)
next
  case (Suc n)
  let ?b = "take KEY_LENGTH data" and ?rest = "drop KEY_LENGTH data"
  have b: "length ?b = KEY_LENGTH" "length ?rest = n * KEY_LENGTH" "data \<noteq> []"
    using Suc.prems(2) by (auto simp: KEY_LENGTH_def)
  obtain c iv' where c: "aes True key iv ?b = (c, iv')" by fastforce
  with cbc_libraryD [OF assms(1,2) Suc.prems(1) b(1)] have
    l: "length c = KEY_LENGTH" "length iv' = KEY_LENGTH" "aes False key iv c = (?b, iv')" by simp_all
  note IH = Suc.IH [OF l(2) b(2)]
  have e: "cbc_loop aes True key iv data = c @ cbc_loop aes True key iv' ?rest"
    using b(3) by (subst cbc_loop.simps) (simp add: c)
  have ne: "c \<noteq> []" using l(1) by (auto simp: KEY_LENGTH_def)
  have "cbc_loop aes False key iv (c @ cbc_loop aes True key iv' ?rest) = ?b @ ?rest"
    using IH l(1,3) ne by (subst cbc_loop.simps) simp
  then show ?case using IH l(1) b Suc.prems(2) unfolding e by simp
qed

lemma length_padded: "\<exists>n. length (padded data) = n * KEY_LENGTH"
proof (cases "length data mod KEY_LENGTH = 0")
  case True
  then show ?thesis by (auto simp: padded_def mult.commute dvd_def)
next
  case False
  have "length data < (length data div KEY_LENGTH + 1) * KEY_LENGTH"
    by (metis False Suc_eq_plus1 div_less_iff_less_mult lessI mod_by_0 neq0_conv KEY_LENGTH_def zero_less_numeral)
  then show ?thesis using False by (intro exI [of _ "length data div KEY_LENGTH + 1"]) (simp add: padded_def)
qed

lemma padded_padded: "length data = n * KEY_LENGTH \<Longrightarrow> padded data = data"
  by (simp add: padded_def)

section \<open>The key, in closed form\<close>

lemma length_key_row [simp]: "length (key_row buf keylen i k nk) = length nk"
proof -
  have "length (fold (\<lambda>j nk. nk[i + j := key_byte buf keylen k j]) js nk) = length nk" for js
    by (induction js arbitrary: nk) simp_all
  then show ?thesis by (simp add: key_row_def)
qed

lemma nth_key_row:
  assumes "length nk = KEY_LENGTH" and "n < KEY_LENGTH"
  shows "key_row buf keylen i k nk ! n =
    (if i \<le> n \<and> n < i + keylen then key_byte buf keylen k (n - i) else nk ! n)"
proof -
  have "distinct js \<Longrightarrow> (fold (\<lambda>j nk. nk[i + j := key_byte buf keylen k j]) js nk) ! n =
      (if i \<le> n \<and> n - i \<in> set js then key_byte buf keylen k (n - i) else nk ! n)" for js
    using assms
  proof (induction js arbitrary: nk)
    case (Cons j js)
    then have "(fold (\<lambda>j nk. nk[i + j := key_byte buf keylen k j]) js (nk[i + j := key_byte buf keylen k j])) ! n =
      (if i \<le> n \<and> n - i \<in> set js then key_byte buf keylen k (n - i) else nk[i + j := key_byte buf keylen k j] ! n)"
      by simp
    then show ?case using Cons.prems by (auto simp: nth_list_update)
  qed simp
  from this [of "filter (\<lambda>j. j + i < KEY_LENGTH) [0..<keylen]"] show ?thesis
    using assms(2) by (auto simp: key_row_def)
qed

lemma nth_key_rows:
  assumes "0 < keylen" and "length nk = KEY_LENGTH" and "n < KEY_LENGTH"
  shows "length (key_rows buf keylen (r * keylen) k nk) = KEY_LENGTH \<and>
    key_rows buf keylen (r * keylen) k nk ! n =
    (if r * keylen \<le> n then key_byte buf keylen (k = even (n div keylen - r)) (n mod keylen) else nk ! n)"
  using assms(2)
proof (induction "KEY_LENGTH - r * keylen" arbitrary: r k nk rule: less_induct)
  case less
  show ?case
  proof (cases "r * keylen < KEY_LENGTH")
    case False
    then show ?thesis using assms(3) less.prems by (subst key_rows.simps, subst key_rows.simps) auto
  next
    case True
    let ?nk = "key_row buf keylen (r * keylen) k nk"
    have step: "key_rows buf keylen (r * keylen) k nk = key_rows buf keylen (Suc r * keylen) (\<not> k) ?nk"
      using True assms(1) by (subst key_rows.simps) (simp add: add.commute)
    have m: "KEY_LENGTH - Suc r * keylen < KEY_LENGTH - r * keylen" using True assms(1) by simp
    have IH: "length (key_rows buf keylen (Suc r * keylen) (\<not> k) ?nk) = KEY_LENGTH"
      "key_rows buf keylen (Suc r * keylen) (\<not> k) ?nk ! n =
       (if Suc r * keylen \<le> n then key_byte buf keylen ((\<not> k) = even (n div keylen - Suc r)) (n mod keylen)
        else ?nk ! n)"
      using less.hyps [OF m, of ?nk "\<not> k"] less.prems by simp_all
    show ?thesis
    proof (cases "Suc r * keylen \<le> n")
      case True
      then have "Suc r \<le> n div keylen" using assms(1) by (simp add: less_eq_div_iff_mult_less_eq)
      then have "n div keylen - r = Suc (n div keylen - Suc r)" by simp
      then have "((\<not> k) = even (n div keylen - Suc r)) = (k = even (n div keylen - r))" by (metis even_Suc)
      then show ?thesis using IH True by (simp add: step del: even_diff_nat)
    next
      case False
      have "r * keylen \<le> n \<Longrightarrow> n div keylen = r \<and> n mod keylen = n - r * keylen"
        using False assms(1) by (metis add.commute div_nat_eqI le_add_diff_inverse minus_mult_div_eq_mod
            mult.commute mult_Suc not_le)
      then show ?thesis using IH False nth_key_row [OF less.prems assms(3), of buf keylen "r * keylen" k]
        by (auto simp: step not_le)
    qed
  qed
qed

lemma normalized_key_nth:
  assumes "0 < keylen" and "n < KEY_LENGTH"
  shows "length (normalized_key keylen buf) = KEY_LENGTH
    \<and> normalized_key keylen buf ! n = key_byte buf keylen (odd (n div keylen)) (n mod keylen)"
  using nth_key_rows [OF assms(1) _ assms(2), of "replicate KEY_LENGTH 0" buf 0 False]
  by (simp add: normalized_key_def)

lemma key_len_bounds: "0 < key_len len \<and> key_len len \<le> KEY_LENGTH"
  by (auto simp: key_len_def KEY_LENGTH_def)

lemma create_key_lengths:
  assumes "cbc_library aes" and "mfr_create_key aes h s = Some (key, iv)"
  shows "length key = KEY_LENGTH \<and> length iv = KEY_LENGTH"
proof -
  from assms(2) obtain a len buf where b: "serialNumber s = Some (a, len)" "h a = Some buf" "key_len len \<le> length buf"
    by (auto simp: mfr_create_key_def split: option.splits prod.splits if_splits)
  let ?d = "digest_key (key_len len) buf" and ?n = "normalized_key (key_len len) buf"
  have d: "length ?d = KEY_LENGTH" by (simp add: digest_key_def Let_def)
  have n: "length ?n = KEY_LENGTH" using normalized_key_nth [of "key_len len" 0 buf] key_len_bounds
    by (simp add: KEY_LENGTH_def)
  obtain k1 iv1 where 1: "aes True ?d (replicate KEY_LENGTH 0) ?n = (k1, iv1)" by fastforce
  have l1: "length k1 = KEY_LENGTH" "length iv1 = KEY_LENGTH"
    using cbc_libraryD [OF assms(1) d _ n, of "replicate KEY_LENGTH 0"] by (simp_all add: 1)
  obtain k2 iv2 where 2: "aes True ?d iv1 k1 = (k2, iv2)" by fastforce
  have "length k2 = KEY_LENGTH" using cbc_libraryD [OF assms(1) d l1(2,1)] by (simp add: 2)
  then show ?thesis using assms(2) b l1 by (simp add: mfr_create_key_def Let_def 1 2)
qed

text \<open>The key depends on the first 16 bytes of the serial number only.\<close>

lemma key_of_prefix:
  assumes "KEY_LENGTH \<le> length buf" and "KEY_LENGTH \<le> length buf'" and "take KEY_LENGTH buf = take KEY_LENGTH buf'"
  shows "normalized_key KEY_LENGTH buf = normalized_key KEY_LENGTH buf'
    \<and> digest_key KEY_LENGTH buf = digest_key KEY_LENGTH buf'"
proof
  have b: "buf ! j = buf' ! j" if "j < KEY_LENGTH" for j using assms(3) that by (metis nth_take)
  have "key_byte buf KEY_LENGTH k j = key_byte buf' KEY_LENGTH k j" for k j
    using b [of "(j + 7) mod KEY_LENGTH"] by (simp add: key_byte_def Let_def KEY_LENGTH_def)
  have len: "length (normalized_key KEY_LENGTH x) = KEY_LENGTH" for x
    using normalized_key_nth [of KEY_LENGTH 0 x] by (simp add: KEY_LENGTH_def)
  then show "normalized_key KEY_LENGTH buf = normalized_key KEY_LENGTH buf'"
    using \<open>\<And>k j. key_byte buf KEY_LENGTH k j = key_byte buf' KEY_LENGTH k j\<close> by (intro nth_equalityI) (simp_all add: normalized_key_nth KEY_LENGTH_def)
  show "digest_key KEY_LENGTH buf = digest_key KEY_LENGTH buf'"
    using assms(3) by (simp add: digest_key_def)
qed

section \<open>Properties\<close>

text \<open>C26. Decryption gives the data back.  Let the crypto module be initialised with a serial number whose
  buffer is not changed between the two calls, and let no allocation fail.  Then the encryption of
  any data succeeds, the encrypted data are whole blocks, and their decryption succeeds with the
  data, filled up with zeros to whole blocks.  Assumed of OpenSSL: on one block, decryption with the
  same key and vector gives the block back.\<close>

theorem decryption_inverts_encryption:
  assumes "cbc_library aes" and "mfrCrypto_init (Some (Some a, len)) crypto_boot = (CRYPTO_NONE, s)"
    and "h a = Some buf" and "h' a = Some buf" and "len \<le> length buf"
  shows "\<exists>c n. mfrCrypto_Encrypt aes h True True (Some data) s = Some (CRYPTO_NONE, Some c)
    \<and> length c = n * KEY_LENGTH \<and> length data \<le> length c
    \<and> mfrCrypto_Decrypt aes h' True True (Some c) s = Some (CRYPTO_NONE, Some (data @ replicate (length c - length data) 0))"
proof -
  have s: "serialNumber s = Some (a, len)" "0 < len"
    using assms(2) by (auto simp: mfrCrypto_init_def split: if_splits)
  have fit: "\<not> length buf < key_len len" using assms(5) s(2) by (auto simp: key_len_def)
  have same: "mfr_create_key aes h' s = mfr_create_key aes h s"
    by (simp add: mfr_create_key_def s assms(3,4))
  have "mfr_create_key aes h s \<noteq> None"
    using fit by (simp add: mfr_create_key_def s assms(3) Let_def split: prod.splits)
  then obtain key iv where key: "mfr_create_key aes h s = Some (key, iv)" by auto
  obtain n where n: "length (padded data) = n * KEY_LENGTH" using length_padded by blast
  let ?c = "cbc_loop aes True key iv (padded data)"
  from create_key_lengths [OF assms(1) key] have
    rt: "length ?c = n * KEY_LENGTH" "cbc_loop aes False key iv ?c = padded data"
    using blocks_roundtrip [OF assms(1) _ _ n, of key iv] n by simp_all
  have pad: "padded data = data @ replicate (length ?c - length data) 0 \<and> length data \<le> length ?c"
    using n rt(1) by (auto simp: padded_def split: if_splits)
  have "mfrCrypto_Encrypt aes h True True (Some data) s = Some (CRYPTO_NONE, Some ?c)"
    by (simp add: mfrCrypto_Encrypt_def mfrCrypto_def key)
  moreover have "mfrCrypto_Decrypt aes h' True True (Some ?c) s = Some (CRYPTO_NONE, Some (padded data))"
    by (simp add: mfrCrypto_Decrypt_def mfrCrypto_def same key padded_padded [OF rt(1)] rt(2))
  ultimately show ?thesis using pad rt(1) by metis
qed

text \<open>The module keeps the pointer: once the caller has freed the buffer, the key is undefined, and a
  module that was never initialised has none.\<close>

lemma freed_serial_number_faults:
  assumes "mfrCrypto_init (Some (Some a, len)) s0 = (CRYPTO_NONE, s)" and "h a = None"
  shows "mfrCrypto_Encrypt aes h True True (Some data) s = None"
  using assms by (auto simp: mfrCrypto_init_def mfrCrypto_Encrypt_def mfrCrypto_def mfr_create_key_def split: if_splits)

lemma uninitialised_crypto_faults:
  "mfrCrypto_Encrypt aes h True True (Some data) crypto_boot = None"
  by (simp add: mfrCrypto_Encrypt_def mfrCrypto_def mfr_create_key_def crypto_boot_def)

section \<open>An example\<close>

text \<open>Chained exclusive or as a block function.\<close>

definition xor_cipher :: block_cipher where
  "xor_cipher enc key iv b =
     (let out = map2 (XOR) (map2 (XOR) b key) iv in (out, if enc then out else b))"

lemma xor_cipher_library: "cbc_library xor_cipher"
proof -
  have "map2 (XOR) (map2 (XOR) (map2 (XOR) (map2 (XOR) b key) iv) key) iv = b"
    if "length key = KEY_LENGTH" "length iv = KEY_LENGTH" "length b = KEY_LENGTH" for key iv b :: byte_list
  proof (rule nth_equalityI)
    fix i assume i: "i < length (map2 (XOR) (map2 (XOR) (map2 (XOR) (map2 (XOR) b key) iv) key) iv)"
    have "(((x XOR k) XOR v) XOR k) XOR v = x" for x k v :: "8 word"
      by (rule bit_word_eqI) (auto simp: bit_simps)
    then show "map2 (XOR) (map2 (XOR) (map2 (XOR) (map2 (XOR) b key) iv) key) iv ! i = b ! i"
      using i that by simp
  qed (use that in simp)
  then show ?thesis by (simp add: cbc_library_def xor_cipher_def Let_def)
qed

text \<open>The serial number 1, 2, 3 at address 7, and five bytes of data.\<close>

theorem decryption_inverts_encryption_witness:
  "let h = (\<lambda>a. if a = 7 then Some [1, 2, 3] else None); data = [10, 20, 30, 40, 50];
       s = snd (mfrCrypto_init (Some (Some 7, 3)) crypto_boot)
   in \<exists>c. mfrCrypto_Encrypt xor_cipher h True True (Some data) s = Some (CRYPTO_NONE, Some c)
        \<and> mfrCrypto_Decrypt xor_cipher h True True (Some c) s
            = Some (CRYPTO_NONE, Some (data @ replicate (length c - length data) 0))"
proof -
  let ?h = "\<lambda>a::nat. if a = 7 then Some [1, 2, 3 :: 8 word] else None"
  let ?s = "snd (mfrCrypto_init (Some (Some 7, 3)) crypto_boot)"
  have i: "mfrCrypto_init (Some (Some 7, 3)) crypto_boot = (CRYPTO_NONE, ?s)"
    by (simp add: mfrCrypto_init_def)
  show ?thesis unfolding Let_def
    using decryption_inverts_encryption [OF xor_cipher_library i, of ?h "[1, 2, 3]" ?h "[10, 20, 30, 40, 50]"]
    by auto
qed

end
