(* ===== verification/Mfr_Client.thy ===== *)
theory Mfr_Client
  imports Mfr_Manager
begin

text \<open>
  The client library of the manufacturer server: mfr/common/rpc/cli/mfrCli.c.  Each function fills a
  parameter, calls the server over the bus and turns the result into an error; the library keeps the
  notification of the last accepted image and one event handler.  The answer of the bus call is the
  world of a call.  The file has a spelling error (dat for data) and is read with the evident
  correction.  Texts and bounded copies are those of Mfr\_Manager; null where a text is required is
  not modelled.
\<close>

section \<open>Requests and answers\<close>

datatype client_request =
    Req_Init
  | Req_Shutdown
  | Req_GetSerializedData int string
  | Req_SetSerializedData int string string
  | Req_WriteImage string string int int
  | Req_SetImageWriteProgress string int int
  | Req_GetImageWriteProgress string int
  | Req_DeletePDRI
  | Req_ScrubAllBanks
  | Req_Reboot string
  | Req_SetCableCardType int
  | Req_SetHostFirmwareInfo string int int int
  | Req_GetBootImageName int int
  | Req_GetPathConfiguration int
  | Req_GetDFAST2Data "int list" "int list"

text \<open>The answer: the result of the call, and what the parameter holds afterwards (the bytes of its
  array, the length, the progress).  zero\_copy: whether memcpy\_s of the safe C library, which is not
  in the repository, accepts a copy of no bytes; its versions differ in that.\<close>

record answer =
  bus_result :: iarm_result
  ans_bytes :: string
  ans_len :: int
  ans_progress :: int
  zero_copy :: bool

record notify =
  notify_cb :: "nat option"
  notify_cbData :: nat
  notify_every :: int

record client_state =
  handler_registered :: bool
  cb_notify :: notify

definition client_boot :: client_state where
  "client_boot = \<lparr>handler_registered = False,
     cb_notify = \<lparr>notify_cb = None, notify_cbData = 0, notify_every = 0\<rparr>\<rparr>"

definition STR_SIZE :: nat where "STR_SIZE = 256"

definition error_of :: "iarm_result \<Rightarrow> mfrError" where
  "error_of r = (if r = IARM_RESULT_SUCCESS then mfrERR_NONE else mfrERR_GENERAL)"

section \<open>Start and end\<close>

text \<open>The event handler is registered where the call has failed.\<close>

definition cli_init :: "answer \<Rightarrow> client_state \<Rightarrow> mfrError \<times> client_state \<times> client_request list" where
  "cli_init a s =
     (if bus_result a = IARM_RESULT_SUCCESS then (mfrERR_NONE, s, [Req_Init])
      else (mfrERR_GENERAL, s\<lparr>handler_registered := True\<rparr>, [Req_Init]))"

definition cli_shutdown :: "answer \<Rightarrow> mfrError \<times> client_request list" where
  "cli_shutdown a = (error_of (bus_result a), [Req_Shutdown])"

section \<open>Serialized data\<close>

text \<open>The error and the data that the caller is given (None: no buffer, or one that is freed).  The data
  are copied whatever the result.  A copy to no buffer fails, and one of a negative length (as a size
  it is beyond every bound); one of no bytes fails or not by the version of memcpy\_s, and does not
  look at the buffer if it does not fail.  A length beyond the array of the parameter would be read
  past its end (None for the whole call).\<close>

definition cli_GetSerializedData ::
    "answer \<Rightarrow> bool \<Rightarrow> int \<Rightarrow> bool \<Rightarrow> (mfrError \<times> string option \<times> client_request list) option" where
  "cli_GetSerializedData a malloc_ok type crypto =
     (let req = Req_GetSerializedData type (if crypto then ''mfrCrypto_Encrypt'' else '''')
      in if ans_len a = 0
         then (if zero_copy a
               then Some (error_of (bus_result a), if malloc_ok then Some '''' else None, [req])
               else Some (mfrERR_GENERAL, None, [req]))
         else if \<not> malloc_ok \<or> ans_len a < 0 then Some (mfrERR_GENERAL, None, [req])
         else if ans_len a > int DATA_BUF then None
         else Some (error_of (bus_result a), Some (take (nat (ans_len a)) (ans_bytes a)), [req]))"

definition cli_SetSerializedData ::
    "answer \<Rightarrow> int \<Rightarrow> string option \<Rightarrow> bool \<Rightarrow> mfrError \<times> client_request list" where
  "cli_SetSerializedData a type data crypto = (case data of
       None \<Rightarrow> (mfrERR_GENERAL, [])
     | Some d \<Rightarrow>
         (error_of (bus_result a),
          [Req_SetSerializedData type (take (min (length d) DATA_BUF) d)
             (if crypto then ''mfrCrypto_Decrypt'' else '''')]))"

section \<open>Images\<close>

definition cli_WriteImage ::
    "answer \<Rightarrow> string \<Rightarrow> string \<Rightarrow> int \<Rightarrow> notify \<Rightarrow> client_state \<Rightarrow> mfrError \<times> client_state \<times> client_request list" where
  "cli_WriteImage a name path type notify s =
     (let (ok, name') = strcpy_to MAX_BUF name
      in if \<not> ok then (mfrERR_GENERAL, s, [])
         else (let (ok, path') = strcpy_to MAX_BUF path
               in if \<not> ok then (mfrERR_GENERAL, s, [])
                  else if bus_result a = IARM_RESULT_SUCCESS
                  then (mfrERR_NONE, s\<lparr>cb_notify := notify\<rparr>, [Req_WriteImage name' path' type (notify_every notify)])
                  else (mfrERR_GENERAL, s, [Req_WriteImage name' path' type (notify_every notify)])))"

definition cli_SetImageWriteProgress ::
    "answer \<Rightarrow> string \<Rightarrow> int \<Rightarrow> int \<Rightarrow> mfrError \<times> client_request list" where
  "cli_SetImageWriteProgress a name type prog =
     (let (ok, name') = strcpy_to MAX_BUF name
      in if \<not> ok then (mfrERR_GENERAL, [])
         else (error_of (bus_result a), [Req_SetImageWriteProgress name' type prog]))"

definition cli_GetImageWriteProgress ::
    "answer \<Rightarrow> string \<Rightarrow> int \<Rightarrow> mfrError \<times> int option \<times> client_request list" where
  "cli_GetImageWriteProgress a name type =
     (let (ok, name') = strcpy_to MAX_BUF name
      in if \<not> ok then (mfrERR_GENERAL, None, [])
         else (error_of (bus_result a),
               if bus_result a = IARM_RESULT_SUCCESS then Some (ans_progress a) else None,
               [Req_GetImageWriteProgress name' type]))"

section \<open>The other calls\<close>

definition cli_DeletePDRI :: "answer \<Rightarrow> mfrError \<times> client_request list" where
  "cli_DeletePDRI a = (error_of (bus_result a), [Req_DeletePDRI])"

definition cli_ScrubAllBanks :: "answer \<Rightarrow> mfrError \<times> client_request list" where
  "cli_ScrubAllBanks a = (error_of (bus_result a), [Req_ScrubAllBanks])"

definition cli_Reboot :: "answer \<Rightarrow> string \<Rightarrow> mfrError \<times> client_request list" where
  "cli_Reboot a name =
     (let (ok, name') = strcpy_to MAX_BUF name
      in if \<not> ok then (mfrERR_GENERAL, []) else (error_of (bus_result a), [Req_Reboot name']))"

definition cli_SetCableCardType :: "answer \<Rightarrow> int \<Rightarrow> mfrError \<times> client_request list" where
  "cli_SetCableCardType a type = (error_of (bus_result a), [Req_SetCableCardType type])"

definition cli_SetHostFirmwareInfo ::
    "answer \<Rightarrow> string \<Rightarrow> int \<Rightarrow> int \<Rightarrow> int \<Rightarrow> mfrError \<times> client_request list" where
  "cli_SetHostFirmwareInfo a version day month year =
     (let (ok, version') = strcpy_to STR_SIZE version
      in if \<not> ok then (mfrERR_GENERAL, [])
         else (error_of (bus_result a), [Req_SetHostFirmwareInfo version' day month year]))"

text \<open>A reply of a text with its length: the error, the length and the bytes that are written to the
  caller's buffer.  The bound of the copy is the array of the parameter, not the buffer of the
  caller.  A length that is longer or negative (as a size it is beyond the bound), and a length of 0
  if memcpy\_s refuses it, zero as many bytes as the bound.\<close>

definition copy_reply :: "nat \<Rightarrow> answer \<Rightarrow> mfrError \<times> int option \<times> string option" where
  "copy_reply bound a =
     (if bus_result a \<noteq> IARM_RESULT_SUCCESS then (mfrERR_GENERAL, None, None)
      else if ans_len a < 0 \<or> int bound < ans_len a \<or> ans_len a = 0 \<and> \<not> zero_copy a
      then (mfrERR_GENERAL, Some (ans_len a), Some (replicate bound (CHR 0x00)))
      else (mfrERR_NONE, Some (ans_len a), Some (take (nat (ans_len a)) (ans_bytes a))))"

definition cli_GetBootImageName ::
    "answer \<Rightarrow> int \<Rightarrow> int \<Rightarrow> mfrError \<times> int option \<times> string option \<times> client_request list" where
  "cli_GetBootImageName a inst type =
     (let (err, len, out) = copy_reply MAX_BUF a in (err, len, out, [Req_GetBootImageName inst type]))"

text \<open>Without a buffer for the path the length is given, but the call fails.\<close>

definition cli_GetPathConfiguration ::
    "answer \<Rightarrow> int \<Rightarrow> bool \<Rightarrow> mfrError \<times> int option \<times> string option \<times> client_request list" where
  "cli_GetPathConfiguration a type path =
     (if path
      then (let (err, len, out) = copy_reply STR_SIZE a in (err, len, out, [Req_GetPathConfiguration type]))
      else (mfrERR_GENERAL, if bus_result a = IARM_RESULT_SUCCESS then Some (ans_len a) else None, None,
            [Req_GetPathConfiguration type]))"

text \<open>The key of the reply is not copied back.\<close>

definition cli_GetDFAST2Data ::
    "answer \<Rightarrow> int list \<Rightarrow> int list \<Rightarrow> mfrError \<times> int list \<times> client_request list" where
  "cli_GetDFAST2Data a seedIn keyOut = (error_of (bus_result a), keyOut, [Req_GetDFAST2Data seedIn keyOut])"

section \<open>Status events\<close>

text \<open>The callbacks: function, status and data.\<close>

definition cli_eventHandler ::
    "string \<Rightarrow> int \<Rightarrow> upgrade_status \<Rightarrow> client_state \<Rightarrow> (nat \<times> upgrade_status \<times> nat) list" where
  "cli_eventHandler owner eventId status s =
     (if owner = ''MFRLib'' \<and> eventId = 0
      then (case notify_cb (cb_notify s) of None \<Rightarrow> [] | Some f \<Rightarrow> [(f, status, notify_cbData (cb_notify s))])
      else [])"

text \<open>What happens to a client: the calls that change its state, and status events of the bus, which
  reach it if the handler is registered.\<close>

datatype client_input =
    Call_init answer
  | Call_write answer string string int notify
  | Bus_status string int upgrade_status

fun client_step :: "client_input \<Rightarrow> client_state \<Rightarrow> client_state \<times> (nat \<times> upgrade_status \<times> nat) list" where
  "client_step (Call_init a) s = (fst (snd (cli_init a s)), [])"
| "client_step (Call_write a name path type n) s = (fst (snd (cli_WriteImage a name path type n s)), [])"
| "client_step (Bus_status owner ev st) s =
     (s, if handler_registered s then cli_eventHandler owner ev st s else [])"

section \<open>Lemmas\<close>

text \<open>The inputs that count: a failed initialisation, an accepted image.\<close>

fun failed_init :: "client_input \<Rightarrow> bool" where
  "failed_init (Call_init a) = (bus_result a \<noteq> IARM_RESULT_SUCCESS)"
| "failed_init i = False"

fun accepted_image :: "client_input \<Rightarrow> notify option" where
  "accepted_image (Call_write a name path type n) =
     (if length name < MAX_BUF \<and> length path < MAX_BUF \<and> bus_result a = IARM_RESULT_SUCCESS then Some n else None)"
| "accepted_image i = None"

lemma client_step_state:
  "handler_registered (fst (client_step i s)) = (handler_registered s \<or> failed_init i)
   \<and> cb_notify (fst (client_step i s)) = (case accepted_image i of None \<Rightarrow> cb_notify s | Some n \<Rightarrow> n)"
  by (cases i) (simp_all add: cli_init_def cli_WriteImage_def strcpy_to_def)

lemma client_run_state:
  "handler_registered (fst (run_trace client_step is s)) = (handler_registered s \<or> list_ex failed_init is)
   \<and> cb_notify (fst (run_trace client_step is s)) = last (cb_notify s # List.map_filter accepted_image is)"
proof (induction "is" rule: rev_induct)
  case Nil
  then show ?case by (simp add: List.map_filter_simps)
next
  case (snoc i "is")
  then show ?case using client_step_state [of i "fst (run_trace client_step is s)"]
    by (auto simp: fst_run_trace_snoc map_filter_def split: option.splits)
qed

section \<open>Progress of an image\<close>

text \<open>When the progress of an image is reported.  For any calls and status events in any order: a
  status event of the manufacturer server is passed on exactly if an initialisation has failed
  before and the last image that the server accepted came with a callback, and then it goes to that
  callback with its data; so a client whose initialisations all succeeded is never told anything.\<close>

lemma progress_needs_failed_init:
  "snd (client_step (Bus_status ''MFRLib'' 0 st) (fst (run_trace client_step is client_boot))) =
     (if list_ex failed_init is
      then (case notify_cb (last (cb_notify client_boot # List.map_filter accepted_image is)) of
              None \<Rightarrow> []
            | Some f \<Rightarrow> [(f, st, notify_cbData (last (cb_notify client_boot # List.map_filter accepted_image is)))])
      else [])"
proof -
  let ?s = "fst (run_trace client_step is client_boot)"
  have "\<not> handler_registered client_boot" by (simp add: client_boot_def)
  then have r: "handler_registered ?s = list_ex failed_init is" using client_run_state [of "is" client_boot] by blast
  have n: "cb_notify ?s = last (cb_notify client_boot # List.map_filter accepted_image is)"
    using client_run_state [of "is" client_boot] by blast
  show ?thesis unfolding client_step.simps snd_conv cli_eventHandler_def n r by simp
qed

text \<open>A successful initialisation never reports, whatever is accepted afterwards.\<close>

lemma successful_client_hears_nothing:
  "\<not> list_ex failed_init is \<Longrightarrow>
     snd (client_step (Bus_status owner ev st) (fst (run_trace client_step is client_boot))) = []"
  using client_run_state [of "is" client_boot] by (simp add: client_boot_def)

text \<open>Longer data than the array are cut without a notice.\<close>

lemma long_data_are_cut:
  "bus_result a = IARM_RESULT_SUCCESS \<Longrightarrow> DATA_BUF < length d \<Longrightarrow>
     cli_SetSerializedData a type (Some d) False
       = (mfrERR_NONE, [Req_SetSerializedData type (take DATA_BUF d) ''''])"
  by (simp add: cli_SetSerializedData_def error_of_def)

end
