(* ===== verification/Mfr_Rpc.thy ===== *)
theory Mfr_Rpc
  imports Mfr_Client Mfr_Server
begin

text \<open>
  The client library on its server: a function of mfr/common/rpc/cli/mfrCli.c whose bus call is
  answered by the handler of mfr/common/rpc/srv/mfrSrv.c that is registered for it.  What the client
  is told is compared with what happened in the platform library behind the server.
\<close>

section \<open>The handler of a request\<close>

definition server_request :: "client_request \<Rightarrow> mfr_request" where
  "server_request q = (case q of
       Req_Init \<Rightarrow> Init
     | Req_Shutdown \<Rightarrow> Shutdown
     | Req_GetSerializedData t c \<Rightarrow> GetSerialized c
     | Req_SetSerializedData t d c \<Rightarrow> SetSerialized c
     | Req_WriteImage n p t i \<Rightarrow> WriteImage
     | Req_SetImageWriteProgress n t p \<Rightarrow> SetProgress
     | Req_GetImageWriteProgress n t \<Rightarrow> GetProgress
     | Req_DeletePDRI \<Rightarrow> DeletePDRI
     | Req_ScrubAllBanks \<Rightarrow> ScrubAllBanks
     | Req_Reboot n \<Rightarrow> Reboot
     | Req_SetCableCardType t \<Rightarrow> SetCableCardType
     | Req_SetHostFirmwareInfo v d m y \<Rightarrow> SetHostFirmwareInfo
     | Req_GetBootImageName i t \<Rightarrow> GetBootImageName
     | Req_GetPathConfiguration t \<Rightarrow> GetPathConfiguration
     | Req_GetDFAST2Data s k \<Rightarrow> GetDFAST2Data)"

text \<open>The handlers with their results; the length is the one the handler reports, or for the two texts
  the one the library wrote into the parameter.\<close>

fun serve_result :: "mfr_request \<Rightarrow> mfr_world \<Rightarrow> mfr_state \<Rightarrow> (iarm_result \<times> int \<times> mfr_state) option" where
  "serve_result Init w s = map_option (\<lambda>(r, s). (r, 0, s)) (mfr_init s)"
| "serve_result DeletePDRI w s = map_option (\<lambda>(r, s). (r, 0, s)) (mfrDeletePDRI w s)"
| "serve_result ScrubAllBanks w s = map_option (\<lambda>(r, s). (r, 0, s)) (mfrScrubAllBanks w s)"
| "serve_result Reboot w s = map_option (\<lambda>(r, s). (r, 0, s)) (mfrReboot w s)"
| "serve_result SetCableCardType w s = map_option (\<lambda>(r, s). (r, 0, s)) (mfrSetCableCardType w s)"
| "serve_result SetHostFirmwareInfo w s = map_option (\<lambda>(r, s). (r, 0, s)) (mfrSetHostFirmwareInfo w s)"
| "serve_result GetBootImageName w s = map_option (\<lambda>(r, s). (r, data_len w, s)) (mfrGetBootImageName w s)"
| "serve_result GetPathConfiguration w s =
     map_option (\<lambda>(r, s). (r, data_len w, s)) (mfrGetPathConfiguration w s)"
| "serve_result GetDFAST2Data w s = map_option (\<lambda>(r, s). (r, 0, s)) (mfrGetDFAST2Data w s)"
| "serve_result (GetSerialized c) w s =
     map_option (\<lambda>(r, n, s). (r, case n of None \<Rightarrow> 0 | Some n \<Rightarrow> n, s)) (mfrGetSerializedData c w s)"
| "serve_result (SetSerialized c) w s = map_option (\<lambda>(r, s). (r, 0, s)) (mfrSetSerializedData c w s)"
| "serve_result WriteImage w s = map_option (\<lambda>(r, s). (r, 0, s)) (mfrWriteImage w s)"
| "serve_result SetProgress w s = map_option (\<lambda>(r, s). (r, 0, s)) (mfrSetImageWriteProgress w s)"
| "serve_result GetProgress w s = map_option (\<lambda>(r, s). (r, 0, s)) (mfrGetImageWriteProgress w s)"
| "serve_result Shutdown w s = map_option (\<lambda>(r, s). (r, 0, s)) (mfr_shutdown w s)"

lemma serve_result_state: "serve (q, w) s = map_option (\<lambda>(r, n, s). s) (serve_result q w s)"
  by (cases q) (simp_all add: option.map_comp comp_def case_prod_unfold)

section \<open>Calls of a client\<close>

datatype client_op =
    Op_Init
  | Op_GetSerializedData int bool
  | Op_SetSerializedData int "string option" bool
  | Op_DeletePDRI
  | Op_ScrubAllBanks
  | Op_Reboot string
  | Op_SetCableCardType int
  | Op_SetHostFirmwareInfo string int int int
  | Op_GetBootImageName int int
  | Op_GetPathConfiguration int bool
  | Op_GetDFAST2Data "int list" "int list"

text \<open>The error a call returns and the requests it sends, for the answer of the bus; None when it reads
  past the parameter.\<close>

fun cli_op :: "client_op \<Rightarrow> answer \<Rightarrow> (mfrError \<times> client_request list) option" where
  "cli_op Op_Init a = (let (e, s, qs) = cli_init a client_boot in Some (e, qs))"
| "cli_op (Op_GetSerializedData t crypto) a =
     map_option (\<lambda>(e, d, qs). (e, qs)) (cli_GetSerializedData a True t crypto)"
| "cli_op (Op_SetSerializedData t d crypto) a = Some (cli_SetSerializedData a t d crypto)"
| "cli_op Op_DeletePDRI a = Some (cli_DeletePDRI a)"
| "cli_op Op_ScrubAllBanks a = Some (cli_ScrubAllBanks a)"
| "cli_op (Op_Reboot n) a = Some (cli_Reboot a n)"
| "cli_op (Op_SetCableCardType t) a = Some (cli_SetCableCardType a t)"
| "cli_op (Op_SetHostFirmwareInfo v d m y) a = Some (cli_SetHostFirmwareInfo a v d m y)"
| "cli_op (Op_GetBootImageName i t) a = (let (e, n, d, qs) = cli_GetBootImageName a i t in Some (e, qs))"
| "cli_op (Op_GetPathConfiguration t p) a = (let (e, n, d, qs) = cli_GetPathConfiguration a t p in Some (e, qs))"
| "cli_op (Op_GetDFAST2Data i k) a = (let (e, d, qs) = cli_GetDFAST2Data a i k in Some (e, qs))"

text \<open>The requests do not depend on the answer.\<close>

definition no_answer :: answer where
  "no_answer = \<lparr>bus_result = IARM_RESULT_IPCCORE_FAIL, ans_bytes = '''', ans_len = 0, ans_progress = 0,
     zero_copy = False\<rparr>"

definition request_of :: "client_op \<Rightarrow> client_request option" where
  "request_of op = (case cli_op op no_answer of Some (e, q # qs) \<Rightarrow> Some q | _ \<Rightarrow> None)"

lemma cli_op_requests: "cli_op op a = Some (e, qs) \<Longrightarrow> qs = (case request_of op of None \<Rightarrow> [] | Some q \<Rightarrow> [q])"
  by (cases op) (auto simp: request_of_def no_answer_def cli_init_def cli_GetSerializedData_def
      cli_SetSerializedData_def cli_DeletePDRI_def cli_ScrubAllBanks_def cli_Reboot_def
      cli_SetCableCardType_def cli_SetHostFirmwareInfo_def cli_GetBootImageName_def
      cli_GetPathConfiguration_def cli_GetDFAST2Data_def error_of_def Let_def
      split: option.splits prod.splits if_splits)

text \<open>A call over the bus, of a client with memory for the answer; z: whether its memcpy\_s accepts a copy
  of no bytes.  The outer None is a server that never answers, the inner one a client that
  reads past the parameter.\<close>

definition rpc :: "bool \<Rightarrow> client_op \<Rightarrow> mfr_world \<Rightarrow> mfr_state \<Rightarrow> (mfrError option \<times> mfr_state) option" where
  "rpc z op w s = (case request_of op of
       None \<Rightarrow> Some (map_option fst (cli_op op no_answer), s)
     | Some q \<Rightarrow> map_option (\<lambda>(r, n, s').
         (map_option fst (cli_op op \<lparr>bus_result = r, ans_bytes = replicate (nat n) (CHR 0x00),
              ans_len = n, ans_progress = 0, zero_copy = z\<rparr>),
          s')) (serve_result (server_request q) w s))"

text \<open>Calls one after the other: the errors in order.\<close>

fun rpc_session ::
    "bool \<Rightarrow> (client_op \<times> mfr_world) list \<Rightarrow> mfr_state \<Rightarrow> (mfrError option list \<times> mfr_state) option" where
  "rpc_session z [] s = Some ([], s)"
| "rpc_session z ((op, w) # ops) s =
     Option.bind (rpc z op w s) (\<lambda>(e, s'). map_option (\<lambda>(es, s''). (e # es, s'')) (rpc_session z ops s'))"

section \<open>What happens in the library\<close>

text \<open>The library function of a request; whether the handler gets to call it, and whether the handler is
  content with how the call ended.\<close>

definition fn_of :: "mfr_request \<Rightarrow> mfr_fn" where
  "fn_of q = (case q of
       Init \<Rightarrow> F_init | DeletePDRI \<Rightarrow> F_DeletePDRI | ScrubAllBanks \<Rightarrow> F_ScrubAllBanks | Reboot \<Rightarrow> F_Reboot
     | SetCableCardType \<Rightarrow> F_SetCableCardType | SetHostFirmwareInfo \<Rightarrow> F_SetHostFirmwareInfo
     | GetBootImageName \<Rightarrow> F_GetBootImageName | GetPathConfiguration \<Rightarrow> F_GetPathConfiguration
     | GetDFAST2Data \<Rightarrow> F_GetDFAST2Data | GetSerialized c \<Rightarrow> F_GetSerializedData
     | SetSerialized c \<Rightarrow> F_SetSerializedData | WriteImage \<Rightarrow> F_WriteImage
     | SetProgress \<Rightarrow> F_SetImageWriteProgress | GetProgress \<Rightarrow> F_GetImageWriteProgress | Shutdown \<Rightarrow> F_shutdown)"

definition reached :: "mfr_request \<Rightarrow> mfr_world \<Rightarrow> mfr_state \<Rightarrow> bool" where
  "reached q w s =
     (q \<noteq> Init \<and> (fn_of q \<in> set (resolved s) \<or> exported w (fn_of q)) \<and>
      (case q of
         SetHostFirmwareInfo \<Rightarrow> copy_ok w
       | GetDFAST2Data \<Rightarrow> copy_ok w
       | GetSerialized c \<Rightarrow> crypto_func w c (encrypt_func s) \<noteq> None
       | SetSerialized c \<Rightarrow> crypto_func w c (decrypt_func s) \<noteq> None \<and> copy_ok w
       | _ \<Rightarrow> True))"

definition agreed :: "mfr_request \<Rightarrow> mfr_world \<Rightarrow> bool" where
  "agreed q w = (err_none w \<and> (case q of GetSerialized c \<Rightarrow> copy_ok w | _ \<Rightarrow> True))"

text \<open>What the client itself asks of a successful answer.\<close>

definition fits :: "bool \<Rightarrow> client_op \<Rightarrow> mfr_world \<Rightarrow> bool" where
  "fits z op w = (case op of
       Op_GetSerializedData t c \<Rightarrow> 0 < data_len w \<or> data_len w = 0 \<and> z
     | Op_GetBootImageName i t \<Rightarrow> (0 < data_len w \<or> data_len w = 0 \<and> z) \<and> data_len w \<le> int MAX_BUF
     | Op_GetPathConfiguration t p \<Rightarrow>
         p \<and> (0 < data_len w \<or> data_len w = 0 \<and> z) \<and> data_len w \<le> int STR_SIZE
     | _ \<Rightarrow> True)"

lemma plain_handler_result:
  assumes "\<not> locked s"
  shows "\<exists>r s'. plain_handler f copies w s = Some (r, s') \<and> \<not> locked s' \<and>
    (r = IARM_RESULT_SUCCESS \<longleftrightarrow>
      (f \<in> set (resolved s) \<or> exported w f) \<and> (copies \<longrightarrow> copy_ok w) \<and> err_none w) \<and>
    map fst (lib_calls s') = map fst (lib_calls s) @
      (if (f \<in> set (resolved s) \<or> exported w f) \<and> (copies \<longrightarrow> copy_ok w) then [f] else [])"
  using assms by (auto simp: plain_handler_def mfr_lock_defs Let_def)

text \<open>A handler on a free server.\<close>

definition handled :: "mfr_request \<Rightarrow> mfr_world \<Rightarrow> mfr_state \<Rightarrow> iarm_result \<Rightarrow> int \<Rightarrow> mfr_state \<Rightarrow> bool" where
  "handled q w s r n s' =
     (serve_result q w s = Some (r, n, s') \<and> \<not> locked s' \<and>
      (r = IARM_RESULT_SUCCESS \<longleftrightarrow> q = Init \<or> reached q w s \<and> agreed q w) \<and>
      map fst (lib_calls s') = map fst (lib_calls s) @ (if reached q w s then [fn_of q] else []) \<and>
      n = (case q of
             GetSerialized c \<Rightarrow> if r = IARM_RESULT_SUCCESS then min SERIALIZED_BUF (data_len w) else 0
           | GetBootImageName \<Rightarrow> data_len w
           | GetPathConfiguration \<Rightarrow> data_len w
           | _ \<Rightarrow> 0))"

lemma serve_handled:
  assumes "\<not> locked s" and "\<not> loses_lock q"
  shows "\<exists>r n s'. handled q w s r n s'"
proof -
  have plain: "\<exists>r n s'. handled q w s r n s'"
    if "serve_result q w s = map_option (\<lambda>(r, s). (r, k, s)) (plain_handler f c w s)" and "fn_of q = f"
      and "q \<noteq> Init" and "reached q w s = ((f \<in> set (resolved s) \<or> exported w f) \<and> (c \<longrightarrow> copy_ok w))"
      and "agreed q w = err_none w" and "\<And>d. q \<noteq> GetSerialized d"
      and "k = (if q = GetBootImageName \<or> q = GetPathConfiguration then data_len w else 0)" for f c k
    using plain_handler_result [OF assms(1), of f c w] that
    by (cases q) (fastforce simp: handled_def)+
  note defs = fn_of_def reached_def agreed_def mfr_plain_defs
  show ?thesis
  proof (cases q)
    case (GetSerialized c)
    then show ?thesis using assms(1)
      by (auto simp: handled_def reached_def agreed_def fn_of_def mfrGetSerializedData_def mfr_lock_defs Let_def
          min_def split: option.splits)
  next
    case (SetSerialized c)
    then show ?thesis using assms(1)
      by (auto simp: handled_def reached_def agreed_def fn_of_def mfrSetSerializedData_def mfr_lock_defs Let_def
          split: option.splits)
  next
    case Init
    then show ?thesis using assms(1)
      by (auto simp: handled_def reached_def mfr_init_def mfr_lock_defs)
  next
    case DeletePDRI
    show ?thesis by (rule plain [where f=F_DeletePDRI and c=False and k="0"]) (simp_all add: DeletePDRI defs)
  next
    case ScrubAllBanks
    show ?thesis by (rule plain [where f=F_ScrubAllBanks and c=False and k="0"]) (simp_all add: ScrubAllBanks defs)
  next
    case Reboot
    show ?thesis by (rule plain [where f=F_Reboot and c=False and k="0"]) (simp_all add: Reboot defs)
  next
    case SetCableCardType
    show ?thesis by (rule plain [where f=F_SetCableCardType and c=False and k="0"]) (simp_all add: SetCableCardType defs)
  next
    case SetHostFirmwareInfo
    show ?thesis by (rule plain [where f=F_SetHostFirmwareInfo and c=True and k="0"]) (simp_all add: SetHostFirmwareInfo defs)
  next
    case GetBootImageName
    show ?thesis by (rule plain [where f=F_GetBootImageName and c=False and k="data_len w"]) (simp_all add: GetBootImageName defs)
  next
    case GetPathConfiguration
    show ?thesis by (rule plain [where f=F_GetPathConfiguration and c=False and k="data_len w"]) (simp_all add: GetPathConfiguration defs)
  next
    case GetDFAST2Data
    show ?thesis by (rule plain [where f=F_GetDFAST2Data and c=True and k="0"]) (simp_all add: GetDFAST2Data defs)
  qed (use assms(2) in \<open>auto simp: loses_lock_def\<close>)
qed

text \<open>A client on such an answer.\<close>

lemma request_of_served: "request_of op = Some q \<Longrightarrow> \<not> loses_lock (server_request q)"
  by (cases op) (auto simp: request_of_def no_answer_def cli_init_def cli_GetSerializedData_def
      cli_SetSerializedData_def cli_DeletePDRI_def cli_ScrubAllBanks_def cli_Reboot_def
      cli_SetCableCardType_def cli_SetHostFirmwareInfo_def cli_GetBootImageName_def copy_reply_def
      cli_GetPathConfiguration_def cli_GetDFAST2Data_def server_request_def loses_lock_def Let_def
      split: option.splits if_splits prod.splits)

lemma cli_op_answered:
  assumes "request_of op = Some q" and "handled (server_request q) w s r n s'"
  shows "\<exists>e. map_option fst (cli_op op \<lparr>bus_result = r, ans_bytes = d, ans_len = n, ans_progress = 0, zero_copy = z\<rparr>) = Some e \<and>
    (e = mfrERR_NONE \<longleftrightarrow> r = IARM_RESULT_SUCCESS \<and> fits z op w)"
  using assms
  by (cases op) (auto simp: request_of_def no_answer_def cli_init_def cli_GetSerializedData_def
      cli_SetSerializedData_def cli_DeletePDRI_def cli_ScrubAllBanks_def cli_Reboot_def
      cli_SetCableCardType_def cli_SetHostFirmwareInfo_def cli_GetBootImageName_def copy_reply_def
      cli_GetPathConfiguration_def cli_GetDFAST2Data_def server_request_def error_of_def fits_def
      handled_def SERIALIZED_BUF_def DATA_BUF_def Let_def
      split: option.splits if_splits prod.splits)

lemma local_error:
  assumes "request_of op = None"
  shows "\<exists>e. map_option fst (cli_op op no_answer) = Some e \<and> e \<noteq> mfrERR_NONE"
  using assms
  by (cases op) (auto simp: request_of_def no_answer_def cli_init_def cli_GetSerializedData_def
      cli_SetSerializedData_def cli_DeletePDRI_def cli_ScrubAllBanks_def cli_Reboot_def
      cli_SetCableCardType_def cli_SetHostFirmwareInfo_def cli_GetBootImageName_def copy_reply_def
      cli_GetPathConfiguration_def cli_GetDFAST2Data_def error_of_def Let_def
      split: option.splits if_splits prod.splits)

lemma rpc_outcome:
  assumes "\<not> locked s"
  shows "\<exists>e s'. rpc z op w s = Some (Some e, s') \<and> \<not> locked s' \<and>
    (e = mfrERR_NONE \<longleftrightarrow> (\<exists>q. request_of op = Some q \<and> fits z op w \<and>
       (q = Req_Init \<or> reached (server_request q) w s \<and> agreed (server_request q) w))) \<and>
    map fst (lib_calls s') = map fst (lib_calls s) @
      (case request_of op of None \<Rightarrow> []
       | Some q \<Rightarrow> if reached (server_request q) w s then [fn_of (server_request q)] else [])"
proof (cases "request_of op")
  case None
  with local_error [OF None] assms show ?thesis by (auto simp: rpc_def)
next
  case (Some q)
  have init: "server_request q = Init \<longleftrightarrow> q = Req_Init" by (cases q) (simp_all add: server_request_def)
  obtain r n s' where h: "handled (server_request q) w s r n s'"
    using serve_handled [OF assms request_of_served [OF Some]] by blast
  obtain e where e: "map_option fst (cli_op op \<lparr>bus_result = r, ans_bytes = replicate (nat n) (CHR 0x00),
        ans_len = n, ans_progress = 0, zero_copy = z\<rparr>) = Some e" and n: "e = mfrERR_NONE \<longleftrightarrow> r = IARM_RESULT_SUCCESS \<and> fits z op w"
    using cli_op_answered [OF Some h] by blast
  have "rpc z op w s = Some (Some e, s')" using h e by (simp add: rpc_def Some handled_def)
  moreover have "e = mfrERR_NONE \<longleftrightarrow> fits z op w \<and>
      (q = Req_Init \<or> reached (server_request q) w s \<and> agreed (server_request q) w)"
    unfolding n using h init by (auto simp: handled_def)
  ultimately show ?thesis using h Some by (simp add: handled_def)
qed

lemma rpc_session_free:
  "\<not> locked s \<Longrightarrow> \<exists>es s'. rpc_session z ops s = Some (es, s') \<and> \<not> locked s' \<and> length es = length ops \<and> None \<notin> set es"
proof (induction ops arbitrary: s)
  case (Cons x ops)
  obtain op w where x: "x = (op, w)" by fastforce
  obtain e s' where e: "rpc z op w s = Some (Some e, s')" "\<not> locked s'"
    using rpc_outcome [OF Cons.prems, of z op w] by blast
  obtain es t where "rpc_session z ops s' = Some (es, t)" "\<not> locked t" "length es = length ops" "None \<notin> set es"
    using Cons.IH [OF e(2)] by blast
  with e show ?case by (simp add: x)
qed simp

section \<open>Properties\<close>

text \<open>C17. A client is told of success exactly if the platform library succeeded.  On a started server,
  after any calls of clients other than those about images and the shutdown, every call returns
  without reading past its parameter, and it returns mfrERR\_NONE if and only if its arguments fit
  the request, the library has the function (and the crypto function asked for), the library call
  ends well, and the answer fits what the client can take; the library function is called at most
  once, and an error without a call means that something on the way was missing or too long.  The
  initialisation alone succeeds without the library.  The lengths are those the library writes, as
  signed integers: an answer with a negative length or one beyond the array does not fit, and one
  of length 0 fits only if the memcpy\_s of the client takes it (z).  The client has memory for the
  answer.\<close>

theorem client_is_told_what_the_library_did:
  assumes "mfrMgr_start w0 mfr_boot = Some (IARM_RESULT_SUCCESS, s0)"
  shows "\<exists>es s e s'. rpc_session z ops s0 = Some (es, s) \<and> length es = length ops \<and> None \<notin> set es \<and>
    rpc z op w s = Some (Some e, s') \<and>
    (e = mfrERR_NONE \<longleftrightarrow> (\<exists>q. request_of op = Some q \<and> fits z op w \<and>
       (q = Req_Init \<or> reached (server_request q) w s \<and> agreed (server_request q) w))) \<and>
    map fst (lib_calls s') = map fst (lib_calls s) @
      (case request_of op of None \<Rightarrow> []
       | Some q \<Rightarrow> if reached (server_request q) w s then [fn_of (server_request q)] else [])"
proof -
  have "\<not> locked s0"
    using assms by (auto simp: mfrMgr_start_def mfr_boot_def mfr_lock_defs Let_def split: if_splits)
  then obtain es s where "rpc_session z ops s0 = Some (es, s)" "\<not> locked s" "length es = length ops" "None \<notin> set es"
    using rpc_session_free by blast
  with rpc_outcome [of s z op w] show ?thesis by blast
qed

text \<open>The host firmware of a library that has everything is set after two other calls; a text of 256
  bytes or more never reaches the server.\<close>

theorem client_is_told_what_the_library_did_witness:
  "\<exists>s0 es s s'. mfrMgr_start mfr_world_example mfr_boot = Some (IARM_RESULT_SUCCESS, s0)
     \<and> rpc_session True [(Op_Init, mfr_world_example), (Op_DeletePDRI, mfr_world_example)] s0 = Some (es, s)
     \<and> rpc True (Op_SetHostFirmwareInfo ''2.0'' 1 2 2020) mfr_world_example s = Some (Some mfrERR_NONE, s')"
proof -
  obtain s0 where s0: "mfrMgr_start mfr_world_example mfr_boot = Some (IARM_RESULT_SUCCESS, s0)"
    by (simp add: mfrMgr_start_def mfr_boot_def mfr_lock_defs mfr_world_example_def)
  let ?op = "Op_SetHostFirmwareInfo ''2.0'' 1 2 2020"
  have q: "request_of ?op = Some (Req_SetHostFirmwareInfo ''2.0'' 1 2 2020)" "fits True ?op mfr_world_example"
    by (simp_all add: request_of_def cli_SetHostFirmwareInfo_def strcpy_to_def STR_SIZE_def fits_def)
  have "reached SetHostFirmwareInfo mfr_world_example s" "agreed SetHostFirmwareInfo mfr_world_example" for s
    by (simp_all add: reached_def agreed_def fn_of_def mfr_world_example_def)
  with q client_is_told_what_the_library_did [OF s0,
      of True "[(Op_Init, mfr_world_example), (Op_DeletePDRI, mfr_world_example)]" ?op mfr_world_example] s0
  show ?thesis by (auto simp: server_request_def)
qed

end
