(* ===== verification/Pwr_Start.thy ===== *)
theory Pwr_Start
  imports Pwr_Mgr Pwr_Settings
begin

text \<open>
  The power manager on its settings file: theory Pwr\_Mgr keeps the settings as a record and reports
  a write as an effect, theory Pwr\_Settings reads and writes the bytes of the structure.  Here the
  two are put together.  A start takes the record and the statics from the bytes that \_InitSettings
  left, a run assigns to the fields of the structure, every write of the run is \_WriteSettings on
  the bytes of that moment, and the next start loads what the last of them wrote.
\<close>

section \<open>The bytes of the settings\<close>

definition power_state_of :: "32 word \<Rightarrow> power_state option" where
  "power_state_of v =
     (if v = 0 then Some PWRMGR_OFF else if v = 1 then Some PWRMGR_STANDBY else if v = 2 then Some PWRMGR_ON
      else if v = 3 then Some PWRMGR_STANDBY_LIGHT_SLEEP
      else if v = 4 then Some PWRMGR_STANDBY_DEEP_SLEEP else None)"

lemma power_state_of_code [simp]: "power_state_of (ps_code p) = Some p"
  by (cases p) (simp_all add: power_state_of_def)

lemma ps_code_eq: "ps_code p = ps_code q \<longleftrightarrow> p = q"
  by (metis power_state_of_code option.inject)

lemma power_state_of_iff: "power_state_of v = Some p \<longleftrightarrow> v = ps_code p"
  by (cases p) (auto simp: power_state_of_def)

text \<open>The fields that the structure holds, and the assignments to them.\<close>

definition settings_in :: "settings_cfg \<Rightarrow> bytes \<Rightarrow> settings option" where
  "settings_in c m = map_option (\<lambda>p.
     \<lparr>powerState = p, deep_sleep_timeout = (if DEEP_SLEEP c then unat (get32 timeout_off m) else 0),
      nwStandbyMode = (SKY_XIONE c \<and> m ! nw_off c \<noteq> 0)\<rparr>) (power_state_of (get32 powerState_off m))"

definition put_settings :: "settings_cfg \<Rightarrow> settings \<Rightarrow> bytes \<Rightarrow> bytes" where
  "put_settings c st m =
     (let m1 = put32 powerState_off (ps_code (powerState st)) m;
          m2 = (if DEEP_SLEEP c then put32 timeout_off (of_nat (deep_sleep_timeout st)) m1 else m1)
      in if SKY_XIONE c then put (nw_off c) [of_bool (nwStandbyMode st)] m2 else m2)"

lemma get32_put_byte [simp]:
  assumes "off + 1 \<le> length m" and "i + 4 \<le> off \<or> off + 1 \<le> i"
  shows "get32 i (put off [b] m) = get32 i m"
  using get32_put_other [of off "[b]" m i] assms by simp

lemma nth_put_byte [simp]: "off < length m \<Longrightarrow> put off [b] m ! off = b"
  by (simp add: put_def nth_append)

lemma mem_ok_put_settings [simp]:
  assumes "mem_ok c m" shows "mem_ok c (put_settings c st m)"
  using assms mem_ok_len [OF assms] cur_len_bounds [of c]
  by (auto simp: put_settings_def mem_ok_def PADDING_SIZE_def Let_def)

lemma get32_put_settings:
  assumes "mem_ok c m"
  shows "get32 powerState_off (put_settings c st m) = ps_code (powerState st)"
    and "get32 version_off (put_settings c st m) = get32 version_off m"
    and "get32 length_off (put_settings c st m) = get32 length_off m"
    and "DEEP_SLEEP c \<Longrightarrow> get32 timeout_off (put_settings c st m) = of_nat (deep_sleep_timeout st)"
    and "SKY_XIONE c \<Longrightarrow> put_settings c st m ! nw_off c = of_bool (nwStandbyMode st)"
  using mem_ok_len [OF assms] cur_len_bounds [of c]
  by (auto simp: put_settings_def Let_def)

lemma head_ok_put_settings [simp]:
  "mem_ok c m \<Longrightarrow> head_ok c (put_settings c st m) = head_ok c m"
  by (simp add: head_ok_def get32_put_settings)

text \<open>What the structure of a build can hold of the settings.\<close>

definition held :: "settings_cfg \<Rightarrow> settings \<Rightarrow> settings" where
  "held c st = \<lparr>powerState = powerState st,
     deep_sleep_timeout = (if DEEP_SLEEP c then deep_sleep_timeout st mod 2 ^ 32 else 0),
     nwStandbyMode = (SKY_XIONE c \<and> nwStandbyMode st)\<rparr>"

lemma settings_in_put [simp]:
  "mem_ok c m \<Longrightarrow> settings_in c (put_settings c st m) = Some (held c st)"
  using get32_put_settings(5) [of c m st]
  by (auto simp: settings_in_def get32_put_settings(1,4) held_def unat_of_nat)

lemma settings_in_saved:
  assumes "saved c f m" and "mem_ok c m"
  shows "settings_in c f = settings_in c m"
proof -
  have t: "take (cur_len c) f = take (cur_len c) m" using assms(1) by (simp add: saved_def)
  have l: "cur_len c \<le> length f" by (rule saved_length [OF assms])
  have "f ! i = m ! i" if "i < cur_len c" for i using t that by (metis nth_take)
  then show ?thesis using cur_len_bounds [of c] get32_cong [OF t]
    by (auto simp: settings_in_def intro!: arg_cong [where f="\<lambda>h. map_option h _"])
qed

section \<open>Writes of a run\<close>

fun saved_settings :: "pwr_effect \<Rightarrow> settings option" where
  "saved_settings (SaveSettings st) = Some st"
| "saved_settings e = None"

definition saves :: "pwr_effect list \<Rightarrow> settings list" where
  "saves = List.map_filter saved_settings"

lemma saves_simps [simp]:
  "saves [] = []"
  "saves (e # es) = (case saved_settings e of None \<Rightarrow> saves es | Some st \<Rightarrow> st # saves es)"
  "saves (es @ es') = saves es @ saves es'"
  "saves (map DsEffect es1) = []" "saves (map ResetEffect es2) = []" "saves (map RunCommand cs) = []"
  by (auto simp: saves_def map_filter_def split: option.splits)

definition follows :: "pwr_state \<Rightarrow> pwr_state \<Rightarrow> pwr_effect list \<Rightarrow> bool" where
  "follows s s' es = (settings_file s' = last (settings_file s # saves es))"

lemma follows_nil [simp]: "follows s s []" by (simp add: follows_def)

lemma follows_append: "follows s s' es \<Longrightarrow> follows s' s'' es' \<Longrightarrow> follows s s'' (es @ es')"
  by (auto simp: follows_def)

lemma follows_persist: "follows s (fst (persist w t)) (snd (persist w t))"
  if "settings_file t = settings_file s"
  using that by (simp add: follows_def persist_def)

lemma follows_same: "settings_file s' = settings_file s \<Longrightarrow> saves es = [] \<Longrightarrow> follows s s' es"
  by (simp add: follows_def)

lemma drop_bootup_follows: "follows s (fst (drop_bootup cfg s)) (snd (drop_bootup cfg s))"
  by (rule follows_same) (simp_all add: drop_bootup_def)

lemma leave_deep_sleep_follows: "follows s (fst (leave_deep_sleep cfg p s)) (snd (leave_deep_sleep cfg p s))"
  by (rule follows_same) (simp_all add: leave_deep_sleep_def case_prod_beta)

lemma post_mode_change_follows:
  "follows s (fst (post_mode_change cfg w cur new s)) (snd (post_mode_change cfg w cur new s))"
  by (rule follows_same) (simp_all add: post_mode_change_def arm_wakeup_timer_def Let_def case_prod_beta)

lemma change_power_follows:
  "follows s (fst (change_power cfg w new k s)) (snd (change_power cfg w new k s))"
  by (simp add: follows_def change_power_def Let_def case_prod_beta persist_def set_power_def)

lemma SetPowerState_follows:
  assumes "SetPowerState cfg w new k s = (s', es, r)"
  shows "follows s s' es"
proof -
  consider "cur_power s = new" | "cur_power s \<noteq> new" "change_blocked cfg s" "new \<noteq> PWRMGR_STANDBY_DEEP_SLEEP"
    | "cur_power s \<noteq> new" "\<not> change_blocked cfg s" by (auto simp: change_blocked_def)
  then show ?thesis
  proof cases
    case 1
    then show ?thesis using assms by (simp add: SetPowerState_same)
  next
    case 2
    then show ?thesis using assms drop_bootup_follows [of s cfg] by (simp add: SetPowerState_blocked)
  next
    case 3
    then show ?thesis using assms
      by (auto simp: SetPowerState_changes changed_def Let_def split: if_splits
          intro!: follows_append drop_bootup_follows leave_deep_sleep_follows change_power_follows
            post_mode_change_follows)
  qed
qed

lemma set_power_follows: "follows (set_power p s) s' es \<Longrightarrow> follows s s' es"
  by (simp add: follows_def set_power_def)

lemma SetPowerState_follows':
  "follows s (fst (SetPowerState cfg w new k s)) (fst (snd (SetPowerState cfg w new k s)))"
  by (rule SetPowerState_follows [where r="snd (snd (SetPowerState cfg w new k s))"]) simp

lemma change_by_key_follows:
  "follows s (fst (change_by_key cfg w k cur new s)) (snd (change_by_key cfg w k cur new s))"
proof -
  have "follows s (fst (SetPowerStateAsync cur new (set_keyup_time cfg w s)))
      (snd (SetPowerStateAsync cur new (set_keyup_time cfg w s)))"
    by (rule follows_same) (simp_all add: SetPowerStateAsync_def set_keyup_time_def Let_def)
  then show ?thesis using SetPowerState_follows' [of s cfg w new k]
    by (simp add: change_by_key_def Let_def case_prod_beta follows_def set_keyup_time_def)
qed

lemma reset_check_follows:
  "reset_check cfg w keyCode keyType isFP s = Some (ret, s', es) \<Longrightarrow> follows s s' es"
  by (auto simp: reset_check_def follows_def split: if_splits option.splits)

lemma power_or_wakeup_key_follows:
  assumes "power_or_wakeup_key cfg w keyCode keyType isFP s = Some (s', es)"
  shows "follows s s' es"
proof -
  obtain ret s1 es1 where c: "reset_check cfg w keyCode keyType isFP s = Some (ret, s1, es1)"
    using assms by (auto simp: power_or_wakeup_key_def split: option.splits)
  note f1 = reset_check_follows [OF c]
  have "s' = s1 \<and> es = es1 \<or> (\<exists>cur new. s' = fst (change_by_key cfg w keyCode cur new s1) \<and>
      es = es1 @ snd (change_by_key cfg w keyCode cur new s1))"
    using assms by (auto simp: power_or_wakeup_key_def c Let_def case_prod_beta split: if_splits)
  then show ?thesis using f1 follows_append [OF f1 change_by_key_follows] by blast
qed

lemma irEventHandler_follows:
  assumes "irEventHandler cfg w keyCode keyType isFP s = Some (s', es)"
  shows "follows s s' es"
proof -
  define s0 where "s0 = (if FP_KEY_SENSITIVITY cfg \<and> keyType = KET_KEYDOWN \<and> keyCode = KED_POWER
                   then set_keydown_time cfg w s else s)"
  have s0: "settings_file s0 = settings_file s" by (simp add: s0_def set_keydown_time_def)
  define P where "P x = (\<forall>s' es. x = Some (s', es) \<longrightarrow> follows s s' es)" for x
  have P_if: "P x \<Longrightarrow> P y \<Longrightarrow> P (if b then x else y)" for b x y by simp
  have P_same: "P (Some (s, []))" "P (Some (s0, []))" by (simp_all add: P_def follows_same s0)
  have P_key: "P (power_or_wakeup_key cfg w keyCode keyType isFP s0)"
    using power_or_wakeup_key_follows by (simp add: P_def follows_def s0)
  have P_change: "P (let (s1, es, r) = SetPowerState cfg w new keyCode s0 in Some (s1, es))" for new
    using SetPowerState_follows' [of s0 cfg w new keyCode] by (simp add: P_def follows_def s0 case_prod_beta)
  have P_reset: "P (let (s1, es) = persist w (set_power PWRMGR_ON s0)
      in Some (s1, es @ map ResetEffect (PwrMgr_Reset PWRMGR_ON False)))"
    by (simp add: P_def follows_def s0 case_prod_beta persist_def set_power_def)
  have "P (irEventHandler cfg w keyCode keyType isFP s)"
    unfolding irEventHandler_def s0_def [symmetric] Let_def [of s0] Let_def [of "cur_power s0"]
      Let_def [of "toggled _"]
    by (intro P_if P_same P_key P_change P_reset)
  then show ?thesis using assms by (simp add: P_def)
qed

lemma pwr_step_follows:
  assumes "pwr_step cfg w e s = Some (s', es)"
  shows "follows s s' es"
proof -
  have sp: "follows s (fst (SetPowerState cfg w new k (set_power p s)))
      (fst (snd (SetPowerState cfg w new k (set_power p s))))" for new k p
    using SetPowerState_follows' set_power_follows by blast
  have timeout: "follows s (fst (handleDeepsleepTimeoutWakeup cfg w s)) (snd (handleDeepsleepTimeoutWakeup cfg w s))"
    using sp by (simp add: handleDeepsleepTimeoutWakeup_def Let_def case_prod_beta follows_def)
  note change = SetPowerState_follows' [of s cfg w]
  note defs = ctrlmMessageHandler_def AsyncPowerTransition_def SetDeepSleepTimeOut_def SetNetworkStandbyMode_def
    warehouse_rpc_def SetPowerWareHouseOperation_def AsyncPowerWareHouseOperation_def
    DeepsleepStateChangeThread_def heartbeatMsg_def read_thresholds_def Let_def case_prod_beta follows_def
  show ?thesis
  proof (cases e)
    case (IrKey a b c)
    then show ?thesis using assms irEventHandler_follows by simp
  next
    case (ControlKey a b c)
    then show ?thesis using assms irEventHandler_follows
      by (auto simp: controlEventHandler_def Let_def split: if_splits)
  next
    case (Voice a)
    then show ?thesis using assms irEventHandler_follows by (auto simp: speechEventHandler_def split: if_splits)
  next
    case WakeupTimer
    then show ?thesis using assms timeout
      by (auto simp: deep_sleep_wakeup_fn_def Let_def case_prod_beta split: if_splits)
  next
    case BootupTimer
    then show ?thesis using assms sp
      by (auto simp: invoke_deep_sleep_on_bootup_timeout_def case_prod_beta split: if_splits)
  next
    case TimeoutThread
    then show ?thesis using assms timeout by (auto split: if_splits)
  next
    case (Ghost g)
    then show ?thesis using assms change by (auto simp: defs split: if_splits option.splits)
  next
    case (RfMessage a b c)
    then show ?thesis using assms change by (auto simp: defs rf4ceMessageHandler_def split: if_splits)
  next
    case (CallSetPowerState p k)
    then show ?thesis using assms change by (auto simp: case_prod_beta)
  next
    case (CallSetDeepSleepTimeOut a)
    then show ?thesis using assms by (auto simp: defs persist_def split: option.splits)
  next
    case (CallSetNetworkStandbyMode a)
    then show ?thesis using assms by (auto simp: defs persist_def split: option.splits if_splits)
  next
    case (CallWareHouse a b c)
    then show ?thesis using assms by (auto simp: defs split: if_splits)
  next
    case (WareHouseThread a b)
    then show ?thesis using assms by (auto simp: defs)
  next
    case (SystemState a b c d)
    then show ?thesis using assms by (auto simp: systemStateChangeHandler_def follows_def split: if_splits option.split prod.split)
  next
    case (SleepModeChanged a)
    then show ?thesis using assms by (auto simp: sleepModeChangeHandler_def follows_def)
  next
    case (SysMode a)
    then show ?thesis using assms by (auto simp: SysModeChange_def follows_def split: if_splits)
  next
    case (SleepThread a b)
    then show ?thesis using assms by (auto simp: defs)
  next
    case AsyncThreadTurn
    then show ?thesis using assms change by (auto simp: defs split: if_splits)
  next
    case (Heartbeat r)
    then show ?thesis using assms by (auto simp: defs split: if_splits)
  qed
qed

lemma pwr_run_follows: "pwr_run cfg evs s = Some (s', es) \<Longrightarrow> follows s s' es"
proof (induction evs arbitrary: s es)
  case (Cons e evs)
  then show ?case
    by (auto split: option.splits dest!: pwr_step_follows) (blast intro: follows_append)
qed simp

section \<open>Start and restart\<close>

text \<open>The statics at the end of PWRMgr\_Start: the settings and statics of \_InitSettings, the RFC
  parameter, the environment and the sleep mode of the device settings.  None when the power state
  in the structure or in the file is none of the five.\<close>

definition pwr_start ::
  "settings_cfg \<Rightarrow> bytes \<Rightarrow> settings_state \<Rightarrow> bool \<Rightarrow> bool \<Rightarrow> bool \<Rightarrow> int \<Rightarrow> pwr_state option" where
  "pwr_start c file i cec wake deep t0 =
     (case (settings_in c (settings_state.m_settings i), settings_in c file,
            power_state_of (g_last_known_power_state i)) of
        (Some st, Some in_file, Some lastp) \<Rightarrow>
          Some ((pwr_init st lastp cec wake t0)
            \<lparr>settings_file := in_file, sleep_mode_deep := deep,
             deep_sleep_wakeup_timeout_sec := unat (wakeup_timeout_sec i),
             dsleep_bootup_event_src := bootup_event_src i, nwStandby_static := nwStandby_gs i\<rparr>)
      | _ \<Rightarrow> None)"

text \<open>The structure while the process runs: only the three fields change.\<close>

definition struct_image :: "settings_cfg \<Rightarrow> settings_state \<Rightarrow> settings \<Rightarrow> settings_state" where
  "struct_image c i st = i\<lparr>settings_state.m_settings := put_settings c st (settings_state.m_settings i)\<rparr>"

primrec write_all :: "settings_cfg \<Rightarrow> settings_state \<Rightarrow> settings list \<Rightarrow> bytes \<Rightarrow> bytes" where
  "write_all c i [] f = f"
| "write_all c i (st # sts) f =
     (case snd (WriteSettings True (Some f) (struct_image c i st)) of None \<Rightarrow> f | Some f' \<Rightarrow> write_all c i sts f')"

lemma held_settings_in: "settings_in c m = Some st \<Longrightarrow> held c st = st"
proof -
  have "unat (get32 timeout_off m) < 2 ^ LENGTH(32)" by (rule unsigned_less)
  then show "settings_in c m = Some st \<Longrightarrow> held c st = st" by (auto simp: settings_in_def held_def)
qed

text \<open>A file that holds settings: some structure with these settings was written to it last.\<close>

definition written :: "settings_cfg \<Rightarrow> bytes \<Rightarrow> settings \<Rightarrow> bool" where
  "written c f st = (\<exists>g r j. WriteSettings True (Some g) j = (r, Some f) \<and>
     mem_ok c (settings_state.m_settings j) \<and> head_ok c (settings_state.m_settings j) \<and>
     settings_in c (settings_state.m_settings j) = Some (held c st))"

lemma written_saved:
  fixes i :: settings_state
  assumes "mem_ok c (settings_state.m_settings i)" and "head_ok c (settings_state.m_settings i)"
    and "saved c f (settings_state.m_settings i)" and "settings_in c (settings_state.m_settings i) = Some st"
  shows "written c f st"
proof -
  have "file_write True (cur_len c) (settings_state.m_settings i) f = (int (cur_len c), f)"
    by (rule saved_rewrite [OF assms(3,1) refl])
  then have "WriteSettings True (Some f) i = (int (cur_len c), Some f)"
    using assms(2) by (simp add: WriteSettings_def head_ok_def)
  then show ?thesis unfolding written_def using assms held_settings_in [OF assms(4)] by auto
qed

lemma written_image:
  assumes "mem_ok c (settings_state.m_settings i)" and "head_ok c (settings_state.m_settings i)"
    and "WriteSettings True (Some f) (struct_image c i st) = (r, Some f')"
  shows "written c f' st"
  unfolding written_def using assms
  by (intro exI [of _ f] exI [of _ r] exI [of _ "struct_image c i st"]) (simp add: struct_image_def)

lemma write_all_last:
  assumes "mem_ok c (settings_state.m_settings i)" and "head_ok c (settings_state.m_settings i)"
    and "written c f st"
  shows "written c (write_all c i sts f) (last (st # sts))"
  using assms(3)
proof (induction sts arbitrary: f st)
  case (Cons a sts)
  obtain r f' where w: "WriteSettings True (Some f) (struct_image c i a) = (r, Some f')"
    by (fastforce simp: WriteSettings_def case_prod_beta)
  from Cons.IH [OF written_image [OF assms(1,2) w]] show ?case by (simp add: w)
qed simp

section \<open>Properties\<close>


section \<open>Concrete runs\<close>

text \<open>A device that stopped in deep sleep starts, is switched on and loses power.\<close>

definition first_start :: "bytes \<times> settings_state" where
  "first_start = (let (ret, f, i, es) = InitSettings full_build quiet_world saved_sleeping (settings_boot full_build)
                  in (f, i))"

definition second_start :: "(pwr_world \<times> pwr_event) list \<Rightarrow> pwr_state option" where
  "second_start evs = (let (f, i) = first_start in
     Option.bind (pwr_start full_build f i False False False 0) (\<lambda>s.
     Option.bind (pwr_run (box_cfg False) evs s) (\<lambda>(s', es).
       let (ret, f', i', es') = InitSettings full_build quiet_world (write_all full_build i (saves es) f)
             (settings_boot full_build)
       in pwr_start full_build f' i' False False False 0)))"

definition switch_on :: "(pwr_world \<times> pwr_event) list" where
  "switch_on = [(box_world, CallSetPowerState PWRMGR_ON 0)]"

lemma sleeping_settings: "settings_in full_build (settings_state.m_settings sleeping) =
    Some \<lparr>powerState = PWRMGR_STANDBY_DEEP_SLEEP, deep_sleep_timeout = 600, nwStandbyMode = False\<rparr>"
  by code_simp

lemma first_start_sleeps:
  "\<exists>s. pwr_start full_build (fst first_start) (snd first_start) False False False 0 = Some s \<and>
     cur_power s = PWRMGR_STANDBY_DEEP_SLEEP \<and> ds s = ds_init"
proof -
  obtain ret f i es where
    i: "InitSettings full_build quiet_world saved_sleeping (settings_boot full_build) = (ret, f, i, es)"
    by (metis prod_cases4)
  have q: "plat_get quiet_world 0 \<in> {None, Some (get32 powerState_off (settings_state.m_settings sleeping))}"
    by (simp add: quiet)
  note R = restart_loads_saved [OF sleeping_ok(1-3) quiet(1,4) q i]
  have "settings_in full_build f = settings_in full_build (settings_state.m_settings sleeping)"
    using R settings_in_saved [OF WriteSettings_saves [OF sleeping_ok(3,1,2)] sleeping_ok(1)] by simp
  moreover have "settings_in full_build (settings_state.m_settings i)
      = settings_in full_build (settings_state.m_settings sleeping)"
    using R settings_in_saved [of full_build "settings_state.m_settings i", OF _ sleeping_ok(1)]
    by (simp add: saved_def)
  ultimately show ?thesis using R sleeping_ok(4)
    by (simp add: first_start_def i pwr_start_def sleeping_settings power_state_of_def pwr_init_def cur_power_def)
qed


end
