(* ===== verification/Bus_Lifecycle.thy ===== *)
theory Bus_Lifecycle
  imports Mfr_Manager
begin

text \<open>
  The managers on their bus: what each process registers when it starts and removes when it stops,
  in the order of the code, and which calls the processes send to each other.  The start functions of
  pwrmgr2/pwrMgr.c, power/pwrMgr.c, ir/irMgr.c, sysmgr/sysMgr.c, dsmgr/dsMgr.c with its listener,
  deepsleepmgr/deepSleepMgr.c, vrexmgr/vrexMgr.cpp, deviceUpdateMgr and disk are lists of bus
  operations and of named local steps.  A call or an event is named as the headers under src/ define
  it, or by its macro where the header is not in the repository.  The starts are those of a first,
  successful start.
\<close>

section \<open>Operations and builds\<close>

datatype bus_op =
    BusInit string
  | BusConnect
  | RegisterEvents string
  | RegisterCall string
  | RegisterHandler string string string
  | RemoveHandler string string string
  | UnRegisterHandler string string
  | CallOut string string
  | Step string
  | BusDisconnect
  | BusTerm

datatype rf_interface = GENMSO | RF4CE | GPMSO
datatype generation = Older | Newer
datatype mfr_server = MfrManager | MfrSrv

record bus_cfg =
  power_gen :: generation
  mfr :: mfr_server
  rf4ce :: bool
  unified_ctrlm :: bool
  unified_rf4ce_4 :: bool
  rf_api :: "rf_interface option"
  deep_sleep :: bool
  wakeup_evt :: bool
  set_wakeup_src :: bool
  thermal :: bool
  product_profile :: bool
  pwrmgr2_rfc :: bool
  mfr_wifi :: bool

text \<open>What a list of operations leaves: the calls that can be served, and the event handlers.  A
  handler is removed with its function or for its event as a whole; leaving the bus ends both.\<close>

fun calls_step :: "bus_op \<Rightarrow> string list \<Rightarrow> string list" where
  "calls_step (RegisterCall a) cs = cs @ [a]"
| "calls_step BusDisconnect cs = []"
| "calls_step _ cs = cs"

definition offers :: "bus_op list \<Rightarrow> string list" where
  "offers ops = fold calls_step ops []"

fun handlers_step :: "bus_op \<Rightarrow> (string \<times> string \<times> string) list \<Rightarrow> (string \<times> string \<times> string) list" where
  "handlers_step (RegisterHandler m e f) hs = hs @ [(m, e, f)]"
| "handlers_step (RemoveHandler m e f) hs = filter (\<lambda>h. h \<noteq> (m, e, f)) hs"
| "handlers_step (UnRegisterHandler m e) hs = filter (\<lambda>(m', e', f'). (m', e') \<noteq> (m, e)) hs"
| "handlers_step BusDisconnect hs = []"
| "handlers_step _ hs = hs"

definition handlers :: "bus_op list \<Rightarrow> (string \<times> string \<times> string) list" where
  "handlers ops = fold handlers_step ops []"

section \<open>Power manager\<close>

definition thermal_calls :: "bus_cfg \<Rightarrow> bus_op list" where
  "thermal_calls b =
     (if thermal b
      then [RegisterCall ''GetThermalState'', RegisterCall ''SetTemperatureThresholds'',
            RegisterCall ''GetTemperatureThresholds'', RegisterCall ''SetOvertempGraceInterval'',
            RegisterCall ''GetOvertempGraceInterval'']
      else [])"

definition RegisterSleepTimerAPIs :: "bus_op list" where
  "RegisterSleepTimerAPIs = [RegisterCall ''SetSleepTimer'', RegisterCall ''GetSleepTimer'']"

definition RegisterDeepSleepAPIs :: "bus_op list" where
  "RegisterDeepSleepAPIs =
     [RegisterCall ''IARM_BUS_COMMON_API_DeepSleepWakeup'', RegisterCall ''SetDeepSleepTimer'',
      RegisterCall ''GetDeepSleepStatus'', RegisterCall ''GetLastWakeupReason'',
      RegisterCall ''GetLastWakeupKeycode'']"

definition pwr_rf_start :: "bus_cfg \<Rightarrow> bus_op list" where
  "pwr_rf_start b =
     (if \<not> rf4ce b then []
      else if unified_ctrlm b
      then [RegisterHandler ''CTRLM'' ''VOICE_SESSION_BEGIN'' ''_speechEventHandler'',
            RegisterHandler ''CTRLM'' ''VOICE_SESSION_ABORT'' ''_speechEventHandler'',
            RegisterHandler ''CTRLM'' ''VOICE_SESSION_SHORT'' ''_speechEventHandler'',
            RegisterHandler ''CTRLM'' ''KEY_GHOST'' ''_ctrlmMessageHandler'']
      else (if unified_rf4ce_4 b
            then [RegisterHandler ''VREX_MGR'' ''VOICE_BEGIN'' ''_speechEventHandler'',
                  RegisterHandler ''VREX_MGR'' ''VOICE_SESSION_ABORT'' ''_speechEventHandler'',
                  RegisterHandler ''VREX_MGR'' ''VOICE_SESSION_SHORT'' ''_speechEventHandler'']
            else [RegisterHandler ''VREXMgr'' ''SPEECH'' ''_speechEventHandler''])
         @ (case rf_api b of
              Some GENMSO \<Rightarrow> [RegisterHandler ''RFMGR'' ''MSG_IND'' ''_rfMessageHandler'']
            | Some RF4CE \<Rightarrow> [RegisterHandler ''RF4CEMGR'' ''MSG_IND'' ''_rf4ceMessageHandler'']
            | Some GPMSO \<Rightarrow> [RegisterHandler ''GPMGR'' ''MSG_IND'' ''_gpMessageHandler'']
            | None \<Rightarrow> []))"

definition pwr_rf_stop :: "bus_cfg \<Rightarrow> bus_op list" where
  "pwr_rf_stop b =
     (if \<not> rf4ce b then []
      else if unified_ctrlm b
      then [RemoveHandler ''CTRLM'' ''VOICE_SESSION_BEGIN'' ''_speechEventHandler'',
            RemoveHandler ''CTRLM'' ''VOICE_SESSION_ABORT'' ''_speechEventHandler'',
            RemoveHandler ''CTRLM'' ''VOICE_SESSION_SHORT'' ''_speechEventHandler'',
            RemoveHandler ''CTRLM'' ''KEY_GHOST'' ''_ctrlmMessageHandler'']
      else (if unified_rf4ce_4 b
            then [RemoveHandler ''VREX_MGR'' ''VOICE_BEGIN'' ''_speechEventHandler'',
                  RemoveHandler ''VREX_MGR'' ''VOICE_SESSION_ABORT'' ''_speechEventHandler'',
                  RemoveHandler ''VREX_MGR'' ''VOICE_SESSION_SHORT'' ''_speechEventHandler'']
            else [RemoveHandler ''VREXMgr'' ''SPEECH'' ''_speechEventHandler''])
         @ (case rf_api b of
              Some GENMSO \<Rightarrow> [RemoveHandler ''RFMGR'' ''MSG_IND'' ''_rfMessageHandler'']
            | Some RF4CE \<Rightarrow> [RemoveHandler ''RF4CEMGR'' ''MSG_IND'' ''_rf4ceMessageHandler'']
            | Some GPMSO \<Rightarrow> [RemoveHandler ''GPMGR'' ''MSG_IND'' ''_gpMessageHandler'']
            | None \<Rightarrow> []))"

definition pwr_start_ops :: "bus_cfg \<Rightarrow> bus_op list" where
  "pwr_start_ops b =
     [Step ''PLAT_INIT''] @ (if deep_sleep b then [Step ''PLAT_DS_INIT''] else []) @
     [BusInit ''PWRMgr'', BusConnect, Step ''_InitSettings'', RegisterEvents ''IARM_BUS_PWRMGR_EVENT_MAX'',
      RegisterCall ''performReboot'', RegisterCall ''SetPowerState'', RegisterCall ''GetPowerState'',
      RegisterCall ''WareHouseReset'', RegisterCall ''WarehouseClear'', RegisterCall ''ColdFactoryReset'',
      RegisterCall ''FactoryReset'', RegisterCall ''UserFactoryReset''] @
     (if deep_sleep b then [RegisterCall ''SetDeepSleepTimeOut''] else []) @
     [RegisterCall ''SetNetworkStandbyMode'', RegisterCall ''GetNetworkStandbyMode'',
      RegisterHandler ''IRMgr'' ''IRKEY'' ''_irEventHandler'',
      RegisterHandler ''IRMgr'' ''CONTROL'' ''_controlEventHandler'',
      RegisterHandler ''SYSMgr'' ''SYSTEMSTATE'' ''_systemStateChangeHandler'',
      RegisterHandler ''DSMgr'' ''SLEEP_MODE_CHANGED'' ''_sleepModeChangeHandler''] @
     pwr_rf_start b @
     [Step ''initReset'', RegisterCall ''IARM_BUS_COMMON_API_SysModeChange'',
      RegisterCall ''GetPowerStateBeforeReboot''] @
     (if set_wakeup_src b then [RegisterCall ''setWakeupSrcConfig''] else []) @
     thermal_calls b @ (if deep_sleep b then RegisterDeepSleepAPIs else []) @
     [Step ''g_main_loop_new''] @ RegisterSleepTimerAPIs @
     [Step ''isCecLocalLogicEnabled'', Step ''deepSleepWakeup'', Step ''m_sleepMode'']"

definition pwr_stop_ops :: "bus_cfg \<Rightarrow> bus_op list" where
  "pwr_stop_ops b =
     [Step ''g_main_loop_quit'', Step ''DeInitialize'', RemoveHandler ''IRMgr'' ''IRKEY'' ''_irEventHandler''] @
     pwr_rf_stop b @ [BusDisconnect, BusTerm, Step ''PLAT_TERM''] @
     (if deep_sleep b then [Step ''PLAT_DS_TERM''] else [])"

text \<open>power/pwrMgr.c: the product profile and the device settings in the process, the ports, and the
  time-out call of the deep sleep daemon.\<close>

definition older_pwr_start_ops :: "bus_cfg \<Rightarrow> bus_op list" where
  "older_pwr_start_ops b =
     (if product_profile b then [Step ''initialize_ux_controller''] else []) @
     [Step ''PLAT_INIT'', BusInit ''PWRMgr'', BusConnect, Step ''Initialize'', Step ''_InitSettings'',
      RegisterEvents ''IARM_BUS_PWRMGR_EVENT_MAX'',
      RegisterCall ''performReboot'', RegisterCall ''SetPowerState'', RegisterCall ''GetPowerState'',
      RegisterCall ''WareHouseReset'', RegisterCall ''WarehouseClear'', RegisterCall ''ColdFactoryReset'',
      RegisterCall ''FactoryReset'', RegisterCall ''UserFactoryReset'', RegisterCall ''SetStandbyVideoState'',
      RegisterCall ''GetStandbyVideoState''] @
     (if deep_sleep b
      then [RegisterCall ''SetDeepSleepTimeOut'', RegisterCall ''handleDeepsleepTimeoutWakeup''] else []) @
     [RegisterCall ''SetNetworkStandbyMode'', RegisterCall ''GetNetworkStandbyMode'',
      RegisterHandler ''IRMgr'' ''IRKEY'' ''_irEventHandler'',
      RegisterHandler ''IRMgr'' ''CONTROL'' ''_controlEventHandler'',
      RegisterHandler ''SYSMgr'' ''SYSTEMSTATE'' ''_systemStateChangeHandler'',
      RegisterHandler ''DSMgr'' ''SLEEP_MODE_CHANGED'' ''_sleepModeChangeHandler''] @
     pwr_rf_start b @
     [Step ''initReset'', RegisterCall ''IARM_BUS_COMMON_API_SysModeChange'',
      RegisterCall ''GetPowerStateBeforeReboot''] @
     (if set_wakeup_src b then [RegisterCall ''setWakeupSrcConfig''] else []) @
     thermal_calls b @ [Step ''g_main_loop_new''] @ RegisterSleepTimerAPIs @
     [Step ''isCecLocalLogicEnabled'', Step ''deepSleepWakeup'', Step ''m_sleepMode'']"

definition older_pwr_stop_ops :: "bus_cfg \<Rightarrow> bus_op list" where
  "older_pwr_stop_ops b =
     [Step ''g_main_loop_quit'', Step ''DeInitialize'', RemoveHandler ''IRMgr'' ''IRKEY'' ''_irEventHandler''] @
     pwr_rf_stop b @ [BusDisconnect, BusTerm, Step ''PLAT_TERM'']"

section \<open>The other managers\<close>

definition ir_start_ops :: "bus_cfg \<Rightarrow> bus_op list" where
  "ir_start_ops b =
     [Step ''PLAT_API_INIT'', BusInit ''IRMgr'', BusConnect, RegisterCall ''SetRepeatInterval'',
      RegisterCall ''GetRepeatInterval'',
      RegisterHandler ''SYSMgr'' ''KEYCODE_LOGGING_CHANGED'' ''_logEventHandler''] @
     (if \<not> rf4ce b then []
      else if unified_ctrlm b
      then [RegisterHandler ''CTRLM'' ''KEY_PRESS'' ''_ctrlmEventHandler'',
            RegisterHandler ''CTRLM'' ''KEY_GHOST'' ''_ctrlmEventHandler'',
            RegisterHandler ''CTRLM'' ''FUNCTION'' ''_ctrlmEventHandler'']
      else (case rf_api b of
              Some GENMSO \<Rightarrow> [RegisterHandler ''RFMGR'' ''KEY'' ''_rfEventHandler'']
            | Some RF4CE \<Rightarrow> [RegisterHandler ''RF4CEMGR'' ''KEY'' ''_rf4ceEventHandler'']
            | Some GPMSO \<Rightarrow> [RegisterHandler ''GPMGR'' ''KEY'' ''_gpEventHandler'']
            | None \<Rightarrow> [])) @
     [CallOut ''SYSMgr'' ''GetKeyCodeLoggingPref'', Step ''mutexes'', Step ''_KeyRepeatThreadFunc'',
      Step ''PLAT_API_RegisterIRKeyCallback'', RegisterEvents ''IARM_BUS_IRMGR_EVENT_MAX'',
      Step ''Initialize'', Step ''isCecLocalLogicEnabled'']"

definition ir_stop_ops :: "bus_cfg \<Rightarrow> bus_op list" where
  "ir_stop_ops b =
     (if rf4ce b \<and> unified_ctrlm b
      then [RemoveHandler ''CTRLM'' ''KEY_PRESS'' ''_ctrlmEventHandler'',
            RemoveHandler ''CTRLM'' ''KEY_GHOST'' ''_ctrlmEventHandler'',
            RemoveHandler ''CTRLM'' ''FUNCTION'' ''_ctrlmEventHandler'']
      else []) @
     [UnRegisterHandler ''SYSMgr'' ''KEYCODE_LOGGING_CHANGED'', Step ''DeInitialize'',
      BusDisconnect, BusTerm, Step ''PLAT_API_TERM'', Step ''mutexes'']"

definition sys_start_ops :: "bus_op list" where
  "sys_start_ops =
     [Step ''lock'', BusInit ''SYSMgr'', BusConnect, RegisterEvents ''IARM_BUS_SYSMGR_EVENT_MAX'',
      RegisterCall ''GetSystemStates'', RegisterHandler ''SYSMgr'' ''SYSTEMSTATE'' ''_sysEventHandler'',
      Step ''initialized'', RegisterCall ''SetHDCPProfile'', RegisterCall ''GetHDCPProfile'',
      RegisterCall ''GetKeyCodeLoggingPref'', RegisterCall ''SetKeyCodeLoggingPref'',
      Step ''systemStates'', Step ''unlock'']"

definition ds_listener_ops :: "bus_cfg \<Rightarrow> bus_op list" where
  "ds_listener_ops b =
     (if product_profile b then [Step ''initialize_ux_controller''] else []) @
     [Step ''Initialize'', RegisterHandler ''PWRMgr'' ''MODECHANGED'' ''_PwrEventHandler'',
      RegisterCall ''IARM_BUS_DSMGR_API_SetStandbyVideoState'',
      RegisterCall ''IARM_BUS_DSMGR_API_GetStandbyVideoState'',
      RegisterCall ''IARM_BUS_DSMGR_API_SetAvPortState'', RegisterCall ''IARM_BUS_DSMGR_API_SetLEDStatus'',
      RegisterCall ''IARM_BUS_DSMGR_API_SetRebootConfig'', CallOut ''PWRMgr'' ''GetPowerState'',
      Step ''first configuration'']"

definition ds_start_ops :: "bus_cfg \<Rightarrow> bus_op list" where
  "ds_start_ops b =
     [BusInit ''DSMgr'', BusConnect, RegisterEvents ''IARM_BUS_DSMGR_EVENT_MAX'', Step ''dsMgr_init'',
      RegisterHandler ''SYSMgr'' ''SYSTEMSTATE'' ''_EventHandler'',
      RegisterHandler ''DSMgr'' ''HDMI_HOTPLUG'' ''_EventHandler'',
      RegisterHandler ''DSMgr'' ''HDCP_STATUS'' ''_EventHandler'',
      RegisterCall ''IARM_BUS_COMMON_API_SysModeChange''] @
     (if pwrmgr2_rfc b then ds_listener_ops b else []) @
     [Step ''_DSMgrResnThreadFunc'', CallOut ''SYSMgr'' ''GetSystemStates'', Step ''g_main_loop_new'']"

definition daemon_start_ops :: "bus_op list" where
  "daemon_start_ops =
     [Step ''PLAT_DS_INIT'', BusInit ''DEEPSLEEPMgr'', BusConnect, RegisterEvents ''IARM_BUS_PWRMGR_EVENT_MAX'',
      RegisterHandler ''PWRMgr'' ''MODECHANGED'' ''_eventHandler'',
      RegisterHandler ''PWRMgr'' ''DEEPSLEEP_TIMEOUT'' ''_eventHandler'',
      RegisterCall ''IARM_BUS_COMMON_API_DeepSleepWakeup'', RegisterCall ''SetDeepSleepTimer'',
      RegisterCall ''GetDeepSleepStatus'', RegisterCall ''GetLastWakeupReason'',
      RegisterCall ''GetLastWakeupKeycode'', Step ''g_main_loop_new'']"

definition daemon_loop_ops :: "bus_op list" where
  "daemon_loop_ops = [CallOut ''PWRMgr'' ''GetPowerState'', Step ''g_main_loop_run'']"

definition daemon_stop_ops :: "bus_op list" where
  "daemon_stop_ops =
     [Step ''g_main_loop_quit'', UnRegisterHandler ''PWRMgr'' ''MODECHANGED'',
      UnRegisterHandler ''PWRMgr'' ''DEEPSLEEP_TIMEOUT'', BusDisconnect, BusTerm, Step ''PLAT_DS_TERM'']"

definition update_start_ops :: "bus_op list" where
  "update_start_ops =
     [Step ''lock'', BusInit ''DeviceUpdateManager'', BusConnect,
      RegisterEvents ''IARM_BUS_DEVICE_UPDATE_EVENT_MAX'', RegisterCall ''AcceptUpdate'',
      RegisterHandler ''DeviceUpdateManager'' ''READY_TO_DOWNLOAD'' ''_deviceUpdateEventHandler'',
      RegisterHandler ''DeviceUpdateManager'' ''DOWNLOAD_STATUS'' ''_deviceUpdateEventHandler'',
      RegisterHandler ''DeviceUpdateManager'' ''LOAD_STATUS'' ''_deviceUpdateEventHandler'',
      RegisterHandler ''DeviceUpdateManager'' ''ERROR'' ''_deviceUpdateEventHandler'',
      Step ''initialized'', Step ''unlock'']"

definition update_stop_ops :: "bus_op list" where
  "update_stop_ops =
     [Step ''lock'', UnRegisterHandler ''DeviceUpdateManager'' ''READY_TO_DOWNLOAD'', BusDisconnect,
      BusTerm, Step ''unlock'']"

definition disk_start_ops :: "bus_op list" where
  "disk_start_ops = [BusInit ''DISKMgr'', BusConnect, RegisterEvents ''IARM_BUS_DISKMGR_EVENT_MAX'']"

definition disk_stop_ops :: "bus_op list" where
  "disk_stop_ops = [BusDisconnect, BusTerm]"

definition vrex_stop_ops :: "bus_cfg \<Rightarrow> bus_op list" where
  "vrex_stop_ops b =
     [Step ''lock'', UnRegisterHandler ''VREXMgr'' ''MOTION'', UnRegisterHandler ''VREXMgr'' ''SPEECH''] @
     (case rf_api b of
        Some GENMSO \<Rightarrow> [UnRegisterHandler ''RFMGR'' ''MSG_IND'', UnRegisterHandler ''RFMGR'' ''KEY'']
      | Some RF4CE \<Rightarrow> [UnRegisterHandler ''RF4CEMGR'' ''MSG_IND'', UnRegisterHandler ''RF4CEMGR'' ''KEY'']
      | Some GPMSO \<Rightarrow> [UnRegisterHandler ''GPMGR'' ''MSG_IND'', UnRegisterHandler ''GPMGR'' ''KEY'']
      | None \<Rightarrow> []) @
     [BusDisconnect, BusTerm, Step ''unlock'']"

definition vrex_start_ops :: "bus_cfg \<Rightarrow> bus_op list" where
  "vrex_start_ops b =
     [Step ''lock'', BusInit ''VREXMgr'', BusConnect, RegisterEvents ''IARM_BUS_VREXMGR_EVENT_MAX'',
      RegisterHandler ''VREXMgr'' ''MOTION'' ''_vrexEventHandler'',
      RegisterHandler ''VREXMgr'' ''SPEECH'' ''_vrexEventHandler'',
      RegisterHandler ''VREXMgr'' ''SETTINGS'' ''_vrexEventHandler''] @
     (case rf_api b of
        Some GENMSO \<Rightarrow> [RegisterHandler ''RFMGR'' ''MSG_IND'' ''_pairEventHandler'',
                        RegisterHandler ''RFMGR'' ''KEY'' ''_keyEventHandler'',
                        CallOut ''RFMGR'' ''MsgRequest'']
      | Some RF4CE \<Rightarrow> [RegisterHandler ''RF4CEMGR'' ''MSG_IND'' ''_pairEventHandler'',
                       RegisterHandler ''RF4CEMGR'' ''KEY'' ''_keyEventHandler'',
                       CallOut ''RF4CEMGR'' ''MsgRequest'']
      | Some GPMSO \<Rightarrow> [RegisterHandler ''GPMGR'' ''MSG_IND'' ''_pairEventHandler'',
                       RegisterHandler ''GPMGR'' ''KEY'' ''_keyEventHandler'',
                       CallOut ''GPMGR'' ''MsgRequest'']
      | None \<Rightarrow> []) @
     [RegisterCall ''IARM_BUS_COMMON_API_PowerPreChange'', CallOut ''PWRMgr'' ''GetPowerState'',
      Step ''_loadReceiverId'', Step ''_getSTBName'', Step ''_loadConfiguration'',
      Step ''_configureRemotesToWatch'', Step ''initialized'', Step ''unlock'']"

text \<open>The two servers of the manufacturer library: mfr/mfrMgr.c, and the start of
  mfr/common/rpc/srv/mfrSrv.c with its initialisation by the first client.\<close>

definition mfr_manager_ops :: "bus_cfg \<Rightarrow> bus_op list" where
  "mfr_manager_ops b = [Step ''mfr_init'', BusInit ''MFRLib'', BusConnect] @ map RegisterCall (mgr_calls (mfr_wifi b))"

definition mfr_srv_ops :: "bus_op list" where
  "mfr_srv_ops =
     [Step ''mfr_init'', BusInit ''MFRLib'', BusConnect, RegisterCall ''mfrInit'',
      RegisterCall ''mfrGetSerializedData'', RegisterCall ''mfrSetSerializedData'', RegisterCall ''mfrShutdown'',
      RegisterCall ''mfrWriteImage'', RegisterCall ''mfrDeletePDRI'', RegisterCall ''mfrScrubAllBanks'',
      RegisterCall ''mfrSetImageWriteProgress'', RegisterCall ''mfrGetImageWriteProgress'',
      RegisterCall ''mfrDeletePDRI'', RegisterCall ''mfrReboot'', RegisterCall ''mfrSetCableCardType'',
      RegisterCall ''mfrSetHostFirmwareInfo'', RegisterCall ''mfrGetBootImageName'',
      RegisterCall ''mfrGetPathConfiguration'', RegisterCall ''mfrGetDFAST2Data'',
      RegisterEvents ''IARM_BUS_MFRMGR_EVENT_STATUS_UPDATE'']"

section \<open>Requests\<close>

text \<open>The calls between the processes of the repository, as (sender, receiver, call); calls to managers
  that are not in it (CEC, control manager, RF interfaces) and to callbacks are left out.  The system
  manager is built with mfr/include/mfrMgr.h.\<close>

type_synonym request = "string \<times> string \<times> string"

definition pwr_requests :: "bus_cfg \<Rightarrow> request list" where
  "pwr_requests b = (case power_gen b of
       Newer \<Rightarrow> [(''PWRMgr'', ''DSMgr'', ''IARM_BUS_DSMGR_API_SetRebootConfig'')] @
                (if deep_sleep b then [(''PWRMgr'', ''SYSMgr'', ''GetSystemStates'')] else [])
     | Older \<Rightarrow> (if deep_sleep b
                 then [(''PWRMgr'', ''DEEPSLEEPMgr'', ''GetDeepSleepStatus''),
                       (''PWRMgr'', ''SYSMgr'', ''GetSystemStates'')] else []) @
                (if product_profile b then [(''PWRMgr'', ''MFRLib'', ''mfrSetBootloaderPattern'')] else []))"

definition daemon_requests :: "bus_cfg \<Rightarrow> request list" where
  "daemon_requests b =
     (if power_gen b = Older \<and> deep_sleep b
      then [(''DEEPSLEEPMgr'', ''PWRMgr'', ''GetPowerState'')] @
           (if wakeup_evt b then [(''DEEPSLEEPMgr'', ''PWRMgr'', ''handleDeepsleepTimeoutWakeup'')] else [])
      else [])"

definition ds_requests :: "bus_cfg \<Rightarrow> request list" where
  "ds_requests b =
     [(''DSMgr'', ''SYSMgr'', ''GetSystemStates'')] @
     (if pwrmgr2_rfc b
      then [(''DSMgr'', ''PWRMgr'', ''GetPowerState'')] @
           (if product_profile b then [(''DSMgr'', ''MFRLib'', ''mfrSetBootloaderPattern'')] else [])
      else [])"

definition ir_request :: request where
  "ir_request = (''IRMgr'', ''SYSMgr'', ''GetKeyCodeLoggingPref'')"

definition sys_request :: request where
  "sys_request = (''SYSMgr'', ''MFRLib'', ''mfrGetManufacturerData'')"

definition vrex_request :: request where
  "vrex_request = (''VREXMgr'', ''PWRMgr'', ''GetPowerState'')"

definition bus_requests :: "bus_cfg \<Rightarrow> request list" where
  "bus_requests b = pwr_requests b @ daemon_requests b @ ds_requests b @ [ir_request, sys_request, vrex_request]"

definition start_of :: "bus_cfg \<Rightarrow> string \<Rightarrow> bus_op list" where
  "start_of b m =
     (if m = ''PWRMgr'' then (case power_gen b of Newer \<Rightarrow> pwr_start_ops b | Older \<Rightarrow> older_pwr_start_ops b)
      else if m = ''DEEPSLEEPMgr'' then (if power_gen b = Older \<and> deep_sleep b then daemon_start_ops else [])
      else if m = ''SYSMgr'' then sys_start_ops
      else if m = ''DSMgr'' then ds_start_ops b
      else if m = ''MFRLib'' then (case mfr b of MfrManager \<Rightarrow> mfr_manager_ops b | MfrSrv \<Rightarrow> mfr_srv_ops)
      else [])"

section \<open>Lemmas\<close>

lemma calls_fold: "BusDisconnect \<notin> set ops \<Longrightarrow> set (fold calls_step ops cs) = set cs \<union> {a. RegisterCall a \<in> set ops}"
proof (induction ops arbitrary: cs)
  case (Cons op ops)
  then show ?case by (cases op) auto
qed simp

lemma offers_set: "BusDisconnect \<notin> set ops \<Longrightarrow> a \<in> set (offers ops) \<longleftrightarrow> RegisterCall a \<in> set ops"
  by (simp add: offers_def calls_fold)

lemmas start_defs = pwr_start_ops_def older_pwr_start_ops_def pwr_rf_start_def thermal_calls_def
  RegisterSleepTimerAPIs_def RegisterDeepSleepAPIs_def daemon_start_ops_def sys_start_ops_def
  ds_start_ops_def ds_listener_ops_def mfr_manager_ops_def mfr_srv_ops_def mgr_calls_def

lemmas request_defs = bus_requests_def pwr_requests_def daemon_requests_def ds_requests_def ir_request_def
  sys_request_def vrex_request_def

lemma pwr_rf_start_handlers: "op \<in> set (pwr_rf_start b) \<Longrightarrow> \<exists>m e f. op = RegisterHandler m e f"
  by (cases "rf_api b"; cases "the (rf_api b)") (auto simp: pwr_rf_start_def split: if_splits)

lemma no_disconnect: "BusDisconnect \<notin> set (start_of b m)"
proof -
  have "BusDisconnect \<notin> set (pwr_rf_start b)" using pwr_rf_start_handlers by blast
  then have "BusDisconnect \<notin> set (pwr_start_ops b)" "BusDisconnect \<notin> set (older_pwr_start_ops b)"
    by (auto simp: pwr_start_ops_def older_pwr_start_ops_def thermal_calls_def RegisterSleepTimerAPIs_def
        RegisterDeepSleepAPIs_def)
  moreover have "BusDisconnect \<notin> set sys_start_ops" "BusDisconnect \<notin> set (ds_start_ops b)"
    "BusDisconnect \<notin> set (mfr_manager_ops b)" "BusDisconnect \<notin> set mfr_srv_ops"
    "BusDisconnect \<notin> set daemon_start_ops"
    by (auto simp: sys_start_ops_def ds_start_ops_def ds_listener_ops_def mfr_manager_ops_def mgr_calls_def
        mfr_srv_ops_def daemon_start_ops_def)
  ultimately show ?thesis by (auto simp: start_of_def split: generation.split mfr_server.split)
qed

lemma offered: "a \<in> set (offers (start_of b m)) \<longleftrightarrow> RegisterCall a \<in> set (start_of b m)"
  by (rule offers_set) (rule no_disconnect)

lemma start_of_receiver:
  "start_of b ''PWRMgr'' = (case power_gen b of Newer \<Rightarrow> pwr_start_ops b | Older \<Rightarrow> older_pwr_start_ops b)"
  "start_of b ''DEEPSLEEPMgr'' = (if power_gen b = Older \<and> deep_sleep b then daemon_start_ops else [])"
  "start_of b ''SYSMgr'' = sys_start_ops" "start_of b ''DSMgr'' = ds_start_ops b"
  "start_of b ''MFRLib'' = (case mfr b of MfrManager \<Rightarrow> mfr_manager_ops b | MfrSrv \<Rightarrow> mfr_srv_ops)"
  by (simp_all add: start_of_def)

section \<open>Properties\<close>

text \<open>C15. Every call between the managers has a provider, with two exceptions.  In every build, with
  either power manager and either manufacturer server, a call that a manager sends is among the
  calls its receiver has registered after its start, except: calls to the device settings manager
  (the reboot configuration of the newer power manager) when its RFC parameter is off, and the calls
  of this system to the newer manufacturer server, which registers serialized data under another
  name and has no boot loader pattern.\<close>
theorem requests_find_their_provider:
  assumes "(sender, receiver, api) \<in> set (bus_requests b)"
  shows "api \<in> set (offers (start_of b receiver)) \<longleftrightarrow>
    \<not> (receiver = ''DSMgr'' \<and> \<not> pwrmgr2_rfc b \<or> receiver = ''MFRLib'' \<and> mfr b = MfrSrv)"
proof -
  define P where "P r = (case r of (sender, receiver, api) \<Rightarrow> RegisterCall api \<in> set (start_of b receiver) \<longleftrightarrow>
    \<not> (receiver = ''DSMgr'' \<and> \<not> pwrmgr2_rfc b \<or> receiver = ''MFRLib'' \<and> mfr b = MfrSrv))" for r :: request
  note starts = start_of_receiver
  have "P (m, ''PWRMgr'', ''GetPowerState'')" for m
    by (cases "power_gen b") (simp_all add: P_def starts pwr_start_ops_def older_pwr_start_ops_def)
  moreover have "P (''DEEPSLEEPMgr'', ''PWRMgr'', ''handleDeepsleepTimeoutWakeup'')" if "power_gen b = Older" "deep_sleep b"
    using that by (simp add: P_def starts older_pwr_start_ops_def)
  moreover have "P (m, ''SYSMgr'', ''GetSystemStates'')" "P (m, ''SYSMgr'', ''GetKeyCodeLoggingPref'')" for m
    by (simp_all add: P_def starts sys_start_ops_def)
  moreover have "P (''PWRMgr'', ''DSMgr'', ''IARM_BUS_DSMGR_API_SetRebootConfig'')"
    by (simp add: P_def starts ds_start_ops_def ds_listener_ops_def)
  moreover have "P (''PWRMgr'', ''DEEPSLEEPMgr'', ''GetDeepSleepStatus'')" if "power_gen b = Older" "deep_sleep b"
    using that by (simp add: P_def starts daemon_start_ops_def)
  moreover have "P (m, ''MFRLib'', ''mfrSetBootloaderPattern'')" "P (m, ''MFRLib'', ''mfrGetManufacturerData'')" for m
    by (cases "mfr b"; simp add: P_def starts mfr_manager_ops_def mgr_calls_def mfr_srv_ops_def)+
  ultimately have "\<forall>r \<in> set (bus_requests b). P r"
    by (cases "power_gen b") (auto simp: request_defs)
  then show ?thesis using assms unfolding offered P_def by blast
qed

text \<open>A stop of the power manager leaves three handlers until it leaves the bus; in the builds without
  the unified control manager the IR manager leaves its RF handler, the device update manager three
  of its four.\<close>

fun is_handler_op :: "bus_op \<Rightarrow> bool" where
  "is_handler_op (RegisterHandler m e f) = True"
| "is_handler_op (RemoveHandler m e f) = True"
| "is_handler_op (UnRegisterHandler m e) = True"
| "is_handler_op BusDisconnect = True"
| "is_handler_op _ = False"

lemma handlers_fold: "fold handlers_step ops hs = fold handlers_step (filter is_handler_op ops) hs"
proof (induction ops arbitrary: hs)
  case (Cons op ops)
  then show ?case by (cases op) simp_all
qed simp

lemma handlers_filter: "handlers ops = handlers (filter is_handler_op ops)"
  unfolding handlers_def by (rule handlers_fold)

definition until_disconnect :: "bus_op list \<Rightarrow> bus_op list" where
  "until_disconnect = takeWhile (\<lambda>op. op \<noteq> BusDisconnect)"

lemma pwr_rf_handlers:
  "filter is_handler_op (pwr_rf_start b) = pwr_rf_start b"
  "filter is_handler_op (pwr_rf_stop b) = pwr_rf_stop b"
  "takeWhile (\<lambda>op. op \<noteq> BusDisconnect) (pwr_rf_stop b @ BusDisconnect # ops) = pwr_rf_stop b"
  by (cases "rf_api b"; cases "the (rf_api b)"; simp add: pwr_rf_start_def pwr_rf_stop_def)+

lemma stop_leaves_handlers:
  "handlers (pwr_start_ops b @ until_disconnect (pwr_stop_ops b)) =
     [(''IRMgr'', ''CONTROL'', ''_controlEventHandler''),
      (''SYSMgr'', ''SYSTEMSTATE'', ''_systemStateChangeHandler''),
      (''DSMgr'', ''SLEEP_MODE_CHANGED'', ''_sleepModeChangeHandler'')]"
proof -
  have "filter is_handler_op (pwr_start_ops b @ until_disconnect (pwr_stop_ops b)) =
     [RegisterHandler ''IRMgr'' ''IRKEY'' ''_irEventHandler'',
      RegisterHandler ''IRMgr'' ''CONTROL'' ''_controlEventHandler'',
      RegisterHandler ''SYSMgr'' ''SYSTEMSTATE'' ''_systemStateChangeHandler'',
      RegisterHandler ''DSMgr'' ''SLEEP_MODE_CHANGED'' ''_sleepModeChangeHandler''] @ pwr_rf_start b @
     [RemoveHandler ''IRMgr'' ''IRKEY'' ''_irEventHandler''] @ pwr_rf_stop b"
    by (simp add: pwr_start_ops_def pwr_stop_ops_def until_disconnect_def thermal_calls_def
        RegisterSleepTimerAPIs_def RegisterDeepSleepAPIs_def pwr_rf_handlers)
  moreover have "fold handlers_step (pwr_rf_start b @ [RemoveHandler ''IRMgr'' ''IRKEY'' ''_irEventHandler''] @ pwr_rf_stop b)
      [(''IRMgr'', ''IRKEY'', ''_irEventHandler''), (''IRMgr'', ''CONTROL'', ''_controlEventHandler''),
       (''SYSMgr'', ''SYSTEMSTATE'', ''_systemStateChangeHandler''),
       (''DSMgr'', ''SLEEP_MODE_CHANGED'', ''_sleepModeChangeHandler'')]
     = [(''IRMgr'', ''CONTROL'', ''_controlEventHandler''),
      (''SYSMgr'', ''SYSTEMSTATE'', ''_systemStateChangeHandler''),
      (''DSMgr'', ''SLEEP_MODE_CHANGED'', ''_sleepModeChangeHandler'')]"
    by (cases "rf4ce b"; cases "unified_ctrlm b"; cases "unified_rf4ce_4 b"; cases "rf_api b"; cases "the (rf_api b)";
      simp add: pwr_rf_start_def pwr_rf_stop_def)
  ultimately show ?thesis by (subst handlers_filter) (simp add: handlers_def)
qed

lemma other_stops_leave_handlers:
  "handlers (ir_start_ops b @ until_disconnect (ir_stop_ops b)) =
     (if rf4ce b \<and> \<not> unified_ctrlm b
      then (case rf_api b of
              Some GENMSO \<Rightarrow> [(''RFMGR'', ''KEY'', ''_rfEventHandler'')]
            | Some RF4CE \<Rightarrow> [(''RF4CEMGR'', ''KEY'', ''_rf4ceEventHandler'')]
            | Some GPMSO \<Rightarrow> [(''GPMGR'', ''KEY'', ''_gpEventHandler'')]
            | None \<Rightarrow> [])
      else [])"
  "handlers (update_start_ops @ until_disconnect update_stop_ops) =
     [(''DeviceUpdateManager'', ''DOWNLOAD_STATUS'', ''_deviceUpdateEventHandler''),
      (''DeviceUpdateManager'', ''LOAD_STATUS'', ''_deviceUpdateEventHandler''),
      (''DeviceUpdateManager'', ''ERROR'', ''_deviceUpdateEventHandler'')]"
  "handlers (vrex_start_ops b @ until_disconnect (vrex_stop_ops b)) =
     [(''VREXMgr'', ''SETTINGS'', ''_vrexEventHandler'')]"
  "handlers (daemon_start_ops @ until_disconnect daemon_stop_ops) = []"
  by (cases "rf4ce b"; cases "unified_ctrlm b"; cases "rf_api b"; cases "the (rf_api b)";
      simp add: handlers_def until_disconnect_def ir_start_ops_def ir_stop_ops_def update_start_ops_def
        update_stop_ops_def vrex_start_ops_def vrex_stop_ops_def daemon_start_ops_def daemon_stop_ops_def)+

text \<open>The power manager serves nothing before its settings are loaded, but it serves everything before
  it knows the preferred sleep mode, the wake-up option and the CEC parameter.\<close>

lemma pwr_serves_after_settings:
  "\<exists>before after. pwr_start_ops b = before @ Step ''_InitSettings'' # after
     \<and> offers before = [] \<and> handlers before = []"
  "\<exists>before. pwr_start_ops b =
     before @ [Step ''isCecLocalLogicEnabled'', Step ''deepSleepWakeup'', Step ''m_sleepMode'']
     \<and> set (offers before) = set (offers (pwr_start_ops b)) \<and> handlers before = handlers (pwr_start_ops b)"
proof -
  let ?pre = "[Step ''PLAT_INIT''] @ (if deep_sleep b then [Step ''PLAT_DS_INIT''] else []) @ [BusInit ''PWRMgr'', BusConnect]"
  have "offers ?pre = []" "handlers ?pre = []" by (simp_all add: offers_def handlers_def)
  moreover have "\<exists>after. pwr_start_ops b = ?pre @ Step ''_InitSettings'' # after" by (simp add: pwr_start_ops_def)
  ultimately show "\<exists>before after. pwr_start_ops b = before @ Step ''_InitSettings'' # after
     \<and> offers before = [] \<and> handlers before = []" by metis
  have "\<exists>before. pwr_start_ops b =
     before @ [Step ''isCecLocalLogicEnabled'', Step ''deepSleepWakeup'', Step ''m_sleepMode'']"
    by (simp add: pwr_start_ops_def)
  then show "\<exists>before. pwr_start_ops b =
     before @ [Step ''isCecLocalLogicEnabled'', Step ''deepSleepWakeup'', Step ''m_sleepMode'']
     \<and> set (offers before) = set (offers (pwr_start_ops b)) \<and> handlers before = handlers (pwr_start_ops b)"
    by (auto simp: offers_def handlers_def)
qed

section \<open>A concrete build\<close>

definition bus_example :: bus_cfg where
  "bus_example = \<lparr>power_gen = Newer, mfr = MfrSrv, rf4ce = True, unified_ctrlm = True, unified_rf4ce_4 = False,
     rf_api = None, deep_sleep = True, wakeup_evt = False, set_wakeup_src = False, thermal = True,
     product_profile = True, pwrmgr2_rfc = True, mfr_wifi = False\<rparr>"

theorem requests_find_their_provider_witness:
  "''IARM_BUS_DSMGR_API_SetRebootConfig'' \<in> set (offers (start_of bus_example ''DSMgr''))
   \<and> ''mfrGetManufacturerData'' \<notin> set (offers (start_of bus_example ''MFRLib''))"
proof -
  have "(''PWRMgr'', ''DSMgr'', ''IARM_BUS_DSMGR_API_SetRebootConfig'') \<in> set (bus_requests bus_example)"
    "(''SYSMgr'', ''MFRLib'', ''mfrGetManufacturerData'') \<in> set (bus_requests bus_example)"
    by (simp_all add: request_defs bus_example_def)
  then show ?thesis
    using requests_find_their_provider [of "''PWRMgr''" "''DSMgr''" _ bus_example]
      requests_find_their_provider [of "''SYSMgr''" "''MFRLib''" _ bus_example]
    by (simp add: bus_example_def)
qed

end
