(* ===== verification/Legacy_Profile.thy ===== *)
theory Legacy_Profile
  imports Pwr_Generations
begin

text \<open>
  The older power manager in a build with a product profile: power/productTraits.cpp and the calls of
  its controller in power/pwrMgr.c.  The class has the text of dsmgr/dsMgrProductTraitsHandler.cpp,
  whose state, pattern calls and reboot polls are in Ux\_Controller; here are the methods that reach
  the ports and the LED in the process of the power manager, the handlers with the branch for a
  controller, and the comparison with the listener of the device settings manager on the same
  profile.
\<close>

section \<open>The controller\<close>

definition legacy_sync_power_led :: "ux_controller \<Rightarrow> power_state \<Rightarrow> panel_call list" where
  "legacy_sync_power_led u st =
     [Dev (Power_led (if st = PWRMGR_ON then ledEnabledInOnState u else ledEnabledInStandby u))]"

text \<open>Arguments: the device settings, the table of standby settings, whether an emergency alert is in
  progress, the new state, whether the manufacturer library accepts the pattern.\<close>

definition legacy_tv_eu_change ::
    "legacy_platform \<Rightarrow> standby_table \<Rightarrow> bool \<Rightarrow> power_state \<Rightarrow> bool \<Rightarrow> ux_controller \<Rightarrow>
     bool \<times> ux_controller \<times> panel_call list" where
  "legacy_tv_eu_change lp tbl eas new_state mfr_ok u =
     (let display = legacy_SetAVPortsPowerState lp tbl eas new_state;
          (ret, u, calls) = set_bootloader_pattern (tv_pattern new_state) mfr_ok u
      in (ret, u, display @ map Dev calls))"

definition legacy_stb_eu_change ::
    "legacy_platform \<Rightarrow> standby_table \<Rightarrow> bool \<Rightarrow> power_state \<Rightarrow> bool \<Rightarrow> ux_controller \<Rightarrow>
     bool \<times> ux_controller \<times> panel_call list" where
  "legacy_stb_eu_change lp tbl eas new_state mfr_ok u =
     (True, u, legacy_SetAVPortsPowerState lp tbl eas new_state @ legacy_sync_power_led u new_state)"

definition legacy_tv_change ::
    "legacy_platform \<Rightarrow> standby_table \<Rightarrow> bool \<Rightarrow> power_state \<Rightarrow> bool \<Rightarrow> ux_controller \<Rightarrow>
     bool \<times> ux_controller \<times> panel_call list" where
  "legacy_tv_change lp tbl eas new_state mfr_ok u =
     (let u = (if \<not> firstPowerTransitionComplete u then u\<lparr>firstPowerTransitionComplete := True\<rparr> else u);
          display = legacy_SetAVPortsPowerState lp tbl eas new_state;
          (ret, u, calls) = set_bootloader_pattern (tv_pattern new_state) mfr_ok u
      in (ret, u, display @ map Dev calls))"

definition legacy_stb_change ::
    "legacy_platform \<Rightarrow> standby_table \<Rightarrow> bool \<Rightarrow> power_state \<Rightarrow> bool \<Rightarrow> ux_controller \<Rightarrow>
     bool \<times> ux_controller \<times> panel_call list" where
  "legacy_stb_change lp tbl eas new_state mfr_ok u =
     (True, u, legacy_SetAVPortsPowerState lp tbl eas new_state @ legacy_sync_power_led u new_state)"

definition legacy_applyPowerStateChangeConfig ::
    "legacy_platform \<Rightarrow> standby_table \<Rightarrow> bool \<Rightarrow> power_state \<Rightarrow> bool \<Rightarrow> ux_controller \<Rightarrow>
     bool \<times> ux_controller \<times> panel_call list" where
  "legacy_applyPowerStateChangeConfig lp tbl eas new_state mfr_ok u =
     (case ux_profile u of
        DEFAULT_STB_PROFILE \<Rightarrow> legacy_stb_change lp tbl eas new_state mfr_ok u
      | DEFAULT_TV_PROFILE \<Rightarrow> legacy_tv_change lp tbl eas new_state mfr_ok u
      | DEFAULT_STB_PROFILE_EUROPE \<Rightarrow> legacy_stb_eu_change lp tbl eas new_state mfr_ok u
      | DEFAULT_TV_PROFILE_EUROPE \<Rightarrow> legacy_tv_eu_change lp tbl eas new_state mfr_ok u)"

text \<open>After a reboot.\<close>

definition legacy_tv_eu_post_reboot ::
    "legacy_platform \<Rightarrow> power_state \<Rightarrow> power_state \<Rightarrow> bool \<Rightarrow> ux_controller \<Rightarrow>
     bool \<times> ux_controller \<times> panel_call list" where
  "legacy_tv_eu_post_reboot lp target_state last_known_state mfr_ok u =
     (let display = legacy_SetAVPortsPowerState lp standby_boot False
            (if last_known_state = PWRMGR_ON \<and> target_state = PWRMGR_STANDBY then PWRMGR_ON else target_state);
          (ret, u, calls) = set_bootloader_pattern_fault_tolerant (post_reboot_pattern target_state) mfr_ok u
      in (ret, u, display @ map Dev calls))"

definition legacy_stb_eu_post_reboot ::
    "legacy_platform \<Rightarrow> power_state \<Rightarrow> power_state \<Rightarrow> bool \<Rightarrow> ux_controller \<Rightarrow>
     bool \<times> ux_controller \<times> panel_call list" where
  "legacy_stb_eu_post_reboot lp target_state last_known_state mfr_ok u =
     (let st = (if last_known_state = PWRMGR_ON \<and> target_state = PWRMGR_STANDBY then PWRMGR_ON else target_state);
          shown = legacy_sync_power_led u st @ legacy_SetAVPortsPowerState lp standby_boot False st;
          (ret, u, calls) = set_bootloader_pattern_fault_tolerant BL_PATTERN_NORMAL mfr_ok u
      in (ret, u, shown @ map Dev calls))"

definition legacy_tv_post_reboot ::
    "legacy_platform \<Rightarrow> boot_env \<Rightarrow> power_state \<Rightarrow> power_state \<Rightarrow> bool \<Rightarrow> ux_controller \<Rightarrow>
     bool \<times> ux_controller \<times> panel_call list" where
  "legacy_tv_post_reboot lp env target_state last_known_state mfr_ok u =
     (let led = legacy_sync_power_led u target_state;
          (u, display) =
            (if last_known_state = PWRMGR_ON \<and> target_state = PWRMGR_STANDBY
             then if force_display env \<or> tv_in_factory env
                  then (u, legacy_SetAVPortsPowerState lp standby_boot False PWRMGR_ON)
                  else (case reboot_reason env of
                          HARD \<Rightarrow> (u, legacy_SetAVPortsPowerState lp standby_boot False PWRMGR_STANDBY)
                        | SOFT \<Rightarrow> (u, legacy_SetAVPortsPowerState lp standby_boot False PWRMGR_ON)
                        | UNAVAILABLE \<Rightarrow> (u\<lparr>poll_count := Some 0\<rparr>, []))
             else (u, legacy_SetAVPortsPowerState lp standby_boot False target_state));
          (ret, u, calls) = set_bootloader_pattern_fault_tolerant (post_reboot_pattern target_state) mfr_ok u
      in (ret, u, led @ display @ map Dev calls))"

definition legacy_stb_post_reboot ::
    "legacy_platform \<Rightarrow> power_state \<Rightarrow> ux_controller \<Rightarrow> bool \<times> ux_controller \<times> panel_call list" where
  "legacy_stb_post_reboot lp target_state u =
     (True, u, legacy_sync_power_led u target_state @ legacy_SetAVPortsPowerState lp standby_boot False target_state)"

definition legacy_applyPostRebootConfig ::
    "legacy_platform \<Rightarrow> boot_env \<Rightarrow> power_state \<Rightarrow> power_state \<Rightarrow> bool \<Rightarrow> ux_controller \<Rightarrow>
     bool \<times> ux_controller \<times> panel_call list" where
  "legacy_applyPostRebootConfig lp env target_state last_known_state mfr_ok u =
     (case ux_profile u of
        DEFAULT_STB_PROFILE \<Rightarrow> legacy_stb_post_reboot lp target_state u
      | DEFAULT_TV_PROFILE \<Rightarrow> legacy_tv_post_reboot lp env target_state last_known_state mfr_ok u
      | DEFAULT_STB_PROFILE_EUROPE \<Rightarrow> legacy_stb_eu_post_reboot lp target_state last_known_state mfr_ok u
      | DEFAULT_TV_PROFILE_EUROPE \<Rightarrow> legacy_tv_eu_post_reboot lp target_state last_known_state mfr_ok u)"

text \<open>A turn of the retry thread, and the two steps of a reboot poll.\<close>

fun legacy_background ::
    "legacy_platform \<Rightarrow> standby_table \<Rightarrow> bool \<Rightarrow> background \<Rightarrow> ux_controller \<Rightarrow> ux_controller \<times> panel_call list" where
  "legacy_background lp tbl eas (Retry_turn mfr_ok) u =
     (let (u, calls) = set_bootloader_pattern_async mfr_ok u in (u, map Dev calls))"
| "legacy_background lp tbl eas (Poll_turn rt) u = (reboot_reason_cb rt u, [])"
| "legacy_background lp tbl eas Poll_display u =
     (case poll_display u of
        None \<Rightarrow> (u, [])
      | Some st \<Rightarrow> (u\<lparr>poll_display := None\<rparr>, legacy_SetAVPortsPowerState lp tbl eas st))"

section \<open>The manager with a controller\<close>

type_synonym profile_state = "legacy_state \<times> ux_controller"

definition profile_change ::
  "pwr_cfg \<Rightarrow> legacy_platform \<Rightarrow> legacy_world \<Rightarrow> bool \<Rightarrow> power_state \<Rightarrow> int \<Rightarrow> profile_state \<Rightarrow>
   profile_state \<times> legacy_effect list" where
  "profile_change cfg lp w mfr_ok new keyCode x =
     (let (s, u) = x;
          c = core s;
          (ret, u', panel) = legacy_applyPowerStateChangeConfig lp (video_table s) (isEASInProgress c) new mfr_ok u;
          es1 = Does (PowerPrechange (cur_power c) new) # map Panel panel;
          c1 = (if OFFLINE_MAINT_REBOOT cfg \<and> new \<noteq> PWRMGR_ON then c\<lparr>standby_time := uptime (pw w)\<rparr> else c);
          (c2, es2) = persist (pw w) (set_power new c1);
          c3 = (if FP_KEY_SENSITIVITY cfg then c2\<lparr>transitionState := new, targetState := new\<rparr> else c2);
          (c4, es4) =
            (if \<not> LLAMA_PLATCO (ds_options cfg) \<and> new \<noteq> PWRMGR_ON
             then (c3\<lparr>xre_timer := now (pw w)\<rparr>, [StandbyCleanup (keyCode = KED_POWER)])
             else (c3, []))
      in ((s\<lparr>core := c4\<rparr>, u'), es1 @ map Does (es2 @ es4 @ [PlatSetPowerState new])))"

definition profile_SetPowerState ::
  "pwr_cfg \<Rightarrow> legacy_platform \<Rightarrow> legacy_world \<Rightarrow> bool \<Rightarrow> power_state \<Rightarrow> int \<Rightarrow> profile_state \<Rightarrow>
   profile_state \<times> legacy_effect list \<times> iarm_result" where
  "profile_SetPowerState cfg lp w mfr_ok new keyCode x =
     (let (s, u) = x; cur = cur_power (core s) in
      if cur \<noteq> new
      then
        (let (c1, es1) = drop_bootup cfg (core s);
             leaves = (DEEP_SLEEP_BUILD cfg \<and> cur = PWRMGR_STANDBY_DEEP_SLEEP \<and> new \<noteq> PWRMGR_STANDBY_DEEP_SLEEP);
             s1 = s\<lparr>core := c1\<rparr>
         in if leaves \<and> daemon_refuses w
            then ((s1, u), map Does es1, IARM_RESULT_SUCCESS)
            else
              (let es2 = (if leaves then [DaemonWakeup cur new] else []);
                   ((s3, u3), es3) = profile_change cfg lp w mfr_ok new keyCode (s1, u);
                   (s4, es4) = legacy_post cfg w cur new s3
               in ((s4, u3), map Does es1 @ es2 @ es3 @ es4, IARM_RESULT_SUCCESS)))
      else (x, [], IARM_RESULT_SUCCESS))"

text \<open>The transition thread and the timers, which call it.\<close>

definition profile_AsyncPowerTransition ::
  "pwr_cfg \<Rightarrow> legacy_platform \<Rightarrow> legacy_world \<Rightarrow> bool \<Rightarrow> profile_state \<Rightarrow> profile_state \<times> legacy_effect list" where
  "profile_AsyncPowerTransition cfg lp w mfr_ok x =
     (let c = core (fst x) in
      if cur_power c \<noteq> targetState c
      then (let (x', es, r) = profile_SetPowerState cfg lp w mfr_ok (targetState c) (uninit_key (pw w)) x in (x', es))
      else (x, []))"

definition profile_handleDeepsleepTimeoutWakeup ::
  "pwr_cfg \<Rightarrow> legacy_platform \<Rightarrow> legacy_world \<Rightarrow> bool \<Rightarrow> profile_state \<Rightarrow> profile_state \<times> legacy_effect list" where
  "profile_handleDeepsleepTimeoutWakeup cfg lp w mfr_ok x =
     (let (s, u) = x; es1 = [Does (DeepSleepTimeoutEvent (deep_sleep_wakeup_timeout_sec (core s)))]
      in if DISABLE_SCHD_REBOOT_AT_DEEPSLEEP (ds_options cfg)
         then (let (x', es, r) = profile_SetPowerState cfg lp w mfr_ok PWRMGR_STANDBY_LIGHT_SLEEP (uninit_key (pw w))
                                   (force_power PWRMGR_STANDBY_DEEP_SLEEP s, u)
               in (x', es1 @ es))
         else (x, es1))"

definition profile_deep_sleep_wakeup_fn ::
  "pwr_cfg \<Rightarrow> legacy_platform \<Rightarrow> legacy_world \<Rightarrow> bool \<Rightarrow> profile_state \<Rightarrow> profile_state \<times> legacy_effect list" where
  "profile_deep_sleep_wakeup_fn cfg lp w mfr_ok x =
     (let c = core (fst x); timeout = nat ((now (pw w) - timeAtDeepSleep c) mod 2 ^ 32) in
      if dsStatus w \<noteq> DeepSleepStatus_InProgress \<and> deep_sleep_wakeup_timeout_sec c \<le> timeout
      then profile_handleDeepsleepTimeoutWakeup cfg lp w mfr_ok x
      else (x, []))"

definition profile_invoke_deep_sleep ::
  "pwr_cfg \<Rightarrow> legacy_platform \<Rightarrow> legacy_world \<Rightarrow> bool \<Rightarrow> profile_state \<Rightarrow> profile_state \<times> legacy_effect list" where
  "profile_invoke_deep_sleep cfg lp w mfr_ok x =
     (let (s, u) = x;
          (x', es, r) = profile_SetPowerState cfg lp w mfr_ok PWRMGR_STANDBY_DEEP_SLEEP (uninit_key (pw w))
                          (force_power PWRMGR_STANDBY s, u)
      in (x', es))"

text \<open>\_HandleReboot: the pattern of a maintenance reboot, then the reboot.\<close>

definition profile_HandleReboot ::
  "string \<Rightarrow> string \<Rightarrow> string \<Rightarrow> bool \<Rightarrow> profile_state \<Rightarrow> profile_state \<times> legacy_effect list" where
  "profile_HandleReboot custom other rq mfr_ok x =
     (let (s, u) = x;
          (u', calls) =
            (if take (PWRMGR_MAX_REBOOT_REASON_LENGTH - 1) custom = REBOOT_REASON_MAINTENANCE
             then (let (ret, u', calls) = applyPreMaintenanceRebootConfig (cur_power (core s)) mfr_ok u in (u', calls))
             else (u, []))
      in ((s, u'), map (Panel \<circ> Dev) calls @ fst (legacy_HandleReboot custom other rq)))"

datatype profile_event = Box box_event | Beside background

type_synonym profile_input = "legacy_world \<times> bool \<times> profile_event"

fun profile_box ::
  "pwr_cfg \<Rightarrow> legacy_platform \<Rightarrow> legacy_world \<Rightarrow> bool \<Rightarrow> box_event \<Rightarrow> profile_state \<Rightarrow>
   profile_state \<times> legacy_effect list" where
  "profile_box cfg lp w ok (Request p k) x = (let (x', es, r) = profile_SetPowerState cfg lp w ok p k x in (x', es))"
| "profile_box cfg lp w ok Async_turn x =
     (if async_thread (core (fst x)) then profile_AsyncPowerTransition cfg lp w ok x else (x, []))"
| "profile_box cfg lp w ok Wakeup_timer x =
     (if wakeup_event_src (core (fst x)) then profile_deep_sleep_wakeup_fn cfg lp w ok x else (x, []))"
| "profile_box cfg lp w ok Bootup_timer x =
     (if dsleep_bootup_event_src (core (fst x)) then profile_invoke_deep_sleep cfg lp w ok x else (x, []))"
| "profile_box cfg lp w ok Timeout_thread x =
     (if WAKEUP_TIMER_EVT (ds_options cfg) then profile_handleDeepsleepTimeoutWakeup cfg lp w ok x else (x, []))"
| "profile_box cfg lp w ok (Reboot_call custom other rq) x = profile_HandleReboot custom other rq ok x"
| "profile_box cfg lp w ok e x =
     (let (s', es) = older_manager cfg lp w e (fst x) in ((s', snd x), es))"

definition profile_step ::
  "pwr_cfg \<Rightarrow> legacy_platform \<Rightarrow> profile_input \<Rightarrow> profile_state \<Rightarrow> profile_state \<times> legacy_effect list" where
  "profile_step cfg lp i x = (case i of (w, ok, e) \<Rightarrow>
     (case e of
        Box b \<Rightarrow> profile_box cfg lp w ok b x
      | Beside b \<Rightarrow>
          (let (s, u) = x;
               (u', panel) = legacy_background lp (video_table s) (isEASInProgress (core s)) b u
           in ((s, u'), map Panel panel))))"

text \<open>The start: the controller is created first and shows the loaded state before the platform is
  asked; the rounds of the synchronisation leave the ports alone.\<close>

primrec profile_sync_loop ::
  "(nat \<Rightarrow> power_state option) \<Rightarrow> power_state \<Rightarrow> nat \<Rightarrow> nat \<Rightarrow> power_state \<Rightarrow> power_state \<times> legacy_effect list" where
  "profile_sync_loop g p 0 k st = (case g k of Some v \<Rightarrow> v | None \<Rightarrow> st, [Does (PlatSetPowerState p)])"
| "profile_sync_loop g p (Suc left) k st =
     (let st' = (case g k of Some v \<Rightarrow> v | None \<Rightarrow> st)
      in if st' \<noteq> p
         then (let (r, es) = profile_sync_loop g p left (k + 1) st' in (r, Does (PlatSetPowerState p) # es))
         else (st', [Does (PlatSetPowerState p)]))"

definition profile_sync :: "(nat \<Rightarrow> power_state option) \<Rightarrow> power_state \<Rightarrow> power_state \<times> legacy_effect list" where
  "profile_sync g p = (case g 0 of
       None \<Rightarrow> (p, [])
     | Some st \<Rightarrow> (if p = st then (p, []) else profile_sync_loop g p 9 1 st))"

definition profile_start ::
  "pwr_cfg \<Rightarrow> nat \<Rightarrow> boot_env \<Rightarrow> bool \<Rightarrow> (nat \<Rightarrow> power_state option) \<Rightarrow> bool \<Rightarrow> legacy_platform \<Rightarrow> legacy_world \<Rightarrow>
   settings \<Rightarrow> power_state \<Rightarrow> bool \<Rightarrow> bool \<Rightarrow> int \<Rightarrow> (profile_state \<times> legacy_effect list) option" where
  "profile_start cfg profile_id env mfr_ok g restarted lp w st lastp cec wake t0 =
     map_option (\<lambda>u.
       let boot = (DEEP_SLEEP_BUILD cfg \<and> powerState st = PWRMGR_STANDBY_DEEP_SLEEP);
           (ret, u', panel) = legacy_applyPostRebootConfig lp env (powerState st) lastp mfr_ok u;
           (p, es) = profile_sync g (powerState st);
           ev = (if PLATCO_BOOTTO_STANDBY cfg \<and> \<not> restarted
                 then [Does (ModeChanged \<lparr>mc_curState = PWRMGR_OFF, mc_newState = PWRMGR_STANDBY,
                               mc_deep_sleep_timeout = stack_timeout w, mc_nwStandbyMode = stack_nwStandby w\<rparr>)]
                 else [])
       in ((\<lparr>core = (pwr_init (st\<lparr>powerState := p\<rparr>) lastp cec wake t0)\<lparr>dsleep_bootup_event_src := boot\<rparr>,
             video_table = standby_boot\<rparr>, u'), map Panel panel @ es @ ev))
       (initialize_ux_controller profile_id)"

section \<open>What is compared\<close>

fun panel_dev :: "panel_call \<Rightarrow> ds_call option" where
  "panel_dev (Dev d) = Some d"
| "panel_dev (Set_stereo_mode a b) = None"

fun panel_of :: "legacy_effect \<Rightarrow> ds_call option" where
  "panel_of (Panel c) = panel_dev c"
| "panel_of (Does e) = None"
| "panel_of (DaemonWakeup a b) = None"

fun change_of :: "legacy_effect \<Rightarrow> mode_change option" where
  "change_of (Does (ModeChanged mc)) = Some mc"
| "change_of e = None"

fun off_panel :: "legacy_effect \<Rightarrow> bool" where
  "off_panel (Panel c) = False"
| "off_panel e = True"

definition devs :: "panel_call list \<Rightarrow> ds_call list" where
  "devs = List.map_filter panel_dev"

definition dev_calls :: "legacy_effect list \<Rightarrow> ds_call list" where
  "dev_calls = List.map_filter panel_of"

definition changes :: "legacy_effect list \<Rightarrow> mode_change list" where
  "changes = List.map_filter change_of"

text \<open>Video ports, boot loader patterns and, if led, the power LED.  Audio differs in how the ports are
  reached.\<close>

fun watched :: "bool \<Rightarrow> ds_call \<Rightarrow> bool" where
  "watched led (Video_enable n) = True"
| "watched led (Video_disable n) = True"
| "watched led (BL_pattern q ok) = True"
| "watched led (Power_led b) = led"
| "watched led c = False"

text \<open>What the listener of the device settings manager hears of an event of the older manager: the mode
  changes that the manager broadcasts, the reboot configuration, the standby settings, and the turns of
  its own retry thread and reboot poll.\<close>

definition heard_of :: "profile_input \<Rightarrow> profile_state \<Rightarrow> legacy_effect list \<Rightarrow> ds_input list" where
  "heard_of i x es = (case i of (w, ok, e) \<Rightarrow>
     (case e of
        Box (Reboot_call custom other rq) \<Rightarrow>
          [Set_reboot_config (take (PWRMGR_MAX_REBOOT_REASON_LENGTH - 1) custom) (cur_power (core (fst x))) ok]
      | Box (Standby_video port on) \<Rightarrow> [Set_standby_video port on]
      | Box b \<Rightarrow> map (\<lambda>mc. Pwr_event True True (mc_curState mc) (mc_newState mc) ok) (changes es)
      | Beside b \<Rightarrow> [Background b]))"

primrec heard_run :: "pwr_cfg \<Rightarrow> legacy_platform \<Rightarrow> profile_input list \<Rightarrow> profile_state \<Rightarrow> ds_input list" where
  "heard_run cfg lp [] x = []"
| "heard_run cfg lp (i # is) x =
     (let (x', es) = profile_step cfg lp i x in heard_of i x es @ heard_run cfg lp is x')"

text \<open>A standby setting is compared only while the state the listener booted in and the current one are
  both standby states or both not (see Pwr\_Generations); the LED only without the fast key path.\<close>

fun fits_boot :: "power_state \<Rightarrow> profile_input \<Rightarrow> profile_state \<Rightarrow> bool" where
  "fits_boot b (w, ok, Box (Standby_video port on)) x = (awake b = awake (cur_power (core (fst x))))"
| "fits_boot b i x = True"

primrec fits_run :: "pwr_cfg \<Rightarrow> legacy_platform \<Rightarrow> power_state \<Rightarrow> profile_input list \<Rightarrow> profile_state \<Rightarrow> bool" where
  "fits_run cfg lp b [] x = True"
| "fits_run cfg lp b (i # is) x = (fits_boot b i x \<and> fits_run cfg lp b is (fst (profile_step cfg lp i x)))"

fun fast_key :: "profile_input \<Rightarrow> bool" where
  "fast_key (w, ok, Box (Async_request cur new)) = True"
| "fast_key i = False"

section \<open>Lemmas: the controller\<close>

lemma filter_map_append [simp]: "List.map_filter f (xs @ ys) = List.map_filter f xs @ List.map_filter f ys"
  by (simp add: map_filter_def)

lemma filter_map_simps [simp]:
  "List.map_filter f [] = []"
  "List.map_filter f (x # xs) = (case f x of None \<Rightarrow> List.map_filter f xs | Some y \<Rightarrow> y # List.map_filter f xs)"
  by (simp_all add: map_filter_def split: option.split)

lemma devs_simps [simp]:
  "devs [] = []" "devs (xs @ ys) = devs xs @ devs ys" "devs (map Dev cs) = cs"
  "devs (Dev d # ps) = d # devs ps"
  by (simp_all add: devs_def) (induction cs; simp)

lemma dev_calls_simps [simp]:
  "dev_calls [] = []" "dev_calls (es @ fs) = dev_calls es @ dev_calls fs" "dev_calls (map Panel ps) = devs ps"
  "dev_calls (map (Panel \<circ> Dev) cs) = cs" "dev_calls (map Does ds1) = []" "dev_calls (map (Does \<circ> f) gs) = []"
  "dev_calls (Does d # es) = dev_calls es" "dev_calls (DaemonWakeup a b # es) = dev_calls es"
  "dev_calls (Panel p # es) = devs [p] @ dev_calls es"
proof -
  show "dev_calls (map Panel ps) = devs ps" by (induction ps) (simp_all add: dev_calls_def devs_def split: option.split)
  show "dev_calls (map (Panel \<circ> Dev) cs) = cs" by (induction cs) (simp_all add: dev_calls_def)
  show "dev_calls (map Does ds1) = []" by (induction ds1) (simp_all add: dev_calls_def)
  show "dev_calls (map (Does \<circ> f) gs) = []" by (induction gs) (simp_all add: dev_calls_def)
qed (simp_all add: dev_calls_def devs_def split: option.split)

lemma changes_simps [simp]:
  "changes [] = []" "changes (es @ fs) = changes es @ changes fs" "changes (map Panel ps) = []"
  "changes (map (Panel \<circ> Dev) cs) = []" "changes (map (Does \<circ> ResetEffect) rs1) = []"
  "changes (DaemonWakeup a b # es) = changes es" "changes (Panel c # es) = changes es"
  "changes (Does d # es) = (case change_of (Does d) of None \<Rightarrow> changes es | Some mc \<Rightarrow> mc # changes es)"
proof -
  show "changes (map Panel ps) = []" by (induction ps) (simp_all add: changes_def)
  show "changes (map (Panel \<circ> Dev) cs) = []" by (induction cs) (simp_all add: changes_def)
  show "changes (map (Does \<circ> ResetEffect) rs1) = []" by (induction rs1) (simp_all add: changes_def)
qed (simp_all add: changes_def split: option.split)

lemma audio_unwatched [simp]:
  "filter (watched led) (devs (fst (legacy_audio lp wanted on))) = []"
  "filter (watched led) (devs (fst (legacy_stereo lp eas))) = []"
  "filter (watched led) (map (\<lambda>i. Audio_enable i on) is) = []"
  by (auto simp: filter_empty_conv devs_def map_filter_def legacy_audio_def legacy_stereo_def
      dest!: port_loop_calls split: if_splits)

lemma ports_watched:
  "filter (watched led) (devs (legacy_SetAVPortsPowerState lp tbl eas st)) =
   filter (watched led) (SetAVPortsPowerState (dev lp) tbl st)"
proof -
  have then_audio: "filter (watched led) (devs (fst (and_then a b))) = filter (watched led) (devs (fst a))"
    if "filter (watched led) (devs (fst b)) = []" for a b
    using that by (simp add: and_then_def)
  have video: "devs (fst (legacy_video lp act)) = fst (video_ports (dev lp) act)" for act
    by (simp add: legacy_video_def case_prod_beta)
  show ?thesis
    by (cases "st = PWRMGR_ON"; cases "st = PWRMGR_OFF")
       (simp_all add: legacy_SetAVPortsPowerState_def SetAVPortsPowerState_def then_audio video
          case_prod_beta Let_def)
qed

text \<open>A method of the older class and the method of the newer one.\<close>

definition same_method :: "bool \<times> ux_controller \<times> panel_call list \<Rightarrow> bool \<times> ux_controller \<times> ds_call list \<Rightarrow> bool" where
  "same_method a b = (case (a, b) of ((ret, u, ps), (ret', u', cs)) \<Rightarrow>
     ret = ret' \<and> u = u' \<and> (\<forall>led. filter (watched led) (devs ps) = filter (watched led) cs))"

lemma change_method:
  "same_method (legacy_applyPowerStateChangeConfig lp tbl eas st ok u) (applyPowerStateChangeConfig (dev lp) tbl st ok u)"
proof -
  have first: "(if \<not> firstPowerTransitionComplete u then u\<lparr>firstPowerTransitionComplete := True\<rparr> else u)
      = u\<lparr>firstPowerTransitionComplete := True\<rparr>" by simp
  show ?thesis
    by (cases "ux_profile u")
       (simp_all add: legacy_applyPowerStateChangeConfig_def applyPowerStateChangeConfig_def same_method_def
          legacy_stb_change_def legacy_tv_change_def legacy_stb_eu_change_def legacy_tv_eu_change_def first
          ux_change_defs legacy_sync_power_led_def ports_watched Let_def)
qed

lemma post_reboot_method:
  "same_method (legacy_applyPostRebootConfig lp env st lastp ok u)
     (applyPostRebootConfig (dev lp) standby_boot env st lastp ok u)"
proof -
  note defs = legacy_applyPostRebootConfig_def applyPostRebootConfig_def same_method_def
    legacy_stb_post_reboot_def legacy_tv_post_reboot_def legacy_stb_eu_post_reboot_def
    legacy_tv_eu_post_reboot_def stb_applyPostRebootConfig_def tv_applyPostRebootConfig_def
    stb_eu_applyPostRebootConfig_def tv_eu_applyPostRebootConfig_def legacy_sync_power_led_def
    ux_change_defs ports_watched case_prod_beta Let_def
  show ?thesis
  proof (cases "lastp = PWRMGR_ON \<and> st = PWRMGR_STANDBY")
    case True
    then show ?thesis
      by (cases "ux_profile u"; cases "reboot_reason env"; cases "force_display env \<or> tv_in_factory env")
         (simp_all add: defs)
  next
    case False
    then show ?thesis by (cases "ux_profile u") (simp_all only: defs if_False profile.case, simp_all add: ports_watched)
  qed
qed

lemma background_method:
  "fst (legacy_background lp tbl eas b u) = fst (background_step (dev lp) tbl b u) \<and>
   filter (watched led) (devs (snd (legacy_background lp tbl eas b u))) =
   filter (watched led) (snd (background_step (dev lp) tbl b u))"
  by (cases b) (auto simp: reboot_reason_display_def sync_display_ports_with_power_state_def ports_watched
      case_prod_beta split: option.split)

section \<open>Lemmas: the change of the power state\<close>

text \<open>Only the panel differs from the build without a profile.\<close>

lemma off_panel_simps [simp]:
  "filter off_panel (map Panel ps) = []" "filter off_panel (map (Panel \<circ> Dev) cs) = []"
  "filter off_panel (map Does es1) = map Does es1" "filter off_panel (map (Does \<circ> f) gs) = map (Does \<circ> f) gs"
  by (auto simp: filter_empty_conv filter_id_conv)

lemma profile_change_core:
  "fst (fst (profile_change cfg lp w ok new k (s, u))) = fst (legacy_change cfg lp w new k s)"
  "filter off_panel (snd (profile_change cfg lp w ok new k (s, u)))
     = filter off_panel (snd (legacy_change cfg lp w new k s))"
  by (simp_all add: profile_change_def legacy_change_def Let_def case_prod_beta del: map_append)

lemma profile_change_panel:
  "snd (fst (profile_change cfg lp w ok new k (s, u))) =
     fst (snd (legacy_applyPowerStateChangeConfig lp (video_table s) (isEASInProgress (core s)) new ok u))"
  "dev_calls (snd (profile_change cfg lp w ok new k (s, u))) =
     devs (snd (snd (legacy_applyPowerStateChangeConfig lp (video_table s) (isEASInProgress (core s)) new ok u)))"
  "changes (snd (profile_change cfg lp w ok new k (s, u))) = []"
  "video_table (fst (fst (profile_change cfg lp w ok new k (s, u)))) = video_table s"
  by (simp_all add: profile_change_def persist_def Let_def case_prod_beta)

lemma legacy_post_parts:
  "\<exists>mc. changes (snd (legacy_post cfg w cur new s)) = [mc] \<and> mc_newState mc = new"
  "dev_calls (snd (legacy_post cfg w cur new s)) = []"
  "video_table (fst (legacy_post cfg w cur new s)) = video_table s"
  by (simp_all add: legacy_post_def arm_wakeup_timer_def Let_def case_prod_beta)

text \<open>What a handler does to the panel: nothing, or what the controller does at one mode change.\<close>

definition shows_change :: "legacy_platform \<Rightarrow> bool \<Rightarrow> profile_state \<Rightarrow> profile_state \<Rightarrow> legacy_effect list \<Rightarrow> bool" where
  "shows_change lp ok x x' es =
     (video_table (fst x') = video_table (fst x) \<and>
      (changes es = [] \<and> snd x' = snd x \<and> dev_calls es = [] \<or>
       (\<exists>mc eas. changes es = [mc] \<and>
          snd x' = fst (snd (legacy_applyPowerStateChangeConfig lp (video_table (fst x)) eas (mc_newState mc) ok (snd x))) \<and>
          dev_calls es = devs (snd (snd (legacy_applyPowerStateChangeConfig lp (video_table (fst x)) eas (mc_newState mc) ok (snd x)))))))"

lemma shows_nothing: "changes es = [] \<Longrightarrow> dev_calls es = [] \<Longrightarrow> shows_change lp ok x x es"
  by (simp add: shows_change_def)

lemma drop_bootup_parts [simp]:
  "changes (map Does (snd (drop_bootup cfg c))) = []"
  by (simp add: drop_bootup_def)

lemma profile_SetPowerState_shows:
  "shows_change lp ok x (fst (profile_SetPowerState cfg lp w ok new k x))
     (fst (snd (profile_SetPowerState cfg lp w ok new k x)))"
proof -
  obtain s u where x: "x = (s, u)" by fastforce
  obtain mc where mc: "changes (snd (legacy_post cfg w (cur_power (core s)) new
      (fst (fst (profile_change cfg lp w ok new k (s\<lparr>core := fst (drop_bootup cfg (core s))\<rparr>, u)))))) = [mc]"
    "mc_newState mc = new" using legacy_post_parts(1) by blast
  show ?thesis
  proof (cases "cur_power (core s) = new")
    case True
    then show ?thesis by (simp add: profile_SetPowerState_def x shows_nothing)
  next
    case False
    then show ?thesis using mc
      by (auto simp: profile_SetPowerState_def x shows_change_def Let_def case_prod_beta
          profile_change_panel legacy_post_parts(2,3))
  qed
qed

lemma profile_SetPowerState_core:
  "fst (fst (profile_SetPowerState cfg lp w ok new k (s, u))) = fst (legacy_SetPowerState cfg lp w new k s) \<and>
   filter off_panel (fst (snd (profile_SetPowerState cfg lp w ok new k (s, u))))
     = filter off_panel (fst (snd (legacy_SetPowerState cfg lp w new k s)))"
  by (auto simp: profile_SetPowerState_def legacy_SetPowerState_def Let_def case_prod_beta profile_change_core)

text \<open>Every event keeps the state and the other effects of the manager without a controller.\<close>

lemma profile_box_core:
  "fst (fst (profile_box cfg lp w ok e (s, u))) = fst (older_manager cfg lp w e s) \<and>
   filter off_panel (snd (profile_box cfg lp w ok e (s, u))) = filter off_panel (snd (older_manager cfg lp w e s))"
  using profile_SetPowerState_core
  by (cases e) (auto simp: case_prod_beta Let_def profile_AsyncPowerTransition_def legacy_AsyncPowerTransition_def
      profile_deep_sleep_wakeup_fn_def legacy_deep_sleep_wakeup_fn_def profile_handleDeepsleepTimeoutWakeup_def
      legacy_handleDeepsleepTimeoutWakeup_def profile_invoke_deep_sleep_def
      legacy_invoke_deep_sleep_on_bootup_timeout_def profile_HandleReboot_def)

section \<open>Lemmas: the listener on the same changes\<close>

definition same_panel :: "profile_state \<Rightarrow> listener \<Rightarrow> bool" where
  "same_panel x l = (ux l = Some (snd x) \<and> table l = video_table (fst x))"

lemma same_panel_change:
  assumes "same_panel x l" and "shows_change lp ok x x' es"
    and "run_trace (ds_step (dev lp)) (map (\<lambda>mc. Pwr_event True True (mc_curState mc) (mc_newState mc) ok) (changes es)) l
      = (l', cs)"
  shows "same_panel x' l' \<and> filter (watched led) (dev_calls es) = filter (watched led) cs"
proof (cases "changes es")
  case Nil
  then show ?thesis using assms by (auto simp: shows_change_def same_panel_def)
next
  case (Cons mc rest)
  then obtain eas where es: "changes es = [mc]"
    "snd x' = fst (snd (legacy_applyPowerStateChangeConfig lp (video_table (fst x)) eas (mc_newState mc) ok (snd x)))"
    "dev_calls es = devs (snd (snd (legacy_applyPowerStateChangeConfig lp (video_table (fst x)) eas (mc_newState mc) ok (snd x))))"
    "video_table (fst x') = video_table (fst x)"
    using assms(2) by (auto simp: shows_change_def)
  show ?thesis
    using assms(1,3) change_method [of lp "video_table (fst x)" eas "mc_newState mc" ok "snd x"]
    by (auto simp: es same_panel_def same_method_def PwrEventHandler_def Let_def case_prod_beta)
qed

text \<open>The events that change the power state, or nothing.\<close>

fun plain_event :: "box_event \<Rightarrow> bool" where
  "plain_event (Reboot_call custom other rq) = False"
| "plain_event (Standby_video port on) = False"
| "plain_event (Async_request cur new) = False"
| "plain_event e = True"

lemma forced_table [simp]: "video_table (force_power p s) = video_table s"
  by (simp add: force_power_def)

lemma profile_timeout_shows:
  "shows_change lp ok x (fst (profile_handleDeepsleepTimeoutWakeup cfg lp w ok x))
     (snd (profile_handleDeepsleepTimeoutWakeup cfg lp w ok x))"
  using profile_SetPowerState_shows [of lp ok "(force_power PWRMGR_STANDBY_DEEP_SLEEP (fst x), snd x)" cfg w
      PWRMGR_STANDBY_LIGHT_SLEEP "uninit_key (pw w)"]
  by (simp add: profile_handleDeepsleepTimeoutWakeup_def shows_change_def case_prod_beta Let_def)

lemma profile_box_shows:
  assumes "plain_event e"
  shows "shows_change lp ok x (fst (profile_box cfg lp w ok e x)) (snd (profile_box cfg lp w ok e x))"
proof -
  have invoke: "shows_change lp ok x (fst (profile_invoke_deep_sleep cfg lp w ok x))
      (snd (profile_invoke_deep_sleep cfg lp w ok x))"
    using profile_SetPowerState_shows [of lp ok "(force_power PWRMGR_STANDBY (fst x), snd x)" cfg w
        PWRMGR_STANDBY_DEEP_SLEEP "uninit_key (pw w)"]
    by (simp add: profile_invoke_deep_sleep_def shows_change_def case_prod_beta Let_def)
  have mode: "shows_change lp ok x ((fst (legacy_SysModeChange m (fst x)), snd x)) []" for m
    by (simp add: shows_change_def legacy_SysModeChange_def)
  show ?thesis
    using assms invoke mode profile_SetPowerState_shows profile_timeout_shows
    by (cases e) (simp_all add: case_prod_beta Let_def shows_nothing profile_AsyncPowerTransition_def
        profile_deep_sleep_wakeup_fn_def)
qed

lemma standby_same:
  assumes "same_panel x l" and "awake (boot_state l) = awake (cur_power (core (fst x)))"
    and "legacy_SetStandbyVideoState lp port on (fst x) = (s', r, es)"
    and "SetStandbyVideoState (dev lp) port on l = (l', r', cs)"
  shows "same_panel (s', snd x) l' \<and> r = r' \<and> dev_calls es = cs"
  using assms by (cases port) (auto simp: same_panel_def legacy_SetStandbyVideoState_def SetStandbyVideoState_def
      awake_def Let_def dev_calls_def split: if_splits)

lemma reboot_same:
  assumes "same_panel x l" and "profile_HandleReboot custom other rq ok x = (x', es)"
    and "SetRebootConfig (take (PWRMGR_MAX_REBOOT_REASON_LENGTH - 1) custom) (cur_power (core (fst x))) ok l = (l', cs)"
  shows "same_panel x' l' \<and> dev_calls es = cs"
  using assms by (auto simp: same_panel_def profile_HandleReboot_def SetRebootConfig_def legacy_HandleReboot_def
      case_prod_beta Let_def split: if_splits)

lemma profile_step_same:
  assumes "same_panel x l" and "fits_boot (boot_state l) i x" and "led \<longrightarrow> \<not> fast_key i"
    and "profile_step cfg lp i x = (x', es)"
    and "run_trace (ds_step (dev lp)) (heard_of i x es) l = (l', cs)"
  shows "same_panel x' l' \<and> filter (watched led) (dev_calls es) = filter (watched led) cs"
proof -
  obtain w ok e where i: "i = (w, ok, e)" by (metis prod_cases3)
  show ?thesis
  proof (cases e)
    case (Beside b)
    note bg = background_method [of lp "video_table (fst x)" "isEASInProgress (core (fst x))" b "snd x" led]
    show ?thesis using assms(1,4,5) bg
      by (auto simp: i Beside profile_step_def heard_of_def same_panel_def background_turn_def case_prod_beta Let_def
          simp del: legacy_background.simps background_step.simps)
  next
    case (Box b)
    have step: "profile_box cfg lp w ok b x = (x', es)" using assms(4) by (simp add: i Box profile_step_def)
    consider "plain_event b" | custom other rq where "b = Reboot_call custom other rq"
      | port on where "b = Standby_video port on" | cur new where "b = Async_request cur new"
      by (cases b) auto
    then show ?thesis
    proof cases
      case 1
      then have "heard_of i x es =
          map (\<lambda>mc. Pwr_event True True (mc_curState mc) (mc_newState mc) ok) (changes es)"
        by (cases b) (simp_all add: i Box heard_of_def)
      with same_panel_change [OF assms(1), of lp ok x' es] profile_box_shows [OF 1, of lp ok x cfg w] step assms(5)
      show ?thesis by simp
    next
      case 2
      then show ?thesis using assms(1,5) step reboot_same [of x l custom other rq ok x' es]
        by (auto simp: i Box heard_of_def case_prod_beta)
    next
      case 3
      obtain s' r fs where l: "legacy_SetStandbyVideoState lp port on (fst x) = (s', r, fs)" by (metis prod_cases3)
      obtain l2 r2 cs2 where d: "SetStandbyVideoState (dev lp) port on l = (l2, r2, cs2)" by (metis prod_cases3)
      from standby_same [OF assms(1) _ l d] show ?thesis using assms(2,5) step
        by (auto simp: i Box 3 heard_of_def l d)
    next
      case 4
      then show ?thesis using assms(1,3,5) step
        by (auto simp: i Box heard_of_def legacy_SetPowerStateAsync_def legacy_SetLEDStatus_def same_panel_def
            changes_def dev_calls_def Let_def split: if_splits)
    qed
  qed
qed

lemma profile_run_same:
  assumes "same_panel x l" and "fits_run cfg lp (boot_state l) is x" and "led \<longrightarrow> \<not> list_ex fast_key is"
    and "run_trace (profile_step cfg lp) is x = (x', es)"
    and "run_trace (ds_step (dev lp)) (heard_run cfg lp is x) l = (l', cs)"
  shows "same_panel x' l' \<and> filter (watched led) (dev_calls es) = filter (watched led) cs"
  using assms
proof (induction "is" arbitrary: x l es cs)
  case (Cons i "is")
  obtain x1 es1 where s: "profile_step cfg lp i x = (x1, es1)" by fastforce
  obtain l1 cs1 where d: "run_trace (ds_step (dev lp)) (heard_of i x es1) l = (l1, cs1)" by fastforce
  obtain es2 where es: "run_trace (profile_step cfg lp) is x1 = (x', es2)" "es = es1 @ es2"
    using Cons.prems(4) by (auto simp: s split: prod.splits)
  obtain cs2 where cs: "run_trace (ds_step (dev lp)) (heard_run cfg lp is x1) l1 = (l', cs2)" "cs = cs1 @ cs2"
    using Cons.prems(5) by (auto simp: s run_trace_append d split: prod.splits)
  have one: "same_panel x1 l1 \<and> filter (watched led) (dev_calls es1) = filter (watched led) cs1"
    using profile_step_same [OF Cons.prems(1) _ _ s d, of led] Cons.prems(2,3) by simp
  have "boot_state l1 = boot_state l" using ds_run_boot_state [of "dev lp" "heard_of i x es1" l] by (simp add: d)
  then have "fits_run cfg lp (boot_state l1) is x1" using Cons.prems(2) by (simp add: s)
  with Cons.IH [OF _ this _ es(1) cs(1)] one Cons.prems(3) show ?case by (simp add: es cs)
qed simp

text \<open>The same events for a manager without a controller.\<close>

definition plain_run ::
  "pwr_cfg \<Rightarrow> legacy_platform \<Rightarrow> profile_input list \<Rightarrow> legacy_state \<Rightarrow> legacy_state \<times> legacy_effect list" where
  "plain_run cfg lp is = run_trace (\<lambda>(w, ok, e). case e of Box b \<Rightarrow> older_manager cfg lp w b | Beside b \<Rightarrow> (\<lambda>s. (s, []))) is"

lemma profile_run_core:
  "fst (fst (run_trace (profile_step cfg lp) is x)) = fst (plain_run cfg lp is (fst x)) \<and>
   filter off_panel (snd (run_trace (profile_step cfg lp) is x)) = filter off_panel (snd (plain_run cfg lp is (fst x)))"
  unfolding plain_run_def
proof (induction "is" arbitrary: x)
  case (Cons i "is")
  obtain w ok e where i: "i = (w, ok, e)" by (metis prod_cases3)
  obtain s u where x: "x = (s, u)" by fastforce
  show ?case
  proof (cases e)
    case (Box b)
    obtain s1 u1 es1 where p: "profile_box cfg lp w ok b (s, u) = ((s1, u1), es1)" by (metis prod.exhaust)
    obtain s2 es2 where o: "older_manager cfg lp w b s = (s2, es2)" by fastforce
    from profile_box_core [of cfg lp w ok b s u] Cons.IH [of "(s1, u1)"] show ?thesis
      by (simp add: i x Box profile_step_def p o case_prod_beta)
  next
    case (Beside b)
    with Cons.IH show ?thesis by (simp add: i x profile_step_def case_prod_beta Let_def)
  qed
qed simp

lemma profile_sync_same:
  "fst (profile_sync g p) = fst (legacy_sync g lp p) \<and>
   filter off_panel (snd (profile_sync g p)) = filter off_panel (snd (legacy_sync g lp p)) \<and> dev_calls (snd (profile_sync g p)) = []"
proof -
  have loop: "fst (profile_sync_loop g p n k st) = fst (legacy_sync_loop g lp p n k st) \<and>
      filter off_panel (snd (profile_sync_loop g p n k st)) = filter off_panel (snd (legacy_sync_loop g lp p n k st)) \<and>
      dev_calls (snd (profile_sync_loop g p n k st)) = []" for n k st
    by (induction n arbitrary: k st) (simp_all add: case_prod_beta Let_def)
  show ?thesis using loop by (simp add: profile_sync_def legacy_sync_def case_prod_beta Let_def split: option.split)
qed

lemma profile_start_same:
  assumes "profile_start cfg i env ok g restarted lp w st lastp cec wake t0 = Some (x, es)"
    and "initPwrEventListner (dev lp) (Some i) (Some (powerState st, lastp)) env ok = (l, cs)"
  shows "same_panel x l" and "boot_state l = powerState st"
    and "filter (watched led) (dev_calls es) = filter (watched led) cs"
    and "fst x = fst (legacy_start cfg g restarted lp w st lastp cec wake t0)"
    and "filter off_panel es = filter off_panel (snd (legacy_start cfg g restarted lp w st lastp cec wake t0))"
proof -
  obtain u where u: "initialize_ux_controller i = Some u" using assms(1) by (auto simp: profile_start_def)
  obtain p es1 where sync: "profile_sync g (powerState st) = (p, es1)" by fastforce
  obtain es2 where lsync: "legacy_sync g lp (powerState st) = (p, es2)" "filter off_panel es1 = filter off_panel es2"
    "dev_calls es1 = []" using profile_sync_same [of g "powerState st" lp] by (simp add: sync) (metis surjective_pairing)
  note post = post_reboot_method [of lp env "powerState st" lastp ok u]
  show "same_panel x l" "boot_state l = powerState st" "filter (watched led) (dev_calls es) = filter (watched led) cs"
    "fst x = fst (legacy_start cfg g restarted lp w st lastp cec wake t0)"
    "filter off_panel es = filter off_panel (snd (legacy_start cfg g restarted lp w st lastp cec wake t0))"
    using assms post
    by (auto simp: profile_start_def initPwrEventListner_def legacy_start_def u sync lsync same_panel_def same_method_def
        case_prod_beta Let_def split: if_splits)
qed

section \<open>Properties\<close>

text \<open>C13. A product profile does in the older power manager what it does in the newer listener, and
  nothing else.  Start the older manager with a profile, and the listener of the device settings
  manager with the same profile and the loaded power state; let the manager handle any events, and
  the listener hear its mode changes, its reboots, its standby settings and the turns of its
  threads.  Then both controllers are in the same state, with the same standby settings, and the
  video ports and boot loader patterns have been set in the same order, and the LED too if no fast
  key request came; and the state and all other effects of the manager are those of a manager
  without a profile.  The standby settings come while the booted and the current state are both
  standby states or both not.\<close>
theorem controller_keeps_behaviour:
  assumes "profile_start cfg i env ok g restarted lp w st lastp cec wake t0 = Some (x0, es0)"
    and "initPwrEventListner (dev lp) (Some i) (Some (powerState st, lastp)) env ok = (l0, cs0)"
    and "fits_run cfg lp (powerState st) is x0" and "led \<longrightarrow> \<not> list_ex fast_key is"
    and "run_trace (profile_step cfg lp) is x0 = (x, es)"
    and "run_trace (ds_step (dev lp)) (heard_run cfg lp is x0) l0 = (l, cs)"
    and "legacy_start cfg g restarted lp w st lastp cec wake t0 = (s0, fs0)"
    and "plain_run cfg lp is s0 = (s, fs)"
  shows "ux l = Some (snd x) \<and> table l = video_table (fst x) \<and>
    filter (watched led) (dev_calls (es0 @ es)) = filter (watched led) (cs0 @ cs) \<and>
    fst x = s \<and> filter off_panel (es0 @ es) = filter off_panel (fs0 @ fs)"
proof -
  note start = profile_start_same [OF assms(1,2)]
  have "fst x0 = s0" "filter off_panel es0 = filter off_panel fs0" using start(4,5) by (simp_all add: assms(7))
  moreover have "fst x = s \<and> filter off_panel es = filter off_panel fs"
    using profile_run_core [of cfg lp "is" x0] assms(5,8) \<open>fst x0 = s0\<close> by simp
  moreover have "same_panel x l \<and> filter (watched led) (dev_calls es) = filter (watched led) cs"
    using profile_run_same [OF start(1) _ assms(4,5,6)] assms(3) by (simp add: start(2))
  ultimately show ?thesis using start(3) [of led] by (simp add: same_panel_def)
qed

text \<open>A TV that boots ON is sent to standby, and its retry thread turns once.\<close>

definition tv_evening :: "profile_input list" where
  "tv_evening = [(evening_world, True, Box (Request PWRMGR_STANDBY 0)),
     (evening_world, True, Beside (Retry_turn True))]"

theorem controller_keeps_behaviour_witness:
  "\<exists>x0 es0 l0 cs0 x es l cs.
     profile_start (box_cfg False) 1 boot_example True (\<lambda>_. Some PWRMGR_ON) False old_platform
        evening_world (m_settings (box PWRMGR_ON)) PWRMGR_ON False False 0 = Some (x0, es0)
   \<and> initPwrEventListner (dev old_platform) (Some 1) (Some (PWRMGR_ON, PWRMGR_ON)) boot_example True = (l0, cs0)
   \<and> run_trace (profile_step (box_cfg False) old_platform) tv_evening x0 = (x, es)
   \<and> run_trace (ds_step (dev old_platform)) (heard_run (box_cfg False) old_platform tv_evening x0) l0 = (l, cs)
   \<and> ux l = Some (snd x) \<and> ux_profile (snd x0) = DEFAULT_TV_PROFILE
   \<and> filter (watched True) (dev_calls (es0 @ es)) = filter (watched True) (cs0 @ cs)"
proof -
  let ?w = "evening_world" and ?st = "m_settings (box PWRMGR_ON)"
  have on: "powerState ?st = PWRMGR_ON" by (simp add: box_defs)
  obtain x0 es0 where start: "profile_start (box_cfg False) 1 boot_example True (\<lambda>_. Some PWRMGR_ON) False old_platform
        ?w ?st PWRMGR_ON False False 0 = Some (x0, es0)" and tv: "ux_profile (snd x0) = DEFAULT_TV_PROFILE"
    by (auto simp: profile_start_def initialize_ux_controller_def initialize_safe_defaults_def Let_def case_prod_beta
        legacy_applyPostRebootConfig_def legacy_tv_post_reboot_def ux_pattern_defs on)
  obtain l0 cs0 where listener: "initPwrEventListner (dev old_platform) (Some 1) (Some (powerState ?st, PWRMGR_ON))
      boot_example True = (l0, cs0)" by fastforce
  obtain x es where run: "run_trace (profile_step (box_cfg False) old_platform) tv_evening x0 = (x, es)" by fastforce
  obtain l cs where heard: "run_trace (ds_step (dev old_platform))
      (heard_run (box_cfg False) old_platform tv_evening x0) l0 = (l, cs)" by fastforce
  obtain s0 fs0 where plain: "legacy_start (box_cfg False) (\<lambda>_. Some PWRMGR_ON) False old_platform ?w ?st PWRMGR_ON
      False False 0 = (s0, fs0)" by fastforce
  obtain s fs where bare: "plain_run (box_cfg False) old_platform tv_evening s0 = (s, fs)" by fastforce
  have fits: "fits_run (box_cfg False) old_platform (powerState ?st) tv_evening x0" "\<not> list_ex fast_key tv_evening"
    by (simp_all add: tv_evening_def)
  show ?thesis
    using controller_keeps_behaviour [OF start listener fits(1) _ run heard plain bare, of True] fits(2)
      start tv listener run heard unfolding on by blast
qed

section \<open>Where the profile is not heard\<close>

text \<open>The fast key path lights the LED as if there were no profile, and a change to standby on a TV
  profile does not correct it: the LED of a TV without LED in low power goes off, although the profile
  keeps it on.\<close>

lemma fast_key_ignores_profile:
  assumes "async_thread (core s)" and "cur \<noteq> new" and "new \<noteq> PWRMGR_ON"
  shows "dev_calls (snd (profile_box cfg lp w ok (Async_request cur new) (s, u))) =
    [Power_led (led_on_in_low_power (dev lp))]"
  using assms by (simp add: legacy_SetPowerStateAsync_def legacy_SetLEDStatus_def Let_def devs_def)

lemma tv_change_keeps_led:
  assumes "is_tv (ux_profile u)"
  shows "filter (\<lambda>c. \<exists>b. c = Power_led b)
    (devs (snd (snd (legacy_applyPowerStateChangeConfig lp tbl eas new ok u)))) = []"
proof -
  have leds: "filter (\<lambda>c. \<exists>b. c = Power_led b) cs = filter (\<lambda>c. \<exists>b. c = Power_led b) (filter (watched True) cs)" for cs
    by (induction cs) auto
  have ports: "filter (\<lambda>c. watched True c \<and> (\<exists>b. c = Power_led b)) (SetAVPortsPowerState p tbl st) = []" for p st
    using ports_no_led [of p tbl st] by (fastforce simp: seen_def filter_empty_conv)
  show ?thesis
    using assms change_method [of lp tbl eas new ok u]
    by (subst leds) (cases "ux_profile u"; simp add: same_method_def is_tv_def applyPowerStateChangeConfig_def
        ux_change_defs case_prod_beta Let_def leds [symmetric] ports)
qed

text \<open>The ports are set for the loaded state before the platform is asked, and not again: a platform
  that keeps another state is taken over after ten rounds without a port being touched.\<close>

lemma sync_leaves_ports:
  fixes lp :: legacy_platform
  shows "dev_calls (snd (profile_sync (\<lambda>_. Some q) p)) = [] \<and> fst (profile_sync (\<lambda>_. Some q) p) = q"
proof -
  have "fst (profile_sync_loop (\<lambda>_. Some q) p n k q) = q" for n k
    by (induction n arbitrary: k) (simp_all add: case_prod_beta Let_def)
  then have "fst (profile_sync (\<lambda>_. Some q) p) = q" by (simp add: profile_sync_def)
  then show ?thesis using profile_sync_same [of "\<lambda>_. Some q" p lp] by simp
qed

end
