(* ===== verification/Spec2Isabelle.thy ===== *)
theory Spec2Isabelle
  imports Therm_Mgr Ir_Mgr Pwr_Settings Power_Display Hdcp_State Deep_Sleep_Daemon Mfr_Server
    Ftue_Check Device_Update Sleep_Timer Vrex_Mgr Pwr_Generations Mfr_Manager
    Auto_Bind Uinput_Device Mfr_Crypto Mfr_Rpc Pwr_Start Bus_Lifecycle Legacy_Profile
begin

text \<open>
  A model of the RDK IARM managers: the processes of a set-top box or TV that talk over the IARM bus
  and own its power state, its remote keys, its display, its temperature, its system status and its
  updates.  The code is C, with some C++; the definitions follow it function by function and keep
  its names.

  \<^bold>\<open>How the parts interact.\<close>  The IR manager turns raw key codes into bus events and uinput events.
  The power manager reads the key events, changes the power state, saves it in its settings file and
  broadcasts mode changes; it runs the reset sequences, the deep sleep module, the thermal
  protection and the sleep timer in its own process.  The device settings manager follows the mode
  changes (ports, LED, boot loader pattern) and the plug, HDCP and system mode events (resolution,
  audio); its HDCP status goes to the system manager, which keeps the system states that clients
  read.  The deep sleep daemon, the manufacturer manager, the device update manager and the voice
  manager are processes of their own: the managers above reach the first two over the bus, the last
  talks to the remotes and to a voice server.

  The repository holds two generations of two parts.  The older power manager (src/power) also
  drives the ports and the LED that the device settings manager drives in the newer design, and
  leaves deep sleep to its daemon; the manufacturer library has an older manager and an RPC server
  with more calls.  Both of each are modelled.

  \<^bold>\<open>Theories and the code they model.\<close>

  \<^item> Iarm\_Prelude: result codes, power states, key codes, strings of the C library, traces.
    Text\_Search: std::string, C strings, numeric conversions and key=value files.  Slot\_Store: the
    locale slot\_store (a handler
    that overwrites slots; a client reads what the last event that concerns a slot left there), with
    two interpretations: sys\_slots in Sys\_Mgr and sessions in Device\_Update.

  \<^item> Ir\_Mgr: ir/irMgr.c, ir/uinput.c, iarmmgrutil/iarmcec.c.  State: the last key, the repeat counters
    and the pending release.  The lemmas say which events a key gives, and that no two keys overlap
    on the bus.  Auto\_Bind: the line-of-sight binding of ir/irMgr.c, as a step relation over the
    single accesses of the key handler and the switch-off thread to the clock they share.
    Uinput\_Device: ir/uinput.c with the device of the kernel, which answers each request as it likes.

  \<^item> Pwr\_Settings: the settings file of pwrmgr2/pwrMgr.c, byte for byte, with every layout that older
    builds wrote.  Pwr\_Mgr: the handlers, the timers and the two threads of pwrmgr2/pwrMgr.c as one
    machine over events; Reset\_Seq, Deep\_Sleep, Therm\_Mgr and Sleep\_Timer: pwrmgr2/reset.c and the
    reset scripts, deepSleep.c, therm\_mgr.c with therm\_mon.c, sleepTimer.c.
    Pwr\_Start puts the machine on its file: a start from the bytes, the writes of a run, and the
    next start.

  \<^item> Av\_Ports, Ux\_Controller, Ds\_Pwr\_Listener: dsmgr/dsMgrPwrEventListener.c and
    dsMgrProductTraitsHandler.cpp.  Ux\_Controller has the locales ux\_class and ux\_silent\_class for
    what a product profile promises, interpreted for the four profiles.  Ftue\_Check:
    dsmgr/dsMgrHelper.cpp.  Ds\_Resolution and Ds\_Mgr: dsmgr/dsMgr.c.

  \<^item> Sys\_Mgr: sysmgr/sysMgr.c.  Deep\_Sleep\_Daemon: deepsleepmgr/deepSleepMgr.c.  Mfr\_Server:
    mfr/common/rpc/srv/mfrSrv.c.  Mfr\_Manager: mfr/mfrMgr.c.  Mfr\_Crypto:
    mfr/common/cryptolib/mfrCrypto.c, with an explicit heap.  Mfr\_Client: the client library
    mfr/common/rpc/cli/mfrCli.c.  Mfr\_Rpc: the calls of the client answered by the handlers of the
    server.  Json\_Parser, Device\_Update:
    deviceUpdateMgr.

  \<^item> Vrex\_Session, Vrex\_Mgr: vrexmgr/vrexSession.cpp and vrexMgr.cpp.  State: one session for each
    remote (conversation, stream, settings) and what the manager has been told.  The locale
    session\_op states what a session operation leaves alone and which conversation its requests
    carry; it is interpreted for the operations of the session.

  \<^item> Pwr\_Legacy: power/pwrMgr.c, where it differs from pwrmgr2/pwrMgr.c.  Pwr\_Generations: the older
    box (power manager and daemon) beside the newer one (power manager and listener), driven by the
    same events.  Legacy\_Profile: power/productTraits.cpp, the older manager in a build with a
    product profile, beside the listener on the same profile.

  \<^item> Bus\_Lifecycle: the start and stop functions of all managers as the lists of what they register on
    the bus and remove from it, and the calls between the processes, for every build.

  \<^item> Pwr\_Start, Mfr\_Rpc, Power\_Display (power manager and display), Hdcp\_State (device settings and system manager),
    Pwr\_Generations and this theory compose the components.

  \<^bold>\<open>How state and operations correspond.\<close>  The static variables of a file are a record; a handler
  is a function from its arguments and the state to the new state, the effects it has (bus calls and
  events, commands, library calls, in order) and its result.  What the code reads from outside (the
  answers of a HAL or library, files, clocks, malloc) is an argument with the name of the call.
  Undefined behaviour, an uncaught exception, a deadlock and a loop that does not end are None or a
  flag of the answer, never left out.  A component is a step function over its inputs, and the
  properties quantify over all lists of inputs with run\_trace or run\_opt; each handler runs without
  another in between, except where a lock is modelled (Mfr\_Server), a thread is split into its
  turns (Pwr\_Mgr, Ux\_Controller, Ds\_Mgr) or its accesses are steps of their own (Auto\_Bind).

  \<^bold>\<open>What the lemmas show.\<close>  Each theory has, in this order: the data and operations, the frame and
  invariant lemmas of its steps (which fields a step leaves alone, what every step keeps), the lemmas
  on traces, and last the properties with an instance for each that has hypotheses.  Properties that
  span components are in this theory, in Hdcp\_State, Pwr\_Generations, Legacy\_Profile, Pwr\_Start, Mfr\_Rpc and
  Bus\_Lifecycle.

  \<^bold>\<open>Bounds.\<close>  No bound is added to the code: its loops recurse over their data or a counter of the
  source, such as the five tries of the deep sleep loop, the twelve retries of the boot pattern, the
  sixty polls of the reboot reason, the rows of a key, the five entries of the standby table, the waits for the DDC
  line.  The endless loops of threads and of main are the traces.  Words have their width where the
  code can wrap (settings bytes, temperatures of the HAL, the load delay, image types, bytes of
  texts); counters of events are unbounded, as is the turn counter of the update manager.

  \<^bold>\<open>Not modelled.\<close>  Of src/power, the functions with the same text as in src/pwrmgr2, the copies of
  modelled files; the status file
  of the voice manager, which is not compiled; the power state notifier, which has no behaviour;
  process mains, starts on a bus that refuses a registration (but for Mfr\_Manager), heartbeats, log
  texts and the test programs.  The bus
  itself, the device settings library, GLib, sqlite, yajl, curl, OpenSSL and the HALs belong to other
  repositories and are inputs.
\<close>

section \<open>Properties that span components\<close>

text \<open>C1. The display follows the power manager.  Start the box: the power manager with any settings, the
  device settings manager with the power state it is told, on any product profile or none.  Let the
  power manager handle any events in any order (keys, RPC calls, timers, threads) and change its
  power state at least once, and let the listener get its mode changes in their order, mixed with
  whatever else reaches it (LED calls, reboot configuration, events of others, turns of the pattern
  retry thread), but for port calls, standby settings and the reboot reason poll.  Then every
  video port is on exactly if the power manager is ON.  Assumed: memory for the event, no reboot
  under way, ports that do not throw, and not the build that combines the wake-up timer event with
  the disabled maintenance reboot.\<close>

theorem display_follows_power_manager:
  assumes "pwr_run cfg evs (pwr_init st lastp cec wake t0) = Some (s', es)"
    and "\<forall>e\<in>set evs. malloc_ok (fst e)" and "\<not> rebooting es"
    and "\<not> (WAKEUP_TIMER_EVT (ds_options cfg) \<and> DISABLE_SCHD_REBOOT_AT_DEEPSLEEP (ds_options cfg))"
    and "initPwrEventListner p profile_id (Some (powerState st, lastp)) env ok = (l, cs)"
    and "list_all between is" and "List.map_filter heard is = map mc_newState (modes es)"
    and "modes es \<noteq> []" and "calm p" and "n \<in> set (supported_ports p)"
  shows "video_after (cs @ snd (run_trace (ds_step p) is l)) v n = (cur_power s' = PWRMGR_ON)"
proof -
  have told: "mc_newState (last (modes es)) = cur_power s'"
    using pwr_run_told [OF assms(1-4)] assms(8) by (simp add: tells_def)
  have "ux_all (\<lambda>u. poll_display u = None) l" using init_no_poll [of p profile_id] assms(5) by (metis fst_conv)
  from ports_after_inputs [OF assms(9,6) this, of "video_after cs v"] obtain v0 where
    "video_after (snd (run_trace (ds_step p) is l)) (video_after cs v) n
       = wanted_video p (table l) (last (List.map_filter heard is)) v0 n"
    using assms(7,8) by auto
  moreover have "last (List.map_filter heard is) = cur_power s'"
    using told assms(7,8) by (simp add: last_map)
  moreover have "table l = standby_boot" using init_table [of p profile_id] assms(5) by (metis fst_conv)
  ultimately show ?thesis
    using assms(10) by (simp add: wanted_video_def standby_boot_off)
qed

text \<open>A box that boots ON and is sent to standby.\<close>

theorem display_follows_power_manager_witness:
  "\<exists>s' es. pwr_run (box_cfg False) [(box_world, CallSetPowerState PWRMGR_STANDBY 0)]
       (pwr_init \<lparr>powerState = PWRMGR_ON, deep_sleep_timeout = 600, nwStandbyMode = False\<rparr> PWRMGR_ON False False 0)
       = Some (s', es)
   \<and> cur_power s' = PWRMGR_STANDBY
   \<and> \<not> video_after (snd (initPwrEventListner ds_example (Some 1) (Some (PWRMGR_ON, PWRMGR_ON)) boot_example True)
         @ snd (run_trace (ds_step ds_example)
             [Pwr_event True True PWRMGR_ON PWRMGR_STANDBY True, Background (Retry_turn True)]
             (fst (initPwrEventListner ds_example (Some 1) (Some (PWRMGR_ON, PWRMGR_ON)) boot_example True))))
       (\<lambda>_. True) ''HDMI0''"
proof -
  let ?st = "\<lparr>powerState = PWRMGR_ON, deep_sleep_timeout = 600, nwStandbyMode = False\<rparr>"
  let ?s = "pwr_init ?st PWRMGR_ON False False 0"
  obtain t ts r where c: "SetPowerState (box_cfg False) box_world PWRMGR_STANDBY 0 ?s = (t, ts, r)"
    by (metis prod_cases3)
  have on: "cur_power ?s = PWRMGR_ON" by (simp add: pwr_init_def cur_power_def)
  then have nb: "\<not> change_blocked (box_cfg False) ?s" by (simp add: change_blocked_def)
  have run: "pwr_run (box_cfg False) [(box_world, CallSetPowerState PWRMGR_STANDBY 0)] ?s = Some (t, ts)"
    by (simp add: c)
  have t: "cur_power t = PWRMGR_STANDBY" using SetPowerState_fields(2) [OF c] nb on by simp
  have ts: "map mc_newState (modes ts) = [PWRMGR_STANDBY]" "\<not> rebooting ts"
    using c SetPowerState_modes [OF c box_facts(2)] on nb SetPowerState_no_reboot [OF c] by simp_all
  then have ne: "modes ts \<noteq> []" by auto
  obtain l cs where l: "initPwrEventListner ds_example (Some 1) (Some (PWRMGR_ON, PWRMGR_ON)) boot_example True = (l, cs)"
    by fastforce
  have "video_after (cs @ snd (run_trace (ds_step ds_example)
        [Pwr_event True True PWRMGR_ON PWRMGR_STANDBY True, Background (Retry_turn True)] l)) (\<lambda>_. True) ''HDMI0''
      = (cur_power t = PWRMGR_ON)"
  proof (rule display_follows_power_manager [OF run _ ts(2) _ _ _ _ ne])
    show "initPwrEventListner ds_example (Some 1) (Some (powerState ?st, PWRMGR_ON)) boot_example True = (l, cs)"
      using l by simp
  qed (simp_all add: ts(1) box_facts box_cfg_def calm_def ds_example_def map_filter_def)
  then have "\<not> video_after (cs @ snd (run_trace (ds_step ds_example)
        [Pwr_event True True PWRMGR_ON PWRMGR_STANDBY True, Background (Retry_turn True)] l)) (\<lambda>_. True) ''HDMI0''"
    using t by simp
  then show ?thesis using run t unfolding l by (metis fst_conv snd_conv)
qed

end
